(* ===== verification/Svarla_Prelude.thy ===== *)
theory Svarla_Prelude
  imports Main "HOL-Library.AList"
begin

text \<open>
  Shared vocabulary of the development: JavaScript \<^verbatim>\<open>Map\<close> objects as association lists
  that keep insertion order, the interface of such a store as a locale, SQL tables as
  lists of rows, and reachability of a labelled step relation with its invariant rule.
\<close>

named_theorems jmap_simps \<open>lookup, update and key facts of JavaScript maps\<close>
named_theorems sql_simps \<open>facts about the SQL statements on tables\<close>

section \<open>Lists and options\<close>

lemma find_Some_mem: "find p xs = Some x \<Longrightarrow> x \<in> set xs \<and> p x"
  by (induction xs) (auto split: if_splits)

lemma find_None_filter: "find p xs = None \<longleftrightarrow> filter p xs = []"
  by (induction xs) auto

lemma find_map_upd:
  "find p (map (\<lambda>x. if q x then f x else x) xs) =
     map_option (\<lambda>x. if q x then f x else x) (find (\<lambda>x. p (if q x then f x else x)) xs)"
  by (induction xs) auto

lemma filter_map_upd:
  "filter p (map (\<lambda>x. if q x then f x else x) xs) =
     map (\<lambda>x. if q x then f x else x) (filter (\<lambda>x. p (if q x then f x else x)) xs)"
  by (induction xs) auto

lemma map_upd_idle: "(\<And>x. x \<in> set xs \<Longrightarrow> q x \<Longrightarrow> f x = x) \<Longrightarrow> map (\<lambda>x. if q x then f x else x) xs = xs"
  by (induction xs) auto

section \<open>JavaScript maps\<close>

text \<open>
  A JavaScript \<^verbatim>\<open>Map\<close> iterates in insertion order and \<^verbatim>\<open>set\<close> on a present key keeps its
  position: an association list with \<^const>\<open>AList.update\<close> and \<^const>\<open>AList.delete\<close>.
  \<open>jm_modify\<close> is the mutation, through a reference, of an object the map holds.
\<close>

type_synonym ('k, 'v) jmap = "('k \<times> 'v) list"

definition jm_get :: "('k, 'v) jmap \<Rightarrow> 'k \<Rightarrow> 'v option" where
  "jm_get m k = map_of m k"

definition jm_has :: "('k, 'v) jmap \<Rightarrow> 'k \<Rightarrow> bool" where
  "jm_has m k \<longleftrightarrow> (case map_of m k of None \<Rightarrow> False | Some _ \<Rightarrow> True)"

definition jm_set :: "'k \<Rightarrow> 'v \<Rightarrow> ('k, 'v) jmap \<Rightarrow> ('k, 'v) jmap" where
  "jm_set k v m = AList.update k v m"

definition jm_delete :: "'k \<Rightarrow> ('k, 'v) jmap \<Rightarrow> ('k, 'v) jmap" where
  "jm_delete k m = AList.delete k m"

definition jm_keys :: "('k, 'v) jmap \<Rightarrow> 'k list" where
  "jm_keys m = map fst m"

definition jm_modify :: "'k \<Rightarrow> ('v \<Rightarrow> 'v) \<Rightarrow> ('k, 'v) jmap \<Rightarrow> ('k, 'v) jmap" where
  "jm_modify k f m = map (\<lambda>(k', v). (k', if k' = k then f v else v)) m"

definition jm_filter :: "('k \<Rightarrow> 'v \<Rightarrow> bool) \<Rightarrow> ('k, 'v) jmap \<Rightarrow> ('k, 'v) jmap" where
  "jm_filter p m = filter (\<lambda>(k, v). p k v) m"

definition jm_ok :: "('k, 'v) jmap \<Rightarrow> bool" where
  "jm_ok m \<longleftrightarrow> distinct (map fst m)"

lemma jm_has_iff [jmap_simps]: "jm_has m k \<longleftrightarrow> jm_get m k \<noteq> None"
  by (simp add: jm_has_def jm_get_def split: option.splits)

lemma jm_get_empty [simp, jmap_simps]: "jm_get [] k = None"
  by (simp add: jm_get_def)

lemma jm_get_set [simp, jmap_simps]: "jm_get (jm_set k v m) k' = (if k' = k then Some v else jm_get m k')"
  by (simp add: jm_get_def jm_set_def update_conv')

lemma jm_get_delete [simp, jmap_simps]: "jm_get (jm_delete k m) k' = (if k' = k then None else jm_get m k')"
  by (simp add: jm_get_def jm_delete_def delete_conv')

lemma jm_get_modify [simp, jmap_simps]:
  "jm_get (jm_modify k f m) k' = (if k' = k then map_option f (jm_get m k') else jm_get m k')"
  by (induction m) (auto simp: jm_get_def jm_modify_def)

lemma jm_modify_absent: "jm_get m k = None \<Longrightarrow> jm_modify k f m = m"
  by (induction m) (auto simp: jm_modify_def jm_get_def split: if_splits)

lemma jm_ok_empty [simp]: "jm_ok []"
  by (simp add: jm_ok_def)

lemma jm_ok_set [simp, intro]: "jm_ok m \<Longrightarrow> jm_ok (jm_set k v m)"
  by (simp add: jm_ok_def jm_set_def distinct_update)

lemma jm_ok_delete [simp, intro]: "jm_ok m \<Longrightarrow> jm_ok (jm_delete k m)"
  by (simp add: jm_ok_def jm_delete_def distinct_delete)

lemma map_fst_modify [simp]: "map fst (jm_modify k f m) = map fst m"
  by (induction m) (auto simp: jm_modify_def)

lemma jm_ok_modify [simp]: "jm_ok (jm_modify k f m) = jm_ok m"
  by (simp add: jm_ok_def)

lemma jm_keys_modify [simp]: "jm_keys (jm_modify k f m) = jm_keys m"
  by (simp add: jm_keys_def)

lemma jm_ok_filter [simp, intro]: "jm_ok m \<Longrightarrow> jm_ok (jm_filter p m)"
  by (simp add: jm_ok_def jm_filter_def distinct_map_filter)

lemma jm_get_filter [jmap_simps]:
  "jm_ok m \<Longrightarrow> jm_get (jm_filter p m) k =
     (case jm_get m k of None \<Rightarrow> None | Some v \<Rightarrow> if p k v then Some v else None)"
proof (induction m)
  case Nil
  then show ?case by (simp add: jm_filter_def)
next
  case (Cons a m)
  obtain k' v where a: "a = (k', v)" by (cases a)
  have ok: "jm_ok m" and fresh: "k' \<notin> fst ` set m"
    using Cons.prems a by (auto simp: jm_ok_def)
  have none: "map_of m k' = None" using fresh by (simp add: map_of_eq_None_iff)
  show ?case
    using Cons.IH [OF ok] a none by (auto simp: jm_filter_def jm_get_def split: option.splits)
qed

lemma jm_keys_iff: "k \<in> set (jm_keys m) \<longleftrightarrow> jm_get m k \<noteq> None"
  by (simp add: jm_keys_def jm_get_def map_of_eq_None_iff)

lemma jm_get_mem: "jm_ok m \<Longrightarrow> (k, v) \<in> set m \<longleftrightarrow> jm_get m k = Some v"
  by (simp add: jm_ok_def jm_get_def)

lemma length_jm_delete_le: "length (jm_delete k m) \<le> length m"
  by (simp add: jm_delete_def AList.delete_eq)

lemma length_jm_set: "length (jm_set k v m) = (if jm_has m k then length m else Suc (length m))"
  by (induction m) (auto simp: jm_set_def jm_has_def split: option.splits)

subsection \<open>The store interface\<close>

text \<open>
  What the clients of a keyed store rely on: the laws of lookup after insert and after
  delete, and an invariant every operation keeps.
\<close>

locale key_store =
  fixes empty :: "'m"
    and get :: "'m \<Rightarrow> 'k \<Rightarrow> 'v option"
    and put :: "'k \<Rightarrow> 'v \<Rightarrow> 'm \<Rightarrow> 'm"
    and del :: "'k \<Rightarrow> 'm \<Rightarrow> 'm"
    and keys :: "'m \<Rightarrow> 'k list"
    and ok :: "'m \<Rightarrow> bool"
  assumes get_empty: "get empty k = None"
    and get_put: "get (put k v m) k' = (if k' = k then Some v else get m k')"
    and get_del: "get (del k m) k' = (if k' = k then None else get m k')"
    and keys_get: "k \<in> set (keys m) \<longleftrightarrow> get m k \<noteq> None"
    and ok_empty: "ok empty"
    and ok_put: "ok m \<Longrightarrow> ok (put k v m)"
    and ok_del: "ok m \<Longrightarrow> ok (del k m)"
    and ok_keys: "ok m \<Longrightarrow> distinct (keys m)"
begin

lemma put_then_get: "get (put k v m) k = Some v"
  by (simp add: get_put)

lemma del_then_get: "get (del k m) k = None"
  by (simp add: get_del)

lemma size_put:
  assumes "ok m"
  shows "length (keys (put k v m)) = (if get m k = None then Suc (length (keys m)) else length (keys m))"
proof -
  have "set (keys (put k v m)) = insert k (set (keys m))"
    by (auto simp: keys_get get_put split: if_splits)
  then have "length (keys (put k v m)) = card (insert k (set (keys m)))"
    by (metis assms ok_put ok_keys distinct_card)
  also have "\<dots> = (if get m k = None then Suc (card (set (keys m))) else card (set (keys m)))"
    by (simp add: keys_get card_insert_if)
  finally show ?thesis using assms by (simp add: ok_keys distinct_card)
qed

lemma size_del:
  assumes "ok m"
  shows "length (keys (del k m)) = (if get m k = None then length (keys m) else length (keys m) - 1)"
proof -
  have "set (keys (del k m)) = set (keys m) - {k}"
    by (auto simp: keys_get get_del split: if_splits)
  then have "length (keys (del k m)) = card (set (keys m) - {k})"
    by (metis assms ok_del ok_keys distinct_card)
  also have "\<dots> = (if get m k = None then card (set (keys m)) else card (set (keys m)) - 1)"
    by (simp add: keys_get card_Diff_singleton_if)
  finally show ?thesis using assms by (simp add: ok_keys distinct_card)
qed

end

interpretation jm: key_store "[]" jm_get jm_set jm_delete jm_keys jm_ok
  by unfold_locales (auto simp: jm_keys_iff, auto simp: jm_ok_def jm_keys_def)

section \<open>SQL tables\<close>

text \<open>
  A table is the list of its rows. The functions are the SQL statements the services
  send through the query builder: a select with a where clause, the first row of it, an
  update of the rows a where clause selects, with the updated rows where the statement
  has a returning clause, a delete and an insert. A select without an order takes the
  rows in stored order.
\<close>

type_synonym 'r table = "'r list"

definition sql_select :: "('r \<Rightarrow> bool) \<Rightarrow> 'r table \<Rightarrow> 'r list" where
  "sql_select p t = filter p t"

definition sql_first :: "('r \<Rightarrow> bool) \<Rightarrow> 'r table \<Rightarrow> 'r option" where
  "sql_first p t = find p t"

definition sql_count :: "('r \<Rightarrow> bool) \<Rightarrow> 'r table \<Rightarrow> nat" where
  "sql_count p t = length (filter p t)"

definition sql_update :: "('r \<Rightarrow> bool) \<Rightarrow> ('r \<Rightarrow> 'r) \<Rightarrow> 'r table \<Rightarrow> 'r table" where
  "sql_update p f t = map (\<lambda>r. if p r then f r else r) t"

definition sql_returning :: "('r \<Rightarrow> bool) \<Rightarrow> ('r \<Rightarrow> 'r) \<Rightarrow> 'r table \<Rightarrow> 'r list" where
  "sql_returning p f t = map f (filter p t)"

definition sql_delete :: "('r \<Rightarrow> bool) \<Rightarrow> 'r table \<Rightarrow> 'r table" where
  "sql_delete p t = filter (\<lambda>r. \<not> p r) t"

definition sql_insert :: "'r \<Rightarrow> 'r table \<Rightarrow> 'r table" where
  "sql_insert r t = t @ [r]"

definition first_row :: "'r list \<Rightarrow> 'r option" where
  "first_row rs = (case rs of [] \<Rightarrow> None | r # _ \<Rightarrow> Some r)"

lemma sql_first_Some: "sql_first p t = Some r \<Longrightarrow> r \<in> set t \<and> p r"
  by (simp add: sql_first_def find_Some_mem)

lemma sql_first_None: "sql_first p t = None \<longleftrightarrow> (\<forall>r \<in> set t. \<not> p r)"
  by (auto simp: sql_first_def find_None_iff)

lemma length_sql_update [simp, sql_simps]: "length (sql_update p f t) = length t"
  by (simp add: sql_update_def)

lemma sql_update_mem:
  "r \<in> set (sql_update p f t) \<longleftrightarrow> (\<exists>r0 \<in> set t. r = (if p r0 then f r0 else r0))"
  by (auto simp: sql_update_def)

lemma sql_update_none [sql_simps]: "sql_count p t = 0 \<Longrightarrow> sql_update p f t = t"
  by (induction t) (auto simp: sql_update_def sql_count_def split: if_splits)

lemma sql_update_map [sql_simps]:
  "(\<And>r. g (f r) = g r) \<Longrightarrow> map g (sql_update p f t) = map g t"
  by (simp add: sql_update_def)

lemma length_sql_returning [simp, sql_simps]: "length (sql_returning p f t) = sql_count p t"
  by (simp add: sql_returning_def sql_count_def)

lemma first_row_None [simp]: "first_row rs = None \<longleftrightarrow> rs = []"
  by (simp add: first_row_def split: list.splits)

lemma sql_returning_Nil: "sql_returning p f t = [] \<longleftrightarrow> sql_count p t = 0"
  by (simp add: sql_returning_def sql_count_def)

lemma sql_returning_sub: "r \<in> set (sql_returning p f t) \<Longrightarrow> r \<in> set (sql_update p f t)"
  by (auto simp: sql_returning_def sql_update_def)

subsection \<open>The statement interface\<close>

text \<open>
  The laws of the statements that the services rely on, over the set of rows a table
  holds and over a key column that no update changes.
\<close>

locale sql_store =
  fixes rows :: "'t \<Rightarrow> 'r list"
    and ins :: "'r \<Rightarrow> 't \<Rightarrow> 't"
    and upd :: "('r \<Rightarrow> bool) \<Rightarrow> ('r \<Rightarrow> 'r) \<Rightarrow> 't \<Rightarrow> 't"
    and del :: "('r \<Rightarrow> bool) \<Rightarrow> 't \<Rightarrow> 't"
  assumes rows_ins: "rows (ins r t) = rows t @ [r]"
    and rows_upd: "rows (upd p f t) = map (\<lambda>r. if p r then f r else r) (rows t)"
    and rows_del: "rows (del p t) = filter (\<lambda>r. \<not> p r) (rows t)"
begin

lemma upd_keeps_column: "(\<And>r. g (f r) = g r) \<Longrightarrow> map g (rows (upd p f t)) = map g (rows t)"
  by (simp add: rows_upd)

lemma upd_keeps_distinct:
  "(\<And>r. g (f r) = g r) \<Longrightarrow> distinct (map g (rows t)) \<Longrightarrow> distinct (map g (rows (upd p f t)))"
  by (simp only: upd_keeps_column)

lemma ins_keeps_distinct:
  "distinct (map g (rows t)) \<Longrightarrow> g r \<notin> g ` set (rows t) \<Longrightarrow> distinct (map g (rows (ins r t)))"
  by (simp add: rows_ins)

lemma del_keeps_distinct: "distinct (map g (rows t)) \<Longrightarrow> distinct (map g (rows (del p t)))"
  by (simp add: rows_del distinct_map_filter)

lemma upd_other:
  "r \<in> set (rows t) \<Longrightarrow> \<not> p r \<Longrightarrow> r \<in> set (rows (upd p f t))"
  by (force simp: rows_upd)

lemma upd_all:
  "(\<And>r. r \<in> set (rows t) \<Longrightarrow> Q r) \<Longrightarrow> (\<And>r. r \<in> set (rows t) \<Longrightarrow> p r \<Longrightarrow> Q r \<Longrightarrow> Q (f r))
    \<Longrightarrow> r \<in> set (rows (upd p f t)) \<Longrightarrow> Q r"
  by (auto simp: rows_upd split: if_splits)

end

interpretation tbl: sql_store "\<lambda>t. t" sql_insert sql_update sql_delete
  by unfold_locales (simp_all add: sql_insert_def sql_update_def sql_delete_def)

lemma filter_distinct_key: "distinct (map f xs) \<Longrightarrow> x \<in> set xs \<Longrightarrow> filter (\<lambda>y. f y = f x) xs = [x]"
  by (induction xs) (auto simp: filter_empty_conv image_iff)

section \<open>Reachable states of a step relation\<close>

inductive reach :: "('s \<Rightarrow> bool) \<Rightarrow> ('s \<Rightarrow> 'e \<Rightarrow> 's \<Rightarrow> bool) \<Rightarrow> 's \<Rightarrow> bool"
  for init :: "'s \<Rightarrow> bool" and step :: "'s \<Rightarrow> 'e \<Rightarrow> 's \<Rightarrow> bool" where
  reach_init: "init s \<Longrightarrow> reach init step s"
| reach_step: "reach init step s \<Longrightarrow> step s e t \<Longrightarrow> reach init step t"

inductive run :: "('s \<Rightarrow> 'e \<Rightarrow> 's \<Rightarrow> bool) \<Rightarrow> 's \<Rightarrow> 'e list \<Rightarrow> 's \<Rightarrow> bool"
  for step :: "'s \<Rightarrow> 'e \<Rightarrow> 's \<Rightarrow> bool" where
  run_Nil: "run step s [] s"
| run_Cons: "step s e t \<Longrightarrow> run step t es u \<Longrightarrow> run step s (e # es) u"

lemma run_single: "step s e t \<Longrightarrow> run step s [e] t"
  by (rule run_Cons [OF _ run_Nil])

lemma reach_run: "run step s es t \<Longrightarrow> reach init step s \<Longrightarrow> reach init step t"
  by (induction rule: run.induct) (auto intro: reach_step)

lemma run_append: "run step s es t \<Longrightarrow> run step t es' u \<Longrightarrow> run step s (es @ es') u"
  by (induction rule: run.induct) (auto intro: run.intros)

text \<open>
  A component with state: its initial states, its steps, and an invariant that holds
  initially and that every step keeps, hence holds in every reachable state.
\<close>

locale invariant_system =
  fixes init :: "'s \<Rightarrow> bool"
    and step :: "'s \<Rightarrow> 'e \<Rightarrow> 's \<Rightarrow> bool"
    and inv :: "'s \<Rightarrow> bool"
  assumes inv_init: "init s \<Longrightarrow> inv s"
    and inv_step: "inv s \<Longrightarrow> step s e t \<Longrightarrow> inv t"
begin

lemma reach_inv: "reach init step s \<Longrightarrow> inv s"
  by (induction rule: reach.induct) (auto intro: inv_init inv_step)

lemma run_inv: "run step s es t \<Longrightarrow> inv s \<Longrightarrow> inv t"
  by (induction rule: run.induct) (auto intro: inv_step)

end

end
