(* ===== verification/Js_Text.thy ===== *)
theory Js_Text
  imports Svarla_Prelude
begin

text \<open>
  JavaScript strings as lists of UTF-16 code units, and the string operations of the
  language that the sources use: \<^verbatim>\<open>trim\<close>, \<^verbatim>\<open>slice\<close>, \<^verbatim>\<open>startsWith\<close>, \<^verbatim>\<open>split\<close>, the digit
  class of regular expressions, \<^verbatim>\<open>String(n)\<close> and \<^verbatim>\<open>Number(s)\<close> on decimal digits.
\<close>

type_synonym jstr = "nat list"

definition js :: "string \<Rightarrow> jstr" where
  "js s = map of_char s"

lemma js_Nil [simp]: "js '''' = []"
  by (simp add: js_def)

lemma js_Cons: "js (c # cs) = of_char c # js cs"
  by (simp add: js_def)

lemma js_append: "js (a @ b) = js a @ js b"
  by (simp add: js_def)

lemma length_js [simp]: "length (js s) = length s"
  by (simp add: js_def)

lemma js_eq_iff [simp]: "js a = js b \<longleftrightarrow> a = b"
  by (simp add: js_def inj_map_eq_map inj_of_char)

subsection \<open>Character classes\<close>

definition is_digit :: "nat \<Rightarrow> bool" where
  "is_digit u \<longleftrightarrow> 48 \<le> u \<and> u \<le> 57"

definition is_upper :: "nat \<Rightarrow> bool" where
  "is_upper u \<longleftrightarrow> 65 \<le> u \<and> u \<le> 90"

definition is_lower :: "nat \<Rightarrow> bool" where
  "is_lower u \<longleftrightarrow> 97 \<le> u \<and> u \<le> 122"

text \<open>
  White space and line terminators of the language, removed by \<^verbatim>\<open>trim\<close> and matched by
  \<^verbatim>\<open>\s\<close>: tab, line feed, vertical tab, form feed, carriage return, space, no-break space,
  the space separators, the line and paragraph separators and the byte order mark.
\<close>

definition is_space :: "nat \<Rightarrow> bool" where
  "is_space u \<longleftrightarrow> (9 \<le> u \<and> u \<le> 13) \<or> u = 32 \<or> u = 160 \<or> u = 5760 \<or> (8192 \<le> u \<and> u \<le> 8202)
     \<or> u = 8232 \<or> u = 8233 \<or> u = 8239 \<or> u = 8287 \<or> u = 12288 \<or> u = 65279"

lemma digit_not_space: "is_digit u \<Longrightarrow> \<not> is_space u"
  by (simp add: is_digit_def is_space_def)

definition all_digits :: "jstr \<Rightarrow> bool" where
  "all_digits s \<longleftrightarrow> list_all is_digit s"

lemma all_digits_simps [simp]:
  "all_digits []"
  "all_digits (u # s) \<longleftrightarrow> is_digit u \<and> all_digits s"
  "all_digits (s @ t) \<longleftrightarrow> all_digits s \<and> all_digits t"
  by (simp_all add: all_digits_def)

subsection \<open>Trimming and prefixes\<close>

definition trim :: "jstr \<Rightarrow> jstr" where
  "trim s = rev (dropWhile is_space (rev (dropWhile is_space s)))"

definition starts_with :: "jstr \<Rightarrow> jstr \<Rightarrow> bool" where
  "starts_with s p \<longleftrightarrow> take (length p) s = p"

definition edges_solid :: "jstr \<Rightarrow> bool" where
  "edges_solid s \<longleftrightarrow> (case s of [] \<Rightarrow> True | u # _ \<Rightarrow> \<not> is_space u \<and> \<not> is_space (last s))"

lemma trim_solid: "edges_solid s \<Longrightarrow> trim s = s"
proof (cases s rule: rev_cases)
  case Nil
  then show ?thesis by (simp add: trim_def)
next
  case (snoc xs x)
  assume e: "edges_solid s"
  then have "\<not> is_space x" using snoc by (cases xs) (auto simp: edges_solid_def)
  moreover have "dropWhile is_space s = s"
    using e by (cases s) (auto simp: edges_solid_def)
  ultimately show ?thesis using snoc by (simp add: trim_def)
qed

lemma dropWhile_last: "dropWhile P s \<noteq> [] \<Longrightarrow> last (dropWhile P s) = last s"
  by (induction s) auto

lemma edges_solid_trim: "edges_solid (trim s)"
proof (cases "trim s")
  case Nil
  then show ?thesis by (simp add: edges_solid_def)
next
  case (Cons u t)
  let ?d = "dropWhile is_space s"
  let ?r = "dropWhile is_space (rev ?d)"
  have r: "?r \<noteq> []" using Cons by (auto simp: trim_def)
  then have "\<not> is_space (hd ?r)" by (metis hd_dropWhile)
  then have l: "\<not> is_space (last (trim s))" using r by (simp add: trim_def last_rev)
  have d: "?d \<noteq> []" using r by (metis dropWhile.simps(1) rev.simps(1))
  have "hd (trim s) = last ?r" using r by (simp add: trim_def hd_rev)
  also have "\<dots> = hd ?d" using dropWhile_last [OF r] d by (simp add: last_rev)
  finally have "\<not> is_space (hd (trim s))" using d by (metis hd_dropWhile)
  then show ?thesis using l Cons by (simp add: edges_solid_def)
qed

lemma trim_trim [simp]: "trim (trim s) = trim s"
  by (rule trim_solid [OF edges_solid_trim])

lemma length_trim_le: "length (trim s) \<le> length s"
  by (metis length_dropWhile_le length_rev order_trans trim_def)

lemma trim_Nil_iff: "trim s = [] \<longleftrightarrow> list_all is_space s"
proof -
  have "trim s = [] \<longleftrightarrow> (\<forall>u \<in> set (dropWhile is_space s). is_space u)"
    by (simp add: trim_def)
  also have "\<dots> \<longleftrightarrow> list_all is_space s"
    unfolding list_all_iff by (induction s) simp_all
  finally show ?thesis .
qed

lemma all_digits_solid: "all_digits s \<Longrightarrow> edges_solid s"
  by (cases s) (auto simp: edges_solid_def all_digits_def list_all_iff dest: digit_not_space)

subsection \<open>Decimal numerals\<close>

text \<open>\<^verbatim>\<open>String(n)\<close> of a whole number, most significant digit first.\<close>

fun dec :: "nat \<Rightarrow> jstr" where
  "dec n = (if n < 10 then [48 + n] else dec (n div 10) @ [48 + n mod 10])"

declare dec.simps [simp del]

text \<open>\<^verbatim>\<open>Number(s)\<close> of a string of decimal digits.\<close>

definition undec :: "jstr \<Rightarrow> nat" where
  "undec s = foldl (\<lambda>a u. 10 * a + (u - 48)) 0 s"

lemma undec_snoc: "undec (s @ [u]) = 10 * undec s + (u - 48)"
  by (simp add: undec_def)

lemma all_digits_dec [simp]: "all_digits (dec n)"
proof (induction n rule: dec.induct)
  case (1 n)
  then show ?case by (subst dec.simps) (auto simp: is_digit_def)
qed

lemma dec_not_Nil [simp]: "dec n \<noteq> []"
  by (subst dec.simps) simp

lemma undec_dec [simp]: "undec (dec n) = n"
proof (induction n rule: dec.induct)
  case (1 n)
  show ?case
  proof (cases "n < 10")
    case True
    then show ?thesis by (subst dec.simps) (simp add: undec_def)
  next
    case False
    with 1 have "undec (dec (n div 10)) = n div 10" by simp
    with False show ?thesis by (subst dec.simps) (simp add: undec_snoc)
  qed
qed

text \<open>\<^verbatim>\<open>padStart(2, '0')\<close>.\<close>

definition pad_start2 :: "jstr \<Rightarrow> jstr" where
  "pad_start2 s = replicate (2 - length s) 48 @ s"

lemma undec_zero: "undec (48 # s) = undec s"
  by (simp add: undec_def)

lemma all_digits_pad [simp]: "all_digits s \<Longrightarrow> all_digits (pad_start2 s)"
  by (auto simp: pad_start2_def all_digits_def list_all_iff is_digit_def)

lemma undec_pad [simp]: "undec (pad_start2 s) = undec s"
proof -
  have "undec (replicate k 48 @ s) = undec s" for k
    by (induction k) (simp_all add: undec_zero)
  then show ?thesis by (simp add: pad_start2_def)
qed

lemma pad_start2_not_Nil [simp]: "pad_start2 s \<noteq> []"
  by (cases s) (auto simp: pad_start2_def)

lemma length_dec_le: "n < 100 \<Longrightarrow> length (pad_start2 (dec n)) = 2"
  by (subst dec.simps, subst dec.simps) (auto simp: pad_start2_def)

subsection \<open>Splitting at a separator\<close>

text \<open>\<^verbatim>\<open>s.split(sep)\<close> for a one-character separator: never empty.\<close>

fun split_on :: "nat \<Rightarrow> jstr \<Rightarrow> jstr list" where
  "split_on sep [] = [[]]"
| "split_on sep (u # s) =
     (if u = sep then [] # split_on sep s
      else (case split_on sep s of [] \<Rightarrow> [[u]] | p # ps \<Rightarrow> (u # p) # ps))"

lemma split_on_not_Nil [simp]: "split_on sep s \<noteq> []"
  by (induction s) (auto split: list.splits)

lemma split_on_none: "sep \<notin> set s \<Longrightarrow> split_on sep s = [s]"
  by (induction s) auto

lemma split_on_app: "sep \<notin> set s \<Longrightarrow> split_on sep (s @ sep # t) = s # split_on sep t"
  by (induction s) auto

lemma colon_not_digit: "all_digits s \<Longrightarrow> 58 \<notin> set s"
  by (auto simp: all_digits_def list_all_iff is_digit_def)

subsection \<open>Evaluating text\<close>

lemmas text_eval = js_def is_digit_def is_upper_def is_lower_def is_space_def trim_def
  starts_with_def dec.simps undec_def pad_start2_def

end
