(* ===== verification/Validators.thy ===== *)
theory Validators
  imports Js_Text
begin

text \<open>
  The input validators of \<^verbatim>\<open>src/validators\<close> (label, message, password and phone number)
  with the two phone-number normalisations. A \<^verbatim>\<open>ValidationResult\<close> \<^verbatim>\<open>{valid: true}\<close> is
  \<open>Valid\<close> and \<^verbatim>\<open>{valid: false, error: e}\<close> is \<open>Invalid e\<close>.
\<close>

datatype validation_result = Valid | Invalid string

section \<open>Labels and message bodies\<close>

definition validate_label :: "jstr \<Rightarrow> validation_result" where
  "validate_label label =
     (if label = [] then Invalid ''Label is required''
      else if length label < 1 \<or> length label > 30
        then Invalid ''Label must be between 1 and 30 characters''
      else Valid)"

lemma validate_label_Valid: "validate_label l = Valid \<longleftrightarrow> 1 \<le> length l \<and> length l \<le> 30"
  by (cases l) (auto simp: validate_label_def)

definition validate_message :: "jstr \<Rightarrow> validation_result" where
  "validate_message body =
     (if body = [] then Invalid ''Message body is required''
      else if length (trim body) = 0 then Invalid ''Message body must not be whitespace-only''
      else if length body > 1600 then Invalid ''Message body must not exceed 1600 characters''
      else Valid)"

lemma validate_message_Valid:
  "validate_message b = Valid \<longleftrightarrow> \<not> list_all is_space b \<and> length b \<le> 1600"
  by (auto simp: validate_message_def trim_Nil_iff)

section \<open>Passwords\<close>

text \<open>The quote and the back quote of the source's list are the code units 39 and 96.\<close>

definition SPECIAL_CHARACTERS :: jstr where
  "SPECIAL_CHARACTERS = js ''!@#$%^&*()-_+=[]{}|;:'' @ [39] @ js '',.<>?/~'' @ [96]"

definition validate_password :: "jstr \<Rightarrow> validation_result" where
  "validate_password password =
     (if password = [] then Invalid ''Password is required''
      else if length password < 12 then Invalid ''Password must be at least 12 characters long''
      else if \<not> list_ex is_upper password
        then Invalid ''Password must contain at least one uppercase letter''
      else if \<not> list_ex is_lower password
        then Invalid ''Password must contain at least one lowercase letter''
      else if \<not> list_ex is_digit password
        then Invalid ''Password must contain at least one digit''
      else if \<not> list_ex (\<lambda>u. u \<in> set SPECIAL_CHARACTERS) password
        then Invalid (''Password must contain at least one special character (!@#$%^&*()-_+=[]{}|;:''
          @ [CHR 39] @ '',.<>?/~'' @ [CHR 96] @ '')'')
      else Valid)"

lemma validate_password_Valid:
  "validate_password p = Valid \<longleftrightarrow>
     12 \<le> length p \<and> list_ex is_upper p \<and> list_ex is_lower p \<and> list_ex is_digit p
     \<and> list_ex (\<lambda>u. u \<in> set SPECIAL_CHARACTERS) p"
  by (auto simp: validate_password_def)

section \<open>Phone numbers\<close>

text \<open>\<^verbatim>\<open>/^\+[1-9]\d{1,14}$/\<close>: a plus sign (43), a digit from 1 to 9, one to fourteen digits.\<close>

definition E164_REGEX :: "jstr \<Rightarrow> bool" where
  "E164_REGEX s = (case s of
       p # d # rest \<Rightarrow> p = 43 \<and> 49 \<le> d \<and> d \<le> 57 \<and> all_digits rest
         \<and> 1 \<le> length rest \<and> length rest \<le> 14
     | _ \<Rightarrow> False)"

text \<open>\<^verbatim>\<open>/^[0-9]{3,15}$/\<close>\<close>

definition LOCAL_NUMBER_REGEX :: "jstr \<Rightarrow> bool" where
  "LOCAL_NUMBER_REGEX s \<longleftrightarrow> all_digits s \<and> 3 \<le> length s \<and> length s \<le> 15"

definition validate_phone_number :: "jstr \<Rightarrow> validation_result" where
  "validate_phone_number phone =
     (if phone = [] then Invalid ''Phone number is required''
      else let trimmed = trim phone in
        if E164_REGEX trimmed \<or> LOCAL_NUMBER_REGEX trimmed then Valid
        else Invalid ''Phone number must be in E.164 format (e.g., +14155552671) or local format (e.g., 0701234567)'')"

definition two_digit_codes :: "jstr list" where
  "two_digit_codes = map dec
     [20, 27, 30, 31, 32, 33, 34, 36, 39,
      40, 41, 43, 44, 45, 46, 47, 48, 49,
      51, 52, 53, 54, 55, 56, 57, 58,
      60, 61, 62, 63, 64, 65, 66,
      70, 71, 72, 73, 74, 75, 76, 77, 78, 79,
      81, 82, 84, 86,
      90, 91, 92, 93, 94, 95, 98]"

text \<open>\<^verbatim>\<open>null\<close> is \<^const>\<open>None\<close>; \<open>49\<close> and \<open>55\<close> are the digits 1 and 7.\<close>

definition extract_country_code :: "jstr \<Rightarrow> jstr option" where
  "extract_country_code e164 =
     (if \<not> starts_with e164 [43] \<or> length e164 < 3 then None
      else let digits = drop 1 e164 in
        if digits ! 0 = 49 \<or> digits ! 0 = 55 then Some [digits ! 0]
        else let two_digit = take 2 digits in
          if two_digit \<in> set two_digit_codes then Some two_digit
          else Some (take 3 digits))"

definition normalize_to_e164 :: "jstr \<Rightarrow> jstr \<Rightarrow> jstr" where
  "normalize_to_e164 to from =
     (let trimmed_to = trim to in
      if E164_REGEX trimmed_to then trimmed_to
      else if \<not> E164_REGEX from then trimmed_to
      else (case extract_country_code from of
          None \<Rightarrow> trimmed_to
        | Some country_code \<Rightarrow>
            if country_code = [] then trimmed_to
            else if starts_with trimmed_to [48] then [43] @ country_code @ drop 1 trimmed_to
            else trimmed_to))"

definition normalize_inbound_number :: "jstr \<Rightarrow> jstr" where
  "normalize_inbound_number value =
     (if value = [] then value
      else if starts_with value [43] then value
      else if \<not> all_digits value then value
      else if \<not> starts_with value [48] \<and> length value \<le> 6 then value
      else [43] @ value)"

subsection \<open>Lemmas\<close>

lemma starts_with_one [simp]: "starts_with s [u] \<longleftrightarrow> (\<exists>t. s = u # t)"
  by (cases s) (auto simp: starts_with_def)

lemma E164_shape:
  assumes "E164_REGEX s"
  obtains d rest where "s = 43 # d # rest" "49 \<le> d" "d \<le> 57" "all_digits rest" "1 \<le> length rest" "length rest \<le> 14"
  using assms by (auto simp: E164_REGEX_def split: list.splits)

lemma E164_solid: "E164_REGEX s \<Longrightarrow> edges_solid s"
proof -
  assume "E164_REGEX s"
  then obtain d rest where s: "s = 43 # d # rest" and r: "all_digits rest" "1 \<le> length rest"
    by (rule E164_shape) blast
  have "is_digit (last rest)" using r by (cases rest rule: rev_cases) auto
  then have "\<not> is_space (last s)" using s r by (auto dest: digit_not_space)
  then show ?thesis using s by (simp add: edges_solid_def is_space_def)
qed

lemma trim_E164 [simp]: "E164_REGEX s \<Longrightarrow> trim s = s"
  by (rule trim_solid [OF E164_solid])

lemma edges_solid_cons_tail:
  assumes "edges_solid (u # t)" "\<not> is_space v" "p \<noteq> []" "list_all (\<lambda>u. \<not> is_space u) p"
  shows "edges_solid (v # p @ t)"
  using assms by (cases t) (auto simp: edges_solid_def list_all_iff)

lemma all_digits_take: "all_digits s \<Longrightarrow> all_digits (take n s)"
  by (auto simp: all_digits_def list_all_iff dest: in_set_takeD)

lemma country_code_digits:
  assumes "E164_REGEX from"
  obtains d cc where "extract_country_code from = Some (d # cc)" "49 \<le> d" "d \<le> 57"
    "all_digits cc" "length cc \<le> 2"
proof -
  obtain d rest where f: "from = 43 # d # rest" "49 \<le> d" "d \<le> 57" and r: "all_digits rest" "1 \<le> length rest"
    using assms by (rule E164_shape) blast
  let ?cc = "if d = 49 \<or> d = 55 then [] else if take 2 (d # rest) \<in> set two_digit_codes
    then take 1 rest else take 2 rest"
  have "extract_country_code from = Some (d # ?cc)"
    using f r by (cases rest) (auto simp: extract_country_code_def Let_def numeral_2_eq_2 numeral_3_eq_3)
  moreover have "all_digits ?cc" using all_digits_take [OF r(1)] by simp
  moreover have "length ?cc \<le> 2" by (auto simp: min_def)
  ultimately show ?thesis using that f by blast
qed

lemma digits_list_solid: "all_digits p \<Longrightarrow> list_all (\<lambda>u. \<not> is_space u) p"
  by (auto simp: all_digits_def list_all_iff dest: digit_not_space)

lemma normalize_cases:
  "normalize_to_e164 to from = trim to \<or>
   (\<exists>cc t. E164_REGEX from \<and> extract_country_code from = Some cc \<and> trim to = 48 # t
      \<and> normalize_to_e164 to from = 43 # cc @ t)"
  by (auto simp: normalize_to_e164_def Let_def split: option.splits)

lemma normalize_solid: "trim (normalize_to_e164 to from) = normalize_to_e164 to from"
proof (rule disjE [OF normalize_cases [of to "from"]])
  assume "normalize_to_e164 to from = trim to"
  then show ?thesis by simp
next
  assume "\<exists>cc t. E164_REGEX from \<and> extract_country_code from = Some cc \<and> trim to = 48 # t
      \<and> normalize_to_e164 to from = 43 # cc @ t"
  then obtain cc t where f: "E164_REGEX from" "extract_country_code from = Some cc" "trim to = 48 # t"
    and n: "normalize_to_e164 to from = 43 # cc @ t" by blast
  have cc: "cc \<noteq> []" "all_digits cc"
    by (rule country_code_digits [OF f(1)], use f(2) in \<open>auto simp: is_digit_def\<close>)+
  have "edges_solid (48 # t)" using edges_solid_trim [of to] f(3) by simp
  then have "edges_solid (43 # cc @ t)"
    using cc by (intro edges_solid_cons_tail digits_list_solid) (auto simp: is_space_def)
  then show ?thesis using n by (simp add: trim_solid)
qed

section \<open>Properties\<close>

text \<open>Normalising a destination is idempotent: whatever the destination and the sender
  (valid or not), normalising an already normalised number with the same sender changes
  nothing, so the number a conversation is keyed by is stable.\<close>

theorem normalize_to_e164_idem:
  "normalize_to_e164 (normalize_to_e164 to from) from = normalize_to_e164 to from"
proof (rule disjE [OF normalize_cases [of to "from"]])
  assume t: "normalize_to_e164 to from = trim to"
  have "normalize_to_e164 (trim to) from = normalize_to_e164 to from"
    by (simp add: normalize_to_e164_def)
  then show ?thesis using t by simp
next
  assume "\<exists>cc t. E164_REGEX from \<and> extract_country_code from = Some cc \<and> trim to = 48 # t
      \<and> normalize_to_e164 to from = 43 # cc @ t"
  then obtain cc t where n: "normalize_to_e164 to from = 43 # cc @ t" by blast
  have s: "trim (43 # cc @ t) = 43 # cc @ t" using normalize_solid [of to "from"] n by simp
  then have "normalize_to_e164 (43 # cc @ t) from = 43 # cc @ t"
    by (auto simp: normalize_to_e164_def Let_def split: option.splits)
  then show ?thesis using n by simp
qed

text \<open>With a valid E.164 sender, every local destination that passes
  \<^verbatim>\<open>validatePhoneNumber\<close>, starts with the trunk digit 0 and has at most 13 characters is
  normalised to a valid E.164 number that carries the sender's country code. The bound is
  needed: the validator accepts 15 local digits, and the country code then makes the
  number longer than E.164 allows.\<close>

theorem normalize_local_is_e164:
  assumes "E164_REGEX from" "validate_phone_number to = Valid" "trim to = 48 # t" "length (trim to) \<le> 13"
  shows "E164_REGEX (normalize_to_e164 to from) \<and>
    (\<exists>cc. extract_country_code from = Some cc \<and> normalize_to_e164 to from = [43] @ cc @ t)"
proof -
  obtain d cc where cc: "extract_country_code from = Some (d # cc)" "49 \<le> d" "d \<le> 57" "all_digits cc" "length cc \<le> 2"
    using assms(1) by (rule country_code_digits)
  have no: "\<not> E164_REGEX (trim to)" using assms(3) by (simp add: E164_REGEX_def split: list.splits)
  then have "LOCAL_NUMBER_REGEX (trim to)"
    using assms(2) by (auto simp: validate_phone_number_def Let_def split: if_splits)
  then have t: "all_digits t" "length t \<le> 12" "2 \<le> length t"
    using assms(3,4) by (auto simp: LOCAL_NUMBER_REGEX_def)
  have n: "normalize_to_e164 to from = 43 # d # cc @ t"
    using assms(1,3) cc no by (simp add: normalize_to_e164_def Let_def)
  have "E164_REGEX (43 # d # cc @ t)"
    using cc t by (simp add: E164_REGEX_def)
  then show ?thesis using n cc(1) by auto
qed

theorem normalize_local_is_e164_witness:
  "E164_REGEX (normalize_to_e164 (js ''0701234567'') (js ''+46700000000''))
   \<and> (\<exists>cc. normalize_to_e164 (js ''0701234567'') (js ''+46700000000'') = [43] @ cc @ js ''701234567'')"
proof -
  have a: "E164_REGEX (js ''+46700000000'')"
    by (simp add: text_eval E164_REGEX_def)
  have b: "validate_phone_number (js ''0701234567'') = Valid"
    by (simp add: text_eval validate_phone_number_def E164_REGEX_def LOCAL_NUMBER_REGEX_def)
  have c: "trim (js ''0701234567'') = 48 # js ''701234567''"
    by (simp add: text_eval)
  have d: "length (trim (js ''0701234567'')) \<le> 13"
    by (simp add: c)
  show ?thesis using normalize_local_is_e164 [OF a b c d] by blast
qed

lemma normalize_local_too_long:
  "validate_phone_number (js ''012345678901234'') = Valid
   \<and> \<not> E164_REGEX (normalize_to_e164 (js ''012345678901234'') (js ''+46700000000''))"
  by (simp add: text_eval validate_phone_number_def E164_REGEX_def LOCAL_NUMBER_REGEX_def
      normalize_to_e164_def extract_country_code_def two_digit_codes_def)

end
