(* ===== verification/Url_Guard.thy ===== *)
theory Url_Guard
  imports Validators
begin

text \<open>
  \<^verbatim>\<open>src/validators/url-validator.ts\<close>: the guard against server-side request forgery for
  push endpoints. URL parsing and DNS resolution are outside the sources and are the
  parameters \<open>parse\<close> (protocol and host name of a URL, \<open>None\<close> when the constructor throws)
  and \<open>lookup\<close> (all addresses of a host, \<open>None\<close> when resolution fails).
\<close>

definition to_lower :: "jstr \<Rightarrow> jstr" where
  "to_lower s = map (\<lambda>u. if is_upper u then u + 32 else u) s"

definition ends_with :: "jstr \<Rightarrow> jstr \<Rightarrow> bool" where
  "ends_with s p \<longleftrightarrow> starts_with (rev s) (rev p)"

text \<open>\<^verbatim>\<open>parseInt(s, 10)\<close>; \<^const>\<open>None\<close> is \<^verbatim>\<open>NaN\<close>.\<close>

definition parse_int :: "jstr \<Rightarrow> int option" where
  "parse_int s =
     (let t = dropWhile is_space s;
          neg = starts_with t [45];
          u = (if neg \<or> starts_with t [43] then drop 1 t else t);
          ds = takeWhile is_digit u
      in if ds = [] then None else Some (if neg then - int (undec ds) else int (undec ds)))"

definition BLOCKED_IPV4_RANGES :: "jstr list" where
  "BLOCKED_IPV4_RANGES = [js ''127.'', js ''10.'', js ''192.168.'', js ''169.254.'', js ''0.'']"

definition is_private_172 :: "jstr \<Rightarrow> bool" where
  "is_private_172 ip =
     (let parts = split_on 46 ip in
      if parts ! 0 \<noteq> js ''172'' then False
      else (case parts of
          _ # p1 # _ \<Rightarrow> (case parse_int p1 of None \<Rightarrow> False | Some second \<Rightarrow> 16 \<le> second \<and> second \<le> 31)
        | _ \<Rightarrow> False))"

definition is_blocked_ipv6 :: "jstr \<Rightarrow> bool" where
  "is_blocked_ipv6 ip =
     (let normalized = to_lower ip in
      if normalized = js ''::1'' \<or> normalized = js ''0000:0000:0000:0000:0000:0000:0000:0001'' then True
      else if starts_with normalized (js ''fe80:'') \<or> starts_with normalized (js ''fe80'') then True
      else if starts_with normalized (js ''fc'') \<or> starts_with normalized (js ''fd'') then True
      else if normalized = js ''::'' \<or> normalized = js ''0000:0000:0000:0000:0000:0000:0000:0000'' then True
      else False)"

definition is_private_ip :: "jstr \<Rightarrow> bool" where
  "is_private_ip ip =
     (if 58 \<in> set ip then is_blocked_ipv6 ip
      else if list_ex (starts_with ip) BLOCKED_IPV4_RANGES then True
      else if is_private_172 ip then True
      else False)"

definition is_local_host :: "jstr \<Rightarrow> bool" where
  "is_local_host hostname \<longleftrightarrow>
     hostname = js ''localhost'' \<or> hostname = js ''127.0.0.1'' \<or> hostname = js ''::1''
     \<or> hostname = js ''[::1]'' \<or> ends_with hostname (js ''.local'') \<or> ends_with hostname (js ''.internal'')"

definition validate_push_endpoint_url ::
    "(jstr \<Rightarrow> (jstr \<times> jstr) option) \<Rightarrow> (jstr \<Rightarrow> jstr list option) \<Rightarrow> jstr \<Rightarrow> bool \<Rightarrow> validation_result" where
  "validate_push_endpoint_url parse lookup url skip_ssrf_protection =
     (case parse url of
        None \<Rightarrow> Invalid ''Invalid URL format''
      | Some (protocol, host) \<Rightarrow>
          if protocol \<noteq> js ''https:'' \<and> protocol \<noteq> js ''http:''
            then Invalid ''Push endpoint URL must use HTTP or HTTPS''
          else if skip_ssrf_protection then Valid
          else if protocol \<noteq> js ''https:''
            then Invalid ''Push endpoint URL must use HTTPS (set PUSH_ENDPOINT_SSRF_PROTECTION=false to allow HTTP for private LAN setups)''
          else let hostname = to_lower host in
            if is_local_host hostname
              then Invalid ''Push endpoint URL must not target localhost or internal hosts''
            else (case lookup hostname of
                None \<Rightarrow> Invalid ''Push endpoint URL hostname could not be resolved''
              | Some addresses \<Rightarrow>
                  if list_ex is_private_ip addresses
                    then Invalid ''Push endpoint URL resolves to a private/reserved IP address''
                  else Valid))"

section \<open>Dotted addresses\<close>

text \<open>The textual form of an IPv4 address and the reserved ranges in numbers.\<close>

definition dotted :: "nat \<Rightarrow> nat \<Rightarrow> nat \<Rightarrow> nat \<Rightarrow> jstr" where
  "dotted a b c d = dec a @ 46 # dec b @ 46 # dec c @ 46 # dec d"

definition reserved_ipv4 :: "nat \<Rightarrow> nat \<Rightarrow> bool" where
  "reserved_ipv4 a b \<longleftrightarrow> a = 0 \<or> a = 10 \<or> a = 127 \<or> (a = 169 \<and> b = 254) \<or> (a = 192 \<and> b = 168)
     \<or> (a = 172 \<and> 16 \<le> b \<and> b \<le> 31)"

lemma dec_no_dot: "46 \<notin> set (dec n)"
  using all_digits_dec [of n] by (auto simp: all_digits_def list_all_iff is_digit_def)

lemma dec_no_colon: "58 \<notin> set (dec n)"
  using all_digits_dec [of n] by (rule colon_not_digit)

lemma dec_eq_iff: "dec m = dec n \<longleftrightarrow> m = n"
  by (metis undec_dec)

lemma prefix_one_label:
  "46 \<notin> set s \<Longrightarrow> 46 \<notin> set p \<Longrightarrow> starts_with (s @ 46 # r) (p @ [46]) \<longleftrightarrow> s = p"
proof (induction s arbitrary: p)
  case Nil
  then show ?case by (cases p) (auto simp: starts_with_def)
next
  case (Cons a s)
  then show ?case by (cases p) (auto simp: starts_with_def)
qed

lemma prefix_label_more:
  "46 \<notin> set s \<Longrightarrow> 46 \<notin> set p \<Longrightarrow>
     starts_with (s @ 46 # r) (p @ 46 # q) \<longleftrightarrow> s = p \<and> starts_with r q"
proof (induction s arbitrary: p)
  case Nil
  then show ?case by (cases p) (auto simp: starts_with_def)
next
  case (Cons a s)
  then show ?case by (cases p) (auto simp: starts_with_def)
qed

lemma range_prefixes:
  "js ''127.'' = dec 127 @ [46]" "js ''10.'' = dec 10 @ [46]" "js ''0.'' = dec 0 @ [46]"
  "js ''192.168.'' = dec 192 @ 46 # dec 168 @ [46]" "js ''169.254.'' = dec 169 @ 46 # dec 254 @ [46]"
  "js ''172'' = dec 172"
  by (simp_all add: js_def dec.simps)

lemma takeWhile_digits: "all_digits s \<Longrightarrow> takeWhile is_digit s = s"
  by (simp add: all_digits_def list_all_iff)

lemma parse_int_dec [simp]: "parse_int (dec n) = Some (int n)"
proof -
  obtain u t where d: "dec n = u # t" by (cases "dec n") auto
  have u: "is_digit u" and t: "all_digits t" using all_digits_dec [of n] d by (auto simp: all_digits_def)
  have "u \<noteq> 43" "u \<noteq> 45" using u by (auto simp: is_digit_def)
  moreover have "undec (u # t) = n" using d by (metis undec_dec)
  ultimately show ?thesis
    using u unfolding d parse_int_def Let_def
    by (simp add: digit_not_space takeWhile_digits [OF t])
qed

lemma private_172_dotted: "is_private_172 (dotted a b c d) \<longleftrightarrow> a = 172 \<and> 16 \<le> b \<and> b \<le> 31"
  by (auto simp: is_private_172_def dotted_def split_on_app dec_no_dot range_prefixes dec_eq_iff Let_def)

lemma starts_with_Nil [simp]: "starts_with s []"
  by (simp add: starts_with_def)

lemma ranges_dotted:
  "list_ex (starts_with (dotted a b c d)) BLOCKED_IPV4_RANGES \<longleftrightarrow>
     a = 127 \<or> a = 10 \<or> (a = 192 \<and> b = 168) \<or> (a = 169 \<and> b = 254) \<or> a = 0"
  by (simp add: BLOCKED_IPV4_RANGES_def range_prefixes dotted_def prefix_one_label prefix_label_more
      dec_no_dot dec_eq_iff)

lemma no_colon_dotted: "58 \<notin> set (dotted a b c d)"
  by (simp add: dotted_def dec_no_colon)

lemma is_private_dotted_iff: "is_private_ip (dotted a b c d) \<longleftrightarrow> reserved_ipv4 a b"
  by (auto simp: is_private_ip_def no_colon_dotted ranges_dotted private_172_dotted reserved_ipv4_def)

section \<open>Properties\<close>

text \<open>On dotted IPv4 addresses the textual check of the code (string prefixes and
  \<^verbatim>\<open>parseInt\<close> of the second label) is exactly the numeric membership in the reserved
  ranges 0/8, 10/8, 127/8, 169.254/16, 172.16/12 and 192.168/16.\<close>

theorem is_private_ip_dotted: "is_private_ip (dotted a b c d) \<longleftrightarrow> reserved_ipv4 a b"
  by (rule is_private_dotted_iff)

text \<open>With the protection on, an accepted push endpoint is an HTTPS URL whose host is
  not a local name, resolves, and resolves to no dotted address in a reserved range.\<close>

theorem validated_url_is_public:
  assumes "validate_push_endpoint_url parse lookup url False = Valid"
  shows "\<exists>host addresses. parse url = Some (js ''https:'', host) \<and> \<not> is_local_host (to_lower host)
    \<and> lookup (to_lower host) = Some addresses
    \<and> (\<forall>a b c d. dotted a b c d \<in> set addresses \<longrightarrow> \<not> reserved_ipv4 a b)"
proof -
  from assms obtain host addresses where
    *: "parse url = Some (js ''https:'', host)" "\<not> is_local_host (to_lower host)"
      "lookup (to_lower host) = Some addresses" "\<not> list_ex is_private_ip addresses"
    by (auto simp: validate_push_endpoint_url_def Let_def split: option.splits prod.splits if_splits)
  then have "\<forall>a b c d. dotted a b c d \<in> set addresses \<longrightarrow> \<not> reserved_ipv4 a b"
    by (metis is_private_dotted_iff list_ex_iff)
  with * show ?thesis by blast
qed

theorem validated_url_is_public_witness:
  "\<not> reserved_ipv4 93 184
   \<and> (\<exists>host addresses. Some (js ''https:'', js ''push.example'') = Some (js ''https:'', host)
      \<and> \<not> is_local_host (to_lower host) \<and> Some [dotted 93 184 216 34] = Some addresses
      \<and> (\<forall>a b c d. dotted a b c d \<in> set addresses \<longrightarrow> \<not> reserved_ipv4 a b))"
proof -
  have p: "\<not> is_private_ip (dotted 93 184 216 34)"
    by (simp add: is_private_dotted_iff reserved_ipv4_def)
  have "validate_push_endpoint_url (\<lambda>_. Some (js ''https:'', js ''push.example''))
      (\<lambda>_. Some [dotted 93 184 216 34]) (js ''https://push.example'') False = Valid"
    using p by (simp add: validate_push_endpoint_url_def Let_def is_local_host_def ends_with_def
        to_lower_def text_eval)
  from validated_url_is_public [OF this] show ?thesis
    by (simp add: reserved_ipv4_def)
qed

lemma mapped_loopback_accepted: "\<not> is_private_ip (js ''::ffff:127.0.0.1'')"
  by (simp add: is_private_ip_def is_blocked_ipv6_def to_lower_def text_eval)

lemma link_local_febf_accepted: "\<not> is_private_ip (js ''febf::1'')"
  by (simp add: is_private_ip_def is_blocked_ipv6_def to_lower_def text_eval)

end
