(* ===== verification/Formatters.thy ===== *)
theory Formatters
  imports Js_Text Complex_Main
begin

text \<open>
  The formatters of \<^verbatim>\<open>src/formatters\<close>: message previews, call durations and the masking of
  secrets in provider configurations. A finite JavaScript number of seconds is a
  rational; the sources take its floor before anything else. \<^verbatim>\<open>String\<close> of a whole number
  is its decimal numeral (the language switches to exponents at \<^verbatim>\<open>1e21\<close> only).
\<close>

section \<open>Message previews\<close>

text \<open>8230 is the horizontal ellipsis.\<close>

definition truncate_message :: "jstr \<Rightarrow> nat \<Rightarrow> jstr" where
  "truncate_message message max_length =
     (if length message \<le> max_length then message
      else take (max_length - 1) message @ [8230])"

definition notification_preview :: "jstr \<Rightarrow> jstr" where
  "notification_preview message = truncate_message message 100"

definition thread_list_preview :: "jstr \<Rightarrow> jstr" where
  "thread_list_preview message = truncate_message message 50"

lemma length_truncate: "0 < n \<Longrightarrow> length (truncate_message m n) \<le> n"
  by (simp add: truncate_message_def)

lemma truncate_idem: "0 < n \<Longrightarrow> truncate_message (truncate_message m n) n = truncate_message m n"
  using length_truncate [of n m] by (subst truncate_message_def) simp

lemma truncate_shows_prefix: "take (n - 1) (truncate_message m n) = take (n - 1) m"
  by (simp add: truncate_message_def)

section \<open>Durations\<close>

definition whole_seconds :: "rat \<Rightarrow> nat" where
  "whole_seconds seconds = nat (max 0 \<lfloor>seconds\<rfloor>)"

definition format_duration_hhmmss :: "rat \<Rightarrow> jstr" where
  "format_duration_hhmmss seconds =
     (let total_seconds = whole_seconds seconds;
          hours = total_seconds div 3600;
          minutes = (total_seconds mod 3600) div 60;
          secs = total_seconds mod 60
      in pad_start2 (dec hours) @ [58] @ pad_start2 (dec minutes) @ [58] @ pad_start2 (dec secs))"

definition format_duration_for_history :: "rat \<Rightarrow> jstr" where
  "format_duration_for_history seconds =
     (let total_seconds = whole_seconds seconds in
      if 3600 \<le> total_seconds then format_duration_hhmmss (of_nat total_seconds)
      else dec (total_seconds div 60) @ js ''m '' @ dec (total_seconds mod 60) @ js ''s'')"

lemma whole_seconds_of_nat [simp]: "whole_seconds (of_nat n) = n"
  by (simp add: whole_seconds_def)

lemma hms_split: "t = 3600 * (t div 3600) + 60 * ((t mod 3600) div 60) + t mod (60::nat)"
proof -
  have "t mod 3600 mod 60 = t mod 60" by (simp add: mod_mod_cancel)
  then show ?thesis
    using mult_div_mod_eq [of 3600 t] mult_div_mod_eq [of 60 "t mod 3600"] by linarith
qed

section \<open>Secrets\<close>

definition mask_secret :: "jstr \<Rightarrow> jstr" where
  "mask_secret value =
     (if length value < 4 then replicate (length value) 42
      else replicate (length value - 4) 42 @ drop (length value - 4) value)"

text \<open>A value of a configuration: a string, or any other JSON value.\<close>

datatype 'a config_value = CStr jstr | COther 'a

definition SECRET_FIELDS :: "string \<Rightarrow> jstr list option" where
  "SECRET_FIELDS = (\<lambda>_. None)
     (''vonage'' := Some (map js [''api_secret'', ''signature_secret'', ''private_key'', ''private_key_path'']),
      ''dummy'' := Some [])"

fun mask_value :: "'a config_value \<Rightarrow> 'a config_value" where
  "mask_value (CStr s) = CStr (mask_secret s)"
| "mask_value (COther v) = COther v"

definition mask_provider_config ::
    "string \<Rightarrow> (jstr \<times> 'a config_value) list \<Rightarrow> (jstr \<times> 'a config_value) list" where
  "mask_provider_config type config =
     (case SECRET_FIELDS type of
        None \<Rightarrow> config
      | Some secret_fields \<Rightarrow>
          if length secret_fields = 0 then config
          else map (\<lambda>(key, value). (key, if key \<in> set secret_fields then mask_value value else value)) config)"

lemma length_mask_secret [simp]: "length (mask_secret s) = length s"
  by (simp add: mask_secret_def)

lemma mask_secret_idem: "mask_secret (mask_secret s) = mask_secret s"
  by (simp add: mask_secret_def)

text \<open>Two secrets of one length with the same last four characters cannot be told apart.\<close>

lemma mask_secret_eq_iff:
  "mask_secret s = mask_secret t \<longleftrightarrow>
     length s = length t \<and> (length s < 4 \<or> drop (length s - 4) s = drop (length t - 4) t)"
proof
  assume eq: "mask_secret s = mask_secret t"
  then have "length s = length t" by (metis length_mask_secret)
  with eq show "length s = length t \<and> (length s < 4 \<or> drop (length s - 4) s = drop (length t - 4) t)"
    by (auto simp: mask_secret_def split: if_splits)
qed (auto simp: mask_secret_def)

section \<open>Properties\<close>

text \<open>A preview of at most \<open>n\<close> characters is what \<^verbatim>\<open>truncate\<close> promises: the message itself
  when it fits, otherwise exactly \<open>n\<close> characters of which the first \<open>n - 1\<close> are the
  message's and the last is the ellipsis; previewing a preview changes nothing.\<close>

theorem previews_fit:
  "length (notification_preview m) = min (length m) 100
   \<and> length (thread_list_preview m) = min (length m) 50
   \<and> take 99 (notification_preview m) = take 99 m
   \<and> take 49 (thread_list_preview m) = take 49 m
   \<and> thread_list_preview (notification_preview m) = thread_list_preview m
   \<and> thread_list_preview (thread_list_preview m) = thread_list_preview m"
  by (simp add: notification_preview_def thread_list_preview_def truncate_message_def min_def take_Suc)

text \<open>Masking a secret reveals its length and, from four characters on, the last four
  characters, and nothing else: two secrets have the same mask exactly when they agree on
  these; and a masked configuration keeps every key and every field that is not secret.\<close>

theorem mask_reveals_only_tail:
  "(mask_secret s = mask_secret t \<longleftrightarrow>
      length s = length t \<and> (length s < 4 \<or> drop (length s - 4) s = drop (length t - 4) t))
   \<and> map fst (mask_provider_config type config) = map fst config
   \<and> mask_provider_config type (mask_provider_config type config) = mask_provider_config type config
   \<and> (case SECRET_FIELDS type of
        None \<Rightarrow> mask_provider_config type config = config
      | Some fs \<Rightarrow> map_of (mask_provider_config type config) k
          = (if k \<in> set fs then map_option mask_value (map_of config k) else map_of config k))"
proof -
  have m: "mask_value (mask_value v) = mask_value v" for v :: "'a config_value"
    by (cases v) (simp_all add: mask_secret_idem)
  have l: "map_of (map (\<lambda>(key, value). (key, if key \<in> set fs then mask_value value else value)) config) k
      = (if k \<in> set fs then map_option mask_value (map_of config k) else map_of config k)" for fs
    by (induction config) auto
  show ?thesis
    using mask_secret_eq_iff [of s t] m l
    by (auto simp: mask_provider_config_def comp_def split: option.splits)
qed

end
