(* ===== verification/Web_Text.thy ===== *)
theory Web_Text
  imports Formatters Validators
begin

text \<open>
  The pure helpers of the browser's calling code, \<^verbatim>\<open>src/web/src/call\<close>: the duration timer
  and its parser, the dialer's validation, the DTMF guard and the capability guard, with
  the server's choice of a SIP address.
\<close>

section \<open>The call timer\<close>

datatype js_number = Finite rat | PosInfinity | NegInfinity | NaN

definition ONE_HOUR_SECONDS :: nat where
  "ONE_HOUR_SECONDS = 3600"

definition pad2 :: "nat \<Rightarrow> jstr" where
  "pad2 value = (if value < 10 then [48] @ dec value else dec value)"

definition elapsed_total :: "js_number \<Rightarrow> nat" where
  "elapsed_total elapsed_seconds = (case elapsed_seconds of Finite q \<Rightarrow> nat (max 0 \<lfloor>q\<rfloor>) | _ \<Rightarrow> 0)"

definition format_duration :: "js_number \<Rightarrow> jstr" where
  "format_duration elapsed_seconds =
     (let total = elapsed_total elapsed_seconds;
          seconds = total mod 60;
          total_minutes = total div 60
      in if total < ONE_HOUR_SECONDS then pad2 total_minutes @ [58] @ pad2 seconds
         else let hours = total div ONE_HOUR_SECONDS;
                  minutes = total_minutes mod 60
              in pad2 hours @ [58] @ pad2 minutes @ [58] @ pad2 seconds)"

definition digits_only :: "jstr \<Rightarrow> bool" where
  "digits_only s \<longleftrightarrow> s \<noteq> [] \<and> all_digits s"

definition parse_duration :: "jstr \<Rightarrow> nat option" where
  "parse_duration formatted =
     (let parts = split_on 58 formatted in
      if length parts \<noteq> 2 \<and> length parts \<noteq> 3 then None
      else if \<not> list_all digits_only parts then None
      else (case map undec parts of
          [minutes, seconds] \<Rightarrow> Some (minutes * 60 + seconds)
        | [hours, minutes, seconds] \<Rightarrow> Some (hours * ONE_HOUR_SECONDS + minutes * 60 + seconds)
        | _ \<Rightarrow> None))"

lemma pad2_pad_start: "pad2 n = pad_start2 (dec n)"
proof (cases "n < 10")
  case True
  then show ?thesis by (simp add: pad2_def pad_start2_def dec.simps)
next
  case False
  then have "length (dec n) \<ge> 2" by (subst dec.simps) (auto simp: Suc_le_eq)
  with False show ?thesis by (simp add: pad2_def pad_start2_def)
qed

lemma pad2_digits [simp]: "digits_only (pad2 n)"
  by (simp add: digits_only_def pad2_pad_start)

lemma pad2_no_colon [simp]: "58 \<notin> set (pad2 n)"
  by (simp add: pad2_pad_start colon_not_digit)

lemma undec_pad2 [simp]: "undec (pad2 n) = n"
  by (simp add: pad2_pad_start)

lemma split_mmss: "split_on 58 (pad2 m @ 58 # pad2 s) = [pad2 m, pad2 s]"
  by (simp add: split_on_app split_on_none)

lemma split_hhmmss: "split_on 58 (pad2 h @ 58 # pad2 m @ 58 # pad2 s) = [pad2 h, pad2 m, pad2 s]"
  by (simp add: split_on_app split_on_none)

lemma minutes_agree: "t div 60 mod 60 = t mod 3600 div (60::nat)"
proof -
  have "t mod (60 * 60) = 60 * (t div 60 mod 60) + t mod 60" by (rule mod_mult2_eq)
  then have "t mod 3600 = 60 * (t div 60 mod 60) + t mod 60" by simp
  then have "t mod 3600 div 60 = (60 * (t div 60 mod 60) + t mod 60) div 60" by simp
  then show ?thesis by simp
qed

section \<open>The dialer\<close>

datatype destination_error = Empty | Too_Long | Invalid_Characters | Not_E164

datatype destination_result = Dest_Ok jstr | Dest_Error destination_error

definition MAX_DESTINATION_LENGTH :: nat where
  "MAX_DESTINATION_LENGTH = 20"

definition MIN_DESTINATION_LENGTH :: nat where
  "MIN_DESTINATION_LENGTH = 1"

text \<open>The separators are the parentheses (40, 41), the hyphen (45), the dot (46) and white space.\<close>

definition is_separator :: "nat \<Rightarrow> bool" where
  "is_separator u \<longleftrightarrow> u = 40 \<or> u = 41 \<or> u = 45 \<or> u = 46 \<or> is_space u"

definition ALLOWED_INPUT :: "jstr \<Rightarrow> bool" where
  "ALLOWED_INPUT s \<longleftrightarrow> s \<noteq> [] \<and> list_all (\<lambda>u. is_digit u \<or> u = 43 \<or> is_separator u) s"

definition E164_PATTERN :: "jstr \<Rightarrow> bool" where
  "E164_PATTERN s = (case s of
       p # d # rest \<Rightarrow> p = 43 \<and> 49 \<le> d \<and> d \<le> 57 \<and> all_digits rest \<and> length rest \<le> 14
     | _ \<Rightarrow> False)"

definition dial_normalize_to_e164 :: "jstr \<Rightarrow> jstr option" where
  "dial_normalize_to_e164 input =
     (let has_plus = starts_with input [43];
          body = (if has_plus then drop 1 input else input)
      in if 43 \<in> set body then None
         else let digits = filter (\<lambda>u. \<not> is_separator u) body in
           if length digits = 0 \<or> \<not> digits_only digits then None
           else let candidate = [43] @ digits in
             if E164_PATTERN candidate then Some candidate else None)"

definition validate_destination :: "jstr \<Rightarrow> destination_result" where
  "validate_destination raw =
     (let trimmed = trim raw in
      if length trimmed < MIN_DESTINATION_LENGTH then Dest_Error Empty
      else if length trimmed > MAX_DESTINATION_LENGTH then Dest_Error Too_Long
      else if \<not> ALLOWED_INPUT trimmed then Dest_Error Invalid_Characters
      else (case dial_normalize_to_e164 trimmed of
          None \<Rightarrow> Dest_Error Not_E164
        | Some e164 \<Rightarrow> Dest_Ok e164))"

definition can_submit_destination :: "jstr \<Rightarrow> bool" where
  "can_submit_destination raw = (case validate_destination raw of Dest_Ok _ \<Rightarrow> True | Dest_Error _ \<Rightarrow> False)"

lemma digit_not_separator: "is_digit u \<Longrightarrow> \<not> is_separator u"
  by (auto simp: is_separator_def is_digit_def is_space_def)

lemma E164_PATTERN_shape:
  assumes "E164_PATTERN s"
  obtains ds where "s = 43 # ds" "digits_only ds" "length ds \<le> 15"
  using assms by (auto simp: E164_PATTERN_def digits_only_def is_digit_def split: list.splits)

lemma E164_PATTERN_server: "E164_PATTERN s \<Longrightarrow> 3 \<le> length s \<Longrightarrow> E164_REGEX s"
  by (auto simp: E164_PATTERN_def E164_REGEX_def Suc_le_eq split: list.splits)

lemma filter_digits: "all_digits s \<Longrightarrow> filter (\<lambda>u. \<not> is_separator u) s = s"
  by (auto simp: all_digits_def list_all_iff digit_not_separator intro: filter_True)

lemma no_plus_digits: "all_digits s \<Longrightarrow> 43 \<notin> set s"
  by (auto simp: all_digits_def list_all_iff is_digit_def)

lemma dial_normalize_fix:
  assumes "E164_PATTERN s"
  shows "dial_normalize_to_e164 s = Some s"
proof -
  obtain ds where s: "s = 43 # ds" and d: "digits_only ds" using assms by (rule E164_PATTERN_shape)
  then have "all_digits ds" by (simp add: digits_only_def)
  then show ?thesis using s d assms
    by (simp add: dial_normalize_to_e164_def Let_def filter_digits no_plus_digits digits_only_def)
qed

lemma dial_normalize_pattern: "dial_normalize_to_e164 s = Some e \<Longrightarrow> E164_PATTERN e"
  by (auto simp: dial_normalize_to_e164_def Let_def split: if_splits)

lemma strip_keeps_digits: "filter is_digit (filter (\<lambda>u. \<not> is_separator u) s) = filter is_digit s"
  by (induction s) (auto dest: digit_not_separator)

lemma dial_normalize_digits: "dial_normalize_to_e164 s = Some e \<Longrightarrow> filter is_digit e = filter is_digit s"
proof -
  assume n: "dial_normalize_to_e164 s = Some e"
  have p: "\<not> is_digit 43" by (simp add: is_digit_def)
  from n show ?thesis
    by (auto simp: dial_normalize_to_e164_def Let_def strip_keeps_digits p simp del: filter_filter split: if_splits)
qed

lemma E164_PATTERN_solid: "E164_PATTERN s \<Longrightarrow> edges_solid s"
proof -
  assume "E164_PATTERN s"
  then obtain ds where s: "s = 43 # ds" and d: "digits_only ds" by (rule E164_PATTERN_shape)
  then have "is_digit (last ds)" by (auto simp: digits_only_def all_digits_def list_all_iff)
  then show ?thesis using s d
    by (auto simp: edges_solid_def digits_only_def digit_not_space) (simp add: is_space_def)
qed

section \<open>DTMF digits\<close>

definition DTMF_DIGITS :: "jstr list" where
  "DTMF_DIGITS = map js [''1'', ''2'', ''3'', ''4'', ''5'', ''6'', ''7'', ''8'', ''9'', ''*'', ''0'', ''#'']"

text \<open>An unknown value is a string or something else.\<close>

definition is_dtmf_digit :: "jstr option \<Rightarrow> bool" where
  "is_dtmf_digit value = (case value of None \<Rightarrow> False | Some s \<Rightarrow> s \<in> set DTMF_DIGITS)"

lemma DTMF_DIGITS_set: "set DTMF_DIGITS = {[u] | u. is_digit u \<or> u = 42 \<or> u = 35}"
proof -
  have "is_digit u \<longleftrightarrow> u \<in> {48, 49, 50, 51, 52, 53, 54, 55, 56, 57}" for u
    unfolding is_digit_def by simp presburger
  then show ?thesis by (auto simp: DTMF_DIGITS_def js_def)
qed

section \<open>Capabilities\<close>

datatype capability_message_key = Requires_Secure_Connection | Unsupported_Browser

record capability_report =
  cap_secure_context :: bool
  cap_has_rtc_peer_connection :: bool
  cap_has_get_user_media :: bool
  cap_calling_supported :: bool

text \<open>
  The global objects the guard inspects: \<^verbatim>\<open>window\<close> (\<^const>\<open>None\<close> when undefined) with
  \<^verbatim>\<open>isSecureContext === true\<close> and whether \<^verbatim>\<open>RTCPeerConnection\<close> is a function, and
  \<^verbatim>\<open>navigator\<close> with its \<^verbatim>\<open>mediaDevices\<close> and whether \<^verbatim>\<open>getUserMedia\<close> is a function.
\<close>

definition detect_capabilities :: "(bool \<times> bool) option \<Rightarrow> bool option option \<Rightarrow> capability_report" where
  "detect_capabilities window navigator =
     (let secure_context = (case window of None \<Rightarrow> False | Some (secure, _) \<Rightarrow> secure);
          has_rtc = (case window of None \<Rightarrow> False | Some (_, rtc) \<Rightarrow> rtc);
          has_gum = (case navigator of None \<Rightarrow> False | Some None \<Rightarrow> False | Some (Some gum) \<Rightarrow> gum)
      in \<lparr> cap_secure_context = secure_context, cap_has_rtc_peer_connection = has_rtc,
           cap_has_get_user_media = has_gum,
           cap_calling_supported = secure_context \<and> has_rtc \<and> has_gum \<rparr>)"

definition capability_message :: "capability_report \<Rightarrow> capability_message_key option" where
  "capability_message report =
     (if cap_calling_supported report then None
      else if \<not> cap_secure_context report then Some Requires_Secure_Connection
      else Some Unsupported_Browser)"

definition calling_unavailable_reason :: "(bool \<times> bool) option \<Rightarrow> bool option option \<Rightarrow> string option" where
  "calling_unavailable_reason window navigator =
     (case capability_message (detect_capabilities window navigator) of
        None \<Rightarrow> None
      | Some Requires_Secure_Connection \<Rightarrow>
          Some ''Calling requires a secure (HTTPS) connection. Open this app over HTTPS or via http://localhost to place calls.''
      | Some Unsupported_Browser \<Rightarrow> Some (''Calling isn'' @ [CHR 39] @ ''t supported in this browser.''))"

section \<open>SIP addresses\<close>

record sip_uri_selection_input =
  sip_uri :: jstr
  sips_uri :: jstr
  supports_sips :: bool
  sip_tls_enabled :: bool

definition select_sip_uri :: "sip_uri_selection_input \<Rightarrow> jstr" where
  "select_sip_uri input =
     (if supports_sips input \<and> sip_tls_enabled input then sips_uri input else sip_uri input)"

lemma parse_format: "parse_duration (format_duration n) = Some (elapsed_total n)"
proof -
  let ?t = "elapsed_total n"
  have mm: "60 * (?t div 60) + ?t mod 60 = ?t" by simp
  have hh: "3600 * (?t div 3600) + 60 * (?t div 60 mod 60) + ?t mod 60 = ?t"
    using hms_split [of ?t] by (simp add: minutes_agree)
  show ?thesis
    using mm hh
    by (simp add: format_duration_def parse_duration_def Let_def split_mmss split_hhmmss ONE_HOUR_SECONDS_def
        mult.commute)
qed

section \<open>Properties\<close>

text \<open>The texts of the two timers determine the whole seconds they show, so the parser
  gives back the elapsed time (floored, clamped at zero, zero where not finite), and from
  one hour on the browser's timer, the server's \<^verbatim>\<open>HH:MM:SS\<close> formatter and the call-history
  formatter print the same text.\<close>

theorem durations_agree:
  "parse_duration (format_duration n) = Some (elapsed_total n)
   \<and> parse_duration (format_duration_hhmmss q) = Some (whole_seconds q)
   \<and> (3600 \<le> whole_seconds q \<longrightarrow>
      format_duration (Finite q) = format_duration_hhmmss q
      \<and> format_duration_for_history q = format_duration_hhmmss q)"
proof -
  have h: "parse_duration (format_duration_hhmmss q) = Some (whole_seconds q)"
    using hms_split [of "whole_seconds q"]
    by (simp add: format_duration_hhmmss_def parse_duration_def Let_def flip: pad2_pad_start)
      (simp add: split_hhmmss ONE_HOUR_SECONDS_def mult.commute)
  show ?thesis
    using h parse_format [of n]
    by (simp add: format_duration_def format_duration_hhmmss_def format_duration_for_history_def Let_def
        elapsed_total_def ONE_HOUR_SECONDS_def minutes_agree whole_seconds_def flip: pad2_pad_start)
qed

theorem durations_agree_witness:
  "(3600::nat) \<le> whole_seconds 3661
   \<and> format_duration (Finite 3661) = format_duration_hhmmss 3661
   \<and> format_duration_for_history 3661 = format_duration_hhmmss 3661"
proof -
  have "(3600::nat) \<le> whole_seconds 3661" by (simp add: whole_seconds_def)
  with durations_agree [of NaN 3661] show ?thesis by blast
qed

text \<open>What the dialer accepts it has only stripped: the number it submits has the digits
  of the input in order, is E.164, is accepted again unchanged, and (from two digits on)
  the server's normalisation leaves it as it is, so the number dialled is the number shown.\<close>

theorem dialer_number_is_dialled:
  assumes "validate_destination raw = Dest_Ok e"
  shows "E164_PATTERN e \<and> filter is_digit e = filter is_digit (trim raw)
    \<and> validate_destination e = Dest_Ok e
    \<and> (3 \<le> length e \<longrightarrow> normalize_to_e164 e from = e)"
proof -
  from assms have n: "dial_normalize_to_e164 (trim raw) = Some e"
    by (auto simp: validate_destination_def Let_def split: if_splits option.splits)
  then have p: "E164_PATTERN e" by (rule dial_normalize_pattern)
  have t: "trim e = e" using p by (rule trim_solid [OF E164_PATTERN_solid])
  obtain ds where e: "e = 43 # ds" "digits_only ds" "length ds \<le> 15"
    using p by (rule E164_PATTERN_shape)
  then have "ALLOWED_INPUT e"
    by (auto simp: ALLOWED_INPUT_def digits_only_def all_digits_def list_all_iff)
  then have "validate_destination e = Dest_Ok e"
    using e dial_normalize_fix [OF p] t
    by (simp add: validate_destination_def Let_def MIN_DESTINATION_LENGTH_def MAX_DESTINATION_LENGTH_def)
  moreover have "3 \<le> length e \<longrightarrow> normalize_to_e164 e from = e"
    using E164_PATTERN_server [OF p] by (simp add: normalize_to_e164_def t)
  ultimately show ?thesis using p dial_normalize_digits [OF n] by simp
qed

theorem dialer_number_is_dialled_witness:
  "E164_PATTERN (js ''+14155552671'')
   \<and> filter is_digit (js ''+14155552671'') = filter is_digit (trim (js '' +1 (415) 555-2671''))
   \<and> normalize_to_e164 (js ''+14155552671'') (js ''+4670'') = js ''+14155552671''"
proof -
  have "validate_destination (js '' +1 (415) 555-2671'') = Dest_Ok (js ''+14155552671'')"
    by (simp add: validate_destination_def dial_normalize_to_e164_def E164_PATTERN_def ALLOWED_INPUT_def
        MIN_DESTINATION_LENGTH_def MAX_DESTINATION_LENGTH_def is_separator_def digits_only_def
        all_digits_def text_eval)
  from dialer_number_is_dialled [OF this] show ?thesis by simp
qed

text \<open>The guard accepts exactly the twelve keys, one character each; and calling is
  reported available exactly when all three preconditions hold, with the message about a
  secure connection whenever the context is not secure.\<close>

theorem guards_decide:
  "(is_dtmf_digit v \<longleftrightarrow> (\<exists>u. v = Some [u] \<and> (is_digit u \<or> u = 42 \<or> u = 35)))
   \<and> (capability_message (detect_capabilities w n) = None \<longleftrightarrow> w = Some (True, True) \<and> n = Some (Some True))
   \<and> (capability_message (detect_capabilities w n) = Some Requires_Secure_Connection
        \<longleftrightarrow> (w = None \<or> (\<exists>rtc. w = Some (False, rtc))))
   \<and> (calling_unavailable_reason w n = None
        \<longleftrightarrow> capability_message (detect_capabilities w n) = None)"
  by (auto simp: is_dtmf_digit_def DTMF_DIGITS_set capability_message_def detect_capabilities_def
      calling_unavailable_reason_def split: option.splits capability_message_key.splits)

text \<open>The dialer accepts a one-digit number that the server's pattern rejects.\<close>

lemma one_digit_destination:
  "validate_destination (js ''+1'') = Dest_Ok (js ''+1'') \<and> \<not> E164_REGEX (js ''+1'')"
  by (simp add: validate_destination_def dial_normalize_to_e164_def E164_PATTERN_def E164_REGEX_def
      ALLOWED_INPUT_def MIN_DESTINATION_LENGTH_def MAX_DESTINATION_LENGTH_def is_separator_def
      digits_only_def all_digits_def text_eval)

end
