(* ===== verification/Ws_Tickets.thy ===== *)
theory Ws_Tickets
  imports Svarla_Prelude
begin

text \<open>
  \<^verbatim>\<open>src/services/ws-ticket-service.ts\<close>: the short-lived, single-use tickets of the WebSocket
  upgrade. The random bytes of a ticket and the readings of the clock are arguments, in
  milliseconds; the interval timer is the event \<open>Sweep\<close>.
\<close>

type_synonym ticket = string

record ws_ticket =
  tk_session_token :: string
  tk_device_id :: string
  tk_created_at :: int

record ticket_service =
  ts_tickets :: "(ticket, ws_ticket) jmap"
  ts_interval :: bool

datatype ticket_error = Too_Many_Tickets

definition TICKET_TTL_MS :: int where
  "TICKET_TTL_MS = 30000"

definition MAX_TICKETS :: nat where
  "MAX_TICKETS = 1000"

definition new_ticket_service :: ticket_service where
  "new_ticket_service = \<lparr> ts_tickets = [], ts_interval = True \<rparr>"

definition cleanup_tickets :: "int \<Rightarrow> ticket_service \<Rightarrow> ticket_service" where
  "cleanup_tickets now s =
     s\<lparr> ts_tickets := jm_filter (\<lambda>_ entry. \<not> (now - tk_created_at entry > TICKET_TTL_MS)) (ts_tickets s) \<rparr>"

text \<open>\<open>cleanup_now\<close> is the clock in the clean-up, \<open>now\<close> the later one of the entry.\<close>

definition issue_ticket ::
    "string \<Rightarrow> string \<Rightarrow> int \<Rightarrow> int \<Rightarrow> ticket \<Rightarrow> ticket_service \<Rightarrow> (ticket_error + ticket) \<times> ticket_service" where
  "issue_ticket session_token device_id cleanup_now now random s =
     (let s1 = (if length (ts_tickets s) \<ge> MAX_TICKETS then cleanup_tickets cleanup_now s else s) in
      if length (ts_tickets s) \<ge> MAX_TICKETS \<and> length (ts_tickets s1) \<ge> MAX_TICKETS
        then (Inl Too_Many_Tickets, s1)
      else (Inr random,
        s1\<lparr> ts_tickets := jm_set random
          \<lparr> tk_session_token = session_token, tk_device_id = device_id, tk_created_at = now \<rparr> (ts_tickets s1) \<rparr>))"

definition consume_ticket ::
    "ticket \<Rightarrow> int \<Rightarrow> ticket_service \<Rightarrow> (string \<times> string) option \<times> ticket_service" where
  "consume_ticket ticket now s =
     (case jm_get (ts_tickets s) ticket of
        None \<Rightarrow> (None, s)
      | Some entry \<Rightarrow>
          let s1 = s\<lparr> ts_tickets := jm_delete ticket (ts_tickets s) \<rparr> in
          if now - tk_created_at entry > TICKET_TTL_MS then (None, s1)
          else (Some (tk_session_token entry, tk_device_id entry), s1))"

definition destroy_tickets :: "ticket_service \<Rightarrow> ticket_service" where
  "destroy_tickets s = s\<lparr> ts_interval := False, ts_tickets := [] \<rparr>"

section \<open>The service as a step relation\<close>

datatype ticket_event =
    Issue string string int int ticket
  | Consume ticket int
  | Sweep int
  | Destroy

inductive ticket_step :: "ticket_service \<Rightarrow> ticket_event \<Rightarrow> ticket_service \<Rightarrow> bool" where
  step_issue: "issue_ticket st dev c now r s = (res, t) \<Longrightarrow> ticket_step s (Issue st dev c now r) t"
| step_consume: "consume_ticket k now s = (res, t) \<Longrightarrow> ticket_step s (Consume k now) t"
| step_sweep: "ts_interval s \<Longrightarrow> ticket_step s (Sweep now) (cleanup_tickets now s)"
| step_destroy: "ticket_step s Destroy (destroy_tickets s)"

inductive_simps ticket_step_simps:
  "ticket_step s (Issue st dev c now r) t"
  "ticket_step s (Consume k now) t"
  "ticket_step s (Sweep now) t"
  "ticket_step s Destroy t"

definition tickets_ok :: "ticket_service \<Rightarrow> bool" where
  "tickets_ok s \<longleftrightarrow> jm_ok (ts_tickets s) \<and> length (ts_tickets s) \<le> MAX_TICKETS"

subsection \<open>A store with a cap\<close>

text \<open>A keyed store whose client inserts only below a cap never exceeds it.\<close>

locale bounded_store = key_store empty get put del keys ok
  for empty :: "'m" and get :: "'m \<Rightarrow> 'k \<Rightarrow> 'v option" and put :: "'k \<Rightarrow> 'v \<Rightarrow> 'm \<Rightarrow> 'm"
    and del :: "'k \<Rightarrow> 'm \<Rightarrow> 'm" and keys :: "'m \<Rightarrow> 'k list" and ok :: "'m \<Rightarrow> bool" +
  fixes cap :: nat
  assumes cap_positive: "0 < cap"
begin

lemma put_below_cap: "ok m \<Longrightarrow> length (keys m) < cap \<Longrightarrow> length (keys (put k v m)) \<le> cap"
  by (simp add: size_put)

lemma del_below_cap: "ok m \<Longrightarrow> length (keys m) \<le> cap \<Longrightarrow> length (keys (del k m)) \<le> cap"
  by (auto simp: size_del)

lemma empty_below_cap: "length (keys empty) \<le> cap"
proof -
  have "k \<notin> set (keys empty)" for k by (simp add: keys_get get_empty)
  then have "keys empty = []" by (cases "keys empty") auto
  then show ?thesis by simp
qed

end

interpretation tk: bounded_store "[]" jm_get jm_set jm_delete jm_keys jm_ok MAX_TICKETS
  by unfold_locales (simp add: MAX_TICKETS_def)

lemma jm_keys_length [simp]: "length (jm_keys m) = length m"
  by (simp add: jm_keys_def)

lemma length_jm_filter: "length (jm_filter p m) \<le> length m"
  by (simp add: jm_filter_def)

lemmas ticket_defs = issue_ticket_def consume_ticket_def cleanup_tickets_def destroy_tickets_def

lemma tickets_ok_cleanup: "tickets_ok s \<Longrightarrow> tickets_ok (cleanup_tickets now s)"
  using length_jm_filter [of _ "ts_tickets s"]
  by (auto simp: tickets_ok_def cleanup_tickets_def intro: order_trans)

lemma tickets_ok_consume: "tickets_ok s \<Longrightarrow> tickets_ok (snd (consume_ticket k now s))"
  using tk.del_below_cap [of "ts_tickets s" k]
  by (auto simp: tickets_ok_def consume_ticket_def Let_def split: option.splits)

lemma tickets_ok_issue: "tickets_ok s \<Longrightarrow> tickets_ok (snd (issue_ticket st dev c now r s))"
  using tickets_ok_cleanup [of s c] tk.put_below_cap [of "ts_tickets s" r]
    tk.put_below_cap [of "ts_tickets (cleanup_tickets c s)" r]
  by (auto simp: tickets_ok_def issue_ticket_def Let_def)

interpretation tickets: invariant_system "\<lambda>s. s = new_ticket_service" ticket_step tickets_ok
proof
  show "tickets_ok s" if "s = new_ticket_service" for s
    using that tk.empty_below_cap by (simp add: tickets_ok_def new_ticket_service_def)
  show "tickets_ok t" if "tickets_ok s" "ticket_step s e t" for s e t
    using that(2,1)
    by cases (use tickets_ok_issue tickets_ok_consume tickets_ok_cleanup in
        \<open>fastforce simp: tickets_ok_def destroy_tickets_def dest: arg_cong [where f = snd]\<close>)+
qed

subsection \<open>The life of one ticket\<close>

text \<open>
  The events that may follow the issue of a ticket without touching it: no use of it, no
  shutdown, no second drawing of the same random string, and no clean-up later than its
  lifetime.
\<close>

fun leaves_ticket :: "ticket \<Rightarrow> int \<Rightarrow> ticket_event \<Rightarrow> bool" where
  "leaves_ticket k created (Issue st dev c now r) \<longleftrightarrow> r \<noteq> k \<and> c - created \<le> TICKET_TTL_MS"
| "leaves_ticket k created (Consume k' now) \<longleftrightarrow> k' \<noteq> k"
| "leaves_ticket k created (Sweep now) \<longleftrightarrow> now - created \<le> TICKET_TTL_MS"
| "leaves_ticket k created Destroy \<longleftrightarrow> False"

fun draws_ticket :: "ticket \<Rightarrow> ticket_event \<Rightarrow> bool" where
  "draws_ticket k (Issue st dev c now r) \<longleftrightarrow> r = k"
| "draws_ticket k _ \<longleftrightarrow> False"

lemma get_cleanup:
  "jm_ok (ts_tickets s) \<Longrightarrow> jm_get (ts_tickets (cleanup_tickets now s)) k =
     (case jm_get (ts_tickets s) k of None \<Rightarrow> None
      | Some e \<Rightarrow> if now - tk_created_at e > TICKET_TTL_MS then None else Some e)"
  by (auto simp: cleanup_tickets_def jm_get_filter split: option.splits)

lemma ticket_step_ok: "ticket_step s e t \<Longrightarrow> jm_ok (ts_tickets s) \<Longrightarrow> jm_ok (ts_tickets t)"
  by (cases e) (auto simp: ticket_step_simps ticket_defs Let_def split: option.splits if_splits)

lemma step_leaves:
  assumes "ticket_step s e t" "jm_ok (ts_tickets s)" "leaves_ticket k (tk_created_at entry) e"
    "jm_get (ts_tickets s) k = Some entry"
  shows "jm_get (ts_tickets t) k = Some entry"
  using assms
proof (cases e)
  case (Issue st dev c now r)
  then show ?thesis using assms get_cleanup [OF assms(2), of c k]
    by (auto simp: ticket_step_simps issue_ticket_def Let_def split: if_splits)
next
  case (Sweep now)
  then show ?thesis using assms get_cleanup [OF assms(2), of now k]
    by (auto simp: ticket_step_simps)
qed (auto simp: ticket_step_simps consume_ticket_def Let_def split: option.splits if_splits)

lemma steps_leave:
  assumes "run ticket_step s es t" "jm_ok (ts_tickets s)" "list_all (leaves_ticket k (tk_created_at entry)) es"
    "jm_get (ts_tickets s) k = Some entry"
  shows "jm_get (ts_tickets t) k = Some entry"
  using assms by (induction rule: run.induct) (auto dest: step_leaves ticket_step_ok)

lemma step_gone:
  assumes "ticket_step s e t" "jm_ok (ts_tickets s)" "\<not> draws_ticket k e" "jm_get (ts_tickets s) k = None"
  shows "jm_get (ts_tickets t) k = None"
  using assms get_cleanup [OF assms(2), of _ k]
  by (cases e) (auto simp: ticket_step_simps issue_ticket_def consume_ticket_def destroy_tickets_def Let_def
      split: option.splits if_splits)

lemma steps_gone:
  assumes "run ticket_step s es t" "jm_ok (ts_tickets s)" "\<not> list_ex (draws_ticket k) es"
    "jm_get (ts_tickets s) k = None"
  shows "jm_get (ts_tickets t) k = None"
  using assms
proof (induction rule: run.induct)
  case (run_Cons s e t es u)
  then have "jm_ok (ts_tickets t)" "jm_get (ts_tickets t) k = None"
    using step_gone ticket_step_ok by auto
  with run_Cons show ?case by simp
qed simp

lemma consume_removes: "jm_get (ts_tickets (snd (consume_ticket k now s))) k = None"
  by (auto simp: consume_ticket_def Let_def split: option.splits)

lemma consume_absent: "jm_get (ts_tickets s) k = None \<Longrightarrow> consume_ticket k now s = (None, s)"
  by (simp add: consume_ticket_def)

lemma issue_stores:
  "issue_ticket st dev c now r s = (Inr r', t) \<Longrightarrow>
     r' = r \<and> jm_get (ts_tickets t) r = Some \<lparr> tk_session_token = st, tk_device_id = dev, tk_created_at = now \<rparr>"
  by (auto simp: issue_ticket_def Let_def split: if_splits)

lemma issue_keeps_ok: "jm_ok (ts_tickets s) \<Longrightarrow> jm_ok (ts_tickets (snd (issue_ticket st dev c now r s)))"
  by (auto simp: ticket_defs Let_def)

lemma consume_keeps_ok: "jm_ok (ts_tickets s) \<Longrightarrow> jm_ok (ts_tickets (snd (consume_ticket k now s)))"
  by (auto simp: ticket_defs Let_def split: option.splits)

lemma sweep_alone: "ts_interval s \<Longrightarrow> run ticket_step s [Sweep n] (cleanup_tickets n s)"
  by (auto intro: run.intros ticket_step.intros)

lemma filter_keeps_all: "length xs \<le> length (filter P xs) \<Longrightarrow> filter P xs = xs"
  by (metis filter_True leD length_filter_less)

section \<open>Properties\<close>

text \<open>In every reachable state the service holds at most \<^verbatim>\<open>MAX_TICKETS\<close> tickets, no
  ticket twice; a request above the bound is refused only when none has expired.\<close>

theorem tickets_bounded:
  assumes "reach (\<lambda>s. s = new_ticket_service) ticket_step s"
  shows "length (ts_tickets s) \<le> MAX_TICKETS \<and> distinct (jm_keys (ts_tickets s))
    \<and> (fst (issue_ticket st dev c now r s) = Inl Too_Many_Tickets \<longrightarrow>
        (\<forall>(k, e) \<in> set (ts_tickets s). c - tk_created_at e \<le> TICKET_TTL_MS))"
proof -
  have ok: "tickets_ok s" using assms by (rule tickets.reach_inv)
  have "(\<forall>(k, e) \<in> set (ts_tickets s). c - tk_created_at e \<le> TICKET_TTL_MS)"
    if full: "fst (issue_ticket st dev c now r s) = Inl Too_Many_Tickets"
  proof -
    have "length (ts_tickets s) \<le> length (ts_tickets (cleanup_tickets c s))"
      using full ok by (auto simp: issue_ticket_def Let_def tickets_ok_def split: if_splits)
    then have "filter (\<lambda>(k, e). \<not> (c - tk_created_at e > TICKET_TTL_MS)) (ts_tickets s) = ts_tickets s"
      by (intro filter_keeps_all) (simp add: cleanup_tickets_def jm_filter_def)
    then show ?thesis by (auto simp: filter_id_conv)
  qed
  with ok show ?thesis by (auto simp: tickets_ok_def jm_ok_def jm_keys_def)
qed

theorem tickets_bounded_witness:
  "length (ts_tickets new_ticket_service) \<le> MAX_TICKETS \<and> distinct (jm_keys (ts_tickets new_ticket_service))"
  using tickets_bounded [OF reach_init [of "\<lambda>s. s = new_ticket_service", OF refl]] by blast

text \<open>A ticket works once, within its lifetime: after it was issued and while nothing
  touched it, presenting it gives the session it was issued for exactly when no more than
  thirty seconds have passed; once presented, it never works again, whatever happens in
  between, unless the random source draws the same string anew.\<close>

theorem ticket_single_use:
  assumes "reach (\<lambda>s. s = new_ticket_service) ticket_step s"
    and "issue_ticket st dev c created r s = (Inr k, s1)"
    and "run ticket_step s1 es s2" and "list_all (leaves_ticket k created) es"
    and "consume_ticket k now s2 = (res, s3)"
    and "run ticket_step s3 es' s4" and "\<not> list_ex (draws_ticket k) es'"
  shows "res = (if now - created > TICKET_TTL_MS then None else Some (st, dev))
    \<and> fst (consume_ticket k now' s4) = None"
proof -
  have ok: "jm_ok (ts_tickets s)" using tickets.reach_inv [OF assms(1)] by (simp add: tickets_ok_def)
  let ?e = "\<lparr> tk_session_token = st, tk_device_id = dev, tk_created_at = created \<rparr>"
  have ok1: "jm_ok (ts_tickets s1)" using issue_keeps_ok [OF ok, of st dev c created r] assms(2) by simp
  have ok2: "jm_ok (ts_tickets s2)"
    using assms(3) ok1 by (induction rule: run.induct) (auto dest: ticket_step_ok)
  have "jm_get (ts_tickets s1) k = Some ?e" using issue_stores [OF assms(2)] by auto
  then have e: "jm_get (ts_tickets s2) k = Some ?e"
    using steps_leave [OF assms(3) ok1, of k ?e] assms(4) by simp
  have "jm_get (ts_tickets s3) k = None" using consume_removes [of k now s2] assms(5) by simp
  moreover have "jm_ok (ts_tickets s3)" using consume_keeps_ok [OF ok2, of k now] assms(5) by simp
  ultimately have "jm_get (ts_tickets s4) k = None" using steps_gone [OF assms(6) _ assms(7)] by blast
  then show ?thesis using e assms(5) by (auto simp: consume_ticket_def Let_def split: if_splits)
qed

theorem ticket_single_use_witness:
  "let s1 = snd (issue_ticket ''st'' ''dev'' 0 0 ''k'' new_ticket_service);
       s2 = cleanup_tickets 10000 s1;
       s3 = snd (consume_ticket ''k'' 20000 s2)
   in fst (consume_ticket ''k'' 20000 s2) = Some (''st'', ''dev'')
    \<and> fst (consume_ticket ''k'' 21000 (cleanup_tickets 20500 s3)) = None"
proof -
  let ?s0 = "new_ticket_service"
  let ?s1 = "snd (issue_ticket ''st'' ''dev'' 0 0 ''k'' ?s0)"
  let ?s2 = "cleanup_tickets 10000 ?s1"
  let ?r = "fst (consume_ticket ''k'' 20000 ?s2)" and ?s3 = "snd (consume_ticket ''k'' 20000 ?s2)"
  let ?s4 = "cleanup_tickets 20500 ?s3"
  have r: "reach (\<lambda>s. s = new_ticket_service) ticket_step ?s0" by (rule reach_init) (rule refl)
  have i: "issue_ticket ''st'' ''dev'' 0 0 ''k'' ?s0 = (Inr ''k'', ?s1)"
    by (simp add: issue_ticket_def new_ticket_service_def MAX_TICKETS_def)
  have t: "ts_interval ?s1"
    by (simp add: issue_ticket_def new_ticket_service_def MAX_TICKETS_def)
  then have t3: "ts_interval ?s3"
    by (simp add: consume_ticket_def cleanup_tickets_def Let_def split: option.splits)
  have a: "run ticket_step ?s1 [Sweep 10000] ?s2" and b: "run ticket_step ?s3 [Sweep 20500] ?s4"
    using sweep_alone [OF t] sweep_alone [OF t3] by auto
  from ticket_single_use [OF r i a _ _ b, of 20000 ?r 21000]
  show ?thesis by (simp add: TICKET_TTL_MS_def Let_def)
qed

end
