(* ===== verification/Devices.thy ===== *)
theory Devices
  imports Svarla_Prelude
begin

text \<open>
  \<^verbatim>\<open>src/services/device-registry-manager.ts\<close> over the table \<^verbatim>\<open>device_registry\<close>. Generated
  identifiers, random strings and the clock (in milliseconds) are arguments. The table's
  unique constraint on \<^verbatim>\<open>session_token\<close> is the error \<open>Unique_Violation\<close>.
\<close>

type_synonym device_id = string

record device_row =
  dv_device_id :: device_id
  dv_device_name :: string
  dv_push_topic_id :: string
  dv_push_endpoint_url :: "string option"
  dv_registered_at :: int
  dv_last_seen_at :: int
  dv_session_token :: string
  dv_is_active :: bool

record device_info =
  di_device_id :: device_id
  di_device_name :: string
  di_registered_at :: int
  di_last_seen_at :: int
  di_is_active :: bool

datatype device_error = Device_Limit_Exceeded | Unique_Violation

definition MAX_ACTIVE_DEVICES :: nat where
  "MAX_ACTIVE_DEVICES = 5"

definition device_info_of :: "device_row \<Rightarrow> device_info" where
  "device_info_of d = \<lparr> di_device_id = dv_device_id d, di_device_name = dv_device_name d,
     di_registered_at = dv_registered_at d, di_last_seen_at = dv_last_seen_at d,
     di_is_active = dv_is_active d \<rparr>"

definition get_active_device_count :: "device_row table \<Rightarrow> nat" where
  "get_active_device_count t = sql_count dv_is_active t"

text \<open>The statement \<^verbatim>\<open>insert\<close> of \<^verbatim>\<open>registerDevice\<close>, separated from the check before it.\<close>

definition insert_device ::
    "device_id \<Rightarrow> int \<Rightarrow> string \<Rightarrow> string \<Rightarrow> string \<Rightarrow> device_row table \<Rightarrow> (device_error + device_info) \<times> device_row table" where
  "insert_device new_id now name topic token t =
     (let row = \<lparr> dv_device_id = new_id, dv_device_name = name, dv_push_topic_id = topic,
            dv_push_endpoint_url = None, dv_registered_at = now, dv_last_seen_at = now,
            dv_session_token = token, dv_is_active = True \<rparr>
      in if list_ex (\<lambda>d. dv_session_token d = token \<or> dv_device_id d = new_id) t then (Inl Unique_Violation, t)
         else (Inr (device_info_of row), sql_insert row t))"

definition register_device ::
    "device_id \<Rightarrow> int \<Rightarrow> string \<Rightarrow> string \<Rightarrow> string \<Rightarrow> bool \<Rightarrow> device_row table
      \<Rightarrow> (device_error + device_info) \<times> device_row table" where
  "register_device new_id now name topic token skip_device_limit t =
     (if \<not> skip_device_limit \<and> get_active_device_count t \<ge> MAX_ACTIVE_DEVICES
        then (Inl Device_Limit_Exceeded, t)
      else insert_device new_id now name topic token t)"

definition list_active_devices :: "device_row table \<Rightarrow> device_info list" where
  "list_active_devices t = map device_info_of (sort_key (\<lambda>d. - dv_registered_at d) (sql_select dv_is_active t))"

definition removed_token :: "string \<Rightarrow> string" where
  "removed_token random = ''removed:'' @ random"

text \<open>\<open>sentinel\<close> is the unusable token of \<^verbatim>\<open>invalidateToken: true\<close>, made by \<open>removed_token\<close>.\<close>

definition deactivate_device ::
    "device_id \<Rightarrow> string option \<Rightarrow> device_row table \<Rightarrow> (device_error + bool) \<times> device_row table" where
  "deactivate_device i sentinel t =
     (case sentinel of
        None \<Rightarrow>
          let p = (\<lambda>d. dv_device_id d = i \<and> dv_is_active d) in
          (Inr (sql_count p t > 0), sql_update p (\<lambda>d. d\<lparr> dv_is_active := False \<rparr>) t)
      | Some token \<Rightarrow>
          let p = (\<lambda>d. dv_device_id d = i) in
          if sql_count p t > 0 \<and> list_ex (\<lambda>d. \<not> p d \<and> dv_session_token d = token) t then (Inl Unique_Violation, t)
          else (Inr (sql_count p t > 0),
                sql_update p (\<lambda>d. d\<lparr> dv_is_active := False, dv_session_token := token \<rparr>) t))"

definition update_last_seen :: "device_id \<Rightarrow> int \<Rightarrow> device_row table \<Rightarrow> device_row table" where
  "update_last_seen i now t =
     sql_update (\<lambda>d. dv_device_id d = i \<and> dv_is_active d) (\<lambda>d. d\<lparr> dv_last_seen_at := now \<rparr>) t"

definition get_device :: "device_id \<Rightarrow> device_row table \<Rightarrow> device_info option" where
  "get_device i t = map_option device_info_of (sql_first (\<lambda>d. dv_device_id d = i \<and> dv_is_active d) t)"

definition update_push_endpoint :: "device_id \<Rightarrow> string option \<Rightarrow> device_row table \<Rightarrow> bool \<times> device_row table" where
  "update_push_endpoint i url t =
     (let p = (\<lambda>d. dv_device_id d = i \<and> dv_is_active d) in
      (sql_count p t > 0, sql_update p (\<lambda>d. d\<lparr> dv_push_endpoint_url := url \<rparr>) t))"

definition get_push_endpoint_url :: "device_id \<Rightarrow> device_row table \<Rightarrow> string option" where
  "get_push_endpoint_url i t =
     (case sql_first (\<lambda>d. dv_device_id d = i \<and> dv_is_active d) t of
        None \<Rightarrow> None | Some d \<Rightarrow> dv_push_endpoint_url d)"

definition get_active_devices_with_push_info :: "device_row table \<Rightarrow> (device_id \<times> string option) list" where
  "get_active_devices_with_push_info t =
     map (\<lambda>d. (dv_device_id d, dv_push_endpoint_url d)) (sql_select dv_is_active t)"

section \<open>The constraints of the table\<close>

definition devices_ok :: "device_row table \<Rightarrow> bool" where
  "devices_ok t \<longleftrightarrow> distinct (map dv_device_id t) \<and> distinct (map dv_session_token t)"

lemma devices_ok_Nil [simp]: "devices_ok []"
  by (simp add: devices_ok_def)

lemma insert_device_ok: "devices_ok t \<Longrightarrow> devices_ok (snd (insert_device i now n tp tk t))"
  using tbl.ins_keeps_distinct
  by (auto simp: devices_ok_def insert_device_def Let_def list_ex_iff sql_insert_def)

lemma register_device_ok: "devices_ok t \<Longrightarrow> devices_ok (snd (register_device i now n tp tk skip t))"
  by (simp add: register_device_def insert_device_ok)

lemma update_keeps_ok:
  "(\<And>d. dv_device_id (f d) = dv_device_id d) \<Longrightarrow> (\<And>d. dv_session_token (f d) = dv_session_token d)
    \<Longrightarrow> devices_ok (sql_update p f t) = devices_ok t"
  by (simp add: devices_ok_def sql_simps)

text \<open>Replacing the token of the row a key selects by one no other row has.\<close>

lemma distinct_update_one:
  assumes "distinct (map k t)" "distinct (map g t)" "\<And>r. r \<in> set t \<Longrightarrow> \<not> (k r = i) \<Longrightarrow> g r \<noteq> v"
    "\<And>r. g (f r) = v"
  shows "distinct (map g (sql_update (\<lambda>r. k r = i) f t))"
  using assms(1-3)
proof (induction t)
  case Nil
  then show ?case by (simp add: sql_update_def)
next
  case (Cons a t)
  have "k r \<noteq> i" if "r \<in> set t" "k a = i" for r
    using Cons.prems(1) that by (simp, metis imageI)
  moreover have "g r \<noteq> g a" if "r \<in> set t" for r
    using Cons.prems(2) that by (simp, metis imageI)
  moreover have "distinct (map g (sql_update (\<lambda>r. k r = i) f t))"
    using Cons by simp
  ultimately show ?case
    using Cons.prems(3) assms(4) by (auto simp: sql_update_def split: if_splits) metis+
qed

lemma deactivate_device_ok:
  assumes "devices_ok t"
  shows "devices_ok (snd (deactivate_device i s t))"
proof (cases s)
  case None
  then show ?thesis using assms by (simp add: deactivate_device_def Let_def update_keeps_ok)
next
  case (Some token)
  have "devices_ok (sql_update (\<lambda>d. dv_device_id d = i) (\<lambda>d. d\<lparr> dv_is_active := False, dv_session_token := token \<rparr>) t)"
    if "\<not> (sql_count (\<lambda>d. dv_device_id d = i) t > 0 \<and> list_ex (\<lambda>d. dv_device_id d \<noteq> i \<and> dv_session_token d = token) t)"
  proof (cases "sql_count (\<lambda>d. dv_device_id d = i) t > 0")
    case True
    with that have "\<And>r. r \<in> set t \<Longrightarrow> \<not> dv_device_id r = i \<Longrightarrow> dv_session_token r \<noteq> token"
      by (auto simp: list_ex_iff)
    then show ?thesis
      using assms distinct_update_one [of dv_device_id t dv_session_token i token] by (simp add: devices_ok_def sql_simps)
  next
    case False
    then show ?thesis using assms by (simp add: sql_update_none)
  qed
  then show ?thesis using assms Some by (auto simp: deactivate_device_def Let_def)
qed

lemma update_last_seen_ok [simp]: "devices_ok (update_last_seen i now t) = devices_ok t"
  by (simp add: update_last_seen_def update_keeps_ok)

section \<open>Counting rows\<close>

lemma sql_count_Nil [simp]: "sql_count p [] = 0"
  by (simp add: sql_count_def)

lemma sql_count_insert: "sql_count p (sql_insert r t) = (if p r then Suc (sql_count p t) else sql_count p t)"
  by (simp add: sql_count_def sql_insert_def)

lemma sql_count_mono: "(\<And>r. r \<in> set t \<Longrightarrow> p r \<Longrightarrow> q r) \<Longrightarrow> sql_count p t \<le> sql_count q t"
proof (induction t)
  case (Cons a t)
  then have "sql_count p t \<le> sql_count q t" by simp
  with Cons.prems [of a] show ?case by (auto simp: sql_count_def)
qed simp

lemma count_update_le:
  "(\<And>r. r \<in> set t \<Longrightarrow> q r \<Longrightarrow> p (f r) \<Longrightarrow> p r) \<Longrightarrow> sql_count p (sql_update q f t) \<le> sql_count p t"
proof (induction t)
  case (Cons a t)
  then have "sql_count p (sql_update q f t) \<le> sql_count p t" by simp
  with Cons.prems [of a] show ?case by (auto simp: sql_count_def sql_update_def)
qed (simp add: sql_update_def)

lemma sql_first_unique:
  assumes "distinct (map g t)" "r \<in> set t"
  shows "sql_first (\<lambda>r'. g r' = g r) t = Some r"
  using assms by (induction t) (auto simp: sql_first_def)

lemma get_device_iff:
  assumes "devices_ok t"
  shows "get_device i t = Some d \<longleftrightarrow>
    (\<exists>r \<in> set t. dv_device_id r = i \<and> dv_is_active r \<and> d = device_info_of r)"
proof
  assume "get_device i t = Some d"
  then show "\<exists>r \<in> set t. dv_device_id r = i \<and> dv_is_active r \<and> d = device_info_of r"
    by (auto simp: get_device_def dest: sql_first_Some)
next
  assume "\<exists>r \<in> set t. dv_device_id r = i \<and> dv_is_active r \<and> d = device_info_of r"
  then obtain r where r: "r \<in> set t" "dv_device_id r = i" "dv_is_active r" "d = device_info_of r" by auto
  then obtain r' where r': "sql_first (\<lambda>d. dv_device_id d = i \<and> dv_is_active d) t = Some r'"
    by (metis (mono_tags, lifting) not_Some_eq sql_first_None)
  then have "r' \<in> set t" "dv_device_id r' = i" by (auto dest: sql_first_Some)
  then have "r' = r" using assms r by (auto simp: devices_ok_def distinct_map inj_on_def)
  then show "get_device i t = Some d" using r r' by (simp add: get_device_def)
qed

text \<open>The check and the insert are two statements: two registrations that both pass the
  check before either inserts leave six active devices.\<close>

lemma registration_race:
  assumes "get_active_device_count t = 4" "insert_device i n a b x t = (Inr d, t1)"
    "insert_device i' n' a' b' x' t1 = (Inr d', t2)"
  shows "get_active_device_count t < MAX_ACTIVE_DEVICES \<and> get_active_device_count t2 = 6"
  using assms by (auto simp: get_active_device_count_def insert_device_def MAX_ACTIVE_DEVICES_def
      sql_count_insert Let_def split: if_splits)

text \<open>A row as a login creates it, for the examples.\<close>

definition example_device :: "device_id \<Rightarrow> string \<Rightarrow> string \<Rightarrow> int \<Rightarrow> device_row" where
  "example_device i name token now = \<lparr> dv_device_id = i, dv_device_name = name, dv_push_topic_id = ''topic'',
     dv_push_endpoint_url = None, dv_registered_at = now, dv_last_seen_at = now,
     dv_session_token = token, dv_is_active = True \<rparr>"

lemma example_device_simps [simp]:
  "dv_device_id (example_device i n k t) = i" "dv_device_name (example_device i n k t) = n"
  "dv_session_token (example_device i n k t) = k" "dv_registered_at (example_device i n k t) = t"
  "dv_last_seen_at (example_device i n k t) = t" "dv_is_active (example_device i n k t)"
  by (simp_all add: example_device_def)

end
