(* ===== verification/Web_Device_Reaper.thy ===== *)
theory Web_Device_Reaper
  imports Devices
begin

text \<open>
  \<^verbatim>\<open>src/services/web-device-reaper.ts\<close>. The sweep is written over the interface
  \<^verbatim>\<open>ReaperRegistry\<close> of the source: the listing of active devices, the refresh of the last
  sighting and the deactivation of a registry \<open>'r\<close>. The locale states what the sweep relies
  on; the device registry discharges it. \<open>connected\<close> is the answer of the broadcaster when
  the sweep reaches a device (each is reached once), \<open>in_call\<close> the orchestrator's snapshot.
\<close>

definition WEB_BROWSER_DEVICE_NAME :: string where
  "WEB_BROWSER_DEVICE_NAME = ''Web Browser''"

definition DEFAULT_WEB_DEVICE_STALENESS_MS :: int where
  "DEFAULT_WEB_DEVICE_STALENESS_MS = 90000"

definition is_web_device :: "device_info \<Rightarrow> bool" where
  "is_web_device d \<longleftrightarrow> di_device_name d = WEB_BROWSER_DEVICE_NAME"

definition sweep_device ::
    "(device_id \<Rightarrow> 'r \<Rightarrow> 'r) \<Rightarrow> (device_id \<Rightarrow> 'r \<Rightarrow> bool \<times> 'r) \<Rightarrow> (device_id \<Rightarrow> bool) \<Rightarrow> device_id list \<Rightarrow> int \<Rightarrow> int
      \<Rightarrow> device_info \<Rightarrow> device_id list \<times> 'r \<Rightarrow> device_id list \<times> 'r" where
  "sweep_device refresh deactivate connected in_call staleness_ms now d = (\<lambda>(reaped, r).
     if \<not> is_web_device d then (reaped, r)
     else if connected (di_device_id d) then (reaped, refresh (di_device_id d) r)
     else let age_ms = now - di_last_seen_at d in
       if age_ms < staleness_ms then (reaped, r)
       else if di_device_id d \<in> set in_call then (reaped, r)
       else (case deactivate (di_device_id d) r of (deactivated, r') \<Rightarrow>
         (if deactivated then reaped @ [di_device_id d] else reaped, r')))"

definition sweep ::
    "('r \<Rightarrow> device_info list) \<Rightarrow> (device_id \<Rightarrow> 'r \<Rightarrow> 'r) \<Rightarrow> (device_id \<Rightarrow> 'r \<Rightarrow> bool \<times> 'r)
      \<Rightarrow> (device_id \<Rightarrow> bool) \<Rightarrow> device_id list \<Rightarrow> int \<Rightarrow> int \<Rightarrow> 'r \<Rightarrow> device_id list \<times> 'r" where
  "sweep list_active refresh deactivate connected in_call staleness_ms now r =
     fold (sweep_device refresh deactivate connected in_call staleness_ms now) (list_active r) ([], r)"

text \<open>The decision of the sweep on one device, as the documentation of the class states it.\<close>

definition reapable :: "(device_id \<Rightarrow> bool) \<Rightarrow> device_id list \<Rightarrow> int \<Rightarrow> int \<Rightarrow> device_info \<Rightarrow> bool" where
  "reapable connected in_call staleness_ms now d \<longleftrightarrow>
     is_web_device d \<and> \<not> connected (di_device_id d) \<and> now - di_last_seen_at d \<ge> staleness_ms
     \<and> di_device_id d \<notin> set in_call"

definition after_sweep ::
    "(device_id \<Rightarrow> bool) \<Rightarrow> device_id list \<Rightarrow> int \<Rightarrow> int \<Rightarrow> int \<Rightarrow> device_info \<Rightarrow> device_info option" where
  "after_sweep connected in_call staleness_ms now seen d =
     (if reapable connected in_call staleness_ms now d then None
      else if is_web_device d \<and> connected (di_device_id d) then Some (d\<lparr> di_last_seen_at := seen \<rparr>)
      else Some d)"

section \<open>The registry interface\<close>

locale reaper_registry =
  fixes ok :: "'r \<Rightarrow> bool"
    and list_active :: "'r \<Rightarrow> device_info list"
    and lookup :: "'r \<Rightarrow> device_id \<Rightarrow> device_info option"
    and refresh :: "device_id \<Rightarrow> 'r \<Rightarrow> 'r"
    and deactivate :: "device_id \<Rightarrow> 'r \<Rightarrow> bool \<times> 'r"
    and seen :: int
  assumes list_lookup: "ok r \<Longrightarrow> d \<in> set (list_active r) \<longleftrightarrow> lookup r (di_device_id d) = Some d"
    and list_distinct: "ok r \<Longrightarrow> distinct (map di_device_id (list_active r))"
    and lookup_id: "ok r \<Longrightarrow> lookup r i = Some d \<Longrightarrow> di_device_id d = i"
    and ok_refresh: "ok r \<Longrightarrow> ok (refresh i r)"
    and ok_deactivate: "ok r \<Longrightarrow> ok (snd (deactivate i r))"
    and lookup_refresh: "ok r \<Longrightarrow> lookup (refresh i r) j =
      (if j = i then map_option (di_last_seen_at_update (\<lambda>_. seen)) (lookup r j) else lookup r j)"
    and deactivate_result: "ok r \<Longrightarrow> fst (deactivate i r) \<longleftrightarrow> lookup r i \<noteq> None"
    and lookup_deactivate: "ok r \<Longrightarrow> lookup (snd (deactivate i r)) j = (if j = i then None else lookup r j)"
begin

lemma sweep_fold:
  assumes "ok r" "distinct (map di_device_id ds)" "\<forall>d \<in> set ds. lookup r (di_device_id d) = Some d"
  shows "case fold (sweep_device refresh deactivate connected in_call st now) ds (acc, r) of (reaped, r') \<Rightarrow>
     reaped = acc @ map di_device_id (filter (reapable connected in_call st now) ds) \<and> ok r'
     \<and> (\<forall>j. lookup r' j = (if j \<in> di_device_id ` set ds
          then Option.bind (lookup r j) (after_sweep connected in_call st now seen) else lookup r j))"
  using assms
proof (induction ds arbitrary: acc r)
  case Nil
  then show ?case by simp
next
  case (Cons d ds)
  let ?step = "sweep_device refresh deactivate connected in_call st now d (acc, r)"
  obtain acc' r' where s: "?step = (acc', r')" by (cases ?step)
  have d: "lookup r (di_device_id d) = Some d" using Cons.prems by simp
  have l: "lookup r' j = (if j = di_device_id d then after_sweep connected in_call st now seen d else lookup r j)"
    and a: "acc' = acc @ (if reapable connected in_call st now d then [di_device_id d] else [])" and k: "ok r'" for j
    using s d Cons.prems(1) deactivate_result [of r "di_device_id d"] lookup_deactivate [of r "di_device_id d" j]
      ok_deactivate [of r "di_device_id d"]
    by (auto simp: sweep_device_def reapable_def after_sweep_def Let_def lookup_refresh ok_refresh
        split: if_splits prod.splits)
  have n: "\<forall>e \<in> set ds. di_device_id e \<noteq> di_device_id d" using Cons.prems(2) by (auto simp: image_iff)
  then have "\<forall>e \<in> set ds. lookup r' (di_device_id e) = Some e"
    using Cons.prems(3) l by (auto simp: image_iff)
  then obtain reaped r'' where f: "fold (sweep_device refresh deactivate connected in_call st now) ds (acc', r') = (reaped, r'')"
      "reaped = acc' @ map di_device_id (filter (reapable connected in_call st now) ds)" "ok r''"
    and l': "lookup r'' j = (if j \<in> di_device_id ` set ds
          then Option.bind (lookup r' j) (after_sweep connected in_call st now seen) else lookup r' j)" for j
    using Cons.IH [OF k, of acc'] Cons.prems(2) by (auto split: prod.splits)
  have "lookup r'' j = (if j \<in> di_device_id ` set (d # ds)
          then Option.bind (lookup r j) (after_sweep connected in_call st now seen) else lookup r j)" for j
    using l' [of j] l [of j] n d by (cases "j = di_device_id d") auto
  then show ?case using s a f by simp
qed

text \<open>The sweep reaps exactly the reapable devices and changes no other.\<close>

lemma sweep_correct:
  assumes "ok r" "sweep list_active refresh deactivate connected in_call st now r = (reaped, r')"
  shows "reaped = map di_device_id (filter (reapable connected in_call st now) (list_active r))"
    and "lookup r' j = Option.bind (lookup r j) (after_sweep connected in_call st now seen)"
    and "ok r'"
proof -
  have "\<forall>d \<in> set (list_active r). lookup r (di_device_id d) = Some d"
    using list_lookup [OF assms(1)] by simp
  from sweep_fold [OF assms(1) list_distinct [OF assms(1)] this,
      where connected = connected and in_call = in_call and st = st and now = now and acc = "[]"] assms(2)
  have f: "reaped = map di_device_id (filter (reapable connected in_call st now) (list_active r))" "ok r'"
    "lookup r' j = (if j \<in> di_device_id ` set (list_active r)
        then Option.bind (lookup r j) (after_sweep connected in_call st now seen) else lookup r j)" for j
    by (auto simp: sweep_def)
  show "reaped = map di_device_id (filter (reapable connected in_call st now) (list_active r))" "ok r'"
    using f by auto
  have "j \<in> di_device_id ` set (list_active r)" if "lookup r j = Some d" for d
    using that lookup_id [OF assms(1) that] list_lookup [OF assms(1), of d] by force
  then show "lookup r' j = Option.bind (lookup r j) (after_sweep connected in_call st now seen)"
    using f(3) [of j] by (cases "lookup r j") auto
qed

text \<open>What refreshing and deactivating web devices keeps, a sweep keeps.\<close>

lemma sweep_keeps:
  assumes "\<And>r i. P r \<Longrightarrow> P (refresh i r)"
    and "\<And>r d. P r \<Longrightarrow> d \<in> set ds \<Longrightarrow> is_web_device d \<Longrightarrow> P (snd (deactivate (di_device_id d) r))"
    and "P r"
  shows "P (snd (fold (sweep_device refresh deactivate connected in_call st now) ds (acc, r)))"
  using assms(2,3)
proof (induction ds arbitrary: acc r)
  case (Cons d ds)
  obtain acc' r' where s: "sweep_device refresh deactivate connected in_call st now d (acc, r) = (acc', r')"
    by (cases "sweep_device refresh deactivate connected in_call st now d (acc, r)")
  have p: "P (snd (deactivate (di_device_id d) r))" if "is_web_device d" using Cons.prems that by auto
  have "P r'" using s Cons.prems(2) assms(1) p
    by (auto simp: sweep_device_def Let_def split: if_splits prod.splits)
  then show ?case using Cons s by simp
qed simp

end

section \<open>The device registry provides the interface\<close>

definition deactivate_dormant :: "device_id \<Rightarrow> device_row table \<Rightarrow> bool \<times> device_row table" where
  "deactivate_dormant i t = (case deactivate_device i None t of (Inr b, t') \<Rightarrow> (b, t') | (Inl _, t') \<Rightarrow> (False, t'))"

lemma deactivate_dormant_eq:
  "deactivate_dormant i t =
     (sql_count (\<lambda>d. dv_device_id d = i \<and> dv_is_active d) t > 0,
      sql_update (\<lambda>d. dv_device_id d = i \<and> dv_is_active d) (\<lambda>d. d\<lparr> dv_is_active := False \<rparr>) t)"
  by (simp add: deactivate_dormant_def deactivate_device_def Let_def)

lemma sql_first_update:
  assumes "\<And>r. p r \<Longrightarrow> q (f r) = p' r" "\<And>r. \<not> p r \<Longrightarrow> q r = p' r"
  shows "sql_first q (sql_update p f t) = map_option (\<lambda>r. if p r then f r else r) (sql_first p' t)"
  using assms by (induction t) (auto simp: sql_first_def sql_update_def)

lemma sql_count_pos: "sql_count p t > 0 \<longleftrightarrow> sql_first p t \<noteq> None"
  by (auto simp: sql_count_def sql_first_def find_None_filter)

interpretation rr: reaper_registry devices_ok list_active_devices "\<lambda>t i. get_device i t"
  "\<lambda>i. update_last_seen i seen" deactivate_dormant seen for seen
proof
  fix r :: "device_row table" and d i j
  assume ok: "devices_ok r"
  show "d \<in> set (list_active_devices r) \<longleftrightarrow> get_device (di_device_id d) r = Some d"
    by (auto simp: get_device_iff [OF ok] list_active_devices_def sql_select_def device_info_of_def)
  show "distinct (map di_device_id (list_active_devices r))"
  proof -
    have "map di_device_id (list_active_devices r)
        = map dv_device_id (sort_key (\<lambda>d. - dv_registered_at d) (sql_select dv_is_active r))"
      by (simp add: list_active_devices_def device_info_of_def)
    moreover have "distinct (map dv_device_id (sql_select dv_is_active r))"
      using ok by (simp add: devices_ok_def sql_select_def distinct_map_filter)
    ultimately show ?thesis by (simp add: distinct_map)
  qed
  show "get_device i r = Some d \<Longrightarrow> di_device_id d = i"
    by (auto simp: get_device_iff [OF ok] device_info_of_def)
  show "devices_ok (update_last_seen i seen r)" using ok by simp
  show "devices_ok (snd (deactivate_dormant i r))" using ok by (simp add: deactivate_dormant_eq update_keeps_ok)
  show "get_device j (update_last_seen i seen r) =
      (if j = i then map_option (di_last_seen_at_update (\<lambda>_. seen)) (get_device j r) else get_device j r)"
  proof -
    have "sql_first (\<lambda>d. dv_device_id d = j \<and> dv_is_active d) (update_last_seen i seen r) =
        map_option (\<lambda>r. if dv_device_id r = i \<and> dv_is_active r then r\<lparr> dv_last_seen_at := seen \<rparr> else r)
          (sql_first (\<lambda>d. dv_device_id d = j \<and> dv_is_active d) r)"
      unfolding update_last_seen_def by (rule sql_first_update) auto
    then show ?thesis
      by (auto simp: get_device_def device_info_of_def option.map_comp comp_def dest!: sql_first_Some
          intro!: option.map_cong0 split: option.splits)
  qed
  show "fst (deactivate_dormant i r) \<longleftrightarrow> get_device i r \<noteq> None"
    by (simp add: deactivate_dormant_eq sql_count_pos get_device_def)
  show "get_device j (snd (deactivate_dormant i r)) = (if j = i then None else get_device j r)"
  proof -
    have "sql_first (\<lambda>d. dv_device_id d = j \<and> dv_is_active d) (snd (deactivate_dormant i r)) =
        map_option (\<lambda>r. if dv_device_id r = i \<and> dv_is_active r then r\<lparr> dv_is_active := False \<rparr> else r)
          (sql_first (\<lambda>d. dv_device_id d = j \<and> dv_is_active d \<and> j \<noteq> i) r)"
      unfolding deactivate_dormant_eq snd_conv by (rule sql_first_update) auto
    then show ?thesis
      by (cases "j = i")
        (auto simp: get_device_def option.map_comp comp_def sql_first_None map_option_case
          dest!: sql_first_Some split: option.splits)
  qed
qed

section \<open>Properties\<close>

text \<open>C24. One sweep of the reaper over the device registry deactivates exactly the active
  browser devices that have no live socket, were last seen at least the staleness interval
  ago and take part in no call; it refreshes the connected browser devices and leaves every
  other active device, every phone among them, exactly as it was.\<close>

theorem reaper_sweep_exact:
  assumes "devices_ok t"
    and "sweep list_active_devices (\<lambda>i. update_last_seen i seen) deactivate_dormant connected in_call st now t
      = (reaped, t')"
  shows "set reaped = {i. \<exists>d. get_device i t = Some d \<and> is_web_device d \<and> \<not> connected i
        \<and> now - di_last_seen_at d \<ge> st \<and> i \<notin> set in_call}
    \<and> get_device i t' = Option.bind (get_device i t) (after_sweep connected in_call st now seen)
    \<and> (\<forall>d. get_device i t = Some d \<longrightarrow> \<not> is_web_device d \<longrightarrow> get_device i t' = Some d)"
proof -
  note c = rr.sweep_correct [OF assms]
  have g: "get_device i t = Some d \<longleftrightarrow> di_device_id d = i \<and> d \<in> set (list_active_devices t)" for i d
    using rr.list_lookup [OF assms(1), of d] rr.lookup_id [OF assms(1), of i d] by auto
  then have "set reaped = {i. \<exists>d. get_device i t = Some d \<and> reapable connected in_call st now d}"
    unfolding c(1) g by auto
  then have "set reaped = {i. \<exists>d. get_device i t = Some d \<and> is_web_device d \<and> \<not> connected i
        \<and> now - di_last_seen_at d \<ge> st \<and> i \<notin> set in_call}"
    by (auto simp: reapable_def g)
  then show ?thesis using c(2) by (auto simp: after_sweep_def reapable_def)
qed

text \<open>A browser last seen at time 0 and a phone, swept at time 90000 with nothing connected.\<close>

lemma example_sweep:
  "sweep list_active_devices (\<lambda>i. update_last_seen i 90000) deactivate_dormant (\<lambda>_. False) [] 90000 90000
     [example_device ''b'' WEB_BROWSER_DEVICE_NAME ''kb'' 0, example_device ''p'' ''Pixel'' ''kp'' 0]
   = ([''b''], [(example_device ''b'' WEB_BROWSER_DEVICE_NAME ''kb'' 0)\<lparr> dv_is_active := False \<rparr>,
      example_device ''p'' ''Pixel'' ''kp'' 0])"
  by (simp add: sweep_def list_active_devices_def sql_select_def sweep_device_def is_web_device_def device_info_of_def
      WEB_BROWSER_DEVICE_NAME_def deactivate_dormant_eq sql_count_def sql_update_def)

theorem reaper_sweep_exact_witness:
  "get_device ''p'' [(example_device ''b'' WEB_BROWSER_DEVICE_NAME ''kb'' 0)\<lparr> dv_is_active := False \<rparr>,
      example_device ''p'' ''Pixel'' ''kp'' 0] = Some (device_info_of (example_device ''p'' ''Pixel'' ''kp'' 0))"
proof -
  let ?t = "[example_device ''b'' WEB_BROWSER_DEVICE_NAME ''kb'' 0, example_device ''p'' ''Pixel'' ''kp'' 0]"
  have ok: "devices_ok ?t" by (simp add: devices_ok_def)
  have g: "get_device ''p'' ?t = Some (device_info_of (example_device ''p'' ''Pixel'' ''kp'' 0))"
    by (simp add: get_device_def sql_first_def)
  have w: "\<not> is_web_device (device_info_of (example_device ''p'' ''Pixel'' ''kp'' 0))"
    by (simp add: is_web_device_def device_info_of_def WEB_BROWSER_DEVICE_NAME_def)
  from reaper_sweep_exact [OF ok example_sweep, of "''p''"] g w show ?thesis by blast
qed

end
