(* ===== verification/Auth_Service.thy ===== *)
theory Auth_Service
  imports Web_Device_Reaper
begin

text \<open>
  \<^verbatim>\<open>src/services/auth-service.ts\<close>: login with lockout, logout and session validation over the
  single row of the table \<^verbatim>\<open>auth\<close> and the device registry. The password comparison of the
  library \<^verbatim>\<open>bcrypt\<close> is the parameter \<open>matches\<close>, its hash the parameter \<open>hash\<close>; clock
  readings (milliseconds) and random strings are arguments. Adding \<open>n\<close> days to a date is
  adding \<open>n * 86400000\<close> milliseconds, as in a time zone without daylight saving.
\<close>

record auth_row =
  au_password_hash :: string
  au_failed_attempts :: nat
  au_locked_until :: "int option"

record auth_config =
  session_expiry_days :: int
  max_failed_attempts :: nat
  lockout_duration_minutes :: int

definition DEFAULT_MAX_FAILED_ATTEMPTS :: nat where
  "DEFAULT_MAX_FAILED_ATTEMPTS = 5"

definition DEFAULT_LOCKOUT_DURATION_MINUTES :: int where
  "DEFAULT_LOCKOUT_DURATION_MINUTES = 15"

definition auth_service_config :: "int \<Rightarrow> nat option \<Rightarrow> int option \<Rightarrow> auth_config" where
  "auth_service_config days attempts minutes =
     \<lparr> session_expiry_days = days,
       max_failed_attempts = (case attempts of None \<Rightarrow> DEFAULT_MAX_FAILED_ATTEMPTS | Some n \<Rightarrow> n),
       lockout_duration_minutes = (case minutes of None \<Rightarrow> DEFAULT_LOCKOUT_DURATION_MINUTES | Some m \<Rightarrow> m) \<rparr>"

record auth_state =
  st_auth :: "auth_row option"
  st_devices :: "device_row table"

datatype login_result =
    Login_Ok string device_id string
  | Login_Not_Configured
  | Login_Locked int
  | Login_Invalid_Password
  | Login_Device_Limit

text \<open>What a login draws from outside: three readings of the clock and three random strings.\<close>

record login_draws =
  ld_check_now :: int
  ld_lock_now :: int
  ld_register_now :: int
  ld_session_token :: string
  ld_push_topic :: string
  ld_device_id :: device_id

section \<open>Login\<close>

text \<open>
  The part before the password comparison: the row as it was read, or the early answer. An
  expired lockout is reset in the table but not in the row that was read.
\<close>

definition login_begin :: "int \<Rightarrow> auth_state \<Rightarrow> (login_result + auth_row) \<times> auth_state" where
  "login_begin now s =
     (case st_auth s of
        None \<Rightarrow> (Inl Login_Not_Configured, s)
      | Some auth \<Rightarrow>
          (case au_locked_until auth of
             None \<Rightarrow> (Inr auth, s)
           | Some until \<Rightarrow>
               if until > now then (Inl (Login_Locked until), s)
               else (Inr auth, s\<lparr> st_auth := map_option
                  (\<lambda>a. a\<lparr> au_failed_attempts := 0, au_locked_until := None \<rparr>) (st_auth s) \<rparr>)))"

text \<open>The part after it, on the row that was read; \<open>st_auth s\<close> may have changed meanwhile.\<close>

definition login_finish ::
    "auth_config \<Rightarrow> bool \<Rightarrow> string \<Rightarrow> bool \<Rightarrow> login_draws \<Rightarrow> auth_row \<Rightarrow> auth_state
      \<Rightarrow> (device_error + login_result) \<times> auth_state" where
  "login_finish cfg password_valid device_name skip_device_limit draws auth s =
     (if \<not> password_valid then
        (let new_attempts = au_failed_attempts auth + 1 in
         if new_attempts \<ge> max_failed_attempts cfg then
           (let locked_until = ld_lock_now draws + lockout_duration_minutes cfg * 60 * 1000 in
            (Inr (Login_Locked locked_until),
             s\<lparr> st_auth := map_option (\<lambda>a. a\<lparr> au_failed_attempts := new_attempts,
                  au_locked_until := Some locked_until \<rparr>) (st_auth s) \<rparr>))
         else
           (Inr Login_Invalid_Password,
            s\<lparr> st_auth := map_option (\<lambda>a. a\<lparr> au_failed_attempts := new_attempts \<rparr>) (st_auth s) \<rparr>))
      else
        (let s1 = s\<lparr> st_auth := map_option (\<lambda>a. a\<lparr> au_failed_attempts := 0, au_locked_until := None \<rparr>) (st_auth s) \<rparr> in
         case register_device (ld_device_id draws) (ld_register_now draws) device_name (ld_push_topic draws)
             (ld_session_token draws) skip_device_limit (st_devices s1) of
           (Inr device, devices) \<Rightarrow>
             (Inr (Login_Ok (ld_session_token draws) (di_device_id device) (ld_push_topic draws)),
              s1\<lparr> st_devices := devices \<rparr>)
         | (Inl Device_Limit_Exceeded, devices) \<Rightarrow> (Inr Login_Device_Limit, s1\<lparr> st_devices := devices \<rparr>)
         | (Inl Unique_Violation, devices) \<Rightarrow> (Inl Unique_Violation, s1\<lparr> st_devices := devices \<rparr>)))"

definition login ::
    "auth_config \<Rightarrow> (string \<Rightarrow> string \<Rightarrow> bool) \<Rightarrow> string \<Rightarrow> string \<Rightarrow> bool \<Rightarrow> login_draws \<Rightarrow> auth_state
      \<Rightarrow> (device_error + login_result) \<times> auth_state" where
  "login cfg matches password device_name skip_device_limit draws s =
     (case login_begin (ld_check_now draws) s of
        (Inl early, s1) \<Rightarrow> (Inr early, s1)
      | (Inr auth, s1) \<Rightarrow>
          login_finish cfg (matches password (au_password_hash auth)) device_name skip_device_limit draws auth s1)"

section \<open>Logout and sessions\<close>

definition logged_out_token :: "string \<Rightarrow> string" where
  "logged_out_token random = ''logged-out:'' @ random"

definition logout :: "string \<Rightarrow> string \<Rightarrow> auth_state \<Rightarrow> (device_error + bool) \<times> auth_state" where
  "logout session_token random s =
     (let invalidated_token = logged_out_token random;
          p = (\<lambda>d. dv_session_token d = session_token);
          n = sql_count p (st_devices s)
      in if n > 0 \<and> list_ex (\<lambda>d. \<not> p d \<and> dv_session_token d = invalidated_token) (st_devices s)
           then (Inl Unique_Violation, s)
         else (Inr (n > 0), s\<lparr> st_devices := sql_update p
            (\<lambda>d. d\<lparr> dv_is_active := False, dv_session_token := invalidated_token \<rparr>) (st_devices s) \<rparr>))"

definition MS_PER_DAY :: int where
  "MS_PER_DAY = 86400000"

definition expires_at :: "auth_config \<Rightarrow> device_row \<Rightarrow> int" where
  "expires_at cfg d = dv_registered_at d + session_expiry_days cfg * MS_PER_DAY"

definition validate_session ::
    "auth_config \<Rightarrow> string \<Rightarrow> int \<Rightarrow> int \<Rightarrow> device_row table \<Rightarrow> (device_id \<times> string) option \<times> device_row table" where
  "validate_session cfg session_token now seen t =
     (case sql_first (\<lambda>d. dv_session_token d = session_token) t of
        None \<Rightarrow> (None, t)
      | Some device \<Rightarrow>
          if now > expires_at cfg device
            then (None, sql_update (\<lambda>d. dv_device_id d = dv_device_id device) (\<lambda>d. d\<lparr> dv_is_active := False \<rparr>) t)
          else (Some (dv_device_id device, dv_device_name device),
            sql_update (\<lambda>d. dv_device_id d = dv_device_id device)
              (\<lambda>d. d\<lparr> dv_last_seen_at := seen, dv_is_active := True \<rparr>) t))"

definition hash_password :: "(string \<Rightarrow> nat \<Rightarrow> string) \<Rightarrow> string \<Rightarrow> string" where
  "hash_password hash password = hash password 12"

definition get_auth :: "auth_state \<Rightarrow> string option" where
  "get_auth s = map_option au_password_hash (st_auth s)"

definition update_password_hash :: "string \<Rightarrow> auth_state \<Rightarrow> auth_state" where
  "update_password_hash new_hash s =
     s\<lparr> st_auth := map_option (\<lambda>a. a\<lparr> au_password_hash := new_hash \<rparr>) (st_auth s) \<rparr>"

section \<open>Lockout\<close>

lemma login_locked:
  "st_auth s = Some auth \<Longrightarrow> au_locked_until auth = Some u \<Longrightarrow> ld_check_now d < u \<Longrightarrow>
     login cfg matches pw name skip d s = (Inr (Login_Locked u), s)"
  by (simp add: login_def login_begin_def)

lemma login_wrong:
  assumes "st_auth s = Some auth" "au_locked_until auth = None" "\<not> matches pw (au_password_hash auth)"
  shows "login cfg matches pw name skip d s =
    (if au_failed_attempts auth + 1 \<ge> max_failed_attempts cfg
     then let u = ld_lock_now d + lockout_duration_minutes cfg * 60 * 1000 in
       (Inr (Login_Locked u), s\<lparr> st_auth := Some (auth\<lparr> au_failed_attempts := au_failed_attempts auth + 1, au_locked_until := Some u \<rparr>) \<rparr>)
     else (Inr Login_Invalid_Password, s\<lparr> st_auth := Some (auth\<lparr> au_failed_attempts := au_failed_attempts auth + 1 \<rparr>) \<rparr>))"
  using assms by (simp add: login_def login_begin_def login_finish_def Let_def)

text \<open>A run of attempts, each with its own password, device and draws.\<close>

fun attempts ::
    "auth_config \<Rightarrow> (string \<Rightarrow> string \<Rightarrow> bool) \<Rightarrow> (string \<times> string \<times> bool \<times> login_draws) list \<Rightarrow> auth_state \<Rightarrow> auth_state" where
  "attempts cfg matches [] s = s"
| "attempts cfg matches ((pw, name, skip, d) # as) s =
     attempts cfg matches as (snd (login cfg matches pw name skip d s))"

lemma wrong_attempts_count:
  assumes "st_auth s = Some auth" "au_locked_until auth = None"
    "\<forall>(pw, _) \<in> set as. \<not> matches pw (au_password_hash auth)"
    "au_failed_attempts auth + length as < max_failed_attempts cfg"
  shows "attempts cfg matches as s =
    s\<lparr> st_auth := Some (auth\<lparr> au_failed_attempts := au_failed_attempts auth + length as \<rparr>) \<rparr>"
  using assms
proof (induction as arbitrary: s auth)
  case Nil
  then show ?case by (cases s, cases auth) simp
next
  case (Cons a as)
  obtain pw name skip d where a: "a = (pw, name, skip, d)" by (cases a)
  let ?auth = "auth\<lparr> au_failed_attempts := au_failed_attempts auth + 1 \<rparr>"
  have "snd (login cfg matches pw name skip d s) = s\<lparr> st_auth := Some ?auth \<rparr>"
    using Cons.prems a by (auto simp: login_wrong)
  moreover have "attempts cfg matches as (s\<lparr> st_auth := Some ?auth \<rparr>) =
      s\<lparr> st_auth := Some (?auth\<lparr> au_failed_attempts := au_failed_attempts auth + 1 + length as \<rparr>) \<rparr>"
    using Cons.IH [of "s\<lparr> st_auth := Some ?auth \<rparr>" ?auth] Cons.prems by auto
  ultimately show ?case using a by simp
qed

lemma locked_attempts:
  assumes "st_auth s = Some auth" "au_locked_until auth = Some u" "\<forall>(_, _, _, d) \<in> set as. ld_check_now d < u"
  shows "attempts cfg matches as s = s"
  using assms
proof (induction as)
  case (Cons a as)
  then show ?case by (cases a) (simp add: login_locked)
qed simp

text \<open>
  After the lockout has expired the first wrong password locks the account again: the
  attempts are counted from the row read before the reset.
\<close>

lemma relock_after_expiry:
  assumes "st_auth s = Some auth" "au_locked_until auth = Some u" "u \<le> ld_check_now d"
    "max_failed_attempts cfg \<le> au_failed_attempts auth + 1" "\<not> matches pw (au_password_hash auth)"
  shows "fst (login cfg matches pw name skip d s) = Inr (Login_Locked (ld_lock_now d + lockout_duration_minutes cfg * 60 * 1000))"
  using assms by (simp add: login_def login_begin_def login_finish_def Let_def)

text \<open>Wrong attempts whose comparisons overlap are counted once: each writes the count it read.\<close>

lemma overlapping_attempts_count_once:
  assumes "st_auth s = Some auth" "au_failed_attempts auth = 0" "1 < max_failed_attempts cfg"
  shows "st_auth (snd (login_finish cfg False n2 k2 d2 auth (snd (login_finish cfg False n1 k1 d1 auth s))))
    = Some (auth\<lparr> au_failed_attempts := 1 \<rparr>)"
  using assms by (simp add: login_finish_def Let_def)

section \<open>Sessions and the device limit\<close>

text \<open>
  Tokens that end a session, and the system of the registry under its operations with a
  clock that does not run backwards. The browser name and the exemption from the limit go
  together, as in the login route.
\<close>

definition is_sentinel :: "string \<Rightarrow> bool" where
  "is_sentinel token \<longleftrightarrow> take 8 token = ''removed:'' \<or> take 11 token = ''logged-out:''"

record registry_system =
  rs_devices :: "device_row table"
  rs_clock :: int

datatype registry_event =
    Register device_id string string string
  | Validate string
  | Logout string string
  | Deregister device_id string
  | Reap "device_id list" "device_id list"
  | Seen device_id

inductive registry_step :: "auth_config \<Rightarrow> registry_system \<Rightarrow> registry_event \<Rightarrow> registry_system \<Rightarrow> bool"
  for cfg :: auth_config where
  reg_register: "\<not> is_sentinel token \<Longrightarrow> rs_clock s \<le> now \<Longrightarrow>
     register_device i now name topic token (name = WEB_BROWSER_DEVICE_NAME) (rs_devices s) = (res, t) \<Longrightarrow>
     registry_step cfg s (Register i name topic token) \<lparr> rs_devices = t, rs_clock = now \<rparr>"
| reg_validate: "\<not> is_sentinel token \<Longrightarrow> rs_clock s \<le> now \<Longrightarrow>
     validate_session cfg token now now (rs_devices s) = (res, t) \<Longrightarrow>
     registry_step cfg s (Validate token) \<lparr> rs_devices = t, rs_clock = now \<rparr>"
| reg_logout: "rs_clock s \<le> now \<Longrightarrow>
     logout token random \<lparr> st_auth = a, st_devices = rs_devices s \<rparr> = (res, u) \<Longrightarrow>
     registry_step cfg s (Logout token random) \<lparr> rs_devices = st_devices u, rs_clock = now \<rparr>"
| reg_deregister: "rs_clock s \<le> now \<Longrightarrow>
     deactivate_device i (Some (removed_token random)) (rs_devices s) = (res, t) \<Longrightarrow>
     registry_step cfg s (Deregister i random) \<lparr> rs_devices = t, rs_clock = now \<rparr>"
| reg_reap: "rs_clock s \<le> now \<Longrightarrow>
     sweep list_active_devices (\<lambda>i. update_last_seen i now) deactivate_dormant
       (\<lambda>i. i \<in> set connected) in_call st now (rs_devices s) = (reaped, t) \<Longrightarrow>
     registry_step cfg s (Reap connected in_call) \<lparr> rs_devices = t, rs_clock = now \<rparr>"
| reg_seen: "rs_clock s \<le> now \<Longrightarrow>
     registry_step cfg s (Seen i) \<lparr> rs_devices = update_last_seen i now (rs_devices s), rs_clock = now \<rparr>"

inductive_cases registry_stepE: "registry_step cfg s e t"

definition active_phone :: "device_row \<Rightarrow> bool" where
  "active_phone d \<longleftrightarrow> dv_is_active d \<and> dv_device_name d \<noteq> WEB_BROWSER_DEVICE_NAME"

text \<open>A phone that is not active can never become active again.\<close>

definition phone_dead :: "auth_config \<Rightarrow> int \<Rightarrow> device_row \<Rightarrow> bool" where
  "phone_dead cfg now d \<longleftrightarrow> dv_device_name d \<noteq> WEB_BROWSER_DEVICE_NAME \<longrightarrow> \<not> dv_is_active d \<longrightarrow>
     is_sentinel (dv_session_token d) \<or> now > expires_at cfg d"

definition registry_inv :: "auth_config \<Rightarrow> registry_system \<Rightarrow> bool" where
  "registry_inv cfg s \<longleftrightarrow> devices_ok (rs_devices s)
     \<and> sql_count active_phone (rs_devices s) \<le> MAX_ACTIVE_DEVICES
     \<and> (\<forall>d \<in> set (rs_devices s). phone_dead cfg (rs_clock s) d)"

definition registry_init :: "registry_system \<Rightarrow> bool" where
  "registry_init s \<longleftrightarrow> rs_devices s = []"

lemma phone_dead_later: "phone_dead cfg c d \<Longrightarrow> c \<le> now \<Longrightarrow> phone_dead cfg now d"
  by (auto simp: phone_dead_def)

lemma sentinel_tokens [simp]: "is_sentinel (removed_token r)" "is_sentinel (logged_out_token r)"
  by (simp_all add: is_sentinel_def removed_token_def logged_out_token_def)

lemma inv_update:
  assumes "registry_inv cfg s" "rs_clock s \<le> now" "devices_ok (sql_update p f (rs_devices s))"
    "\<And>d. d \<in> set (rs_devices s) \<Longrightarrow> p d \<Longrightarrow> active_phone (f d) \<Longrightarrow> active_phone d"
    "\<And>d. d \<in> set (rs_devices s) \<Longrightarrow> p d \<Longrightarrow> phone_dead cfg now d \<Longrightarrow> phone_dead cfg now (f d)"
  shows "registry_inv cfg \<lparr> rs_devices = sql_update p f (rs_devices s), rs_clock = now \<rparr>"
proof -
  have "sql_count active_phone (sql_update p f (rs_devices s)) \<le> sql_count active_phone (rs_devices s)"
    using assms(4) by (rule count_update_le)
  moreover have "phone_dead cfg now d" if "d \<in> set (sql_update p f (rs_devices s))" for d
    using that assms(1,2,5) phone_dead_later by (auto simp: sql_update_mem registry_inv_def)
  ultimately show ?thesis using assms(1,3) by (auto simp: registry_inv_def)
qed

lemma inv_clock: "registry_inv cfg s \<Longrightarrow> rs_clock s \<le> now \<Longrightarrow> registry_inv cfg \<lparr> rs_devices = rs_devices s, rs_clock = now \<rparr>"
  by (auto simp: registry_inv_def intro: phone_dead_later)

lemma inv_register:
  assumes "registry_inv cfg s" "rs_clock s \<le> now"
    "register_device i now name topic token (name = WEB_BROWSER_DEVICE_NAME) (rs_devices s) = (res, t)"
  shows "registry_inv cfg \<lparr> rs_devices = t, rs_clock = now \<rparr>"
proof -
  let ?t = "rs_devices s"
  have ok: "devices_ok t" using register_device_ok assms(1,3) by (metis registry_inv_def snd_conv)
  have le: "sql_count active_phone ?t \<le> get_active_device_count ?t"
    unfolding get_active_device_count_def by (rule sql_count_mono) (simp add: active_phone_def)
  consider "t = ?t" | r where "t = sql_insert r ?t" "dv_is_active r" "dv_device_name r = name"
      "name \<noteq> WEB_BROWSER_DEVICE_NAME \<Longrightarrow> get_active_device_count ?t < MAX_ACTIVE_DEVICES"
    using assms(3) by (auto simp: register_device_def insert_device_def Let_def split: if_splits)
  then show ?thesis
  proof cases
    case 1
    then show ?thesis using inv_clock [OF assms(1,2)] by simp
  next
    case 2
    have "sql_count active_phone t \<le> MAX_ACTIVE_DEVICES"
      using 2 le assms(1) by (auto simp: sql_count_insert active_phone_def registry_inv_def)
    moreover have "\<forall>d \<in> set t. phone_dead cfg now d"
      using 2 assms(1,2) phone_dead_later
      by (auto simp: sql_insert_def registry_inv_def phone_dead_def)
    ultimately show ?thesis using ok by (simp add: registry_inv_def)
  qed
qed

lemma inv_validate:
  assumes inv: "registry_inv cfg s" and now: "rs_clock s \<le> now" and tok: "\<not> is_sentinel token"
    and v: "validate_session cfg token now now (rs_devices s) = (res, t)"
  shows "registry_inv cfg \<lparr> rs_devices = t, rs_clock = now \<rparr>"
proof (cases "sql_first (\<lambda>d. dv_session_token d = token) (rs_devices s)")
  case None
  then show ?thesis using v inv_clock [OF inv now] by (simp add: validate_session_def)
next
  case (Some d)
  have ok: "devices_ok (rs_devices s)" using inv by (simp add: registry_inv_def)
  have d: "d \<in> set (rs_devices s)" "dv_session_token d = token" using sql_first_Some [OF Some] by auto
  have one: "r = d" if "r \<in> set (rs_devices s)" "dv_device_id r = dv_device_id d" for r
    using that d(1) ok by (auto simp: devices_ok_def distinct_map inj_on_def)
  have dead: "phone_dead cfg now d" using inv now d(1) phone_dead_later by (auto simp: registry_inv_def)
  show ?thesis
  proof (cases "now > expires_at cfg d")
    case True
    then have t: "t = sql_update (\<lambda>r. dv_device_id r = dv_device_id d) (\<lambda>r. r\<lparr> dv_is_active := False \<rparr>) (rs_devices s)"
      using v Some by (simp add: validate_session_def)
    show ?thesis unfolding t
      using True one ok
      by (intro inv_update [OF inv now])
        (auto simp: update_keeps_ok active_phone_def phone_dead_def expires_at_def)
  next
    case False
    then have t: "t = sql_update (\<lambda>r. dv_device_id r = dv_device_id d)
        (\<lambda>r. r\<lparr> dv_last_seen_at := now, dv_is_active := True \<rparr>) (rs_devices s)"
      using v Some by (simp add: validate_session_def)
    have "active_phone d" if "dv_device_name d \<noteq> WEB_BROWSER_DEVICE_NAME"
      using dead that False tok d(2) by (auto simp: phone_dead_def active_phone_def)
    then show ?thesis unfolding t
      using one ok
      by (intro inv_update [OF inv now]) (auto simp: update_keeps_ok active_phone_def phone_dead_def)
  qed
qed

lemma logout_ok:
  assumes "devices_ok (st_devices s)"
  shows "devices_ok (st_devices (snd (logout token random s)))"
proof (cases "fst (logout token random s)")
  case (Inl e)
  then show ?thesis using assms by (auto simp: logout_def Let_def split: if_splits)
next
  case (Inr b)
  let ?p = "\<lambda>d. dv_session_token d = token" and ?t = "st_devices s"
  let ?f = "\<lambda>d. d\<lparr> dv_is_active := False, dv_session_token := logged_out_token random \<rparr>"
  have s: "st_devices (snd (logout token random s)) = sql_update ?p ?f ?t"
    using Inr by (auto simp: logout_def Let_def split: if_splits)
  have "distinct (map dv_session_token (sql_update ?p ?f ?t))"
  proof (cases "sql_count ?p ?t = 0")
    case True
    then show ?thesis using assms by (simp add: sql_update_none devices_ok_def)
  next
    case False
    have "\<And>r. r \<in> set ?t \<Longrightarrow> dv_session_token r \<noteq> token \<Longrightarrow> dv_session_token r \<noteq> logged_out_token random"
      using Inr False by (auto simp: logout_def Let_def list_ex_iff split: if_splits)
    then show ?thesis
      using assms distinct_update_one [of dv_session_token ?t dv_session_token token "logged_out_token random" ?f]
      by (simp add: devices_ok_def)
  qed
  then show ?thesis using assms unfolding s by (simp add: devices_ok_def sql_simps)
qed

lemma inv_logout:
  assumes "registry_inv cfg s" "rs_clock s \<le> now"
    "logout token random \<lparr> st_auth = a, st_devices = rs_devices s \<rparr> = (res, u)"
  shows "registry_inv cfg \<lparr> rs_devices = st_devices u, rs_clock = now \<rparr>"
proof -
  have ok: "devices_ok (st_devices u)"
    using logout_ok [of "\<lparr> st_auth = a, st_devices = rs_devices s \<rparr>" token random] assms
    by (simp add: registry_inv_def)
  consider "st_devices u = rs_devices s"
    | "st_devices u = sql_update (\<lambda>d. dv_session_token d = token)
        (\<lambda>d. d\<lparr> dv_is_active := False, dv_session_token := logged_out_token random \<rparr>) (rs_devices s)"
    using assms(3) by (auto simp: logout_def Let_def split: if_splits)
  then show ?thesis
  proof cases
    case 1
    then show ?thesis using inv_clock [OF assms(1,2)] by simp
  next
    case 2
    show ?thesis using ok unfolding 2
      by (intro inv_update [OF assms(1,2)]) (auto simp: active_phone_def phone_dead_def)
  qed
qed

lemma inv_deregister:
  assumes "registry_inv cfg s" "rs_clock s \<le> now"
    "deactivate_device i (Some (removed_token random)) (rs_devices s) = (res, t)"
  shows "registry_inv cfg \<lparr> rs_devices = t, rs_clock = now \<rparr>"
proof -
  have ok: "devices_ok t" using deactivate_device_ok assms(1,3) by (metis registry_inv_def snd_conv)
  consider "t = rs_devices s"
    | "t = sql_update (\<lambda>d. dv_device_id d = i)
        (\<lambda>d. d\<lparr> dv_is_active := False, dv_session_token := removed_token random \<rparr>) (rs_devices s)"
    using assms(3) by (auto simp: deactivate_device_def Let_def split: if_splits)
  then show ?thesis
  proof cases
    case 1
    then show ?thesis using inv_clock [OF assms(1,2)] by simp
  next
    case 2
    show ?thesis using ok unfolding 2
      by (intro inv_update [OF assms(1,2)]) (auto simp: active_phone_def phone_dead_def)
  qed
qed

lemma inv_seen:
  assumes "registry_inv cfg s" "rs_clock s \<le> now"
  shows "registry_inv cfg \<lparr> rs_devices = update_last_seen i seen (rs_devices s), rs_clock = now \<rparr>"
proof -
  have "devices_ok (update_last_seen i seen (rs_devices s))" using assms(1) by (simp add: registry_inv_def)
  then show ?thesis unfolding update_last_seen_def
    by (intro inv_update [OF assms]) (auto simp: active_phone_def phone_dead_def expires_at_def)
qed

text \<open>A sweep only touches rows under the browser's name.\<close>

lemma inv_reap:
  assumes "registry_inv cfg s" "rs_clock s \<le> now"
    "sweep list_active_devices (\<lambda>i. update_last_seen i seen) deactivate_dormant connected in_call st n (rs_devices s)
      = (reaped, t)"
  shows "registry_inv cfg \<lparr> rs_devices = t, rs_clock = now \<rparr>"
proof -
  let ?names = "map (\<lambda>d. (dv_device_id d, dv_device_name d))"
  let ?P = "\<lambda>t. registry_inv cfg \<lparr> rs_devices = t, rs_clock = now \<rparr> \<and> ?names t = ?names (rs_devices s)"
  have web: "dv_device_name r = WEB_BROWSER_DEVICE_NAME"
    if n: "?names t = ?names (rs_devices s)" and ok: "devices_ok (rs_devices s)" and r: "r \<in> set t" "dv_device_id r = di_device_id d"
      and d: "d \<in> set (list_active_devices (rs_devices s))" "is_web_device d" for r d t
  proof -
    obtain r0 where r0: "r0 \<in> set (rs_devices s)" "d = device_info_of r0"
      using d(1) by (auto simp: list_active_devices_def sql_select_def)
    have "(dv_device_id r, dv_device_name r) \<in> set (?names (rs_devices s))"
      using n r(1) by (metis (no_types, lifting) image_eqI list.set_map)
    then obtain r1 where r1: "r1 \<in> set (rs_devices s)" "dv_device_id r1 = dv_device_id r" "dv_device_name r1 = dv_device_name r"
      by auto
    then have "r1 = r0" using ok r(2) r0 by (auto simp: devices_ok_def distinct_map inj_on_def device_info_of_def)
    then show ?thesis using r1 r0 d(2) by (simp add: is_web_device_def device_info_of_def)
  qed
  have "?P (snd (fold (sweep_device (\<lambda>i. update_last_seen i seen) deactivate_dormant connected in_call st n)
      (list_active_devices (rs_devices s)) ([], rs_devices s)))"
  proof (rule rr.sweep_keeps)
    show "?P (rs_devices s)" using inv_clock [OF assms(1,2)] by simp
    show "?P (update_last_seen i seen t)" if "?P t" for t i
      using that inv_seen [of cfg "\<lparr> rs_devices = t, rs_clock = now \<rparr>" now i seen]
      by (simp add: update_last_seen_def sql_simps)
    show "?P (snd (deactivate_dormant (di_device_id d) t))"
      if P: "?P t" and d: "d \<in> set (list_active_devices (rs_devices s))" "is_web_device d" for t d
    proof -
      have w: "dv_device_name r = WEB_BROWSER_DEVICE_NAME" if "r \<in> set t" "dv_device_id r = di_device_id d" for r
        using web P d that assms(1) by (auto simp: registry_inv_def)
      have "registry_inv cfg \<lparr> rs_devices = sql_update (\<lambda>r. dv_device_id r = di_device_id d \<and> dv_is_active r)
          (\<lambda>r. r\<lparr> dv_is_active := False \<rparr>) (rs_devices \<lparr> rs_devices = t, rs_clock = now \<rparr>), rs_clock = now \<rparr>"
        using P w
        by (intro inv_update [of cfg "\<lparr> rs_devices = t, rs_clock = now \<rparr>" now])
          (auto simp: update_keeps_ok registry_inv_def active_phone_def phone_dead_def)
      then show ?thesis using P by (simp add: deactivate_dormant_eq sql_simps)
    qed
  qed
  then show ?thesis using assms(3) by (simp add: sweep_def)
qed

interpretation registry: invariant_system registry_init "registry_step cfg" "registry_inv cfg" for cfg
proof
  show "registry_inv cfg s" if "registry_init s" for s
    using that by (simp add: registry_init_def registry_inv_def MAX_ACTIVE_DEVICES_def)
  show "registry_inv cfg t" if "registry_inv cfg s" "registry_step cfg s e t" for s e t
    using that(2,1)
    by cases (simp_all add: inv_register inv_validate inv_logout inv_deregister inv_reap inv_seen)
qed

section \<open>Tokens that are gone stay gone\<close>

lemma first_through_map: "map_option g (sql_first (\<lambda>d. P (g d)) t) = find P (map g t)"
  by (induction t) (auto simp: sql_first_def)

fun registers_token :: "string \<Rightarrow> registry_event \<Rightarrow> bool" where
  "registers_token k (Register i name topic token) \<longleftrightarrow> token = k"
| "registers_token k _ \<longleftrightarrow> False"

definition holds_token :: "string \<Rightarrow> device_row table \<Rightarrow> bool" where
  "holds_token k t \<longleftrightarrow> k \<in> dv_session_token ` set t"

lemma holds_update: "(\<And>d. dv_session_token (f d) = dv_session_token d) \<Longrightarrow> holds_token k (sql_update p f t) = holds_token k t"
  by (metis holds_token_def list.set_map sql_update_map)

lemma holds_replaced:
  assumes "\<And>d. dv_session_token (f d) = v" "v \<noteq> k" "\<And>d. d \<in> set t \<Longrightarrow> dv_session_token d = k \<Longrightarrow> p d"
  shows "\<not> holds_token k (sql_update p f t)"
proof
  assume "holds_token k (sql_update p f t)"
  then obtain r where "r \<in> set t" "k = dv_session_token (if p r then f r else r)"
    by (auto simp: holds_token_def sql_update_mem)
  then show False using assms by (cases "p r") auto
qed

lemma validate_valid:
  assumes "validate_session cfg token now seen t = (Some (i, name), u)"
  shows "\<exists>d \<in> set u. dv_device_id d = i \<and> dv_session_token d = token \<and> dv_is_active d
    \<and> dv_last_seen_at d = seen \<and> now \<le> expires_at cfg d"
proof (cases "sql_first (\<lambda>d. dv_session_token d = token) t")
  case None
  then show ?thesis using assms by (simp add: validate_session_def)
next
  case (Some d)
  then have d: "d \<in> set t" "dv_session_token d = token" by (auto dest: sql_first_Some)
  let ?d = "d\<lparr> dv_last_seen_at := seen, dv_is_active := True \<rparr>"
  have v: "i = dv_device_id d" "\<not> now > expires_at cfg d"
      "u = sql_update (\<lambda>r. dv_device_id r = dv_device_id d) (\<lambda>r. r\<lparr> dv_last_seen_at := seen, dv_is_active := True \<rparr>) t"
    using assms Some by (auto simp: validate_session_def split: if_splits)
  then have "?d \<in> set u" using d(1) by (auto simp: sql_update_mem)
  then show ?thesis using v(1,2) d(2) by (intro bexI [of _ ?d]) (auto simp: expires_at_def)
qed

lemma validate_absent: "\<not> holds_token k t \<Longrightarrow> validate_session cfg k now seen t = (None, t)"
  by (auto simp: validate_session_def holds_token_def split: option.splits dest!: sql_first_Some)

lemma holds_validate: "holds_token k (snd (validate_session cfg tk now seen t)) = holds_token k t"
  by (auto simp: validate_session_def holds_update split: option.splits)

lemma holds_sweep:
  "map (\<lambda>d. (dv_device_id d, dv_device_name d, dv_session_token d, dv_registered_at d))
     (snd (sweep list_active_devices (\<lambda>i. update_last_seen i seen) deactivate_dormant connected in_call st n t))
   = map (\<lambda>d. (dv_device_id d, dv_device_name d, dv_session_token d, dv_registered_at d)) t"
  unfolding sweep_def
  by (rule rr.sweep_keeps) (simp_all add: deactivate_dormant_eq update_last_seen_def sql_simps)

lemma holds_sweep_token:
  "holds_token k (snd (sweep list_active_devices (\<lambda>i. update_last_seen i seen) deactivate_dormant connected in_call st n t))
   = holds_token k t"
proof -
  have "map dv_session_token (snd (sweep list_active_devices (\<lambda>i. update_last_seen i seen) deactivate_dormant connected in_call st n t))
    = map dv_session_token t"
    using arg_cong [OF holds_sweep, of "map (\<lambda>(_, _, x, _). x)"] by (simp add: comp_def)
  then show ?thesis by (metis holds_token_def list.set_map)
qed

lemma holds_after_logout:
  "holds_token k (st_devices (snd (logout token random s))) \<Longrightarrow> k = logged_out_token random \<or> holds_token k (st_devices s)"
  by (auto simp: logout_def Let_def holds_token_def sql_update_mem split: if_splits)

lemma holds_after_deregister:
  "holds_token k (snd (deactivate_device i (Some token) t)) \<Longrightarrow> k = token \<or> holds_token k t"
  by (auto simp: deactivate_device_def Let_def holds_token_def sql_update_mem split: if_splits)

lemma holds_after_register:
  "holds_token k (snd (register_device i now name topic token skip t)) \<Longrightarrow> k = token \<or> holds_token k t"
  by (auto simp: register_device_def insert_device_def Let_def holds_token_def sql_insert_def split: if_splits)

lemma step_token_gone:
  assumes "registry_step cfg s e t" "\<not> registers_token k e" "\<not> is_sentinel k" "\<not> holds_token k (rs_devices s)"
  shows "\<not> holds_token k (rs_devices t)"
  using assms
proof cases
  case (reg_register token now i name topic res u)
  then show ?thesis using assms holds_after_register [of k i now name topic token _ "rs_devices s"] by (metis
      registers_token.simps(1) registry_system.select_convs(1) snd_conv)
next
  case (reg_validate token now res u)
  then show ?thesis using assms(4) holds_validate [of k cfg token now now "rs_devices s"] by simp
next
  case (reg_logout now token random a res u)
  then show ?thesis
    using assms(3,4) holds_after_logout [of k token random "\<lparr> st_auth = a, st_devices = rs_devices s \<rparr>"] by auto
next
  case (reg_deregister now i random res u)
  then show ?thesis using assms(3,4) holds_after_deregister [of k i "removed_token random" "rs_devices s"] by auto
next
  case (reg_reap now connected in_call st reaped u)
  then show ?thesis
    using assms(4) holds_sweep_token [of k now "\<lambda>i. i \<in> set connected" in_call st now "rs_devices s"] by simp
next
  case (reg_seen now i)
  then show ?thesis using assms(4) by (simp add: update_last_seen_def holds_update)
qed

lemma run_token_gone:
  assumes "run (registry_step cfg) s es t" "\<not> list_ex (registers_token k) es" "\<not> is_sentinel k"
    "\<not> holds_token k (rs_devices s)"
  shows "\<not> holds_token k (rs_devices t)"
  using assms
proof (induction rule: run.induct)
  case (run_Cons s e t es u)
  then have "\<not> holds_token k (rs_devices t)" using step_token_gone by auto
  with run_Cons show ?case by simp
qed simp

lemma logout_removes:
  assumes "\<not> is_sentinel k" "logout k random s = (Inr b, u)"
  shows "\<not> holds_token k (st_devices u)" "b \<longleftrightarrow> holds_token k (st_devices s)"
proof -
  have "k \<noteq> logged_out_token random" using assms(1) by auto
  moreover have "st_devices u = sql_update (\<lambda>d. dv_session_token d = k)
      (\<lambda>d. d\<lparr> dv_is_active := False, dv_session_token := logged_out_token random \<rparr>) (st_devices s)"
    using assms(2) by (auto simp: logout_def Let_def split: if_splits)
  ultimately show "\<not> holds_token k (st_devices u)" by (simp add: holds_replaced [where v = "logged_out_token random"])
  show "b \<longleftrightarrow> holds_token k (st_devices s)"
    using assms(2) sql_first_None [of "\<lambda>d. dv_session_token d = k" "st_devices s"]
    by (auto simp: logout_def Let_def holds_token_def sql_count_pos split: if_splits)
qed

lemma deregister_removes:
  assumes "devices_ok t" "r \<in> set t" "dv_device_id r = i" "\<not> is_sentinel (dv_session_token r)"
    "deactivate_device i (Some (removed_token random)) t = (Inr b, u)"
  shows "\<not> holds_token (dv_session_token r) u"
proof -
  have "dv_session_token r \<noteq> removed_token random" using assms(4) by auto
  moreover have "dv_device_id d = i" if "d \<in> set t" "dv_session_token d = dv_session_token r" for d
    using that assms(1-3) by (auto simp: devices_ok_def distinct_map inj_on_def)
  moreover have u: "u = sql_update (\<lambda>d. dv_device_id d = i)
      (\<lambda>d. d\<lparr> dv_is_active := False, dv_session_token := removed_token random \<rparr>) t"
    using assms(5) by (auto simp: deactivate_device_def Let_def split: if_splits)
  ultimately show ?thesis unfolding u by (intro holds_replaced [where v = "removed_token random"]) auto
qed

section \<open>Properties\<close>

text \<open>C21. An unlocked account with no failures on record stays open for all but the last of
  the permitted wrong passwords; the last one locks it for the configured time, and until
  then every attempt is refused, the right password included, and changes nothing.\<close>

theorem lockout_after_max:
  assumes "st_auth s = Some auth" "au_locked_until auth = None" "au_failed_attempts auth = 0"
    and "\<forall>(pw, _) \<in> set as. \<not> matches pw (au_password_hash auth)" "\<not> matches pw (au_password_hash auth)"
    and "length as + 1 = max_failed_attempts cfg"
    and "u = ld_lock_now d + lockout_duration_minutes cfg * 60 * 1000"
    and "\<forall>(_, _, _, d') \<in> set bs. ld_check_now d' < u"
  shows "attempts cfg matches as s = s\<lparr> st_auth := Some (auth\<lparr> au_failed_attempts := length as \<rparr>) \<rparr>
    \<and> (\<exists>s'. login cfg matches pw name skip d (attempts cfg matches as s) = (Inr (Login_Locked u), s')
        \<and> st_devices s' = st_devices s \<and> attempts cfg matches bs s' = s'
        \<and> (\<forall>pw' name' skip' d'. ld_check_now d' < u \<longrightarrow>
             login cfg matches pw' name' skip' d' s' = (Inr (Login_Locked u), s')))"
proof -
  let ?a = "auth\<lparr> au_failed_attempts := length as \<rparr>"
  let ?s = "s\<lparr> st_auth := Some ?a \<rparr>"
  let ?l = "?a\<lparr> au_failed_attempts := length as + 1, au_locked_until := Some u \<rparr>"
  let ?s' = "s\<lparr> st_auth := Some ?l \<rparr>"
  have w: "attempts cfg matches as s = ?s"
    using wrong_attempts_count [of s auth as matches cfg] assms(1-4,6) by simp
  have "login cfg matches pw name skip d ?s = (Inr (Login_Locked u), ?s')"
    using login_wrong [of ?s ?a matches pw cfg name skip d] assms(2,5,6,7) by (simp add: Let_def)
  moreover have "attempts cfg matches bs ?s' = ?s'"
    using locked_attempts [of ?s' ?l u bs] assms(8) by simp
  moreover have "login cfg matches pw' name' skip' d' ?s' = (Inr (Login_Locked u), ?s')" if "ld_check_now d' < u" for pw' name' skip' d'
    using login_locked [of ?s' ?l u d'] that by simp
  ultimately show ?thesis using w by (intro conjI exI [of _ ?s']) auto
qed

theorem lockout_after_max_witness:
  "\<exists>s'. login (auth_service_config 30 None None) (=) ''x'' ''n'' False
      \<lparr> ld_check_now = 0, ld_lock_now = 10, ld_register_now = 20, ld_session_token = ''k'', ld_push_topic = ''p'', ld_device_id = ''d'' \<rparr>
      \<lparr> st_auth = Some \<lparr> au_password_hash = ''pw'', au_failed_attempts = 4, au_locked_until = None \<rparr>, st_devices = [] \<rparr>
    = (Inr (Login_Locked 900010), s')"
proof -
  let ?d = "\<lparr> ld_check_now = 0, ld_lock_now = 10, ld_register_now = 20, ld_session_token = ''k'', ld_push_topic = ''p'', ld_device_id = ''d'' \<rparr>"
  let ?auth = "\<lparr> au_password_hash = ''pw'', au_failed_attempts = 0, au_locked_until = None \<rparr>"
  let ?s = "\<lparr> st_auth = Some ?auth, st_devices = [] \<rparr>"
  let ?cfg = "auth_service_config 30 None None"
  have a: "st_auth ?s = Some ?auth" "au_locked_until ?auth = None" "au_failed_attempts ?auth = 0"
    "\<forall>(pw, _) \<in> set (replicate 4 (''x'', ''n'', False, ?d)). \<not> pw = au_password_hash ?auth" "\<not> ''x'' = au_password_hash ?auth"
    by auto
  have b: "length (replicate 4 (''x'', ''n'', False, ?d)) + 1 = max_failed_attempts ?cfg"
    by (simp add: auth_service_config_def DEFAULT_MAX_FAILED_ATTEMPTS_def)
  have c: "900010 = ld_lock_now ?d + lockout_duration_minutes ?cfg * 60 * 1000"
    by (simp add: auth_service_config_def DEFAULT_LOCKOUT_DURATION_MINUTES_def)
  from lockout_after_max [where s = ?s and auth = ?auth and cfg = ?cfg and matches = "(=)" and pw = "''x''"
      and as = "replicate 4 (''x'', ''n'', False, ?d)" and bs = "[]" and d = ?d and u = 900010
      and name = "''n''" and skip = False, OF a b c]
  show ?thesis by auto
qed



text \<open>Logging out ends a session for good: the answer tells whether the token was
  known, and from then on no sequence of operations makes the token valid again, unless a
  later login draws the same random token.\<close>

theorem logout_is_final:
  assumes "\<not> is_sentinel k" "logout k random \<lparr> st_auth = a, st_devices = rs_devices s \<rparr> = (Inr b, u)"
    and "run (registry_step cfg) \<lparr> rs_devices = st_devices u, rs_clock = rs_clock s \<rparr> es t"
    and "\<not> list_ex (registers_token k) es"
  shows "(b \<longleftrightarrow> k \<in> dv_session_token ` set (rs_devices s))
    \<and> validate_session cfg k now seen (rs_devices t) = (None, rs_devices t)"
proof -
  note l = logout_removes [OF assms(1,2)]
  have "\<not> holds_token k (rs_devices t)" using run_token_gone [OF assms(3,4,1)] l(1) by simp
  then show ?thesis using l(2) validate_absent by (simp add: holds_token_def)
qed

lemma example_seen: "run (registry_step cfg) s [Seen i] \<lparr> rs_devices = update_last_seen i (rs_clock s) (rs_devices s), rs_clock = rs_clock s \<rparr>"
  by (rule run_single, rule reg_seen) simp

theorem logout_is_final_witness:
  "validate_session (auth_service_config 30 None None) ''k'' 7 7
     [(example_device ''d'' ''Pixel'' (logged_out_token ''r'') 5)\<lparr> dv_is_active := False \<rparr>]
   = (None, [(example_device ''d'' ''Pixel'' (logged_out_token ''r'') 5)\<lparr> dv_is_active := False \<rparr>])"
proof -
  let ?s = "\<lparr> rs_devices = [example_device ''d'' ''Pixel'' ''k'' 5], rs_clock = 5 \<rparr>"
  let ?t = "[(example_device ''d'' ''Pixel'' (logged_out_token ''r'') 5)\<lparr> dv_is_active := False \<rparr>]"
  have k: "\<not> is_sentinel ''k''" by (simp add: is_sentinel_def)
  have l: "logout ''k'' ''r'' \<lparr> st_auth = None, st_devices = rs_devices ?s \<rparr> = (Inr True, \<lparr> st_auth = None, st_devices = ?t \<rparr>)"
    by (simp add: logout_def Let_def sql_count_def sql_update_def example_device_def)
  have u: "update_last_seen ''d'' 5 ?t = ?t" by (simp add: update_last_seen_def sql_update_def)
  have r: "run (registry_step (auth_service_config 30 None None)) \<lparr> rs_devices = st_devices \<lparr> st_auth = None, st_devices = ?t \<rparr>, rs_clock = rs_clock ?s \<rparr> [Seen ''d''] \<lparr> rs_devices = ?t, rs_clock = rs_clock ?s \<rparr>"
    using example_seen [of "auth_service_config 30 None None" "\<lparr> rs_devices = ?t, rs_clock = 5 \<rparr>" "''d''"] u by simp
  have n: "\<not> list_ex (registers_token ''k'') [Seen ''d'']" by simp
  from logout_is_final [where s = ?s and random = "''r''" and cfg = "auth_service_config 30 None None" and now = 7 and seen = 7
      and es = "[Seen ''d'']", OF k l r n]
  show ?thesis by simp
qed

text \<open>Removing a device ends its session for good, even of a device the reaper had
  marked dormant.\<close>

theorem deregistration_is_final:
  assumes "devices_ok (rs_devices s)" "r \<in> set (rs_devices s)" "\<not> is_sentinel (dv_session_token r)"
    and "deactivate_device (dv_device_id r) (Some (removed_token random)) (rs_devices s) = (Inr b, u)"
    and "run (registry_step cfg) \<lparr> rs_devices = u, rs_clock = rs_clock s \<rparr> es t"
    and "\<not> list_ex (registers_token (dv_session_token r)) es"
  shows "b \<and> validate_session cfg (dv_session_token r) now seen (rs_devices t) = (None, rs_devices t)"
proof -
  have "b" using assms(2,4) sql_first_None [of "\<lambda>d. dv_device_id d = dv_device_id r" "rs_devices s"]
    by (auto simp: deactivate_device_def Let_def sql_count_pos split: if_splits)
  moreover have "\<not> holds_token (dv_session_token r) (rs_devices t)"
    using run_token_gone [OF assms(5,6,3)] deregister_removes [OF assms(1,2) refl assms(3,4)] by simp
  ultimately show ?thesis using validate_absent by blast
qed

theorem deregistration_is_final_witness:
  "validate_session (auth_service_config 30 None None) ''k'' 7 7
     [(example_device ''d'' ''Pixel'' (removed_token ''r'') 5)\<lparr> dv_is_active := False \<rparr>]
   = (None, [(example_device ''d'' ''Pixel'' (removed_token ''r'') 5)\<lparr> dv_is_active := False \<rparr>])"
proof -
  let ?r = "example_device ''d'' ''Pixel'' ''k'' 5"
  let ?s = "\<lparr> rs_devices = [?r], rs_clock = 5 \<rparr>"
  let ?t = "[(example_device ''d'' ''Pixel'' (removed_token ''r'') 5)\<lparr> dv_is_active := False \<rparr>]"
  have k: "devices_ok (rs_devices ?s)" "?r \<in> set (rs_devices ?s)" "\<not> is_sentinel (dv_session_token ?r)"
    by (simp_all add: is_sentinel_def devices_ok_def)
  have l: "deactivate_device (dv_device_id ?r) (Some (removed_token ''r'')) (rs_devices ?s) = (Inr True, ?t)"
    by (simp add: deactivate_device_def Let_def sql_count_def sql_update_def example_device_def)
  have u: "update_last_seen ''d'' 5 ?t = ?t" by (simp add: update_last_seen_def sql_update_def)
  have r: "run (registry_step (auth_service_config 30 None None)) \<lparr> rs_devices = ?t, rs_clock = rs_clock ?s \<rparr> [Seen ''d''] \<lparr> rs_devices = ?t, rs_clock = rs_clock ?s \<rparr>"
    using example_seen [of "auth_service_config 30 None None" "\<lparr> rs_devices = ?t, rs_clock = 5 \<rparr>" "''d''"] u by simp
  have n: "\<not> list_ex (registers_token (dv_session_token ?r)) [Seen ''d'']" by simp
  from deregistration_is_final [where s = ?s and random = "''r''" and cfg = "auth_service_config 30 None None" and now = 7 and seen = 7
      and es = "[Seen ''d'']", OF k l r n]
  show ?thesis by simp
qed

text \<open>Dormancy never ends a session: whatever devices a sweep deactivated, every token
  is as valid after it as before, and a valid one makes its device active again.\<close>

theorem reaping_keeps_sessions:
  assumes "sweep list_active_devices (\<lambda>i. update_last_seen i seen0) deactivate_dormant connected in_call st n t
      = (reaped, t')"
  shows "fst (validate_session cfg token now seen t') = fst (validate_session cfg token now seen t)
    \<and> (case validate_session cfg token now seen t' of
         (None, u) \<Rightarrow> True
       | (Some (i, name), u) \<Rightarrow> \<exists>d \<in> set u. dv_device_id d = i \<and> dv_session_token d = token \<and> dv_is_active d
           \<and> dv_last_seen_at d = seen \<and> now \<le> expires_at cfg d)"
proof -
  let ?g = "\<lambda>d. (dv_device_id d, dv_device_name d, dv_session_token d, dv_registered_at d)"
  let ?v = "\<lambda>(i, name, k, reg). if now > reg + session_expiry_days cfg * MS_PER_DAY then None else Some (i, name)"
  have same: "map ?g t' = map ?g t" using holds_sweep [of seen0 connected in_call st n t] assms by simp
  have f: "fst (validate_session cfg token now seen u) =
      Option.bind (find (\<lambda>(_, _, k, _). k = token) (map ?g u)) ?v" for u
    unfolding first_through_map [symmetric]
    by (auto simp: validate_session_def expires_at_def split: option.splits)
  have "fst (validate_session cfg token now seen t') = fst (validate_session cfg token now seen t)"
    by (simp only: f same)
  moreover have "case validate_session cfg token now seen t' of
         (None, u) \<Rightarrow> True
       | (Some (i, name), u) \<Rightarrow> \<exists>d \<in> set u. dv_device_id d = i \<and> dv_session_token d = token \<and> dv_is_active d
           \<and> dv_last_seen_at d = seen \<and> now \<le> expires_at cfg d"
    using validate_valid [of cfg token now seen t'] by (simp split: prod.splits option.splits)
  ultimately show ?thesis by blast
qed

theorem reaping_keeps_sessions_witness:
  "fst (validate_session (auth_service_config 30 None None) ''kb'' 90001 90001
      [(example_device ''b'' WEB_BROWSER_DEVICE_NAME ''kb'' 0)\<lparr> dv_is_active := False \<rparr>,
       example_device ''p'' ''Pixel'' ''kp'' 0]) = Some (''b'', WEB_BROWSER_DEVICE_NAME)"
  using reaping_keeps_sessions [OF example_sweep, of "auth_service_config 30 None None" "''kb''" 90001 90001]
  by (simp add: validate_session_def sql_first_def expires_at_def auth_service_config_def MS_PER_DAY_def)

end
