(* ===== verification/Call_History.thy ===== *)
theory Call_History
  imports Svarla_Prelude Complex_Main "HOL-Library.Multiset"
begin

text \<open>
  \<^verbatim>\<open>src/services/call-history-service.ts\<close> over the table \<^verbatim>\<open>call_history\<close>. Every operation
  gives its answer, the new table and the entries it broadcasts. An insert or update the
  database refuses (a primary key in use, a foreign key without a target) is the error
  \<open>Constraint_Violation\<close>; whether the foreign keys of a row hold is the argument \<open>refs\<close>.
  Rows of equal timestamps, which SQL may return in any order, come in stored order.
\<close>

datatype call_type = INCOMING | OUTGOING | MISSED | UNANSWERED | DECLINED | BLOCKED

record call_entry =
  ch_id :: string
  ch_phone_number :: string
  ch_provider_number :: "string option"
  ch_call_type :: call_type
  ch_timestamp :: int
  ch_duration_seconds :: "int option"
  ch_provider_call_id :: "string option"
  ch_answered_by_device :: "string option"
  ch_real_caller_number :: "string option"

record record_call_input =
  rc_id :: "string option"
  rc_phone_number :: string
  rc_provider_number :: "string option"
  rc_call_type :: call_type
  rc_duration_seconds :: "int option"
  rc_provider_call_id :: "string option"
  rc_answered_by_device :: "string option"

datatype history_error = Constraint_Violation

definition MAX_HISTORY_ENTRIES :: nat where
  "MAX_HISTORY_ENTRIES = 1000"

definition enforce_entry_cap :: "call_entry table \<Rightarrow> call_entry table" where
  "enforce_entry_cap t =
     (let total = length t in
      if total > MAX_HISTORY_ENTRIES then
        let excess = total - MAX_HISTORY_ENTRIES;
            ids_to_delete = map ch_id (take excess (sort_key ch_timestamp t))
        in if ids_to_delete \<noteq> [] then sql_delete (\<lambda>e. ch_id e \<in> set ids_to_delete) t else t
      else t)"

definition record_call ::
    "(call_entry \<Rightarrow> bool) \<Rightarrow> string \<Rightarrow> int \<Rightarrow> record_call_input \<Rightarrow> call_entry table
      \<Rightarrow> (history_error + call_entry) \<times> call_entry table \<times> call_entry list" where
  "record_call refs gen_id now input t =
     (let row = \<lparr> ch_id = (case rc_id input of None \<Rightarrow> gen_id | Some i \<Rightarrow> if i = '''' then gen_id else i),
            ch_phone_number = rc_phone_number input, ch_provider_number = rc_provider_number input,
            ch_call_type = rc_call_type input, ch_timestamp = now,
            ch_duration_seconds = rc_duration_seconds input, ch_provider_call_id = rc_provider_call_id input,
            ch_answered_by_device = rc_answered_by_device input, ch_real_caller_number = None \<rparr>
      in if list_ex (\<lambda>e. ch_id e = ch_id row) t \<or> \<not> refs row then (Inl Constraint_Violation, t, [])
         else (Inr row, enforce_entry_cap (sql_insert row t), [row]))"

text \<open>An \<^verbatim>\<open>UPDATE ... RETURNING\<close> of which the first row is answered and broadcast.\<close>

definition update_returning_first ::
    "(call_entry \<Rightarrow> bool) \<Rightarrow> (call_entry \<Rightarrow> call_entry) \<Rightarrow> call_entry table
      \<Rightarrow> call_entry option \<times> call_entry table \<times> call_entry list" where
  "update_returning_first p f t =
     (case first_row (sql_returning p f t) of
        None \<Rightarrow> (None, sql_update p f t, [])
      | Some entry \<Rightarrow> (Some entry, sql_update p f t, [entry]))"

definition update_call_type_by_provider_call_id ::
    "string \<Rightarrow> call_type \<Rightarrow> int option \<Rightarrow> call_entry table \<Rightarrow> call_entry option \<times> call_entry table \<times> call_entry list" where
  "update_call_type_by_provider_call_id pid type duration =
     update_returning_first
       (\<lambda>e. ch_provider_call_id e = Some pid \<and> ch_call_type e = INCOMING \<and> ch_answered_by_device e = None)
       (\<lambda>e. case duration of
          Some d \<Rightarrow> e\<lparr> ch_call_type := type, ch_duration_seconds := Some d \<rparr>
        | None \<Rightarrow> e\<lparr> ch_call_type := type \<rparr>)"

definition mark_answered :: "(string \<Rightarrow> bool) \<Rightarrow> string \<Rightarrow> string \<Rightarrow> call_entry table \<Rightarrow> (history_error + unit) \<times> call_entry table" where
  "mark_answered device_exists pid device t =
     (let p = (\<lambda>e. ch_provider_call_id e = Some pid) in
      if sql_count p t > 0 \<and> \<not> device_exists device then (Inl Constraint_Violation, t)
      else (Inr (), sql_update p (\<lambda>e. e\<lparr> ch_answered_by_device := Some device \<rparr>) t))"

definition update_duration_by_provider_call_id ::
    "string \<Rightarrow> int \<Rightarrow> call_entry table \<Rightarrow> call_entry option \<times> call_entry table \<times> call_entry list" where
  "update_duration_by_provider_call_id pid duration =
     update_returning_first (\<lambda>e. ch_provider_call_id e = Some pid) (\<lambda>e. e\<lparr> ch_duration_seconds := Some duration \<rparr>)"

definition mark_outbound_unanswered ::
    "string \<Rightarrow> call_entry table \<Rightarrow> call_entry option \<times> call_entry table \<times> call_entry list" where
  "mark_outbound_unanswered pid =
     update_returning_first (\<lambda>e. ch_provider_call_id e = Some pid \<and> ch_call_type e = OUTGOING)
       (\<lambda>e. e\<lparr> ch_call_type := UNANSWERED \<rparr>)"

definition set_revealed_number :: "string \<Rightarrow> string \<Rightarrow> call_entry table \<Rightarrow> call_entry table" where
  "set_revealed_number pid number t =
     sql_update (\<lambda>e. ch_provider_call_id e = Some pid) (\<lambda>e. e\<lparr> ch_real_caller_number := Some number \<rparr>) t"

record paginated_history =
  ph_entries :: "call_entry list"
  ph_page :: int
  ph_page_size :: int
  ph_total :: nat
  ph_total_pages :: nat

text \<open>\<^verbatim>\<open>ORDER BY timestamp DESC\<close>, restricted to a number when one is given and not empty.\<close>

definition history_newest_first :: "string option \<Rightarrow> call_entry table \<Rightarrow> call_entry list" where
  "history_newest_first provider_number t =
     sort_key (\<lambda>e. - ch_timestamp e)
       (sql_select (\<lambda>e. case provider_number of
          Some n \<Rightarrow> if n = '''' then True else ch_provider_number e = Some n
        | None \<Rightarrow> True) t)"

definition get_history :: "rat \<Rightarrow> rat \<Rightarrow> string option \<Rightarrow> call_entry table \<Rightarrow> paginated_history" where
  "get_history page page_size provider_number t =
     (let safe_page = max 1 \<lfloor>page\<rfloor>;
          safe_page_size = max 1 (min 100 \<lfloor>page_size\<rfloor>);
          offset = (safe_page - 1) * safe_page_size;
          rows = history_newest_first provider_number t;
          total = length rows
      in \<lparr> ph_entries = take (nat safe_page_size) (drop (nat offset) rows),
           ph_page = safe_page, ph_page_size = safe_page_size, ph_total = total,
           ph_total_pages = nat \<lceil>rat_of_nat total / rat_of_int safe_page_size\<rceil> \<rparr>)"

definition get_recent_history :: "rat \<Rightarrow> call_entry table \<Rightarrow> call_entry list" where
  "get_recent_history limit t =
     take (nat (max 1 (min 100 \<lfloor>limit\<rfloor>))) (history_newest_first None t)"

section \<open>The cap\<close>

lemma filter_sort_drop:
  assumes "distinct (map k t)"
  shows "mset (filter (\<lambda>e. k e \<notin> set (map k (take n (sort_key f t)))) t) = mset (drop n (sort_key f t))"
proof -
  let ?s = "sort_key f t" and ?ids = "set (map k (take n (sort_key f t)))"
  have "distinct (map k ?s)" using assms by (metis distinct_map distinct_sort set_sort)
  then have "distinct (map k (take n ?s @ drop n ?s))" by (simp only: append_take_drop_id)
  then have dis: "k ` set (take n ?s) \<inter> k ` set (drop n ?s) = {}" by (simp only: map_append distinct_append set_map)
  have "filter (\<lambda>e. k e \<notin> ?ids) ?s = filter (\<lambda>e. k e \<notin> ?ids) (take n ?s) @ filter (\<lambda>e. k e \<notin> ?ids) (drop n ?s)"
    by (metis append_take_drop_id filter_append)
  also have "filter (\<lambda>e. k e \<notin> ?ids) (take n ?s) = []" by (simp add: filter_empty_conv)
  also have "filter (\<lambda>e. k e \<notin> ?ids) (drop n ?s) = drop n ?s"
    using dis by (intro filter_True) (auto simp: disjoint_iff)
  finally have "filter (\<lambda>e. k e \<notin> ?ids) ?s = drop n ?s" by simp
  then show ?thesis by (metis mset_filter mset_sort)
qed

lemma enforce_entry_cap_mset:
  assumes "distinct (map ch_id t)"
  shows "mset (enforce_entry_cap t) = mset (drop (length t - MAX_HISTORY_ENTRIES) (sort_key ch_timestamp t))"
  using filter_sort_drop [OF assms, of "length t - MAX_HISTORY_ENTRIES" ch_timestamp]
  by (auto simp: enforce_entry_cap_def Let_def sql_delete_def)

lemma length_enforce: "distinct (map ch_id t) \<Longrightarrow> length (enforce_entry_cap t) = min (length t) MAX_HISTORY_ENTRIES"
  using arg_cong [OF enforce_entry_cap_mset, of t size] by simp

lemma enforce_sub: "set (enforce_entry_cap t) \<subseteq> set t"
  by (auto simp: enforce_entry_cap_def Let_def sql_delete_def)

lemma enforce_distinct: "distinct (map ch_id t) \<Longrightarrow> distinct (map ch_id (enforce_entry_cap t))"
  by (auto simp: enforce_entry_cap_def Let_def sql_delete_def distinct_map_filter)

text \<open>What the cap removes is at least as old as all it keeps.\<close>

lemma enforce_oldest:
  assumes "distinct (map ch_id t)" "d \<in> set t" "d \<notin> set (enforce_entry_cap t)" "e \<in> set (enforce_entry_cap t)"
  shows "ch_timestamp d \<le> ch_timestamp e"
proof -
  let ?n = "length t - MAX_HISTORY_ENTRIES" and ?s = "sort_key ch_timestamp t"
  have m: "set (enforce_entry_cap t) = set (drop ?n ?s)"
    using enforce_entry_cap_mset [OF assms(1)] by (metis set_mset_mset)
  have "set ?s = set (take ?n ?s) \<union> set (drop ?n ?s)" by (metis append_take_drop_id set_append)
  then have d: "d \<in> set (take ?n ?s)" using assms(2,3) m by auto
  have e: "e \<in> set (drop ?n ?s)" using assms(4) m by auto
  have "sorted (map ch_timestamp (take ?n ?s @ drop ?n ?s))" by simp
  then have "\<forall>x \<in> set (map ch_timestamp (take ?n ?s)). \<forall>y \<in> set (map ch_timestamp (drop ?n ?s)). x \<le> y"
    unfolding map_append sorted_append by blast
  then show ?thesis using d e by auto
qed

section \<open>Operations on the table\<close>

datatype history_op =
    Record_Call string int record_call_input
  | Update_Type string call_type "int option"
  | Mark_Answered string string
  | Update_Duration string int
  | Mark_Unanswered string
  | Set_Revealed string string

definition apply_history ::
    "(call_entry \<Rightarrow> bool) \<Rightarrow> (string \<Rightarrow> bool) \<Rightarrow> history_op \<Rightarrow> call_entry table \<Rightarrow> call_entry table" where
  "apply_history refs device_exists opn t =
     (case opn of
        Record_Call gen_id now input \<Rightarrow> fst (snd (record_call refs gen_id now input t))
      | Update_Type pid type d \<Rightarrow> fst (snd (update_call_type_by_provider_call_id pid type d t))
      | Mark_Answered pid dev \<Rightarrow> snd (mark_answered device_exists pid dev t)
      | Update_Duration pid d \<Rightarrow> fst (snd (update_duration_by_provider_call_id pid d t))
      | Mark_Unanswered pid \<Rightarrow> fst (snd (mark_outbound_unanswered pid t))
      | Set_Revealed pid n \<Rightarrow> set_revealed_number pid n t)"

lemma update_returning_table [simp]: "fst (snd (update_returning_first p f t)) = sql_update p f t"
  by (simp add: update_returning_first_def split: option.splits)

definition history_ok :: "call_entry table \<Rightarrow> bool" where
  "history_ok t \<longleftrightarrow> distinct (map ch_id t) \<and> length t \<le> MAX_HISTORY_ENTRIES"

lemma history_ok_update: "(\<And>e. ch_id (f e) = ch_id e) \<Longrightarrow> history_ok (sql_update p f t) = history_ok t"
  by (simp add: history_ok_def sql_simps)

lemma record_call_cases:
  obtains "record_call refs i now input t = (Inl Constraint_Violation, t, [])"
  | row where "record_call refs i now input t = (Inr row, enforce_entry_cap (sql_insert row t), [row])"
      "ch_id row \<notin> ch_id ` set t" "ch_call_type row = rc_call_type input" "ch_timestamp row = now" "refs row"
proof (cases "fst (record_call refs i now input t)")
  case (Inl e)
  then show ?thesis using that(1) by (cases e) (auto simp: record_call_def Let_def split: if_splits)
next
  case (Inr row)
  then show ?thesis using that(2) [of row]
    by (auto simp: record_call_def Let_def list_ex_iff image_iff simp del: ex_simps split: if_splits)
      (metis (no_types))
qed

lemma record_call_ok:
  assumes "history_ok t"
  shows "history_ok (fst (snd (record_call refs i now input t)))"
proof (rule record_call_cases [of refs i now input t])
  fix row
  assume r: "record_call refs i now input t = (Inr row, enforce_entry_cap (sql_insert row t), [row])"
    and n: "ch_id row \<notin> ch_id ` set t"
  have "distinct (map ch_id (sql_insert row t))"
    using assms n tbl.ins_keeps_distinct [of ch_id t row] by (simp add: history_ok_def)
  then show ?thesis using r by (simp add: history_ok_def enforce_distinct length_enforce)
qed (simp add: assms)

lemma apply_history_ok: "history_ok t \<Longrightarrow> history_ok (apply_history refs dev opn t)"
  by (cases opn) (simp_all add: apply_history_def record_call_ok update_call_type_by_provider_call_id_def
      mark_answered_def update_duration_by_provider_call_id_def mark_outbound_unanswered_def set_revealed_number_def
      history_ok_update Let_def split: option.splits)

interpretation history: invariant_system "\<lambda>t. t = []" "\<lambda>t opn t'. t' = apply_history refs dev opn t" history_ok
  for refs dev
  by unfold_locales (auto simp: apply_history_ok, simp add: history_ok_def)

section \<open>Pages\<close>

lemma take_drop_pages: "concat (map (\<lambda>i. take k (drop (i * k) xs)) [0..<n]) = take (n * k) xs"
proof (induction n)
  case (Suc n)
  have "take (n * k) xs @ take k (drop (n * k) xs) = take (n * k + k) xs" by (simp add: take_add)
  with Suc show ?case by (simp add: add.commute)
qed simp

lemma ceiling_pages:
  assumes "0 < k"
  shows "n \<le> nat \<lceil>rat_of_nat n / rat_of_nat k\<rceil> * k"
proof -
  have "rat_of_nat n \<le> of_int \<lceil>rat_of_nat n / rat_of_nat k\<rceil> * rat_of_nat k"
    using assms by (intro ceiling_divide_upper) simp
  also have "\<dots> = of_int (\<lceil>rat_of_nat n / rat_of_nat k\<rceil> * int k)" by simp
  finally have "int n \<le> \<lceil>rat_of_nat n / rat_of_nat k\<rceil> * int k" by (metis of_int_le_iff of_int_of_nat_eq)
  moreover have "(- 1::rat) < rat_of_nat n / rat_of_nat k"
    by (rule less_le_trans [of _ 0]) simp_all
  then have "0 \<le> \<lceil>rat_of_nat n / rat_of_nat k\<rceil>" by (simp add: zero_le_ceiling)
  ultimately have "int n \<le> int (nat \<lceil>rat_of_nat n / rat_of_nat k\<rceil> * k)" by simp
  then show ?thesis by linarith
qed

text \<open>One row before and after an update that keeps the identifiers.\<close>

lemma history_update_row:
  assumes "distinct (map ch_id t)" "\<And>e. ch_id (f e) = ch_id e" "e \<in> set t" "e' \<in> set (sql_update p f t)" "ch_id e' = ch_id e"
  shows "e' = (if p e then f e else e)"
proof -
  obtain e0 where e0: "e0 \<in> set t" "e' = (if p e0 then f e0 else e0)" using assms(4) by (auto simp: sql_update_mem)
  then have "ch_id e0 = ch_id e" using assms(2,5) by (auto split: if_splits)
  then have "e0 = e" using assms(1,3) e0(1) by (auto simp: distinct_map inj_on_def)
  with e0 show ?thesis by simp
qed

text \<open>The changes of type an operation may make to an entry.\<close>

definition type_change :: "history_op \<Rightarrow> call_entry \<Rightarrow> call_entry \<Rightarrow> bool" where
  "type_change opn e e' \<longleftrightarrow> ch_call_type e' = ch_call_type e
    \<or> (\<exists>pid d. ch_call_type e = INCOMING \<and> ch_answered_by_device e = None \<and> ch_provider_call_id e = Some pid
          \<and> opn = Update_Type pid (ch_call_type e') d)
    \<or> (\<exists>pid. ch_call_type e = OUTGOING \<and> ch_call_type e' = UNANSWERED \<and> ch_provider_call_id e = Some pid
          \<and> opn = Mark_Unanswered pid)"

text \<open>Every operation but the recording is an update that keeps identifiers and changes types as allowed.\<close>

lemma apply_history_update:
  assumes "\<not> (\<exists>i now input. opn = Record_Call i now input)"
  shows "\<exists>p f. apply_history refs dev opn t = sql_update p f t \<and> (\<forall>e. ch_id (f e) = ch_id e)
    \<and> (\<forall>e. p e \<longrightarrow> type_change opn e (f e))"
proof (cases opn)
  case (Update_Type pid type d)
  then show ?thesis unfolding apply_history_def update_call_type_by_provider_call_id_def
    by (simp add: type_change_def) (rule exI, rule exI, rule conjI, rule refl, auto split: option.splits)
next
  case (Mark_Answered pid d)
  let ?p = "\<lambda>e. ch_provider_call_id e = Some pid" and ?f = "\<lambda>e. e\<lparr> ch_answered_by_device := Some d \<rparr>"
  have "apply_history refs dev opn t = sql_update (\<lambda>_. False) id t \<or> apply_history refs dev opn t = sql_update ?p ?f t"
    using Mark_Answered by (auto simp: apply_history_def mark_answered_def sql_update_def Let_def)
  then show ?thesis
  proof
    assume "apply_history refs dev opn t = sql_update (\<lambda>_. False) id t"
    then show ?thesis by (intro exI [of _ "\<lambda>_. False"] exI [of _ id]) simp
  next
    assume "apply_history refs dev opn t = sql_update ?p ?f t"
    then show ?thesis by (intro exI [of _ ?p] exI [of _ ?f]) (simp add: type_change_def)
  qed
next
  case (Update_Duration pid d)
  then show ?thesis unfolding apply_history_def update_duration_by_provider_call_id_def
    by (simp add: type_change_def) (rule exI, rule exI, rule conjI, rule refl, auto)
next
  case (Mark_Unanswered pid)
  then show ?thesis unfolding apply_history_def mark_outbound_unanswered_def
    by (simp add: type_change_def) (rule exI, rule exI, rule conjI, rule refl, auto)
next
  case (Set_Revealed pid n)
  then show ?thesis unfolding apply_history_def set_revealed_number_def
    by (simp add: type_change_def) (rule exI, rule exI, rule conjI, rule refl, auto)
qed (use assms in auto)

lemma record_call_row:
  assumes "history_ok t" "e \<in> set t" "e' \<in> set (fst (snd (record_call refs i now input t)))" "ch_id e' = ch_id e"
  shows "e' = e"
proof -
  have "e' \<in> set t"
    using record_call_cases [of refs i now input t]
  proof cases
    case (2 row)
    then have "e' \<in> insert row (set t)" using enforce_sub [of "sql_insert row t"] assms(3) by (auto simp: sql_insert_def)
    then show ?thesis using 2 assms(2,4) by (auto simp: image_iff)
  qed (use assms(3) in simp)
  then show ?thesis using assms(1,2,4) by (auto simp: history_ok_def distinct_map inj_on_def)
qed

section \<open>Properties\<close>

text \<open>Recording a call keeps at most \<^verbatim>\<open>MAX_HISTORY_ENTRIES\<close> entries: below the cap the
  entry is appended and nothing is lost; at the cap exactly one entry goes, one at least as
  old as every entry kept, so a call later than all others is never the one dropped; and
  the new entry is broadcast once.\<close>

theorem record_call_caps:
  assumes "history_ok t" "record_call refs i now input t = (Inr row, t', ev)"
  shows "length t' = min (Suc (length t)) MAX_HISTORY_ENTRIES \<and> set t' \<subseteq> insert row (set t) \<and> ev = [row]
    \<and> (length t < MAX_HISTORY_ENTRIES \<longrightarrow> t' = t @ [row])
    \<and> (\<forall>d \<in> insert row (set t) - set t'. \<forall>e \<in> set t'. ch_timestamp d \<le> ch_timestamp e)
    \<and> ((\<forall>e \<in> set t. ch_timestamp e < now) \<longrightarrow> row \<in> set t')"
proof (rule record_call_cases [of refs i now input t])
  fix row'
  assume r: "record_call refs i now input t = (Inr row', enforce_entry_cap (sql_insert row' t), [row'])"
    and n: "ch_id row' \<notin> ch_id ` set t" "ch_timestamp row' = now"
  let ?t = "sql_insert row t"
  have t': "t' = enforce_entry_cap ?t" and row: "row' = row" and ev: "ev = [row]" using r assms(2) by auto
  have dis: "distinct (map ch_id ?t)"
    using assms(1) n row tbl.ins_keeps_distinct [of ch_id t row] by (simp add: history_ok_def)
  have set: "set ?t = insert row (set t)" "length ?t = Suc (length t)" by (simp_all add: sql_insert_def)
  have len: "length t' = min (Suc (length t)) MAX_HISTORY_ENTRIES" using length_enforce [OF dis] t' set(2) by simp
  have old: "\<forall>d \<in> insert row (set t) - set t'. \<forall>e \<in> set t'. ch_timestamp d \<le> ch_timestamp e"
    using enforce_oldest [OF dis] t' set(1) by auto
  have sub: "set t' \<subseteq> insert row (set t)" using enforce_sub [of ?t] t' set(1) by simp
  have "row \<in> set t'" if late: "\<forall>e \<in> set t. ch_timestamp e < now"
  proof (rule ccontr)
    assume out: "row \<notin> set t'"
    have "t' \<noteq> []" using len by (auto simp: MAX_HISTORY_ENTRIES_def)
    then obtain e where "e \<in> set t'" by (cases t') auto
    moreover from this sub out have "e \<in> set t" by auto
    ultimately show False using old out late n(2) row by force
  qed
  moreover have "length t < MAX_HISTORY_ENTRIES \<longrightarrow> t' = t @ [row]"
    using t' by (simp add: enforce_entry_cap_def sql_insert_def)
  ultimately show ?thesis using len sub ev old by blast
qed (use assms(2) in simp)

theorem record_call_caps_witness:
  "let row = \<lparr> ch_id = ''i'', ch_phone_number = ''+46'', ch_provider_number = None, ch_call_type = INCOMING, ch_timestamp = 7,
         ch_duration_seconds = None, ch_provider_call_id = Some ''p'', ch_answered_by_device = None, ch_real_caller_number = None \<rparr>
   in row \<in> set (fst (snd (record_call (\<lambda>_. True) ''i'' 7 \<lparr> rc_id = None, rc_phone_number = ''+46'', rc_provider_number = None,
        rc_call_type = INCOMING, rc_duration_seconds = None, rc_provider_call_id = Some ''p'', rc_answered_by_device = None \<rparr> [])))"
proof -
  let ?in = "\<lparr> rc_id = None, rc_phone_number = ''+46'', rc_provider_number = None,
        rc_call_type = INCOMING, rc_duration_seconds = None, rc_provider_call_id = Some ''p'', rc_answered_by_device = None \<rparr>"
  let ?row = "\<lparr> ch_id = ''i'', ch_phone_number = ''+46'', ch_provider_number = None, ch_call_type = INCOMING, ch_timestamp = 7,
         ch_duration_seconds = None, ch_provider_call_id = Some ''p'', ch_answered_by_device = None, ch_real_caller_number = None \<rparr>"
  have ok: "history_ok []" by (simp add: history_ok_def)
  have r: "record_call (\<lambda>_. True) ''i'' 7 ?in [] = (Inr ?row, [?row], [?row])"
    by (simp add: record_call_def enforce_entry_cap_def sql_insert_def MAX_HISTORY_ENTRIES_def Let_def)
  from record_call_caps [OF ok r] r show ?thesis by simp
qed

text \<open>The type of an entry changes in two ways only: an incoming call no device has
  answered takes the type it ended with, and an outgoing call becomes unanswered. Every
  other type is final, and answering a call rules out that it is ever marked missed.\<close>

theorem call_type_transitions:
  assumes "history_ok t" "e \<in> set t" "e' \<in> set (apply_history refs dev opn t)" "ch_id e' = ch_id e"
  shows "ch_call_type e' = ch_call_type e
    \<or> (\<exists>pid d. ch_call_type e = INCOMING \<and> ch_answered_by_device e = None \<and> ch_provider_call_id e = Some pid
          \<and> opn = Update_Type pid (ch_call_type e') d)
    \<or> (\<exists>pid. ch_call_type e = OUTGOING \<and> ch_call_type e' = UNANSWERED \<and> ch_provider_call_id e = Some pid
          \<and> opn = Mark_Unanswered pid)"
proof (cases "\<exists>i now input. opn = Record_Call i now input")
  case True
  then have "e' = e" using record_call_row assms by (auto simp: apply_history_def)
  then show ?thesis by simp
next
  case False
  then obtain p f where u: "apply_history refs dev opn t = sql_update p f t" "\<And>e. ch_id (f e) = ch_id e"
      "\<And>e. p e \<Longrightarrow> type_change opn e (f e)"
    by (metis apply_history_update)
  have "e' = (if p e then f e else e)"
    using history_update_row [of t f e e' p] assms u(1,2) by (simp add: history_ok_def)
  then show ?thesis using u(3) [of e] by (auto simp: type_change_def split: if_splits)
qed

theorem call_type_transitions_witness:
  "let e = \<lparr> ch_id = ''i'', ch_phone_number = ''+46'', ch_provider_number = None, ch_call_type = INCOMING, ch_timestamp = 0,
         ch_duration_seconds = None, ch_provider_call_id = Some ''p'', ch_answered_by_device = None, ch_real_caller_number = None \<rparr>;
       e' = e\<lparr> ch_call_type := MISSED \<rparr>
   in e' \<in> set (apply_history (\<lambda>_. True) (\<lambda>_. True) (Update_Type ''p'' MISSED None) [e])
    \<and> ch_call_type e = INCOMING \<and> ch_answered_by_device e = None"
proof -
  let ?e = "\<lparr> ch_id = ''i'', ch_phone_number = ''+46'', ch_provider_number = None, ch_call_type = INCOMING, ch_timestamp = 0,
     ch_duration_seconds = None, ch_provider_call_id = Some ''p'', ch_answered_by_device = None, ch_real_caller_number = None \<rparr>"
  let ?e' = "?e\<lparr> ch_call_type := MISSED \<rparr>"
  have a: "history_ok [?e]" "?e \<in> set [?e]"
    and b: "?e' \<in> set (apply_history (\<lambda>_. True) (\<lambda>_. True) (Update_Type ''p'' MISSED None) [?e])" "ch_id ?e' = ch_id ?e"
    by (simp_all add: history_ok_def MAX_HISTORY_ENTRIES_def apply_history_def update_call_type_by_provider_call_id_def
        sql_update_def)
  from call_type_transitions [OF a b] b show ?thesis by simp
qed

text \<open>The pages partition the history: read in order, pages 1 up to the reported number
  of pages give every matching entry once, newest first, whatever page size was asked for.\<close>

theorem pages_partition:
  "let h = (\<lambda>p. get_history p page_size provider_number t); xs = history_newest_first provider_number t
   in concat (map (\<lambda>i. ph_entries (h (rat_of_nat (Suc i)))) [0..<ph_total_pages (h 1)]) = xs
    \<and> ph_total (h 1) = length xs \<and> sorted (map (\<lambda>e. - ch_timestamp e) xs)
    \<and> mset (history_newest_first None t) = mset t"
proof -
  define h where "h = (\<lambda>p. get_history p page_size provider_number t)"
  let ?xs = "history_newest_first provider_number t"
  define k where "k = nat (max 1 (min 100 \<lfloor>page_size\<rfloor>))"
  have k: "0 < k" "int k = max 1 (min 100 \<lfloor>page_size\<rfloor>)" by (simp_all add: k_def)
  have e: "ph_entries (h (rat_of_nat (Suc i))) = take k (drop (i * k) ?xs)" for i
  proof -
    have f: "\<lfloor>rat_of_nat (Suc i)\<rfloor> = int (Suc i)" by (rule floor_of_nat)
    have o: "nat ((int (Suc i) - 1) * int k) = i * k" by (simp add: nat_mult_distrib)
    show ?thesis unfolding h_def get_history_def Let_def f paginated_history.select_convs
      using o k by (simp add: k_def max_def)
  qed
  have p: "ph_total_pages (h 1) = nat \<lceil>rat_of_nat (length ?xs) / rat_of_nat k\<rceil>"
    unfolding h_def get_history_def Let_def paginated_history.select_convs k(2) [symmetric] by simp
  have "concat (map (\<lambda>i. ph_entries (h (rat_of_nat (Suc i)))) [0..<ph_total_pages (h 1)]) = take (ph_total_pages (h 1) * k) ?xs"
    unfolding e by (rule take_drop_pages)
  also have "\<dots> = ?xs" using ceiling_pages [OF k(1), of "length ?xs"] p by simp
  finally have "concat (map (\<lambda>i. ph_entries (h (rat_of_nat (Suc i)))) [0..<ph_total_pages (h 1)]) = ?xs" .
  moreover have "ph_total (h 1) = length ?xs" by (simp add: h_def get_history_def Let_def)
  ultimately show ?thesis unfolding Let_def h_def [symmetric]
    by (simp add: history_newest_first_def sql_select_def)
qed

end
