(* ===== verification/Notifications.thy ===== *)
theory Notifications
  imports Svarla_Prelude "HOL-Library.Multiset"
begin

text \<open>
  \<^verbatim>\<open>src/services/notification-service.ts\<close> over the table \<^verbatim>\<open>notifications\<close> with its unique index
  on the source entity and the type. Every operation gives its answer, the new table and
  the messages it sends, in order: broadcasts to the connected devices, messages to one
  device, and wake signals handed to the push publisher. Log lines are left out. The
  clock is in milliseconds; generated identifiers are arguments; identifiers are text.
\<close>

datatype notification_type = Incoming_Call | Missed_Call | Incoming_Sms | Blocked_Call | New_Device_Login

datatype notification_status = Pending | Read

text \<open>The lifecycle orders the states: a notification only moves from pending to read.\<close>

instantiation notification_status :: linorder
begin

definition less_eq_notification_status :: "notification_status \<Rightarrow> notification_status \<Rightarrow> bool" where
  "s \<le> t \<longleftrightarrow> s = Pending \<or> t = Read"

definition less_notification_status :: "notification_status \<Rightarrow> notification_status \<Rightarrow> bool" where
  "s < t \<longleftrightarrow> s = Pending \<and> t = Read"

instance
proof
  fix x y z :: notification_status
  show "x < y \<longleftrightarrow> x \<le> y \<and> \<not> y \<le> x"
    by (cases x; cases y) (simp_all add: less_eq_notification_status_def less_notification_status_def)
  show "x \<le> x" by (cases x) (simp_all add: less_eq_notification_status_def)
  show "x \<le> y \<Longrightarrow> y \<le> z \<Longrightarrow> x \<le> z" by (auto simp: less_eq_notification_status_def)
  show "x \<le> y \<Longrightarrow> y \<le> x \<Longrightarrow> x = y" by (auto simp: less_eq_notification_status_def)
  show "x \<le> y \<or> y \<le> x" by (cases x; cases y) (simp_all add: less_eq_notification_status_def)
qed

end

record notification_payload =
  np_caller_number :: "string option"
  np_sender_number :: "string option"
  np_provider_number :: "string option"
  np_provider_label :: "string option"
  np_contact_name :: "string option"
  np_message_preview :: "string option"
  np_device_id :: "string option"
  np_device_label :: "string option"
  np_timestamp :: string

record notification =
  nt_id :: string
  nt_type :: notification_type
  nt_status :: notification_status
  nt_source_entity_id :: string
  nt_source_entity_type :: string
  nt_payload :: notification_payload
  nt_created_at :: int
  nt_updated_at :: int

record create_notification_input =
  cn_type :: notification_type
  cn_source_entity_id :: string
  cn_source_entity_type :: string
  cn_payload :: notification_payload

datatype wake_priority = High | Normal

datatype notification_effect =
    Broadcast_Created notification
  | Broadcast_Updated string notification_type notification_status int
  | Send_Wake "(string \<times> string) list" string wake_priority notification_type
  | Device_Created string notification

datatype notification_error = Notification_Unique_Violation

section \<open>Creation\<close>

definition same_source :: "string \<Rightarrow> notification_type \<Rightarrow> notification \<Rightarrow> bool" where
  "same_source source type r \<longleftrightarrow> nt_source_entity_id r = source \<and> nt_type r = type"

definition notification_exists :: "create_notification_input \<Rightarrow> notification table \<Rightarrow> bool" where
  "notification_exists input t \<longleftrightarrow>
     sql_first (same_source (cn_source_entity_id input) (cn_type input)) t \<noteq> None"

definition insert_notification ::
    "string \<Rightarrow> int \<Rightarrow> create_notification_input \<Rightarrow> notification table
      \<Rightarrow> (notification_error + notification) \<times> notification table" where
  "insert_notification gen_id now input t =
     (let row = \<lparr> nt_id = gen_id, nt_type = cn_type input, nt_status = Pending,
            nt_source_entity_id = cn_source_entity_id input, nt_source_entity_type = cn_source_entity_type input,
            nt_payload = cn_payload input, nt_created_at = now, nt_updated_at = now \<rparr>
      in if list_ex (\<lambda>r. nt_id r = gen_id \<or> same_source (cn_source_entity_id input) (cn_type input) r) t
           then (Inl Notification_Unique_Violation, t)
         else (Inr row, sql_insert row t))"

text \<open>
  The messages after the insert. \<open>devices\<close> is the answer of \<^verbatim>\<open>getActiveDevicesWithPushInfo\<close>,
  \<^const>\<open>None\<close> when it throws, which is only logged.
\<close>

definition wake_effects :: "(string \<times> string option) list option \<Rightarrow> notification \<Rightarrow> notification_effect list" where
  "wake_effects devices entity =
     (case devices of
        None \<Rightarrow> []
      | Some all_devices \<Rightarrow>
          let with_endpoint = List.map_filter (\<lambda>(d, url). map_option (Pair d) url) all_devices in
          if length with_endpoint > 0
            then [Send_Wake with_endpoint (nt_id entity) (if nt_type entity = Incoming_Call then High else Normal) (nt_type entity)]
          else [])"

definition create_notification ::
    "string \<Rightarrow> int \<Rightarrow> (string \<times> string option) list option \<Rightarrow> create_notification_input \<Rightarrow> notification table
      \<Rightarrow> (notification_error + notification option) \<times> notification table \<times> notification_effect list" where
  "create_notification gen_id now devices input t =
     (if notification_exists input t then (Inr None, t, [])
      else (case insert_notification gen_id now input t of
          (Inl e, t') \<Rightarrow> (Inl e, t', [])
        | (Inr entity, t') \<Rightarrow> (Inr (Some entity), t', Broadcast_Created entity # wake_effects devices entity)))"

section \<open>Reading\<close>

definition mark_read :: "string \<Rightarrow> int \<Rightarrow> notification table \<Rightarrow> bool \<times> notification table \<times> notification_effect list" where
  "mark_read i now t =
     (let p = (\<lambda>r. nt_id r = i \<and> nt_status r = Pending);
          t' = sql_update p (\<lambda>r. r\<lparr> nt_status := Read, nt_updated_at := now \<rparr>) t
      in if sql_count p t = 0 then (False, t', [])
         else (True, t', (case sql_first (\<lambda>r. nt_id r = i) t' of
             None \<Rightarrow> []
           | Some r \<Rightarrow> [Broadcast_Updated (nt_id r) (nt_type r) Read now])))"

definition mark_rows_read ::
    "(notification \<Rightarrow> bool) \<Rightarrow> int \<Rightarrow> notification table \<Rightarrow> nat \<times> notification table \<times> notification_effect list" where
  "mark_rows_read p now t =
     (let f = (\<lambda>r. r\<lparr> nt_status := Read, nt_updated_at := now \<rparr>); updated_rows = sql_returning p f t
      in (length updated_rows, sql_update p f t,
          map (\<lambda>r. Broadcast_Updated (nt_id r) (nt_type r) (nt_status r) (nt_updated_at r)) updated_rows))"

definition mark_all_read ::
    "notification_type list option \<Rightarrow> int \<Rightarrow> notification table \<Rightarrow> nat \<times> notification table \<times> notification_effect list" where
  "mark_all_read types =
     mark_rows_read (\<lambda>r. nt_status r = Pending \<and>
       (case types of None \<Rightarrow> True | Some ts \<Rightarrow> ts = [] \<or> nt_type r \<in> set ts))"

text \<open>\<open>message_ids\<close> is the sub-select: the identifiers of the conversation's messages.\<close>

definition mark_conversation_read ::
    "string list \<Rightarrow> int \<Rightarrow> notification table \<Rightarrow> nat \<times> notification table \<times> notification_effect list" where
  "mark_conversation_read message_ids =
     mark_rows_read (\<lambda>r. nt_type r = Incoming_Sms \<and> nt_status r = Pending \<and> nt_source_entity_id r \<in> set message_ids)"

section \<open>Calls\<close>

definition transition_to_missed ::
    "string \<Rightarrow> int \<Rightarrow> notification table
      \<Rightarrow> (notification_error + notification option) \<times> notification table \<times> notification_effect list" where
  "transition_to_missed source now t =
     (let p = same_source source Incoming_Call; f = (\<lambda>r. r\<lparr> nt_type := Missed_Call, nt_updated_at := now \<rparr>) in
      if sql_count p t > 0 \<and> list_ex (same_source source Missed_Call) t
        then (Inl Notification_Unique_Violation, t, [])
      else (case first_row (sql_returning p f t) of
          None \<Rightarrow> (Inr None, sql_update p f t, [])
        | Some row \<Rightarrow> (Inr (Some row), sql_update p f t,
            [Broadcast_Updated (nt_id row) (nt_type row) (nt_status row) (nt_updated_at row)])))"

definition mark_call_resolved :: "string \<Rightarrow> int \<Rightarrow> notification table \<Rightarrow> bool \<times> notification table \<times> notification_effect list" where
  "mark_call_resolved source now t =
     (let p = (\<lambda>r. nt_source_entity_id r = source \<and> nt_type r \<in> {Incoming_Call, Missed_Call} \<and> nt_status r = Pending);
          f = (\<lambda>r. r\<lparr> nt_status := Read, nt_updated_at := now \<rparr>)
      in case first_row (sql_returning p f t) of
           None \<Rightarrow> (False, sql_update p f t, [])
         | Some row \<Rightarrow> (True, sql_update p f t,
             [Broadcast_Updated (nt_id row) (nt_type row) (nt_status row) (nt_updated_at row)]))"

section \<open>Queries\<close>

definition get_notification_by_id :: "string \<Rightarrow> notification table \<Rightarrow> notification option" where
  "get_notification_by_id i t = sql_first (\<lambda>r. nt_id r = i) t"

definition get_pending_notifications :: "int \<Rightarrow> notification table \<Rightarrow> notification list" where
  "get_pending_notifications now t =
     (let max_age = now - 14 * 24 * 60 * 60 * 1000 in
      sort_key nt_created_at (sql_select (\<lambda>r. nt_status r = Pending \<and> nt_created_at r \<ge> max_age) t))"

definition deliver_pending_to_device :: "string \<Rightarrow> int \<Rightarrow> notification table \<Rightarrow> notification_effect list" where
  "deliver_pending_to_device device now t = map (Device_Created device) (get_pending_notifications now t)"

section \<open>The table under its operations\<close>

definition source_key :: "notification \<Rightarrow> string \<times> notification_type" where
  "source_key r = (nt_source_entity_id r, nt_type r)"

definition notifications_ok :: "notification table \<Rightarrow> bool" where
  "notifications_ok t \<longleftrightarrow> distinct (map nt_id t) \<and> distinct (map source_key t)"

datatype notification_op =
    Create string int "(string \<times> string option) list option" create_notification_input
  | Insert_Race string int create_notification_input
  | Read_One string int
  | Read_All "notification_type list option" int
  | Read_Conversation "string list" int
  | To_Missed string int
  | Resolve_Call string int

text \<open>
  \<open>Insert_Race\<close> is the insert of a creation whose check ran before other operations did.
\<close>

definition apply_notification :: "notification_op \<Rightarrow> notification table \<Rightarrow> notification table" where
  "apply_notification opn t =
     (case opn of
        Create i now devices input \<Rightarrow> fst (snd (create_notification i now devices input t))
      | Insert_Race i now input \<Rightarrow> snd (insert_notification i now input t)
      | Read_One i now \<Rightarrow> fst (snd (mark_read i now t))
      | Read_All types now \<Rightarrow> fst (snd (mark_all_read types now t))
      | Read_Conversation ids now \<Rightarrow> fst (snd (mark_conversation_read ids now t))
      | To_Missed source now \<Rightarrow> fst (snd (transition_to_missed source now t))
      | Resolve_Call source now \<Rightarrow> fst (snd (mark_call_resolved source now t)))"

lemma notifications_ok_update:
  "(\<And>r. nt_id (f r) = nt_id r) \<Longrightarrow> (\<And>r. nt_source_entity_id (f r) = nt_source_entity_id r) \<Longrightarrow>
   (\<And>r. nt_type (f r) = nt_type r) \<Longrightarrow> notifications_ok (sql_update p f t) = notifications_ok t"
  by (simp add: notifications_ok_def source_key_def sql_simps)

lemma insert_notification_cases:
  obtains "insert_notification i now input t = (Inl Notification_Unique_Violation, t)"
      "i \<in> nt_id ` set t \<or> notification_exists input t"
  | row where "insert_notification i now input t = (Inr row, sql_insert row t)" "nt_id row = i" "i \<notin> nt_id ` set t"
      "nt_status row = Pending" "nt_source_entity_id row = cn_source_entity_id input" "nt_type row = cn_type input"
      "nt_created_at row = now" "\<not> notification_exists input t"
proof (cases "list_ex (\<lambda>r. nt_id r = i \<or> same_source (cn_source_entity_id input) (cn_type input) r) t")
  case True
  then show ?thesis
    using that(1) sql_first_None [of "same_source (cn_source_entity_id input) (cn_type input)" t]
    by (auto simp: insert_notification_def Let_def list_ex_iff notification_exists_def)
next
  case False
  then show ?thesis
    using that(2) sql_first_None [of "same_source (cn_source_entity_id input) (cn_type input)" t]
    by (auto simp: insert_notification_def Let_def list_ex_iff notification_exists_def)
qed

lemma insert_notification_ok:
  assumes "notifications_ok t"
  shows "notifications_ok (snd (insert_notification i now input t))"
proof (rule insert_notification_cases [of i now input t])
  fix row
  assume r: "insert_notification i now input t = (Inr row, sql_insert row t)" "nt_id row = i" "i \<notin> nt_id ` set t"
    "nt_source_entity_id row = cn_source_entity_id input" "nt_type row = cn_type input" "\<not> notification_exists input t"
  have "source_key row \<notin> source_key ` set t"
    using r(4-6) sql_first_None [of "same_source (cn_source_entity_id input) (cn_type input)" t]
    by (auto simp: notification_exists_def same_source_def source_key_def)
  then show ?thesis
    using assms r tbl.ins_keeps_distinct [of nt_id t row]
      tbl.ins_keeps_distinct [of source_key t row]
    by (simp add: notifications_ok_def)
qed (simp add: assms)

lemma create_notification_table:
  "fst (snd (create_notification i now devices input t)) =
     (if notification_exists input t then t else snd (insert_notification i now input t))"
  by (simp add: create_notification_def split: prod.splits sum.splits)

lemma transition_table:
  "fst (snd (transition_to_missed source now t)) =
     (if sql_count (same_source source Incoming_Call) t > 0 \<and> list_ex (same_source source Missed_Call) t then t
      else sql_update (same_source source Incoming_Call) (\<lambda>r. r\<lparr> nt_type := Missed_Call, nt_updated_at := now \<rparr>) t)"
  by (simp add: transition_to_missed_def Let_def split: option.splits)

lemma resolve_table:
  "fst (snd (mark_call_resolved source now t)) =
     sql_update (\<lambda>r. nt_source_entity_id r = source \<and> nt_type r \<in> {Incoming_Call, Missed_Call} \<and> nt_status r = Pending)
       (\<lambda>r. r\<lparr> nt_status := Read, nt_updated_at := now \<rparr>) t"
  by (simp add: mark_call_resolved_def Let_def split: option.splits)

lemma read_table:
  "fst (snd (mark_read i now t)) = sql_update (\<lambda>r. nt_id r = i \<and> nt_status r = Pending) (\<lambda>r. r\<lparr> nt_status := Read, nt_updated_at := now \<rparr>) t"
  by (simp add: mark_read_def Let_def)

lemma rows_read_table:
  "fst (snd (mark_rows_read p now t)) = sql_update p (\<lambda>r. r\<lparr> nt_status := Read, nt_updated_at := now \<rparr>) t"
  by (simp add: mark_rows_read_def Let_def)

lemmas notification_tables = create_notification_table transition_table resolve_table read_table
  rows_read_table mark_all_read_def mark_conversation_read_def

text \<open>Changing the type of the one row of a source keeps the index when the new key is free.\<close>

definition to_missed :: "string \<Rightarrow> int \<Rightarrow> notification table \<Rightarrow> notification table" where
  "to_missed source now = sql_update (same_source source Incoming_Call) (\<lambda>r. r\<lparr> nt_type := Missed_Call, nt_updated_at := now \<rparr>)"

lemma to_missed_Cons:
  "to_missed source now (a # t) =
     (if same_source source Incoming_Call a then a\<lparr> nt_type := Missed_Call, nt_updated_at := now \<rparr> else a) # to_missed source now t"
  by (simp add: to_missed_def sql_update_def)

lemma to_missed_keys:
  "source_key ` set (to_missed source now t) \<subseteq> insert (source, Missed_Call) (source_key ` set t)"
  by (auto simp: to_missed_def sql_update_mem source_key_def same_source_def)

lemma to_missed_idle: "(source, Incoming_Call) \<notin> source_key ` set t \<Longrightarrow> to_missed source now t = t"
  unfolding to_missed_def
  by (rule sql_update_none) (auto simp: sql_count_def filter_empty_conv same_source_def source_key_def image_iff)

lemma to_missed_distinct:
  assumes "distinct (map source_key t)" "(source, Incoming_Call) \<in> source_key ` set t \<Longrightarrow> (source, Missed_Call) \<notin> source_key ` set t"
  shows "distinct (map source_key (to_missed source now t))"
  using assms
proof (induction t)
  case (Cons a t)
  show ?case
  proof (cases "same_source source Incoming_Call a")
    case True
    then have k: "source_key a = (source, Incoming_Call)" by (simp add: same_source_def source_key_def)
    with Cons.prems have "(source, Incoming_Call) \<notin> source_key ` set t" "(source, Missed_Call) \<notin> source_key ` set t" by auto
    then show ?thesis using True Cons.prems(1)
      by (simp add: to_missed_Cons to_missed_idle) (simp add: source_key_def same_source_def)
  next
    case False
    have IH: "distinct (map source_key (to_missed source now t))" using Cons by auto
    have "source_key a \<noteq> (source, Missed_Call)" if "(source, Incoming_Call) \<in> source_key ` set t" using Cons.prems(2) that by auto
    then have "source_key a \<notin> source_key ` set (to_missed source now t)"
      using to_missed_keys [of source now t] to_missed_idle [of source t now] Cons.prems(1) by (cases "(source, Incoming_Call) \<in> source_key ` set t") auto
    then show ?thesis using False IH by (simp add: to_missed_Cons)
  qed
qed (simp add: to_missed_def sql_update_def)

lemma transition_ok:
  assumes "notifications_ok t"
  shows "notifications_ok (fst (snd (transition_to_missed source now t)))"
proof -
  have "distinct (map source_key t)" using assms by (simp add: notifications_ok_def)
  then have "distinct (map source_key (to_missed source now t))"
    if "\<not> (sql_count (same_source source Incoming_Call) t > 0 \<and> list_ex (same_source source Missed_Call) t)"
    using that by (intro to_missed_distinct) (auto simp: sql_count_def filter_empty_conv list_ex_iff same_source_def source_key_def)
  then show ?thesis using assms
    by (auto simp: transition_table notifications_ok_def sql_simps to_missed_def)
qed

lemma apply_notification_ok: "notifications_ok t \<Longrightarrow> notifications_ok (apply_notification opn t)"
  by (cases opn) (simp_all add: apply_notification_def notification_tables insert_notification_ok transition_ok
      notifications_ok_update flip: transition_table)

interpretation notifications: invariant_system "\<lambda>t. t = []" "\<lambda>t opn t'. t' = apply_notification opn t" notifications_ok
  by unfold_locales (auto simp: apply_notification_ok, simp add: notifications_ok_def)

section \<open>Life of a notification\<close>

text \<open>The changes an operation may make to a row.\<close>

definition row_change :: "notification_op \<Rightarrow> notification \<Rightarrow> notification \<Rightarrow> bool" where
  "row_change opn r r' \<longleftrightarrow> nt_id r' = nt_id r \<and> nt_source_entity_id r' = nt_source_entity_id r
     \<and> nt_source_entity_type r' = nt_source_entity_type r \<and> nt_payload r' = nt_payload r
     \<and> nt_created_at r' = nt_created_at r \<and> nt_status r \<le> nt_status r'
     \<and> (nt_type r' = nt_type r \<or> nt_type r = Incoming_Call \<and> nt_type r' = Missed_Call
          \<and> nt_status r' = nt_status r \<and> (\<exists>now. opn = To_Missed (nt_source_entity_id r) now))"

lemma row_change_refl: "row_change opn r r"
  by (simp add: row_change_def)

lemma status_order [simp]: "Pending \<le> x" "x \<le> Read"
  by (simp_all add: less_eq_notification_status_def)

text \<open>Every operation updates rows as allowed, or appends one row with a new identifier.\<close>

lemma apply_notification_shape:
  "(\<exists>p f. apply_notification opn t = sql_update p f t \<and> (\<forall>r. p r \<longrightarrow> row_change opn r (f r)))
   \<or> (\<exists>row. apply_notification opn t = sql_insert row t \<and> nt_id row \<notin> nt_id ` set t)"
proof -
  have same: "apply_notification opn t = t \<Longrightarrow> ?thesis"
    by (rule disjI1, rule exI [of _ "\<lambda>_. False"]) (simp add: sql_update_def)
  have upd: "apply_notification opn t = sql_update p f t \<Longrightarrow> (\<And>r. p r \<Longrightarrow> row_change opn r (f r)) \<Longrightarrow> ?thesis" for p f
    by blast
  have ins: ?thesis if "apply_notification opn t = snd (insert_notification i now input t)" for i now input
    by (rule insert_notification_cases [of i now input t]) (use same that in auto)
  have read: "apply_notification opn t = sql_update p (\<lambda>r. r\<lparr> nt_status := Read, nt_updated_at := now \<rparr>) t \<Longrightarrow> ?thesis" for p now
    by (rule upd, assumption) (simp add: row_change_def)
  show ?thesis
  proof (cases opn)
    case (Create i now devices input)
    then show ?thesis using same ins [of i now input]
      by (cases "notification_exists input t") (simp_all add: apply_notification_def create_notification_table)
  next
    case (To_Missed source now)
    have c: "same_source source Incoming_Call r \<Longrightarrow> row_change opn r (r\<lparr> nt_type := Missed_Call, nt_updated_at := now \<rparr>)" for r
      using To_Missed by (auto simp: row_change_def same_source_def)
    then show ?thesis using To_Missed same upd [OF _ c] by (auto simp: apply_notification_def transition_table)
  next
    case (Insert_Race i now input)
    then show ?thesis by (intro ins) (simp add: apply_notification_def)
  next
    case (Read_One i now)
    show ?thesis by (rule read) (simp add: Read_One apply_notification_def notification_tables)
  next
    case (Read_All types now)
    show ?thesis by (rule read) (simp add: Read_All apply_notification_def notification_tables)
  next
    case (Read_Conversation ids now)
    show ?thesis by (rule read) (simp add: Read_Conversation apply_notification_def notification_tables)
  next
    case (Resolve_Call source now)
    show ?thesis by (rule read) (simp only: Resolve_Call apply_notification_def notification_op.case notification_tables)
  qed
qed

lemma apply_notification_row:
  assumes "notifications_ok t" "r \<in> set t" "r' \<in> set (apply_notification opn t)" "nt_id r' = nt_id r"
  shows "row_change opn r r'"
  using apply_notification_shape [of opn t]
proof
  assume "\<exists>p f. apply_notification opn t = sql_update p f t \<and> (\<forall>r. p r \<longrightarrow> row_change opn r (f r))"
  then obtain p f where u: "apply_notification opn t = sql_update p f t" "\<And>r. p r \<Longrightarrow> row_change opn r (f r)" by blast
  then obtain r0 where r0: "r0 \<in> set t" "r' = (if p r0 then f r0 else r0)" using assms(3) by (auto simp: sql_update_mem)
  then have c: "row_change opn r0 r'" using u(2) row_change_refl by simp
  then have "nt_id r0 = nt_id r" using assms(4) by (simp add: row_change_def)
  then have "r0 = r" using assms(1,2) r0(1) by (auto simp: notifications_ok_def distinct_map inj_on_def)
  then show ?thesis using c by simp
next
  assume "\<exists>row. apply_notification opn t = sql_insert row t \<and> nt_id row \<notin> nt_id ` set t"
  then obtain row where "r' \<in> set (t @ [row])" "nt_id row \<notin> nt_id ` set t" using assms(3) by (auto simp: sql_insert_def)
  then have "r' \<in> set t" using assms(2,4) by (auto simp: image_iff)
  then have "r' = r" using assms(1,2,4) by (auto simp: notifications_ok_def distinct_map inj_on_def)
  then show ?thesis using row_change_refl by simp
qed

lemma apply_notification_keeps: "nt_id ` set t \<subseteq> nt_id ` set (apply_notification opn t)"
  using apply_notification_shape [of opn t]
proof
  assume "\<exists>p f. apply_notification opn t = sql_update p f t \<and> (\<forall>r. p r \<longrightarrow> row_change opn r (f r))"
  then obtain p f where "apply_notification opn t = sql_update p f t" "\<And>r. p r \<Longrightarrow> nt_id (f r) = nt_id r"
    by (auto simp: row_change_def)
  then have "map nt_id (apply_notification opn t) = map nt_id t" by (simp add: sql_update_def)
  then show ?thesis by (metis list.set_map order_refl)
qed (auto simp: sql_insert_def)

lemma first_returning_None: "first_row (sql_returning p f t) = None \<longleftrightarrow> (\<forall>r \<in> set t. \<not> p r)"
  by (auto simp: sql_returning_def filter_empty_conv)

lemma resolve_answer:
  "fst (mark_call_resolved source now t) \<longleftrightarrow>
     first_row (sql_returning
       (\<lambda>r. nt_source_entity_id r = source \<and> nt_type r \<in> {Incoming_Call, Missed_Call} \<and> nt_status r = Pending)
       (\<lambda>r. r\<lparr> nt_status := Read, nt_updated_at := now \<rparr>) t) \<noteq> None"
  unfolding mark_call_resolved_def Let_def by (simp del: first_row_None add: option.case_eq_if)

lemma resolve_clears:
  assumes "r \<in> set (fst (snd (mark_call_resolved source now t)))" "nt_source_entity_id r = source" "nt_status r = Pending"
  shows "nt_type r \<noteq> Incoming_Call \<and> nt_type r \<noteq> Missed_Call"
proof -
  let ?p = "\<lambda>r. nt_source_entity_id r = source \<and> nt_type r \<in> {Incoming_Call, Missed_Call} \<and> nt_status r = Pending"
  obtain r0 where r: "r = (if ?p r0 then r0\<lparr> nt_status := Read, nt_updated_at := now \<rparr> else r0)"
    using assms(1) unfolding resolve_table sql_update_mem by blast
  have "\<not> ?p r0" using assms(3) r by (metis (no_types, lifting) notification.select_convs(3) notification.surjective
      notification.update_convs(3) notification.update_convs(8) notification_status.distinct(1))
  then show ?thesis using r assms(2,3) by auto
qed

section \<open>Properties\<close>

text \<open>C25. Through any operation a notification keeps its identity, source, payload and
  creation time; its status never goes back from read to pending; its type changes only
  from incoming to missed call, by the transition of its own call, which leaves the status;
  and no operation removes a row.\<close>

theorem notification_lifecycle:
  assumes "notifications_ok t" "r \<in> set t" "r' \<in> set (apply_notification opn t)" "nt_id r' = nt_id r"
  shows "nt_source_entity_id r' = nt_source_entity_id r \<and> nt_payload r' = nt_payload r
    \<and> nt_created_at r' = nt_created_at r \<and> nt_status r \<le> nt_status r'
    \<and> (nt_type r' = nt_type r \<or> nt_type r = Incoming_Call \<and> nt_type r' = Missed_Call
         \<and> nt_status r' = nt_status r \<and> (\<exists>now. opn = To_Missed (nt_source_entity_id r) now))
    \<and> nt_id ` set t \<subseteq> nt_id ` set (apply_notification opn t)"
  using apply_notification_row [OF assms] apply_notification_keeps [of t opn] unfolding row_change_def by blast

definition example_notification :: notification where
  "example_notification = \<lparr> nt_id = ''n'', nt_type = Incoming_Call, nt_status = Pending, nt_source_entity_id = ''c'',
     nt_source_entity_type = ''call_history'',
     nt_payload = \<lparr> np_caller_number = Some ''+46'', np_sender_number = None, np_provider_number = None,
       np_provider_label = None, np_contact_name = None, np_message_preview = None, np_device_id = None,
       np_device_label = None, np_timestamp = ''t'' \<rparr>,
     nt_created_at = 0, nt_updated_at = 0 \<rparr>"

theorem notification_lifecycle_witness:
  "let r' = example_notification\<lparr> nt_type := Missed_Call, nt_updated_at := 5 \<rparr>
   in r' \<in> set (apply_notification (To_Missed ''c'' 5) [example_notification]) \<and> nt_status r' = Pending"
proof -
  let ?r' = "example_notification\<lparr> nt_type := Missed_Call, nt_updated_at := 5 \<rparr>"
  have a: "notifications_ok [example_notification]" "example_notification \<in> set [example_notification]"
    by (simp_all add: notifications_ok_def)
  have b: "?r' \<in> set (apply_notification (To_Missed ''c'' 5) [example_notification])" "nt_id ?r' = nt_id example_notification"
    by (simp_all add: apply_notification_def transition_table sql_update_def same_source_def example_notification_def)
  show ?thesis using notification_lifecycle [OF a b] b(1) by (simp add: example_notification_def)
qed

text \<open>Creation is idempotent per source and type, also when two creations interleave:
  after one succeeded, another finds the row and sends nothing, and one whose check had
  already passed is refused by the index and changes nothing. The first creation sends one
  broadcast and one wake signal, to exactly the devices with an endpoint, urgent for an
  incoming call only.\<close>

theorem creation_idempotent:
  assumes "create_notification i now devices input t = (Inr (Some n), t', eff)"
    and "cn_source_entity_id input' = cn_source_entity_id input" "cn_type input' = cn_type input"
  shows "create_notification i' now' devices' input' t' = (Inr None, t', [])
    \<and> insert_notification i' now' input' t' = (Inl Notification_Unique_Violation, t')
    \<and> t' = t @ [n] \<and> nt_status n = Pending
    \<and> eff = Broadcast_Created n # (case devices of None \<Rightarrow> [] | Some ds \<Rightarrow>
        if \<forall>(d, url) \<in> set ds. url = None then []
        else [Send_Wake (List.map_filter (\<lambda>(d, url). map_option (Pair d) url) ds) i
               (if cn_type input = Incoming_Call then High else Normal) (cn_type input)])"
proof -
  from assms(1) have ne: "\<not> notification_exists input t" and i: "insert_notification i now input t = (Inr n, t')"
    and e: "eff = Broadcast_Created n # wake_effects devices n"
    by (auto simp: create_notification_def split: if_splits sum.splits prod.splits)
  have n: "t' = t @ [n]" "nt_id n = i" "nt_status n = Pending" "nt_type n = cn_type input"
      "nt_source_entity_id n = cn_source_entity_id input"
    using i by (auto simp: insert_notification_def Let_def sql_insert_def split: if_splits)
  have s: "same_source (cn_source_entity_id input') (cn_type input') n"
    using n assms(2,3) by (simp add: same_source_def)
  then have x: "notification_exists input' t'"
    using sql_first_None [of "same_source (cn_source_entity_id input') (cn_type input')" t'] n(1)
    by (auto simp: notification_exists_def)
  have f: "List.map_filter (\<lambda>(d, url). map_option (Pair d) url) ds = [] \<longleftrightarrow> (\<forall>(d, url) \<in> set ds. url = None)"
    for ds :: "(string \<times> string option) list"
    by (induction ds) (auto simp: List.map_filter_def)
  have "insert_notification i' now' input' t' = (Inl Notification_Unique_Violation, t')"
    using s n(1) by (simp add: insert_notification_def Let_def)
  then show ?thesis
    using x n e f by (auto simp: create_notification_def wake_effects_def Let_def split: option.splits)
qed

theorem creation_idempotent_witness:
  "let input = \<lparr> cn_type = Incoming_Call, cn_source_entity_id = ''c'', cn_source_entity_type = ''call_history'',
         cn_payload = nt_payload example_notification \<rparr>
   in create_notification ''m'' 9 None input [example_notification] = (Inr None, [example_notification], [])
    \<and> insert_notification ''m'' 9 input [example_notification] = (Inl Notification_Unique_Violation, [example_notification])"
proof -
  let ?in = "\<lparr> cn_type = Incoming_Call, cn_source_entity_id = ''c'', cn_source_entity_type = ''call_history'',
         cn_payload = nt_payload example_notification \<rparr>"
  have c: "create_notification ''n'' 0 (Some [(''d'', Some ''u'')]) ?in [] =
      (Inr (Some example_notification), [example_notification],
       [Broadcast_Created example_notification, Send_Wake [(''d'', ''u'')] ''n'' High Incoming_Call])"
    by (simp add: create_notification_def notification_exists_def sql_first_def insert_notification_def Let_def
        sql_insert_def example_notification_def wake_effects_def List.map_filter_def)
  show ?thesis using creation_idempotent [OF c, of ?in "''m''" 9 None] by simp
qed

text \<open>A device that reconnects is sent exactly the pending notifications created in the
  last fourteen days, oldest first; and once a call is resolved none of its notifications,
  incoming or missed, is among them, whichever of the two it had become.\<close>

theorem pending_delivery:
  "(\<exists>rs. deliver_pending_to_device dev now t = map (Device_Created dev) rs \<and> sorted (map nt_created_at rs)
      \<and> mset rs = mset (filter (\<lambda>r. nt_status r = Pending \<and> now - nt_created_at r \<le> 1209600000) t))
   \<and> (\<forall>r \<in> set (get_pending_notifications now (fst (snd (mark_call_resolved source rnow t)))).
        nt_source_entity_id r = source \<longrightarrow> nt_type r \<noteq> Incoming_Call \<and> nt_type r \<noteq> Missed_Call)
   \<and> (fst (mark_call_resolved source rnow t) \<longleftrightarrow>
        (\<exists>r \<in> set t. nt_source_entity_id r = source \<and> nt_type r \<in> {Incoming_Call, Missed_Call} \<and> nt_status r = Pending))"
proof -
  have f: "(nt_status r = Pending \<and> nt_created_at r \<ge> now - 14 * 24 * 60 * 60 * 1000)
      \<longleftrightarrow> (nt_status r = Pending \<and> now - nt_created_at r \<le> 1209600000)" for r by auto
  have a: "\<exists>rs. deliver_pending_to_device dev now t = map (Device_Created dev) rs \<and> sorted (map nt_created_at rs)
      \<and> mset rs = mset (filter (\<lambda>r. nt_status r = Pending \<and> now - nt_created_at r \<le> 1209600000) t)"
    unfolding deliver_pending_to_device_def get_pending_notifications_def Let_def sql_select_def f
    by (rule exI, rule conjI, rule refl) simp
  have b: "fst (mark_call_resolved source rnow t) \<longleftrightarrow>
      (\<exists>r \<in> set t. nt_source_entity_id r = source \<and> nt_type r \<in> {Incoming_Call, Missed_Call} \<and> nt_status r = Pending)"
    unfolding resolve_answer first_returning_None by blast
  show ?thesis using a b
    by (auto simp: get_pending_notifications_def Let_def sql_select_def dest: resolve_clears)
qed

text \<open>The example's call is resolved at time 5, and was delivered before.\<close>

theorem pending_delivery_witness:
  "fst (mark_call_resolved ''c'' 5 [example_notification])
    \<and> deliver_pending_to_device ''d'' 9 [example_notification] = [Device_Created ''d'' example_notification]"
proof -
  note all = pending_delivery [where dev = "''d''" and now = 9 and source = "''c''" and rnow = 5 and t = "[example_notification]"]
  have e: "nt_status example_notification = Pending" "nt_source_entity_id example_notification = ''c''"
    "nt_type example_notification = Incoming_Call" "nt_created_at example_notification = 0"
    by (simp_all add: example_notification_def)
  obtain rs where rs: "deliver_pending_to_device ''d'' 9 [example_notification] = map (Device_Created ''d'') rs"
    "mset rs = mset [example_notification]" using all e by auto
  then have "rs = [example_notification]" by simp
  then show ?thesis using all rs(1) e by simp
qed

end
