(* ===== verification/Startup_Cleanup.thy ===== *)
theory Startup_Cleanup
  imports Call_History Notifications
begin

text \<open>
  \<^verbatim>\<open>src/services/startup-cleanup-service.ts\<close>: the reconciliation of stale calls and their
  notifications before the server accepts connections. A database error aborts the start;
  here it is the unique index refusing a transition, with the updates already made kept.
\<close>

record cleanup_counts =
  cc_missed_calls :: nat
  cc_unanswered_calls :: nat
  cc_notifications :: nat

definition mark_stale_incoming :: "call_entry table \<Rightarrow> call_entry table" where
  "mark_stale_incoming =
     sql_update (\<lambda>e. ch_call_type e = INCOMING \<and> ch_answered_by_device e = None) (\<lambda>e. e\<lparr> ch_call_type := MISSED \<rparr>)"

definition mark_stale_outgoing :: "call_entry table \<Rightarrow> call_entry table" where
  "mark_stale_outgoing =
     sql_update (\<lambda>e. ch_call_type e = OUTGOING \<and> ch_duration_seconds e = None) (\<lambda>e. e\<lparr> ch_call_type := UNANSWERED \<rparr>)"

definition stale_notification :: "notification \<Rightarrow> bool" where
  "stale_notification r \<longleftrightarrow> nt_type r = Incoming_Call \<and> nt_status r = Pending"

definition transition_stale :: "int \<Rightarrow> notification table \<Rightarrow> notification table" where
  "transition_stale now = sql_update stale_notification (\<lambda>r. r\<lparr> nt_type := Missed_Call, nt_updated_at := now \<rparr>)"

definition run_cleanup ::
    "int \<Rightarrow> call_entry table \<Rightarrow> notification table
      \<Rightarrow> (notification_error + cleanup_counts) \<times> call_entry table \<times> notification table" where
  "run_cleanup now calls notifications =
     (let calls1 = mark_stale_incoming calls; calls2 = mark_stale_outgoing calls1 in
      if list_ex (\<lambda>r. stale_notification r \<and> list_ex (same_source (nt_source_entity_id r) Missed_Call) notifications) notifications
        then (Inl Notification_Unique_Violation, calls2, notifications)
      else (Inr \<lparr> cc_missed_calls = sql_count (\<lambda>e. ch_call_type e = INCOMING \<and> ch_answered_by_device e = None) calls,
                  cc_unanswered_calls = sql_count (\<lambda>e. ch_call_type e = OUTGOING \<and> ch_duration_seconds e = None) calls1,
                  cc_notifications = sql_count stale_notification notifications \<rparr>,
            calls2, transition_stale now notifications))"

text \<open>What a completed clean-up leaves: nothing that still claims to be ringing.\<close>

definition settled :: "call_entry table \<Rightarrow> notification table \<Rightarrow> bool" where
  "settled calls notifications \<longleftrightarrow>
     (\<forall>e \<in> set calls. (ch_call_type e = INCOMING \<longrightarrow> ch_answered_by_device e \<noteq> None)
        \<and> (ch_call_type e = OUTGOING \<longrightarrow> ch_duration_seconds e \<noteq> None))
     \<and> (\<forall>r \<in> set notifications. nt_type r = Incoming_Call \<longrightarrow> nt_status r = Read)"

definition settle_entry :: "call_entry \<Rightarrow> call_entry" where
  "settle_entry e =
     (if ch_call_type e = INCOMING \<and> ch_answered_by_device e = None then e\<lparr> ch_call_type := MISSED \<rparr>
      else if ch_call_type e = OUTGOING \<and> ch_duration_seconds e = None then e\<lparr> ch_call_type := UNANSWERED \<rparr> else e)"

lemma stale_calls_entry: "mark_stale_outgoing (mark_stale_incoming calls) = map settle_entry calls"
  by (simp add: mark_stale_outgoing_def mark_stale_incoming_def sql_update_def settle_entry_def)

lemma settle_entry_live:
  "(ch_call_type (settle_entry e) = INCOMING \<longrightarrow> ch_answered_by_device (settle_entry e) \<noteq> None)
   \<and> (ch_call_type (settle_entry e) = OUTGOING \<longrightarrow> ch_duration_seconds (settle_entry e) \<noteq> None)"
  by (simp add: settle_entry_def)

lemma transition_stale_live: "r \<in> set (transition_stale now t) \<Longrightarrow> \<not> stale_notification r"
proof -
  assume "r \<in> set (transition_stale now t)"
  then obtain r0 where r: "r = (if stale_notification r0 then r0\<lparr> nt_type := Missed_Call, nt_updated_at := now \<rparr> else r0)"
    unfolding transition_stale_def sql_update_mem by blast
  show ?thesis
  proof (cases "stale_notification r0")
    case True
    with r have "nt_type r = Missed_Call" by simp
    then show ?thesis by (simp add: stale_notification_def)
  next
    case False
    with r show ?thesis by simp
  qed
qed

lemma not_pending [simp]: "s \<noteq> Pending \<longleftrightarrow> s = Read"
  by (cases s) simp_all

lemma settled_idle:
  assumes "settled calls notifications"
  shows "mark_stale_incoming calls = calls" "mark_stale_outgoing calls = calls" "transition_stale now notifications = notifications"
    "\<not> list_ex stale_notification notifications"
  using assms
  by (auto simp: settled_def mark_stale_incoming_def mark_stale_outgoing_def transition_stale_def sql_update_def
      stale_notification_def list_ex_iff intro!: map_upd_idle)

lemma settled_count:
  assumes "settled calls notifications"
  shows "sql_count (\<lambda>e. ch_call_type e = INCOMING \<and> ch_answered_by_device e = None) calls = 0"
    "sql_count (\<lambda>e. ch_call_type e = OUTGOING \<and> ch_duration_seconds e = None) calls = 0"
    "sql_count stale_notification notifications = 0"
  using assms by (auto simp: settled_def sql_count_def filter_empty_conv stale_notification_def)

section \<open>Properties\<close>

text \<open>A start that completes leaves no incoming call without a device and no outgoing
  call without a duration under its live type, and no pending notification of a ringing
  call; it changes the type of the stale entries only, never an answered or finished one,
  and running it again changes nothing and counts nothing.\<close>

theorem cleanup_settles:
  assumes "run_cleanup now calls notifications = (Inr counts, calls', notifications')"
  shows "settled calls' notifications'
    \<and> map (ch_call_type_update (\<lambda>_. MISSED)) calls' = map (ch_call_type_update (\<lambda>_. MISSED)) calls
    \<and> (\<forall>e \<in> set calls. ch_answered_by_device e \<noteq> None \<and> ch_duration_seconds e \<noteq> None \<longrightarrow> e \<in> set calls')
    \<and> map nt_id notifications' = map nt_id notifications \<and> map nt_status notifications' = map nt_status notifications
    \<and> run_cleanup now' calls' notifications'
        = (Inr \<lparr> cc_missed_calls = 0, cc_unanswered_calls = 0, cc_notifications = 0 \<rparr>, calls', notifications')"
proof -
  from assms have c: "calls' = mark_stale_outgoing (mark_stale_incoming calls)" "notifications' = transition_stale now notifications"
    by (auto simp: run_cleanup_def Let_def split: if_splits)
  have s: "settled calls' notifications'"
    using settle_entry_live transition_stale_live [of _ now notifications]
    unfolding settled_def c stale_calls_entry by (auto simp: stale_notification_def)
  have m: "map (ch_call_type_update (\<lambda>_. MISSED)) calls' = map (ch_call_type_update (\<lambda>_. MISSED)) calls"
    by (simp add: c stale_calls_entry settle_entry_def)
  have k: "\<forall>e \<in> set calls. ch_answered_by_device e \<noteq> None \<and> ch_duration_seconds e \<noteq> None \<longrightarrow> e \<in> set calls'"
    unfolding c stale_calls_entry by (auto intro!: rev_image_eqI simp: settle_entry_def)
  have n: "map nt_id notifications' = map nt_id notifications" "map nt_status notifications' = map nt_status notifications"
    by (simp_all add: c transition_stale_def sql_simps)
  have "\<not> list_ex (\<lambda>r. stale_notification r \<and> list_ex (same_source (nt_source_entity_id r) Missed_Call) notifications') notifications'"
    using settled_idle(4) [OF s] by (auto simp: list_ex_iff)
  then have "run_cleanup now' calls' notifications'
      = (Inr \<lparr> cc_missed_calls = 0, cc_unanswered_calls = 0, cc_notifications = 0 \<rparr>, calls', notifications')"
    by (simp add: run_cleanup_def Let_def settled_idle [OF s] settled_count [OF s])
  with s m k n show ?thesis by blast
qed

text \<open>The clean-up completes exactly when no stale call already has a notification as missed.\<close>

lemma cleanup_completes:
  "(\<exists>counts u. run_cleanup now calls notifications = (Inr counts, u)) \<longleftrightarrow>
     (\<forall>r \<in> set notifications. stale_notification r \<longrightarrow>
        \<not> (\<exists>r' \<in> set notifications. same_source (nt_source_entity_id r) Missed_Call r'))"
  by (auto simp: run_cleanup_def Let_def list_ex_iff)

theorem cleanup_settles_witness:
  "settled [] [example_notification\<lparr> nt_type := Missed_Call, nt_updated_at := 3 \<rparr>]"
proof -
  have r: "run_cleanup 3 [] [example_notification]
      = (Inr \<lparr> cc_missed_calls = 0, cc_unanswered_calls = 0, cc_notifications = 1 \<rparr>, [],
         [example_notification\<lparr> nt_type := Missed_Call, nt_updated_at := 3 \<rparr>])"
    by (simp add: run_cleanup_def mark_stale_incoming_def mark_stale_outgoing_def transition_stale_def sql_update_def
        sql_count_def stale_notification_def same_source_def example_notification_def)
  from cleanup_settles [OF r] show ?thesis by blast
qed

end
