(* ===== verification/Orchestrator.thy ===== *)
theory Orchestrator
  imports Call_History Web_Text
begin

text \<open>
  \<^verbatim>\<open>src/services/call-orchestrator.ts\<close>: the four maps of the class and its handlers. A
  handler that awaits is split at its awaits: each segment runs without interruption, other
  handlers run between the segments. What a collaborator answers (the number service, the
  media bridge, the provider, generated identifiers, the clock in milliseconds) is an
  argument; what a handler asks of a collaborator or sends to a device is an effect, in
  order. Promises whose outcome is only logged are effects too. Identifiers are UUIDs and
  never empty. Log lines are left out.
\<close>

record provider =
  pv_provider_id :: string
  pv_uses_websocket_audio :: bool
  pv_supports_sips :: "bool option"

record provider_entry =
  pe_id :: string
  pe_type :: string
  pe_instance :: "provider option"

record session_info =
  si_sip_uri :: jstr
  si_sips_uri :: "jstr option"
  si_audio_ws_url :: jstr

datatype call_direction = Outbound | Inbound

record active_call =
  ac_call_id :: string
  ac_session_id :: string
  ac_provider_call_id :: string
  ac_provider :: provider
  ac_provider_entry_id :: string
  ac_from :: string
  ac_to :: string
  ac_direction :: call_direction
  ac_answered :: bool
  ac_answered_by_device :: "string option"
  ac_started_at :: int
  ac_answered_at :: "int option"
  ac_ended :: bool
  ac_audio_ws_url :: "jstr option"
  ac_watchdog :: "int option"

record orchestrator =
  or_active_calls :: "(string, active_call) jmap"
  or_session_to_call :: "(string, string) jmap"
  or_provider_call_to_internal :: "(string, string) jmap"
  or_notification_to_call :: "(string, string) jmap"

definition new_orchestrator :: orchestrator where
  "new_orchestrator = \<lparr> or_active_calls = [], or_session_to_call = [],
     or_provider_call_to_internal = [], or_notification_to_call = [] \<rparr>"

definition UNANSWERED_WATCHDOG_MS :: int where
  "UNANSWERED_WATCHDOG_MS = 90000"

definition MAX_CALL_DURATION_MS :: int where
  "MAX_CALL_DURATION_MS = 4 * 60 * 60 * 1000"

datatype provider_leg = Leg_Echo | Leg_Pending | Leg_Websocket string string | Leg_Sip jstr

datatype orchestrator_error =
    Number_Error string
  | Media_Unavailable
  | Media_Error string
  | Provider_Error string
  | Provider_Not_Available
  | Call_Not_Found string
  | Numbers_Error string

datatype cancel_reason = Cancel_Declined | Cancel_Caller_Disconnect | Cancel_Answered_Elsewhere

datatype orch_effect =
    Create_Session string provider_leg bool
  | Update_Session string provider_leg
  | Destroy_Session string int
  | Submit_Offer string string
  | Provider_Make_Call string string jstr
  | Provider_Answer string string "jstr option"
  | Provider_End_Call string
  | Broadcast_Ringing string string
  | Broadcast_Connected string
  | Broadcast_Disconnected string
  | Broadcast_Dtmf string string
  | Broadcast_Failed
  | Broadcast_Cancelled string cancel_reason
  | Broadcast_Cancelled_Except string string
  | Ice_To_Device string string string
  | Ice_To_All string string
  | History_Record record_call_input
  | History_Update_Type string call_type
  | History_Update_Duration string int
  | History_Mark_Unanswered string
  | History_Mark_Answered string string
  | Notify_Incoming string string string "string option"
  | Notify_Resolved string
  | Notify_Missed string

text \<open>What \<^verbatim>\<open>createSession\<close> answers: a session, an unavailable service, another failure.\<close>

datatype session_result = Session session_info | Session_Unavailable | Session_Failed string

definition session_error :: "session_result \<Rightarrow> orchestrator_error" where
  "session_error r = (case r of Session_Failed m \<Rightarrow> Media_Error m | _ \<Rightarrow> Media_Unavailable)"

definition selected_sip_uri :: "bool \<Rightarrow> provider \<Rightarrow> session_info \<Rightarrow> jstr" where
  "selected_sip_uri sip_tls provider info =
     select_sip_uri \<lparr> sip_uri = si_sip_uri info,
       sips_uri = (case si_sips_uri info of None \<Rightarrow> si_sip_uri info | Some u \<Rightarrow> u),
       supports_sips = (case pv_supports_sips provider of None \<Rightarrow> False | Some b \<Rightarrow> b),
       sip_tls_enabled = sip_tls \<rparr>"

section \<open>Identifiers\<close>

definition resolve_to_call_id :: "string \<Rightarrow> orchestrator \<Rightarrow> string" where
  "resolve_to_call_id i s =
     (if jm_has (or_active_calls s) i then i
      else (case jm_get (or_notification_to_call s) i of
          Some c \<Rightarrow> if jm_has (or_active_calls s) c then c
            else (case jm_get (or_provider_call_to_internal s) i of Some c' \<Rightarrow> c' | None \<Rightarrow> i)
        | None \<Rightarrow> (case jm_get (or_provider_call_to_internal s) i of Some c' \<Rightarrow> c' | None \<Rightarrow> i)))"

definition get_call_id_by_provider_call_id :: "string \<Rightarrow> orchestrator \<Rightarrow> string option" where
  "get_call_id_by_provider_call_id pid s = jm_get (or_provider_call_to_internal s) pid"

definition arm_watchdog :: "string \<Rightarrow> int \<Rightarrow> orchestrator \<Rightarrow> orchestrator" where
  "arm_watchdog c timeout_ms s =
     s\<lparr> or_active_calls := jm_modify c (\<lambda>a. a\<lparr> ac_watchdog := Some timeout_ms \<rparr>) (or_active_calls s) \<rparr>"

section \<open>Outbound calls\<close>

text \<open>
  \<open>number\<close> is the answer of \<^verbatim>\<open>requireProviderForNumber\<close>, \<open>made\<close> that of \<^verbatim>\<open>makeCall\<close> (the
  provider's call identifier, or the failure), \<open>patched\<close> whether the session update
  succeeded. No shared state is touched before the last await.
\<close>

definition outbound_leg :: "bool \<Rightarrow> provider_entry \<Rightarrow> provider \<Rightarrow> session_info \<Rightarrow> string \<Rightarrow> provider_leg" where
  "outbound_leg sip_tls entry provider info pid =
     (if pv_uses_websocket_audio provider \<or> pe_type entry = ''46elks''
        then Leg_Websocket (pv_provider_id provider) pid
      else Leg_Sip (selected_sip_uri sip_tls provider info))"

definition track_outbound ::
    "string \<Rightarrow> string \<Rightarrow> provider_entry \<Rightarrow> provider \<Rightarrow> session_info \<Rightarrow> string \<Rightarrow> string \<Rightarrow> string \<Rightarrow> int \<Rightarrow> orchestrator \<Rightarrow> orchestrator" where
  "track_outbound c pid entry provider info device from to now s =
     (let call = \<lparr> ac_call_id = c, ac_session_id = c, ac_provider_call_id = pid, ac_provider = provider,
            ac_provider_entry_id = pe_id entry, ac_from = from, ac_to = to, ac_direction = Outbound,
            ac_answered = False, ac_answered_by_device = Some device, ac_started_at = now, ac_answered_at = None,
            ac_ended = False, ac_audio_ws_url = Some (si_audio_ws_url info), ac_watchdog = None \<rparr>
      in arm_watchdog c UNANSWERED_WATCHDOG_MS
           (s\<lparr> or_active_calls := jm_set c call (or_active_calls s),
               or_session_to_call := jm_set c c (or_session_to_call s),
               or_provider_call_to_internal := jm_set pid c (or_provider_call_to_internal s) \<rparr>))"

definition initiate_outbound ::
    "bool \<Rightarrow> (string + provider_entry \<times> provider) \<Rightarrow> string \<Rightarrow> session_result \<Rightarrow> (string + string) \<Rightarrow> bool \<Rightarrow> int
      \<Rightarrow> string \<Rightarrow> string \<Rightarrow> string \<Rightarrow> orchestrator
      \<Rightarrow> (orchestrator_error + string \<times> string \<times> string) \<times> orchestrator \<times> orch_effect list" where
  "initiate_outbound sip_tls number c session made patched now device from to s =
     (case number of
        Inl e \<Rightarrow> (Inl (Number_Error e), s, [])
      | Inr (entry, provider) \<Rightarrow>
          let is_echo = (pe_type entry = ''dummy'');
              create = Create_Session c (if is_echo then Leg_Echo else Leg_Pending)
                (if is_echo then True else \<not> pv_uses_websocket_audio provider)
          in (case session of
              Session info \<Rightarrow>
                let audio_url = (if pv_uses_websocket_audio provider then si_audio_ws_url info
                      else selected_sip_uri sip_tls provider info);
                    make = Provider_Make_Call from to audio_url
                in (case made of
                    Inl e \<Rightarrow> (Inl (Provider_Error e), s, [create, make])
                  | Inr pid \<Rightarrow>
                      (Inr (c, from, to), track_outbound c pid entry provider info device from to now s,
                       [create, make]
                       @ (if \<not> is_echo then [Update_Session c (outbound_leg sip_tls entry provider info pid)] else [])
                       @ [History_Record \<lparr> rc_id = None, rc_phone_number = to, rc_provider_number = Some from,
                            rc_call_type = OUTGOING, rc_duration_seconds = None,
                            rc_provider_call_id = Some pid, rc_answered_by_device = None \<rparr>]))
            | _ \<Rightarrow> (Inl (session_error session), s, [create])))"

section \<open>Inbound calls\<close>

text \<open>Up to \<^verbatim>\<open>createSession\<close>: the mapping is registered before anything is awaited.\<close>

definition inbound_begin ::
    "provider_entry option \<Rightarrow> string \<Rightarrow> string \<Rightarrow> orchestrator
      \<Rightarrow> (orchestrator_error + provider_entry \<times> provider) \<times> orchestrator \<times> orch_effect list" where
  "inbound_begin entry pid c s =
     (case entry of
        None \<Rightarrow> (Inl Provider_Not_Available, s, [])
      | Some e \<Rightarrow> (case pe_instance e of
          None \<Rightarrow> (Inl Provider_Not_Available, s, [])
        | Some provider \<Rightarrow>
            let is_echo = (pe_type e = ''dummy'') in
            (Inr (e, provider),
             s\<lparr> or_provider_call_to_internal := jm_set pid c (or_provider_call_to_internal s) \<rparr>,
             [Create_Session c (if is_echo then Leg_Echo else Leg_Pending)
               (if is_echo then False else \<not> pv_uses_websocket_audio provider)])))"

text \<open>From the session to \<^verbatim>\<open>getNumbers\<close>: the call is tracked and recorded.\<close>

definition inbound_session ::
    "session_result \<Rightarrow> provider \<Rightarrow> string \<Rightarrow> string \<Rightarrow> string \<Rightarrow> string \<Rightarrow> string \<Rightarrow> int \<Rightarrow> orchestrator
      \<Rightarrow> (orchestrator_error + session_info) \<times> orchestrator \<times> orch_effect list" where
  "inbound_session session provider entry_id pid c from to now s =
     (case session of
        Session info \<Rightarrow>
          let call = \<lparr> ac_call_id = c, ac_session_id = c, ac_provider_call_id = pid, ac_provider = provider,
                ac_provider_entry_id = entry_id, ac_from = from, ac_to = to, ac_direction = Inbound,
                ac_answered = False, ac_answered_by_device = None, ac_started_at = now, ac_answered_at = None,
                ac_ended = False, ac_audio_ws_url = Some (si_audio_ws_url info), ac_watchdog = None \<rparr>
          in (Inr info,
              arm_watchdog c UNANSWERED_WATCHDOG_MS
                (s\<lparr> or_active_calls := jm_set c call (or_active_calls s),
                    or_session_to_call := jm_set c c (or_session_to_call s) \<rparr>),
              [History_Record \<lparr> rc_id = Some c, rc_phone_number = from, rc_provider_number = Some to,
                 rc_call_type = INCOMING, rc_duration_seconds = None,
                 rc_provider_call_id = Some pid, rc_answered_by_device = None \<rparr>])
      | _ \<Rightarrow> (Inl (session_error session),
              s\<lparr> or_provider_call_to_internal := jm_delete pid (or_provider_call_to_internal s) \<rparr>, []))"

text \<open>
  After \<^verbatim>\<open>getNumbers\<close>, whose answer is the label of the number called (or a failure): the
  devices are notified. The state is not consulted.
\<close>

definition inbound_numbers ::
    "bool \<Rightarrow> (string + string option) \<Rightarrow> provider \<Rightarrow> session_info \<Rightarrow> string \<Rightarrow> string \<Rightarrow> string \<Rightarrow> orchestrator
      \<Rightarrow> (orchestrator_error + jstr \<times> string) \<times> orchestrator \<times> orch_effect list" where
  "inbound_numbers sip_tls label provider info c from to s =
     (case label of
        Inl e \<Rightarrow> (Inl (Numbers_Error e), s, [])
      | Inr l \<Rightarrow> (Inr (selected_sip_uri sip_tls provider info, c), s,
          [Notify_Incoming c from to l, Broadcast_Ringing c from]))"

text \<open>The continuation of \<^verbatim>\<open>createNotification\<close>.\<close>

definition inbound_notified :: "string option \<Rightarrow> string \<Rightarrow> orchestrator \<Rightarrow> orchestrator" where
  "inbound_notified notification c s =
     (case notification of
        Some n \<Rightarrow> if jm_has (or_active_calls s) c
          then s\<lparr> or_notification_to_call := jm_set n c (or_notification_to_call s) \<rparr> else s
      | None \<Rightarrow> s)"

section \<open>Answering\<close>

datatype answer_result = Answer_Success | Answer_Not_Found | Answer_Already | Answer_Media_Failed | Answer_Provider_Failed

text \<open>Where a running \<^verbatim>\<open>answerCall\<close> stands: waiting with the call object it captured, or done.\<close>

datatype answer_progress = Wait_Patch active_call | Wait_Provider active_call | Answered answer_result

definition set_answered :: "string \<Rightarrow> string \<Rightarrow> int \<Rightarrow> orchestrator \<Rightarrow> orchestrator" where
  "set_answered c device now s =
     arm_watchdog c MAX_CALL_DURATION_MS
       (s\<lparr> or_active_calls := jm_modify c (\<lambda>a. a\<lparr> ac_answered := True, ac_answered_by_device := Some device,
           ac_answered_at := Some now \<rparr>) (or_active_calls s) \<rparr>)"

definition unset_answered :: "string \<Rightarrow> orchestrator \<Rightarrow> orchestrator" where
  "unset_answered c s =
     s\<lparr> or_active_calls := jm_modify c (\<lambda>a. a\<lparr> ac_answered := False, ac_answered_by_device := None,
         ac_answered_at := None \<rparr>) (or_active_calls s) \<rparr>"

definition answer_finish :: "active_call \<Rightarrow> string \<Rightarrow> orch_effect list" where
  "answer_finish call device =
     [Broadcast_Cancelled_Except device (ac_call_id call),
      History_Mark_Answered (ac_provider_call_id call) device,
      Notify_Resolved (ac_call_id call)]"

definition answer_provider :: "active_call \<Rightarrow> string \<Rightarrow> orch_effect" where
  "answer_provider call device =
     Provider_Answer (ac_provider_call_id call) device
       (if pv_uses_websocket_audio (ac_provider call) then ac_audio_ws_url call else None)"

definition answer_begin ::
    "string \<Rightarrow> string \<Rightarrow> int \<Rightarrow> orchestrator \<Rightarrow> answer_progress \<times> orchestrator \<times> orch_effect list" where
  "answer_begin requested_id device now s =
     (let c = resolve_to_call_id requested_id s in
      case jm_get (or_active_calls s) c of
        None \<Rightarrow> (Answered Answer_Not_Found, s, [])
      | Some call \<Rightarrow>
          if ac_answered call then (Answered Answer_Already, s, [])
          else let s1 = set_answered c device now s in
            if ac_direction call = Inbound then
              if pv_uses_websocket_audio (ac_provider call) then
                (Wait_Patch call, s1, [Update_Session (ac_session_id call)
                   (Leg_Websocket (pv_provider_id (ac_provider call)) (ac_provider_call_id call))])
              else (Wait_Provider call, s1, [answer_provider call device])
            else (Answered Answer_Success, s1, answer_finish call device))"

definition answer_patched ::
    "bool \<Rightarrow> active_call \<Rightarrow> string \<Rightarrow> orchestrator \<Rightarrow> answer_progress \<times> orchestrator \<times> orch_effect list" where
  "answer_patched succeeded call device s =
     (if succeeded then (Wait_Provider call, s, [answer_provider call device])
      else (Answered Answer_Media_Failed, unset_answered (ac_call_id call) s, []))"

definition answer_provided ::
    "bool \<Rightarrow> active_call \<Rightarrow> string \<Rightarrow> orchestrator \<Rightarrow> answer_progress \<times> orchestrator \<times> orch_effect list" where
  "answer_provided succeeded call device s =
     (if succeeded then (Answered Answer_Success, s, answer_finish call device)
      else (Answered Answer_Provider_Failed, unset_answered (ac_call_id call) s, []))"

section \<open>Media\<close>

text \<open>\<open>submitted\<close> is what \<^verbatim>\<open>submitOffer\<close> answers: the SDP answer, an unavailable service, another failure.\<close>

datatype offer_result = Offer_Answer string | Offer_Unavailable | Offer_Failed string

definition handle_webrtc_offer ::
    "offer_result \<Rightarrow> string \<Rightarrow> string \<Rightarrow> orchestrator \<Rightarrow> (orchestrator_error + string) \<times> orch_effect list" where
  "handle_webrtc_offer submitted requested_id sdp_offer s =
     (case jm_get (or_active_calls s) (resolve_to_call_id requested_id s) of
        None \<Rightarrow> (Inl (Call_Not_Found requested_id), [])
      | Some call \<Rightarrow>
          ((case submitted of
              Offer_Answer sdp \<Rightarrow> Inr sdp
            | Offer_Unavailable \<Rightarrow> Inl Media_Unavailable
            | Offer_Failed m \<Rightarrow> Inl (Media_Error m)),
           [Submit_Offer (ac_session_id call) sdp_offer]))"

definition patch_session_for_websocket_provider :: "string \<Rightarrow> string \<Rightarrow> string \<Rightarrow> orch_effect list" where
  "patch_session_for_websocket_provider session_id protocol expected_call_id =
     [Update_Session session_id (Leg_Websocket protocol expected_call_id)]"

text \<open>A trickled candidate of a client is only checked and logged; \<open>handle_ice_candidate\<close> is that check.\<close>

definition handle_ice_candidate :: "string \<Rightarrow> orchestrator \<Rightarrow> bool" where
  "handle_ice_candidate requested_id s \<longleftrightarrow> jm_get (or_active_calls s) (resolve_to_call_id requested_id s) \<noteq> None"

definition relay_ice_candidate_to_client :: "string \<Rightarrow> string \<Rightarrow> orchestrator \<Rightarrow> orch_effect list" where
  "relay_ice_candidate_to_client c candidate s =
     (case jm_get (or_active_calls s) c of
        None \<Rightarrow> []
      | Some call \<Rightarrow> (case ac_answered_by_device call of
          Some device \<Rightarrow> [Ice_To_Device device c candidate]
        | None \<Rightarrow> [Ice_To_All c candidate]))"

section \<open>Ending\<close>

text \<open>\<^verbatim>\<open>Math.round\<close> of the milliseconds over 1000.\<close>

definition duration_seconds :: "int \<Rightarrow> active_call \<Rightarrow> int option" where
  "duration_seconds now call = map_option (\<lambda>t. (now - t + 500) div 1000) (ac_answered_at call)"

definition end_history :: "string option \<Rightarrow> int \<Rightarrow> active_call \<Rightarrow> orch_effect list" where
  "end_history trigger now call =
     (if ac_direction call = Inbound \<and> \<not> ac_answered call then
        (if trigger = Some ''declined''
         then [History_Update_Type (ac_provider_call_id call) DECLINED, Notify_Resolved (ac_call_id call)]
         else [History_Update_Type (ac_provider_call_id call) MISSED, Notify_Missed (ac_call_id call)])
      else (case duration_seconds now call of
          Some d \<Rightarrow> if d > 0 then [History_Update_Duration (ac_provider_call_id call) d]
            else if ac_direction call = Outbound \<and> \<not> ac_answered call
              then [History_Mark_Unanswered (ac_provider_call_id call)] else []
        | None \<Rightarrow> if ac_direction call = Outbound \<and> \<not> ac_answered call
              then [History_Mark_Unanswered (ac_provider_call_id call)] else []))"

definition end_effects :: "string option \<Rightarrow> int \<Rightarrow> active_call \<Rightarrow> orch_effect list" where
  "end_effects trigger now call =
     [Broadcast_Disconnected (ac_call_id call),
      Broadcast_Cancelled (ac_call_id call)
        (if trigger = Some ''declined'' then Cancel_Declined else Cancel_Caller_Disconnect),
      Destroy_Session (ac_session_id call) (if trigger = Some ''provider_disconnected'' then 200 else 0),
      Provider_End_Call (ac_provider_call_id call)]
     @ end_history trigger now call"

definition end_call :: "string \<Rightarrow> string option \<Rightarrow> int \<Rightarrow> orchestrator \<Rightarrow> orchestrator \<times> orch_effect list" where
  "end_call requested_id trigger now s =
     (let c = resolve_to_call_id requested_id s in
      case jm_get (or_active_calls s) c of
        None \<Rightarrow> (s, [])
      | Some call \<Rightarrow>
          if ac_ended call then (s, [])
          else (s\<lparr> or_active_calls := jm_delete c (or_active_calls s),
                   or_session_to_call := jm_delete (ac_session_id call) (or_session_to_call s),
                   or_provider_call_to_internal := jm_delete (ac_provider_call_id call) (or_provider_call_to_internal s),
                   or_notification_to_call := jm_filter (\<lambda>_ mapped. mapped \<noteq> c) (or_notification_to_call s) \<rparr>,
                end_effects trigger now call))"

text \<open>The watchdog's callback, with the call object it was armed for.\<close>

definition watchdog_fires :: "string \<Rightarrow> int \<Rightarrow> orchestrator \<Rightarrow> orchestrator \<times> orch_effect list" where
  "watchdog_fires c now s =
     (case jm_get (or_active_calls s) c of
        None \<Rightarrow> (s, [])
      | Some call \<Rightarrow> if ac_ended call then (s, []) else end_call c (Some ''watchdog_timeout'') now s)"

fun end_calls :: "(string \<times> string option) list \<Rightarrow> int \<Rightarrow> orchestrator \<Rightarrow> orchestrator \<times> orch_effect list" where
  "end_calls [] now s = (s, [])"
| "end_calls ((c, trigger) # cs) now s =
     (case end_call c trigger now s of (s1, e1) \<Rightarrow>
      (case end_calls cs now s1 of (s2, e2) \<Rightarrow> (s2, e1 @ e2)))"

definition end_all_calls :: "int \<Rightarrow> orchestrator \<Rightarrow> orchestrator \<times> orch_effect list" where
  "end_all_calls now s = end_calls (map (\<lambda>c. (c, None)) (jm_keys (or_active_calls s))) now s"

text \<open>
  One round of \<^verbatim>\<open>reconcileActiveSessions\<close>; \<open>status\<close> is the bridge's answer on a session:
  \<^const>\<open>None\<close> when the request throws, otherwise whether the provider leg is connected.
\<close>

definition reconcile_call :: "(string \<Rightarrow> bool option) \<Rightarrow> active_call \<Rightarrow> (string \<times> string option) list" where
  "reconcile_call status call =
     (if ac_ended call \<or> \<not> ac_answered call then []
      else (case status (ac_session_id call) of
          Some leg_connected \<Rightarrow> if \<not> leg_connected then [(ac_call_id call, Some ''reconcile_provider_gone'')] else []
        | None \<Rightarrow> [(ac_call_id call, Some ''reconcile_session_missing'')]))"

definition reconcile_active_sessions :: "(string \<Rightarrow> bool option) \<Rightarrow> int \<Rightarrow> orchestrator \<Rightarrow> orchestrator \<times> orch_effect list" where
  "reconcile_active_sessions status now s =
     end_calls (concat (map (\<lambda>(_, call). reconcile_call status call) (or_active_calls s))) now s"

section \<open>Events of the media bridge\<close>

datatype media_event =
    Provider_Disconnected
  | Client_Disconnected
  | Provider_Connected
  | Client_Connected
  | Dtmf "string option"
  | Ice_Candidate "string option"

definition provider_connected :: "active_call \<Rightarrow> int \<Rightarrow> orchestrator \<Rightarrow> orchestrator" where
  "provider_connected call now s =
     (if \<not> ac_answered call \<and> ac_direction call = Outbound then
        arm_watchdog (ac_call_id call) MAX_CALL_DURATION_MS
          (s\<lparr> or_active_calls := jm_modify (ac_call_id call)
             (\<lambda>a. a\<lparr> ac_answered := True, ac_answered_at := Some now \<rparr>) (or_active_calls s) \<rparr>)
      else s)"

definition handle_media_event :: "string \<Rightarrow> media_event \<Rightarrow> int \<Rightarrow> orchestrator \<Rightarrow> orchestrator \<times> orch_effect list" where
  "handle_media_event session_id event now s =
     (case jm_get (or_session_to_call s) session_id of
        None \<Rightarrow> (s, [])
      | Some c \<Rightarrow> (case jm_get (or_active_calls s) c of
          None \<Rightarrow> (s, [])
        | Some call \<Rightarrow> (case event of
            Provider_Disconnected \<Rightarrow> end_call c (Some ''provider_disconnected'') now s
          | Client_Disconnected \<Rightarrow> end_call c None now s
          | Provider_Connected \<Rightarrow> (provider_connected call now s, [Broadcast_Connected c])
          | Client_Connected \<Rightarrow> (s, [])
          | Dtmf digit \<Rightarrow> (s, case digit of Some d \<Rightarrow> if d \<noteq> '''' then [Broadcast_Dtmf c d] else [] | None \<Rightarrow> [])
          | Ice_Candidate candidate \<Rightarrow>
              (s, case candidate of Some x \<Rightarrow> relay_ice_candidate_to_client c x s | None \<Rightarrow> []))))"

section \<open>Views\<close>

record active_call_view =
  av_call_id :: string
  av_from :: string
  av_to :: string
  av_direction :: call_direction
  av_connected :: bool
  av_provider_number :: string
  av_started_at :: int

definition get_active_call :: "string \<Rightarrow> orchestrator \<Rightarrow> (string \<times> string \<times> string \<times> call_direction \<times> bool) option" where
  "get_active_call i s =
     map_option (\<lambda>call. (ac_call_id call, ac_from call, ac_to call, ac_direction call, ac_answered call))
       (jm_get (or_active_calls s) (resolve_to_call_id i s))"

definition get_all_active_calls :: "orchestrator \<Rightarrow> active_call_view list" where
  "get_all_active_calls s =
     map (\<lambda>call. \<lparr> av_call_id = ac_call_id call,
            av_from = (if ac_direction call = Inbound then ac_from call else ac_to call),
            av_to = (if ac_direction call = Inbound then ac_to call else ac_from call),
            av_direction = ac_direction call, av_connected = ac_answered call,
            av_provider_number = (if ac_direction call = Inbound then ac_to call else ac_from call),
            av_started_at = ac_started_at call \<rparr>)
       (filter (\<lambda>call. \<not> ac_ended call) (map snd (or_active_calls s)))"

definition get_active_device_ids :: "orchestrator \<Rightarrow> string list" where
  "get_active_device_ids s =
     remdups (List.map_filter ac_answered_by_device (filter (\<lambda>call. \<not> ac_ended call) (map snd (or_active_calls s))))"

definition dispose :: "orchestrator \<Rightarrow> orchestrator" where
  "dispose s = \<lparr> or_active_calls = [], or_session_to_call = [], or_provider_call_to_internal = [],
     or_notification_to_call = [] \<rparr>"

end
