(* ===== verification/Orchestrator_System.thy ===== *)
theory Orchestrator_System
  imports Orchestrator
begin

text \<open>
  The orchestrator under its handlers: the segments between awaits as labelled steps, with
  the continuations that are waiting as part of the state, and the invariant of the maps.
\<close>

text \<open>
  \<open>sy_used\<close> holds every identifier generated so far (they are random UUIDs and do not
  repeat), \<open>sy_setup\<close> the inbound calls waiting for their session, with the provider's call
  identifier, and \<open>sy_answering\<close> the answers waiting for the media bridge (\<^const>\<open>True\<close>) or
  the provider (\<^const>\<open>False\<close>) with the call object captured and the device.
\<close>

record orch_system =
  sy_state :: orchestrator
  sy_used :: "string list"
  sy_setup :: "(string \<times> string) list"
  sy_answering :: "(active_call \<times> string \<times> bool) list"

datatype orch_event =
    Ev_Outbound string
  | Ev_Inbound string string
  | Ev_Session string
  | Ev_Notified string string
  | Ev_Answer string string
  | Ev_Patched active_call string bool
  | Ev_Provided active_call string bool
  | Ev_End string "string option"
  | Ev_Watchdog string
  | Ev_Media string media_event

definition still_waiting ::
    "answer_progress \<Rightarrow> string \<Rightarrow> (active_call \<times> string \<times> bool) list \<Rightarrow> (active_call \<times> string \<times> bool) list" where
  "still_waiting p device ws =
     (case p of Wait_Patch call \<Rightarrow> (call, device, True) # ws | Wait_Provider call \<Rightarrow> (call, device, False) # ws
      | Answered _ \<Rightarrow> ws)"

inductive orch_step :: "orch_system \<Rightarrow> orch_event \<times> orch_effect list \<Rightarrow> orch_system \<Rightarrow> bool" where
  os_outbound: "c \<notin> set (sy_used S) \<Longrightarrow>
     initiate_outbound sip_tls number c session made patched now device from to (sy_state S) = (res, t, eff) \<Longrightarrow>
     orch_step S (Ev_Outbound c, eff) (S\<lparr> sy_state := t, sy_used := c # sy_used S \<rparr>)"
| os_inbound: "c \<notin> set (sy_used S) \<Longrightarrow> inbound_begin entry pid c (sy_state S) = (res, t, eff) \<Longrightarrow>
     orch_step S (Ev_Inbound pid c, eff) (S\<lparr> sy_state := t, sy_used := c # sy_used S,
       sy_setup := (case res of Inl _ \<Rightarrow> sy_setup S | Inr _ \<Rightarrow> (c, pid) # sy_setup S) \<rparr>)"
| os_session: "(c, pid) \<in> set (sy_setup S) \<Longrightarrow>
     inbound_session session provider entry_id pid c from to now (sy_state S) = (res, t, eff) \<Longrightarrow>
     orch_step S (Ev_Session c, eff) (S\<lparr> sy_state := t, sy_setup := removeAll (c, pid) (sy_setup S) \<rparr>)"
| os_notified: "n \<notin> set (sy_used S) \<Longrightarrow>
     orch_step S (Ev_Notified n c, []) (S\<lparr> sy_state := inbound_notified (Some n) c (sy_state S), sy_used := n # sy_used S \<rparr>)"
| os_answer: "answer_begin req device now (sy_state S) = (p, t, eff) \<Longrightarrow>
     orch_step S (Ev_Answer req device, eff)
       (S\<lparr> sy_state := t, sy_answering := still_waiting p device (sy_answering S) \<rparr>)"
| os_patched: "(call, device, True) \<in> set (sy_answering S) \<Longrightarrow>
     answer_patched succeeded call device (sy_state S) = (p, t, eff) \<Longrightarrow>
     orch_step S (Ev_Patched call device succeeded, eff)
       (S\<lparr> sy_state := t, sy_answering := still_waiting p device (removeAll (call, device, True) (sy_answering S)) \<rparr>)"
| os_provided: "(call, device, False) \<in> set (sy_answering S) \<Longrightarrow>
     answer_provided succeeded call device (sy_state S) = (p, t, eff) \<Longrightarrow>
     orch_step S (Ev_Provided call device succeeded, eff)
       (S\<lparr> sy_state := t, sy_answering := still_waiting p device (removeAll (call, device, False) (sy_answering S)) \<rparr>)"
| os_end: "end_call req trigger now (sy_state S) = (t, eff) \<Longrightarrow>
     orch_step S (Ev_End req trigger, eff) (S\<lparr> sy_state := t \<rparr>)"
| os_watchdog: "watchdog_fires c now (sy_state S) = (t, eff) \<Longrightarrow>
     orch_step S (Ev_Watchdog c, eff) (S\<lparr> sy_state := t \<rparr>)"
| os_media: "handle_media_event session event now (sy_state S) = (t, eff) \<Longrightarrow>
     orch_step S (Ev_Media session event, eff) (S\<lparr> sy_state := t \<rparr>)"

inductive_simps orch_step_simps:
  "orch_step S (Ev_Outbound c, eff) T"
  "orch_step S (Ev_Inbound pid c, eff) T"
  "orch_step S (Ev_Session c, eff) T"
  "orch_step S (Ev_Notified n c, eff) T"
  "orch_step S (Ev_Answer req device, eff) T"
  "orch_step S (Ev_Patched call device succeeded, eff) T"
  "orch_step S (Ev_Provided call device succeeded, eff) T"
  "orch_step S (Ev_End req trigger, eff) T"
  "orch_step S (Ev_Watchdog c, eff) T"
  "orch_step S (Ev_Media session event, eff) T"

definition orch_init :: "orch_system \<Rightarrow> bool" where
  "orch_init S \<longleftrightarrow> S = \<lparr> sy_state = new_orchestrator, sy_used = [], sy_setup = [], sy_answering = [] \<rparr>"

section \<open>The invariant\<close>

text \<open>
  A tracked call is filed under its own identifier and session, has not ended, has a
  watchdog (the long one when it is answered), has an answer time exactly when it is
  answered, and then has a device.
\<close>

definition call_ok :: "string \<Rightarrow> active_call \<Rightarrow> bool" where
  "call_ok c a \<longleftrightarrow> ac_call_id a = c \<and> ac_session_id a = c \<and> \<not> ac_ended a
     \<and> (ac_watchdog a = Some MAX_CALL_DURATION_MS \<or> \<not> ac_answered a \<and> ac_watchdog a = Some UNANSWERED_WATCHDOG_MS)
     \<and> (ac_answered a \<longleftrightarrow> ac_answered_at a \<noteq> None)
     \<and> (ac_answered a \<or> ac_direction a = Outbound \<longrightarrow> ac_answered_by_device a \<noteq> None)"

definition maps_ok :: "orchestrator \<Rightarrow> bool" where
  "maps_ok s \<longleftrightarrow> jm_ok (or_active_calls s) \<and> jm_ok (or_session_to_call s)
     \<and> jm_ok (or_provider_call_to_internal s) \<and> jm_ok (or_notification_to_call s)
     \<and> (\<forall>c a. jm_get (or_active_calls s) c = Some a \<longrightarrow> call_ok c a)
     \<and> (\<forall>x c. jm_get (or_session_to_call s) x = Some c \<longleftrightarrow> x = c \<and> jm_get (or_active_calls s) c \<noteq> None)
     \<and> (\<forall>n c. jm_get (or_notification_to_call s) n = Some c \<longrightarrow> jm_get (or_active_calls s) c \<noteq> None)"

definition active_ids :: "orchestrator \<Rightarrow> string set" where
  "active_ids s = set (jm_keys (or_active_calls s))"

definition setup_ids :: "orch_system \<Rightarrow> string set" where
  "setup_ids S = fst ` set (sy_setup S)"

definition waiting_ids :: "orch_system \<Rightarrow> string set" where
  "waiting_ids S = (\<lambda>w. ac_call_id (fst w)) ` set (sy_answering S)"

definition used_ok :: "orch_system \<Rightarrow> bool" where
  "used_ok S \<longleftrightarrow> active_ids (sy_state S) \<union> setup_ids S \<union> waiting_ids S \<subseteq> set (sy_used S)
     \<and> setup_ids S \<inter> active_ids (sy_state S) = {} \<and> setup_ids S \<inter> waiting_ids S = {}
     \<and> distinct (map fst (sy_setup S))"

text \<open>
  While an answer is waiting and its call is still tracked, the call is held by the device
  that is answering, and no second answer of it is waiting.
\<close>

definition answering_ok :: "orch_system \<Rightarrow> bool" where
  "answering_ok S \<longleftrightarrow> (\<forall>(call, device, b) \<in> set (sy_answering S).
     \<forall>a. jm_get (or_active_calls (sy_state S)) (ac_call_id call) = Some a \<longrightarrow>
       ac_answered a \<and> ac_answered_by_device a = Some device \<and> ac_direction a = Inbound
       \<and> (\<forall>w \<in> set (sy_answering S). ac_call_id (fst w) = ac_call_id call \<longrightarrow> w = (call, device, b)))"

definition orch_inv :: "orch_system \<Rightarrow> bool" where
  "orch_inv S \<longleftrightarrow> maps_ok (sy_state S) \<and> used_ok S \<and> answering_ok S"

subsection \<open>The maps\<close>

lemma maps_ok_call: "maps_ok s \<Longrightarrow> jm_get (or_active_calls s) c = Some a \<Longrightarrow> call_ok c a"
  by (simp add: maps_ok_def)

lemma maps_ok_track:
  assumes "maps_ok s" "call_ok c a" "jm_ok p" "jm_ok A" "\<And>k. jm_get A k = (if k = c then Some a else jm_get (or_active_calls s) k)"
  shows "maps_ok (s\<lparr> or_active_calls := A, or_session_to_call := jm_set c c (or_session_to_call s),
    or_provider_call_to_internal := p \<rparr>)"
  using assms by (auto simp: maps_ok_def)

lemma maps_ok_modify:
  assumes "maps_ok s" "\<And>a. jm_get (or_active_calls s) c = Some a \<Longrightarrow> call_ok c a \<Longrightarrow> call_ok c (f a)"
  shows "maps_ok (s\<lparr> or_active_calls := jm_modify c f (or_active_calls s) \<rparr>)"
  using assms by (auto simp: maps_ok_def)

lemma maps_ok_provider: "maps_ok s \<Longrightarrow> jm_ok p \<Longrightarrow> maps_ok (s\<lparr> or_provider_call_to_internal := p \<rparr>)"
  by (auto simp: maps_ok_def)

lemma arm_watchdog_modify:
  "arm_watchdog c n (s\<lparr> or_active_calls := jm_modify c f (or_active_calls s) \<rparr>) =
     s\<lparr> or_active_calls := jm_modify c (\<lambda>a. (f a)\<lparr> ac_watchdog := Some n \<rparr>) (or_active_calls s) \<rparr>"
  by (simp add: arm_watchdog_def jm_modify_def comp_def case_prod_beta)

lemma set_answered_eq:
  "set_answered c device now s = s\<lparr> or_active_calls := jm_modify c (\<lambda>a. a\<lparr> ac_answered := True,
     ac_answered_by_device := Some device, ac_answered_at := Some now, ac_watchdog := Some MAX_CALL_DURATION_MS \<rparr>)
     (or_active_calls s) \<rparr>"
  by (simp add: set_answered_def arm_watchdog_modify)

lemma maps_ok_set_answered: "maps_ok s \<Longrightarrow> maps_ok (set_answered c device now s)"
  unfolding set_answered_eq by (rule maps_ok_modify) (auto simp: call_ok_def)

lemma get_arm [simp]:
  "jm_get (or_active_calls (arm_watchdog c n s)) k =
     (if k = c then map_option (\<lambda>a. a\<lparr> ac_watchdog := Some n \<rparr>) (jm_get (or_active_calls s) k)
      else jm_get (or_active_calls s) k)"
  by (simp add: arm_watchdog_def)

subsection \<open>Ending a call\<close>

definition untrack :: "active_call \<Rightarrow> orchestrator \<Rightarrow> orchestrator" where
  "untrack call s = s\<lparr> or_active_calls := jm_delete (ac_call_id call) (or_active_calls s),
     or_session_to_call := jm_delete (ac_session_id call) (or_session_to_call s),
     or_provider_call_to_internal := jm_delete (ac_provider_call_id call) (or_provider_call_to_internal s),
     or_notification_to_call := jm_filter (\<lambda>_ mapped. mapped \<noteq> ac_call_id call) (or_notification_to_call s) \<rparr>"

lemma end_call_none:
  "jm_get (or_active_calls s) (resolve_to_call_id req s) = None \<Longrightarrow> end_call req trigger now s = (s, [])"
  by (simp add: end_call_def Let_def)

lemma end_call_some:
  assumes "maps_ok s" "jm_get (or_active_calls s) (resolve_to_call_id req s) = Some call"
  shows "end_call req trigger now s = (untrack call s, end_effects trigger now call)"
  using maps_ok_call [OF assms] assms(2) by (simp add: end_call_def Let_def untrack_def call_ok_def)

lemma end_call_cases:
  assumes "maps_ok s"
  obtains "end_call req trigger now s = (s, [])" "jm_get (or_active_calls s) (resolve_to_call_id req s) = None"
  | call where "end_call req trigger now s = (untrack call s, end_effects trigger now call)"
      "jm_get (or_active_calls s) (resolve_to_call_id req s) = Some call" "call_ok (resolve_to_call_id req s) call"
  using end_call_none end_call_some [OF assms] maps_ok_call [OF assms]
  by (cases "jm_get (or_active_calls s) (resolve_to_call_id req s)") blast+

lemma resolve_active [simp]: "jm_get (or_active_calls s) c \<noteq> None \<Longrightarrow> resolve_to_call_id c s = c"
  by (simp add: resolve_to_call_id_def jm_has_iff)

lemma watchdog_cases:
  "watchdog_fires c now s = end_call c (Some ''watchdog_timeout'') now s \<or> watchdog_fires c now s = (s, [])"
  by (auto simp: watchdog_fires_def split: option.splits)

lemma maps_ok_untrack:
  assumes "maps_ok s" "call_ok c call" "jm_get (or_active_calls s) c = Some call"
  shows "maps_ok (untrack call s)"
proof -
  have "ac_call_id call = c" "ac_session_id call = c" using assms(2) by (simp_all add: call_ok_def)
  then show ?thesis using assms(1) by (auto simp: maps_ok_def untrack_def jm_get_filter split: option.splits if_splits)
qed

lemma untrack_active [simp]:
  "jm_get (or_active_calls (untrack call s)) c = (if c = ac_call_id call then None else jm_get (or_active_calls s) c)"
  by (simp add: untrack_def)

subsection \<open>Waiting answers\<close>

lemma answering_okD:
  assumes "answering_ok S" "(call, device, b) \<in> set (sy_answering S)"
    "jm_get (or_active_calls (sy_state S)) (ac_call_id call) = Some a"
  shows "ac_answered a" "ac_answered_by_device a = Some device" "ac_direction a = Inbound"
    "\<And>w. w \<in> set (sy_answering S) \<Longrightarrow> ac_call_id (fst w) = ac_call_id call \<Longrightarrow> w = (call, device, b)"
  using assms unfolding answering_ok_def by blast+

text \<open>A step that keeps the waiting list only has to keep the calls that are waited for.\<close>

definition keeps_answer :: "active_call \<Rightarrow> active_call \<Rightarrow> bool" where
  "keeps_answer a0 a \<longleftrightarrow> (ac_answered a0 \<longrightarrow> ac_answered a \<and> ac_answered_by_device a = ac_answered_by_device a0)
     \<and> ac_direction a = ac_direction a0"

lemma keeps_answer_refl [simp]: "keeps_answer a a"
  by (simp add: keeps_answer_def)

lemma answering_ok_keep:
  assumes "answering_ok S" "sy_answering T = sy_answering S"
    "\<And>c a. jm_get (or_active_calls (sy_state T)) c = Some a \<Longrightarrow> c \<in> waiting_ids S \<Longrightarrow>
       \<exists>a0. jm_get (or_active_calls (sy_state S)) c = Some a0 \<and> keeps_answer a0 a"
  shows "answering_ok T"
  unfolding answering_ok_def
proof (intro ballI, clarify)
  fix call device b a
  assume w: "(call, device, b) \<in> set (sy_answering T)" and a: "jm_get (or_active_calls (sy_state T)) (ac_call_id call) = Some a"
  have "ac_call_id call \<in> waiting_ids S" using w assms(2) by (force simp: waiting_ids_def)
  from assms(3) [OF a this] obtain a0 where a0: "jm_get (or_active_calls (sy_state S)) (ac_call_id call) = Some a0" "keeps_answer a0 a"
    by blast
  then show "ac_answered a \<and> ac_answered_by_device a = Some device \<and> ac_direction a = Inbound
      \<and> (\<forall>w \<in> set (sy_answering T). ac_call_id (fst w) = ac_call_id call \<longrightarrow> w = (call, device, b))"
    using answering_okD [OF assms(1) w [unfolded assms(2)] a0(1)] unfolding assms(2) keeps_answer_def by simp
qed

lemma active_ids_iff: "c \<in> active_ids s \<longleftrightarrow> jm_get (or_active_calls s) c \<noteq> None"
  by (simp add: active_ids_def jm_keys_iff)

lemma waiting_ids_same: "sy_answering T = sy_answering S \<Longrightarrow> waiting_ids T = waiting_ids S"
  by (simp add: waiting_ids_def)

subsection \<open>Each step keeps the invariant\<close>

text \<open>A new call is tracked under an identifier nothing waits for.\<close>

lemma inv_track:
  assumes inv: "orch_inv S" and a: "call_ok c a" "jm_ok p"
    and A: "jm_ok A" "\<And>k. jm_get A k = (if k = c then Some a else jm_get (or_active_calls (sy_state S)) k)"
    and fresh: "c \<notin> waiting_ids S"
    and U: "set (sy_used S) \<subseteq> set U" "c \<in> set U"
    and W: "fst ` set W \<subseteq> setup_ids S - {c}" "distinct (map fst W)"
  shows "orch_inv (S\<lparr> sy_state := (sy_state S)\<lparr> or_active_calls := A,
      or_session_to_call := jm_set c c (or_session_to_call (sy_state S)), or_provider_call_to_internal := p \<rparr>,
      sy_used := U, sy_setup := W \<rparr>)" (is "orch_inv ?T")
proof -
  have m: "maps_ok (sy_state S)" and u: "used_ok S" and w: "answering_ok S" using inv by (auto simp: orch_inv_def)
  have "active_ids (sy_state ?T) = insert c (active_ids (sy_state S))"
    by (auto simp: active_ids_iff A(2) split: if_splits)
  moreover have "setup_ids ?T = fst ` set W" "waiting_ids ?T = waiting_ids S" by (simp_all add: setup_ids_def waiting_ids_def)
  ultimately have "used_ok ?T" using u U W unfolding used_ok_def by simp blast
  moreover have "maps_ok (sy_state ?T)" using maps_ok_track [OF m a A] by simp
  moreover have "answering_ok ?T"
    by (rule answering_ok_keep [OF w]) (use fresh A(2) in \<open>auto split: if_splits\<close>)
  ultimately show ?thesis by (simp add: orch_inv_def)
qed

text \<open>A step that adds no call, keeps the waiting list and the answered calls as they are.\<close>

lemma inv_smaller:
  assumes "orch_inv S" "maps_ok t"
    "\<And>c a. jm_get (or_active_calls t) c = Some a \<Longrightarrow> \<exists>a0. jm_get (or_active_calls (sy_state S)) c = Some a0 \<and> keeps_answer a0 a"
  shows "orch_inv (S\<lparr> sy_state := t \<rparr>)" (is "orch_inv ?T")
proof -
  have "active_ids (sy_state ?T) \<subseteq> active_ids (sy_state S)" using assms(3) by (fastforce simp: active_ids_iff)
  moreover have "setup_ids ?T = setup_ids S" "waiting_ids ?T = waiting_ids S" by (simp_all add: setup_ids_def waiting_ids_def)
  ultimately have "used_ok ?T" using assms(1) unfolding orch_inv_def used_ok_def by auto
  moreover have "answering_ok ?T"
    by (rule answering_ok_keep [of S]) (use assms in \<open>auto simp: orch_inv_def\<close>)
  ultimately show ?thesis using assms(2) by (simp add: orch_inv_def)
qed

lemma inv_end:
  assumes "orch_inv S"
  shows "orch_inv (S\<lparr> sy_state := fst (end_call req trigger now (sy_state S)) \<rparr>)"
proof -
  have m: "maps_ok (sy_state S)" using assms by (simp add: orch_inv_def)
  show ?thesis
  proof (rule end_call_cases [OF m, of req trigger now])
    fix call
    assume c: "end_call req trigger now (sy_state S) = (untrack call (sy_state S), end_effects trigger now call)"
      "jm_get (or_active_calls (sy_state S)) (resolve_to_call_id req (sy_state S)) = Some call"
      "call_ok (resolve_to_call_id req (sy_state S)) call"
    show ?thesis unfolding c(1) fst_conv
      by (rule inv_smaller [OF assms maps_ok_untrack [OF m c(3,2)]]) (auto split: if_splits)
  qed (use assms in simp)
qed

lemma inv_more_used:
  assumes "orch_inv S" "set (sy_used S) \<subseteq> set U"
  shows "orch_inv (S\<lparr> sy_used := U \<rparr>)"
  using assms by (auto simp: orch_inv_def used_ok_def answering_ok_def setup_ids_def waiting_ids_def)

lemma inv_less_setup:
  assumes "orch_inv S" "fst ` set W \<subseteq> setup_ids S" "distinct (map fst W)"
  shows "orch_inv (S\<lparr> sy_setup := W \<rparr>)" (is "orch_inv ?T")
proof -
  have "setup_ids ?T = fst ` set W" "waiting_ids ?T = waiting_ids S" by (simp_all add: setup_ids_def waiting_ids_def)
  then have "used_ok ?T" using assms unfolding orch_inv_def used_ok_def by auto
  then show ?thesis using assms(1) by (simp add: orch_inv_def answering_ok_def)
qed

lemma inv_same_calls:
  assumes "orch_inv S" "maps_ok t" "or_active_calls t = or_active_calls (sy_state S)"
  shows "orch_inv (S\<lparr> sy_state := t \<rparr>)"
  by (rule inv_smaller [OF assms(1,2)]) (simp add: assms(3))

lemma arm_tracked:
  "arm_watchdog c n (s\<lparr> or_active_calls := m, or_session_to_call := x, or_provider_call_to_internal := y \<rparr>) =
     s\<lparr> or_active_calls := jm_modify c (\<lambda>a. a\<lparr> ac_watchdog := Some n \<rparr>) m, or_session_to_call := x, or_provider_call_to_internal := y \<rparr>"
  "arm_watchdog c n (s\<lparr> or_active_calls := m, or_session_to_call := x \<rparr>) =
     s\<lparr> or_active_calls := jm_modify c (\<lambda>a. a\<lparr> ac_watchdog := Some n \<rparr>) m, or_session_to_call := x,
         or_provider_call_to_internal := or_provider_call_to_internal s \<rparr>"
  by (cases s, simp add: arm_watchdog_def)+

lemma initiate_outbound_cases:
  assumes "initiate_outbound sip_tls number c session made patched now device from to s = (res, t, eff)"
  shows "t = s \<or> (\<exists>pid entry provider info. t = track_outbound c pid entry provider info device from to now s)"
  using assms by (auto simp: initiate_outbound_def Let_def split: sum.splits session_result.splits prod.splits)

lemma inv_outbound:
  assumes inv: "orch_inv S" and c: "c \<notin> set (sy_used S)"
    and o: "initiate_outbound sip_tls number c session made patched now device from to (sy_state S) = (res, t, eff)"
  shows "orch_inv (S\<lparr> sy_state := t, sy_used := c # sy_used S \<rparr>)"
  using initiate_outbound_cases [OF o]
proof
  assume "t = sy_state S"
  then show ?thesis using inv_more_used [OF inv, of "c # sy_used S"] by auto
next
  have u: "used_ok S" and m: "maps_ok (sy_state S)" using inv by (auto simp: orch_inv_def)
  assume "\<exists>pid entry provider info. t = track_outbound c pid entry provider info device from to now (sy_state S)"
  then obtain pid entry provider info where t: "t = track_outbound c pid entry provider info device from to now (sy_state S)" by blast
  let ?call = "\<lparr> ac_call_id = c, ac_session_id = c, ac_provider_call_id = pid, ac_provider = provider,
            ac_provider_entry_id = pe_id entry, ac_from = from, ac_to = to, ac_direction = Outbound,
            ac_answered = False, ac_answered_by_device = Some device, ac_started_at = now, ac_answered_at = None,
            ac_ended = False, ac_audio_ws_url = Some (si_audio_ws_url info), ac_watchdog = Some UNANSWERED_WATCHDOG_MS \<rparr>"
  have ok: "call_ok c ?call" by (simp add: call_ok_def)
  let ?p = "jm_set pid c (or_provider_call_to_internal (sy_state S))"
  let ?A = "jm_modify c (\<lambda>a. a\<lparr> ac_watchdog := Some UNANSWERED_WATCHDOG_MS \<rparr>)
    (jm_set c (?call\<lparr> ac_watchdog := None \<rparr>) (or_active_calls (sy_state S)))"
  have p: "jm_ok ?p" and A: "jm_ok ?A" "\<And>k. jm_get ?A k = (if k = c then Some ?call else jm_get (or_active_calls (sy_state S)) k)"
    using m by (simp_all add: maps_ok_def)
  have f: "c \<notin> waiting_ids S" "c \<notin> setup_ids S" "distinct (map fst (sy_setup S))" using u c by (auto simp: used_ok_def)
  then have "orch_inv (S\<lparr> sy_state := (sy_state S)\<lparr> or_active_calls := ?A,
      or_session_to_call := jm_set c c (or_session_to_call (sy_state S)), or_provider_call_to_internal := ?p \<rparr>,
      sy_used := c # sy_used S, sy_setup := sy_setup S \<rparr>)"
    by (intro inv_track [OF inv ok p A]) (auto simp: setup_ids_def)
  then show ?thesis unfolding t track_outbound_def Let_def arm_tracked by simp
qed

lemma inv_inbound:
  assumes inv: "orch_inv S" and c: "c \<notin> set (sy_used S)" and b: "inbound_begin entry pid c (sy_state S) = (res, t, eff)"
  shows "orch_inv (S\<lparr> sy_state := t, sy_used := c # sy_used S,
    sy_setup := (case res of Inl _ \<Rightarrow> sy_setup S | Inr _ \<Rightarrow> (c, pid) # sy_setup S) \<rparr>)"
proof -
  let ?W = "case res of Inl _ \<Rightarrow> sy_setup S | Inr _ \<Rightarrow> (c, pid) # sy_setup S"
  let ?T = "S\<lparr> sy_state := t, sy_used := c # sy_used S, sy_setup := ?W \<rparr>"
  have u: "used_ok S" and m: "maps_ok (sy_state S)" and w: "answering_ok S" using inv by (auto simp: orch_inv_def)
  have t: "t = sy_state S \<or> t = (sy_state S)\<lparr> or_provider_call_to_internal := jm_set pid c (or_provider_call_to_internal (sy_state S)) \<rparr>"
    using b by (auto simp: inbound_begin_def Let_def split: option.splits)
  then have a: "or_active_calls t = or_active_calls (sy_state S)" and mt: "maps_ok t"
    using m maps_ok_provider [OF m] by (auto simp: maps_ok_def)
  have "active_ids t = active_ids (sy_state S)" using a by (simp add: active_ids_def)
  moreover have "setup_ids ?T = (case res of Inl _ \<Rightarrow> setup_ids S | Inr _ \<Rightarrow> insert c (setup_ids S))" "waiting_ids ?T = waiting_ids S"
    by (auto simp: setup_ids_def waiting_ids_def split: sum.splits)
  moreover have "distinct (map fst ?W)" using u c by (auto simp: used_ok_def setup_ids_def split: sum.splits)
  ultimately have "used_ok ?T" using u c unfolding used_ok_def by (auto split: sum.splits)
  moreover have "answering_ok ?T" using w a by (simp add: answering_ok_def)
  ultimately show ?thesis using mt by (simp add: orch_inv_def)
qed

lemma inv_session:
  assumes inv: "orch_inv S" and c: "(c, pid) \<in> set (sy_setup S)"
    and b: "inbound_session session provider entry_id pid c from to now (sy_state S) = (res, t, eff)"
  shows "orch_inv (S\<lparr> sy_state := t, sy_setup := removeAll (c, pid) (sy_setup S) \<rparr>)"
proof -
  let ?W = "removeAll (c, pid) (sy_setup S)"
  have u: "used_ok S" and m: "maps_ok (sy_state S)" using inv by (auto simp: orch_inv_def)
  have d: "distinct (map fst (sy_setup S))" using u by (simp add: used_ok_def)
  then have W: "distinct (map fst ?W)" by (simp add: distinct_map_filter removeAll_filter_not_eq)
  have "c \<notin> fst ` set ?W" using d c by (force simp: distinct_map inj_on_def)
  then have W': "fst ` set ?W \<subseteq> setup_ids S - {c}" by (auto simp: setup_ids_def)
  have "c \<in> setup_ids S" using c by (auto simp: setup_ids_def intro: rev_image_eqI)
  then have f: "c \<notin> waiting_ids S" "c \<in> set (sy_used S)" using u unfolding used_ok_def by blast+
  show ?thesis
  proof (cases session)
    case (Session info)
    let ?call = "\<lparr> ac_call_id = c, ac_session_id = c, ac_provider_call_id = pid, ac_provider = provider,
                ac_provider_entry_id = entry_id, ac_from = from, ac_to = to, ac_direction = Inbound,
                ac_answered = False, ac_answered_by_device = None, ac_started_at = now, ac_answered_at = None,
                ac_ended = False, ac_audio_ws_url = Some (si_audio_ws_url info), ac_watchdog = Some UNANSWERED_WATCHDOG_MS \<rparr>"
    let ?A = "jm_modify c (\<lambda>a. a\<lparr> ac_watchdog := Some UNANSWERED_WATCHDOG_MS \<rparr>)
      (jm_set c (?call\<lparr> ac_watchdog := None \<rparr>) (or_active_calls (sy_state S)))"
    have ok: "call_ok c ?call" "jm_ok (or_provider_call_to_internal (sy_state S))" using m by (simp_all add: call_ok_def maps_ok_def)
    have A: "jm_ok ?A" "\<And>k. jm_get ?A k = (if k = c then Some ?call else jm_get (or_active_calls (sy_state S)) k)"
      using m by (simp_all add: maps_ok_def)
    have "orch_inv (S\<lparr> sy_state := (sy_state S)\<lparr> or_active_calls := ?A,
        or_session_to_call := jm_set c c (or_session_to_call (sy_state S)),
        or_provider_call_to_internal := or_provider_call_to_internal (sy_state S) \<rparr>, sy_used := sy_used S, sy_setup := ?W \<rparr>)"
      by (rule inv_track [OF inv ok A f(1) order_refl f(2) W' W])
    moreover have "t = (sy_state S)\<lparr> or_active_calls := ?A,
        or_session_to_call := jm_set c c (or_session_to_call (sy_state S)),
        or_provider_call_to_internal := or_provider_call_to_internal (sy_state S) \<rparr>"
      using b unfolding Session inbound_session_def session_result.case Let_def arm_tracked by auto
    ultimately show ?thesis by simp
  next
    have *: "orch_inv (S\<lparr> sy_state := (sy_state S)\<lparr> or_provider_call_to_internal := jm_delete pid (or_provider_call_to_internal (sy_state S)) \<rparr>,
        sy_setup := ?W \<rparr>)"
      using inv_less_setup [OF inv_same_calls [OF inv maps_ok_provider [OF m, of "jm_delete pid (or_provider_call_to_internal (sy_state S))"]], of ?W] W W' m
      by (simp add: maps_ok_def setup_ids_def) blast
    {
      case Session_Unavailable
      then show ?thesis using b * by (simp add: inbound_session_def)
    next
      case (Session_Failed e)
      then show ?thesis using b * by (simp add: inbound_session_def)
    }
  qed
qed

lemma maps_ok_notified: "maps_ok s \<Longrightarrow> maps_ok (inbound_notified n c s)"
  by (auto simp: inbound_notified_def maps_ok_def jm_has_iff split: option.splits)

lemma inv_notified: "orch_inv S \<Longrightarrow> orch_inv (S\<lparr> sy_state := inbound_notified n c (sy_state S), sy_used := U # sy_used S \<rparr>)"
proof -
  assume inv: "orch_inv S"
  have "or_active_calls (inbound_notified n c (sy_state S)) = or_active_calls (sy_state S)"
    by (simp add: inbound_notified_def split: option.splits)
  then have "orch_inv (S\<lparr> sy_state := inbound_notified n c (sy_state S) \<rparr>)"
    using inv_same_calls [OF inv] maps_ok_notified inv by (auto simp: orch_inv_def)
  then show ?thesis using inv_more_used [of "S\<lparr> sy_state := inbound_notified n c (sy_state S) \<rparr>" "U # sy_used S"] by auto
qed

subsection \<open>Answers\<close>

lemma answer_begin_cases:
  assumes "maps_ok s"
  obtains (none) "answer_begin req device now s = (Answered Answer_Not_Found, s, [])" "jm_get (or_active_calls s) (resolve_to_call_id req s) = None"
  | (taken) call where "answer_begin req device now s = (Answered Answer_Already, s, [])"
      "jm_get (or_active_calls s) (resolve_to_call_id req s) = Some call" "ac_answered call"
  | (outbound) call where "answer_begin req device now s = (Answered Answer_Success, set_answered (ac_call_id call) device now s, answer_finish call device)"
      "jm_get (or_active_calls s) (ac_call_id call) = Some call" "ac_call_id call = resolve_to_call_id req s"
      "\<not> ac_answered call" "ac_direction call = Outbound"
  | (inbound) call b eff where "answer_begin req device now s =
        (if b then Wait_Patch call else Wait_Provider call, set_answered (ac_call_id call) device now s, eff)"
      "jm_get (or_active_calls s) (ac_call_id call) = Some call" "ac_call_id call = resolve_to_call_id req s"
      "\<not> ac_answered call" "ac_direction call = Inbound"
proof (cases "jm_get (or_active_calls s) (resolve_to_call_id req s)")
  case None
  then show ?thesis using none by (simp add: answer_begin_def Let_def)
next
  case (Some call)
  then have c: "ac_call_id call = resolve_to_call_id req s" using maps_ok_call [OF assms] by (simp add: call_ok_def)
  consider "ac_answered call" | "\<not> ac_answered call" "ac_direction call = Outbound" | "\<not> ac_answered call" "ac_direction call = Inbound"
    by (cases "ac_direction call") auto
  then show ?thesis
  proof cases
    case 1
    then show ?thesis using taken Some by (simp add: answer_begin_def Let_def)
  next
    case 2
    then show ?thesis using outbound [of call] Some c by (simp add: answer_begin_def Let_def)
  next
    case 3
    then show ?thesis
      using inbound [of "pv_uses_websocket_audio (ac_provider call)" call] Some c
      by (cases "pv_uses_websocket_audio (ac_provider call)") (simp_all add: answer_begin_def Let_def)
  qed
qed

lemma get_set_answered [simp]:
  "jm_get (or_active_calls (set_answered c device now s)) k =
     (if k = c then map_option (\<lambda>a. a\<lparr> ac_answered := True, ac_answered_by_device := Some device,
        ac_answered_at := Some now, ac_watchdog := Some MAX_CALL_DURATION_MS \<rparr>) (jm_get (or_active_calls s) k)
      else jm_get (or_active_calls s) k)"
  by (simp add: set_answered_eq)

lemma active_ids_set_answered [simp]: "active_ids (set_answered c device now s) = active_ids s"
  by (auto simp: active_ids_iff split: if_splits)

lemma inv_set_answered:
  assumes inv: "orch_inv S" and g: "jm_get (or_active_calls (sy_state S)) c = Some call" "\<not> ac_answered call"
  shows "orch_inv (S\<lparr> sy_state := set_answered c device now (sy_state S) \<rparr>)" "c \<notin> waiting_ids S"
proof -
  have w: "answering_ok S" and m: "maps_ok (sy_state S)" using inv by (auto simp: orch_inv_def)
  show "c \<notin> waiting_ids S" using answering_okD(1) [OF w] g by (force simp: waiting_ids_def)
  show "orch_inv (S\<lparr> sy_state := set_answered c device now (sy_state S) \<rparr>)"
    by (rule inv_smaller [OF inv maps_ok_set_answered [OF m]]) (use g in \<open>auto simp: keeps_answer_def split: if_splits\<close>)
qed

text \<open>A new waiting answer of a call that is held by its device.\<close>

lemma inv_wait:
  assumes inv: "orch_inv S" and g: "jm_get (or_active_calls (sy_state S)) (ac_call_id call) = Some a"
    "ac_answered a" "ac_answered_by_device a = Some device" "ac_direction a = Inbound"
    and f: "ac_call_id call \<notin> waiting_ids S"
  shows "orch_inv (S\<lparr> sy_answering := (call, device, b) # sy_answering S \<rparr>)" (is "orch_inv ?T")
proof -
  have u: "used_ok S" and w: "answering_ok S" using inv by (auto simp: orch_inv_def)
  have i: "ac_call_id call \<in> active_ids (sy_state S)" using g by (simp add: active_ids_iff)
  have "waiting_ids ?T = insert (ac_call_id call) (waiting_ids S)" "setup_ids ?T = setup_ids S"
    by (simp_all add: waiting_ids_def setup_ids_def)
  then have "used_ok ?T" using u i unfolding used_ok_def by auto
  moreover have "answering_ok ?T"
    unfolding answering_ok_def
  proof (intro ballI, clarify)
    fix call' device' b' a'
    assume c: "(call', device', b') \<in> set (sy_answering ?T)" "jm_get (or_active_calls (sy_state ?T)) (ac_call_id call') = Some a'"
    have old: "w \<in> set (sy_answering S) \<Longrightarrow> ac_call_id (fst w) \<noteq> ac_call_id call" for w
      using f unfolding waiting_ids_def by (metis image_eqI)
    show "ac_answered a' \<and> ac_answered_by_device a' = Some device' \<and> ac_direction a' = Inbound
        \<and> (\<forall>w \<in> set (sy_answering ?T). ac_call_id (fst w) = ac_call_id call' \<longrightarrow> w = (call', device', b'))"
    proof (cases "(call', device', b') \<in> set (sy_answering S)")
      case True
      have n: "ac_call_id call' \<noteq> ac_call_id call" using old [OF True] by simp
      have c2: "jm_get (or_active_calls (sy_state S)) (ac_call_id call') = Some a'" using c(2) by simp
      have "x = (call', device', b')" if "x \<in> set (sy_answering ?T)" "ac_call_id (fst x) = ac_call_id call'" for x
        using that n answering_okD(4) [OF w True c2, of x] by (cases "x = (call, device, b)") auto
      then show ?thesis using answering_okD(1-3) [OF w True c2] by blast
    next
      case False
      then have e: "call' = call" "device' = device" "b' = b" using c(1) by auto
      then have "a' = a" using c(2) g(1) by simp
      moreover have "x = (call, device, b)" if "x \<in> set (sy_answering ?T)" "ac_call_id (fst x) = ac_call_id call" for x
        using that old [of x] by auto
      ultimately show ?thesis using g(2-4) e by blast
    qed
  qed
  ultimately show ?thesis using inv by (simp add: orch_inv_def)
qed

text \<open>An answer may go on waiting for a call that has ended meanwhile.\<close>

lemma inv_wait_dead:
  assumes inv: "orch_inv S" and n: "jm_get (or_active_calls (sy_state S)) (ac_call_id call) = None"
    and u: "ac_call_id call \<in> set (sy_used S)" "ac_call_id call \<notin> setup_ids S"
  shows "orch_inv (S\<lparr> sy_answering := (call, device, b) # sy_answering S \<rparr>)" (is "orch_inv ?T")
proof -
  have "waiting_ids ?T = insert (ac_call_id call) (waiting_ids S)" "setup_ids ?T = setup_ids S"
    by (simp_all add: waiting_ids_def setup_ids_def)
  then have "used_ok ?T" using inv u unfolding orch_inv_def used_ok_def by auto
  moreover have "answering_ok ?T"
    unfolding answering_ok_def
  proof (intro ballI, clarify)
    have w: "answering_ok S" using inv by (simp add: orch_inv_def)
    fix call' device' b' a'
    assume c: "(call', device', b') \<in> set (sy_answering ?T)" "jm_get (or_active_calls (sy_state ?T)) (ac_call_id call') = Some a'"
    then have d: "ac_call_id call' \<noteq> ac_call_id call" using n by auto
    then have c': "(call', device', b') \<in> set (sy_answering S)" "jm_get (or_active_calls (sy_state S)) (ac_call_id call') = Some a'"
      using c by auto
    have "x = (call', device', b')" if "x \<in> set (sy_answering ?T)" "ac_call_id (fst x) = ac_call_id call'" for x
      using that d answering_okD(4) [OF w c', of x] by (cases "x = (call, device, b)") auto
    then show "ac_answered a' \<and> ac_answered_by_device a' = Some device' \<and> ac_direction a' = Inbound
        \<and> (\<forall>w \<in> set (sy_answering ?T). ac_call_id (fst w) = ac_call_id call' \<longrightarrow> w = (call', device', b'))"
      using answering_okD(1-3) [OF w c'] by blast
  qed
  ultimately show ?thesis using inv by (simp add: orch_inv_def)
qed

lemma inv_answer:
  assumes inv: "orch_inv S" and a: "answer_begin req device now (sy_state S) = (p, t, eff)"
  shows "orch_inv (S\<lparr> sy_state := t, sy_answering := still_waiting p device (sy_answering S) \<rparr>)"
proof -
  have m: "maps_ok (sy_state S)" using inv by (simp add: orch_inv_def)
  show ?thesis
  proof (cases rule: answer_begin_cases [OF m, of req device now])
    case (3 call)
    then show ?thesis using inv_set_answered(1) [OF inv 3(2,4)] a by (auto simp: still_waiting_def)
  next
    case (4 call b eff')
    let ?S = "S\<lparr> sy_state := set_answered (ac_call_id call) device now (sy_state S) \<rparr>"
    note i = inv_set_answered [OF inv 4(2,4)]
    have "ac_call_id call \<notin> waiting_ids ?S" using i(2) by (simp add: waiting_ids_def)
    then have "orch_inv (?S\<lparr> sy_answering := (call, device, b) # sy_answering ?S \<rparr>)"
      by (intro inv_wait [OF i(1), where a = "call\<lparr> ac_answered := True, ac_answered_by_device := Some device,
        ac_answered_at := Some now, ac_watchdog := Some MAX_CALL_DURATION_MS \<rparr>"]) (use 4 in auto)
    then show ?thesis using a 4(1) by (cases b) (auto simp: still_waiting_def)
  qed (use a inv in \<open>auto simp: still_waiting_def\<close>)
qed

text \<open>A waiting answer that succeeds in preparing the session goes on to wait for the provider.\<close>

lemma inv_unwait:
  assumes "orch_inv S" "set ws \<subseteq> set (sy_answering S)"
  shows "orch_inv (S\<lparr> sy_answering := ws \<rparr>)" (is "orch_inv ?T")
proof -
  have "waiting_ids ?T \<subseteq> waiting_ids S" using assms(2) by (auto simp: waiting_ids_def)
  moreover have "setup_ids ?T = setup_ids S" by (simp add: setup_ids_def)
  ultimately have "used_ok ?T" using assms(1) unfolding orch_inv_def used_ok_def by auto
  moreover have "answering_ok ?T"
  proof -
    have w: "answering_ok S" using assms(1) by (simp add: orch_inv_def)
    show ?thesis unfolding answering_ok_def
    proof (intro ballI, clarify)
      fix call device b a
      assume c: "(call, device, b) \<in> set (sy_answering ?T)" "jm_get (or_active_calls (sy_state ?T)) (ac_call_id call) = Some a"
      then have c': "(call, device, b) \<in> set (sy_answering S)" "jm_get (or_active_calls (sy_state S)) (ac_call_id call) = Some a"
        using assms(2) by auto
      have "x = (call, device, b)" if "x \<in> set (sy_answering ?T)" "ac_call_id (fst x) = ac_call_id call" for x
        using that assms(2) answering_okD(4) [OF w c', of x] by auto
      then show "ac_answered a \<and> ac_answered_by_device a = Some device \<and> ac_direction a = Inbound
          \<and> (\<forall>w \<in> set (sy_answering ?T). ac_call_id (fst w) = ac_call_id call \<longrightarrow> w = (call, device, b))"
        using answering_okD(1-3) [OF w c'] by blast
    qed
  qed
  ultimately show ?thesis using assms(1) by (simp add: orch_inv_def)
qed

lemma get_unset_answered [simp]:
  "jm_get (or_active_calls (unset_answered c s)) k =
     (if k = c then map_option (\<lambda>a. a\<lparr> ac_answered := False, ac_answered_by_device := None, ac_answered_at := None \<rparr>)
        (jm_get (or_active_calls s) k) else jm_get (or_active_calls s) k)"
  by (simp add: unset_answered_def)

text \<open>A failed answer gives the call back; its entry leaves the waiting list.\<close>

lemma inv_failed:
  assumes inv: "orch_inv S" and c: "(call, device, b) \<in> set (sy_answering S)"
  shows "orch_inv (S\<lparr> sy_state := unset_answered (ac_call_id call) (sy_state S),
    sy_answering := removeAll (call, device, b) (sy_answering S) \<rparr>)" (is "orch_inv ?T")
proof -
  let ?ws = "removeAll (call, device, b) (sy_answering S)" and ?t = "unset_answered (ac_call_id call) (sy_state S)"
  have w: "answering_ok S" and m: "maps_ok (sy_state S)" using inv by (auto simp: orch_inv_def)
  show ?thesis
  proof (cases "jm_get (or_active_calls (sy_state S)) (ac_call_id call)")
    case None
    then have "?t = sy_state S" by (simp add: unset_answered_def jm_modify_absent)
    then show ?thesis using inv_unwait [OF inv, of ?ws] by simp
  next
    case (Some a)
    have d: "ac_direction a = Inbound" using answering_okD(3) [OF w c Some] .
    let ?S = "S\<lparr> sy_answering := ?ws \<rparr>"
    have i: "orch_inv ?S" by (rule inv_unwait [OF inv]) simp
    have "ac_call_id call \<notin> waiting_ids ?S"
      using answering_okD(4) [OF w c Some] by (force simp: waiting_ids_def)
    moreover have "maps_ok ?t"
    proof -
      have "call_ok (ac_call_id call) (a\<lparr> ac_answered := False, ac_answered_by_device := None, ac_answered_at := None \<rparr>)"
        using maps_ok_call [OF m Some] d by (auto simp: call_ok_def)
      then have "\<forall>k x. jm_get (or_active_calls ?t) k = Some x \<longrightarrow> call_ok k x"
        using maps_ok_call [OF m] Some by (auto split: if_splits)
      then show ?thesis using m by (auto simp: maps_ok_def unset_answered_def split: if_splits)
    qed
    ultimately have "orch_inv (?S\<lparr> sy_state := ?t \<rparr>)"
    proof -
      assume n: "ac_call_id call \<notin> waiting_ids ?S" and mt: "maps_ok ?t"
      have a: "active_ids ?t = active_ids (sy_state S)" by (auto simp: active_ids_iff split: if_splits)
      have "used_ok (?S\<lparr> sy_state := ?t \<rparr>)"
        using i a by (simp add: orch_inv_def used_ok_def setup_ids_def waiting_ids_def)
      moreover have "answering_ok (?S\<lparr> sy_state := ?t \<rparr>)"
        by (rule answering_ok_keep [of ?S]) (use i n in \<open>auto simp: orch_inv_def split: if_splits\<close>)
      ultimately show ?thesis using mt by (simp add: orch_inv_def)
    qed
    then show ?thesis by (cases S) simp
  qed
qed

lemma inv_patched:
  assumes inv: "orch_inv S" and c: "(call, device, b) \<in> set (sy_answering S)" and b: "b"
    and a: "answer_patched succeeded call device (sy_state S) = (p, t, eff)"
  shows "orch_inv (S\<lparr> sy_state := t, sy_answering := still_waiting p device (removeAll (call, device, b) (sy_answering S)) \<rparr>)"
proof (cases succeeded)
  case False
  then show ?thesis using a inv_failed [OF inv c] by (auto simp: answer_patched_def still_waiting_def)
next
  case True
  let ?S = "S\<lparr> sy_answering := removeAll (call, device, b) (sy_answering S) \<rparr>"
  have w: "answering_ok S" using inv by (simp add: orch_inv_def)
  have i: "orch_inv ?S" by (rule inv_unwait [OF inv]) simp
  have e: "p = Wait_Provider call" "t = sy_state S" using True a by (auto simp: answer_patched_def)
  have "orch_inv (?S\<lparr> sy_answering := (call, device, False) # sy_answering ?S \<rparr>)"
  proof (cases "jm_get (or_active_calls (sy_state S)) (ac_call_id call)")
    case (Some a)
    have "ac_call_id call \<notin> waiting_ids ?S"
      using answering_okD(4) [OF w c Some] by (force simp: waiting_ids_def)
    then show ?thesis
      by (intro inv_wait [OF i, where a = a]) (use Some answering_okD(1-3) [OF w c Some] in auto)
  next
    case None
    have "ac_call_id call \<in> waiting_ids S" using c by (force simp: waiting_ids_def)
    then have "ac_call_id call \<in> set (sy_used S)" "ac_call_id call \<notin> setup_ids S"
      using inv unfolding orch_inv_def used_ok_def by blast+
    then show ?thesis using None inv_wait_dead [OF i, of call device False] by (simp add: setup_ids_def)
  qed
  then show ?thesis using e by (simp add: still_waiting_def)
qed

lemma inv_provided:
  assumes inv: "orch_inv S" and c: "(call, device, b) \<in> set (sy_answering S)"
    and a: "answer_provided succeeded call device (sy_state S) = (p, t, eff)"
  shows "orch_inv (S\<lparr> sy_state := t, sy_answering := still_waiting p device (removeAll (call, device, b) (sy_answering S)) \<rparr>)"
proof (cases succeeded)
  case False
  then show ?thesis using a inv_failed [OF inv c] by (auto simp: answer_provided_def still_waiting_def)
next
  case True
  have "orch_inv (S\<lparr> sy_answering := removeAll (call, device, b) (sy_answering S) \<rparr>)" by (rule inv_unwait [OF inv]) simp
  then show ?thesis using True a by (auto simp: answer_provided_def still_waiting_def)
qed

subsection \<open>Media events\<close>

lemma provider_connected_get:
  "jm_get (or_active_calls (provider_connected call now s)) k =
     (if k = ac_call_id call \<and> \<not> ac_answered call \<and> ac_direction call = Outbound
      then map_option (\<lambda>a. a\<lparr> ac_answered := True, ac_answered_at := Some now, ac_watchdog := Some MAX_CALL_DURATION_MS \<rparr>)
        (jm_get (or_active_calls s) k)
      else jm_get (or_active_calls s) k)"
  by (auto simp: provider_connected_def option.map_comp comp_def)

lemma inv_provider_connected:
  assumes inv: "orch_inv S" and g: "jm_get (or_active_calls (sy_state S)) c = Some call"
  shows "orch_inv (S\<lparr> sy_state := provider_connected call now (sy_state S) \<rparr>)"
proof (rule inv_smaller [OF inv])
  have m: "maps_ok (sy_state S)" using inv by (simp add: orch_inv_def)
  have c: "call_ok c call" using maps_ok_call [OF m g] .
  show "maps_ok (provider_connected call now (sy_state S))"
  proof (cases "\<not> ac_answered call \<and> ac_direction call = Outbound")
    case True
    then have t: "provider_connected call now (sy_state S) = (sy_state S)\<lparr> or_active_calls := jm_modify c
        (\<lambda>a. a\<lparr> ac_answered := True, ac_answered_at := Some now, ac_watchdog := Some MAX_CALL_DURATION_MS \<rparr>)
        (or_active_calls (sy_state S)) \<rparr>"
      using c by (simp add: provider_connected_def arm_watchdog_modify call_ok_def)
    show ?thesis unfolding t by (rule maps_ok_modify [OF m]) (use True g in \<open>auto simp: call_ok_def\<close>)
  next
    case False
    then show ?thesis using m by (auto simp: provider_connected_def)
  qed
  show "\<exists>a0. jm_get (or_active_calls (sy_state S)) k = Some a0 \<and> keeps_answer a0 a"
    if "jm_get (or_active_calls (provider_connected call now (sy_state S))) k = Some a" for k a
    using that by (auto simp: provider_connected_get keeps_answer_def split: if_splits)
qed

lemma inv_media: "orch_inv S \<Longrightarrow> orch_inv (S\<lparr> sy_state := fst (handle_media_event x e now (sy_state S)) \<rparr>)"
  by (auto simp: handle_media_event_def inv_end inv_provider_connected split: option.splits media_event.splits)

lemma inv_watchdog: "orch_inv S \<Longrightarrow> orch_inv (S\<lparr> sy_state := fst (watchdog_fires c now (sy_state S)) \<rparr>)"
  using watchdog_cases [of c now "sy_state S"] inv_end [of S c "Some ''watchdog_timeout''" now] by auto

lemma fst_state: "orch_inv (S\<lparr> sy_state := fst p \<rparr>) \<Longrightarrow> p = (t, eff) \<Longrightarrow> orch_inv (S\<lparr> sy_state := t \<rparr>)"
  by simp

interpretation orch: invariant_system orch_init orch_step orch_inv
proof
  show "orch_inv S" if "orch_init S" for S
    using that by (simp add: orch_init_def orch_inv_def maps_ok_def new_orchestrator_def used_ok_def answering_ok_def
        active_ids_def setup_ids_def waiting_ids_def jm_keys_def)
  show "orch_inv T" if "orch_inv S" "orch_step S e T" for S e T
    using that(2,1)
    by cases (auto simp: inv_outbound inv_inbound inv_session inv_notified inv_answer inv_patched inv_provided
        intro: inv_end [THEN fst_state] inv_watchdog [THEN fst_state] inv_media [THEN fst_state])
qed

end
