(* ===== verification/Orchestrator_Props.thy ===== *)
theory Orchestrator_Props
  imports Orchestrator_System
begin

text \<open>
  What the call orchestrator promises: the identifiers of a call, one answer per call, the
  outcome written to the history, the watchdog, and the operations over all calls; and the
  interleavings in which a promise of the source's comments does not hold.
\<close>

section \<open>One answer per call\<close>

text \<open>
  An operation by which devices claim an object: it succeeds only on an object no one
  holds, and a success makes the device its holder.
\<close>

locale exclusive_claim =
  fixes ok :: "'s \<Rightarrow> bool"
    and claim :: "'i \<Rightarrow> 'd \<Rightarrow> 's \<Rightarrow> bool \<times> 's"
    and target :: "'i \<Rightarrow> 's \<Rightarrow> 'c"
    and held :: "'c \<Rightarrow> 's \<Rightarrow> bool"
  assumes claim_ok: "ok s \<Longrightarrow> ok (snd (claim i d s))"
    and claim_holds: "ok s \<Longrightarrow> fst (claim i d s) \<Longrightarrow> \<not> held (target i s) s \<and> held (target i s) (snd (claim i d s))"
    and claim_keeps: "ok s \<Longrightarrow> held c s \<Longrightarrow> held c (snd (claim i d s))"
    and claim_refused: "ok s \<Longrightarrow> \<not> fst (claim i d s) \<Longrightarrow> snd (claim i d s) = s"
begin

fun claims :: "('i \<times> 'd) list \<Rightarrow> 's \<Rightarrow> ('c \<times> 'd) list \<times> 's" where
  "claims [] s = ([], s)"
| "claims ((i, d) # xs) s =
     (case claim i d s of (won, s') \<Rightarrow>
      (case claims xs s' of (ws, s'') \<Rightarrow> (if won then (target i s, d) # ws else ws, s'')))"

lemma claims_held: "ok s \<Longrightarrow> held c s \<Longrightarrow> c \<notin> fst ` set (fst (claims xs s)) \<and> held c (snd (claims xs s)) \<and> ok (snd (claims xs s))"
proof (induction xs arbitrary: s)
  case (Cons x xs)
  obtain i d where x: "x = (i, d)" by (cases x)
  have "held c (snd (claim i d s))" "ok (snd (claim i d s))" using Cons.prems claim_keeps claim_ok by auto
  from Cons.IH [OF this(2,1)] show ?case using Cons.prems claim_holds [of s i d] x by (auto split: prod.splits)
qed simp

text \<open>However many devices claim, at most one wins each object.\<close>

lemma claims_distinct: "ok s \<Longrightarrow> distinct (map fst (fst (claims xs s)))"
proof (induction xs arbitrary: s)
  case (Cons x xs)
  obtain i d where x: "x = (i, d)" by (cases x)
  have k: "ok (snd (claim i d s))" using Cons.prems claim_ok by blast
  obtain won s' ws s'' where e: "claim i d s = (won, s')" "claims xs s' = (ws, s'')" by fastforce
  have "target i s \<notin> set (map fst ws)" if "won"
    using claims_held [OF k, of "target i s" xs] claim_holds [OF Cons.prems, of i d] that e by simp
  then show ?case using Cons.IH [OF k] x e by simp
qed simp

end

text \<open>The first segment of \<^verbatim>\<open>answerCall\<close> as such a claim, at a given time.\<close>

definition answer_claim :: "int \<Rightarrow> string \<Rightarrow> string \<Rightarrow> orchestrator \<Rightarrow> bool \<times> orchestrator" where
  "answer_claim now req device s =
     (case answer_begin req device now s of
        (Answered Answer_Not_Found, t, _) \<Rightarrow> (False, t)
      | (Answered Answer_Already, t, _) \<Rightarrow> (False, t)
      | (_, t, _) \<Rightarrow> (True, t))"

definition call_answered :: "string \<Rightarrow> orchestrator \<Rightarrow> bool" where
  "call_answered c s \<longleftrightarrow> (case jm_get (or_active_calls s) c of None \<Rightarrow> False | Some a \<Rightarrow> ac_answered a)"

lemma answer_claim_cases:
  assumes "maps_ok s"
  obtains "answer_claim now req device s = (False, s)"
      "\<And>a. jm_get (or_active_calls s) (resolve_to_call_id req s) = Some a \<Longrightarrow> ac_answered a"
  | a where "answer_claim now req device s = (True, set_answered (resolve_to_call_id req s) device now s)"
      "jm_get (or_active_calls s) (resolve_to_call_id req s) = Some a" "\<not> ac_answered a"
proof (cases rule: answer_begin_cases [OF assms, of req device now])
  case 1
  then show ?thesis using that(1) by (simp add: answer_claim_def)
next
  case (2 a)
  then show ?thesis using that(1) by (simp add: answer_claim_def)
next
  case (3 a)
  then show ?thesis using that(2) by (simp add: answer_claim_def)
next
  case (4 a b eff)
  then show ?thesis using that(2) by (cases b) (simp_all add: answer_claim_def)
qed

interpretation answers: exclusive_claim maps_ok "answer_claim now" resolve_to_call_id call_answered for now
proof
  fix s i d c
  assume m: "maps_ok s"
  show "maps_ok (snd (answer_claim now i d s))"
    by (rule answer_claim_cases [OF m, of now i d]) (use m maps_ok_set_answered in auto)
  show "fst (answer_claim now i d s) \<Longrightarrow> \<not> call_answered (resolve_to_call_id i s) s
      \<and> call_answered (resolve_to_call_id i s) (snd (answer_claim now i d s))"
    by (rule answer_claim_cases [OF m, of now i d]) (auto simp: call_answered_def)
  show "call_answered c s \<Longrightarrow> call_answered c (snd (answer_claim now i d s))"
    by (rule answer_claim_cases [OF m, of now i d]) (auto simp: call_answered_def split: option.splits)
  show "\<not> fst (answer_claim now i d s) \<Longrightarrow> snd (answer_claim now i d s) = s"
    by (rule answer_claim_cases [OF m, of now i d]) auto
qed

section \<open>Ending many calls\<close>

lemma end_call_active:
  assumes "maps_ok s" "c \<in> active_ids s"
  obtains call where "end_call c trigger now s = (untrack call s, end_effects trigger now call)"
    "jm_get (or_active_calls s) c = Some call" "ac_call_id call = c" "maps_ok (untrack call s)"
    "active_ids (untrack call s) = active_ids s - {c}"
proof -
  obtain call where g: "jm_get (or_active_calls s) c = Some call" using assms(2) by (auto simp: active_ids_iff)
  have r: "resolve_to_call_id c s = c" using g by simp
  have k: "call_ok c call" using maps_ok_call [OF assms(1) g] .
  then have c: "ac_call_id call = c" by (simp add: call_ok_def)
  then have "active_ids (untrack call s) = active_ids s - {c}" by (auto simp: active_ids_iff split: if_splits)
  then show ?thesis
    using that [of call] end_call_some [OF assms(1), of c call] g r c maps_ok_untrack [OF assms(1) k g] by simp
qed

lemma end_calls_correct:
  assumes "maps_ok s" "distinct (map fst cs)" "fst ` set cs \<subseteq> active_ids s"
  shows "maps_ok (fst (end_calls cs now s)) \<and> active_ids (fst (end_calls cs now s)) = active_ids s - fst ` set cs
    \<and> (\<forall>k. k \<notin> fst ` set cs \<longrightarrow> jm_get (or_active_calls (fst (end_calls cs now s))) k = jm_get (or_active_calls s) k)
    \<and> snd (end_calls cs now s) = concat (map (\<lambda>(c, trigger). end_effects trigger now (the (jm_get (or_active_calls s) c))) cs)"
  using assms
proof (induction cs arbitrary: s)
  case (Cons x cs)
  obtain c trigger where x: "x = (c, trigger)" by (cases x)
  have "c \<in> active_ids s" using Cons.prems x by simp
  then obtain call where call: "end_call c trigger now s = (untrack call s, end_effects trigger now call)"
    "jm_get (or_active_calls s) c = Some call" "ac_call_id call = c" "maps_ok (untrack call s)"
    "active_ids (untrack call s) = active_ids s - {c}"
    using end_call_active [OF Cons.prems(1)] by blast
  have d: "distinct (map fst cs)" "fst ` set cs \<subseteq> active_ids (untrack call s)"
    using Cons.prems x call(5) by auto
  have e: "map (\<lambda>(c, trigger). end_effects trigger now (the (jm_get (or_active_calls (untrack call s)) c))) cs
      = map (\<lambda>(c, trigger). end_effects trigger now (the (jm_get (or_active_calls s) c))) cs"
    using Cons.prems(2) x call(3) by (auto simp: image_iff)
  obtain t eff where f: "end_calls cs now (untrack call s) = (t, eff)" by fastforce
  note ih = Cons.IH [OF call(4) d, unfolded e f fst_conv snd_conv]
  have r: "end_calls (x # cs) now s = (t, end_effects trigger now call @ eff)" using call(1) f x by simp
  have g: "jm_get (or_active_calls t) k = jm_get (or_active_calls s) k" if "k \<notin> fst ` set (x # cs)" for k
    using that ih call(3) x by simp
  have a: "active_ids t = active_ids s - fst ` set (x # cs)" using ih call(5) x by auto
  show ?case unfolding r fst_conv snd_conv using ih g a call(2) x by simp
qed simp

lemma jm_empty_iff: "(\<forall>k. jm_get m k = None) \<longleftrightarrow> m = []"
proof
  assume "\<forall>k. jm_get m k = None"
  then show "m = []" by (cases m) (auto simp: jm_get_def split: if_splits)
qed simp

lemma active_values: "jm_ok (or_active_calls s) \<Longrightarrow> (c, a) \<in> set (or_active_calls s) \<longleftrightarrow> jm_get (or_active_calls s) c = Some a"
  by (rule jm_get_mem)

end
