(* ===== verification/Call_Lifecycle.thy ===== *)
theory Call_Lifecycle
  imports Orchestrator_Props
begin

text \<open>
  The properties of the call orchestrator over its reachable states: identifiers, setup and
  its failures, the answer, the end of a call and what it writes, the watchdog, and the
  operations over all calls.
\<close>

section \<open>Sample states\<close>

text \<open>A provider of the SIP kind, a call that rings, and the same call after its answer.\<close>

definition sample_provider :: provider where
  "sample_provider = \<lparr> pv_provider_id = ''pv'', pv_uses_websocket_audio = False, pv_supports_sips = Some True \<rparr>"

definition sample_entry :: provider_entry where
  "sample_entry = \<lparr> pe_id = ''e1'', pe_type = ''telnyx'', pe_instance = Some sample_provider \<rparr>"

definition sample_session :: session_info where
  "sample_session = \<lparr> si_sip_uri = [], si_sips_uri = None, si_audio_ws_url = [] \<rparr>"

definition sample_call :: active_call where
  "sample_call = \<lparr> ac_call_id = ''c1'', ac_session_id = ''c1'', ac_provider_call_id = ''p1'', ac_provider = sample_provider,
     ac_provider_entry_id = ''e1'', ac_from = ''+4670'', ac_to = ''+4680'', ac_direction = Inbound, ac_answered = False,
     ac_answered_by_device = None, ac_started_at = 1000, ac_answered_at = None, ac_ended = False,
     ac_audio_ws_url = Some [], ac_watchdog = Some 90000 \<rparr>"

definition sample_answered :: active_call where
  "sample_answered = sample_call\<lparr> ac_answered := True, ac_answered_by_device := Some ''d1'', ac_answered_at := Some 5000,
     ac_watchdog := Some 14400000 \<rparr>"

definition sample_state :: "active_call \<Rightarrow> orchestrator" where
  "sample_state call = \<lparr> or_active_calls = [(''c1'', call)], or_session_to_call = [(''c1'', ''c1'')],
     or_provider_call_to_internal = [(''p1'', ''c1'')], or_notification_to_call = [(''n1'', ''c1'')] \<rparr>"

definition ringing_system :: orch_system where
  "ringing_system = \<lparr> sy_state = sample_state sample_call, sy_used = [''n1'', ''c1''], sy_setup = [], sy_answering = [] \<rparr>"

definition answering_system :: orch_system where
  "answering_system = \<lparr> sy_state = sample_state sample_answered, sy_used = [''n1'', ''c1''], sy_setup = [],
     sy_answering = [(sample_call, ''d1'', False)] \<rparr>"

lemmas sample_defs = sample_provider_def sample_entry_def sample_session_def sample_call_def sample_answered_def
  sample_state_def ringing_system_def answering_system_def

lemmas jmap_eval = jm_get_def jm_has_def jm_set_def jm_delete_def jm_modify_def jm_filter_def jm_keys_def

lemmas orch_consts = UNANSWERED_WATCHDOG_MS_def MAX_CALL_DURATION_MS_def

lemma ringing_reachable: "reach orch_init orch_step ringing_system"
proof -
  let ?s0 = "\<lparr> sy_state = new_orchestrator, sy_used = [], sy_setup = [], sy_answering = [] \<rparr>"
  let ?s1 = "\<lparr> sy_state = new_orchestrator\<lparr> or_provider_call_to_internal := [(''p1'', ''c1'')] \<rparr>, sy_used = [''c1''],
    sy_setup = [(''c1'', ''p1'')], sy_answering = [] \<rparr>"
  let ?s2 = "\<lparr> sy_state = (sample_state sample_call)\<lparr> or_notification_to_call := [] \<rparr>, sy_used = [''c1''],
    sy_setup = [], sy_answering = [] \<rparr>"
  have "reach orch_init orch_step ?s0" by (rule reach_init) (simp add: orch_init_def)
  moreover have "orch_step ?s0 (Ev_Inbound ''p1'' ''c1'', [Create_Session ''c1'' Leg_Pending True]) ?s1"
    using os_inbound [where S = ?s0 and c = "''c1''" and pid = "''p1''" and entry = "Some sample_entry"]
    by (simp add: inbound_begin_def sample_defs new_orchestrator_def jmap_eval)
  ultimately have "reach orch_init orch_step ?s1" by (rule reach_step)
  moreover have "orch_step ?s1 (Ev_Session ''c1'', [History_Record \<lparr> rc_id = Some ''c1'', rc_phone_number = ''+4670'',
      rc_provider_number = Some ''+4680'', rc_call_type = INCOMING, rc_duration_seconds = None,
      rc_provider_call_id = Some ''p1'', rc_answered_by_device = None \<rparr>]) ?s2"
    using os_session [of "''c1''" "''p1''" ?s1 "Session sample_session" sample_provider "''e1''" "''+4670''" "''+4680''" 1000]
    by (simp add: inbound_session_def arm_watchdog_def sample_defs new_orchestrator_def jmap_eval orch_consts)
  ultimately have "reach orch_init orch_step ?s2" by (rule reach_step)
  moreover have "orch_step ?s2 (Ev_Notified ''n1'' ''c1'', []) ringing_system"
    using os_notified [where S = ?s2 and n = "''n1''" and c = "''c1''"]
    by (simp add: inbound_notified_def sample_defs jmap_eval)
  ultimately show ?thesis by (rule reach_step)
qed

lemma answering_reachable: "reach orch_init orch_step answering_system"
proof (rule reach_step [OF ringing_reachable])
  show "orch_step ringing_system (Ev_Answer ''n1'' ''d1'', [Provider_Answer ''p1'' ''d1'' None]) answering_system"
    using os_answer [where S = ringing_system and req = "''n1''" and device = "''d1''" and now = 5000]
    by (simp add: answer_begin_def Let_def resolve_to_call_id_def set_answered_eq answer_provider_def still_waiting_def sample_defs
        jmap_eval orch_consts)
qed

lemma reach_maps_ok: "reach orch_init orch_step S \<Longrightarrow> maps_ok (sy_state S)"
  using orch.reach_inv by (auto simp: orch_inv_def)

section \<open>Identifiers\<close>



section \<open>The end of a call\<close>

text \<open>C3: Ending a tracked call of a reachable state, through whichever identifier resolves
  to it, removes it and only it from every map, tells the devices once that it is disconnected
  and once that it is cancelled, destroys its media session once and hangs up its provider leg
  once; ending it again, with whatever trigger, does nothing (the generated identifiers being
  distinct from those of notifications and of the provider).\<close>
theorem end_call_once:
  assumes "reach orch_init orch_step S"
    and "jm_get (or_active_calls (sy_state S)) (resolve_to_call_id req (sy_state S)) = Some call"
    and "end_call req trigger now (sy_state S) = (t, eff)"
    and "jm_get (or_notification_to_call (sy_state S)) (ac_call_id call) = None"
    and "jm_get (or_provider_call_to_internal (sy_state S)) (ac_call_id call) = None"
  shows "(\<forall>c. jm_get (or_active_calls t) c = (if c = ac_call_id call then None else jm_get (or_active_calls (sy_state S)) c))
    \<and> jm_get (or_session_to_call t) (ac_session_id call) = None
    \<and> jm_get (or_provider_call_to_internal t) (ac_provider_call_id call) = None
    \<and> (\<forall>n. jm_get (or_notification_to_call t) n \<noteq> Some (ac_call_id call))
    \<and> filter (\<lambda>e. case e of Broadcast_Disconnected _ \<Rightarrow> True | Broadcast_Cancelled _ _ \<Rightarrow> True | Destroy_Session _ _ \<Rightarrow> True
          | Provider_End_Call _ \<Rightarrow> True | _ \<Rightarrow> False) eff
        = [Broadcast_Disconnected (ac_call_id call),
           Broadcast_Cancelled (ac_call_id call) (if trigger = Some ''declined'' then Cancel_Declined else Cancel_Caller_Disconnect),
           Destroy_Session (ac_session_id call) (if trigger = Some ''provider_disconnected'' then 200 else 0),
           Provider_End_Call (ac_provider_call_id call)]
    \<and> end_call (ac_call_id call) trigger' now' t = (t, [])"
proof -
  have m: "maps_ok (sy_state S)" by (rule reach_maps_ok [OF assms(1)])
  have t: "t = untrack call (sy_state S)" "eff = end_effects trigger now call"
    using end_call_some [OF m assms(2), of trigger now] assms(3) by auto
  have k: "call_ok (resolve_to_call_id req (sy_state S)) call" using maps_ok_call [OF m assms(2)] .
  have g: "jm_get (or_active_calls t) (ac_call_id call) = None" unfolding t by simp
  have mt: "maps_ok t" unfolding t by (rule maps_ok_untrack [OF m k assms(2)])
  have n: "jm_get (or_notification_to_call t) n \<noteq> Some (ac_call_id call)" for n
    using mt g unfolding maps_ok_def by blast
  have p: "jm_get (or_provider_call_to_internal t) (ac_provider_call_id call) = None" unfolding t untrack_def by simp
  have ss: "jm_get (or_session_to_call t) (ac_session_id call) = None" unfolding t untrack_def by simp
  have h: "filter (\<lambda>e. case e of Broadcast_Disconnected _ \<Rightarrow> True | Broadcast_Cancelled _ _ \<Rightarrow> True | Destroy_Session _ _ \<Rightarrow> True
          | Provider_End_Call _ \<Rightarrow> True | _ \<Rightarrow> False) (end_history trigger now call) = []"
    by (simp add: end_history_def split: option.splits)
  have "jm_ok (or_notification_to_call (sy_state S))" using m by (simp add: maps_ok_def)
  then have "resolve_to_call_id (ac_call_id call) t = ac_call_id call"
    using assms(4,5) unfolding t by (simp add: resolve_to_call_id_def untrack_def jm_has_iff jm_get_filter)
  then have again: "end_call (ac_call_id call) trigger' now' t = (t, [])" using g by (intro end_call_none) simp
  show ?thesis using g n p ss h again unfolding t end_effects_def by simp
qed

theorem end_call_once_witness:
  "end_call ''c1'' (Some ''declined'') 20000 (fst (end_call ''n1'' None 9000 (sy_state ringing_system)))
     = (fst (end_call ''n1'' None 9000 (sy_state ringing_system)), [])"
proof -
  let ?r = "end_call ''n1'' None 9000 (sy_state ringing_system)"
  have "jm_get (or_active_calls (sy_state ringing_system)) (resolve_to_call_id ''n1'' (sy_state ringing_system)) = Some sample_call"
    by (simp add: sample_defs jmap_eval resolve_to_call_id_def)
  moreover have "jm_get (or_notification_to_call (sy_state ringing_system)) (ac_call_id sample_call) = None"
    "jm_get (or_provider_call_to_internal (sy_state ringing_system)) (ac_call_id sample_call) = None"
    by (simp_all add: sample_defs jmap_eval)
  ultimately show ?thesis
    using end_call_once [OF ringing_reachable, of "''n1''" sample_call None 9000 "fst ?r" "snd ?r" "Some ''declined''" 20000]
    by (simp add: sample_call_def)
qed

definition is_history :: "orch_effect \<Rightarrow> bool" where
  "is_history e \<longleftrightarrow> (case e of History_Update_Type _ _ \<Rightarrow> True | History_Update_Duration _ _ \<Rightarrow> True
     | History_Mark_Unanswered _ \<Rightarrow> True | Notify_Resolved _ \<Rightarrow> True | Notify_Missed _ \<Rightarrow> True | _ \<Rightarrow> False)"

lemma rounded_seconds: "\<bar>1000 * ((x + 500) div 1000) - x\<bar> \<le> (500::int)"
  using mult_div_mod_eq [of 1000 "x + 500"] pos_mod_bound [of 1000 "x + 500"] pos_mod_sign [of 1000 "x + 500"] by linarith

lemma rounded_positive: "0 \<le> x \<Longrightarrow> 0 < (x + 500) div 1000 \<longleftrightarrow> \<not> x < (500::int)"
  by linarith

text \<open>C7: What the end of a call writes, in every reachable state. An inbound call nobody
  answered becomes DECLINED with its notification resolved when the end is a decline, and
  MISSED with its notification turned into a missed call otherwise; an outbound call never
  answered is marked unanswered; an answered call gets, for a clock that did not run
  backwards, a duration within half a second of the time since the answer, or nothing when
  it lasted under half a second. Nothing else is written.\<close>
theorem end_call_outcome:
  assumes "reach orch_init orch_step S"
    and "jm_get (or_active_calls (sy_state S)) (resolve_to_call_id req (sy_state S)) = Some call"
    and "end_call req trigger now (sy_state S) = (t, eff)"
    and "\<forall>answered_at. ac_answered_at call = Some answered_at \<longrightarrow> answered_at \<le> now"
  shows "(if ac_answered call then
            \<exists>answered_at. ac_answered_at call = Some answered_at \<and>
              (if now - answered_at < 500 then filter is_history eff = []
               else \<exists>d. filter is_history eff = [History_Update_Duration (ac_provider_call_id call) d] \<and> 0 < d
                 \<and> \<bar>1000 * d - (now - answered_at)\<bar> \<le> 500)
          else if ac_direction call = Outbound then filter is_history eff = [History_Mark_Unanswered (ac_provider_call_id call)]
          else if trigger = Some ''declined''
          then filter is_history eff = [History_Update_Type (ac_provider_call_id call) DECLINED, Notify_Resolved (ac_call_id call)]
          else filter is_history eff = [History_Update_Type (ac_provider_call_id call) MISSED, Notify_Missed (ac_call_id call)])"
proof -
  have m: "maps_ok (sy_state S)" by (rule reach_maps_ok [OF assms(1)])
  have eff: "eff = end_effects trigger now call" using end_call_some [OF m assms(2), of trigger now] assms(3) by auto
  have k: "call_ok (resolve_to_call_id req (sy_state S)) call" using maps_ok_call [OF m assms(2)] .
  have e: "filter is_history eff = filter is_history (end_history trigger now call)"
    unfolding eff end_effects_def by (simp add: is_history_def)
  show ?thesis
  proof (cases "ac_answered call")
    case True
    then obtain ta where ta: "ac_answered_at call = Some ta" using k by (auto simp: call_ok_def)
    let ?d = "(now - ta + 500) div 1000"
    have d: "\<bar>1000 * ?d - (now - ta)\<bar> \<le> 500" by (rule rounded_seconds)
    have z: "0 < ?d \<longleftrightarrow> \<not> now - ta < 500" using assms(4) ta by (simp add: rounded_positive)
    have "filter is_history eff = (if 0 < ?d then [History_Update_Duration (ac_provider_call_id call) ?d] else [])"
      unfolding e end_history_def by (simp add: True duration_seconds_def ta is_history_def)
    then show ?thesis using True ta d z by auto
  next
    case False
    then have ta: "ac_answered_at call = None" using k by (auto simp: call_ok_def)
    show ?thesis unfolding e end_history_def using False
      by (cases "ac_direction call") (simp_all add: duration_seconds_def ta is_history_def)
  qed
qed

theorem end_call_outcome_witness:
  "filter is_history (snd (end_call ''p1'' None 65499 (sy_state answering_system))) = [History_Update_Duration ''p1'' 60]"
proof -
  obtain t eff where r: "end_call ''p1'' None 65499 (sy_state answering_system) = (t, eff)" by fastforce
  have g: "jm_get (or_active_calls (sy_state answering_system)) (resolve_to_call_id ''p1'' (sy_state answering_system)) = Some sample_answered"
    by (simp add: sample_defs jmap_eval resolve_to_call_id_def)
  have f: "ac_answered_at sample_answered = Some 5000" "ac_answered sample_answered" "ac_provider_call_id sample_answered = ''p1''"
    by (simp_all add: sample_answered_def sample_call_def)
  have "\<exists>d. filter is_history eff = [History_Update_Duration ''p1'' d] \<and> \<bar>1000 * d - 60499\<bar> \<le> 500"
    using end_call_outcome [OF answering_reachable g r] by (auto simp: f)
  then obtain d where d: "filter is_history eff = [History_Update_Duration ''p1'' d]" "\<bar>1000 * d - 60499\<bar> \<le> 500" by blast
  from d(2) have "d = 60" by linarith
  then show ?thesis using r d(1) by simp
qed

section \<open>One answer per call\<close>

text \<open>C4: However many devices try to answer, through whichever identifiers of the calls and
  in whatever order, from any reachable state: each call is won by at most one device, a call
  already answered is won by none, and the winners' calls stay answered.\<close>
theorem answer_rush_one_winner:
  assumes "reach orch_init orch_step S"
  shows "distinct (map fst (fst (answers.claims now attempts (sy_state S))))
    \<and> (\<forall>c. call_answered c (sy_state S) \<longrightarrow> c \<notin> fst ` set (fst (answers.claims now attempts (sy_state S)))
         \<and> call_answered c (snd (answers.claims now attempts (sy_state S))))"
  using answers.claims_distinct answers.claims_held reach_maps_ok [OF assms] by blast

theorem answer_rush_one_winner_witness:
  "fst (answers.claims 5000 [(''n1'', ''d1''), (''c1'', ''d2''), (''p1'', ''d3'')] (sy_state ringing_system)) = [(''c1'', ''d1'')]
    \<and> distinct (map fst (fst (answers.claims 5000 [(''n1'', ''d1''), (''c1'', ''d2''), (''p1'', ''d3'')] (sy_state ringing_system))))"
proof
  show "fst (answers.claims 5000 [(''n1'', ''d1''), (''c1'', ''d2''), (''p1'', ''d3'')] (sy_state ringing_system)) = [(''c1'', ''d1'')]"
    by (simp add: answers.claims.simps answer_claim_def answer_begin_def Let_def resolve_to_call_id_def set_answered_eq
        answer_provider_def sample_defs jmap_eval orch_consts)
qed (use answer_rush_one_winner [OF ringing_reachable] in blast)

text \<open>While a device waits for the media bridge or the provider to complete its answer, in
  every reachable state in which the call still exists: the call is held by that device, no
  other answer of it is waiting, and every further attempt, through any identifier that
  resolves to the call and from any device, is refused without changing the state.\<close>
theorem pending_answer_holds_call:
  assumes "reach orch_init orch_step S" and "(call, device, patching) \<in> set (sy_answering S)"
    and "jm_get (or_active_calls (sy_state S)) (ac_call_id call) = Some a"
  shows "ac_answered a \<and> ac_answered_by_device a = Some device
    \<and> (\<forall>w \<in> set (sy_answering S). ac_call_id (fst w) = ac_call_id call \<longrightarrow> w = (call, device, patching))
    \<and> (\<forall>req other now. resolve_to_call_id req (sy_state S) = ac_call_id call \<longrightarrow>
         answer_begin req other now (sy_state S) = (Answered Answer_Already, sy_state S, []))"
proof -
  have w: "answering_ok S" using orch.reach_inv [OF assms(1)] by (simp add: orch_inv_def)
  note ok = answering_okD [OF w assms(2,3)]
  have "answer_begin req other now (sy_state S) = (Answered Answer_Already, sy_state S, [])"
    if "resolve_to_call_id req (sy_state S) = ac_call_id call" for req other now
    using that assms(3) ok(1) by (simp add: answer_begin_def Let_def)
  then show ?thesis using ok(1,2,4) by blast
qed

theorem pending_answer_holds_call_witness:
  "answer_begin ''n1'' ''d2'' 6000 (sy_state answering_system) = (Answered Answer_Already, sy_state answering_system, [])"
proof -
  have a: "(sample_call, ''d1'', False) \<in> set (sy_answering answering_system)" by (simp add: answering_system_def)
  have g: "jm_get (or_active_calls (sy_state answering_system)) (ac_call_id sample_call) = Some sample_answered"
    and r: "resolve_to_call_id ''n1'' (sy_state answering_system) = ac_call_id sample_call"
    by (simp_all add: sample_defs jmap_eval resolve_to_call_id_def)
  show ?thesis using pending_answer_holds_call [OF answering_reachable a g] r by blast
qed



section \<open>The watchdog\<close>

text \<open>C6: In every reachable state, whatever went wrong, each tracked call has a watchdog armed
  for ninety seconds or, always when it is answered, for four hours; when it fires the call
  ends: it is no longer tracked, its session is destroyed and its provider leg is hung up.\<close>
theorem watchdog_backstop:
  assumes "reach orch_init orch_step S" and "jm_get (or_active_calls (sy_state S)) c = Some call"
  shows "(ac_watchdog call = Some 14400000 \<or> ac_watchdog call = Some 90000 \<and> \<not> ac_answered call)
    \<and> jm_get (or_active_calls (fst (watchdog_fires c now (sy_state S)))) c = None
    \<and> Provider_End_Call (ac_provider_call_id call) \<in> set (snd (watchdog_fires c now (sy_state S)))
    \<and> Destroy_Session c 0 \<in> set (snd (watchdog_fires c now (sy_state S)))"
proof -
  have m: "maps_ok (sy_state S)" by (rule reach_maps_ok [OF assms(1)])
  have k: "call_ok c call" using maps_ok_call [OF m assms(2)] .
  have e: "\<not> ac_ended call" "ac_call_id call = c" "ac_session_id call = c"
    "ac_watchdog call = Some 14400000 \<or> ac_watchdog call = Some 90000 \<and> \<not> ac_answered call"
    using k by (auto simp: call_ok_def orch_consts)
  have w: "watchdog_fires c now (sy_state S) = (untrack call (sy_state S), end_effects (Some ''watchdog_timeout'') now call)"
    using end_call_some [OF m, of c call "Some ''watchdog_timeout''" now] assms(2) e(1) by (simp add: watchdog_fires_def)
  show ?thesis unfolding w using e by (simp add: end_effects_def)
qed

theorem watchdog_backstop_witness:
  "jm_get (or_active_calls (fst (watchdog_fires ''c1'' 91000 (sy_state ringing_system)))) ''c1'' = None"
proof -
  have "jm_get (or_active_calls (sy_state ringing_system)) ''c1'' = Some sample_call" by (simp add: sample_defs jmap_eval)
  then show ?thesis using watchdog_backstop [OF ringing_reachable, of "''c1''" sample_call 91000] by blast
qed

end
