(* ===== verification/Call_Setup.thy ===== *)
theory Call_Setup
  imports Call_Lifecycle
begin

text \<open>
  How calls come to be tracked and how all of them are ended: the setup of outbound and
  inbound calls with their failures, \<^verbatim>\<open>endAllCalls\<close> and the reconciliation with the bridge;
  and the interleavings in which the handlers lose a call or announce a dead one.
\<close>

section \<open>Setting up calls\<close>

text \<open>C10: An outbound call either fails, with the error of the number, the bridge or the
  provider, leaving all four maps as they were; or it succeeds, and then the new call is
  tracked under its fresh identifier with the provider's identifier, the device and the
  short watchdog, both its session and the provider's identifier resolve to it, every other
  call is untouched, and the history receives one OUTGOING record with the provider's
  identifier, after the session was created and the provider asked to call.\<close>
theorem outbound_all_or_nothing:
  assumes "initiate_outbound sip_tls number c session made patched now device from_no to_no s = (res, t, eff)"
  shows "(case res of
      Inl e \<Rightarrow> t = s \<and> (\<forall>r. History_Record r \<notin> set eff)
        \<and> (e = Media_Unavailable \<or> (\<exists>m. e \<in> {Number_Error m, Media_Error m, Provider_Error m}))
    | Inr out \<Rightarrow> out = (c, from_no, to_no) \<and> (\<exists>pid call rest. made = Inr pid
        \<and> jm_get (or_active_calls t) c = Some call \<and> ac_call_id call = c \<and> ac_provider_call_id call = pid
        \<and> ac_direction call = Outbound \<and> \<not> ac_answered call \<and> ac_answered_by_device call = Some device
        \<and> ac_watchdog call = Some UNANSWERED_WATCHDOG_MS
        \<and> jm_get (or_session_to_call t) (ac_session_id call) = Some c
        \<and> get_call_id_by_provider_call_id pid t = Some c
        \<and> (\<forall>c'. c' \<noteq> c \<longrightarrow> jm_get (or_active_calls t) c' = jm_get (or_active_calls s) c')
        \<and> or_notification_to_call t = or_notification_to_call s
        \<and> (\<exists>leg relay url. eff = Create_Session c leg relay # Provider_Make_Call from_no to_no url # rest)
        \<and> filter (\<lambda>e. case e of History_Record _ \<Rightarrow> True | _ \<Rightarrow> False) rest =
            [History_Record \<lparr> rc_id = None, rc_phone_number = to_no, rc_provider_number = Some from_no,
               rc_call_type = OUTGOING, rc_duration_seconds = None, rc_provider_call_id = Some pid,
               rc_answered_by_device = None \<rparr>]))"
  using assms unfolding initiate_outbound_def track_outbound_def
  by (auto simp: Let_def session_error_def arm_watchdog_def get_call_id_by_provider_call_id_def option.map_comp
      split: sum.splits session_result.splits prod.splits)

theorem outbound_all_or_nothing_witness:
  "(case initiate_outbound True (Inr (sample_entry, sample_provider)) ''c2'' (Session sample_session) (Inr ''p2'') True 0
        ''d1'' ''+4680'' ''+4670'' new_orchestrator of
      (res, t, eff) \<Rightarrow> res = Inr (''c2'', ''+4680'', ''+4670'') \<and> get_call_id_by_provider_call_id ''p2'' t = Some ''c2'')"
proof -
  obtain res t eff where r: "initiate_outbound True (Inr (sample_entry, sample_provider)) ''c2'' (Session sample_session) (Inr ''p2'') True 0
        ''d1'' ''+4680'' ''+4670'' new_orchestrator = (res, t, eff)" by (metis prod_cases3)
  obtain out where o: "res = Inr out" using r by (auto simp: initiate_outbound_def Let_def)
  show ?thesis using outbound_all_or_nothing [OF r] unfolding r o by auto
qed

text \<open>An inbound call of a known provider whose session cannot be created leaves no trace:
  provided the provider's identifier was not in use, after the failure every map answers every
  lookup as before, and the caller gets the error; a call of an unknown provider or one
  without an instance changes nothing at all.\<close>
theorem inbound_failure_restores:
  assumes "maps_ok s" and "get_call_id_by_provider_call_id pid s = None"
    and "inbound_begin entry pid c s = (res, s1, eff1)"
    and "inbound_session session provider entry_id pid c from_no to_no now s1 = (res2, s2, eff2)"
  shows "(res = Inl Provider_Not_Available \<longrightarrow> s1 = s \<and> eff1 = [])
    \<and> ((entry = None \<or> (\<exists>e. entry = Some e \<and> pe_instance e = None)) = (res = Inl Provider_Not_Available))
    \<and> (isl res2 \<longrightarrow> eff2 = [] \<and> or_active_calls s2 = or_active_calls s \<and> or_session_to_call s2 = or_session_to_call s
         \<and> or_notification_to_call s2 = or_notification_to_call s
         \<and> (\<forall>x. get_call_id_by_provider_call_id x s2 = get_call_id_by_provider_call_id x s)
         \<and> (\<forall>req. resolve_to_call_id req s2 = resolve_to_call_id req s))"
proof -
  have p: "s1 = s \<or> s1 = s\<lparr> or_provider_call_to_internal := jm_set pid c (or_provider_call_to_internal s) \<rparr>"
    using assms(3) by (auto simp: inbound_begin_def Let_def split: option.splits)
  have q: "s2 = s1\<lparr> or_provider_call_to_internal := jm_delete pid (or_provider_call_to_internal s1) \<rparr> \<and> eff2 = []" if "isl res2"
    using that assms(4) by (auto simp: inbound_session_def Let_def split: session_result.splits)
  have g: "jm_get (or_provider_call_to_internal s2) x = jm_get (or_provider_call_to_internal s) x" if "isl res2" for x
    using p assms(2) unfolding conjunct1 [OF q [OF that]] get_call_id_by_provider_call_id_def by (elim disjE) auto
  have same: "or_active_calls s2 = or_active_calls s" "or_session_to_call s2 = or_session_to_call s"
    "or_notification_to_call s2 = or_notification_to_call s" if "isl res2"
    using p unfolding conjunct1 [OF q [OF that]] by auto
  have f: "res = Inl Provider_Not_Available \<longleftrightarrow> entry = None \<or> (\<exists>e. entry = Some e \<and> pe_instance e = None)"
    "res = Inl Provider_Not_Available \<Longrightarrow> s1 = s \<and> eff1 = []"
    using assms(3) by (auto simp: inbound_begin_def Let_def split: option.splits)
  have rsv: "resolve_to_call_id req s2 = resolve_to_call_id req s" if "isl res2" for req
    unfolding resolve_to_call_id_def same [OF that] g [OF that] ..
  show ?thesis unfolding get_call_id_by_provider_call_id_def using f g same q rsv by blast
qed

theorem inbound_failure_restores_witness:
  "or_active_calls (fst (snd (inbound_session Session_Unavailable sample_provider ''e1'' ''p9'' ''c9'' ''+1'' ''+2'' 0
      (fst (snd (inbound_begin (Some sample_entry) ''p9'' ''c9'' (sy_state ringing_system))))))) = or_active_calls (sy_state ringing_system)"
proof -
  obtain res s1 eff1 where b: "inbound_begin (Some sample_entry) ''p9'' ''c9'' (sy_state ringing_system) = (res, s1, eff1)" by (metis prod_cases3)
  obtain res2 s2 eff2 where c: "inbound_session Session_Unavailable sample_provider ''e1'' ''p9'' ''c9'' ''+1'' ''+2'' 0 s1 = (res2, s2, eff2)"
    by (metis prod_cases3)
  have n: "get_call_id_by_provider_call_id ''p9'' (sy_state ringing_system) = None"
    by (simp add: get_call_id_by_provider_call_id_def sample_defs jmap_eval)
  have "isl res2" using c by (auto simp: inbound_session_def)
  then show ?thesis
    using inbound_failure_restores [OF reach_maps_ok [OF ringing_reachable] n b c] c unfolding b by simp
qed

text \<open>An inbound call whose session, number lookup and notification succeed without
  interruption is tracked as unanswered with the short watchdog; its own identifier, the
  provider's and the notification's all resolve to it; the history gets an INCOMING record
  under the call's identifier before any device is told, and the devices are told once that
  it rings, with the SIP address answered to the provider chosen by \<^verbatim>\<open>selectSipUri\<close>.\<close>
theorem inbound_success_tracks:
  assumes "inbound_begin (Some e) pid c s = (Inr (e', provider), s1, eff1)"
    and "inbound_session (Session info) provider (pe_id e) pid c from_no to_no now s1 = (Inr info', s2, eff2)"
    and "inbound_numbers sip_tls (Inr label) provider info' c from_no to_no s2 = (Inr (uri, c'), s3, eff3)"
    and "inbound_notified (Some n) c s3 = s4"
    and "\<not> jm_has (or_active_calls s) n" "\<not> jm_has (or_active_calls s) pid" "pid \<noteq> c" "n \<noteq> c" "n \<noteq> pid"
    and "jm_get (or_notification_to_call s) pid = None"
  shows "c' = c \<and> uri = selected_sip_uri sip_tls provider info
    \<and> get_active_call c s4 = Some (c, from_no, to_no, Inbound, False)
    \<and> (\<exists>call. jm_get (or_active_calls s4) c = Some call \<and> ac_watchdog call = Some UNANSWERED_WATCHDOG_MS \<and> ac_answered_by_device call = None)
    \<and> resolve_to_call_id c s4 = c \<and> resolve_to_call_id pid s4 = c \<and> resolve_to_call_id n s4 = c
    \<and> (\<exists>leg relay. eff1 @ eff2 @ eff3 = [Create_Session c leg relay,
         History_Record \<lparr> rc_id = Some c, rc_phone_number = from_no, rc_provider_number = Some to_no, rc_call_type = INCOMING,
           rc_duration_seconds = None, rc_provider_call_id = Some pid, rc_answered_by_device = None \<rparr>,
         Notify_Incoming c from_no to_no label, Broadcast_Ringing c from_no])"
proof -
  have e: "pe_instance e = Some provider" "e' = e"
    "s1 = s\<lparr> or_provider_call_to_internal := jm_set pid c (or_provider_call_to_internal s) \<rparr>"
    "\<exists>leg relay. eff1 = [Create_Session c leg relay]"
    using assms(1) by (auto simp: inbound_begin_def Let_def split: option.splits)
  have i: "info' = info" "c' = c" "uri = selected_sip_uri sip_tls provider info" "s3 = s2"
    "eff3 = [Notify_Incoming c from_no to_no label, Broadcast_Ringing c from_no]"
    using assms(2,3) by (auto simp: inbound_session_def inbound_numbers_def Let_def)
  have eff2: "eff2 = [History_Record \<lparr> rc_id = Some c, rc_phone_number = from_no, rc_provider_number = Some to_no, rc_call_type = INCOMING,
           rc_duration_seconds = None, rc_provider_call_id = Some pid, rc_answered_by_device = None \<rparr>]"
    using assms(2) by (auto simp: inbound_session_def Let_def)
  have a: "jm_get (or_active_calls s2) k = (if k = c then Some \<lparr> ac_call_id = c, ac_session_id = c, ac_provider_call_id = pid,
      ac_provider = provider, ac_provider_entry_id = pe_id e, ac_from = from_no, ac_to = to_no, ac_direction = Inbound,
      ac_answered = False, ac_answered_by_device = None, ac_started_at = now, ac_answered_at = None, ac_ended = False,
      ac_audio_ws_url = Some (si_audio_ws_url info), ac_watchdog = Some UNANSWERED_WATCHDOG_MS \<rparr>
      else jm_get (or_active_calls s) k)" for k
    using assms(2) unfolding e(3) by (auto simp: inbound_session_def Let_def)
  have p: "or_provider_call_to_internal s2 = jm_set pid c (or_provider_call_to_internal s)"
    "or_notification_to_call s2 = or_notification_to_call s"
    using assms(2) unfolding e(3) by (auto simp: inbound_session_def arm_watchdog_def Let_def)
  have s4: "or_active_calls s4 = or_active_calls s2" "or_provider_call_to_internal s4 = jm_set pid c (or_provider_call_to_internal s)"
    "or_notification_to_call s4 = jm_set n c (or_notification_to_call s)"
    using assms(4) a [of c] p unfolding i(4) by (auto simp: inbound_notified_def jm_has_iff)
  have act: "jm_get (or_active_calls s4) c \<noteq> None" "jm_get (or_active_calls s4) n = None" "jm_get (or_active_calls s4) pid = None"
    using assms(5-8) by (simp_all add: s4 a jm_has_iff)
  have r: "resolve_to_call_id c s4 = c" "resolve_to_call_id pid s4 = c" "resolve_to_call_id n s4 = c"
    using act assms(7-10) by (simp_all add: resolve_to_call_id_def jm_has_iff s4)
  show ?thesis using r e(4) by (auto simp: i eff2 get_active_call_def s4(1) a)
qed

theorem inbound_success_tracks_witness:
  "resolve_to_call_id ''n1'' (inbound_notified (Some ''n1'') ''c1''
      (fst (snd (inbound_session (Session sample_session) sample_provider ''e1'' ''p1'' ''c1'' ''+4670'' ''+4680'' 1000
        (fst (snd (inbound_begin (Some sample_entry) ''p1'' ''c1'' new_orchestrator))))))) = ''c1''"
proof -
  let ?s1 = "fst (snd (inbound_begin (Some sample_entry) ''p1'' ''c1'' new_orchestrator))"
  let ?r2 = "inbound_session (Session sample_session) sample_provider ''e1'' ''p1'' ''c1'' ''+4670'' ''+4680'' 1000 ?s1"
  have b: "inbound_begin (Some sample_entry) ''p1'' ''c1'' new_orchestrator = (Inr (sample_entry, sample_provider), ?s1, [Create_Session ''c1'' Leg_Pending True])"
    by (simp add: inbound_begin_def sample_defs)
  have s: "inbound_session (Session sample_session) sample_provider (pe_id sample_entry) ''p1'' ''c1'' ''+4670'' ''+4680'' 1000 ?s1
      = (Inr sample_session, fst (snd ?r2), snd (snd ?r2))"
    by (simp add: inbound_session_def Let_def sample_entry_def)
  have n: "inbound_numbers True (Inr None) sample_provider sample_session ''c1'' ''+4670'' ''+4680'' (fst (snd ?r2))
      = (Inr (selected_sip_uri True sample_provider sample_session, ''c1''), fst (snd ?r2),
         [Notify_Incoming ''c1'' ''+4670'' ''+4680'' None, Broadcast_Ringing ''c1'' ''+4670''])"
    by (simp add: inbound_numbers_def)
  show ?thesis
    using inbound_success_tracks [OF b s n refl, of "''n1''"] by (simp add: new_orchestrator_def jmap_eval)
qed

end
