(* ===== verification/Call_Sweeps.thy ===== *)
theory Call_Sweeps
  imports Call_Setup
begin

text \<open>
  The operations over all calls, the events of the media bridge, and the interleavings of the
  orchestrator's segments in which a call is lost, announced after its end or left inconsistent.
\<close>

section \<open>All calls at once\<close>

definition ended_legs :: "orch_effect list \<Rightarrow> string list" where
  "ended_legs eff = List.map_filter (\<lambda>e. case e of Provider_End_Call p \<Rightarrow> Some p | _ \<Rightarrow> None) eff"

definition destroyed_sessions :: "orch_effect list \<Rightarrow> string list" where
  "destroyed_sessions eff = List.map_filter (\<lambda>e. case e of Destroy_Session x _ \<Rightarrow> Some x | _ \<Rightarrow> None) eff"

lemma map_filter_append: "List.map_filter f (xs @ ys) = List.map_filter f xs @ List.map_filter f ys"
  by (induction xs) (auto simp: List.map_filter_simps split: option.splits)

lemma ended_legs_append [simp]: "ended_legs [] = []" "ended_legs (xs @ ys) = ended_legs xs @ ended_legs ys"
  by (simp_all add: ended_legs_def map_filter_append List.map_filter_simps)

lemma destroyed_sessions_append [simp]:
  "destroyed_sessions [] = []" "destroyed_sessions (xs @ ys) = destroyed_sessions xs @ destroyed_sessions ys"
  by (simp_all add: destroyed_sessions_def map_filter_append List.map_filter_simps)

lemma end_effects_legs [simp]:
  "ended_legs (end_effects trigger now call) = [ac_provider_call_id call]"
  "destroyed_sessions (end_effects trigger now call) = [ac_session_id call]"
  by (auto simp: end_effects_def end_history_def ended_legs_def destroyed_sessions_def List.map_filter_simps split: option.splits)

lemma legs_of_concat:
  "ended_legs (concat (map (\<lambda>(c, trigger). end_effects trigger now (g c)) cs)) = map (\<lambda>(c, _). ac_provider_call_id (g c)) cs"
  "destroyed_sessions (concat (map (\<lambda>(c, trigger). end_effects trigger now (g c)) cs)) = map (\<lambda>(c, _). ac_session_id (g c)) cs"
  by (induction cs) auto

lemma end_all_calls_facts:
  assumes "reach orch_init orch_step S" and "end_all_calls now (sy_state S) = (t, eff)"
  shows "or_active_calls t = [] \<and> or_session_to_call t = [] \<and> or_notification_to_call t = []
    \<and> get_all_active_calls t = [] \<and> get_active_device_ids t = []
    \<and> ended_legs eff = map (ac_provider_call_id \<circ> snd) (or_active_calls (sy_state S))
    \<and> destroyed_sessions eff = jm_keys (or_active_calls (sy_state S))
    \<and> Broadcast_Failed \<notin> set eff"
proof -
  let ?s = "sy_state S"
  let ?cs = "map (\<lambda>c. (c, None)) (jm_keys (or_active_calls ?s)) :: (string \<times> string option) list"
  have m: "maps_ok ?s" by (rule reach_maps_ok [OF assms(1)])
  have ok: "jm_ok (or_active_calls ?s)" using m by (simp add: maps_ok_def)
  have d: "distinct (map fst ?cs)" "fst ` set ?cs \<subseteq> active_ids ?s" "fst ` set ?cs = active_ids ?s"
    using ok by (auto simp: comp_def jm_ok_def jm_keys_def active_ids_def image_image)
  have r: "fst (end_calls ?cs now ?s) = t" "snd (end_calls ?cs now ?s) = eff" using assms(2) by (simp_all add: end_all_calls_def)
  note e = end_calls_correct [OF m d(1,2), of now, unfolded r]
  have mt: "maps_ok t" and none: "active_ids t = {}" using e d(3) by auto
  then have nk: "jm_get (or_active_calls t) k = None" for k by (auto simp: active_ids_iff)
  then have a: "or_active_calls t = []" using jm_empty_iff by blast
  have "jm_get (or_session_to_call t) k = None" "jm_get (or_notification_to_call t) k = None" for k
    using mt nk unfolding maps_ok_def by (metis not_Some_eq)+
  then have b: "or_session_to_call t = []" "or_notification_to_call t = []" using jm_empty_iff by blast+
  have g: "the (jm_get (or_active_calls ?s) (fst x)) = snd x" "ac_session_id (snd x) = fst x" if "x \<in> set (or_active_calls ?s)" for x
  proof -
    have "jm_get (or_active_calls ?s) (fst x) = Some (snd x)" using that jm_get_mem [OF ok, of "fst x" "snd x"] by simp
    then show "the (jm_get (or_active_calls ?s) (fst x)) = snd x" "ac_session_id (snd x) = fst x"
      using maps_ok_call [OF m] by (auto simp: call_ok_def)
  qed
  have "eff = concat (map (\<lambda>(c, trigger). end_effects trigger now (the (jm_get (or_active_calls ?s) c))) ?cs)" using e by blast
  then have "ended_legs eff = map (ac_provider_call_id \<circ> snd) (or_active_calls ?s)" "destroyed_sessions eff = jm_keys (or_active_calls ?s)"
    unfolding jm_keys_def by (simp_all only: legs_of_concat) (simp_all add: g)
  moreover have "Broadcast_Failed \<notin> set eff"
    using e by (auto simp: end_effects_def end_history_def split: option.splits if_splits)
  ultimately show ?thesis using a b by (simp add: get_all_active_calls_def get_active_device_ids_def List.map_filter_simps)
qed

text \<open>C9: Ending all calls of a reachable state (the shutdown path and the reaction to a failed
  media bridge) leaves no call tracked, no session mapped and no notification mapped, and hangs
  up the provider leg and destroys the session of every call, once each, in the order the calls
  were set up.\<close>
theorem end_all_calls_complete:
  assumes "reach orch_init orch_step S" and "end_all_calls now (sy_state S) = (t, eff)"
  shows "or_active_calls t = [] \<and> or_session_to_call t = [] \<and> or_notification_to_call t = []
    \<and> get_all_active_calls t = [] \<and> get_active_device_ids t = []
    \<and> ended_legs eff = map (ac_provider_call_id \<circ> snd) (or_active_calls (sy_state S))
    \<and> destroyed_sessions eff = jm_keys (or_active_calls (sy_state S))"
  using end_all_calls_facts [OF assms] by blast

theorem end_all_calls_complete_witness:
  "ended_legs (snd (end_all_calls 9000 (sy_state answering_system))) = [''p1'']"
proof -
  obtain t eff where r: "end_all_calls 9000 (sy_state answering_system) = (t, eff)" by fastforce
  show ?thesis using end_all_calls_complete [OF answering_reachable r] unfolding r by (simp add: sample_defs)
qed

lemma reconcile_keys:
  assumes "maps_ok s"
  shows "distinct (map fst (concat (map (\<lambda>(_, call). reconcile_call status call) (or_active_calls s))))"
    and "c \<in> fst ` set (concat (map (\<lambda>(_, call). reconcile_call status call) (or_active_calls s))) \<longleftrightarrow>
      (\<exists>a. jm_get (or_active_calls s) c = Some a \<and> ac_answered a \<and> status c \<noteq> Some True)"
    and "map fst (concat (map (\<lambda>(_, call). reconcile_call status call) (or_active_calls s))) =
      map fst (filter (\<lambda>(k, a). ac_answered a \<and> status k \<noteq> Some True) (or_active_calls s))"
proof -
  have ok: "jm_ok (or_active_calls s)" using assms by (simp add: maps_ok_def)
  have call: "ac_call_id a = k \<and> ac_session_id a = k \<and> \<not> ac_ended a" if "(k, a) \<in> set (or_active_calls s)" for k a
    using maps_ok_call [OF assms] that jm_get_mem [OF ok] by (auto simp: call_ok_def)
  have sub: "map fst (concat (map (\<lambda>(_, call). reconcile_call status call) xs)) =
      map fst (filter (\<lambda>(k, a). ac_answered a \<and> status k \<noteq> Some True) xs)" if "set xs \<subseteq> set (or_active_calls s)" for xs
    using that
  proof (induction xs)
    case (Cons x xs)
    obtain k a where x: "x = (k, a)" by (cases x)
    have "ac_call_id a = k" "ac_session_id a = k" "\<not> ac_ended a" using call [of k a] Cons.prems x by auto
    then show ?case using Cons x by (auto simp: reconcile_call_def split: option.splits)
  qed simp
  have e: "map fst (concat (map (\<lambda>(_, call). reconcile_call status call) (or_active_calls s))) =
      map fst (filter (\<lambda>(k, a). ac_answered a \<and> status k \<noteq> Some True) (or_active_calls s))" by (rule sub) simp
  show "distinct (map fst (concat (map (\<lambda>(_, call). reconcile_call status call) (or_active_calls s))))"
    unfolding e using ok by (simp add: jm_ok_def distinct_map_filter)
  show "map fst (concat (map (\<lambda>(_, call). reconcile_call status call) (or_active_calls s))) =
      map fst (filter (\<lambda>(k, a). ac_answered a \<and> status k \<noteq> Some True) (or_active_calls s))" by (rule e)
  show "c \<in> fst ` set (concat (map (\<lambda>(_, call). reconcile_call status call) (or_active_calls s))) \<longleftrightarrow>
      (\<exists>a. jm_get (or_active_calls s) c = Some a \<and> ac_answered a \<and> status c \<noteq> Some True)"
    unfolding set_map [symmetric] e using jm_get_mem [OF ok] by (force simp: image_iff)
qed

text \<open>A reconciliation round from a reachable state ends exactly the answered calls whose
  session the bridge cannot report or whose provider leg it reports as gone, hanging up each
  of their legs; a call that still rings, or is answered and live, is left as it is.\<close>
theorem reconcile_exact:
  assumes "reach orch_init orch_step S" and "reconcile_active_sessions status now (sy_state S) = (t, eff)"
    and "jm_get (or_active_calls (sy_state S)) c = Some call"
  shows "jm_get (or_active_calls t) c = (if ac_answered call \<and> status c \<noteq> Some True then None else Some call)
    \<and> ended_legs eff = map (ac_provider_call_id \<circ> snd)
         (filter (\<lambda>(k, a). ac_answered a \<and> status k \<noteq> Some True) (or_active_calls (sy_state S)))
    \<and> (jm_get (or_session_to_call t) c = None \<longleftrightarrow> ac_answered call \<and> status c \<noteq> Some True)"
proof -
  let ?s = "sy_state S"
  define cs where "cs = concat (map (\<lambda>(_, call). reconcile_call status call) (or_active_calls ?s))"
  have m: "maps_ok ?s" by (rule reach_maps_ok [OF assms(1)])
  note k = reconcile_keys [OF m, where status = status, folded cs_def]
  have sub: "fst ` set cs \<subseteq> active_ids ?s"
    by (rule subsetI, drule k(2) [THEN iffD1]) (auto simp: active_ids_iff)
  have r: "fst (end_calls cs now ?s) = t" "snd (end_calls cs now ?s) = eff"
    using assms(2) by (simp_all add: reconcile_active_sessions_def cs_def)
  note e = end_calls_correct [OF m k(1) sub, of now, unfolded r]
  have mem: "c \<in> fst ` set cs \<longleftrightarrow> ac_answered call \<and> status c \<noteq> Some True" using k(2) [of c] assms(3) by simp
  have a: "jm_get (or_active_calls t) c = (if c \<in> fst ` set cs then None else Some call)"
    using e assms(3) by (auto simp: active_ids_iff)
  have g: "the (jm_get (or_active_calls ?s) (fst x)) = snd x" if "x \<in> set (or_active_calls ?s)" for x
    using that jm_get_mem [of "or_active_calls ?s" "fst x" "snd x"] m by (simp add: maps_ok_def)
  have "ended_legs eff = map (\<lambda>c. ac_provider_call_id (the (jm_get (or_active_calls ?s) c))) (map fst cs)"
    using e by (simp add: legs_of_concat(1) case_prod_beta comp_def)
  then have p: "ended_legs eff = map (ac_provider_call_id \<circ> snd)
      (filter (\<lambda>(k, a). ac_answered a \<and> status k \<noteq> Some True) (or_active_calls ?s))"
    unfolding k(3) by (simp add: g)
  have "jm_get (or_session_to_call t) c = None \<longleftrightarrow> jm_get (or_active_calls t) c = None"
    using e unfolding maps_ok_def by (metis not_Some_eq)
  then show ?thesis using a p mem by simp
qed

theorem reconcile_exact_witness:
  "jm_get (or_active_calls (fst (reconcile_active_sessions (\<lambda>_. None) 9000 (sy_state answering_system)))) ''c1'' = None"
proof -
  obtain t eff where r: "reconcile_active_sessions (\<lambda>_. None) 9000 (sy_state answering_system) = (t, eff)" by fastforce
  have "jm_get (or_active_calls (sy_state answering_system)) ''c1'' = Some sample_answered" by (simp add: sample_defs jmap_eval)
  from reconcile_exact [OF answering_reachable r this] show ?thesis unfolding r by (simp add: sample_answered_def)
qed

section \<open>Interleavings\<close>

text \<open>
  The bridge's session exists when the provider refuses to call; nothing destroys it, and the
  call is not tracked, so that no later operation will.
\<close>

lemma refused_call_leaves_session:
  assumes "initiate_outbound sip_tls (Inr (entry, provider)) c (Session info) (Inl e) patched now device from_no to_no s = (res, t, eff)"
  shows "res = Inl (Provider_Error e) \<and> (\<exists>leg relay. Create_Session c leg relay \<in> set eff) \<and> destroyed_sessions eff = [] \<and> t = s"
  using assms by (auto simp: initiate_outbound_def Let_def destroyed_sessions_def List.map_filter_simps)

text \<open>
  The caller hangs up while the session is being created: the end finds no call and does
  nothing, and the call is tracked and rings afterwards, until its watchdog.
\<close>

lemma hangup_during_setup_is_lost:
  assumes "\<not> jm_has (or_active_calls s) c" "\<not> jm_has (or_active_calls s) pid" "jm_get (or_notification_to_call s) pid = None"
    and "inbound_begin (Some e) pid c s = (Inr (e, provider), s1, eff1)"
  shows "end_call pid (Some ''provider_disconnected'') now s1 = (s1, [])"
    and "jm_has (or_active_calls (fst (snd (inbound_session (Session info) provider (pe_id e) pid c from_no to_no now s1)))) c"
proof -
  have s1: "s1 = s\<lparr> or_provider_call_to_internal := jm_set pid c (or_provider_call_to_internal s) \<rparr>"
    using assms(4) by (auto simp: inbound_begin_def Let_def split: option.splits)
  have "resolve_to_call_id pid s1 = c" using assms(2,3) unfolding s1 by (simp add: resolve_to_call_id_def)
  then show "end_call pid (Some ''provider_disconnected'') now s1 = (s1, [])"
    using assms(1) unfolding s1 by (intro end_call_none) (simp add: jm_has_iff)
  show "jm_has (or_active_calls (fst (snd (inbound_session (Session info) provider (pe_id e) pid c from_no to_no now s1)))) c"
    by (simp add: inbound_session_def Let_def jm_has_iff)
qed

text \<open>
  The caller hangs up while the numbers are looked up: the call has ended, and the devices
  are then notified of it and told that it rings.
\<close>

lemma announced_after_end:
  "snd (snd (inbound_numbers sip_tls (Inr label) provider info c from_no to_no (fst (end_call c trigger now s)))) =
     [Notify_Incoming c from_no to_no label, Broadcast_Ringing c from_no]"
  by (simp add: inbound_numbers_def)

text \<open>
  The call ends while the provider is accepting the answer, and the provider then refuses:
  neither the end nor the refusal writes that the call was missed, nor resolves its
  notification, although nobody ever spoke.
\<close>

lemma refusal_after_end_writes_nothing:
  assumes "reach orch_init orch_step S" and "(call, device, False) \<in> set (sy_answering S)"
    and "jm_get (or_active_calls (sy_state S)) (ac_call_id call) = Some a"
    and "end_call (ac_call_id call) trigger now (sy_state S) = (t, eff)"
    and "answer_provided False call device t = (progress, u, eff')"
  shows "progress = Answered Answer_Provider_Failed \<and> History_Update_Type pid MISSED \<notin> set (eff @ eff')
    \<and> Notify_Resolved c \<notin> set (eff @ eff') \<and> Notify_Missed c \<notin> set (eff @ eff')"
proof -
  have i: "orch_inv S" using orch.reach_inv [OF assms(1)] .
  then have m: "maps_ok (sy_state S)" and w: "answering_ok S" by (auto simp: orch_inv_def)
  have a: "ac_answered a" using answering_okD(1) [OF w assms(2,3)] .
  have "jm_get (or_active_calls (sy_state S)) (resolve_to_call_id (ac_call_id call) (sy_state S)) = Some a" using assms(3) by simp
  then have e: "eff = end_effects trigger now a" using end_call_some [OF m, of "ac_call_id call" a trigger now] assms(4) by auto
  have h: "set (end_history trigger now a) \<subseteq> {History_Update_Duration (ac_provider_call_id a) (the (duration_seconds now a))}"
    using a by (cases "duration_seconds now a") (auto simp: end_history_def)
  have "\<forall>x \<in> set (eff @ eff'). x \<noteq> History_Update_Type pid MISSED \<and> x \<noteq> Notify_Resolved c \<and> x \<noteq> Notify_Missed c"
    using h assms(5) unfolding e end_effects_def by (auto simp: answer_provided_def)
  then show ?thesis using assms(5) by (auto simp: answer_provided_def)
qed

text \<open>
  A provider that delivers the same call twice gets two calls: the second takes the
  provider's identifier over, and a hang-up reported under it ends only the second.
\<close>

lemma redelivered_call_overwrites:
  assumes "jm_has (or_active_calls s) c1" "get_call_id_by_provider_call_id pid s = Some c1"
    and "inbound_begin (Some e) pid c2 s = (Inr (e, provider), s1, eff1)"
  shows "get_call_id_by_provider_call_id pid s1 = Some c2 \<and> jm_has (or_active_calls s1) c1"
  using assms by (auto simp: inbound_begin_def Let_def get_call_id_by_provider_call_id_def split: option.splits)

end
