(* ===== verification/Call_Story.thy ===== *)
theory Call_Story
  imports Call_Sweeps Notifications
begin

text \<open>
  The orchestrator together with the services it drives: its effects on the call history and
  the notifications are applied to the tables of these services. The source starts each of
  these operations without awaiting it and only logs a failure; here they run in the order in
  which they are started, and an operation the database refuses leaves its table as it was.
\<close>

record call_data =
  cd_history :: "call_entry table"
  cd_notifications :: "notification table"

text \<open>What the services get from elsewhere: foreign keys, clock, generated identifiers, push endpoints.\<close>

record effect_env =
  ee_refs :: "call_entry \<Rightarrow> bool"
  ee_device_exists :: "string \<Rightarrow> bool"
  ee_now :: int
  ee_gen_id :: string
  ee_timestamp :: string
  ee_devices :: "(string \<times> string option) list option"

definition incoming_input :: "string \<Rightarrow> string \<Rightarrow> string \<Rightarrow> string option \<Rightarrow> string \<Rightarrow> create_notification_input" where
  "incoming_input c from to label timestamp =
     \<lparr> cn_type = Incoming_Call, cn_source_entity_id = c, cn_source_entity_type = ''call_history'',
       cn_payload = \<lparr> np_caller_number = Some from, np_sender_number = None, np_provider_number = Some to,
         np_provider_label = label, np_contact_name = None, np_message_preview = None, np_device_id = None,
         np_device_label = None, np_timestamp = timestamp \<rparr> \<rparr>"

definition apply_effect :: "effect_env \<Rightarrow> orch_effect \<Rightarrow> call_data \<Rightarrow> call_data" where
  "apply_effect env eff d =
     (case eff of
        History_Record input \<Rightarrow>
          d\<lparr> cd_history := fst (snd (record_call (ee_refs env) (ee_gen_id env) (ee_now env) input (cd_history d))) \<rparr>
      | History_Update_Type pid type \<Rightarrow>
          d\<lparr> cd_history := fst (snd (update_call_type_by_provider_call_id pid type None (cd_history d))) \<rparr>
      | History_Update_Duration pid seconds \<Rightarrow>
          d\<lparr> cd_history := fst (snd (update_duration_by_provider_call_id pid seconds (cd_history d))) \<rparr>
      | History_Mark_Unanswered pid \<Rightarrow>
          d\<lparr> cd_history := fst (snd (mark_outbound_unanswered pid (cd_history d))) \<rparr>
      | History_Mark_Answered pid device \<Rightarrow>
          d\<lparr> cd_history := snd (mark_answered (ee_device_exists env) pid device (cd_history d)) \<rparr>
      | Notify_Incoming c from to label \<Rightarrow>
          d\<lparr> cd_notifications := fst (snd (create_notification (ee_gen_id env) (ee_now env) (ee_devices env)
               (incoming_input c from to label (ee_timestamp env)) (cd_notifications d))) \<rparr>
      | Notify_Resolved c \<Rightarrow>
          d\<lparr> cd_notifications := fst (snd (mark_call_resolved c (ee_now env) (cd_notifications d))) \<rparr>
      | Notify_Missed c \<Rightarrow>
          d\<lparr> cd_notifications := fst (snd (transition_to_missed c (ee_now env) (cd_notifications d))) \<rparr>
      | _ \<Rightarrow> d)"

definition apply_effects :: "effect_env \<Rightarrow> orch_effect list \<Rightarrow> call_data \<Rightarrow> call_data" where
  "apply_effects env effs d = fold (apply_effect env) effs d"

text \<open>The rows of a call: its history entries by the provider's identifier, its notifications by its own.\<close>

definition history_of :: "string \<Rightarrow> call_data \<Rightarrow> call_entry list" where
  "history_of pid d = sql_select (\<lambda>e. ch_provider_call_id e = Some pid) (cd_history d)"

definition notifications_of :: "string \<Rightarrow> call_data \<Rightarrow> notification list" where
  "notifications_of c d = sql_select (\<lambda>r. nt_source_entity_id r = c) (cd_notifications d)"

lemma apply_effects_simps [simp]:
  "apply_effects env [] d = d"
  "apply_effects env (e # effs) d = apply_effects env effs (apply_effect env e d)"
  by (simp_all add: apply_effects_def)

lemma apply_effects_append: "apply_effects env (xs @ ys) d = apply_effects env ys (apply_effects env xs d)"
  by (simp add: apply_effects_def)

lemma select_update:
  assumes "\<And>r. q (f r) = q r" "\<And>r. q r \<Longrightarrow> p r = p' r"
  shows "sql_select q (sql_update p f t) = map (\<lambda>r. if p' r then f r else r) (sql_select q t)"
  using assms by (induction t) (auto simp: sql_select_def sql_update_def)

lemma history_update_type:
  "history_of pid (apply_effect env (History_Update_Type pid ty) d) =
     map (\<lambda>e. if ch_call_type e = INCOMING \<and> ch_answered_by_device e = None then e\<lparr> ch_call_type := ty \<rparr> else e) (history_of pid d)"
  unfolding history_of_def apply_effect_def update_call_type_by_provider_call_id_def
  by simp (rule select_update, simp_all)

lemma history_update_duration:
  "history_of pid (apply_effect env (History_Update_Duration pid n) d) =
     map (\<lambda>e. e\<lparr> ch_duration_seconds := Some n \<rparr>) (history_of pid d)"
  unfolding history_of_def apply_effect_def update_duration_by_provider_call_id_def
  by (simp add: select_update [where p' = "\<lambda>_. True"])

lemma history_mark_answered:
  "ee_device_exists env device \<Longrightarrow> history_of pid (apply_effect env (History_Mark_Answered pid device) d) =
     map (\<lambda>e. e\<lparr> ch_answered_by_device := Some device \<rparr>) (history_of pid d)"
  unfolding history_of_def apply_effect_def mark_answered_def
  by (simp add: Let_def select_update [where p' = "\<lambda>_. True"])

lemma notifications_resolved:
  "notifications_of c (apply_effect env (Notify_Resolved c) d) =
     map (\<lambda>r. if nt_type r \<in> {Incoming_Call, Missed_Call} \<and> nt_status r = Pending
        then r\<lparr> nt_status := Read, nt_updated_at := ee_now env \<rparr> else r) (notifications_of c d)"
  unfolding notifications_of_def apply_effect_def
  by (simp add: resolve_table) (rule select_update, simp_all)

lemma notifications_missed:
  assumes "Missed_Call \<notin> nt_type ` set (notifications_of c d)"
  shows "notifications_of c (apply_effect env (Notify_Missed c) d) =
     map (\<lambda>r. if nt_type r = Incoming_Call then r\<lparr> nt_type := Missed_Call, nt_updated_at := ee_now env \<rparr> else r) (notifications_of c d)"
proof -
  have "\<not> list_ex (same_source c Missed_Call) (cd_notifications d)"
    using assms by (force simp: notifications_of_def sql_select_def list_ex_iff same_source_def)
  then have "fst (snd (transition_to_missed c (ee_now env) (cd_notifications d))) =
      sql_update (same_source c Incoming_Call) (\<lambda>r. r\<lparr> nt_type := Missed_Call, nt_updated_at := ee_now env \<rparr>) (cd_notifications d)"
    by (auto simp: transition_to_missed_def Let_def split: option.splits)
  then show ?thesis unfolding notifications_of_def apply_effect_def
    by simp (rule select_update, simp_all add: same_source_def)
qed

text \<open>The two tables are changed by the effects that concern them only.\<close>

definition on_history :: "orch_effect \<Rightarrow> bool" where
  "on_history e \<longleftrightarrow> (case e of History_Record _ \<Rightarrow> True | History_Update_Type _ _ \<Rightarrow> True | History_Update_Duration _ _ \<Rightarrow> True
     | History_Mark_Unanswered _ \<Rightarrow> True | History_Mark_Answered _ _ \<Rightarrow> True | _ \<Rightarrow> False)"

definition on_notifications :: "orch_effect \<Rightarrow> bool" where
  "on_notifications e \<longleftrightarrow> (case e of Notify_Incoming _ _ _ _ \<Rightarrow> True | Notify_Resolved _ \<Rightarrow> True | Notify_Missed _ \<Rightarrow> True | _ \<Rightarrow> False)"

lemma history_frame: "\<not> on_history e \<Longrightarrow> history_of pid (apply_effect env e d) = history_of pid d"
  by (cases e) (simp_all add: on_history_def apply_effect_def history_of_def)

lemma notifications_frame: "\<not> on_notifications e \<Longrightarrow> notifications_of c (apply_effect env e d) = notifications_of c d"
  by (cases e) (simp_all add: on_notifications_def apply_effect_def notifications_of_def)

lemmas story_frames = history_frame notifications_frame on_history_def on_notifications_def

text \<open>The effects of an end, on the rows of the call.\<close>

lemma end_frame:
  "history_of pid (apply_effects env (end_effects trigger now call) d) = history_of pid (apply_effects env (end_history trigger now call) d)"
  "notifications_of c (apply_effects env (end_effects trigger now call) d) = notifications_of c (apply_effects env (end_history trigger now call) d)"
  by (simp_all add: end_effects_def apply_effect_def)

text \<open>The announcement of an inbound call creates its two rows.\<close>

lemma inbound_rows_created:
  assumes "history_of pid d = []" "notifications_of c d = []" "length (cd_history d) < MAX_HISTORY_ENTRIES"
    and "c \<noteq> ''''" "c \<notin> ch_id ` set (cd_history d)" "ee_gen_id env \<notin> nt_id ` set (cd_notifications d)"
    and "\<And>e. ee_refs env e"
    and "inbound_session (Session info) provider entry_id pid c from_no to_no now s = (res, t, eff1)"
    and "inbound_numbers sip_tls (Inr label) provider info c from_no to_no t = (res', t', eff2)"
  shows "\<exists>e n. history_of pid (apply_effects env (eff1 @ eff2) d) = [e] \<and> ch_id e = c \<and> ch_phone_number e = from_no
      \<and> ch_call_type e = INCOMING \<and> ch_answered_by_device e = None
    \<and> notifications_of c (apply_effects env (eff1 @ eff2) d) = [n] \<and> nt_type n = Incoming_Call \<and> nt_status n = Pending
      \<and> np_caller_number (nt_payload n) = Some from_no"
proof -
  let ?input = "\<lparr> rc_id = Some c, rc_phone_number = from_no, rc_provider_number = Some to_no, rc_call_type = INCOMING,
    rc_duration_seconds = None, rc_provider_call_id = Some pid, rc_answered_by_device = None \<rparr>"
  have eff: "eff1 @ eff2 = [History_Record ?input, Notify_Incoming c from_no to_no label, Broadcast_Ringing c from_no]"
    using assms(8,9) by (auto simp: inbound_session_def inbound_numbers_def Let_def)
  let ?d = "apply_effect env (History_Record ?input) d"
  have h: "cd_history ?d = cd_history d @ [\<lparr> ch_id = c, ch_phone_number = from_no, ch_provider_number = Some to_no,
      ch_call_type = INCOMING, ch_timestamp = ee_now env, ch_duration_seconds = None, ch_provider_call_id = Some pid,
      ch_answered_by_device = None, ch_real_caller_number = None \<rparr>]" "cd_notifications ?d = cd_notifications d"
    using assms(3-5,7)
    by (auto simp: apply_effect_def record_call_def Let_def list_ex_iff enforce_entry_cap_def sql_insert_def image_iff)
  have "\<not> notification_exists (incoming_input c from_no to_no label (ee_timestamp env)) (cd_notifications d)"
    using assms(2) sql_first_None [of "same_source c Incoming_Call" "cd_notifications d"]
    by (simp add: notification_exists_def incoming_input_def notifications_of_def sql_select_def same_source_def filter_empty_conv)
  moreover have "\<not> list_ex (\<lambda>r. nt_id r = ee_gen_id env \<or> same_source c Incoming_Call r) (cd_notifications d)"
    using assms(2,6) by (force simp: list_ex_iff notifications_of_def sql_select_def same_source_def filter_empty_conv)
  ultimately have n: "cd_notifications (apply_effect env (Notify_Incoming c from_no to_no label) d') = cd_notifications d @
      [\<lparr> nt_id = ee_gen_id env, nt_type = Incoming_Call, nt_status = Pending, nt_source_entity_id = c,
         nt_source_entity_type = ''call_history'', nt_payload = cn_payload (incoming_input c from_no to_no label (ee_timestamp env)),
         nt_created_at = ee_now env, nt_updated_at = ee_now env \<rparr>]" if "cd_notifications d' = cd_notifications d" for d'
    using that by (simp add: apply_effect_def create_notification_def
        insert_notification_def Let_def sql_insert_def incoming_input_def)
  have n': "cd_history (apply_effect env (Notify_Incoming c from_no to_no label) d') = cd_history d'" for d'
    by (simp add: apply_effect_def)
  have b: "apply_effect env (Broadcast_Ringing c from_no) d' = d'" for d' by (simp add: apply_effect_def)
  show ?thesis unfolding eff using assms(1,2)
    by (simp add: b history_of_def notifications_of_def n [OF h(2)] n' h(1) sql_select_def incoming_input_def)
qed

text \<open>C2: What the services keep of an inbound call, from any reachable state in which it rings,
  given its history entry and its pending notification: a decline leaves the entry DECLINED and
  the notification read; any other end before an answer leaves the entry MISSED and turns the
  notification into a pending missed call; an answer by a registered device, completed by the
  provider, and ended at least half a second later leaves an INCOMING entry with that device
  and the duration to the half second, and the notification read.\<close>
theorem inbound_call_story:
  assumes "reach orch_init orch_step S" and "jm_get (or_active_calls (sy_state S)) c = Some call"
    and "ac_direction call = Inbound" and "\<not> ac_answered call" and "ac_provider_call_id call = pid"
    and "history_of pid d = [e]" and "ch_call_type e = INCOMING" and "ch_answered_by_device e = None"
    and "notifications_of c d = [n]" and "nt_type n = Incoming_Call" and "nt_status n = Pending"
    and "ee_device_exists env device" and "t1 + 500 \<le> t2" and "trigger \<noteq> Some ''declined''"
  shows "(let d' = apply_effects env (snd (end_call c (Some ''declined'') t2 (sy_state S))) d in
        history_of pid d' = [e\<lparr> ch_call_type := DECLINED \<rparr>]
        \<and> notifications_of c d' = [n\<lparr> nt_status := Read, nt_updated_at := ee_now env \<rparr>])
    \<and> (let d' = apply_effects env (snd (end_call c trigger t2 (sy_state S))) d in
        history_of pid d' = [e\<lparr> ch_call_type := MISSED \<rparr>]
        \<and> notifications_of c d' = [n\<lparr> nt_type := Missed_Call, nt_updated_at := ee_now env \<rparr>])
    \<and> (let s1 = fst (snd (answer_begin c device t1 (sy_state S)));
            d' = apply_effects env (snd (snd (answer_provided True call device s1))) d;
            d'' = apply_effects env (snd (end_call c trigger t2 s1)) d' in
        \<exists>seconds. history_of pid d'' = [e\<lparr> ch_answered_by_device := Some device, ch_duration_seconds := Some seconds \<rparr>]
          \<and> \<bar>1000 * seconds - (t2 - t1)\<bar> \<le> 500
          \<and> notifications_of c d'' = [n\<lparr> nt_status := Read, nt_updated_at := ee_now env \<rparr>])"
proof -
  let ?s = "sy_state S" and ?s1 = "set_answered c device t1 (sy_state S)"
  let ?a = "call\<lparr> ac_answered := True, ac_answered_by_device := Some device, ac_answered_at := Some t1,
    ac_watchdog := Some MAX_CALL_DURATION_MS \<rparr>"
  have m: "maps_ok ?s" by (rule reach_maps_ok [OF assms(1)])
  have k: "ac_call_id call = c" using maps_ok_call [OF m assms(2)] by (simp add: call_ok_def)
  have r: "jm_get (or_active_calls ?s) (resolve_to_call_id c ?s) = Some call" using assms(2) by simp
  have e: "snd (end_call c tr t2 ?s) = end_effects tr t2 call" for tr using end_call_some [OF m r, of tr t2] by simp
  have one: "history_of pid (apply_effects env (end_effects (Some ''declined'') t2 call) d) = [e\<lparr> ch_call_type := DECLINED \<rparr>]
      \<and> notifications_of c (apply_effects env (end_effects (Some ''declined'') t2 call) d) = [n\<lparr> nt_status := Read, nt_updated_at := ee_now env \<rparr>]"
    unfolding end_frame end_history_def using assms(3-11) k
    by (simp add: history_frame notifications_frame on_history_def on_notifications_def history_update_type notifications_resolved)
  have two: "history_of pid (apply_effects env (end_effects trigger t2 call) d) = [e\<lparr> ch_call_type := MISSED \<rparr>]
      \<and> notifications_of c (apply_effects env (end_effects trigger t2 call) d) = [n\<lparr> nt_type := Missed_Call, nt_updated_at := ee_now env \<rparr>]"
    unfolding end_frame end_history_def using assms(3-11,14) k
    by (simp add: history_frame notifications_frame on_history_def on_notifications_def history_update_type notifications_missed)
  have s1: "fst (snd (answer_begin c device t1 ?s)) = ?s1"
    using assms(2-4) by (auto simp: answer_begin_def Let_def)
  have m1: "maps_ok ?s1" by (rule maps_ok_set_answered [OF m])
  have g1: "jm_get (or_active_calls ?s1) c = Some ?a" unfolding set_answered_eq using assms(2) by simp
  have r1: "jm_get (or_active_calls ?s1) (resolve_to_call_id c ?s1) = Some ?a"
    unfolding resolve_active [of ?s1 c, unfolded g1, simplified] by (rule g1)
  have e1: "snd (end_call c trigger t2 ?s1) = end_effects trigger t2 ?a" using end_call_some [OF m1 r1, of trigger t2] by simp
  have p: "snd (snd (answer_provided True call device ?s1)) = [Broadcast_Cancelled_Except device c, History_Mark_Answered pid device, Notify_Resolved c]"
    by (simp add: answer_provided_def answer_finish_def k assms(5))
  define d' where "d' = apply_effects env [Broadcast_Cancelled_Except device c, History_Mark_Answered pid device, Notify_Resolved c] d"
  have d': "history_of pid d' = [e\<lparr> ch_answered_by_device := Some device \<rparr>]"
    "notifications_of c d' = [n\<lparr> nt_status := Read, nt_updated_at := ee_now env \<rparr>]"
    unfolding d'_def using assms(6,9-12)
    by (simp_all add: history_frame notifications_frame on_history_def on_notifications_def history_mark_answered notifications_resolved)
  let ?n = "(t2 - t1 + 500) div 1000"
  have n: "\<bar>1000 * ?n - (t2 - t1)\<bar> \<le> 500" "0 < ?n" using rounded_seconds [of "t2 - t1"] rounded_positive [of "t2 - t1"] assms(13) by auto
  have h: "end_history trigger t2 ?a = [History_Update_Duration pid ?n]"
    using n(2) assms(3,5) by (simp add: end_history_def duration_seconds_def)
  have three: "history_of pid (apply_effects env (end_effects trigger t2 ?a) d') =
        [e\<lparr> ch_answered_by_device := Some device, ch_duration_seconds := Some ?n \<rparr>]
      \<and> notifications_of c (apply_effects env (end_effects trigger t2 ?a) d') = [n\<lparr> nt_status := Read, nt_updated_at := ee_now env \<rparr>]"
    unfolding end_frame h by (simp add: history_update_duration notifications_frame on_notifications_def d')
  show ?thesis unfolding Let_def s1 e e1 p d'_def [symmetric] using one two three n(1) by blast
qed

text \<open>The rows of the sample call.\<close>

definition sample_entry_row :: call_entry where
  "sample_entry_row = \<lparr> ch_id = ''c1'', ch_phone_number = ''+4670'', ch_provider_number = Some ''+4680'', ch_call_type = INCOMING,
     ch_timestamp = 1000, ch_duration_seconds = None, ch_provider_call_id = Some ''p1'', ch_answered_by_device = None,
     ch_real_caller_number = None \<rparr>"

definition sample_notification :: notification where
  "sample_notification = \<lparr> nt_id = ''n1'', nt_type = Incoming_Call, nt_status = Pending, nt_source_entity_id = ''c1'',
     nt_source_entity_type = ''call_history'', nt_payload = cn_payload (incoming_input ''c1'' ''+4670'' ''+4680'' None ''t''),
     nt_created_at = 1000, nt_updated_at = 1000 \<rparr>"

definition sample_data :: call_data where
  "sample_data = \<lparr> cd_history = [sample_entry_row], cd_notifications = [sample_notification] \<rparr>"

definition sample_env :: effect_env where
  "sample_env = \<lparr> ee_refs = \<lambda>_. True, ee_device_exists = \<lambda>x. x = ''d1'', ee_now = 70000, ee_gen_id = ''g'', ee_timestamp = ''t'',
     ee_devices = None \<rparr>"

theorem inbound_call_story_witness:
  "history_of ''p1'' (apply_effects sample_env (snd (end_call ''c1'' (Some ''declined'') 65499 (sy_state ringing_system))) sample_data)
     = [sample_entry_row\<lparr> ch_call_type := DECLINED \<rparr>]"
proof -
  have s: "jm_get (or_active_calls (sy_state ringing_system)) ''c1'' = Some sample_call"
    "ac_direction sample_call = Inbound" "\<not> ac_answered sample_call" "ac_provider_call_id sample_call = ''p1''"
    by (simp_all add: sample_defs jmap_eval)
  have d: "history_of ''p1'' sample_data = [sample_entry_row]" "ch_call_type sample_entry_row = INCOMING"
    "ch_answered_by_device sample_entry_row = None" "notifications_of ''c1'' sample_data = [sample_notification]"
    "nt_type sample_notification = Incoming_Call" "nt_status sample_notification = Pending" "ee_device_exists sample_env ''d1''"
    by (simp_all add: history_of_def notifications_of_def sql_select_def sample_data_def sample_entry_row_def
        sample_notification_def sample_env_def)
  show ?thesis
    using inbound_call_story [OF ringing_reachable s d, of 5000 65499 None] by (simp add: Let_def)
qed

end
