(* ===== verification/Failure_Detector.thy ===== *)
theory Failure_Detector
  imports Call_Sweeps
begin

text \<open>
  \<^verbatim>\<open>src/services/media-bridge-failure-detector.ts\<close>: the edge detector over the bridge's health
  and event connection, and its reaction through the orchestrator. What the client and the
  listener answer at a poll are arguments. The promise of \<^verbatim>\<open>endAllCalls\<close> settles later, which
  clears the busy flag; the ends themselves are taken as one step.
\<close>

record failure_detector =
  fd_polling :: bool
  fd_was_healthy :: bool
  fd_was_connected :: bool
  fd_handling_failure :: bool

datatype failure_reason = Health_Check_Failure | Event_Websocket_Disconnect

definition new_detector :: failure_detector where
  "new_detector = \<lparr> fd_polling = False, fd_was_healthy = False, fd_was_connected = False, fd_handling_failure = False \<rparr>"

definition detector_start :: "failure_detector \<Rightarrow> failure_detector" where
  "detector_start d = (if fd_polling d then d else d\<lparr> fd_polling := True \<rparr>)"

definition detector_stop :: "failure_detector \<Rightarrow> failure_detector" where
  "detector_stop d = (if fd_polling d then d\<lparr> fd_polling := False \<rparr> else d)"

definition handle_failure :: "failure_reason \<Rightarrow> int \<Rightarrow> failure_detector \<Rightarrow> orchestrator \<Rightarrow> failure_detector \<times> orchestrator \<times> orch_effect list" where
  "handle_failure reason now d s =
     (case end_all_calls now s of (t, eff) \<Rightarrow>
        (d\<lparr> fd_handling_failure := True, fd_was_healthy := False, fd_was_connected := False \<rparr>, t, Broadcast_Failed # eff))"

definition detector_check ::
    "bool \<Rightarrow> bool \<Rightarrow> int \<Rightarrow> failure_detector \<Rightarrow> orchestrator
      \<Rightarrow> failure_reason option \<times> failure_detector \<times> orchestrator \<times> orch_effect list" where
  "detector_check is_healthy is_connected now d s =
     (let d1 = (if is_healthy then d\<lparr> fd_was_healthy := True \<rparr> else d);
          d2 = (if is_connected then d1\<lparr> fd_was_connected := True \<rparr> else d1);
          health_failure = (fd_was_healthy d2 \<and> \<not> is_healthy);
          connection_failure = (fd_was_connected d2 \<and> \<not> is_connected)
      in if (health_failure \<or> connection_failure) \<and> \<not> fd_handling_failure d2
         then let reason = (if health_failure then Health_Check_Failure else Event_Websocket_Disconnect)
              in (Some reason, handle_failure reason now d2 s)
         else (None, d2, s, []))"

definition failure_handled :: "failure_detector \<Rightarrow> failure_detector" where
  "failure_handled d = d\<lparr> fd_handling_failure := False \<rparr>"

text \<open>
  The reasons reported over a list of polls, each failure being handled before the next
  poll.
\<close>

fun detector_reports :: "(bool \<times> bool) list \<Rightarrow> failure_detector \<Rightarrow> orchestrator \<Rightarrow> failure_reason option list" where
  "detector_reports [] d s = []"
| "detector_reports ((h, c) # polls) d s =
     (case detector_check h c 0 d s of (r, d', s', _) \<Rightarrow> r # detector_reports polls (failure_handled d') s')"

fun detector_after :: "(bool \<times> bool) list \<Rightarrow> failure_detector \<Rightarrow> orchestrator \<Rightarrow> failure_detector \<times> orchestrator" where
  "detector_after [] d s = (d, s)"
| "detector_after ((h, c) # polls) d s =
     (case detector_check h c 0 d s of (_, d', s', _) \<Rightarrow> detector_after polls (failure_handled d') s')"

lemma detector_reports_snoc:
  "detector_reports (polls @ [(h, c)]) d s =
     detector_reports polls d s @ [fst (detector_check h c 0 (fst (detector_after polls d s)) (snd (detector_after polls d s)))]"
  by (induction polls d s rule: detector_reports.induct) (auto split: prod.splits)

lemma detector_after_snoc:
  "detector_after (polls @ [(h, c)]) d s =
     (case detector_check h c 0 (fst (detector_after polls d s)) (snd (detector_after polls d s)) of (_, d', s', _) \<Rightarrow> (failure_handled d', s'))"
  by (induction polls d s rule: detector_reports.induct) (auto split: prod.splits)

lemma length_detector_reports [simp]: "length (detector_reports polls d s) = length polls"
  by (induction polls d s rule: detector_reports.induct) (auto split: prod.splits)

text \<open>Up at some poll since the last report.\<close>

definition seen_since :: "(bool \<times> bool \<Rightarrow> bool) \<Rightarrow> (bool \<times> bool) list \<Rightarrow> failure_reason option list \<Rightarrow> bool" where
  "seen_since up polls reports \<longleftrightarrow> (\<exists>j < length polls. up (polls ! j) \<and> (\<forall>k. j \<le> k \<and> k < length polls \<longrightarrow> reports ! k = None))"

lemma seen_since_snoc:
  assumes "length reports = length polls"
  shows "seen_since up (polls @ [p]) (reports @ [r]) \<longleftrightarrow> r = None \<and> (up p \<or> seen_since up polls reports)"
proof
  assume "seen_since up (polls @ [p]) (reports @ [r])"
  then obtain j where j: "j < Suc (length polls)" "up ((polls @ [p]) ! j)"
    "\<And>k. j \<le> k \<Longrightarrow> k < Suc (length polls) \<Longrightarrow> (reports @ [r]) ! k = None" by (auto simp: seen_since_def)
  have "r = None" using j(3) [of "length polls"] j(1) assms by (simp add: nth_append)
  moreover have "up p \<or> seen_since up polls reports"
  proof (cases "j = length polls")
    case False
    then have "j < length polls" "up (polls ! j)" "\<forall>k. j \<le> k \<and> k < length polls \<longrightarrow> reports ! k = None"
      using j assms by (auto simp: nth_append) (metis less_SucI)
    then show ?thesis by (auto simp: seen_since_def)
  qed (use j(2) in simp)
  ultimately show "r = None \<and> (up p \<or> seen_since up polls reports)" by blast
next
  assume a: "r = None \<and> (up p \<or> seen_since up polls reports)"
  show "seen_since up (polls @ [p]) (reports @ [r])"
  proof (cases "up p")
    case True
    then show ?thesis using a assms unfolding seen_since_def
      by (intro exI [of _ "length polls"]) (auto simp: nth_append less_Suc_eq)
  next
    case False
    then obtain j where "j < length polls" "up (polls ! j)" "\<forall>k. j \<le> k \<and> k < length polls \<longrightarrow> reports ! k = None"
      using a by (auto simp: seen_since_def)
    then show ?thesis using a assms unfolding seen_since_def
      by (intro exI [of _ j]) (auto simp: nth_append less_Suc_eq)
  qed
qed

lemma detector_flags:
  "fd_was_healthy (fst (detector_after polls new_detector s)) = seen_since fst polls (detector_reports polls new_detector s)
   \<and> fd_was_connected (fst (detector_after polls new_detector s)) = seen_since snd polls (detector_reports polls new_detector s)
   \<and> \<not> fd_handling_failure (fst (detector_after polls new_detector s))"
proof (induction polls rule: rev_induct)
  case Nil
  then show ?case by (simp add: new_detector_def seen_since_def)
next
  case (snoc p polls)
  obtain h c where p: "p = (h, c)" by (cases p)
  then show ?case using snoc
    by (simp add: detector_after_snoc detector_reports_snoc seen_since_snoc)
      (auto simp: detector_check_def handle_failure_def failure_handled_def Let_def split: prod.splits)
qed

text \<open>From its creation, with every failure handled before the next poll, the detector
  reports at a poll exactly when the bridge is unhealthy, or its event connection is down, there
  and the same signal was up at an earlier poll since the last report; in particular it never
  reports before the bridge was first seen, nor twice for one outage, and the health check is
  the reason given when both signals fall.\<close>
theorem failure_reported_on_falling_edge:
  "detector_reports (polls @ [(healthy, connected_now)]) new_detector s =
     detector_reports polls new_detector s @
       [if \<not> healthy \<and> seen_since fst polls (detector_reports polls new_detector s) then Some Health_Check_Failure
        else if \<not> connected_now \<and> seen_since snd polls (detector_reports polls new_detector s) then Some Event_Websocket_Disconnect
        else None]"
  using detector_flags [of polls s]
  by (auto simp: detector_reports_snoc detector_check_def handle_failure_def Let_def split: prod.splits)

text \<open>A report, from a reachable state of the orchestrator, tells the clients once that the
  service failed, ends every call, hanging up each of their legs, and disarms the detector;
  a poll while a failure is being handled, or without one, changes no call and sends nothing.\<close>
theorem failure_ends_all_calls:
  assumes "reach orch_init orch_step S" and "detector_check healthy connected_now now d (sy_state S) = (r, d', t, eff)"
  shows "(if r = None then t = sy_state S \<and> eff = []
     else or_active_calls t = [] \<and> or_session_to_call t = [] \<and> \<not> fd_handling_failure d
       \<and> fd_handling_failure d' \<and> \<not> fd_was_healthy d' \<and> \<not> fd_was_connected d'
       \<and> filter (\<lambda>e. e = Broadcast_Failed) eff = [Broadcast_Failed]
       \<and> ended_legs eff = map (ac_provider_call_id \<circ> snd) (or_active_calls (sy_state S)))"
proof (cases r)
  case None
  then show ?thesis using assms(2) by (auto simp: detector_check_def Let_def split: if_splits)
next
  case (Some reason)
  obtain u eu where e: "end_all_calls now (sy_state S) = (u, eu)" by fastforce
  note all = end_all_calls_facts [OF assms(1) e]
  have "t = u" "eff = Broadcast_Failed # eu" "\<not> fd_handling_failure d" "fd_handling_failure d'" "\<not> fd_was_healthy d'" "\<not> fd_was_connected d'"
    using assms(2) Some e by (auto simp: detector_check_def handle_failure_def Let_def split: if_splits)
  then show ?thesis using Some all by (auto simp: ended_legs_def List.map_filter_simps filter_empty_conv)
qed

theorem failure_ends_all_calls_witness:
  "or_active_calls (fst (snd (snd (detector_check False True 9000 (new_detector\<lparr> fd_was_healthy := True \<rparr>) (sy_state answering_system))))) = []"
proof -
  obtain r d t eff where c: "detector_check False True 9000 (new_detector\<lparr> fd_was_healthy := True \<rparr>) (sy_state answering_system) = (r, d, t, eff)"
    by (metis prod_cases4)
  have "r \<noteq> None" using c by (auto simp: detector_check_def new_detector_def Let_def)
  then show ?thesis using failure_ends_all_calls [OF answering_reachable c] unfolding c by simp
qed

end
