(* ===== verification/Call_Router.thy ===== *)
theory Call_Router
  imports Orchestrator_Props
begin

text \<open>
  \<^verbatim>\<open>src/services/call-router.ts\<close>: the routing of an incoming call to all devices. A pending
  call is resolved once, by an answer, a decline, the caller or the ring timeout. \<open>answerCall\<close>
  and \<open>declineCall\<close> are split at their await; the provider accepts, refuses (a result without
  success) or rejects (a thrown error). A timer is whether it is armed. The getters hand out
  copies. The router is not used after \<open>dispose\<close>, so a pending call is named by its identifier.
\<close>

record router_pending =
  rp_call_id :: string
  rp_from :: string
  rp_to :: string
  rp_started_at :: int
  rp_resolved :: bool
  rp_timer :: bool

record router_active =
  ra_call_id :: string
  ra_device_id :: string
  ra_remote_party :: string
  ra_started_at :: int
  ra_provider_number :: string

record call_router =
  ro_pending :: "(string, router_pending) jmap"
  ro_active :: "(string, router_active) jmap"

datatype router_reason = Answered_Elsewhere | Declined_Reason | Timeout_Reason | Caller_Disconnect

datatype router_effect =
    Incoming_Call string string string
  | Call_Answered string string string
  | Call_Cancelled string router_reason
  | Stop_Ringing string
  | Active_Call_Started string router_active
  | Active_Call_Ended string
  | Provider_Answer_Call string string
  | Provider_End string
  | On_Missed_Call string string string
  | On_Declined_Call string string string

datatype provider_answer = Accepts | Refuses | Rejects

datatype router_answer = Router_Not_Found | Router_Already_Answered | Router_Result provider_answer

definition new_router :: call_router where
  "new_router = \<lparr> ro_pending = [], ro_active = [] \<rparr>"

definition handle_incoming_call :: "string \<Rightarrow> string \<Rightarrow> string \<Rightarrow> int \<Rightarrow> call_router \<Rightarrow> call_router \<times> router_effect list" where
  "handle_incoming_call c from to now r =
     (if jm_has (ro_pending r) c then (r, [])
      else (r\<lparr> ro_pending := jm_set c \<lparr> rp_call_id = c, rp_from = from, rp_to = to, rp_started_at = now,
                rp_resolved = False, rp_timer = True \<rparr> (ro_pending r) \<rparr>,
            [Incoming_Call c from to]))"

definition mark_resolved :: "string \<Rightarrow> call_router \<Rightarrow> call_router" where
  "mark_resolved c r = r\<lparr> ro_pending := jm_modify c (\<lambda>p. p\<lparr> rp_resolved := True, rp_timer := False \<rparr>) (ro_pending r) \<rparr>"

definition router_answer_begin ::
    "string \<Rightarrow> string \<Rightarrow> call_router \<Rightarrow> (router_answer + router_pending) \<times> call_router \<times> router_effect list" where
  "router_answer_begin c device r =
     (case jm_get (ro_pending r) c of
        None \<Rightarrow> (Inl Router_Not_Found, r, [])
      | Some p \<Rightarrow>
          if rp_resolved p then (Inl Router_Already_Answered, r, [])
          else (Inr p, mark_resolved c r, [Provider_Answer_Call c device]))"

definition router_answer_end ::
    "provider_answer \<Rightarrow> router_pending \<Rightarrow> string \<Rightarrow> string \<Rightarrow> int \<Rightarrow> call_router
      \<Rightarrow> router_answer \<times> call_router \<times> router_effect list" where
  "router_answer_end result p c device now r =
     (case result of
        Rejects \<Rightarrow> (Router_Result Rejects, r, [])
      | Refuses \<Rightarrow>
          (Router_Result Refuses,
           r\<lparr> ro_pending := jm_modify c (\<lambda>p. p\<lparr> rp_resolved := False, rp_timer := True \<rparr>) (ro_pending r) \<rparr>, [])
      | Accepts \<Rightarrow>
          let info = \<lparr> ra_call_id = c, ra_device_id = device, ra_remote_party = rp_from p, ra_started_at = now,
                ra_provider_number = rp_to p \<rparr>
          in (Router_Result Accepts,
              r\<lparr> ro_active := jm_set (rp_to p) info (ro_active r), ro_pending := jm_delete c (ro_pending r) \<rparr>,
              [Call_Answered c device (rp_to p), Call_Cancelled c Answered_Elsewhere,
               Active_Call_Started (rp_to p) info]))"

definition router_decline_begin ::
    "string \<Rightarrow> call_router \<Rightarrow> router_pending option \<times> call_router \<times> router_effect list" where
  "router_decline_begin c r =
     (case jm_get (ro_pending r) c of
        None \<Rightarrow> (None, r, [])
      | Some p \<Rightarrow>
          if rp_resolved p then (None, r, [])
          else (Some p, mark_resolved c r, [Provider_End c]))"

text \<open>\<open>ended\<close>: the provider's \<^verbatim>\<open>endCall\<close> resolved; otherwise its error is thrown.\<close>

definition router_decline_end ::
    "bool \<Rightarrow> router_pending \<Rightarrow> string \<Rightarrow> call_router \<Rightarrow> call_router \<times> router_effect list" where
  "router_decline_end ended p c r =
     (if ended then
        (r\<lparr> ro_pending := jm_delete c (ro_pending r) \<rparr>,
         [Stop_Ringing c, Call_Cancelled c Declined_Reason, On_Declined_Call c (rp_from p) (rp_to p)])
      else (r, []))"

definition handle_caller_disconnect :: "string \<Rightarrow> call_router \<Rightarrow> call_router \<times> router_effect list" where
  "handle_caller_disconnect c r =
     (case jm_get (ro_pending r) c of
        None \<Rightarrow> (r, [])
      | Some p \<Rightarrow>
          if rp_resolved p then (r, [])
          else (r\<lparr> ro_pending := jm_delete c (ro_pending r) \<rparr>,
                [Stop_Ringing c, Call_Cancelled c Caller_Disconnect, On_Missed_Call c (rp_from p) (rp_to p)]))"

definition handle_call_ended :: "string \<Rightarrow> call_router \<Rightarrow> call_router \<times> router_effect list" where
  "handle_call_ended c r =
     (if jm_has (ro_pending r) c then handle_caller_disconnect c r
      else (case find (\<lambda>(_, info). ra_call_id info = c) (ro_active r) of
          None \<Rightarrow> (r, [])
        | Some (number, _) \<Rightarrow> (r\<lparr> ro_active := jm_delete number (ro_active r) \<rparr>, [Active_Call_Ended number])))"

definition router_handle_timeout :: "string \<Rightarrow> call_router \<Rightarrow> call_router \<times> router_effect list" where
  "router_handle_timeout c r =
     (case jm_get (ro_pending r) c of
        None \<Rightarrow> (r, [])
      | Some p \<Rightarrow>
          if rp_resolved p then (r, [])
          else (r\<lparr> ro_pending := jm_delete c (ro_pending r) \<rparr>,
                [Provider_End c, Stop_Ringing c, Call_Cancelled c Timeout_Reason,
                 On_Missed_Call c (rp_from p) (rp_to p)]))"

definition get_active_call_for_number :: "string \<Rightarrow> call_router \<Rightarrow> router_active option" where
  "get_active_call_for_number number r = jm_get (ro_active r) number"

definition is_pending_call :: "string \<Rightarrow> call_router \<Rightarrow> bool" where
  "is_pending_call c r \<longleftrightarrow> (case jm_get (ro_pending r) c of None \<Rightarrow> False | Some p \<Rightarrow> \<not> rp_resolved p)"

definition router_dispose :: "call_router \<Rightarrow> call_router" where
  "router_dispose r = r\<lparr> ro_pending := [], ro_active := [] \<rparr>"

section \<open>The handlers as steps\<close>

text \<open>The answers and declines that wait for the provider are part of the state.\<close>

record router_system =
  rs_router :: call_router
  rs_answering :: "(string \<times> string \<times> router_pending) list"
  rs_declining :: "(string \<times> router_pending) list"

datatype router_event =
    Re_Incoming string
  | Re_Answer string string
  | Re_Answer_End string provider_answer
  | Re_Decline string
  | Re_Decline_End string bool
  | Re_Call_Ended string
  | Re_Timeout string

inductive router_step :: "router_system \<Rightarrow> router_event \<times> router_effect list \<Rightarrow> router_system \<Rightarrow> bool" where
  rs_incoming: "handle_incoming_call c from to now (rs_router R) = (t, eff) \<Longrightarrow>
     router_step R (Re_Incoming c, eff) (R\<lparr> rs_router := t \<rparr>)"
| rs_answer: "router_answer_begin c device (rs_router R) = (res, t, eff) \<Longrightarrow>
     router_step R (Re_Answer c device, eff) (R\<lparr> rs_router := t,
       rs_answering := (case res of Inl _ \<Rightarrow> rs_answering R | Inr p \<Rightarrow> (c, device, p) # rs_answering R) \<rparr>)"
| rs_answer_end: "(c, device, p) \<in> set (rs_answering R) \<Longrightarrow>
     router_answer_end result p c device now (rs_router R) = (res, t, eff) \<Longrightarrow>
     router_step R (Re_Answer_End c result, eff)
       (R\<lparr> rs_router := t, rs_answering := removeAll (c, device, p) (rs_answering R) \<rparr>)"
| rs_decline: "router_decline_begin c (rs_router R) = (res, t, eff) \<Longrightarrow>
     router_step R (Re_Decline c, eff) (R\<lparr> rs_router := t,
       rs_declining := (case res of None \<Rightarrow> rs_declining R | Some p \<Rightarrow> (c, p) # rs_declining R) \<rparr>)"
| rs_decline_end: "(c, p) \<in> set (rs_declining R) \<Longrightarrow> router_decline_end ended p c (rs_router R) = (t, eff) \<Longrightarrow>
     router_step R (Re_Decline_End c ended, eff)
       (R\<lparr> rs_router := t, rs_declining := removeAll (c, p) (rs_declining R) \<rparr>)"
| rs_ended: "handle_call_ended c (rs_router R) = (t, eff) \<Longrightarrow>
     router_step R (Re_Call_Ended c, eff) (R\<lparr> rs_router := t \<rparr>)"
| rs_timeout: "jm_get (ro_pending (rs_router R)) c = Some p \<Longrightarrow> rp_timer p \<Longrightarrow>
     router_handle_timeout c (rs_router R) = (t, eff) \<Longrightarrow>
     router_step R (Re_Timeout c, eff) (R\<lparr> rs_router := t \<rparr>)"

definition router_init :: "router_system \<Rightarrow> bool" where
  "router_init R \<longleftrightarrow> R = \<lparr> rs_router = new_router, rs_answering = [], rs_declining = [] \<rparr>"

text \<open>The calls some handler is busy with.\<close>

definition busy_ids :: "router_system \<Rightarrow> string list" where
  "busy_ids R = map fst (rs_answering R) @ map fst (rs_declining R)"

text \<open>
  A pending call is filed under its identifier and has a timer exactly when it is
  unresolved; a handler is busy only with a resolved pending call, and one handler at most.
\<close>

definition pendings_ok :: "call_router \<Rightarrow> bool" where
  "pendings_ok r \<longleftrightarrow> jm_ok (ro_pending r) \<and> jm_ok (ro_active r)
     \<and> (\<forall>c p. jm_get (ro_pending r) c = Some p \<longrightarrow> rp_call_id p = c \<and> (rp_timer p \<longleftrightarrow> \<not> rp_resolved p))
     \<and> (\<forall>n a. jm_get (ro_active r) n = Some a \<longrightarrow> ra_provider_number a = n)"

definition busy_ok :: "string list \<Rightarrow> call_router \<Rightarrow> bool" where
  "busy_ok B r \<longleftrightarrow> distinct B \<and> (\<forall>c \<in> set B. \<exists>p. jm_get (ro_pending r) c = Some p \<and> rp_resolved p)"

definition router_inv :: "router_system \<Rightarrow> bool" where
  "router_inv R \<longleftrightarrow> pendings_ok (rs_router R) \<and> busy_ok (busy_ids R) (rs_router R)"

lemma pendings_ok_resolved [simp]: "pendings_ok r \<Longrightarrow> pendings_ok (mark_resolved c r)"
  by (auto simp: pendings_ok_def mark_resolved_def)

lemma get_mark_resolved [simp]:
  "jm_get (ro_pending (mark_resolved c r)) k =
     (if k = c then map_option (\<lambda>p. p\<lparr> rp_resolved := True, rp_timer := False \<rparr>) (jm_get (ro_pending r) k)
      else jm_get (ro_pending r) k)"
  by (simp add: mark_resolved_def)

lemma pendings_ok_delete: "pendings_ok r \<Longrightarrow> pendings_ok (r\<lparr> ro_pending := jm_delete c (ro_pending r) \<rparr>)"
  by (auto simp: pendings_ok_def)

lemma busy_ok_free: "busy_ok B r \<Longrightarrow> \<not> (\<exists>p. jm_get (ro_pending r) c = Some p \<and> rp_resolved p) \<Longrightarrow> c \<notin> set B"
  by (auto simp: busy_ok_def)

lemma busy_ok_other:
  assumes "busy_ok B r" "c \<notin> set B" "\<And>k. k \<noteq> c \<Longrightarrow> jm_get (ro_pending t) k = jm_get (ro_pending r) k"
  shows "busy_ok B t"
  using assms unfolding busy_ok_def by metis

lemma busy_ok_begin:
  assumes "busy_ok B r" "jm_get (ro_pending r) c = Some p" "\<not> rp_resolved p" "set B' = insert c (set B)" "distinct B'"
  shows "busy_ok B' (mark_resolved c r)"
  using assms unfolding busy_ok_def by auto

lemma busy_ok_less: "busy_ok B r \<Longrightarrow> set B' \<subseteq> set B \<Longrightarrow> distinct B' \<Longrightarrow> busy_ok B' r"
  unfolding busy_ok_def by blast

text \<open>A removed entry leaves the list of busy handlers without its identifier.\<close>

lemma removeAll_keys:
  assumes "distinct (map fst xs)" "(c, x) \<in> set xs"
  shows "map fst (removeAll (c, x) xs) = removeAll c (map fst xs)"
  using assms
proof (induction xs)
  case (Cons y ys)
  show ?case
  proof (cases "y = (c, x)")
    case True
    then have "c \<notin> fst ` set ys" using Cons.prems by auto
    then have "(c, x) \<notin> set ys" "c \<notin> set (map fst ys)" by (auto intro: rev_image_eqI)
    then show ?thesis using True by (simp add: removeAll_id)
  next
    case False
    then have "(c, x) \<in> set ys" "fst y \<noteq> c" using Cons.prems by (auto intro: rev_image_eqI)
    then show ?thesis using Cons False by auto
  qed
qed simp

lemma busy_done:
  assumes "distinct (busy_ids R)"
  shows "(c, device, p) \<in> set (rs_answering R) \<Longrightarrow>
      busy_ids (R\<lparr> rs_router := t, rs_answering := removeAll (c, device, p) (rs_answering R) \<rparr>) = removeAll c (busy_ids R)
      \<and> c \<in> set (busy_ids R)"
    and "(c, p) \<in> set (rs_declining R) \<Longrightarrow>
      busy_ids (R\<lparr> rs_router := t, rs_declining := removeAll (c, p) (rs_declining R) \<rparr>) = removeAll c (busy_ids R)
      \<and> c \<in> set (busy_ids R)"
proof -
  have d: "distinct (map fst (rs_answering R))" "distinct (map fst (rs_declining R))"
    "fst ` set (rs_answering R) \<inter> fst ` set (rs_declining R) = {}" using assms by (auto simp: busy_ids_def)
  { assume a: "(c, device, p) \<in> set (rs_answering R)"
    then have m: "c \<in> fst ` set (rs_answering R)" by (auto intro: rev_image_eqI)
    then have "c \<notin> set (map fst (rs_declining R))" using d(3) by auto
    then show "busy_ids (R\<lparr> rs_router := t, rs_answering := removeAll (c, device, p) (rs_answering R) \<rparr>) = removeAll c (busy_ids R)
      \<and> c \<in> set (busy_ids R)" using m removeAll_keys [OF d(1) a] by (simp add: busy_ids_def removeAll_id) }
  { assume a: "(c, p) \<in> set (rs_declining R)"
    then have m: "c \<in> fst ` set (rs_declining R)" by (auto intro: rev_image_eqI)
    then have "c \<notin> set (map fst (rs_answering R))" using d(3) by auto
    then show "busy_ids (R\<lparr> rs_router := t, rs_declining := removeAll (c, p) (rs_declining R) \<rparr>) = removeAll c (busy_ids R)
      \<and> c \<in> set (busy_ids R)" using m removeAll_keys [OF d(2) a] by (simp add: busy_ids_def removeAll_id) }
qed

text \<open>A finished handler gives its call up: the others are busy with other calls.\<close>

lemma busy_ok_done:
  assumes "busy_ok B r" "\<And>k. k \<noteq> c \<Longrightarrow> jm_get (ro_pending t) k = jm_get (ro_pending r) k"
  shows "busy_ok (removeAll c B) t"
proof (rule busy_ok_other [OF _ _ assms(2)])
  show "busy_ok (removeAll c B) r" using assms(1) by (rule busy_ok_less) (use assms(1) in \<open>auto simp: busy_ok_def distinct_removeAll\<close>)
  show "c \<notin> set (removeAll c B)" by simp
qed

lemma inv_incoming:
  assumes "router_inv R" "handle_incoming_call c from to now (rs_router R) = (t, eff)"
  shows "router_inv (R\<lparr> rs_router := t \<rparr>)"
proof (cases "jm_has (ro_pending (rs_router R)) c")
  case True
  then have "t = rs_router R" using assms(2) by (simp add: handle_incoming_call_def)
  then show ?thesis using assms(1) by simp
next
  case False
  then have n: "jm_get (ro_pending (rs_router R)) c = None" by (simp add: jm_has_iff)
  have b: "busy_ok (busy_ids R) (rs_router R)" and p: "pendings_ok (rs_router R)" using assms(1) by (auto simp: router_inv_def)
  have t: "pendings_ok t" "\<And>k. k \<noteq> c \<Longrightarrow> jm_get (ro_pending t) k = jm_get (ro_pending (rs_router R)) k"
    using assms(2) False p by (auto simp: handle_incoming_call_def pendings_ok_def split: if_splits)
  have "busy_ok (busy_ids R) t" by (rule busy_ok_other [OF b busy_ok_free [OF b, of c] t(2)]) (use n in auto)
  then show ?thesis using t(1) by (simp add: router_inv_def busy_ids_def)
qed

text \<open>The operations that resolve a call at once delete it, or do nothing.\<close>

lemma inv_removed:
  assumes "router_inv R" "t = rs_router R \<or>
      (\<exists>p. jm_get (ro_pending (rs_router R)) c = Some p \<and> \<not> rp_resolved p
         \<and> t = (rs_router R)\<lparr> ro_pending := jm_delete c (ro_pending (rs_router R)) \<rparr>)"
  shows "router_inv (R\<lparr> rs_router := t \<rparr>)"
  using assms(2)
proof
  assume "\<exists>p. jm_get (ro_pending (rs_router R)) c = Some p \<and> \<not> rp_resolved p
         \<and> t = (rs_router R)\<lparr> ro_pending := jm_delete c (ro_pending (rs_router R)) \<rparr>"
  then obtain p where p: "jm_get (ro_pending (rs_router R)) c = Some p" "\<not> rp_resolved p"
    and t: "t = (rs_router R)\<lparr> ro_pending := jm_delete c (ro_pending (rs_router R)) \<rparr>" by blast
  have b: "busy_ok (busy_ids R) (rs_router R)" and k: "pendings_ok (rs_router R)" using assms(1) by (auto simp: router_inv_def)
  have "busy_ok (busy_ids R) t" unfolding t
    by (rule busy_ok_other [OF b busy_ok_free [OF b, of c]]) (use p in auto)
  then show ?thesis using pendings_ok_delete [OF k, of c] unfolding t by (simp add: router_inv_def busy_ids_def)
qed (use assms(1) in simp)

lemma inv_ended:
  assumes "router_inv R" "handle_call_ended c (rs_router R) = (t, eff)"
  shows "router_inv (R\<lparr> rs_router := t \<rparr>)"
proof (cases "jm_has (ro_pending (rs_router R)) c")
  case True
  then show ?thesis using assms(2)
    by (intro inv_removed [OF assms(1), of t c])
      (auto simp: handle_call_ended_def handle_caller_disconnect_def split: option.splits if_splits)
next
  case False
  then have "ro_pending t = ro_pending (rs_router R) \<and> (\<exists>n. ro_active t = jm_delete n (ro_active (rs_router R)) \<or> ro_active t = ro_active (rs_router R))"
    using assms(2) by (auto simp: handle_call_ended_def split: option.splits prod.splits)
  then show ?thesis using assms(1) by (auto simp: router_inv_def pendings_ok_def busy_ok_def busy_ids_def split: if_splits)
qed

lemma inv_router_answer:
  assumes "router_inv R" "router_answer_begin c device (rs_router R) = (res, t, eff)"
  shows "router_inv (R\<lparr> rs_router := t, rs_answering := (case res of Inl _ \<Rightarrow> rs_answering R | Inr p \<Rightarrow> (c, device, p) # rs_answering R) \<rparr>)"
proof (cases res)
  case (Inl e)
  then have "t = rs_router R" using assms(2) by (auto simp: router_answer_begin_def split: option.splits if_splits)
  then show ?thesis using assms(1) Inl by simp
next
  case (Inr p)
  have b: "busy_ok (busy_ids R) (rs_router R)" and k: "pendings_ok (rs_router R)" using assms(1) by (auto simp: router_inv_def)
  have p: "jm_get (ro_pending (rs_router R)) c = Some p" "\<not> rp_resolved p" "t = mark_resolved c (rs_router R)"
    using assms(2) Inr by (auto simp: router_answer_begin_def split: option.splits if_splits)
  have "c \<notin> set (busy_ids R)" by (rule busy_ok_free [OF b]) (use p in auto)
  then have "busy_ok (c # busy_ids R) t" unfolding p(3)
    by (intro busy_ok_begin [OF b p(1,2)]) (use b in \<open>auto simp: busy_ok_def\<close>)
  then show ?thesis using Inr k p(3) by (simp add: router_inv_def busy_ids_def)
qed

lemma inv_router_decline:
  assumes "router_inv R" "router_decline_begin c (rs_router R) = (res, t, eff)"
  shows "router_inv (R\<lparr> rs_router := t, rs_declining := (case res of None \<Rightarrow> rs_declining R | Some p \<Rightarrow> (c, p) # rs_declining R) \<rparr>)"
proof (cases res)
  case None
  then have "t = rs_router R" using assms(2) by (auto simp: router_decline_begin_def split: option.splits if_splits)
  then show ?thesis using assms(1) None by simp
next
  case (Some p)
  have b: "busy_ok (busy_ids R) (rs_router R)" and k: "pendings_ok (rs_router R)" using assms(1) by (auto simp: router_inv_def)
  have p: "jm_get (ro_pending (rs_router R)) c = Some p" "\<not> rp_resolved p" "t = mark_resolved c (rs_router R)"
    using assms(2) Some by (auto simp: router_decline_begin_def split: option.splits if_splits)
  have c: "c \<notin> set (busy_ids R)" by (rule busy_ok_free [OF b]) (use p in auto)
  have "busy_ok (map fst (rs_answering R) @ c # map fst (rs_declining R)) t" unfolding p(3)
    by (intro busy_ok_begin [OF b p(1,2)]) (use b c in \<open>auto simp: busy_ok_def busy_ids_def\<close>)
  then show ?thesis using Some k p(3) by (simp add: router_inv_def busy_ids_def)
qed

lemma inv_router_answer_end:
  assumes "router_inv R" "(c, device, p) \<in> set (rs_answering R)"
    "router_answer_end result p c device now (rs_router R) = (res, t, eff)"
  shows "router_inv (R\<lparr> rs_router := t, rs_answering := removeAll (c, device, p) (rs_answering R) \<rparr>)"
proof -
  have b: "busy_ok (busy_ids R) (rs_router R)" and k: "pendings_ok (rs_router R)" using assms(1) by (auto simp: router_inv_def)
  have d: "distinct (busy_ids R)" using b by (simp add: busy_ok_def)
  have t: "pendings_ok t" using k assms(3)
    by (cases result) (auto simp: router_answer_end_def Let_def pendings_ok_def split: if_splits)
  have "jm_get (ro_pending t) x = jm_get (ro_pending (rs_router R)) x" if "x \<noteq> c" for x
    using assms(3) that by (cases result) (auto simp: router_answer_end_def Let_def)
  from busy_ok_done [OF b this] have "busy_ok (removeAll c (busy_ids R)) t" .
  then show ?thesis using t busy_done(1) [OF d assms(2), of t] by (simp add: router_inv_def)
qed

lemma inv_router_decline_end:
  assumes "router_inv R" "(c, p) \<in> set (rs_declining R)" "router_decline_end ended p c (rs_router R) = (t, eff)"
  shows "router_inv (R\<lparr> rs_router := t, rs_declining := removeAll (c, p) (rs_declining R) \<rparr>)"
proof -
  have b: "busy_ok (busy_ids R) (rs_router R)" and k: "pendings_ok (rs_router R)" using assms(1) by (auto simp: router_inv_def)
  have d: "distinct (busy_ids R)" using b by (simp add: busy_ok_def)
  have t: "pendings_ok t" using k assms(3) pendings_ok_delete [OF k, of c] by (cases ended) (auto simp: router_decline_end_def)
  have "jm_get (ro_pending t) x = jm_get (ro_pending (rs_router R)) x" if "x \<noteq> c" for x
    using assms(3) that by (cases ended) (auto simp: router_decline_end_def)
  from busy_ok_done [OF b this] have "busy_ok (removeAll c (busy_ids R)) t" .
  then show ?thesis using t busy_done(2) [OF d assms(2), of t] by (simp add: router_inv_def)
qed

interpretation router: invariant_system router_init router_step router_inv
proof
  show "router_inv R" if "router_init R" for R
    using that by (simp add: router_init_def router_inv_def pendings_ok_def busy_ok_def busy_ids_def new_router_def)
  show "router_inv T" if "router_inv R" "router_step R e T" for R e T
    using that(2)
  proof cases
    case (rs_timeout c p t eff)
    then show ?thesis using that(1)
      by (auto simp: router_handle_timeout_def intro!: inv_removed [of R _ c] split: option.splits if_splits)
  qed (use that(1) in \<open>auto simp: inv_incoming inv_ended inv_router_answer inv_router_decline inv_router_answer_end
      inv_router_decline_end\<close>)
qed

section \<open>Resolution\<close>

lemma distinct_filter_at_most: "distinct xs \<Longrightarrow> length (filter (\<lambda>k. k = c) xs) \<le> Suc 0"
  by (induction xs) (auto simp: filter_empty_conv)

text \<open>The four ways in which a pending call is resolved, as claims on it.\<close>

datatype attempt = By_Answer string | By_Decline | By_Caller | By_Timeout

definition resolve_attempt :: "string \<Rightarrow> attempt \<Rightarrow> call_router \<Rightarrow> bool \<times> call_router" where
  "resolve_attempt c how r =
     (case how of
        By_Answer device \<Rightarrow> (case router_answer_begin c device r of (_, t, eff) \<Rightarrow> (eff \<noteq> [], t))
      | By_Decline \<Rightarrow> (case router_decline_begin c r of (_, t, eff) \<Rightarrow> (eff \<noteq> [], t))
      | By_Caller \<Rightarrow> (case handle_caller_disconnect c r of (t, eff) \<Rightarrow> (eff \<noteq> [], t))
      | By_Timeout \<Rightarrow> (case router_handle_timeout c r of (t, eff) \<Rightarrow> (eff \<noteq> [], t)))"

lemmas router_ops = router_answer_begin_def router_decline_begin_def handle_caller_disconnect_def router_handle_timeout_def

lemma resolve_attempt_cases:
  obtains "resolve_attempt c how r = (False, r)" "\<not> is_pending_call c r"
  | t where "resolve_attempt c how r = (True, t)" "is_pending_call c r" "\<not> is_pending_call c t" "pendings_ok r \<Longrightarrow> pendings_ok t"
      "\<And>k. k \<noteq> c \<Longrightarrow> is_pending_call k t = is_pending_call k r"
proof (cases "jm_get (ro_pending r) c")
  case None
  then show ?thesis using that(1) by (cases how) (simp_all add: resolve_attempt_def router_ops is_pending_call_def)
next
  case (Some p)
  show ?thesis
  proof (cases "rp_resolved p")
    case True
    then show ?thesis using Some that(1) by (cases how) (simp_all add: resolve_attempt_def router_ops is_pending_call_def)
  next
    case False
    define t where "t = snd (resolve_attempt c how r)"
    have t: "t = mark_resolved c r \<or> t = r\<lparr> ro_pending := jm_delete c (ro_pending r) \<rparr>" "fst (resolve_attempt c how r)"
      unfolding t_def using Some False by (cases how, simp_all add: resolve_attempt_def router_ops)+
    show ?thesis
    proof (rule that(2) [of t])
      show "resolve_attempt c how r = (True, t)" using t(2) unfolding t_def by (simp add: prod_eq_iff)
      show "is_pending_call c r" using Some False by (simp add: is_pending_call_def)
      show "\<not> is_pending_call c t" using t(1) Some by (auto simp: is_pending_call_def)
      show "pendings_ok r \<Longrightarrow> pendings_ok t" using t(1) pendings_ok_delete by auto
      show "\<And>k. k \<noteq> c \<Longrightarrow> is_pending_call k t = is_pending_call k r" using t(1) by (auto simp: is_pending_call_def)
    qed
  qed
qed

interpretation resolutions: exclusive_claim pendings_ok resolve_attempt "\<lambda>c _. c" "\<lambda>c r. \<not> is_pending_call c r"
proof
  fix r c how k
  assume ok: "pendings_ok r"
  show "pendings_ok (snd (resolve_attempt c how r))"
    by (rule resolve_attempt_cases [of c how r]) (use ok in auto)
  show "fst (resolve_attempt c how r) \<Longrightarrow> \<not> \<not> is_pending_call c r \<and> \<not> is_pending_call c (snd (resolve_attempt c how r))"
    by (rule resolve_attempt_cases [of c how r]) auto
  show "\<not> is_pending_call k r \<Longrightarrow> \<not> is_pending_call k (snd (resolve_attempt c how r))"
    by (rule resolve_attempt_cases [of c how r]) (auto, metis)
  show "\<not> fst (resolve_attempt c how r) \<Longrightarrow> snd (resolve_attempt c how r) = r"
    by (rule resolve_attempt_cases [of c how r]) auto
qed

text \<open>A call that rings, with its timer.\<close>

definition ringing_router :: router_system where
  "ringing_router = \<lparr> rs_router = \<lparr> ro_pending = [(''c1'', \<lparr> rp_call_id = ''c1'', rp_from = ''+4670'', rp_to = ''+4680'',
     rp_started_at = 0, rp_resolved = False, rp_timer = True \<rparr>)], ro_active = [] \<rparr>, rs_answering = [], rs_declining = [] \<rparr>"

lemmas router_eval = jm_get_def jm_has_def jm_set_def jm_delete_def jm_modify_def

lemma ringing_router_reachable: "reach router_init router_step ringing_router"
proof (rule reach_step)
  let ?R = "\<lparr> rs_router = new_router, rs_answering = [], rs_declining = [] \<rparr>"
  show "reach router_init router_step ?R" by (rule reach_init) (simp add: router_init_def)
  show "router_step ?R (Re_Incoming ''c1'', [Incoming_Call ''c1'' ''+4670'' ''+4680'']) ringing_router"
    using rs_incoming [of "''c1''" "''+4670''" "''+4680''" 0 ?R]
    by (simp add: handle_incoming_call_def new_router_def ringing_router_def router_eval)
qed

text \<open>In every reachable state of the call router, of any sequence of answers, declines,
  caller hang-ups and ring timeouts, at most one takes effect on each pending call, and none on
  a call already resolved.\<close>
theorem router_resolves_once:
  assumes "reach router_init router_step R"
  shows "distinct (map fst (fst (resolutions.claims attempts (rs_router R))))
    \<and> (\<forall>c. \<not> is_pending_call c (rs_router R) \<longrightarrow> c \<notin> fst ` set (fst (resolutions.claims attempts (rs_router R))))"
proof -
  have "pendings_ok (rs_router R)" using router.reach_inv [OF assms] by (simp add: router_inv_def)
  then show ?thesis using resolutions.claims_distinct resolutions.claims_held by blast
qed

theorem router_resolves_once_witness:
  "fst (resolutions.claims [(''c1'', By_Decline), (''c1'', By_Answer ''d1''), (''c1'', By_Timeout)] (rs_router ringing_router)) = [(''c1'', By_Decline)]
    \<and> distinct (map fst (fst (resolutions.claims [(''c1'', By_Decline), (''c1'', By_Answer ''d1''), (''c1'', By_Timeout)] (rs_router ringing_router))))"
proof
  show "fst (resolutions.claims [(''c1'', By_Decline), (''c1'', By_Answer ''d1''), (''c1'', By_Timeout)] (rs_router ringing_router)) = [(''c1'', By_Decline)]"
    by (simp add: resolutions.claims.simps resolve_attempt_def router_ops mark_resolved_def ringing_router_def router_eval)
qed (use router_resolves_once [OF ringing_router_reachable] in blast)

text \<open>In every reachable state a pending call that is not resolved has its ring timer armed,
  a resolved one has none and a handler works on at most one; when the timer fires the call is
  hung up, its ringing is cancelled on all devices as a timeout, it is reported as missed once,
  and it is no longer pending, while every other call stays as it was.\<close>
theorem ring_timeout_settles:
  assumes "reach router_init router_step R" and "jm_get (ro_pending (rs_router R)) c = Some p"
    and "router_handle_timeout c (rs_router R) = (t, eff)"
  shows "(rp_timer p \<longleftrightarrow> is_pending_call c (rs_router R)) \<and> length (filter (\<lambda>k. k = c) (busy_ids R)) \<le> 1
    \<and> (c \<in> set (busy_ids R) \<longrightarrow> \<not> is_pending_call c (rs_router R))
    \<and> (if is_pending_call c (rs_router R)
       then jm_get (ro_pending t) c = None
         \<and> eff = [Provider_End c, Stop_Ringing c, Call_Cancelled c Timeout_Reason, On_Missed_Call c (rp_from p) (rp_to p)]
       else t = rs_router R \<and> eff = [])
    \<and> (\<forall>k. k \<noteq> c \<longrightarrow> jm_get (ro_pending t) k = jm_get (ro_pending (rs_router R)) k) \<and> ro_active t = ro_active (rs_router R)"
proof -
  have inv: "router_inv R" using router.reach_inv [OF assms(1)] .
  then have "rp_timer p \<longleftrightarrow> \<not> rp_resolved p" "distinct (busy_ids R)" "c \<in> set (busy_ids R) \<Longrightarrow> rp_resolved p"
    using assms(2) by (auto simp: router_inv_def pendings_ok_def busy_ok_def)
  then show ?thesis using assms(2,3)
    by (auto simp: is_pending_call_def router_handle_timeout_def distinct_filter_at_most split: if_splits)
qed

theorem ring_timeout_settles_witness:
  "snd (router_handle_timeout ''c1'' (rs_router ringing_router)) =
     [Provider_End ''c1'', Stop_Ringing ''c1'', Call_Cancelled ''c1'' Timeout_Reason, On_Missed_Call ''c1'' ''+4670'' ''+4680'']"
proof -
  obtain t eff where r: "router_handle_timeout ''c1'' (rs_router ringing_router) = (t, eff)" by fastforce
  let ?p = "\<lparr> rp_call_id = ''c1'', rp_from = ''+4670'', rp_to = ''+4680'', rp_started_at = 0, rp_resolved = False, rp_timer = True \<rparr>"
  have p: "jm_get (ro_pending (rs_router ringing_router)) ''c1'' = Some ?p" "is_pending_call ''c1'' (rs_router ringing_router)"
    by (simp_all add: ringing_router_def router_eval is_pending_call_def)
  show ?thesis using ring_timeout_settles [OF ringing_router_reachable p(1) r] p(2) unfolding r by simp
qed

section \<open>Interleavings\<close>

text \<open>
  The caller hangs up while the provider accepts an answer: the hang-up is dropped, and the
  call is then announced as active and stays so.
\<close>

lemma hangup_during_answer_is_lost:
  assumes "router_answer_begin c device r = (Inr p, r1, eff)" and "router_answer_end Accepts p c device now r1 = (res, r2, eff2)"
  shows "handle_call_ended c r1 = (r1, []) \<and> (\<exists>info. get_active_call_for_number (rp_to p) r2 = Some info \<and> ra_call_id info = c)"
  using assms
  by (auto simp: router_answer_begin_def router_answer_end_def handle_call_ended_def handle_caller_disconnect_def Let_def
      get_active_call_for_number_def jm_has_iff split: option.splits if_splits)

text \<open>A provider that throws leaves the call resolved without a timer: nothing ends it any more.\<close>

lemma thrown_answer_sticks:
  assumes "router_answer_begin c device r = (Inr p, r1, eff)" and "router_answer_end Rejects p c device now r1 = (res, r2, eff2)"
  shows "router_answer_begin c device' r2 = (Inl Router_Already_Answered, r2, []) \<and> router_decline_begin c r2 = (None, r2, [])
    \<and> handle_call_ended c r2 = (r2, []) \<and> handle_incoming_call c from_no to_no now' r2 = (r2, [])
    \<and> (\<forall>q. jm_get (ro_pending r2) c = Some q \<longrightarrow> \<not> rp_timer q)"
  using assms
  by (auto simp: router_answer_begin_def router_answer_end_def router_decline_begin_def handle_call_ended_def
      handle_caller_disconnect_def handle_incoming_call_def jm_has_iff split: option.splits if_splits)

end
