(* ===== verification/Broadcaster.thy ===== *)
theory Broadcaster
  imports Complex_Main Ws_Tickets Auth_Service
begin

text \<open>
  \<^verbatim>\<open>src/websocket/broadcaster.ts\<close>: the registry of device sockets with its admission, delivery
  and ping cycle. A socket is an identifier; whether its state is \<^verbatim>\<open>OPEN\<close> is the argument
  \<open>is_open\<close>. Messages are the serialised events. The weak collections are ordinary ones, an
  entry of a collected socket being unreachable. Console output is left out.
\<close>

type_synonym socket = string

record broadcaster =
  wb_connections :: "(device_id, socket list) jmap"
  wb_alive :: "socket list"
  wb_socket_to_device :: "(socket, device_id) jmap"
  wb_pinging :: bool
  wb_handler :: bool

definition PING_INTERVAL_MS :: int where
  "PING_INTERVAL_MS = 30000"

text \<open>A parsed JSON value and its members.\<close>

datatype json = JNull | JBool bool | JNum rat | JStr string | JArr "json list" | JObj "(string \<times> json) list"

fun json_field :: "string \<Rightarrow> json \<Rightarrow> json option" where
  "json_field k (JObj members) = map_of members k"
| "json_field k _ = None"

record ice_candidate =
  ic_candidate :: string
  ic_sdp_mid :: string
  ic_sdp_m_line_index :: rat

datatype ws_effect =
    Ws_Send socket string
  | Ws_Close socket int string
  | Ws_Ping socket
  | Ice_Message device_id string ice_candidate

definition new_broadcaster :: broadcaster where
  "new_broadcaster = \<lparr> wb_connections = [], wb_alive = [], wb_socket_to_device = [], wb_pinging = False, wb_handler = False \<rparr>"

definition on_ice_candidate :: "broadcaster \<Rightarrow> broadcaster" where
  "on_ice_candidate b = b\<lparr> wb_handler := True \<rparr>"

section \<open>Admission\<close>

text \<open>
  The credential of an upgrade request, and whether it is a ticket: the bearer token of the
  authorization header, else the query's ticket, else its token. An empty text counts as absent.
\<close>

definition ws_credential :: "string option \<Rightarrow> string option \<Rightarrow> string option \<Rightarrow> (string \<times> bool) option" where
  "ws_credential authorization ticket_param token_param =
     (let present = (\<lambda>x. case x of None \<Rightarrow> None | Some v \<Rightarrow> if v = '''' then None else Some v);
          query = (case present ticket_param of
             Some t \<Rightarrow> Some (t, True)
           | None \<Rightarrow> map_option (\<lambda>t. (t, False)) (present token_param))
      in case present authorization of
           Some h \<Rightarrow> if take 7 h = ''Bearer '' then map_option (\<lambda>t. (t, False)) (present (Some (drop 7 h))) else query
         | None \<Rightarrow> query)"

text \<open>
  Up to \<^verbatim>\<open>validateSession\<close>: the session token to validate, or \<^const>\<open>None\<close> for a refused ticket.
  \<open>tickets\<close> is absent when the broadcaster was built without a ticket service.
\<close>

definition authenticate_begin ::
    "string \<Rightarrow> bool \<Rightarrow> int \<Rightarrow> socket \<Rightarrow> ticket_service option \<Rightarrow> string option \<times> ticket_service option \<times> ws_effect list" where
  "authenticate_begin token is_ticket now s tickets =
     (case tickets of
        Some ts \<Rightarrow>
          if is_ticket then
            (case consume_ticket token now ts of
               (None, ts') \<Rightarrow> (None, Some ts', [Ws_Close s 1008 ''Invalid or expired ticket''])
             | (Some (session_token, _), ts') \<Rightarrow> (Some session_token, Some ts', []))
          else (Some token, tickets, [])
      | None \<Rightarrow> (Some token, None, []))"

text \<open>From the session's answer on; the outer \<^const>\<open>None\<close> is a thrown error.\<close>

definition authenticate_end ::
    "(device_id \<times> string) option option \<Rightarrow> socket \<Rightarrow> broadcaster \<Rightarrow> broadcaster \<times> ws_effect list" where
  "authenticate_end session s b =
     (case session of
        None \<Rightarrow> (b, [Ws_Close s 1008 ''Authentication failed''])
      | Some None \<Rightarrow> (b, [Ws_Close s 1008 ''Invalid or expired session''])
      | Some (Some (device, _)) \<Rightarrow>
          if device = '''' then (b, [Ws_Close s 1008 ''Invalid or expired session''])
          else
            let sockets = (case jm_get (wb_connections b) device of None \<Rightarrow> [] | Some ss \<Rightarrow> ss) in
            (b\<lparr> wb_connections := jm_set device (if s \<in> set sockets then sockets else sockets @ [s]) (wb_connections b),
                wb_alive := List.insert s (wb_alive b),
                wb_socket_to_device := jm_set s device (wb_socket_to_device b) \<rparr>, []))"

definition on_pong :: "socket \<Rightarrow> broadcaster \<Rightarrow> broadcaster" where
  "on_pong s b = b\<lparr> wb_alive := List.insert s (wb_alive b) \<rparr>"

text \<open>The handler of both \<^verbatim>\<open>close\<close> and \<^verbatim>\<open>error\<close>, for the device the socket was admitted for.\<close>

definition on_close :: "device_id \<Rightarrow> socket \<Rightarrow> broadcaster \<Rightarrow> broadcaster" where
  "on_close device s b =
     (case jm_get (wb_connections b) device of
        None \<Rightarrow> b
      | Some sockets \<Rightarrow>
          let rest = removeAll s sockets in
          b\<lparr> wb_connections := (if rest = [] then jm_delete device (wb_connections b)
                                else jm_set device rest (wb_connections b)) \<rparr>)"

section \<open>Delivery\<close>

definition send_open :: "(socket \<Rightarrow> bool) \<Rightarrow> string \<Rightarrow> socket list \<Rightarrow> ws_effect list" where
  "send_open is_open message sockets = map (\<lambda>s. Ws_Send s message) (filter is_open sockets)"

definition broadcast :: "(socket \<Rightarrow> bool) \<Rightarrow> string \<Rightarrow> broadcaster \<Rightarrow> ws_effect list" where
  "broadcast is_open message b = concat (map (\<lambda>(_, sockets). send_open is_open message sockets) (wb_connections b))"

definition broadcast_to_device :: "(socket \<Rightarrow> bool) \<Rightarrow> device_id \<Rightarrow> string \<Rightarrow> broadcaster \<Rightarrow> ws_effect list" where
  "broadcast_to_device is_open device message b =
     (case jm_get (wb_connections b) device of None \<Rightarrow> [] | Some sockets \<Rightarrow> send_open is_open message sockets)"

definition broadcast_except :: "(socket \<Rightarrow> bool) \<Rightarrow> device_id \<Rightarrow> string \<Rightarrow> broadcaster \<Rightarrow> ws_effect list" where
  "broadcast_except is_open excluded message b =
     concat (map (\<lambda>(device, sockets). if device \<noteq> excluded then send_open is_open message sockets else []) (wb_connections b))"

definition get_connection_count :: "broadcaster \<Rightarrow> nat" where
  "get_connection_count b = length (wb_connections b)"

definition is_device_connected :: "(socket \<Rightarrow> bool) \<Rightarrow> device_id \<Rightarrow> broadcaster \<Rightarrow> bool" where
  "is_device_connected is_open device b \<longleftrightarrow>
     (case jm_get (wb_connections b) device of None \<Rightarrow> False | Some sockets \<Rightarrow> list_ex is_open sockets)"

definition get_connected_device_ids :: "broadcaster \<Rightarrow> device_id list" where
  "get_connected_device_ids b = jm_keys (wb_connections b)"

definition close_all :: "broadcaster \<Rightarrow> broadcaster \<times> ws_effect list" where
  "close_all b =
     (b\<lparr> wb_pinging := False, wb_connections := [] \<rparr>,
      concat (map (\<lambda>(_, sockets). map (\<lambda>s. Ws_Close s 1001 ''Server shutting down'') sockets) (wb_connections b)))"

section \<open>Incoming messages\<close>

text \<open>\<open>parsed\<close> is the answer of \<^verbatim>\<open>JSON.parse\<close>, \<^const>\<open>None\<close> when it throws.\<close>

definition ice_message :: "json \<Rightarrow> (string \<times> ice_candidate) option" where
  "ice_message msg =
     (if json_field ''type'' msg \<noteq> Some (JStr ''ice_candidate'') then None
      else (case json_field ''callId'' msg of
          Some (JStr call_id) \<Rightarrow>
            if call_id = '''' then None
            else (case json_field ''candidate'' msg of
                Some candidate \<Rightarrow>
                  (case (json_field ''candidate'' candidate, json_field ''sdpMid'' candidate, json_field ''sdpMLineIndex'' candidate) of
                     (Some (JStr c), Some (JStr mid), Some (JNum i)) \<Rightarrow>
                       Some (call_id, \<lparr> ic_candidate = c, ic_sdp_mid = mid, ic_sdp_m_line_index = i \<rparr>)
                   | _ \<Rightarrow> None)
              | None \<Rightarrow> None)
        | _ \<Rightarrow> None))"

definition handle_incoming_message :: "socket \<Rightarrow> json option \<Rightarrow> broadcaster \<Rightarrow> ws_effect list" where
  "handle_incoming_message s parsed b =
     (case jm_get (wb_socket_to_device b) s of
        None \<Rightarrow> []
      | Some device \<Rightarrow>
          if device = '''' then []
          else (case Option.bind parsed ice_message of
              Some (call_id, candidate) \<Rightarrow> if wb_handler b then [Ice_Message device call_id candidate] else []
            | None \<Rightarrow> []))"

section \<open>The ping cycle\<close>

definition start_ping_interval :: "broadcaster \<Rightarrow> broadcaster" where
  "start_ping_interval b = b\<lparr> wb_pinging := True \<rparr>"

fun ping_socket :: "socket \<Rightarrow> socket list \<times> socket list \<times> ws_effect list \<Rightarrow> socket list \<times> socket list \<times> ws_effect list" where
  "ping_socket s (alive, kept, eff) =
     (if s \<notin> set alive then (alive, kept, eff @ [Ws_Close s 1001 ''Ping timeout''])
      else (removeAll s alive, kept @ [s], eff @ [Ws_Ping s]))"

fun ping_device ::
    "device_id \<times> socket list \<Rightarrow> socket list \<times> (device_id, socket list) jmap \<times> ws_effect list
      \<Rightarrow> socket list \<times> (device_id, socket list) jmap \<times> ws_effect list" where
  "ping_device (device, sockets) (alive, conns, eff) =
     (case fold ping_socket sockets (alive, [], []) of (alive', kept, eff') \<Rightarrow>
        (alive', if kept = [] then conns else conns @ [(device, kept)], eff @ eff'))"

definition ping_cycle :: "broadcaster \<Rightarrow> broadcaster \<times> ws_effect list" where
  "ping_cycle b =
     (case fold ping_device (wb_connections b) (wb_alive b, [], []) of (alive, conns, eff) \<Rightarrow>
        (b\<lparr> wb_alive := alive, wb_connections := conns \<rparr>, eff))"

text \<open>What a ping cycle does, in one line per component, when no socket is listed twice.\<close>

lemma fold_ping_socket:
  "distinct ss \<Longrightarrow> fold ping_socket ss (alive, kept, eff) =
     (filter (\<lambda>x. x \<notin> set ss) alive, kept @ filter (\<lambda>s. s \<in> set alive) ss,
      eff @ map (\<lambda>s. if s \<in> set alive then Ws_Ping s else Ws_Close s 1001 ''Ping timeout'') ss)"
proof (induction ss arbitrary: alive kept eff)
  case Nil
  then show ?case by simp
next
  case (Cons a ss)
  have d: "distinct ss" "a \<notin> set ss" using Cons.prems by simp_all
  have same: "filter (\<lambda>s. s \<in> set (removeAll a alive)) ss = filter (\<lambda>s. s \<in> set alive) ss"
    using d(2) by (auto intro!: filter_cong)
  have same2: "map (\<lambda>s. if s \<in> set (removeAll a alive) then Ws_Ping s else Ws_Close s 1001 ''Ping timeout'') ss =
      map (\<lambda>s. if s \<in> set alive then Ws_Ping s else Ws_Close s 1001 ''Ping timeout'') ss"
    using d(2) by auto
  have gone: "filter (\<lambda>x. x \<notin> set ss) (removeAll a alive) = filter (\<lambda>x. x \<notin> set (a # ss)) alive"
    unfolding removeAll_filter_not_eq filter_filter by (rule filter_cong) auto
  show ?case
  proof (cases "a \<in> set alive")
    case True
    then show ?thesis using Cons.IH [OF d(1)] same same2 gone by simp
  next
    case False
    then have "filter (\<lambda>x. x \<notin> set ss) alive = filter (\<lambda>x. x \<notin> set (a # ss)) alive"
      by (auto intro!: filter_cong)
    then show ?thesis using Cons.IH [OF d(1)] False by simp
  qed
qed

definition all_sockets :: "broadcaster \<Rightarrow> socket list" where
  "all_sockets b = concat (map snd (wb_connections b))"

definition pinged_connections :: "socket list \<Rightarrow> (device_id, socket list) jmap \<Rightarrow> (device_id, socket list) jmap" where
  "pinged_connections alive conns =
     filter (\<lambda>(_, kept). kept \<noteq> []) (map (\<lambda>(d, ss). (d, filter (\<lambda>s. s \<in> set alive) ss)) conns)"

lemma pinged_connections_cong:
  "(\<And>s. s \<in> set (concat (map snd conns)) \<Longrightarrow> s \<in> set a1 \<longleftrightarrow> s \<in> set a2)
    \<Longrightarrow> pinged_connections a1 conns = pinged_connections a2 conns"
proof -
  assume h: "\<And>s. s \<in> set (concat (map snd conns)) \<Longrightarrow> s \<in> set a1 \<longleftrightarrow> s \<in> set a2"
  have "map (\<lambda>(d, ss). (d, filter (\<lambda>s. s \<in> set a1) ss)) conns = map (\<lambda>(d, ss). (d, filter (\<lambda>s. s \<in> set a2) ss)) conns"
    using h by (force intro!: filter_cong)
  then show ?thesis by (simp only: pinged_connections_def)
qed

lemma fold_ping_device:
  "distinct (concat (map snd conns)) \<Longrightarrow> fold ping_device conns (alive, acc, eff) =
     (filter (\<lambda>x. x \<notin> set (concat (map snd conns))) alive, acc @ pinged_connections alive conns,
      eff @ map (\<lambda>s. if s \<in> set alive then Ws_Ping s else Ws_Close s 1001 ''Ping timeout'') (concat (map snd conns)))"
proof (induction conns arbitrary: alive acc eff)
  case Nil
  then show ?case by (simp add: pinged_connections_def)
next
  case (Cons a conns)
  obtain d ss where a: "a = (d, ss)" by (cases a)
  have ds: "distinct ss" "distinct (concat (map snd conns))" "set ss \<inter> set (concat (map snd conns)) = {}"
    using Cons.prems a by auto
  define alive' where "alive' = filter (\<lambda>x. x \<notin> set ss) alive"
  have al: "s \<in> set alive' \<longleftrightarrow> s \<in> set alive" if "s \<in> set (concat (map snd conns))" for s
    using that ds(3) by (auto simp: alive'_def)
  have c: "pinged_connections alive' conns = pinged_connections alive conns"
    by (rule pinged_connections_cong) (rule al)
  have m: "map (\<lambda>s. if s \<in> set alive' then Ws_Ping s else Ws_Close s 1001 ''Ping timeout'') (concat (map snd conns)) =
      map (\<lambda>s. if s \<in> set alive then Ws_Ping s else Ws_Close s 1001 ''Ping timeout'') (concat (map snd conns))"
    using al by (auto intro!: map_cong simp del: set_concat)
  have g: "filter (\<lambda>x. x \<notin> set (concat (map snd conns))) alive' = filter (\<lambda>x. x \<notin> set (concat (map snd (a # conns)))) alive"
    unfolding alive'_def filter_filter a by (rule filter_cong) auto
  have p: "pinged_connections alive (a # conns) =
      (if filter (\<lambda>s. s \<in> set alive) ss = [] then [] else [(d, filter (\<lambda>s. s \<in> set alive) ss)]) @ pinged_connections alive conns"
    by (simp add: pinged_connections_def a)
  have "fold ping_device (a # conns) (alive, acc, eff) =
      fold ping_device conns (alive', acc @ (if filter (\<lambda>s. s \<in> set alive) ss = [] then [] else [(d, filter (\<lambda>s. s \<in> set alive) ss)]),
        eff @ map (\<lambda>s. if s \<in> set alive then Ws_Ping s else Ws_Close s 1001 ''Ping timeout'') ss)"
    using fold_ping_socket [OF ds(1), of alive "[]" "[]"] by (simp add: a alive'_def)
  then show ?case
    unfolding Cons.IH [OF ds(2)] g c m p by (simp add: a)
qed

end
