(* ===== verification/Broadcaster_System.thy ===== *)
theory Broadcaster_System
  imports Broadcaster "HOL-Library.Multiset"
begin

text \<open>
  The life of the broadcaster of \<^verbatim>\<open>src/websocket/broadcaster.ts\<close> as a step relation over the
  socket events, its invariant, exact delivery, and the eviction of silent sockets.
\<close>

datatype ws_event =
    Authenticated socket "(device_id \<times> string) option option"
  | Pong socket
  | Closed socket
  | Ping_Cycle
  | Registered_Endpoint
  | Registered_Handler
  | Shut_Down

inductive ws_step :: "broadcaster \<Rightarrow> ws_event \<Rightarrow> broadcaster \<Rightarrow> bool" where
  ws_authenticated: "jm_get (wb_socket_to_device b) s = None
    \<Longrightarrow> ws_step b (Authenticated s session) (fst (authenticate_end session s b))"
| ws_pong: "jm_get (wb_socket_to_device b) s = Some d \<Longrightarrow> ws_step b (Pong s) (on_pong s b)"
| ws_closed: "jm_get (wb_socket_to_device b) s = Some d \<Longrightarrow> ws_step b (Closed s) (on_close d s b)"
| ws_ping: "wb_pinging b \<Longrightarrow> ws_step b Ping_Cycle (fst (ping_cycle b))"
| ws_endpoint: "ws_step b Registered_Endpoint (start_ping_interval b)"
| ws_handler: "ws_step b Registered_Handler (on_ice_candidate b)"
| ws_shut_down: "ws_step b Shut_Down (fst (close_all b))"

inductive_cases ws_stepE: "ws_step b e b'"

section \<open>The invariant\<close>

text \<open>
  Devices occur once and with at least one socket, sockets occur once and under the device
  they were admitted for, and only admitted sockets are marked alive.
\<close>

definition entry_ok :: "(socket, device_id) jmap \<Rightarrow> device_id \<Rightarrow> socket list \<Rightarrow> bool" where
  "entry_ok owners d ss \<longleftrightarrow> d \<noteq> '''' \<and> ss \<noteq> [] \<and> distinct ss \<and> (\<forall>s \<in> set ss. jm_get owners s = Some d)"

definition ws_ok :: "broadcaster \<Rightarrow> bool" where
  "ws_ok b \<longleftrightarrow> jm_ok (wb_connections b)
     \<and> (\<forall>d ss. jm_get (wb_connections b) d = Some ss \<longrightarrow> entry_ok (wb_socket_to_device b) d ss)
     \<and> (\<forall>s \<in> set (wb_alive b). jm_get (wb_socket_to_device b) s \<noteq> None)"

lemma ws_okI:
  assumes "jm_ok (wb_connections b)"
    and "\<And>d ss. jm_get (wb_connections b) d = Some ss \<Longrightarrow> entry_ok (wb_socket_to_device b) d ss"
    and "\<And>s. s \<in> set (wb_alive b) \<Longrightarrow> jm_get (wb_socket_to_device b) s \<noteq> None"
  shows "ws_ok b"
  using assms by (simp add: ws_ok_def)

lemma ws_ok_conns: "ws_ok b \<Longrightarrow> jm_ok (wb_connections b)"
  by (simp add: ws_ok_def)

lemma ws_ok_entry: "ws_ok b \<Longrightarrow> jm_get (wb_connections b) d = Some ss \<Longrightarrow> entry_ok (wb_socket_to_device b) d ss"
  by (simp add: ws_ok_def)

lemma ws_ok_alive: "ws_ok b \<Longrightarrow> s \<in> set (wb_alive b) \<Longrightarrow> jm_get (wb_socket_to_device b) s \<noteq> None"
  by (simp add: ws_ok_def)

lemma entry_ok_owner: "entry_ok owners d ss \<Longrightarrow> s \<in> set ss \<Longrightarrow> jm_get owners s = Some d"
  by (simp add: entry_ok_def)

lemma entry_ok_distinct: "entry_ok owners d ss \<Longrightarrow> distinct ss"
  by (simp add: entry_ok_def)

lemma all_sockets_iff:
  assumes "ws_ok b"
  shows "s \<in> set (all_sockets b) \<longleftrightarrow> (\<exists>d ss. jm_get (wb_connections b) d = Some ss \<and> s \<in> set ss)"
  using jm_get_mem [OF ws_ok_conns [OF assms]] by (force simp: all_sockets_def)

lemma distinct_entries:
  assumes "distinct (map fst conns)" and "\<And>d ss. (d, ss) \<in> set conns \<Longrightarrow> entry_ok owners d ss"
  shows "distinct (concat (map snd conns))"
  using assms
proof (induction conns)
  case Nil
  then show ?case by simp
next
  case (Cons a conns)
  obtain d ss where a: "a = (d, ss)" by (cases a)
  have e: "entry_ok owners d ss" using Cons.prems(2) a by simp
  have "set ss \<inter> set (concat (map snd conns)) = {}"
  proof (rule ccontr)
    assume "\<not> ?thesis"
    then obtain d' ss' s where w: "(d', ss') \<in> set conns" "s \<in> set ss'" "s \<in> set ss" by auto
    have "d' = d" using entry_ok_owner [OF Cons.prems(2) w(2)] entry_ok_owner [OF e w(3)] w(1) by auto
    then show False using w(1) Cons.prems(1) a by force
  qed
  then show ?case using Cons entry_ok_distinct [OF e] a by simp
qed

lemma distinct_all_sockets: "ws_ok b \<Longrightarrow> distinct (all_sockets b)"
  unfolding all_sockets_def
  by (rule distinct_entries [where owners = "wb_socket_to_device b"]) (auto simp: ws_ok_def jm_ok_def jm_get_def)

lemma ping_cycle_unfold:
  assumes "ws_ok b"
  shows "ping_cycle b =
    (b\<lparr> wb_alive := filter (\<lambda>x. x \<notin> set (all_sockets b)) (wb_alive b),
        wb_connections := pinged_connections (wb_alive b) (wb_connections b) \<rparr>,
     map (\<lambda>s. if s \<in> set (wb_alive b) then Ws_Ping s else Ws_Close s 1001 ''Ping timeout'') (all_sockets b))"
  using fold_ping_device [of "wb_connections b" "wb_alive b" "[]" "[]"] distinct_all_sockets [OF assms]
  by (simp add: ping_cycle_def all_sockets_def)

lemma pinged_lookup:
  assumes "jm_ok conns"
  shows "jm_ok (pinged_connections alive conns)"
    and "jm_get (pinged_connections alive conns) d =
      (case jm_get conns d of None \<Rightarrow> None
       | Some ss \<Rightarrow> if filter (\<lambda>s. s \<in> set alive) ss = [] then None else Some (filter (\<lambda>s. s \<in> set alive) ss))"
proof -
  define kept where "kept = map (\<lambda>(d, ss). (d, filter (\<lambda>s. s \<in> set alive) ss)) conns"
  have f: "map fst kept = map fst conns" by (simp add: kept_def case_prod_unfold)
  have k: "jm_ok kept" using assms by (simp add: jm_ok_def f)
  have g: "jm_get kept d = map_option (filter (\<lambda>s. s \<in> set alive)) (jm_get conns d)"
    by (simp add: kept_def jm_get_def map_of_map)
  have p: "pinged_connections alive conns = jm_filter (\<lambda>_ ss. ss \<noteq> []) kept"
    by (simp add: pinged_connections_def jm_filter_def kept_def)
  show "jm_ok (pinged_connections alive conns)" unfolding p by (rule jm_ok_filter [OF k])
  show "jm_get (pinged_connections alive conns) d =
      (case jm_get conns d of None \<Rightarrow> None
       | Some ss \<Rightarrow> if filter (\<lambda>s. s \<in> set alive) ss = [] then None else Some (filter (\<lambda>s. s \<in> set alive) ss))"
    unfolding p jm_get_filter [OF k] g by (cases "jm_get conns d") simp_all
qed

lemma entry_ok_filter: "entry_ok owners d ss \<Longrightarrow> filter p ss \<noteq> [] \<Longrightarrow> entry_ok owners d (filter p ss)"
  by (simp add: entry_ok_def)

text \<open>Admission, in closed form.\<close>

lemma authenticate_end_cases:
  obtains (refused) "fst (authenticate_end session s b) = b" "\<exists>reason. snd (authenticate_end session s b) = [Ws_Close s 1008 reason]"
  | (admitted) d u sockets where "session = Some (Some (d, u))" "d \<noteq> ''''"
      "sockets = (case jm_get (wb_connections b) d of None \<Rightarrow> [] | Some ss \<Rightarrow> ss)"
      "authenticate_end session s b =
        (b\<lparr> wb_connections := jm_set d (if s \<in> set sockets then sockets else sockets @ [s]) (wb_connections b),
            wb_alive := List.insert s (wb_alive b), wb_socket_to_device := jm_set s d (wb_socket_to_device b) \<rparr>, [])"
proof (cases "\<exists>d u. session = Some (Some (d, u)) \<and> d \<noteq> ''''")
  case True
  then obtain d u where d: "session = Some (Some (d, u))" "d \<noteq> ''''" by blast
  show ?thesis by (rule admitted [OF d refl]) (simp add: authenticate_end_def Let_def d)
next
  case False
  show ?thesis by (rule refused) (use False in \<open>auto simp: authenticate_end_def split: option.splits\<close>)
qed

lemma ws_ok_authenticate:
  assumes "ws_ok b" and "jm_get (wb_socket_to_device b) s = None"
  shows "ws_ok (fst (authenticate_end session s b))"
proof (cases rule: authenticate_end_cases [where session = session and s = s and b = b])
  case refused
  then show ?thesis using assms(1) by simp
next
  case (admitted d u sockets)
  have s0: "\<forall>d'. entry_ok (wb_socket_to_device b) d' sockets \<longrightarrow> s \<notin> set sockets"
    using assms(2) by (auto simp: entry_ok_def)
  have old: "sockets \<noteq> [] \<Longrightarrow> entry_ok (wb_socket_to_device b) d sockets"
    using admitted(3) ws_ok_entry [OF assms(1)] by (auto split: option.splits)
  have keep: "entry_ok (jm_set s d (wb_socket_to_device b)) d' ss" if "entry_ok (wb_socket_to_device b) d' ss" for d' ss
    using that assms(2) by (auto simp: entry_ok_def)
  have fresh: "s \<notin> set sockets" using old s0 by (cases "sockets = []") auto
  have new: "entry_ok (jm_set s d (wb_socket_to_device b)) d (sockets @ [s])"
    using old fresh admitted(2) by (cases "sockets = []") (auto simp: entry_ok_def)
  show ?thesis
  proof (rule ws_okI)
    show "jm_ok (wb_connections (fst (authenticate_end session s b)))"
      using ws_ok_conns [OF assms(1)] by (simp add: admitted(4))
    show "entry_ok (wb_socket_to_device (fst (authenticate_end session s b))) d' ss"
      if "jm_get (wb_connections (fst (authenticate_end session s b))) d' = Some ss" for d' ss
      using that new fresh keep ws_ok_entry [OF assms(1)] by (auto simp: admitted(4) split: if_splits)
    show "jm_get (wb_socket_to_device (fst (authenticate_end session s b))) s' \<noteq> None"
      if "s' \<in> set (wb_alive (fst (authenticate_end session s b)))" for s'
      using that ws_ok_alive [OF assms(1)] by (auto simp: admitted(4))
  qed
qed

lemma on_close_get:
  "jm_get (wb_connections (on_close d s b)) d' =
    (if d' = d then (case jm_get (wb_connections b) d of None \<Rightarrow> None
       | Some ss \<Rightarrow> if removeAll s ss = [] then None else Some (removeAll s ss))
     else jm_get (wb_connections b) d')"
  by (cases "jm_get (wb_connections b) d") (auto simp: on_close_def Let_def)

lemma on_close_other:
  "wb_alive (on_close d s b) = wb_alive b" "wb_socket_to_device (on_close d s b) = wb_socket_to_device b"
  by (auto simp: on_close_def Let_def split: option.splits)

lemma ws_ok_close:
  assumes ok: "ws_ok b" shows "ws_ok (on_close d s b)"
proof (rule ws_okI)
  show "jm_ok (wb_connections (on_close d s b))"
    using ws_ok_conns [OF ok] by (auto simp: on_close_def Let_def split: option.splits)
  show "entry_ok (wb_socket_to_device (on_close d s b)) d' ss"
    if "jm_get (wb_connections (on_close d s b)) d' = Some ss" for d' ss
    using that ws_ok_entry [OF ok] entry_ok_filter
    by (auto simp: on_close_get on_close_other removeAll_filter_not_eq split: if_splits option.splits)
  show "jm_get (wb_socket_to_device (on_close d s b)) s' \<noteq> None" if "s' \<in> set (wb_alive (on_close d s b))" for s'
    using that ws_ok_alive [OF ok] by (simp add: on_close_other)
qed

lemma ws_ok_ping:
  assumes ok: "ws_ok b" shows "ws_ok (fst (ping_cycle b))"
proof (rule ws_okI)
  note l = pinged_lookup [OF ws_ok_conns [OF ok]]
  show "jm_ok (wb_connections (fst (ping_cycle b)))" by (simp add: ping_cycle_unfold [OF ok] l(1))
  show "entry_ok (wb_socket_to_device (fst (ping_cycle b))) d ss" if "jm_get (wb_connections (fst (ping_cycle b))) d = Some ss" for d ss
    using that ws_ok_entry [OF ok] entry_ok_filter
    by (auto simp: ping_cycle_unfold [OF ok] l(2) split: option.splits if_splits)
  show "jm_get (wb_socket_to_device (fst (ping_cycle b))) s \<noteq> None" if "s \<in> set (wb_alive (fst (ping_cycle b)))" for s
    using that ws_ok_alive [OF ok] by (simp add: ping_cycle_unfold [OF ok])
qed

lemma ws_step_ok: "ws_step b e b' \<Longrightarrow> ws_ok b \<Longrightarrow> ws_ok b'"
proof (induction rule: ws_step.induct)
  case (ws_pong b s d)
  then show ?case by (simp add: ws_ok_def on_pong_def)
next
  case (ws_endpoint b)
  then show ?case by (simp add: ws_ok_def start_ping_interval_def)
next
  case (ws_handler b)
  then show ?case by (simp add: ws_ok_def on_ice_candidate_def)
next
  case (ws_shut_down b)
  then show ?case by (simp add: ws_ok_def close_all_def)
qed (simp_all add: ws_ok_authenticate ws_ok_close ws_ok_ping)

definition ws_init :: "broadcaster \<Rightarrow> bool" where
  "ws_init b \<longleftrightarrow> b = new_broadcaster"

lemma ws_init_ok: "ws_init b \<Longrightarrow> ws_ok b"
  by (simp add: ws_init_def new_broadcaster_def ws_ok_def)

interpretation sockets: invariant_system ws_init ws_step ws_ok
  by unfold_locales (auto intro: ws_init_ok ws_step_ok)

section \<open>Delivery\<close>

lemma broadcast_all: "broadcast is_open m b = send_open is_open m (all_sockets b)"
  by (induction "wb_connections b" arbitrary: b)
    (auto simp: broadcast_def all_sockets_def send_open_def filter_concat map_concat case_prod_unfold comp_def)

lemma except_split:
  assumes "jm_ok conns"
  shows "mset (concat (map (\<lambda>(_, ss). f ss) conns)) =
    mset (case jm_get conns d of None \<Rightarrow> [] | Some ss \<Rightarrow> f ss)
    + mset (concat (map (\<lambda>(d', ss). if d' \<noteq> d then f ss else []) conns))"
  using assms
proof (induction conns)
  case Nil
  then show ?case by (simp add: jm_get_def)
next
  case (Cons a conns)
  obtain d' ss where a: "a = (d', ss)" by (cases a)
  have ok: "jm_ok conns" and new: "d' = d \<Longrightarrow> jm_get conns d = None"
    using Cons.prems a by (auto simp: jm_ok_def jm_get_def map_of_eq_None_iff)
  have get: "jm_get (a # conns) d = (if d' = d then Some ss else jm_get conns d)"
    by (auto simp: jm_get_def a)
  show ?case
    using Cons.IH [OF ok] new unfolding get by (cases "d' = d") (simp_all add: a)
qed

text \<open>In every state the broadcaster can reach, a broadcast reaches every open socket
  of every admitted device exactly once and nothing else; it is the sending to one device
  together with the sending to all others, in some order; and a device counts as connected
  exactly when a sending to it reaches some socket.\<close>

theorem broadcast_delivery_exact:
  assumes "reach ws_init ws_step b"
  shows "distinct (broadcast is_open m b)
    \<and> set (broadcast is_open m b) =
        {Ws_Send s m | s. is_open s \<and> (\<exists>d ss. jm_get (wb_connections b) d = Some ss \<and> s \<in> set ss)}
    \<and> mset (broadcast is_open m b) = mset (broadcast_to_device is_open d m b) + mset (broadcast_except is_open d m b)
    \<and> (is_device_connected is_open d b \<longleftrightarrow> broadcast_to_device is_open d m b \<noteq> [])"
proof -
  have ok: "ws_ok b" by (rule sockets.reach_inv [OF assms])
  have "inj_on (\<lambda>s. Ws_Send s m) A" for A by (simp add: inj_on_def)
  then have "distinct (broadcast is_open m b)"
    unfolding broadcast_all send_open_def by (simp add: distinct_map distinct_all_sockets [OF ok])
  moreover have "set (broadcast is_open m b) =
        {Ws_Send s m | s. is_open s \<and> (\<exists>d ss. jm_get (wb_connections b) d = Some ss \<and> s \<in> set ss)}"
    unfolding broadcast_all send_open_def using all_sockets_iff [OF ok] by auto
  moreover have "mset (broadcast is_open m b) = mset (broadcast_to_device is_open d m b) + mset (broadcast_except is_open d m b)"
    unfolding broadcast_def broadcast_to_device_def broadcast_except_def by (rule except_split [OF ws_ok_conns [OF ok]])
  moreover have "is_device_connected is_open d b \<longleftrightarrow> broadcast_to_device is_open d m b \<noteq> []"
    by (auto simp: is_device_connected_def broadcast_to_device_def send_open_def list_ex_iff filter_empty_conv split: option.splits)
  ultimately show ?thesis by blast
qed

definition sample_broadcaster :: broadcaster where
  "sample_broadcaster = fst (authenticate_end (Some (Some (''d1'', ''Phone''))) ''s1'' (start_ping_interval new_broadcaster))"

lemma sample_broadcaster_eq:
  "sample_broadcaster = \<lparr> wb_connections = [(''d1'', [''s1''])], wb_alive = [''s1''],
     wb_socket_to_device = [(''s1'', ''d1'')], wb_pinging = True, wb_handler = False \<rparr>"
  by (simp add: sample_broadcaster_def authenticate_end_def start_ping_interval_def new_broadcaster_def jm_set_def)

lemma sample_broadcaster_reachable: "reach ws_init ws_step sample_broadcaster"
proof -
  have "reach ws_init ws_step (start_ping_interval new_broadcaster)"
    by (rule reach_step [where step = ws_step, OF reach_init [where init = ws_init] ws_endpoint]) (simp add: ws_init_def)
  then show ?thesis unfolding sample_broadcaster_def
    by (rule reach_step [where step = ws_step, OF _ ws_authenticated]) (simp add: start_ping_interval_def new_broadcaster_def)
qed

theorem broadcast_delivery_exact_witness:
  "set (broadcast (\<lambda>_. True) ''hello'' sample_broadcaster) = {Ws_Send ''s1'' ''hello''}"
  using broadcast_delivery_exact [OF sample_broadcaster_reachable, of "\<lambda>_. True" "''hello''" "''d1''"]
  by (simp add: sample_broadcaster_eq jm_get_def)

section \<open>The ping cycle evicts silent sockets\<close>

text \<open>Whether a socket receives broadcasts, and what each step does to one that is admitted.\<close>

definition tracked :: "socket \<Rightarrow> broadcaster \<Rightarrow> bool" where
  "tracked s b \<longleftrightarrow> s \<in> set (all_sockets b)"

lemma tracked_iff: "ws_ok b \<Longrightarrow> tracked s b \<longleftrightarrow> (\<exists>d ss. jm_get (wb_connections b) d = Some ss \<and> s \<in> set ss)"
  by (simp add: tracked_def all_sockets_iff)

lemma tracked_ping:
  assumes ok: "ws_ok b"
  shows "tracked s (fst (ping_cycle b)) \<longleftrightarrow> tracked s b \<and> s \<in> set (wb_alive b)"
  unfolding tracked_iff [OF ok] tracked_iff [OF ws_ok_ping [OF ok]]
  by (auto simp: ping_cycle_unfold [OF ok] pinged_lookup(2) [OF ws_ok_conns [OF ok]] filter_empty_conv
      split: option.splits if_splits)

lemma tracked_close:
  assumes ok: "ws_ok b"
  shows "tracked s (on_close d s' b) \<Longrightarrow> tracked s b"
  unfolding tracked_iff [OF ok] tracked_iff [OF ws_ok_close [OF ok]]
  by (auto simp: on_close_get split: option.splits if_splits)

lemma tracked_authenticate:
  assumes ok: "ws_ok b" and new: "jm_get (wb_socket_to_device b) s' = None" and "s \<noteq> s'"
  shows "tracked s (fst (authenticate_end session s' b)) \<Longrightarrow> tracked s b"
    and "s \<in> set (wb_alive (fst (authenticate_end session s' b))) \<Longrightarrow> s \<in> set (wb_alive b)"
    and "jm_get (wb_socket_to_device (fst (authenticate_end session s' b))) s = jm_get (wb_socket_to_device b) s"
  unfolding tracked_iff [OF ok] tracked_iff [OF ws_ok_authenticate [OF ok new]]
  by (cases rule: authenticate_end_cases [where session = session and s = s' and b = b];
      use assms(3) in \<open>auto split: option.splits if_splits\<close>)+

lemma silent_step:
  assumes "ws_step b e b'" and "ws_ok b" and "jm_get (wb_socket_to_device b) s \<noteq> None" and "e \<noteq> Pong s"
  shows "jm_get (wb_socket_to_device b') s \<noteq> None"
    and "tracked s b' \<Longrightarrow> tracked s b"
    and "s \<in> set (wb_alive b') \<Longrightarrow> s \<in> set (wb_alive b)"
    and "e = Ping_Cycle \<Longrightarrow> tracked s b' \<Longrightarrow> s \<in> set (wb_alive b) \<and> s \<notin> set (wb_alive b')"
proof -
  have all: "jm_get (wb_socket_to_device b') s \<noteq> None \<and> (tracked s b' \<longrightarrow> tracked s b)
    \<and> (s \<in> set (wb_alive b') \<longrightarrow> s \<in> set (wb_alive b))
    \<and> (e = Ping_Cycle \<longrightarrow> tracked s b' \<longrightarrow> s \<in> set (wb_alive b) \<and> s \<notin> set (wb_alive b'))"
    using assms
  proof (induction rule: ws_step.induct)
    case (ws_authenticated b s' session)
    then have "s \<noteq> s'" by auto
    then show ?case using tracked_authenticate [OF ws_authenticated(2,1)] ws_authenticated(3) by simp
  next
    case (ws_pong b s' d)
    then show ?case by (auto simp: on_pong_def tracked_def all_sockets_def)
  next
    case (ws_closed b s' d)
    then show ?case using tracked_close by (auto simp: on_close_other)
  next
    case (ws_ping b)
    have "tracked s (fst (ping_cycle b)) \<longleftrightarrow> tracked s b \<and> s \<in> set (wb_alive b)" by (rule tracked_ping [OF ws_ping(2)])
    moreover have "tracked s b \<longleftrightarrow> s \<in> set (all_sockets b)" by (rule tracked_def)
    ultimately show ?case using ws_ping by (auto simp: ping_cycle_unfold)
  next
    case (ws_shut_down b)
    then show ?case by (auto simp: close_all_def tracked_def all_sockets_def)
  qed (simp_all add: start_ping_interval_def on_ice_candidate_def tracked_def all_sockets_def)
  then show "jm_get (wb_socket_to_device b') s \<noteq> None" "tracked s b' \<Longrightarrow> tracked s b"
    "s \<in> set (wb_alive b') \<Longrightarrow> s \<in> set (wb_alive b)"
    "e = Ping_Cycle \<Longrightarrow> tracked s b' \<Longrightarrow> s \<in> set (wb_alive b) \<and> s \<notin> set (wb_alive b')" by simp_all
qed

lemma silent_run:
  assumes "run ws_step b es b'" and "ws_ok b" and "jm_get (wb_socket_to_device b) s \<noteq> None" and "Pong s \<notin> set es"
    and "tracked s b'"
  shows "tracked s b \<and> (s \<in> set (wb_alive b) \<longrightarrow> count_list es Ping_Cycle \<le> 1)
    \<and> (s \<notin> set (wb_alive b) \<longrightarrow> count_list es Ping_Cycle = 0)"
  using assms
proof (induction rule: run.induct)
  case (run_Cons b e t es u)
  have e: "e \<noteq> Pong s" "Pong s \<notin> set es" using run_Cons.prems(3) by auto
  note st = silent_step [OF run_Cons.hyps(1) run_Cons.prems(1,2) e(1)]
  have "ws_ok t" by (rule ws_step_ok [OF run_Cons.hyps(1) run_Cons.prems(1)])
  from run_Cons.IH [OF this st(1) e(2) run_Cons.prems(4)]
  have ih: "tracked s t" "s \<in> set (wb_alive t) \<longrightarrow> count_list es Ping_Cycle \<le> 1"
    "s \<notin> set (wb_alive t) \<longrightarrow> count_list es Ping_Cycle = 0" by auto
  show ?case
  proof (cases "e = Ping_Cycle")
    case True
    then show ?thesis using st(2,4) ih by auto
  next
    case False
    then show ?thesis using st(2,3) ih by auto
  qed
qed simp

text \<open>A socket that stops answering is gone at the latest with the second ping cycle
  after its last pong, whatever other sockets do in between, and a socket that answered
  between two cycles outlives the second: the cycle keeps it, pings it and closes exactly the
  sockets it drops.\<close>

theorem silent_socket_evicted:
  assumes "reach ws_init ws_step b" and "run ws_step b es b'"
    and "jm_get (wb_socket_to_device b) s \<noteq> None" and "Pong s \<notin> set es" and "2 \<le> count_list es Ping_Cycle"
  shows "\<not> tracked s b'
    \<and> (tracked s2 (fst (ping_cycle b)) \<longleftrightarrow> tracked s2 b \<and> s2 \<in> set (wb_alive b))
    \<and> (Ws_Ping s2 \<in> set (snd (ping_cycle b)) \<longleftrightarrow> tracked s2 (fst (ping_cycle b)))
    \<and> (Ws_Close s2 1001 ''Ping timeout'' \<in> set (snd (ping_cycle b)) \<longleftrightarrow> tracked s2 b \<and> \<not> tracked s2 (fst (ping_cycle b)))
    \<and> s2 \<in> set (wb_alive (on_pong s2 b))"
proof -
  have ok: "ws_ok b" by (rule sockets.reach_inv [OF assms(1)])
  have "\<not> tracked s b'" using silent_run [OF assms(2) ok assms(3,4)] assms(5) by fastforce
  then show ?thesis
    unfolding tracked_ping [OF ok] by (auto simp: ping_cycle_unfold [OF ok] tracked_def on_pong_def)
qed

lemma run_ping: "wb_pinging b \<Longrightarrow> run ws_step b [Ping_Cycle] (fst (ping_cycle b))"
  by (rule run_single) (rule ws_ping)

theorem silent_socket_evicted_witness:
  "\<not> tracked ''s1'' (fst (ping_cycle (fst (ping_cycle sample_broadcaster))))"
proof -
  let ?b1 = "fst (ping_cycle sample_broadcaster)" and ?b2 = "fst (ping_cycle (fst (ping_cycle sample_broadcaster)))"
  have "wb_pinging ?b1" by (simp add: ping_cycle_def sample_broadcaster_eq)
  then have "run ws_step ?b1 [Ping_Cycle] ?b2" by (rule run_ping)
  moreover have "run ws_step sample_broadcaster [Ping_Cycle] ?b1" by (rule run_ping) (simp add: sample_broadcaster_eq)
  ultimately have r: "run ws_step sample_broadcaster ([Ping_Cycle] @ [Ping_Cycle]) ?b2" by (rule run_append [rotated])
  show ?thesis
    using silent_socket_evicted [OF sample_broadcaster_reachable r, of "''s1''" "''s1''"]
    by (simp add: sample_broadcaster_eq jm_get_def)
qed

section \<open>Admission across the ticket service, the session and the broadcaster\<close>

text \<open>
  One connection attempt of \<^verbatim>\<open>authenticateAndRegister\<close> without an interruption: the ticket or
  token, the session it names, the registration of the socket.
\<close>

definition connect ::
    "auth_config \<Rightarrow> string \<Rightarrow> bool \<Rightarrow> int \<Rightarrow> socket \<Rightarrow> ticket_service option \<times> device_row table \<times> broadcaster
      \<Rightarrow> (ticket_service option \<times> device_row table \<times> broadcaster) \<times> ws_effect list" where
  "connect cfg token is_ticket now s world =
     (case world of (tickets, devices, b) \<Rightarrow>
       (case authenticate_begin token is_ticket now s tickets of
          (None, tickets', eff) \<Rightarrow> ((tickets', devices, b), eff)
        | (Some session_token, tickets', _) \<Rightarrow>
            (case validate_session cfg session_token now now devices of (session, devices') \<Rightarrow>
              (case authenticate_end (Some session) s b of (b', eff) \<Rightarrow> ((tickets', devices', b'), eff)))))"

lemma authenticate_end_refuses: "authenticate_end (Some None) s b = (b, [Ws_Close s 1008 ''Invalid or expired session''])"
  by (simp add: authenticate_end_def)

lemma authenticate_begin_no_ticket_reason:
  "authenticate_begin token is_ticket now s tickets = (None, tickets', eff) \<Longrightarrow> eff = [Ws_Close s 1008 ''Invalid or expired ticket'']"
  by (auto simp: authenticate_begin_def split: option.splits if_splits prod.splits)

lemma connect_refused:
  assumes "\<And>k tickets' eff. authenticate_begin token is_ticket now s tickets = (Some k, tickets', eff) \<Longrightarrow> \<not> holds_token k devices"
  shows "\<exists>tickets' reason. connect cfg token is_ticket now s (tickets, devices, b) = ((tickets', devices, b), [Ws_Close s 1008 reason])"
proof -
  obtain k tickets' eff where a: "authenticate_begin token is_ticket now s tickets = (k, tickets', eff)" by (rule prod_cases3)
  show ?thesis
  proof (cases k)
    case None
    then show ?thesis using a authenticate_begin_no_ticket_reason [of token is_ticket now s tickets tickets' eff]
      by (simp add: connect_def)
  next
    case (Some k')
    then have "\<not> holds_token k' devices" using assms a by blast
    then show ?thesis using a Some by (simp add: connect_def validate_absent authenticate_end_refuses)
  qed
qed

text \<open>What a presented credential stands for: a token for itself, a ticket for the session it was issued to.\<close>

lemma authenticate_begin_token:
  assumes "authenticate_begin token is_ticket now s tickets = (Some k, tickets', eff)"
  shows "(k = token \<and> \<not> (is_ticket \<and> tickets \<noteq> None)) \<or>
    (\<exists>ts entry. is_ticket \<and> tickets = Some ts \<and> jm_get (ts_tickets ts) token = Some entry \<and> tk_session_token entry = k
      \<and> now - tk_created_at entry \<le> TICKET_TTL_MS)"
  using assms
  by (auto simp: authenticate_begin_def consume_ticket_def Let_def split: option.splits if_splits prod.splits)

definition names_session :: "ticket_service option \<Rightarrow> string \<Rightarrow> bool \<Rightarrow> string \<Rightarrow> bool" where
  "names_session tickets token is_ticket k \<longleftrightarrow>
     (if is_ticket then (case tickets of None \<Rightarrow> token = k
        | Some ts \<Rightarrow> (case jm_get (ts_tickets ts) token of None \<Rightarrow> False | Some entry \<Rightarrow> tk_session_token entry = k))
      else token = k)"

text \<open>After a logout no connection attempt with the session's token, or with any ticket
  issued for it before, by anyone, is admitted as long as no later login draws the same
  token: the socket is closed with the policy code and neither the devices nor the sockets
  change.\<close>

theorem logged_out_cannot_connect:
  assumes "\<not> is_sentinel k" "logout k random \<lparr> st_auth = a, st_devices = rs_devices s \<rparr> = (Inr known, u)"
    and "run (registry_step cfg) \<lparr> rs_devices = st_devices u, rs_clock = rs_clock s \<rparr> es t"
    and "\<not> list_ex (registers_token k) es"
    and "names_session tickets token is_ticket k"
  shows "\<exists>tickets' reason. connect cfg token is_ticket now socket (tickets, rs_devices t, b)
    = ((tickets', rs_devices t, b), [Ws_Close socket 1008 reason])"
proof (rule connect_refused)
  fix k' tickets' eff
  assume a: "authenticate_begin token is_ticket now socket tickets = (Some k', tickets', eff)"
  have "k' = k" using authenticate_begin_token [OF a] assms(5) by (auto simp: names_session_def split: option.splits if_splits)
  moreover have "\<not> holds_token k (rs_devices t)"
    using run_token_gone [OF assms(3,4,1)] logout_removes(1) [OF assms(1,2)] by simp
  ultimately show "\<not> holds_token k' (rs_devices t)" by simp
qed

theorem logged_out_cannot_connect_witness:
  "\<exists>tickets' reason. connect (auth_service_config 30 None None) ''t'' True 1000 ''s1''
      (Some \<lparr> ts_tickets = [(''t'', \<lparr> tk_session_token = ''k'', tk_device_id = ''d'', tk_created_at = 0 \<rparr>)], ts_interval = True \<rparr>,
       [(example_device ''d'' ''Pixel'' (logged_out_token ''r'') 5)\<lparr> dv_is_active := False \<rparr>], sample_broadcaster)
    = ((tickets', [(example_device ''d'' ''Pixel'' (logged_out_token ''r'') 5)\<lparr> dv_is_active := False \<rparr>], sample_broadcaster),
       [Ws_Close ''s1'' 1008 reason])"
proof -
  let ?s = "\<lparr> rs_devices = [example_device ''d'' ''Pixel'' ''k'' 5], rs_clock = 5 \<rparr>"
  let ?t = "[(example_device ''d'' ''Pixel'' (logged_out_token ''r'') 5)\<lparr> dv_is_active := False \<rparr>]"
  let ?tickets = "Some \<lparr> ts_tickets = [(''t'', \<lparr> tk_session_token = ''k'', tk_device_id = ''d'', tk_created_at = 0 \<rparr>)], ts_interval = True \<rparr>"
  have k: "\<not> is_sentinel ''k''" by (simp add: is_sentinel_def)
  have l: "logout ''k'' ''r'' \<lparr> st_auth = None, st_devices = rs_devices ?s \<rparr> = (Inr True, \<lparr> st_auth = None, st_devices = ?t \<rparr>)"
    by (simp add: logout_def Let_def sql_count_def sql_update_def example_device_def)
  have r: "run (registry_step (auth_service_config 30 None None)) \<lparr> rs_devices = st_devices \<lparr> st_auth = None, st_devices = ?t \<rparr>, rs_clock = rs_clock ?s \<rparr> []
      \<lparr> rs_devices = ?t, rs_clock = rs_clock ?s \<rparr>"
    by (simp add: run_Nil)
  have n: "\<not> list_ex (registers_token ''k'') []" by simp
  have m: "names_session ?tickets ''t'' True ''k''" by (simp add: names_session_def jm_get_def)
  from logged_out_cannot_connect [OF k l r n m, of 1000 "''s1''" sample_broadcaster] show ?thesis by simp
qed

text \<open>The sockets a device opened before its logout are another matter: nothing closes them.\<close>

lemma logged_out_socket_still_served:
  "validate_session cfg ''k'' now seen [example_device ''d1'' ''Pixel'' (logged_out_token ''r'') 5] =
     (None, [example_device ''d1'' ''Pixel'' (logged_out_token ''r'') 5])
   \<and> broadcast (\<lambda>_. True) ''incoming_call'' sample_broadcaster = [Ws_Send ''s1'' ''incoming_call'']"
  by (simp add: validate_session_def sql_first_def logged_out_token_def sample_broadcaster_eq broadcast_def send_open_def)

text \<open>
  A socket that closes while its session is being validated has no close handler yet: it is
  registered all the same and stays tracked until the second ping cycle.
\<close>

lemma closed_while_authenticating_is_tracked:
  "tracked s (fst (authenticate_end (Some (Some (''d'', name))) s new_broadcaster))"
  "tracked s (fst (ping_cycle (fst (authenticate_end (Some (Some (''d'', name))) s new_broadcaster))))"
  by (simp_all add: tracked_def all_sockets_def authenticate_end_def new_broadcaster_def jm_set_def ping_cycle_def)

end
