(* ===== verification/Webrtc_Client.thy ===== *)
theory Webrtc_Client
  imports Complex_Main Web_Text
begin

text \<open>
  \<^verbatim>\<open>web/src/call/webrtc-call-client.ts\<close>: the browser's audio session. The peer connection, the
  microphone and the media statistics are the browser's: their answers are arguments. The
  asynchronous methods are cut at their awaits. Store listeners see the state the functions
  return; whether a track has ended and which senders exist are arguments.
\<close>

datatype webrtc_failure_reason =
    Mic_Denied | No_Microphone | Offer_Failed | Answer_Failed | Ice_Timeout | Ice_Failed
  | Connecting_Timeout | Connection_Lost | Media_Inactive

datatype webrtc_state = Rtc_Disconnected | Rtc_Connecting | Rtc_Connected | Rtc_Failed webrtc_failure_reason

definition ICE_TIMEOUT_MS :: int where "ICE_TIMEOUT_MS = 20000"

definition CONNECTING_CAP_MS :: int where "CONNECTING_CAP_MS = 30000"

definition WATCHDOG_POLL_MS :: int where "WATCHDOG_POLL_MS = 1000"

definition MEDIA_INACTIVITY_MS :: int where "MEDIA_INACTIVITY_MS = 5000"

record inbound_stats =
  packets_received :: nat
  bytes_received :: nat

record rtc_client =
  rc_state :: webrtc_state
  rc_media_receiving :: bool
  rc_pc :: bool
  rc_local_stream :: bool
  rc_local_track :: bool
  rc_muted :: bool
  rc_closed :: bool
  rc_ice_timeout :: bool
  rc_connecting_cap :: bool
  rc_watchdog_timer :: bool
  rc_last_inbound_stats :: "inbound_stats option"
  rc_last_activity_at :: int
  rc_watchdog_polling :: bool

definition new_rtc_client :: rtc_client where
  "new_rtc_client = \<lparr> rc_state = Rtc_Disconnected, rc_media_receiving = False, rc_pc = False, rc_local_stream = False,
     rc_local_track = False, rc_muted = False, rc_closed = False, rc_ice_timeout = False, rc_connecting_cap = False,
     rc_watchdog_timer = False, rc_last_inbound_stats = None, rc_last_activity_at = 0, rc_watchdog_polling = False \<rparr>"

section \<open>Timers and the state setter\<close>

definition clear_establishment_timers :: "rtc_client \<Rightarrow> rtc_client" where
  "clear_establishment_timers c = c\<lparr> rc_ice_timeout := False, rc_connecting_cap := False \<rparr>"

definition start_establishment_timers :: "rtc_client \<Rightarrow> rtc_client" where
  "start_establishment_timers c = (clear_establishment_timers c)\<lparr> rc_ice_timeout := True, rc_connecting_cap := True \<rparr>"

definition stop_media_watchdog :: "rtc_client \<Rightarrow> rtc_client" where
  "stop_media_watchdog c = c\<lparr> rc_watchdog_timer := False, rc_last_inbound_stats := None, rc_watchdog_polling := False,
     rc_media_receiving := False \<rparr>"

definition start_media_watchdog :: "int \<Rightarrow> rtc_client \<Rightarrow> rtc_client" where
  "start_media_watchdog now c =
     (stop_media_watchdog c)\<lparr> rc_last_activity_at := now, rc_media_receiving := True, rc_watchdog_timer := True \<rparr>"

definition set_rtc_state :: "int \<Rightarrow> webrtc_state \<Rightarrow> rtc_client \<Rightarrow> rtc_client" where
  "set_rtc_state now state c =
     (let prev = rc_state c;
          c1 = (if state \<noteq> Rtc_Connecting then clear_establishment_timers c else c);
          c2 = (if state = Rtc_Connected \<and> prev \<noteq> Rtc_Connected then start_media_watchdog now c1
                else if state \<noteq> Rtc_Connected \<and> prev = Rtc_Connected then stop_media_watchdog c1 else c1)
      in c2\<lparr> rc_state := state \<rparr>)"

section \<open>Offer and answer\<close>

text \<open>The name of the error \<^verbatim>\<open>getUserMedia\<close> rejects with, empty when it has none.\<close>

definition map_get_user_media_error :: "string \<Rightarrow> webrtc_failure_reason" where
  "map_get_user_media_error name =
     (if name = ''NotFoundError'' \<or> name = ''DevicesNotFoundError'' then No_Microphone else Mic_Denied)"

text \<open>\<^verbatim>\<open>createOffer\<close> after \<^verbatim>\<open>getUserMedia\<close> rejected; it rejects in turn.\<close>

definition microphone_refused :: "int \<Rightarrow> string \<Rightarrow> rtc_client \<Rightarrow> rtc_client" where
  "microphone_refused now name c = set_rtc_state now (Rtc_Failed (map_get_user_media_error name)) c"

text \<open>
  \<^verbatim>\<open>createOffer\<close> after the microphone was granted, up to the offer of the peer connection:
  whether the stream has an audio track and whether the peer connection could be built.
\<close>

definition microphone_granted :: "int \<Rightarrow> bool \<Rightarrow> bool \<Rightarrow> rtc_client \<Rightarrow> rtc_client" where
  "microphone_granted now has_track pc_built c =
     (let c1 = set_rtc_state now Rtc_Connecting (c\<lparr> rc_local_stream := True, rc_local_track := has_track \<rparr>) in
      if pc_built then c1\<lparr> rc_pc := True \<rparr> else set_rtc_state now (Rtc_Failed Offer_Failed) c1)"

text \<open>The rest of it: the local description, absent when the browser refused it; the answer is the offer or a rejection.\<close>

definition offer_described :: "int \<Rightarrow> (jstr option \<times> jstr option) option \<Rightarrow> rtc_client \<Rightarrow> jstr option \<times> rtc_client" where
  "offer_described now descriptions c =
     (case descriptions of
        None \<Rightarrow> (None, set_rtc_state now (Rtc_Failed Offer_Failed) c)
      | Some (local_sdp, offer_sdp) \<Rightarrow>
          let c1 = start_establishment_timers c in
          (case (case local_sdp of Some sdp \<Rightarrow> Some sdp | None \<Rightarrow> offer_sdp) of
             Some sdp \<Rightarrow> if sdp = [] then (None, set_rtc_state now (Rtc_Failed Offer_Failed) c1) else (Some sdp, c1)
           | None \<Rightarrow> (None, set_rtc_state now (Rtc_Failed Offer_Failed) c1)))"

text \<open>\<^verbatim>\<open>applyAnswer\<close>: \<open>accepted\<close> is the browser's answer, asked for only with a peer connection. The flag is its success.\<close>

definition apply_answer :: "int \<Rightarrow> bool \<Rightarrow> rtc_client \<Rightarrow> bool \<times> rtc_client" where
  "apply_answer now accepted c =
     (if rc_pc c \<and> accepted then (True, c) else (False, set_rtc_state now (Rtc_Failed Answer_Failed) c))"

section \<open>Mute, volume, tones\<close>

definition clamp_volume :: "rat \<Rightarrow> rat option \<Rightarrow> rat" where
  "clamp_volume current level = (case level of None \<Rightarrow> current | Some l \<Rightarrow> min 1 (max 0 l))"

definition client_set_muted :: "bool \<Rightarrow> bool \<Rightarrow> rtc_client \<Rightarrow> bool \<times> rtc_client" where
  "client_set_muted track_ended muted c =
     (if \<not> rc_local_track c \<or> track_ended then (rc_muted c, c) else (muted, c\<lparr> rc_muted := muted \<rparr>))"

definition client_send_dtmf :: "bool \<Rightarrow> bool \<Rightarrow> rtc_client \<Rightarrow> bool" where
  "client_send_dtmf has_sender inserted c \<longleftrightarrow> rc_pc c \<and> has_sender \<and> inserted"

section \<open>Connection events and timers\<close>

datatype ice_state = Ice_New | Ice_Checking | Ice_Connected | Ice_Completed | Ice_State_Failed | Ice_Disconnected | Ice_Closed

datatype connection_state = Pc_New | Pc_Connecting | Pc_Connected | Pc_Disconnected | Pc_Failed | Pc_Closed

definition on_ice_connection_state_change :: "int \<Rightarrow> ice_state \<Rightarrow> rtc_client \<Rightarrow> rtc_client" where
  "on_ice_connection_state_change now ice c =
     (let current = rc_state c in
      if ice = Ice_Connected \<or> ice = Ice_Completed then
        if current = Rtc_Connecting then set_rtc_state now Rtc_Connected c else c
      else if ice = Ice_State_Failed then
        if current = Rtc_Connecting then set_rtc_state now (Rtc_Failed Ice_Failed) c
        else if current = Rtc_Connected then set_rtc_state now (Rtc_Failed Connection_Lost) c else c
      else if ice = Ice_Disconnected then
        if current = Rtc_Connected then set_rtc_state now (Rtc_Failed Connection_Lost) c else c
      else c)"

definition on_connection_state_change :: "int \<Rightarrow> connection_state \<Rightarrow> rtc_client \<Rightarrow> rtc_client" where
  "on_connection_state_change now conn c =
     (let current = rc_state c in
      if conn = Pc_Connected then
        if current = Rtc_Connecting then set_rtc_state now Rtc_Connected c else c
      else if conn = Pc_Failed then
        if current = Rtc_Connecting then set_rtc_state now (Rtc_Failed Ice_Failed) c
        else if current = Rtc_Connected then set_rtc_state now (Rtc_Failed Connection_Lost) c else c
      else c)"

definition ice_timeout_fires :: "int \<Rightarrow> rtc_client \<Rightarrow> rtc_client" where
  "ice_timeout_fires now c =
     (let c1 = c\<lparr> rc_ice_timeout := False \<rparr> in
      if rc_state c1 = Rtc_Connecting then set_rtc_state now (Rtc_Failed Ice_Timeout) c1 else c1)"

definition connecting_cap_fires :: "int \<Rightarrow> rtc_client \<Rightarrow> rtc_client" where
  "connecting_cap_fires now c =
     (let c1 = c\<lparr> rc_connecting_cap := False \<rparr> in
      if rc_state c1 = Rtc_Connecting then set_rtc_state now (Rtc_Failed Connecting_Timeout) c1 else c1)"

definition close_client :: "int \<Rightarrow> rtc_client \<Rightarrow> rtc_client" where
  "close_client now c =
     (if rc_closed c then c
      else set_rtc_state now Rtc_Disconnected
        ((stop_media_watchdog (clear_establishment_timers (c\<lparr> rc_closed := True \<rparr>)))
          \<lparr> rc_local_track := False, rc_local_stream := False, rc_pc := False \<rparr>))"

section \<open>The media watchdog\<close>

text \<open>A report entry: whether it is inbound media, its counters where they are numbers.\<close>

record stats_entry =
  se_inbound :: bool
  se_packets :: "nat option"
  se_bytes :: "nat option"

definition counted :: "nat option \<Rightarrow> nat" where
  "counted n = (case n of None \<Rightarrow> 0 | Some k \<Rightarrow> k)"

text \<open>\<open>report\<close> is absent when the statistics are not available or reading them throws.\<close>

definition get_inbound_stats :: "stats_entry list option \<Rightarrow> rtc_client \<Rightarrow> inbound_stats option" where
  "get_inbound_stats report c =
     (if \<not> rc_pc c then None
      else (case report of
          None \<Rightarrow> None
        | Some entries \<Rightarrow>
            let inbound = filter se_inbound entries in
            if inbound = [] then None
            else Some \<lparr> packets_received = sum_list (map (counted \<circ> se_packets) inbound),
                        bytes_received = sum_list (map (counted \<circ> se_bytes) inbound) \<rparr>))"

definition has_inbound_growth :: "inbound_stats \<Rightarrow> rtc_client \<Rightarrow> bool" where
  "has_inbound_growth current c \<longleftrightarrow>
     (case rc_last_inbound_stats c of
        None \<Rightarrow> True
      | Some prev \<Rightarrow> packets_received prev < packets_received current \<or> bytes_received prev < bytes_received current)"

definition poll_begin :: "rtc_client \<Rightarrow> bool \<times> rtc_client" where
  "poll_begin c = (if rc_watchdog_polling c then (False, c) else (True, c\<lparr> rc_watchdog_polling := True \<rparr>))"

definition poll_end :: "int \<Rightarrow> inbound_stats option \<Rightarrow> rtc_client \<Rightarrow> rtc_client" where
  "poll_end now stats c =
     (if \<not> rc_watchdog_timer c \<or> rc_state c \<noteq> Rtc_Connected then c\<lparr> rc_watchdog_polling := False \<rparr>
      else
        let c1 = (case stats of
              Some st \<Rightarrow> if has_inbound_growth st c then c\<lparr> rc_last_activity_at := now, rc_media_receiving := True \<rparr> else c
            | None \<Rightarrow> c);
            c2 = (case stats of Some st \<Rightarrow> c1\<lparr> rc_last_inbound_stats := Some st \<rparr> | None \<Rightarrow> c1);
            receiving = (now - rc_last_activity_at c2 < MEDIA_INACTIVITY_MS);
            c3 = c2\<lparr> rc_media_receiving := receiving \<rparr>;
            c4 = (if receiving then c3 else set_rtc_state now (Rtc_Failed Media_Inactive) c3)
        in c4\<lparr> rc_watchdog_polling := False \<rparr>)"

section \<open>The life of a client\<close>

text \<open>Everything that may happen to a client, in any order.\<close>

datatype rtc_event =
    Microphone_Refused int string
  | Microphone_Granted int bool bool
  | Offer_Described int "(jstr option \<times> jstr option) option"
  | Answer_Applied int bool
  | Muted bool bool
  | Ice_Changed int ice_state
  | Connection_Changed int connection_state
  | Ice_Timed_Out int
  | Connecting_Capped int
  | Poll_Begun
  | Poll_Ended int "inbound_stats option"
  | Client_Closed int

fun rtc_apply :: "rtc_event \<Rightarrow> rtc_client \<Rightarrow> rtc_client" where
  "rtc_apply (Microphone_Refused now name) c = microphone_refused now name c"
| "rtc_apply (Microphone_Granted now has_track pc_built) c = microphone_granted now has_track pc_built c"
| "rtc_apply (Offer_Described now descriptions) c = snd (offer_described now descriptions c)"
| "rtc_apply (Answer_Applied now accepted) c = snd (apply_answer now accepted c)"
| "rtc_apply (Muted track_ended muted) c = snd (client_set_muted track_ended muted c)"
| "rtc_apply (Ice_Changed now ice) c = on_ice_connection_state_change now ice c"
| "rtc_apply (Connection_Changed now conn) c = on_connection_state_change now conn c"
| "rtc_apply (Ice_Timed_Out now) c = ice_timeout_fires now c"
| "rtc_apply (Connecting_Capped now) c = connecting_cap_fires now c"
| "rtc_apply Poll_Begun c = snd (poll_begin c)"
| "rtc_apply (Poll_Ended now stats) c = poll_end now stats c"
| "rtc_apply (Client_Closed now) c = close_client now c"

definition rtc_run :: "rtc_event list \<Rightarrow> rtc_client \<Rightarrow> rtc_client" where
  "rtc_run es c = fold rtc_apply es c"

definition rtc_step :: "rtc_client \<Rightarrow> rtc_event \<Rightarrow> rtc_client \<Rightarrow> bool" where
  "rtc_step c e c' \<longleftrightarrow> c' = rtc_apply e c"

lemma rtc_run_simps [simp]: "rtc_run [] c = c" "rtc_run (e # es) c = rtc_run es (rtc_apply e c)"
  by (simp_all add: rtc_run_def)

lemmas rtc_defs = microphone_refused_def microphone_granted_def offer_described_def apply_answer_def client_set_muted_def
  on_ice_connection_state_change_def on_connection_state_change_def ice_timeout_fires_def connecting_cap_fires_def
  poll_begin_def poll_end_def close_client_def Let_def

lemmas rtc_setters = set_rtc_state_def clear_establishment_timers_def start_establishment_timers_def
  stop_media_watchdog_def start_media_watchdog_def Let_def

text \<open>What the state setter leaves alone.\<close>

lemma set_rtc_state_fields [simp]:
  "rc_state (set_rtc_state now st c) = st"
  "rc_pc (set_rtc_state now st c) = rc_pc c"
  "rc_local_stream (set_rtc_state now st c) = rc_local_stream c"
  "rc_local_track (set_rtc_state now st c) = rc_local_track c"
  "rc_closed (set_rtc_state now st c) = rc_closed c"
  "rc_muted (set_rtc_state now st c) = rc_muted c"
  by (simp_all add: rtc_setters)

lemma establishment_fields [simp]:
  "rc_state (start_establishment_timers c) = rc_state c" "rc_pc (start_establishment_timers c) = rc_pc c"
  "rc_local_stream (start_establishment_timers c) = rc_local_stream c" "rc_closed (start_establishment_timers c) = rc_closed c"
  "rc_state (clear_establishment_timers c) = rc_state c" "rc_pc (clear_establishment_timers c) = rc_pc c"
  "rc_local_stream (clear_establishment_timers c) = rc_local_stream c" "rc_closed (clear_establishment_timers c) = rc_closed c"
  "rc_state (stop_media_watchdog c) = rc_state c" "rc_pc (stop_media_watchdog c) = rc_pc c"
  "rc_local_stream (stop_media_watchdog c) = rc_local_stream c" "rc_closed (stop_media_watchdog c) = rc_closed c"
  by (simp_all add: rtc_setters)

section \<open>The invariant\<close>

text \<open>
  The watchdog polls exactly while connected, media counts as arriving only then, a peer
  connection is held only together with the microphone, and a client that holds no
  microphone is neither connecting nor connected.
\<close>

definition rtc_ok :: "rtc_client \<Rightarrow> bool" where
  "rtc_ok c \<longleftrightarrow> (rc_watchdog_timer c \<longleftrightarrow> rc_state c = Rtc_Connected)
     \<and> (rc_media_receiving c \<longrightarrow> rc_watchdog_timer c)
     \<and> (rc_pc c \<longrightarrow> rc_local_stream c)
     \<and> (rc_state c \<in> {Rtc_Connecting, Rtc_Connected} \<longrightarrow> rc_local_stream c)"

lemma rtc_ok_setter:
  assumes "rtc_ok c" and "st \<in> {Rtc_Connecting, Rtc_Connected} \<Longrightarrow> rc_local_stream c"
  shows "rtc_ok (set_rtc_state now st c)"
  using assms by (cases "rc_state c"; cases st) (auto simp: rtc_ok_def rtc_setters)

lemma rtc_ok_failed [simp]: "rtc_ok c \<Longrightarrow> rtc_ok (set_rtc_state now (Rtc_Failed r) c)"
  by (rule rtc_ok_setter) simp_all

lemma rtc_ok_streams: "rtc_ok c \<Longrightarrow> rtc_ok (c\<lparr> rc_local_stream := True, rc_local_track := t \<rparr>)"
  by (auto simp: rtc_ok_def)

lemma rtc_ok_fields [simp]:
  "rtc_ok (start_establishment_timers c) = rtc_ok c" "rtc_ok (c\<lparr> rc_ice_timeout := a \<rparr>) = rtc_ok c"
  "rtc_ok (c\<lparr> rc_connecting_cap := a \<rparr>) = rtc_ok c" "rtc_ok (c\<lparr> rc_muted := a \<rparr>) = rtc_ok c"
  "rtc_ok (c\<lparr> rc_watchdog_polling := a \<rparr>) = rtc_ok c" "rtc_ok (c\<lparr> rc_last_inbound_stats := st \<rparr>) = rtc_ok c"
  by (simp_all add: rtc_ok_def rtc_setters)

lemma rtc_ok_granted: "rtc_ok c \<Longrightarrow> rtc_ok (microphone_granted now t b c)"
proof -
  assume ok: "rtc_ok c"
  define c1 where "c1 = set_rtc_state now Rtc_Connecting (c\<lparr> rc_local_stream := True, rc_local_track := t \<rparr>)"
  have ok1: "rtc_ok c1" unfolding c1_def by (rule rtc_ok_setter) (simp_all add: rtc_ok_streams ok)
  have "rc_local_stream c1" by (simp add: c1_def)
  then have "rtc_ok (c1\<lparr> rc_pc := True \<rparr>)" using ok1 by (auto simp: rtc_ok_def)
  moreover have "rtc_ok (set_rtc_state now (Rtc_Failed Offer_Failed) c1)" by (rule rtc_ok_setter [OF ok1]) simp
  ultimately show ?thesis unfolding microphone_granted_def Let_def c1_def [symmetric] by simp
qed

lemma rtc_ok_close: "rtc_ok c \<Longrightarrow> rtc_ok (close_client now c)"
  by (auto simp: rtc_ok_def close_client_def rtc_setters)

lemma rtc_ok_poll: "rtc_ok c \<Longrightarrow> rtc_ok (poll_end now stats c)"
proof (cases "\<not> rc_watchdog_timer c \<or> rc_state c \<noteq> Rtc_Connected")
  case True
  assume "rtc_ok c"
  then show ?thesis using True by (simp add: poll_end_def)
next
  case False
  assume ok: "rtc_ok c"
  have up: "rtc_ok (c'\<lparr> rc_media_receiving := r \<rparr>)" if "rtc_ok c'" "rc_watchdog_timer c'" for c' r
    using that by (simp add: rtc_ok_def)
  have act: "rtc_ok (c\<lparr> rc_last_activity_at := now, rc_media_receiving := True \<rparr>)"
    using ok False by (simp add: rtc_ok_def)
  define c2 where "c2 = (case stats of Some st \<Rightarrow>
      (if has_inbound_growth st c then c\<lparr> rc_last_activity_at := now, rc_media_receiving := True \<rparr> else c)\<lparr> rc_last_inbound_stats := Some st \<rparr>
    | None \<Rightarrow> c)"
  have ok2: "rtc_ok c2" and w2: "rc_watchdog_timer c2" "rc_state c2 = Rtc_Connected"
    using ok act False by (auto simp: c2_def split: option.splits)
  have "rtc_ok (set_rtc_state now (Rtc_Failed Media_Inactive) (c2\<lparr> rc_media_receiving := False \<rparr>))"
    by (rule rtc_ok_setter [OF up [OF ok2 w2(1)]]) simp
  then show ?thesis using False up [OF ok2 w2(1)]
    by (cases stats) (auto simp: poll_end_def Let_def c2_def [symmetric] c2_def)
qed

lemma rtc_ok_apply: "rtc_ok c \<Longrightarrow> rtc_ok (rtc_apply e c)"
proof (induction e c rule: rtc_apply.induct)
  case (2 now has_track pc_built c)
  then show ?case by (simp add: rtc_ok_granted)
next
  case (3 now descriptions c)
  then show ?case by (auto simp: offer_described_def Let_def rtc_ok_setter split: option.splits)
next
  case (6 now ice c)
  then show ?case using rtc_ok_setter [OF 6, of _ now] by (auto simp: on_ice_connection_state_change_def Let_def rtc_ok_def)
next
  case (7 now conn c)
  then show ?case using rtc_ok_setter [OF 7, of _ now] by (auto simp: on_connection_state_change_def Let_def rtc_ok_def)
qed (simp_all add: microphone_refused_def apply_answer_def client_set_muted_def ice_timeout_fires_def connecting_cap_fires_def
    poll_begin_def rtc_ok_setter rtc_ok_close rtc_ok_poll Let_def)

definition rtc_init :: "rtc_client \<Rightarrow> bool" where
  "rtc_init c \<longleftrightarrow> c = new_rtc_client"

lemma rtc_ok_new: "rtc_ok new_rtc_client"
  by (simp add: new_rtc_client_def rtc_ok_def)

interpretation rtc: invariant_system rtc_init rtc_step rtc_ok
  by unfold_locales (auto simp: rtc_init_def rtc_step_def rtc_ok_new intro: rtc_ok_apply)

section \<open>Closing and the microphone\<close>

definition released :: "rtc_client \<Rightarrow> bool" where
  "released c \<longleftrightarrow> rc_closed c \<and> \<not> rc_local_stream c \<and> \<not> rc_local_track c \<and> \<not> rc_pc c \<and> rc_state c \<notin> {Rtc_Connecting, Rtc_Connected}"

fun grants_microphone :: "rtc_event \<Rightarrow> bool" where
  "grants_microphone (Microphone_Granted _ _ _) \<longleftrightarrow> True"
| "grants_microphone _ \<longleftrightarrow> False"

lemma released_close: "rtc_ok c \<Longrightarrow> \<not> rc_closed c \<Longrightarrow> released (close_client now c)"
  by (simp add: released_def close_client_def)

lemma released_apply: "released c \<Longrightarrow> \<not> grants_microphone e \<Longrightarrow> released (rtc_apply e c)"
  by (cases e) (auto simp: released_def rtc_defs start_establishment_timers_def clear_establishment_timers_def
      split: option.splits)

lemma released_run: "released c \<Longrightarrow> \<not> list_ex grants_microphone es \<Longrightarrow> released (rtc_run es c)"
  by (induction es arbitrary: c) (auto simp: released_apply)

text \<open>The flags of a client whose close has happened but that holds the microphone.\<close>

definition stranded :: "rtc_client \<Rightarrow> bool" where
  "stranded c \<longleftrightarrow> rc_closed c \<and> rc_local_stream c"

lemma stranded_apply: "stranded c \<Longrightarrow> stranded (rtc_apply e c)"
  by (cases e) (auto simp: stranded_def rtc_defs start_establishment_timers_def clear_establishment_timers_def
      split: option.splits)

lemma stranded_run: "stranded c \<Longrightarrow> stranded (rtc_run es c)"
  by (induction es arbitrary: c) (auto simp: stranded_apply)

text \<open>Closing a client in any state it can reach stops the microphone, the peer connection,
  the watchdog and the timers, and nothing that follows starts them again as long as no
  answer of \<^verbatim>\<open>getUserMedia\<close> was still outstanding; closing again changes nothing. When such an
  answer arrives after the close, the microphone is held from then on whatever happens,
  a further close included.
\<close>

theorem close_releases_microphone:
  assumes "reach rtc_init rtc_step c" and "\<not> rc_closed c" and "\<not> list_ex grants_microphone es"
  shows "released (rtc_run es (close_client now c))
    \<and> \<not> rc_watchdog_timer (close_client now c) \<and> \<not> rc_ice_timeout (close_client now c) \<and> \<not> rc_connecting_cap (close_client now c)
    \<and> close_client now2 (close_client now c) = close_client now c
    \<and> stranded (rtc_run es2 (microphone_granted now2 has_track pc_built (close_client now c)))"
proof -
  have ok: "rtc_ok c" by (rule rtc.reach_inv [OF assms(1)])
  have r: "released (close_client now c)" by (rule released_close [OF ok assms(2)])
  have "stranded (microphone_granted now2 has_track pc_built (close_client now c))"
    using r by (auto simp: released_def stranded_def microphone_granted_def Let_def)
  note s = stranded_run [OF this, of es2]
  have t: "\<not> rc_watchdog_timer (close_client now c)" "\<not> rc_ice_timeout (close_client now c)" "\<not> rc_connecting_cap (close_client now c)"
    using assms(2) by (simp_all add: close_client_def rtc_setters)
  have i: "close_client now2 (close_client now c) = close_client now c"
    using r by (simp add: released_def close_client_def)
  show ?thesis using released_run [OF r assms(3)] s t i by simp
qed

definition sample_connected :: rtc_client where
  "sample_connected = rtc_run [Microphone_Granted 0 True True, Ice_Changed 100 Ice_Connected] new_rtc_client"

lemma sample_connected_eq:
  "sample_connected = \<lparr> rc_state = Rtc_Connected, rc_media_receiving = True, rc_pc = True, rc_local_stream = True,
     rc_local_track = True, rc_muted = False, rc_closed = False, rc_ice_timeout = False, rc_connecting_cap = False,
     rc_watchdog_timer = True, rc_last_inbound_stats = None, rc_last_activity_at = 100, rc_watchdog_polling = False \<rparr>"
  by (simp add: sample_connected_def new_rtc_client_def microphone_granted_def on_ice_connection_state_change_def rtc_setters)

lemma reach_rtc_run: "reach rtc_init rtc_step c \<Longrightarrow> reach rtc_init rtc_step (rtc_run es c)"
proof (induction es arbitrary: c)
  case (Cons e es)
  have "reach rtc_init rtc_step (rtc_apply e c)"
    by (rule reach_step [where step = rtc_step and e = e, OF Cons.prems]) (simp add: rtc_step_def)
  then show ?case using Cons.IH by simp
qed simp

lemma sample_connected_reachable: "reach rtc_init rtc_step sample_connected"
  unfolding sample_connected_def by (rule reach_rtc_run, rule reach_init) (simp add: rtc_init_def)

theorem close_releases_microphone_witness:
  "released (rtc_run [Ice_Changed 300 Ice_Connected] (close_client 200 sample_connected))"
  using close_releases_microphone [OF sample_connected_reachable, of "[Ice_Changed 300 Ice_Connected]" 200 400 Nil True True]
  by (simp add: sample_connected_eq)

section \<open>The watchdog detects silence\<close>

text \<open>A poll that nothing overtakes, with the report it reads.\<close>

definition poll_watchdog :: "int \<times> stats_entry list option \<Rightarrow> rtc_client \<Rightarrow> rtc_client" where
  "poll_watchdog p c =
     (case p of (now, report) \<Rightarrow>
       (case poll_begin c of (started, c') \<Rightarrow> if started then poll_end now (get_inbound_stats report c') c' else c'))"

lemma poll_end_silent:
  assumes "rc_state c = Rtc_Connected" "rc_watchdog_timer c" and "stats \<in> {None, rc_last_inbound_stats c}"
  shows "poll_end t stats c =
    (if t - rc_last_activity_at c < MEDIA_INACTIVITY_MS then c\<lparr> rc_media_receiving := True, rc_watchdog_polling := False \<rparr>
     else set_rtc_state t (Rtc_Failed Media_Inactive) c)"
proof (cases stats)
  case None
  then show ?thesis using assms(1,2) by (simp add: poll_end_def rtc_setters)
next
  case (Some st)
  then have l: "rc_last_inbound_stats c = Some st" using assms(3) by auto
  then have n: "\<not> has_inbound_growth st c" by (simp add: has_inbound_growth_def)
  have "c\<lparr> rc_last_inbound_stats := Some st \<rparr> = c" using l by simp
  then show ?thesis using assms(1,2) by (simp add: poll_end_def Some n rtc_setters)
qed

lemma poll_watchdog_silent:
  assumes "rc_state c = Rtc_Connected" "rc_watchdog_timer c" "\<not> rc_watchdog_polling c"
    and "get_inbound_stats report c \<in> {None, rc_last_inbound_stats c}"
  shows "poll_watchdog (t, report) c =
    (if t - rc_last_activity_at c < MEDIA_INACTIVITY_MS then c\<lparr> rc_media_receiving := True \<rparr>
     else set_rtc_state t (Rtc_Failed Media_Inactive) c)"
proof -
  define c' where "c' = c\<lparr> rc_watchdog_polling := True \<rparr>"
  have b: "poll_begin c = (True, c')" using assms(3) by (simp add: poll_begin_def c'_def)
  have g: "get_inbound_stats report c' = get_inbound_stats report c" by (simp add: get_inbound_stats_def c'_def)
  have "poll_watchdog (t, report) c = poll_end t (get_inbound_stats report c) c'"
    by (simp add: poll_watchdog_def b g)
  also have "\<dots> = (if t - rc_last_activity_at c' < MEDIA_INACTIVITY_MS then c'\<lparr> rc_media_receiving := True, rc_watchdog_polling := False \<rparr>
     else set_rtc_state t (Rtc_Failed Media_Inactive) c')"
    by (rule poll_end_silent) (use assms in \<open>simp_all add: c'_def\<close>)
  finally show ?thesis using assms(1,3) by (simp add: c'_def rtc_setters)
qed

lemma poll_watchdog_idle: "rc_state c \<noteq> Rtc_Connected \<Longrightarrow> rc_state (poll_watchdog p c) = rc_state c"
  by (cases p) (auto simp: poll_watchdog_def poll_begin_def poll_end_def)

lemma polls_idle: "rc_state c \<noteq> Rtc_Connected \<Longrightarrow> rc_state (fold poll_watchdog ps c) = rc_state c"
  by (induction ps arbitrary: c) (simp_all add: poll_watchdog_idle)

lemma silent_polls:
  assumes "rc_state c = Rtc_Connected" "rc_watchdog_timer c" "\<not> rc_watchdog_polling c"
    and "\<And>t report. (t, report) \<in> set ps \<Longrightarrow> get_inbound_stats report c \<in> {None, rc_last_inbound_stats c}"
  shows "rc_state (fold poll_watchdog ps c) =
    (if \<exists>p \<in> set ps. MEDIA_INACTIVITY_MS \<le> fst p - rc_last_activity_at c then Rtc_Failed Media_Inactive else Rtc_Connected)"
  using assms
proof (induction ps arbitrary: c)
  case Nil
  then show ?case by simp
next
  case (Cons p ps)
  obtain t report where p: "p = (t, report)" by (cases p)
  have s: "get_inbound_stats report c \<in> {None, rc_last_inbound_stats c}" by (rule Cons.prems(4) [of t]) (simp add: p)
  note e = poll_watchdog_silent [OF Cons.prems(1-3) s, of t]
  show ?case
  proof (cases "t - rc_last_activity_at c < MEDIA_INACTIVITY_MS")
    case True
    define c' where "c' = c\<lparr> rc_media_receiving := True \<rparr>"
    have c': "rc_state c' = Rtc_Connected" "rc_watchdog_timer c'" "\<not> rc_watchdog_polling c'"
        "rc_last_activity_at c' = rc_last_activity_at c" "rc_last_inbound_stats c' = rc_last_inbound_stats c"
      using Cons.prems by (simp_all add: c'_def)
    have g: "get_inbound_stats r c' = get_inbound_stats r c" for r by (simp add: get_inbound_stats_def c'_def)
    have "rc_state (fold poll_watchdog ps c') =
      (if \<exists>p \<in> set ps. MEDIA_INACTIVITY_MS \<le> fst p - rc_last_activity_at c' then Rtc_Failed Media_Inactive else Rtc_Connected)"
    proof (rule Cons.IH [OF c'(1-3)])
      fix t' report' assume "(t', report') \<in> set ps"
      then have "get_inbound_stats report' c \<in> {None, rc_last_inbound_stats c}" by (intro Cons.prems(4) [of t']) simp
      then show "get_inbound_stats report' c' \<in> {None, rc_last_inbound_stats c'}" unfolding g c'(5) .
    qed
    then show ?thesis using True e by (simp add: p c'_def)
  next
    case False
    then show ?thesis using e by (simp add: p polls_idle)
  qed
qed

lemma poll_watchdog_growth:
  assumes "rc_state c = Rtc_Connected" "rc_watchdog_timer c" "\<not> rc_watchdog_polling c"
    and "get_inbound_stats report c = Some st" "has_inbound_growth st c"
  shows "rc_state (poll_watchdog (t, report) c) = Rtc_Connected
    \<and> rc_last_activity_at (poll_watchdog (t, report) c) = t
    \<and> rc_last_inbound_stats (poll_watchdog (t, report) c) = Some st
    \<and> rc_watchdog_timer (poll_watchdog (t, report) c) \<and> \<not> rc_watchdog_polling (poll_watchdog (t, report) c)
    \<and> rc_pc (poll_watchdog (t, report) c) = rc_pc c"
proof -
  define c' where "c' = c\<lparr> rc_watchdog_polling := True \<rparr>"
  have b: "poll_begin c = (True, c')" using assms(3) by (simp add: poll_begin_def c'_def)
  have g: "get_inbound_stats report c' = Some st" using assms(4) by (simp add: get_inbound_stats_def c'_def split: if_splits option.splits)
  have h: "has_inbound_growth st c'" using assms(5) by (simp add: has_inbound_growth_def c'_def)
  have c': "rc_state c' = Rtc_Connected" "rc_watchdog_timer c'" "rc_pc c' = rc_pc c" using assms(1,2) by (simp_all add: c'_def)
  show ?thesis using c' h
    by (simp add: poll_watchdog_def b g poll_end_def Let_def MEDIA_INACTIVITY_MS_def)
qed

text \<open>C15. Once connected, a session whose inbound counters stop growing is failed as inactive
  by the first poll at least five seconds after the last growth and by no earlier one,
  however the polls are spaced: growth seen at a poll at time \<open>t\<close> followed by silent polls
  keeps the call exactly while every poll comes before \<open>t\<close> plus five seconds.
\<close>

theorem silent_media_fails:
  assumes "reach rtc_init rtc_step c" and "rc_state c = Rtc_Connected" and "\<not> rc_watchdog_polling c"
    and "get_inbound_stats report c = Some st" and "has_inbound_growth st c"
    and "\<forall>p \<in> set ps. get_inbound_stats (snd p) c \<in> {None, Some st}"
  shows "rc_state (fold poll_watchdog ps (poll_watchdog (t, report) c)) =
    (if \<exists>p \<in> set ps. t + MEDIA_INACTIVITY_MS \<le> fst p then Rtc_Failed Media_Inactive else Rtc_Connected)"
proof -
  have w: "rc_watchdog_timer c" using rtc.reach_inv [OF assms(1)] assms(2) by (simp add: rtc_ok_def)
  define c' where "c' = poll_watchdog (t, report) c"
  note g = poll_watchdog_growth [OF assms(2) w assms(3,4,5), of t, folded c'_def]
  have same: "get_inbound_stats r c' = get_inbound_stats r c" for r using g by (simp add: get_inbound_stats_def)
  have "rc_state (fold poll_watchdog ps c') =
      (if \<exists>p \<in> set ps. MEDIA_INACTIVITY_MS \<le> fst p - rc_last_activity_at c' then Rtc_Failed Media_Inactive else Rtc_Connected)"
  proof (rule silent_polls)
    show "get_inbound_stats report' c' \<in> {None, rc_last_inbound_stats c'}" if "(t', report') \<in> set ps" for t' report'
      using assms(6) that g same by force
  qed (use g in simp_all)
  moreover have "MEDIA_INACTIVITY_MS \<le> fst p - rc_last_activity_at c' \<longleftrightarrow> t + MEDIA_INACTIVITY_MS \<le> fst p" for p :: "int \<times> stats_entry list option"
    using g by auto
  ultimately show ?thesis by (simp add: c'_def)
qed

theorem silent_media_fails_witness:
  "rc_state (fold poll_watchdog [(2100, None), (4100, None), (6100, None)]
     (poll_watchdog (1100, Some [\<lparr> se_inbound = True, se_packets = Some 10, se_bytes = None \<rparr>]) sample_connected))
   = Rtc_Failed Media_Inactive"
proof -
  let ?r = "Some [\<lparr> se_inbound = True, se_packets = Some 10, se_bytes = None \<rparr>]"
  let ?st = "\<lparr> packets_received = 10, bytes_received = 0 \<rparr>"
  have a: "get_inbound_stats ?r sample_connected = Some ?st" "has_inbound_growth ?st sample_connected"
    by (simp_all add: get_inbound_stats_def has_inbound_growth_def sample_connected_eq counted_def)
  have b: "\<forall>p \<in> set [(2100, None), (4100, None), (6100, None)]. get_inbound_stats (snd p) sample_connected \<in> {None, Some ?st}"
    by (simp add: get_inbound_stats_def)
  show ?thesis
    using silent_media_fails [OF sample_connected_reachable _ _ a b, of 1100]
    by (simp add: sample_connected_eq MEDIA_INACTIVITY_MS_def)
qed

end
