(* ===== verification/Call_Controller.thy ===== *)
theory Call_Controller
  imports Webrtc_Client
begin

text \<open>
  \<^verbatim>\<open>web/src/call/call-controller.ts\<close>: the browser's call state machine. The methods are cut at
  their awaits into segments on the controller's state; the answers of requests and of the
  audio client are arguments. Clients are identified by numbers. \<open>cc_log\<close> collects, in order,
  what the controller asks of the server, the clients and the alerting service. \<open>cc_subscribed\<close>
  lists the clients whose state changes still reach the controller.
\<close>

datatype call_phase = Idle | Connecting | Ringing | Connected | Failed

datatype cc_direction = Cc_Outbound | Cc_Inbound

datatype call_error_key =
    Err_Mic_Denied | Err_No_Microphone | Err_Connection_Failed | Err_Service_Unavailable | Err_Media_Unavailable
  | Err_Signaling_Timeout | Err_Call_Not_Found | Err_Call_Unavailable | Err_Call_In_Progress | Err_Ended_Locally
  | Err_Dtmf_Not_Delivered | Err_Signaling_Disconnected | Err_Call_Failed | Err_Busy | Err_No_Answer | Err_Call_Ended

text \<open>The \<^verbatim>\<open>error\<close> field holds a key or, after a refused placement, the server's message.\<close>

datatype call_error = Key call_error_key | Api_Message jstr

datatype call_warning_key = Loopback_Ice_Candidate

record call_metadata =
  cm_call_id :: string
  cm_direction :: cc_direction
  cm_peer_number :: "string option"
  cm_from_number :: "string option"
  cm_started_at :: "int option"
  cm_muted :: bool
  cm_volume :: rat
  cm_ended_reason :: "webrtc_failure_reason option"

datatype cc_effect =
    Post_Make string string
  | Post_Answer string
  | Post_Decline string
  | Post_Offer jstr string
  | Post_Dtmf string jstr
  | Get_Active_Calls
  | Start_Ringtone
  | Stop_Ringtone
  | Play_Ringback
  | Stop_Ringback
  | Create_Client nat
  | Apply_Answer nat jstr
  | Close_Client nat
  | Client_Volume nat "rat option"
  | Client_Tone nat jstr

record call_controller =
  cc_phase :: call_phase
  cc_call :: "call_metadata option"
  cc_incoming :: "call_metadata option"
  cc_error :: "call_error option"
  cc_warning :: "call_warning_key option"
  cc_client :: "nat option"
  cc_subscription :: "nat option"
  cc_subscribed :: "nat list"
  cc_started :: bool
  cc_held_elsewhere :: "string list"
  cc_establish_cap :: "string option"
  cc_no_answer_timer :: "string option"
  cc_log :: "cc_effect list"

definition new_call_controller :: call_controller where
  "new_call_controller = \<lparr> cc_phase = Idle, cc_call = None, cc_incoming = None, cc_error = None, cc_warning = None,
     cc_client = None, cc_subscription = None, cc_subscribed = [], cc_started = False, cc_held_elsewhere = [],
     cc_establish_cap = None, cc_no_answer_timer = None, cc_log = [] \<rparr>"

definition MAKE_TIMEOUT_MS :: int where "MAKE_TIMEOUT_MS = 10000"
definition OFFER_TIMEOUT_MS :: int where "OFFER_TIMEOUT_MS = 10000"
definition INBOUND_ESTABLISH_CAP_MS :: int where "INBOUND_ESTABLISH_CAP_MS = 15000"
definition HANGUP_TIMEOUT_MS :: int where "HANGUP_TIMEOUT_MS = 5000"
definition DTMF_TIMEOUT_MS :: int where "DTMF_TIMEOUT_MS = 5000"
definition DEFAULT_OUTBOUND_NO_ANSWER_TIMEOUT_MS :: int where "DEFAULT_OUTBOUND_NO_ANSWER_TIMEOUT_MS = 60000"
definition RECONCILE_TIMEOUT_MS :: int where "RECONCILE_TIMEOUT_MS = 2000"

section \<open>Mappings to user-facing keys\<close>

fun failure_reason_to_error_key :: "webrtc_failure_reason \<Rightarrow> call_error_key" where
  "failure_reason_to_error_key Mic_Denied = Err_Mic_Denied"
| "failure_reason_to_error_key No_Microphone = Err_No_Microphone"
| "failure_reason_to_error_key _ = Err_Connection_Failed"

definition offer_status_to_error_key :: "int \<Rightarrow> call_error_key" where
  "offer_status_to_error_key status =
     (if status = 503 then Err_Media_Unavailable
      else if status = 504 then Err_Signaling_Timeout
      else if status = 404 then Err_Call_Not_Found
      else Err_Connection_Failed)"

definition terminal_status_to_error_key :: "string \<Rightarrow> call_error_key" where
  "terminal_status_to_error_key status =
     (if status = ''busy'' then Err_Busy else if status = ''failed'' then Err_Call_Failed else Err_Call_Ended)"

text \<open>The member \<^verbatim>\<open>error\<close> of the payload, present when the payload is an object with a text there.\<close>

definition extract_api_error :: "jstr option \<Rightarrow> jstr option" where
  "extract_api_error payload =
     (case payload of None \<Rightarrow> None | Some text \<Rightarrow> if trim text = [] then None else Some (trim text))"

text \<open>
  The two patterns of \<^verbatim>\<open>sdpHasLoopbackCandidate\<close> at the start of a line, without regard to case:
  a candidate line whose fifth field is the loopback address, or a connection line with it.
\<close>

definition is_line_end :: "nat \<Rightarrow> bool" where
  "is_line_end u \<longleftrightarrow> u = 10 \<or> u = 13 \<or> u = 8232 \<or> u = 8233"

definition is_word_char :: "nat \<Rightarrow> bool" where
  "is_word_char u \<longleftrightarrow> is_digit u \<or> is_upper u \<or> is_lower u \<or> u = 95"

definition ascii_lower :: "nat \<Rightarrow> nat" where
  "ascii_lower u = (if is_upper u then u + 32 else u)"

definition prefix_ignoring_case :: "string \<Rightarrow> jstr \<Rightarrow> bool" where
  "prefix_ignoring_case p s \<longleftrightarrow> map ascii_lower (take (length p) s) = map ascii_lower (js p)"

fun candidate_fields :: "nat \<Rightarrow> jstr \<Rightarrow> jstr option" where
  "candidate_fields 0 s = Some s"
| "candidate_fields (Suc n) s =
     (let field = takeWhile (\<lambda>u. \<not> is_space u) s; rest = dropWhile (\<lambda>u. \<not> is_space u) s in
      if field \<noteq> [] \<and> rest \<noteq> [] \<and> hd rest = 32 then candidate_fields n (tl rest) else None)"

definition loopback_candidate_line :: "jstr \<Rightarrow> bool" where
  "loopback_candidate_line line \<longleftrightarrow> prefix_ignoring_case ''a=candidate:'' line
     \<and> (case candidate_fields 4 (drop 12 line) of None \<Rightarrow> False | Some rest \<Rightarrow> starts_with rest (js ''127.0.0.1 ''))"

definition loopback_connection_line :: "jstr \<Rightarrow> bool" where
  "loopback_connection_line line \<longleftrightarrow> prefix_ignoring_case ''c=IN IP4 127.0.0.1'' line
     \<and> (case drop 18 line of [] \<Rightarrow> True | u # _ \<Rightarrow> \<not> is_word_char u)"

fun sdp_lines :: "jstr \<Rightarrow> jstr list" where
  "sdp_lines [] = [[]]"
| "sdp_lines (u # s) = (if is_line_end u then [] # sdp_lines s else (case sdp_lines s of l # ls \<Rightarrow> (u # l) # ls | [] \<Rightarrow> [[u]]))"

definition sdp_has_loopback_candidate :: "jstr \<Rightarrow> bool" where
  "sdp_has_loopback_candidate sdp \<longleftrightarrow> list_ex loopback_candidate_line (sdp_lines sdp) \<or> list_ex loopback_connection_line (sdp_lines sdp)"

section \<open>State helpers\<close>

definition emit :: "cc_effect \<Rightarrow> call_controller \<Rightarrow> call_controller" where
  "emit e s = s\<lparr> cc_log := cc_log s @ [e] \<rparr>"

definition clear_no_answer_timer :: "call_controller \<Rightarrow> call_controller" where
  "clear_no_answer_timer s = s\<lparr> cc_no_answer_timer := None \<rparr>"

definition clear_establish_cap :: "call_controller \<Rightarrow> call_controller" where
  "clear_establish_cap s = s\<lparr> cc_establish_cap := None \<rparr>"

definition teardown_client :: "call_controller \<Rightarrow> call_controller" where
  "teardown_client s =
     (let s1 = emit Stop_Ringback (clear_no_answer_timer (clear_establish_cap s));
          s2 = (case cc_subscription s1 of
                  None \<Rightarrow> s1
                | Some k \<Rightarrow> s1\<lparr> cc_subscribed := removeAll k (cc_subscribed s1), cc_subscription := None \<rparr>)
      in case cc_client s2 of None \<Rightarrow> s2 | Some k \<Rightarrow> (emit (Close_Client k) s2)\<lparr> cc_client := None \<rparr>)"

definition reset_to_idle :: "call_error option \<Rightarrow> call_controller \<Rightarrow> call_controller" where
  "reset_to_idle e s =
     (teardown_client (emit Stop_Ringtone s))\<lparr> cc_phase := Idle, cc_call := None, cc_incoming := None, cc_error := e \<rparr>"

definition has_active_session :: "call_controller \<Rightarrow> bool" where
  "has_active_session s \<longleftrightarrow> cc_client s \<noteq> None"

definition is_busy :: "call_controller \<Rightarrow> bool" where
  "is_busy s \<longleftrightarrow> cc_phase s = Connecting \<or> cc_phase s = Ringing \<or> cc_phase s = Connected"

definition enforce_session_visibility :: "call_controller \<Rightarrow> call_controller" where
  "enforce_session_visibility s =
     (if cc_client s = None then s
      else if cc_call s \<noteq> None \<and> (cc_phase s = Connecting \<or> cc_phase s = Ringing \<or> cc_phase s = Connected) then s
      else let s1 = teardown_client s in
        if cc_phase s1 \<noteq> Idle then s1\<lparr> cc_phase := Idle, cc_call := None \<rparr> else s1)"

definition set_phase :: "call_phase \<Rightarrow> call_controller \<Rightarrow> call_controller" where
  "set_phase p s = (if cc_phase s = p then s else enforce_session_visibility (s\<lparr> cc_phase := p \<rparr>))"

definition patch_call :: "(call_metadata \<Rightarrow> call_metadata) \<Rightarrow> call_controller \<Rightarrow> call_controller" where
  "patch_call f s = (case cc_call s of None \<Rightarrow> s | Some call \<Rightarrow> s\<lparr> cc_call := Some (f call) \<rparr>)"

definition mark_started :: "int \<Rightarrow> call_metadata \<Rightarrow> call_metadata" where
  "mark_started now call = call\<lparr> cm_started_at := Some (case cm_started_at call of Some t \<Rightarrow> t | None \<Rightarrow> now) \<rparr>"

definition call_has_id :: "string \<Rightarrow> call_metadata option \<Rightarrow> bool" where
  "call_has_id c call \<longleftrightarrow> (case call of None \<Rightarrow> False | Some m \<Rightarrow> cm_call_id m = c)"

section \<open>Client state and timers\<close>

definition apply_webrtc_state :: "int \<Rightarrow> webrtc_state \<Rightarrow> call_controller \<Rightarrow> call_controller" where
  "apply_webrtc_state now st s =
     (if cc_client s = None then s
      else case st of
        Rtc_Connecting \<Rightarrow> if cc_phase s = Connected \<or> cc_phase s = Ringing then s else set_phase Connecting s
      | Rtc_Connected \<Rightarrow>
          set_phase Connected (patch_call (mark_started now) (emit Stop_Ringback (clear_no_answer_timer (clear_establish_cap s))))
      | Rtc_Failed reason \<Rightarrow>
          set_phase Failed (patch_call (\<lambda>m. m\<lparr> cm_ended_reason := Some reason \<rparr>)
            ((clear_establish_cap s)\<lparr> cc_error := Some (Key (failure_reason_to_error_key reason)) \<rparr>))
      | Rtc_Disconnected \<Rightarrow> if cc_phase s = Failed then set_phase Idle s else s)"

text \<open>A state change of client \<open>k\<close>, as its store reports it to the listeners.\<close>

definition client_changed :: "nat \<Rightarrow> int \<Rightarrow> webrtc_state \<Rightarrow> call_controller \<Rightarrow> call_controller" where
  "client_changed k now st s = (if k \<in> set (cc_subscribed s) then apply_webrtc_state now st s else s)"

definition bind_client_state :: "nat \<Rightarrow> int \<Rightarrow> webrtc_state \<Rightarrow> call_controller \<Rightarrow> call_controller" where
  "bind_client_state k now st s =
     (let s1 = apply_webrtc_state now st s in s1\<lparr> cc_subscription := Some k, cc_subscribed := List.insert k (cc_subscribed s1) \<rparr>)"

definition start_no_answer_timer :: "string \<Rightarrow> call_controller \<Rightarrow> call_controller" where
  "start_no_answer_timer c s = (clear_no_answer_timer s)\<lparr> cc_no_answer_timer := Some c \<rparr>"

definition no_answer_fires :: "string \<Rightarrow> call_controller \<Rightarrow> call_controller" where
  "no_answer_fires c s =
     (let s1 = s\<lparr> cc_no_answer_timer := None \<rparr> in
      if call_has_id c (cc_call s1) \<and> cc_phase s1 = Ringing
        then reset_to_idle (Some (Key Err_No_Answer)) (emit Stop_Ringback (emit (Post_Decline c) s1))
      else s1)"

definition arm_establish_cap :: "string \<Rightarrow> call_controller \<Rightarrow> call_controller" where
  "arm_establish_cap c s = (clear_establish_cap s)\<lparr> cc_establish_cap := Some c \<rparr>"

definition establish_cap_fires :: "string \<Rightarrow> call_controller \<Rightarrow> call_controller" where
  "establish_cap_fires c s =
     (let s1 = s\<lparr> cc_establish_cap := None \<rparr> in
      if call_has_id c (cc_call s1) \<and> cc_phase s1 \<noteq> Connected \<and> cc_phase s1 \<noteq> Idle
        then reset_to_idle (Some (Key Err_Connection_Failed)) (emit (Post_Decline c) s1)
      else s1)"

definition enter_ringing :: "string \<Rightarrow> call_controller \<Rightarrow> call_controller" where
  "enter_ringing c s =
     (case cc_call s of
        None \<Rightarrow> s
      | Some call \<Rightarrow>
          if cm_call_id call \<noteq> c \<or> cm_direction call \<noteq> Cc_Outbound
             \<or> cc_phase s = Connected \<or> cc_phase s = Idle \<or> cc_phase s = Failed then s
          else start_no_answer_timer c (emit Play_Ringback (set_phase Ringing s)))"

section \<open>Flows\<close>

text \<open>
  How a request settles: it threw or exceeded its cap, the server answered with an error
  status and perhaps a message, or with data.
\<close>

datatype 'a http_answer = Http_Failed | Http_Error int "jstr option" | Http_Ok 'a

record make_response =
  mr_call_id :: string
  mr_from :: "string option"
  mr_to :: "string option"

definition post_decline :: "string \<Rightarrow> call_controller \<Rightarrow> call_controller" where
  "post_decline c s = emit (Post_Decline c) s"

definition place_call :: "string \<Rightarrow> string \<Rightarrow> call_controller \<Rightarrow> call_controller" where
  "place_call caller dest s =
     (if is_busy s then s\<lparr> cc_error := Some (Key Err_Call_In_Progress) \<rparr>
      else emit (Post_Make caller dest) (s\<lparr> cc_error := None, cc_warning := None \<rparr>))"

text \<open>\<^verbatim>\<open>establishSession\<close> up to \<^verbatim>\<open>createOffer\<close>, with the fresh client \<open>k\<close>.\<close>

definition open_client :: "nat \<Rightarrow> int \<Rightarrow> call_controller \<Rightarrow> call_controller" where
  "open_client k now s = bind_client_state k now Rtc_Disconnected ((emit (Create_Client k) s)\<lparr> cc_client := Some k \<rparr>)"

definition establish_session :: "nat \<Rightarrow> int \<Rightarrow> call_controller \<Rightarrow> call_controller" where
  "establish_session k now s = open_client k now s"

definition make_settled ::
    "string \<Rightarrow> string \<Rightarrow> make_response option http_answer \<Rightarrow> nat \<Rightarrow> int \<Rightarrow> call_controller \<Rightarrow> string option \<times> call_controller" where
  "make_settled caller dest answer k now s =
     (case answer of
        Http_Failed \<Rightarrow> (None, reset_to_idle (Some (Key Err_Service_Unavailable)) s)
      | Http_Error status payload \<Rightarrow>
          (None, if status = 400
            then reset_to_idle (Some (case extract_api_error payload of Some m \<Rightarrow> Api_Message m | None \<Rightarrow> Key Err_Service_Unavailable)) s
            else reset_to_idle (Some (Key Err_Service_Unavailable)) s)
      | Http_Ok None \<Rightarrow> (None, reset_to_idle (Some (Key Err_Service_Unavailable)) s)
      | Http_Ok (Some r) \<Rightarrow>
          if mr_call_id r = '''' then (None, reset_to_idle (Some (Key Err_Service_Unavailable)) s)
          else (Some (mr_call_id r), establish_session k now
            (s\<lparr> cc_call := Some \<lparr> cm_call_id = mr_call_id r, cm_direction = Cc_Outbound,
                  cm_peer_number = Some (case mr_to r of Some t \<Rightarrow> t | None \<Rightarrow> dest),
                  cm_from_number = Some (case mr_from r of Some f \<Rightarrow> f | None \<Rightarrow> caller),
                  cm_started_at = None, cm_muted = False, cm_volume = 1, cm_ended_reason = None \<rparr>,
                cc_incoming := None, cc_error := None \<rparr>)))"

definition answer_call :: "string \<Rightarrow> nat \<Rightarrow> int \<Rightarrow> call_controller \<Rightarrow> bool \<times> call_controller" where
  "answer_call c k now s =
     (if is_busy s then (False, s\<lparr> cc_error := Some (Key Err_Call_In_Progress) \<rparr>)
      else
        let incoming = cc_incoming s; s1 = emit Stop_Ringtone s in
        (True, open_client k now
          (s1\<lparr> cc_call := Some \<lparr> cm_call_id = c, cm_direction = Cc_Inbound,
                cm_peer_number = (if call_has_id c incoming then Option.bind incoming cm_peer_number else None),
                cm_from_number = None, cm_started_at = None, cm_muted = False, cm_volume = 1, cm_ended_reason = None \<rparr>,
              cc_incoming := None, cc_error := None, cc_warning := None \<rparr>)))"

definition exchange_offer :: "string \<Rightarrow> jstr \<Rightarrow> call_controller \<Rightarrow> call_controller" where
  "exchange_offer c sdp s = emit (Post_Offer sdp c) s"

text \<open>
  How \<^verbatim>\<open>createOffer\<close> settles: the offer, or a rejection with the reason of the client's
  failed state, if it is in one.
\<close>

type_synonym offer_result = "webrtc_failure_reason option + jstr"

definition outbound_offer_created :: "string \<Rightarrow> offer_result \<Rightarrow> call_controller \<Rightarrow> call_controller" where
  "outbound_offer_created c result s =
     (case result of
        Inl reason \<Rightarrow> reset_to_idle (Some (Key (case reason of Some r \<Rightarrow> failure_reason_to_error_key r | None \<Rightarrow> Err_Connection_Failed))) s
      | Inr sdp \<Rightarrow> exchange_offer c sdp s)"

definition inbound_offer_created :: "string \<Rightarrow> offer_result \<Rightarrow> call_controller \<Rightarrow> call_controller" where
  "inbound_offer_created c result s =
     (case result of
        Inl reason \<Rightarrow> reset_to_idle (Some (Key (case reason of Some r \<Rightarrow> failure_reason_to_error_key r | None \<Rightarrow> Err_Mic_Denied)))
          (post_decline c s)
      | Inr sdp \<Rightarrow> emit (Post_Answer c) s)"

definition answer_settled :: "string \<Rightarrow> jstr \<Rightarrow> unit http_answer \<Rightarrow> call_controller \<Rightarrow> bool \<times> call_controller" where
  "answer_settled c sdp answer s =
     (case answer of
        Http_Failed \<Rightarrow> (False, reset_to_idle (Some (Key Err_Call_Unavailable)) s)
      | Http_Error status _ \<Rightarrow>
          (False, reset_to_idle (Some (Key (if status = 409 then Err_Call_Unavailable else Err_Service_Unavailable))) s)
      | Http_Ok _ \<Rightarrow> (True, exchange_offer c sdp (arm_establish_cap c s)))"

text \<open>The client the answer is applied to, when it comes to that, and the state.\<close>

definition offer_exchanged :: "string \<Rightarrow> jstr option http_answer \<Rightarrow> call_controller \<Rightarrow> (nat \<times> jstr) option \<times> call_controller" where
  "offer_exchanged c answer s =
     (case answer of
        Http_Failed \<Rightarrow> (None, reset_to_idle (Some (Key Err_Signaling_Timeout)) s)
      | Http_Error status _ \<Rightarrow> (None, reset_to_idle (Some (Key (offer_status_to_error_key status))) s)
      | Http_Ok None \<Rightarrow> (None, reset_to_idle (Some (Key Err_Connection_Failed)) s)
      | Http_Ok (Some sdp) \<Rightarrow>
          if sdp = [] then (None, reset_to_idle (Some (Key Err_Connection_Failed)) s)
          else (case cc_client s of
              None \<Rightarrow> (None, reset_to_idle (Some (Key Err_Connection_Failed)) s)
            | Some k \<Rightarrow> (Some (k, sdp), emit (Apply_Answer k sdp) s)))"

definition answer_applied :: "bool \<Rightarrow> string \<Rightarrow> jstr \<Rightarrow> bool \<Rightarrow> call_controller \<Rightarrow> call_controller" where
  "answer_applied outbound c sdp applied s =
     (if \<not> applied then reset_to_idle (Some (Key Err_Connection_Failed)) s
      else
        let s1 = (if sdp_has_loopback_candidate sdp then s\<lparr> cc_warning := Some Loopback_Ice_Candidate \<rparr> else s) in
        if outbound then enter_ringing c s1 else s1)"

definition decline :: "string \<Rightarrow> call_controller \<Rightarrow> call_controller" where
  "decline c s =
     (let s1 = emit Stop_Ringtone s;
          s2 = (if call_has_id c (cc_incoming s1) then s1\<lparr> cc_incoming := None \<rparr> else s1)
      in post_decline c s2)"

text \<open>The flag says that the request is under way.\<close>

definition hangup :: "call_controller \<Rightarrow> bool \<times> call_controller" where
  "hangup s =
     (case cc_call s of
        None \<Rightarrow> (False, if cc_client s \<noteq> None then reset_to_idle (Some (Key Err_Ended_Locally)) s else s)
      | Some call \<Rightarrow> (True, emit (Post_Decline (cm_call_id call)) s))"

definition hangup_settled :: "bool \<Rightarrow> call_controller \<Rightarrow> call_controller" where
  "hangup_settled ok s = reset_to_idle (if ok then None else Some (Key Err_Ended_Locally)) s"

definition send_dtmf :: "jstr \<Rightarrow> bool \<Rightarrow> call_controller \<Rightarrow> bool \<times> call_controller" where
  "send_dtmf digit in_band s =
     (if \<not> is_dtmf_digit (Some digit) then (False, s)
      else (case cc_call s of
          None \<Rightarrow> (False, s)
        | Some call \<Rightarrow>
            if cc_phase s \<noteq> Connected then (False, s)
            else (case cc_client s of
                Some k \<Rightarrow>
                  let s1 = emit (Client_Tone k digit) s in
                  if in_band then (False, s1) else (True, emit (Post_Dtmf (cm_call_id call) digit) s1)
              | None \<Rightarrow> (True, emit (Post_Dtmf (cm_call_id call) digit) s))))"

definition dtmf_settled :: "bool \<Rightarrow> call_controller \<Rightarrow> call_controller" where
  "dtmf_settled delivered s = (if delivered then s else s\<lparr> cc_error := Some (Key Err_Dtmf_Not_Delivered) \<rparr>)"

definition set_muted :: "bool \<Rightarrow> call_controller \<Rightarrow> call_controller" where
  "set_muted effective s =
     (if cc_client s = None \<or> cc_call s = None then s else patch_call (\<lambda>m. m\<lparr> cm_muted := effective \<rparr>) s)"

definition set_volume :: "rat option \<Rightarrow> call_controller \<Rightarrow> call_controller" where
  "set_volume level s =
     (case cc_client s of
        None \<Rightarrow> s
      | Some k \<Rightarrow>
          if cc_call s = None then s
          else patch_call (\<lambda>m. m\<lparr> cm_volume := clamp_volume (cm_volume m) level \<rparr>) (emit (Client_Volume k level) s))"

section \<open>Signalling\<close>

definition present_incoming :: "string \<Rightarrow> string option \<Rightarrow> call_controller \<Rightarrow> call_controller" where
  "present_incoming c caller s =
     emit Start_Ringtone
       (s\<lparr> cc_incoming := Some \<lparr> cm_call_id = c, cm_direction = Cc_Inbound, cm_peer_number = caller, cm_from_number = None,
             cm_started_at = None, cm_muted = False, cm_volume = 1, cm_ended_reason = None \<rparr>,
           cc_error := None \<rparr>)"

record call_event_data =
  ce_call_id :: "string option"
  ce_status :: "string option"
  ce_from :: "string option"

definition terminal_status :: "string option \<Rightarrow> bool" where
  "terminal_status status \<longleftrightarrow> status = Some ''completed'' \<or> status = Some ''failed'' \<or> status = Some ''busy''"

definition active_call_event :: "int \<Rightarrow> string option \<Rightarrow> string option \<Rightarrow> call_controller \<Rightarrow> call_controller" where
  "active_call_event now call_id status s =
     (if \<not> (case call_id of None \<Rightarrow> False | Some c \<Rightarrow> c \<noteq> '''' \<and> call_has_id c (cc_call s)) then
        (case call_id of
           Some c \<Rightarrow> if c \<noteq> '''' \<and> terminal_status status then s\<lparr> cc_held_elsewhere := removeAll c (cc_held_elsewhere s) \<rparr> else s
         | None \<Rightarrow> s)
      else if terminal_status status then
        reset_to_idle (Some (Key (terminal_status_to_error_key (the status)))) (clear_no_answer_timer s)
      else if status = Some ''connected'' then
        let s1 = emit Stop_Ringback (clear_no_answer_timer s) in
        if cc_phase s = Ringing \<or> cc_phase s = Connecting then set_phase Connected (patch_call (mark_started now) s1) else s1
      else s)"

definition inbound_call_event :: "string \<Rightarrow> string option \<Rightarrow> call_controller \<Rightarrow> call_controller" where
  "inbound_call_event c caller s =
     (case cc_incoming s of
        Some displayed \<Rightarrow>
          if cm_call_id displayed = c then
            s\<lparr> cc_incoming := Some (displayed\<lparr> cm_peer_number := (case caller of Some f \<Rightarrow> Some f | None \<Rightarrow> cm_peer_number displayed) \<rparr>) \<rparr>
          else if c \<in> set (cc_held_elsewhere s) then s
          else post_decline c s
      | None \<Rightarrow>
          if cc_call s = None \<and> c \<notin> set (cc_held_elsewhere s) then present_incoming c caller s
          else if c \<in> set (cc_held_elsewhere s) then s
          else post_decline c s)"

definition on_call_event :: "int \<Rightarrow> call_event_data \<Rightarrow> call_controller \<Rightarrow> call_controller" where
  "on_call_event now d s =
     (case ce_call_id d of
        Some c \<Rightarrow>
          if (ce_status d = Some ''ringing'' \<or> ce_status d = Some ''connected'') \<and> c \<noteq> '''' \<and> \<not> call_has_id c (cc_call s)
            then inbound_call_event c (ce_from d) s
          else active_call_event now (ce_call_id d) (ce_status d) s
      | None \<Rightarrow> active_call_event now (ce_call_id d) (ce_status d) s)"

definition on_call_cancelled :: "string option \<Rightarrow> string option \<Rightarrow> call_controller \<Rightarrow> call_controller" where
  "on_call_cancelled call_id reason s =
     (case call_id of
        None \<Rightarrow> s
      | Some c \<Rightarrow>
          if c = '''' then s
          else
            let s1 = (if reason = Some ''answered_elsewhere'' then s\<lparr> cc_held_elsewhere := List.insert c (cc_held_elsewhere s) \<rparr> else s);
                s2 = (if call_has_id c (cc_incoming s1) then (emit Stop_Ringtone s1)\<lparr> cc_incoming := None \<rparr> else s1)
            in if call_has_id c (cc_call s1) then reset_to_idle None s2 else s2)"

definition on_ws_disconnected :: "call_controller \<Rightarrow> call_controller" where
  "on_ws_disconnected s =
     (if cc_phase s = Connected then s\<lparr> cc_error := Some (Key Err_Signaling_Disconnected) \<rparr>
      else if cc_phase s = Connecting \<or> cc_phase s = Ringing then reset_to_idle (Some (Key Err_Connection_Failed)) s
      else if cc_incoming s \<noteq> None then reset_to_idle None s
      else s)"

record active_call_entry =
  ac_entry_call_id :: string
  ac_entry_status :: string
  ac_entry_from :: "string option"

definition reconcile :: "call_controller \<Rightarrow> call_controller" where
  "reconcile s = emit Get_Active_Calls s"

definition on_ws_connected :: "call_controller \<Rightarrow> call_controller" where
  "on_ws_connected s = reconcile s"

definition listed :: "active_call_entry list \<Rightarrow> call_metadata option \<Rightarrow> bool" where
  "listed calls call \<longleftrightarrow> (case call of None \<Rightarrow> True | Some m \<Rightarrow>
     cm_call_id m \<noteq> '''' \<and> list_ex (\<lambda>e. ac_entry_call_id e = cm_call_id m) calls)"

text \<open>The list of the server without its empty entries, \<^const>\<open>None\<close> when the request failed.\<close>

definition reconcile_settled :: "active_call_entry list option \<Rightarrow> call_controller \<Rightarrow> call_controller" where
  "reconcile_settled answer s =
     (case answer of
        None \<Rightarrow> s
      | Some calls \<Rightarrow>
          let s1 = (if listed calls (cc_call s) then s else reset_to_idle None s);
              s2 = (if listed calls (cc_incoming s1) then s1 else (emit Stop_Ringtone s1)\<lparr> cc_incoming := None \<rparr>)
          in if cc_phase s2 = Idle \<and> cc_call s2 = None \<and> cc_incoming s2 = None then
               (case find (\<lambda>e. ac_entry_call_id e \<noteq> '''' \<and> ac_entry_status e = ''ringing''
                      \<and> ac_entry_call_id e \<notin> set (cc_held_elsewhere s2)) calls of
                  Some e \<Rightarrow> present_incoming (ac_entry_call_id e) (ac_entry_from e) s2
                | None \<Rightarrow> s2)
             else s2)"

definition start_controller :: "call_controller \<Rightarrow> call_controller" where
  "start_controller s = (if cc_started s then s else s\<lparr> cc_started := True \<rparr>)"

definition stop_controller :: "call_controller \<Rightarrow> call_controller" where
  "stop_controller s = teardown_client (s\<lparr> cc_started := False, cc_held_elsewhere := [] \<rparr>)"

end
