(* ===== verification/Call_Controller_System.thy ===== *)
theory Call_Controller_System
  imports Call_Controller
begin

text \<open>
  The browser's call controller as a step relation: the continuations that wait for an
  answer, the clients that have captured the microphone and those a newer session replaced
  are kept beside the controller's state, and anything may happen between two segments.
\<close>

datatype cc_pending =
    Await_Make string string
  | Await_Offer bool string nat
  | Await_Answer string jstr
  | Await_Exchange bool string
  | Await_Apply bool string nat jstr
  | Await_Hangup
  | Await_Dtmf
  | Await_Reconcile

record cc_system =
  sc_ctl :: call_controller
  sc_pending :: "cc_pending list"
  sc_next :: nat
  sc_live :: "nat list"
  sc_replaced :: "nat list"

datatype cc_event =
    Place string string
  | Make_Answered string string "make_response option http_answer" int
  | Answer string int
  | Offer_Created bool string nat offer_result
  | Answer_Answered string jstr "unit http_answer"
  | Offer_Answered bool string "jstr option http_answer"
  | Answer_Was_Applied bool string nat jstr bool
  | Decline string
  | Hangup
  | Hangup_Answered bool
  | Dtmf jstr bool
  | Dtmf_Answered bool
  | Mute bool
  | Volume "rat option"
  | Call_Event int call_event_data
  | Call_Cancelled "string option" "string option"
  | Ws_Up
  | Ws_Down
  | Reconciled "active_call_entry list option"
  | No_Answer_Timer string
  | Establish_Cap string
  | Client_State nat int webrtc_state
  | Start
  | Stop

text \<open>A segment that takes over the waiting continuation \<open>p\<close>.\<close>

definition settle :: "cc_pending \<Rightarrow> (cc_system \<Rightarrow> cc_system) \<Rightarrow> cc_system \<Rightarrow> cc_system option" where
  "settle p f S = (if p \<in> set (sc_pending S) then Some (f (S\<lparr> sc_pending := remove1 p (sc_pending S) \<rparr>)) else None)"

definition await :: "cc_pending \<Rightarrow> cc_system \<Rightarrow> cc_system" where
  "await p S = S\<lparr> sc_pending := p # sc_pending S \<rparr>"

definition with_ctl :: "(call_controller \<Rightarrow> call_controller) \<Rightarrow> cc_system \<Rightarrow> cc_system" where
  "with_ctl f S = S\<lparr> sc_ctl := f (sc_ctl S) \<rparr>"

text \<open>A fresh client becomes the current one and replaces the one there was.\<close>

definition opened :: "cc_system \<Rightarrow> cc_system" where
  "opened S = S\<lparr> sc_next := Suc (sc_next S),
     sc_replaced := (case cc_client (sc_ctl S) of None \<Rightarrow> sc_replaced S | Some k \<Rightarrow> k # sc_replaced S) \<rparr>"

fun cc_apply :: "cc_event \<Rightarrow> cc_system \<Rightarrow> cc_system option" where
  "cc_apply (Place caller dest) S =
     Some ((if is_busy (sc_ctl S) then id else await (Await_Make caller dest)) (with_ctl (place_call caller dest) S))"
| "cc_apply (Make_Answered caller dest answer now) S =
     settle (Await_Make caller dest)
       (\<lambda>S. case make_settled caller dest answer (sc_next S) now (sc_ctl S) of
          (None, s) \<Rightarrow> S\<lparr> sc_ctl := s \<rparr>
        | (Some c, s) \<Rightarrow> await (Await_Offer True c (sc_next S)) ((opened S)\<lparr> sc_ctl := s \<rparr>)) S"
| "cc_apply (Answer c now) S =
     Some (case answer_call c (sc_next S) now (sc_ctl S) of
          (False, s) \<Rightarrow> S\<lparr> sc_ctl := s \<rparr>
        | (True, s) \<Rightarrow> await (Await_Offer False c (sc_next S)) ((opened S)\<lparr> sc_ctl := s \<rparr>))"
| "cc_apply (Offer_Created outbound c k result) S =
     settle (Await_Offer outbound c k)
       (\<lambda>S. case result of
          Inl _ \<Rightarrow> with_ctl ((if outbound then outbound_offer_created else inbound_offer_created) c result) S
        | Inr sdp \<Rightarrow> await (if outbound then Await_Exchange True c else Await_Answer c sdp)
            (with_ctl ((if outbound then outbound_offer_created else inbound_offer_created) c result) S)) S"
| "cc_apply (Answer_Answered c sdp answer) S =
     settle (Await_Answer c sdp)
       (\<lambda>S. case answer_settled c sdp answer (sc_ctl S) of
          (False, s) \<Rightarrow> S\<lparr> sc_ctl := s \<rparr>
        | (True, s) \<Rightarrow> await (Await_Exchange False c) (S\<lparr> sc_ctl := s \<rparr>)) S"
| "cc_apply (Offer_Answered outbound c answer) S =
     settle (Await_Exchange outbound c)
       (\<lambda>S. case offer_exchanged c answer (sc_ctl S) of
          (None, s) \<Rightarrow> S\<lparr> sc_ctl := s \<rparr>
        | (Some (k, sdp), s) \<Rightarrow> await (Await_Apply outbound c k sdp) (S\<lparr> sc_ctl := s \<rparr>)) S"
| "cc_apply (Answer_Was_Applied outbound c k sdp ok) S =
     settle (Await_Apply outbound c k sdp) (with_ctl (answer_applied outbound c sdp ok)) S"
| "cc_apply (Decline c) S = Some (with_ctl (decline c) S)"
| "cc_apply Hangup S = Some (case hangup (sc_ctl S) of (waits, s) \<Rightarrow> (if waits then await Await_Hangup else id) (S\<lparr> sc_ctl := s \<rparr>))"
| "cc_apply (Hangup_Answered ok) S = settle Await_Hangup (with_ctl (hangup_settled ok)) S"
| "cc_apply (Dtmf digit in_band) S =
     Some (case send_dtmf digit in_band (sc_ctl S) of (waits, s) \<Rightarrow> (if waits then await Await_Dtmf else id) (S\<lparr> sc_ctl := s \<rparr>))"
| "cc_apply (Dtmf_Answered ok) S = settle Await_Dtmf (with_ctl (dtmf_settled ok)) S"
| "cc_apply (Mute effective) S = Some (with_ctl (set_muted effective) S)"
| "cc_apply (Volume level) S = Some (with_ctl (set_volume level) S)"
| "cc_apply (Call_Event now d) S = (if cc_started (sc_ctl S) then Some (with_ctl (on_call_event now d) S) else None)"
| "cc_apply (Call_Cancelled c reason) S = (if cc_started (sc_ctl S) then Some (with_ctl (on_call_cancelled c reason) S) else None)"
| "cc_apply Ws_Up S = (if cc_started (sc_ctl S) then Some (await Await_Reconcile (with_ctl on_ws_connected S)) else None)"
| "cc_apply Ws_Down S = (if cc_started (sc_ctl S) then Some (with_ctl on_ws_disconnected S) else None)"
| "cc_apply (Reconciled answer) S = settle Await_Reconcile (with_ctl (reconcile_settled answer)) S"
| "cc_apply (No_Answer_Timer c) S = (if cc_no_answer_timer (sc_ctl S) = Some c then Some (with_ctl (no_answer_fires c) S) else None)"
| "cc_apply (Establish_Cap c) S = (if cc_establish_cap (sc_ctl S) = Some c then Some (with_ctl (establish_cap_fires c) S) else None)"
| "cc_apply (Client_State k now st) S =
     (if k < sc_next S then
        Some ((with_ctl (client_changed k now st) S)
          \<lparr> sc_live := (if st = Rtc_Connecting \<or> st = Rtc_Connected then List.insert k (sc_live S) else sc_live S) \<rparr>)
      else None)"
| "cc_apply Start S = Some (with_ctl start_controller S)"
| "cc_apply Stop S = Some (with_ctl stop_controller S)"

definition cc_step :: "cc_system \<Rightarrow> cc_event \<Rightarrow> cc_system \<Rightarrow> bool" where
  "cc_step S e S' \<longleftrightarrow> cc_apply e S = Some S'"

definition new_cc_system :: cc_system where
  "new_cc_system = \<lparr> sc_ctl = new_call_controller, sc_pending = [], sc_next = 0, sc_live = [], sc_replaced = [] \<rparr>"

definition cc_init :: "cc_system \<Rightarrow> bool" where
  "cc_init S \<longleftrightarrow> S = new_cc_system"

fun cc_run :: "cc_event list \<Rightarrow> cc_system \<Rightarrow> cc_system option" where
  "cc_run [] S = Some S"
| "cc_run (e # es) S = Option.bind (cc_apply e S) (cc_run es)"

section \<open>What the helpers leave alone\<close>

definition closing :: "call_controller \<Rightarrow> cc_effect list" where
  "closing s = (case cc_client s of None \<Rightarrow> [] | Some k \<Rightarrow> [Close_Client k])"

lemma emit_fields [simp]:
  "cc_phase (emit e s) = cc_phase s" "cc_call (emit e s) = cc_call s" "cc_incoming (emit e s) = cc_incoming s"
  "cc_error (emit e s) = cc_error s" "cc_warning (emit e s) = cc_warning s" "cc_client (emit e s) = cc_client s"
  "cc_subscription (emit e s) = cc_subscription s" "cc_subscribed (emit e s) = cc_subscribed s" "cc_started (emit e s) = cc_started s"
  "cc_held_elsewhere (emit e s) = cc_held_elsewhere s" "cc_establish_cap (emit e s) = cc_establish_cap s"
  "cc_no_answer_timer (emit e s) = cc_no_answer_timer s" "cc_log (emit e s) = cc_log s @ [e]"
  by (simp_all add: emit_def)

lemma teardown_fields [simp]:
  "cc_phase (teardown_client s) = cc_phase s" "cc_call (teardown_client s) = cc_call s" "cc_incoming (teardown_client s) = cc_incoming s"
  "cc_error (teardown_client s) = cc_error s" "cc_warning (teardown_client s) = cc_warning s" "cc_client (teardown_client s) = None"
  "cc_subscription (teardown_client s) = None" "cc_started (teardown_client s) = cc_started s"
  "cc_held_elsewhere (teardown_client s) = cc_held_elsewhere s" "cc_establish_cap (teardown_client s) = None"
  "cc_no_answer_timer (teardown_client s) = None" "cc_log (teardown_client s) = cc_log s @ Stop_Ringback # closing s"
  by (simp_all add: teardown_client_def Let_def clear_no_answer_timer_def clear_establish_cap_def closing_def split: option.splits)

lemma teardown_subscribed:
  "set (cc_subscribed (teardown_client s)) = set (cc_subscribed s) - (case cc_subscription s of None \<Rightarrow> {} | Some k \<Rightarrow> {k})"
  by (simp add: teardown_client_def Let_def clear_no_answer_timer_def clear_establish_cap_def split: option.splits)

lemma closing_emit [simp]: "closing (emit e s) = closing s"
  by (simp add: closing_def)

lemma reset_fields [simp]:
  "cc_phase (reset_to_idle e s) = Idle" "cc_call (reset_to_idle e s) = None" "cc_incoming (reset_to_idle e s) = None"
  "cc_error (reset_to_idle e s) = e" "cc_warning (reset_to_idle e s) = cc_warning s" "cc_client (reset_to_idle e s) = None"
  "cc_subscription (reset_to_idle e s) = None" "cc_started (reset_to_idle e s) = cc_started s"
  "cc_held_elsewhere (reset_to_idle e s) = cc_held_elsewhere s" "cc_establish_cap (reset_to_idle e s) = None"
  "cc_no_answer_timer (reset_to_idle e s) = None"
  "cc_log (reset_to_idle e s) = cc_log s @ Stop_Ringtone # Stop_Ringback # closing s"
  by (simp_all add: reset_to_idle_def)

lemma reset_subscribed:
  "set (cc_subscribed (reset_to_idle e s)) = set (cc_subscribed s) - (case cc_subscription s of None \<Rightarrow> {} | Some k \<Rightarrow> {k})"
  by (simp add: reset_to_idle_def teardown_subscribed)

lemma clear_fields [simp]:
  "cc_phase (clear_no_answer_timer s) = cc_phase s" "cc_call (clear_no_answer_timer s) = cc_call s"
  "cc_incoming (clear_no_answer_timer s) = cc_incoming s" "cc_client (clear_no_answer_timer s) = cc_client s"
  "cc_subscription (clear_no_answer_timer s) = cc_subscription s" "cc_subscribed (clear_no_answer_timer s) = cc_subscribed s"
  "cc_held_elsewhere (clear_no_answer_timer s) = cc_held_elsewhere s" "cc_log (clear_no_answer_timer s) = cc_log s"
  "cc_phase (clear_establish_cap s) = cc_phase s" "cc_call (clear_establish_cap s) = cc_call s"
  "cc_incoming (clear_establish_cap s) = cc_incoming s" "cc_client (clear_establish_cap s) = cc_client s"
  "cc_subscription (clear_establish_cap s) = cc_subscription s" "cc_subscribed (clear_establish_cap s) = cc_subscribed s"
  "cc_held_elsewhere (clear_establish_cap s) = cc_held_elsewhere s" "cc_log (clear_establish_cap s) = cc_log s"
  by (simp_all add: clear_no_answer_timer_def clear_establish_cap_def)

lemma closing_cong: "cc_client s = cc_client t \<Longrightarrow> closing s = closing t"
  by (simp add: closing_def)

section \<open>The sessions\<close>

definition closed_clients :: "call_controller \<Rightarrow> nat list" where
  "closed_clients s = concat (map (\<lambda>e. case e of Close_Client k \<Rightarrow> [k] | _ \<Rightarrow> []) (cc_log s))"

definition current :: "call_controller \<Rightarrow> nat list" where
  "current s = (case cc_client s of None \<Rightarrow> [] | Some k \<Rightarrow> [k])"

text \<open>
  Every client opened so far is the current one, has been closed, once, or was replaced
  while current; a replaced client is never closed and still reports to the controller; the
  current client shows as a call in progress as soon as it has captured the microphone.
\<close>

definition sessions_ok :: "nat \<Rightarrow> nat list \<Rightarrow> nat list \<Rightarrow> call_controller \<Rightarrow> bool" where
  "sessions_ok n live replaced s \<longleftrightarrow>
     cc_subscription s = cc_client s
   \<and> distinct (current s @ closed_clients s @ replaced)
   \<and> set (current s) \<union> set (closed_clients s) \<union> set replaced = {..<n}
   \<and> set (cc_subscribed s) = set (current s) \<union> set replaced
   \<and> set live \<subseteq> {..<n}
   \<and> (\<forall>k \<in> set (current s). k \<in> set live \<longrightarrow> is_busy s)"

lemma closed_clients_log:
  "closed_clients (emit e s) = closed_clients s @ (case e of Close_Client k \<Rightarrow> [k] | _ \<Rightarrow> [])"
  by (simp add: closed_clients_def)

lemma closed_clients_cong: "cc_log s = cc_log t \<Longrightarrow> closed_clients s = closed_clients t"
  by (simp add: closed_clients_def)

lemma closed_teardown [simp]: "closed_clients (teardown_client s) = closed_clients s @ current s"
  by (simp add: closed_clients_def closing_def current_def split: option.splits)

lemma closed_reset [simp]: "closed_clients (reset_to_idle e s) = closed_clients s @ current s"
  by (simp add: closed_clients_def closing_def current_def split: option.splits)

lemma current_emit [simp]: "current (emit e s) = current s"
  by (simp add: current_def)

lemma sessions_same:
  assumes "sessions_ok n live replaced s"
    and "cc_client s' = cc_client s" "cc_subscription s' = cc_subscription s" "cc_subscribed s' = cc_subscribed s"
    and "closed_clients s' = closed_clients s" "cc_client s \<noteq> None \<Longrightarrow> is_busy s \<Longrightarrow> is_busy s'"
  shows "sessions_ok n live replaced s'"
proof -
  have "current s' = current s" using assms(2) by (simp add: current_def)
  moreover have "k \<in> set (current s) \<Longrightarrow> cc_client s \<noteq> None" for k by (cases "cc_client s") (auto simp: current_def)
  ultimately show ?thesis using assms by (auto simp: sessions_ok_def)
qed

lemma sessions_down:
  assumes "sessions_ok n live replaced s"
    and "cc_client s' = None" "cc_subscription s' = None"
    and "set (cc_subscribed s') = set (cc_subscribed s) - (case cc_subscription s of None \<Rightarrow> {} | Some k \<Rightarrow> {k})"
    and "closed_clients s' = closed_clients s @ current s"
  shows "sessions_ok n live replaced s'"
proof -
  have c: "current s' = []" using assms(2) by (simp add: current_def)
  have d: "distinct (current s @ closed_clients s @ replaced)" using assms(1) by (simp add: sessions_ok_def)
  have "(case cc_subscription s of None \<Rightarrow> {} | Some k \<Rightarrow> {k}) = set (current s)"
    using assms(1) by (simp add: sessions_ok_def current_def split: option.splits)
  then have "set (cc_subscribed s') = set replaced" using assms(1,4) d by (auto simp: sessions_ok_def)
  then show ?thesis using assms d unfolding sessions_ok_def c assms(5) by auto
qed

lemma sessions_emit: "sessions_ok n live replaced s \<Longrightarrow> (\<And>k. e \<noteq> Close_Client k) \<Longrightarrow> sessions_ok n live replaced (emit e s)"
  by (erule sessions_same) (auto simp: closed_clients_log is_busy_def split: cc_effect.splits)

lemma sessions_teardown: "sessions_ok n live replaced s \<Longrightarrow> sessions_ok n live replaced (teardown_client s)"
  by (erule sessions_down) (simp_all add: teardown_subscribed)

lemma sessions_reset: "sessions_ok n live replaced s \<Longrightarrow> sessions_ok n live replaced (reset_to_idle e s)"
  by (erule sessions_down) (simp_all add: reset_subscribed)

lemma sessions_open:
  assumes "sessions_ok n live replaced s" and "cc_phase s \<noteq> Failed"
  shows "sessions_ok (Suc n) live (current s @ replaced) (open_client n now s)"
proof -
  let ?s = "open_client n now s"
  have f: "cc_client ?s = Some n" "cc_subscription ?s = Some n" "set (cc_subscribed ?s) = insert n (set (cc_subscribed s))"
      "closed_clients ?s = closed_clients s"
    using assms(2) by (simp_all add: open_client_def bind_client_state_def apply_webrtc_state_def Let_def closed_clients_def)
  have c: "current ?s = [n]" using f(1) by (simp add: current_def)
  have "n \<notin> set (current s) \<union> set (closed_clients s) \<union> set replaced" "n \<notin> set live"
    using assms(1) by (auto simp: sessions_ok_def)
  moreover have "set (current s) \<subseteq> {..<n}" "set (closed_clients s) \<subseteq> {..<n}" "set replaced \<subseteq> {..<n}"
    "{..<n} \<subseteq> set (current s) \<union> set (closed_clients s) \<union> set replaced"
    using assms(1) by (auto simp: sessions_ok_def)
  ultimately show ?thesis using assms(1) unfolding sessions_ok_def c f lessThan_Suc by (auto simp del: lessThan_iff)
qed

section \<open>The displayed state\<close>

text \<open>
  A session or a call in progress always belongs to a displayed call, an offered call is
  displayed only without one and never while it is held elsewhere, and no failed phase is
  ever left standing.
\<close>

definition ctl_ok :: "call_controller \<Rightarrow> bool" where
  "ctl_ok s \<longleftrightarrow> (cc_client s \<noteq> None \<or> is_busy s \<longrightarrow> cc_call s \<noteq> None) \<and> (cc_incoming s = None \<or> cc_call s = None)
     \<and> cc_phase s \<noteq> Failed
     \<and> (case cc_incoming s of None \<Rightarrow> True | Some m \<Rightarrow> cm_call_id m \<notin> set (cc_held_elsewhere s))"

definition sys_ok :: "nat \<Rightarrow> nat list \<Rightarrow> nat list \<Rightarrow> call_controller \<Rightarrow> bool" where
  "sys_ok n live replaced s \<longleftrightarrow> ctl_ok s \<and> sessions_ok n live replaced s"

lemma ctl_same:
  assumes "ctl_ok s" "cc_client s' = cc_client s" "cc_call s' = None \<longleftrightarrow> cc_call s = None" "cc_phase s' = cc_phase s"
    "cc_incoming s' = cc_incoming s" "cc_held_elsewhere s' = cc_held_elsewhere s"
  shows "ctl_ok s'"
  using assms by (cases "cc_incoming s") (auto simp: ctl_ok_def is_busy_def)

lemma ctl_reset: "ctl_ok (reset_to_idle e s)"
  by (simp add: ctl_ok_def is_busy_def)

lemma sys_reset: "sys_ok n live replaced s \<Longrightarrow> sys_ok n live replaced (reset_to_idle e s)"
  by (simp add: sys_ok_def ctl_reset sessions_reset)

lemma sys_same:
  assumes "sys_ok n live replaced s" "cc_client s' = cc_client s" "cc_call s' = None \<longleftrightarrow> cc_call s = None" "cc_phase s' = cc_phase s"
    "cc_incoming s' = cc_incoming s" "cc_held_elsewhere s' = cc_held_elsewhere s" "cc_subscription s' = cc_subscription s"
    "cc_subscribed s' = cc_subscribed s" "closed_clients s' = closed_clients s"
  shows "sys_ok n live replaced s'"
  using assms ctl_same [of s s'] sessions_same [of n live replaced s s'] by (simp add: sys_ok_def is_busy_def)

lemma sys_emit: "sys_ok n live replaced s \<Longrightarrow> (\<And>k. e \<noteq> Close_Client k) \<Longrightarrow> sys_ok n live replaced (emit e s)"
  by (erule sys_same) (auto simp: closed_clients_log split: cc_effect.splits)

lemma closed_fields [simp]:
  "closed_clients (s\<lparr> cc_phase := a \<rparr>) = closed_clients s" "closed_clients (s\<lparr> cc_call := b \<rparr>) = closed_clients s"
  "closed_clients (s\<lparr> cc_incoming := b \<rparr>) = closed_clients s" "closed_clients (s\<lparr> cc_error := c \<rparr>) = closed_clients s"
  "closed_clients (s\<lparr> cc_warning := d \<rparr>) = closed_clients s" "closed_clients (s\<lparr> cc_establish_cap := f \<rparr>) = closed_clients s"
  "closed_clients (s\<lparr> cc_no_answer_timer := f \<rparr>) = closed_clients s" "closed_clients (s\<lparr> cc_held_elsewhere := g \<rparr>) = closed_clients s"
  "closed_clients (s\<lparr> cc_started := h \<rparr>) = closed_clients s"
  "closed_clients (clear_no_answer_timer s) = closed_clients s" "closed_clients (clear_establish_cap s) = closed_clients s"
  by (simp_all add: closed_clients_def clear_no_answer_timer_def clear_establish_cap_def)

text \<open>Phase changes: into a call in progress they keep the session, into failure they end it.\<close>

lemma set_phase_busy:
  assumes "ctl_ok s" "p \<in> {Connecting, Ringing, Connected}" "cc_call s \<noteq> None"
  shows "set_phase p s = s\<lparr> cc_phase := p \<rparr>"
  using assms by (auto simp: set_phase_def enforce_session_visibility_def)

lemma set_phase_failed:
  assumes "cc_client s \<noteq> None" "cc_phase s \<noteq> Failed"
  shows "set_phase Failed s = (teardown_client (s\<lparr> cc_phase := Failed \<rparr>))\<lparr> cc_phase := Idle, cc_call := None \<rparr>"
  using assms by (cases "cc_client s") (simp_all add: set_phase_def enforce_session_visibility_def Let_def)

lemma sys_to_busy:
  assumes "sys_ok n live replaced s" "p \<in> {Connecting, Ringing, Connected}" "cc_call s \<noteq> None"
  shows "sys_ok n live replaced (set_phase p s)"
proof -
  have c: "ctl_ok s" using assms(1) by (simp add: sys_ok_def)
  have "sessions_ok n live replaced (s\<lparr> cc_phase := p \<rparr>)"
    by (rule sessions_same [of n live replaced s]) (use assms in \<open>auto simp: sys_ok_def is_busy_def\<close>)
  then show ?thesis using c assms(2,3) unfolding set_phase_busy [OF c assms(2,3)]
    by (auto simp: sys_ok_def ctl_ok_def)
qed

lemma sys_patch: "sys_ok n live replaced s \<Longrightarrow> sys_ok n live replaced (patch_call f s)"
  by (erule sys_same) (auto simp: patch_call_def split: option.splits)

lemma patch_fields [simp]:
  "cc_client (patch_call f s) = cc_client s" "cc_phase (patch_call f s) = cc_phase s" "cc_call (patch_call f s) = map_option f (cc_call s)"
  "cc_incoming (patch_call f s) = cc_incoming s" "cc_held_elsewhere (patch_call f s) = cc_held_elsewhere s"
  "cc_subscription (patch_call f s) = cc_subscription s" "cc_subscribed (patch_call f s) = cc_subscribed s" "cc_log (patch_call f s) = cc_log s"
  by (simp_all add: patch_call_def split: option.splits)

lemma sys_apply_webrtc:
  assumes ok: "sys_ok n live replaced s"
  shows "sys_ok n live replaced (apply_webrtc_state now st s)"
proof (cases "cc_client s")
  case None
  then show ?thesis using ok by (simp add: apply_webrtc_state_def)
next
  case (Some k)
  have call: "cc_call s \<noteq> None" and nf: "cc_phase s \<noteq> Failed" using ok Some by (auto simp: sys_ok_def ctl_ok_def)
  show ?thesis
  proof (cases st)
    case Rtc_Disconnected
    then show ?thesis using ok nf by (simp add: apply_webrtc_state_def)
  next
    case Rtc_Connecting
    then show ?thesis using ok call sys_to_busy [OF ok, of Connecting] by (simp add: apply_webrtc_state_def)
  next
    case Rtc_Connected
    have "sys_ok n live replaced (patch_call (mark_started now) (emit Stop_Ringback (clear_no_answer_timer (clear_establish_cap s))))"
      by (intro sys_patch sys_emit sys_same [OF ok]) simp_all
    from sys_to_busy [OF this, of Connected] show ?thesis using Rtc_Connected call Some by (simp add: apply_webrtc_state_def)
  next
    case (Rtc_Failed r)
    define s1 where "s1 = patch_call (\<lambda>m. m\<lparr> cm_ended_reason := Some r \<rparr>)
      ((clear_establish_cap s)\<lparr> cc_error := Some (Key (failure_reason_to_error_key r)) \<rparr>)"
    have ok1: "sys_ok n live replaced s1" unfolding s1_def by (intro sys_patch sys_same [OF ok]) simp_all
    have "cc_client s1 \<noteq> None" "cc_phase s1 \<noteq> Failed" using Some nf by (simp_all add: s1_def)
    note f = set_phase_failed [OF this]
    have "sessions_ok n live replaced (set_phase Failed s1)" unfolding f
      by (rule sessions_down [of n live replaced s1]) (use ok1 in \<open>simp_all add: sys_ok_def teardown_subscribed current_def\<close>)
    moreover have "ctl_ok (set_phase Failed s1)" using ok1 unfolding f
      by (auto simp: sys_ok_def ctl_ok_def is_busy_def split: option.splits)
    ultimately show ?thesis using Rtc_Failed Some by (simp add: apply_webrtc_state_def sys_ok_def s1_def)
  qed
qed

section \<open>Every segment keeps the invariant\<close>

lemma sys_phase: "sys_ok n live replaced s \<Longrightarrow> cc_phase s \<noteq> Failed"
  by (simp add: sys_ok_def ctl_ok_def)

lemma sys_dismiss: "sys_ok n live replaced s \<Longrightarrow> sys_ok n live replaced (s\<lparr> cc_incoming := None \<rparr>)"
  using sessions_same [of n live replaced s "s\<lparr> cc_incoming := None \<rparr>"]
  by (auto simp: sys_ok_def ctl_ok_def is_busy_def)

lemma sys_open:
  assumes ok: "sys_ok n live replaced s"
  shows "sys_ok (Suc n) live (current s @ replaced) (open_client n now (s\<lparr> cc_call := Some m, cc_incoming := None, cc_error := e, cc_warning := w \<rparr>))"
proof -
  define s1 where "s1 = s\<lparr> cc_call := Some m, cc_incoming := None, cc_error := e, cc_warning := w \<rparr>"
  have k: "closed_clients s1 = closed_clients s" by (simp add: closed_clients_def s1_def)
  have ok1: "sessions_ok n live replaced s1"
    by (rule sessions_same [of n live replaced s]) (use ok k in \<open>auto simp: sys_ok_def s1_def is_busy_def\<close>)
  have p: "cc_phase s1 \<noteq> Failed" using sys_phase [OF ok] by (simp add: s1_def)
  have c: "current s1 = current s" by (simp add: s1_def current_def)
  have "ctl_ok (open_client n now s1)" using p
    by (simp add: ctl_ok_def open_client_def bind_client_state_def apply_webrtc_state_def Let_def s1_def)
  then show ?thesis using sessions_open [OF ok1 p, of now] unfolding s1_def [symmetric] by (simp add: sys_ok_def c)
qed

lemma sys_make_settled:
  assumes ok: "sys_ok n live replaced s"
  shows "case make_settled caller dest answer n now s of
      (None, s') \<Rightarrow> sys_ok n live replaced s'
    | (Some c, s') \<Rightarrow> sys_ok (Suc n) live (current s @ replaced) s'"
proof -
  have "sys_ok (Suc n) live (current s @ replaced) (open_client n now (s\<lparr> cc_call := Some m, cc_incoming := None, cc_error := None \<rparr>))" for m
    using sys_open [OF ok, where now = now and m = m and e = None and w = "cc_warning s"] by simp
  then show ?thesis
    by (auto simp: make_settled_def establish_session_def sys_reset [OF ok] split: http_answer.splits option.splits if_splits)
qed

lemma sys_answer_call:
  assumes ok: "sys_ok n live replaced s"
  shows "case answer_call c n now s of
      (False, s') \<Rightarrow> sys_ok n live replaced s'
    | (True, s') \<Rightarrow> sys_ok (Suc n) live (current s @ replaced) s'"
proof -
  have "sys_ok n live replaced (emit Stop_Ringtone s)" by (rule sys_emit [OF ok]) simp
  note o = sys_open [OF this, where now = now and e = None and w = None]
  have "sys_ok n live replaced (s\<lparr> cc_error := Some (Key Err_Call_In_Progress) \<rparr>)" by (rule sys_same [OF ok]) simp_all
  then show ?thesis using o by (simp add: answer_call_def Let_def)
qed

lemma sys_place_call: "sys_ok n live replaced s \<Longrightarrow> sys_ok n live replaced (place_call caller dest s)"
  by (auto simp: place_call_def intro!: sys_emit elim!: sys_same)

lemma sys_post: "sys_ok n live replaced s \<Longrightarrow> sys_ok n live replaced (post_decline c s)"
  by (simp add: post_decline_def sys_emit)

lemma sys_offers:
  assumes ok: "sys_ok n live replaced s"
  shows "sys_ok n live replaced (outbound_offer_created c result s)"
    and "sys_ok n live replaced (inbound_offer_created c result s)"
    and "sys_ok n live replaced (snd (answer_settled c sdp answer s))"
    and "sys_ok n live replaced (snd (offer_exchanged c sdp_answer s))"
proof -
  show "sys_ok n live replaced (outbound_offer_created c result s)" "sys_ok n live replaced (inbound_offer_created c result s)"
    by (auto simp: outbound_offer_created_def inbound_offer_created_def exchange_offer_def split: sum.splits
        intro!: sys_reset sys_emit sys_post ok)
  have "sys_ok n live replaced (arm_establish_cap c s)" by (rule sys_same [OF ok]) (simp_all add: arm_establish_cap_def)
  then show "sys_ok n live replaced (snd (answer_settled c sdp answer s))"
    by (auto simp: answer_settled_def exchange_offer_def split: http_answer.splits intro!: sys_reset sys_emit ok)
  show "sys_ok n live replaced (snd (offer_exchanged c sdp_answer s))"
    by (auto simp: offer_exchanged_def split: http_answer.splits option.splits intro!: sys_reset sys_emit ok)
qed

lemma sys_enter_ringing:
  assumes ok: "sys_ok n live replaced s" shows "sys_ok n live replaced (enter_ringing c s)"
proof (cases "cc_call s")
  case (Some call)
  then have "sys_ok n live replaced (set_phase Ringing s)" using sys_to_busy [OF ok, of Ringing] by simp
  then have "sys_ok n live replaced (emit Play_Ringback (set_phase Ringing s))" by (rule sys_emit) simp
  then have "sys_ok n live replaced (start_no_answer_timer c (emit Play_Ringback (set_phase Ringing s)))"
    by (rule sys_same) (simp_all add: start_no_answer_timer_def)
  then show ?thesis using Some ok by (simp add: enter_ringing_def)
qed (simp add: enter_ringing_def ok)

lemma sys_answer_applied:
  assumes ok: "sys_ok n live replaced s" shows "sys_ok n live replaced (answer_applied outbound c sdp applied s)"
proof -
  have "sys_ok n live replaced (s\<lparr> cc_warning := w \<rparr>)" for w by (rule sys_same [OF ok]) simp_all
  then show ?thesis by (auto simp: answer_applied_def Let_def intro: sys_reset sys_enter_ringing ok)
qed

lemma sys_user:
  assumes ok: "sys_ok n live replaced s"
  shows "sys_ok n live replaced (decline c s)" and "sys_ok n live replaced (snd (hangup s))"
    and "sys_ok n live replaced (hangup_settled b s)" and "sys_ok n live replaced (snd (send_dtmf digit in_band s))"
    and "sys_ok n live replaced (dtmf_settled b s)" and "sys_ok n live replaced (set_muted b s)"
    and "sys_ok n live replaced (set_volume level s)"
proof -
  show "sys_ok n live replaced (decline c s)"
    by (auto simp: decline_def Let_def intro!: sys_post sys_dismiss sys_emit ok)
  show "sys_ok n live replaced (snd (hangup s))"
    by (auto simp: hangup_def split: option.splits intro!: sys_reset sys_emit ok)
  show "sys_ok n live replaced (hangup_settled b s)" by (simp add: hangup_settled_def sys_reset ok)
  show "sys_ok n live replaced (snd (send_dtmf digit in_band s))"
    by (auto simp: send_dtmf_def Let_def split: option.splits intro!: sys_emit ok)
  show "sys_ok n live replaced (dtmf_settled b s)"
    by (rule sys_same [OF ok]) (simp_all add: dtmf_settled_def)
  show "sys_ok n live replaced (set_muted b s)" by (simp add: set_muted_def sys_patch ok)
  show "sys_ok n live replaced (set_volume level s)"
    by (auto simp: set_volume_def split: option.splits intro!: sys_patch sys_emit ok)
qed

lemma sys_present:
  assumes ok: "sys_ok n live replaced s" and "cc_call s = None" "c \<notin> set (cc_held_elsewhere s)"
  shows "sys_ok n live replaced (present_incoming c caller s)"
proof -
  have "sessions_ok n live replaced (present_incoming c caller s)"
    by (rule sessions_same [of n live replaced s])
      (use ok in \<open>simp_all add: sys_ok_def present_incoming_def closed_clients_log is_busy_def\<close>)
  then show ?thesis using assms by (simp add: sys_ok_def ctl_ok_def present_incoming_def is_busy_def)
qed

lemma sys_active_event:
  assumes ok: "sys_ok n live replaced s" shows "sys_ok n live replaced (active_call_event now c status s)"
proof -
  have held: "sys_ok n live replaced (s\<lparr> cc_held_elsewhere := removeAll x (cc_held_elsewhere s) \<rparr>)" for x
    using ok sessions_same [of n live replaced s "s\<lparr> cc_held_elsewhere := removeAll x (cc_held_elsewhere s) \<rparr>"]
    by (auto simp: sys_ok_def ctl_ok_def is_busy_def split: option.splits)
  have s1: "sys_ok n live replaced (emit Stop_Ringback (clear_no_answer_timer s))"
    by (intro sys_emit sys_same [OF ok]) simp_all
  have s2: "sys_ok n live replaced (patch_call (mark_started now) (emit Stop_Ringback (clear_no_answer_timer s)))"
    by (rule sys_patch [OF s1])
  have "cc_phase s = Ringing \<or> cc_phase s = Connecting \<Longrightarrow> cc_call s \<noteq> None"
    using ok by (auto simp: sys_ok_def ctl_ok_def is_busy_def)
  then have s3: "cc_phase s = Ringing \<or> cc_phase s = Connecting \<Longrightarrow>
      sys_ok n live replaced (set_phase Connected (patch_call (mark_started now) (emit Stop_Ringback (clear_no_answer_timer s))))"
    using sys_to_busy [OF s2, of Connected] by auto
  have r: "sys_ok n live replaced (reset_to_idle e (clear_no_answer_timer s))" for e
    by (intro sys_reset sys_same [OF ok]) simp_all
  show ?thesis unfolding active_call_event_def Let_def
    using held s1 s3 r ok by (cases c) auto
qed

lemma sys_inbound_event:
  assumes ok: "sys_ok n live replaced s" and no: "\<not> call_has_id c (cc_call s)"
  shows "sys_ok n live replaced (inbound_call_event c caller s)"
proof (cases "cc_incoming s")
  case None
  then show ?thesis using ok by (auto simp: inbound_call_event_def intro: sys_present sys_post)
next
  case (Some m)
  have "sys_ok n live replaced (s\<lparr> cc_incoming := Some (m\<lparr> cm_peer_number := p \<rparr>) \<rparr>)" for p
    using ok Some sessions_same [of n live replaced s "s\<lparr> cc_incoming := Some (m\<lparr> cm_peer_number := p \<rparr>) \<rparr>"]
    by (auto simp: sys_ok_def ctl_ok_def is_busy_def)
  then show ?thesis using ok Some by (auto simp: inbound_call_event_def intro: sys_post)
qed

lemma sys_signals:
  assumes ok: "sys_ok n live replaced s"
  shows "sys_ok n live replaced (on_call_event now d s)"
    and "sys_ok n live replaced (on_ws_disconnected s)" and "sys_ok n live replaced (on_ws_connected s)"
    and "sys_ok n live replaced (no_answer_fires c s)" and "sys_ok n live replaced (establish_cap_fires c s)"
    and "sys_ok n live replaced (start_controller s)" and "sys_ok n live replaced (stop_controller s)"
proof -
  show "sys_ok n live replaced (on_call_event now d s)"
    using sys_active_event [OF ok] sys_inbound_event [OF ok]
    by (auto simp: on_call_event_def split: option.splits)
  have e: "sys_ok n live replaced (s\<lparr> cc_error := x \<rparr>)" for x by (rule sys_same [OF ok]) simp_all
  show "sys_ok n live replaced (on_ws_disconnected s)"
    by (auto simp: on_ws_disconnected_def intro: sys_reset e ok)
  show "sys_ok n live replaced (on_ws_connected s)" by (simp add: on_ws_connected_def reconcile_def sys_emit ok)
  have t: "sys_ok n live replaced (s\<lparr> cc_no_answer_timer := x \<rparr>)" "sys_ok n live replaced (s\<lparr> cc_establish_cap := x \<rparr>)" for x
    by (rule sys_same [OF ok], simp_all)+
  show "sys_ok n live replaced (no_answer_fires c s)" "sys_ok n live replaced (establish_cap_fires c s)"
    by (auto simp: no_answer_fires_def establish_cap_fires_def Let_def intro!: sys_reset sys_emit t)
  show "sys_ok n live replaced (start_controller s)"
    by (rule sys_same [OF ok]) (simp_all add: start_controller_def)
  have "sessions_ok n live replaced (s\<lparr> cc_started := False, cc_held_elsewhere := [] \<rparr>)"
    by (rule sessions_same [of n live replaced s]) (use ok in \<open>simp_all add: sys_ok_def is_busy_def closed_clients_def\<close>)
  note sessions_teardown [OF this]
  moreover have "ctl_ok (stop_controller s)" using ok by (auto simp: stop_controller_def sys_ok_def ctl_ok_def is_busy_def split: option.splits)
  ultimately show "sys_ok n live replaced (stop_controller s)" by (simp add: stop_controller_def sys_ok_def)
qed

lemma sys_cancelled:
  assumes ok: "sys_ok n live replaced s" shows "sys_ok n live replaced (on_call_cancelled c reason s)"
proof (cases c)
  case (Some x)
  define s1 where "s1 = (if reason = Some ''answered_elsewhere'' then s\<lparr> cc_held_elsewhere := List.insert x (cc_held_elsewhere s) \<rparr> else s)"
  define s2 where "s2 = (if call_has_id x (cc_incoming s1) then (emit Stop_Ringtone s1)\<lparr> cc_incoming := None \<rparr> else s1)"
  have "sessions_ok n live replaced s2"
    by (rule sessions_same [of n live replaced s])
      (use ok in \<open>auto simp: sys_ok_def s1_def s2_def is_busy_def closed_clients_log\<close>)
  moreover have "ctl_ok s2" using ok
    by (auto simp: sys_ok_def ctl_ok_def s1_def s2_def is_busy_def call_has_id_def split: option.splits)
  ultimately have "sys_ok n live replaced s2" by (simp add: sys_ok_def)
  then show ?thesis using ok sys_reset
    by (simp add: on_call_cancelled_def Some s1_def [symmetric] s2_def [symmetric] Let_def)
qed (simp add: on_call_cancelled_def ok)

lemma sys_reconcile:
  assumes ok: "sys_ok n live replaced s" shows "sys_ok n live replaced (reconcile_settled answer s)"
proof (cases answer)
  case (Some calls)
  define s1 where "s1 = (if listed calls (cc_call s) then s else reset_to_idle None s)"
  define s2 where "s2 = (if listed calls (cc_incoming s1) then s1 else (emit Stop_Ringtone s1)\<lparr> cc_incoming := None \<rparr>)"
  have "sys_ok n live replaced s1" by (simp add: s1_def sys_reset ok)
  then have s2: "sys_ok n live replaced s2" by (simp add: s2_def sys_dismiss sys_emit)
  have "reconcile_settled answer s = (if cc_phase s2 = Idle \<and> cc_call s2 = None \<and> cc_incoming s2 = None then
       (case find (\<lambda>e. ac_entry_call_id e \<noteq> '''' \<and> ac_entry_status e = ''ringing''
              \<and> ac_entry_call_id e \<notin> set (cc_held_elsewhere s2)) calls of
          Some e \<Rightarrow> present_incoming (ac_entry_call_id e) (ac_entry_from e) s2
        | None \<Rightarrow> s2)
     else s2)"
    by (simp only: reconcile_settled_def Some option.case Let_def s1_def s2_def)
  then show ?thesis using s2 by (auto split: option.splits intro!: sys_present dest!: find_Some_mem)
qed (simp add: reconcile_settled_def ok)

section \<open>The invariant of the system\<close>

definition cc_inv :: "cc_system \<Rightarrow> bool" where
  "cc_inv S \<longleftrightarrow> sys_ok (sc_next S) (sc_live S) (sc_replaced S) (sc_ctl S)"

lemma inv_sys: "cc_inv S \<Longrightarrow> sys_ok (sc_next S) (sc_live S) (sc_replaced S) (sc_ctl S)"
  by (simp add: cc_inv_def)

lemma inv_with: "cc_inv S \<Longrightarrow> sys_ok (sc_next S) (sc_live S) (sc_replaced S) (f (sc_ctl S)) \<Longrightarrow> cc_inv (with_ctl f S)"
  by (simp add: cc_inv_def with_ctl_def)

lemma inv_put: "cc_inv S \<Longrightarrow> sys_ok (sc_next S) (sc_live S) (sc_replaced S) s \<Longrightarrow> cc_inv (S\<lparr> sc_ctl := s \<rparr>)"
  by (simp add: cc_inv_def)

lemma inv_await [simp]: "cc_inv (await p S) = cc_inv S"
  by (simp add: cc_inv_def await_def)

lemma inv_opened: "sys_ok (Suc (sc_next S)) (sc_live S) (current (sc_ctl S) @ sc_replaced S) s \<Longrightarrow> cc_inv ((opened S)\<lparr> sc_ctl := s \<rparr>)"
  by (auto simp: cc_inv_def opened_def current_def split: option.splits)

lemma settle_inv:
  assumes "settle p f S = Some T" "cc_inv S" "\<And>S. cc_inv S \<Longrightarrow> cc_inv (f S)"
  shows "cc_inv T"
proof -
  have "cc_inv (S\<lparr> sc_pending := x \<rparr>)" for x using assms(2) by (simp add: cc_inv_def)
  then show ?thesis using assms(1,3) by (auto simp: settle_def split: if_splits)
qed

lemma set_phase_client: "cc_client (set_phase p s) = cc_client s \<or> cc_client (set_phase p s) = None"
  by (simp add: set_phase_def enforce_session_visibility_def Let_def)

lemma apply_webrtc_client:
  "cc_client (apply_webrtc_state now st s) = cc_client s \<or> cc_client (apply_webrtc_state now st s) = None"
  using set_phase_client [of _ s]
    set_phase_client [of Connected "patch_call (mark_started now) (emit Stop_Ringback (clear_no_answer_timer (clear_establish_cap s)))"]
    set_phase_client [of Failed "patch_call f ((clear_establish_cap s)\<lparr> cc_error := e \<rparr>)" for f e]
  by (cases st) (simp_all add: apply_webrtc_state_def)

lemma inv_live:
  assumes inv: "cc_inv S" and k: "k < sc_next S" and st: "st = Rtc_Connecting \<or> st = Rtc_Connected"
  shows "cc_inv ((with_ctl (client_changed k now st) S)\<lparr> sc_live := List.insert k (sc_live S) \<rparr>)"
proof -
  let ?s = "sc_ctl S" and ?s' = "client_changed k now st (sc_ctl S)"
  have ok: "sys_ok (sc_next S) (sc_live S) (sc_replaced S) ?s" using inv by (simp add: cc_inv_def)
  have ok': "sys_ok (sc_next S) (sc_live S) (sc_replaced S) ?s'"
    using sys_apply_webrtc [OF ok] ok by (simp add: client_changed_def)
  have call: "cc_call ?s \<noteq> None" "cc_phase ?s \<noteq> Failed" if "cc_client ?s \<noteq> None"
    using ok that by (auto simp: sys_ok_def ctl_ok_def)
  have "is_busy ?s'" if cur: "k \<in> set (current ?s')"
  proof -
    have "k \<in> set (current ?s)"
    proof (rule ccontr)
      assume n: "k \<notin> set (current ?s)"
      have "cc_client ?s' = cc_client ?s \<or> cc_client ?s' = None"
        by (simp add: client_changed_def apply_webrtc_client)
      then show False using n cur by (auto simp: current_def split: option.splits)
    qed
    then have c: "cc_client ?s = Some k" "k \<in> set (cc_subscribed ?s)"
      using ok by (auto simp: sys_ok_def sessions_ok_def current_def split: option.splits)
    have ctl: "ctl_ok ?s" "ctl_ok (patch_call f (emit Stop_Ringback (clear_no_answer_timer (clear_establish_cap ?s))))" for f
      using ok sys_patch [OF sys_emit [OF sys_same [OF ok]], of "clear_no_answer_timer (clear_establish_cap ?s)" Stop_Ringback f]
      by (auto simp: sys_ok_def)
    show ?thesis using st c call set_phase_busy [OF ctl(1), of Connecting] set_phase_busy [OF ctl(2), of Connected]
      by (auto simp: client_changed_def apply_webrtc_state_def is_busy_def)
  qed
  then have "sessions_ok (sc_next S) (List.insert k (sc_live S)) (sc_replaced S) ?s'"
    using ok' k by (auto simp: sys_ok_def sessions_ok_def)
  then show ?thesis using ok' by (simp add: cc_inv_def with_ctl_def sys_ok_def)
qed

lemma cc_apply_inv: "cc_apply e S = Some T \<Longrightarrow> cc_inv S \<Longrightarrow> cc_inv T"
proof (induction e S rule: cc_apply.induct)
  case (1 caller dest S)
  have "cc_inv (with_ctl (place_call caller dest) S)"
    by (rule inv_with [OF 1(2)]) (use 1(2) in \<open>simp add: cc_inv_def sys_place_call\<close>)
  then show ?case using 1(1) by (auto split: if_splits)
next
  case (2 caller dest answer now S)
  show ?case using 2(1)
  proof (simp, elim settle_inv [OF _ 2(2)])
    fix S :: cc_system assume i: "cc_inv S"
    then have "sys_ok (sc_next S) (sc_live S) (sc_replaced S) (sc_ctl S)" by (simp add: cc_inv_def)
    from sys_make_settled [OF this, of caller dest answer now] i
    show "cc_inv (case make_settled caller dest answer (sc_next S) now (sc_ctl S) of
          (None, s) \<Rightarrow> S\<lparr> sc_ctl := s \<rparr>
        | (Some c, s) \<Rightarrow> await (Await_Offer True c (sc_next S)) ((opened S)\<lparr> sc_ctl := s \<rparr>))"
      by (auto split: prod.splits option.splits intro: inv_put inv_opened)
  qed
next
  case (3 c now S)
  have "sys_ok (sc_next S) (sc_live S) (sc_replaced S) (sc_ctl S)" using 3(2) by (simp add: cc_inv_def)
  from sys_answer_call [OF this, of c now] 3
  show ?case by (auto split: prod.splits bool.splits intro: inv_put inv_opened)
next
  case (4 outbound c k result S)
  show ?case using 4(1)
  proof (simp, elim settle_inv [OF _ 4(2)])
    fix S :: cc_system assume i: "cc_inv S"
    then have "sys_ok (sc_next S) (sc_live S) (sc_replaced S) (sc_ctl S)" by (simp add: cc_inv_def)
    then have "cc_inv (with_ctl ((if outbound then outbound_offer_created else inbound_offer_created) c result) S)"
      using sys_offers by (intro inv_with [OF i]) auto
    then show "cc_inv (case result of
          Inl _ \<Rightarrow> with_ctl ((if outbound then outbound_offer_created else inbound_offer_created) c result) S
        | Inr sdp \<Rightarrow> await (if outbound then Await_Exchange True c else Await_Answer c sdp)
            (with_ctl ((if outbound then outbound_offer_created else inbound_offer_created) c result) S))"
      by (auto split: sum.splits)
  qed
next
  case (5 c sdp answer S)
  show ?case using 5(1)
  proof (simp, elim settle_inv [OF _ 5(2)])
    fix S :: cc_system assume i: "cc_inv S"
    then have "sys_ok (sc_next S) (sc_live S) (sc_replaced S) (snd (answer_settled c sdp answer (sc_ctl S)))"
      by (simp add: cc_inv_def sys_offers)
    then show "cc_inv (case answer_settled c sdp answer (sc_ctl S) of
          (False, s) \<Rightarrow> S\<lparr> sc_ctl := s \<rparr> | (True, s) \<Rightarrow> await (Await_Exchange False c) (S\<lparr> sc_ctl := s \<rparr>))"
      using i by (auto split: prod.splits bool.splits intro: inv_put)
  qed
next
  case (6 outbound c answer S)
  show ?case using 6(1)
  proof (simp, elim settle_inv [OF _ 6(2)])
    fix S :: cc_system assume i: "cc_inv S"
    then have "sys_ok (sc_next S) (sc_live S) (sc_replaced S) (snd (offer_exchanged c answer (sc_ctl S)))"
      by (simp add: cc_inv_def sys_offers)
    then show "cc_inv (case offer_exchanged c answer (sc_ctl S) of
          (None, s) \<Rightarrow> S\<lparr> sc_ctl := s \<rparr> | (Some (k, sdp), s) \<Rightarrow> await (Await_Apply outbound c k sdp) (S\<lparr> sc_ctl := s \<rparr>))"
      using i by (auto split: prod.splits option.splits intro: inv_put)
  qed
next
  case (7 outbound c k sdp ok S)
  then show ?case by (auto elim!: settle_inv intro!: inv_with sys_answer_applied) (simp add: cc_inv_def)
next
  case (9 S)
  have "sys_ok (sc_next S) (sc_live S) (sc_replaced S) (snd (hangup (sc_ctl S)))" using 9(2) by (simp add: cc_inv_def sys_user)
  then show ?case using 9 by (auto split: prod.splits if_splits intro: inv_put)
next
  case (11 digit in_band S)
  have "sys_ok (sc_next S) (sc_live S) (sc_replaced S) (snd (send_dtmf digit in_band (sc_ctl S)))" using 11(2) by (simp add: cc_inv_def sys_user)
  then show ?case using 11 by (auto split: prod.splits if_splits intro: inv_put)
next
  case (22 k now st S)
  then have "k < sc_next S" by (auto split: if_splits)
  note l = inv_live [OF 22(2) this, of st now]
  have "cc_inv (with_ctl (client_changed k now st) S)" using 22(2)
    by (intro inv_with) (auto simp: cc_inv_def client_changed_def sys_apply_webrtc)
  then show ?case using 22(1) l by (auto simp: with_ctl_def split: if_splits)
qed (auto elim!: settle_inv intro!: inv_with sys_user sys_signals sys_cancelled sys_reconcile inv_sys split: if_splits)

lemma cc_init_inv: "cc_init S \<Longrightarrow> cc_inv S"
  by (auto simp: cc_init_def new_cc_system_def new_call_controller_def cc_inv_def sys_ok_def ctl_ok_def sessions_ok_def
      current_def closed_clients_def is_busy_def)

interpretation cc: invariant_system cc_init cc_step cc_inv
  by unfold_locales (auto simp: cc_step_def intro: cc_init_inv cc_apply_inv)

end
