(* ===== verification/Call_Controller_Props.thy ===== *)
theory Call_Controller_Props
  imports Call_Controller_System
begin

text \<open>
  What the browser's call controller guarantees over the runs of
  \<^verbatim>\<open>Call_Controller_System\<close>: audio without a visible call, the single-call guard, the end of
  calls, reconciliation, whole calls from dialling to talking, and the settling of attempts.
\<close>

section \<open>Sessions that do not overlap\<close>

text \<open>No session is opened over a live one.\<close>

definition calm_step :: "cc_system \<Rightarrow> cc_event \<Rightarrow> cc_system \<Rightarrow> bool" where
  "calm_step S e S' \<longleftrightarrow> cc_step S e S' \<and>
     (case e of Make_Answered _ _ _ _ \<Rightarrow> cc_client (sc_ctl S) = None | Answer _ _ \<Rightarrow> cc_client (sc_ctl S) = None | _ \<Rightarrow> True)"

lemma replaced_await [simp]: "sc_replaced (await p S) = sc_replaced S"
  by (simp add: await_def)

lemma replaced_with [simp]: "sc_replaced (with_ctl f S) = sc_replaced S"
  by (simp add: with_ctl_def)

lemma replaced_opened: "sc_replaced (opened S) = current (sc_ctl S) @ sc_replaced S"
  by (simp add: opened_def current_def split: option.splits)

lemma step_replaced:
  "cc_apply e S = Some T \<Longrightarrow> sc_replaced T = sc_replaced S \<or>
     (case e of Make_Answered _ _ _ _ \<Rightarrow> True | Answer _ _ \<Rightarrow> True | _ \<Rightarrow> False) \<and> sc_replaced T = current (sc_ctl S) @ sc_replaced S"
  by (induction e S rule: cc_apply.induct)
    (auto simp: settle_def replaced_opened split: if_splits prod.splits option.splits bool.splits sum.splits)

lemma calm_init: "cc_init S \<Longrightarrow> sc_replaced S = []"
  by (simp add: cc_init_def new_cc_system_def)

lemma calm_keeps: "sc_replaced S = [] \<Longrightarrow> calm_step S e T \<Longrightarrow> sc_replaced T = []"
  using step_replaced [of e S T] by (auto simp: calm_step_def cc_step_def current_def split: cc_event.splits)

interpretation calm: invariant_system cc_init calm_step "\<lambda>S. sc_replaced S = []"
  by unfold_locales (auto intro: calm_init calm_keeps)

lemma reach_sessions:
  assumes "reach cc_init cc_step S"
  shows "ctl_ok (sc_ctl S)" "sessions_ok (sc_next S) (sc_live S) (sc_replaced S) (sc_ctl S)"
  using cc.reach_inv [OF assms] by (simp_all add: cc_inv_def sys_ok_def)

lemma closed_clients_mem: "k \<in> set (closed_clients s) \<longleftrightarrow> Close_Client k \<in> set (cc_log s)"
  by (force simp: closed_clients_def split: cc_effect.splits)

text \<open>C11. In every reachable state, whatever the order of clicks, server answers, signalling and
  browser events, a client that has captured the microphone is either the current one, and
  then a call in progress is displayed, or it has been told to close, or a later session was
  opened over it; no client is told to close twice; a call and an offered call are never
  displayed together, and a displayed offer is never one that is held elsewhere. As long as
  no session is opened over a live one, the third case does not occur.
\<close>

theorem no_silent_audio:
  assumes "reach cc_init cc_step S" and "k \<in> set (sc_live S)"
  shows "(cc_client (sc_ctl S) = Some k \<and> cc_call (sc_ctl S) \<noteq> None \<and> is_busy (sc_ctl S)
      \<or> Close_Client k \<in> set (cc_log (sc_ctl S)) \<or> k \<in> set (sc_replaced S))
    \<and> distinct (closed_clients (sc_ctl S))
    \<and> (cc_incoming (sc_ctl S) = None \<or> cc_call (sc_ctl S) = None)
    \<and> (reach cc_init calm_step S \<longrightarrow> sc_replaced S = [])"
proof -
  let ?s = "sc_ctl S"
  note ok = reach_sessions [OF assms(1)]
  have "k < sc_next S" using ok(2) assms(2) by (auto simp: sessions_ok_def)
  then have "k \<in> set (current ?s) \<or> k \<in> set (closed_clients ?s) \<or> k \<in> set (sc_replaced S)"
    using ok(2) by (auto simp: sessions_ok_def)
  moreover have "k \<in> set (current ?s) \<Longrightarrow> cc_client ?s = Some k \<and> cc_call ?s \<noteq> None \<and> is_busy ?s"
    using ok assms(2) by (auto simp: sessions_ok_def ctl_ok_def current_def split: option.splits)
  moreover have "distinct (closed_clients ?s)" using ok(2) by (simp add: sessions_ok_def)
  moreover have "cc_incoming ?s = None \<or> cc_call ?s = None" using ok(1) by (simp add: ctl_ok_def)
  moreover have "reach cc_init calm_step S \<longrightarrow> sc_replaced S = []" using calm.reach_inv by blast
  ultimately show ?thesis by (auto simp: closed_clients_mem)
qed

lemma cc_run_run: "cc_run es S = Some T \<Longrightarrow> run cc_step S es T"
proof (induction es arbitrary: S)
  case (Cons e es)
  then obtain U where "cc_apply e S = Some U" "cc_run es U = Some T" by (cases "cc_apply e S") auto
  then show ?case using Cons.IH by (auto intro: run_Cons simp: cc_step_def)
qed (simp add: run_Nil)

lemma cc_run_reach: "cc_run es new_cc_system = Some T \<Longrightarrow> reach cc_init cc_step T"
  by (rule reach_run [OF cc_run_run]) (auto intro: reach_init simp: cc_init_def)

lemmas cc_eval = settle_def await_def with_ctl_def opened_def place_call_def is_busy_def make_settled_def establish_session_def
  open_client_def bind_client_state_def apply_webrtc_state_def client_changed_def set_phase_def enforce_session_visibility_def
  answer_call_def outbound_offer_created_def inbound_offer_created_def exchange_offer_def answer_settled_def offer_exchanged_def
  answer_applied_def enter_ringing_def start_no_answer_timer_def arm_establish_cap_def clear_no_answer_timer_def
  clear_establish_cap_def call_has_id_def patch_call_def mark_started_def emit_def post_decline_def
  reset_to_idle_def teardown_client_def hangup_def hangup_settled_def decline_def on_call_event_def inbound_call_event_def
  active_call_event_def terminal_status_def present_incoming_def start_controller_def Let_def

definition sample_make :: "make_response option http_answer" where
  "sample_make = Http_Ok (Some \<lparr> mr_call_id = ''c1'', mr_from = None, mr_to = None \<rparr>)"

definition sample_dialling :: "cc_event list" where
  "sample_dialling = [Start, Place ''a'' ''b'', Make_Answered ''a'' ''b'' sample_make 10, Client_State 0 20 Rtc_Connecting]"

lemma sample_dialling_runs:
  "\<exists>T. cc_run sample_dialling new_cc_system = Some T \<and> sc_live T = [0] \<and> cc_phase (sc_ctl T) = Connecting
     \<and> call_has_id ''c1'' (cc_call (sc_ctl T)) \<and> cc_started (sc_ctl T) \<and> cc_held_elsewhere (sc_ctl T) = []"
  by (simp add: sample_dialling_def sample_make_def new_cc_system_def new_call_controller_def cc_eval)

theorem no_silent_audio_witness:
  "\<exists>S. cc_run sample_dialling new_cc_system = Some S \<and> sc_live S = [0]
     \<and> (cc_client (sc_ctl S) = Some 0 \<and> cc_call (sc_ctl S) \<noteq> None \<and> is_busy (sc_ctl S)
        \<or> Close_Client 0 \<in> set (cc_log (sc_ctl S)) \<or> 0 \<in> set (sc_replaced S))"
proof -
  obtain T where T: "cc_run sample_dialling new_cc_system = Some T" "sc_live T = [0]" using sample_dialling_runs by blast
  have "0 \<in> set (sc_live T)" using T(2) by simp
  from no_silent_audio [OF cc_run_reach [OF T(1)] this] T show ?thesis by blast
qed

section \<open>Sessions that overlap\<close>

text \<open>
  The guard tests the phase, and the phase stays idle while a placement waits for the server
  or for the microphone prompt: a second session can be opened over the first. The client of
  the first is then never closed, in any continuation.
\<close>

lemma run_replaced: "run cc_step S es T \<Longrightarrow> k \<in> set (sc_replaced S) \<Longrightarrow> k \<in> set (sc_replaced T)"
proof (induction rule: run.induct)
  case (run_Cons S e T es U)
  then show ?case using step_replaced [of e S T] by (auto simp: cc_step_def)
qed

lemma replaced_never_closed:
  assumes "reach cc_init cc_step S" "k \<in> set (sc_replaced S)" "run cc_step S es T"
  shows "Close_Client k \<notin> set (cc_log (sc_ctl T)) \<and> k \<in> set (cc_subscribed (sc_ctl T))"
proof -
  have "k \<in> set (sc_replaced T)" by (rule run_replaced [OF assms(3,2)])
  then show ?thesis using reach_sessions(2) [OF reach_run [OF assms(3,1)]]
    by (auto simp: sessions_ok_def closed_clients_mem)
qed

lemma overlapping_sessions_strand_microphone:
  "\<exists>S. cc_run [Start, Place ''a'' ''b'', Answer ''in'' 5, Client_State 0 6 Rtc_Connecting,
       Make_Answered ''a'' ''b'' sample_make 10] new_cc_system = Some S
     \<and> sc_live S = [0] \<and> cc_client (sc_ctl S) = Some 1
     \<and> (\<forall>es T. run cc_step S es T \<longrightarrow> Close_Client 0 \<notin> set (cc_log (sc_ctl T)))"
proof -
  obtain S where S: "cc_run [Start, Place ''a'' ''b'', Answer ''in'' 5, Client_State 0 6 Rtc_Connecting,
       Make_Answered ''a'' ''b'' sample_make 10] new_cc_system = Some S" "sc_live S = [0]" "cc_client (sc_ctl S) = Some 1"
       "sc_replaced S = [0]"
    by (simp add: sample_make_def new_cc_system_def new_call_controller_def cc_eval)
  have "0 \<in> set (sc_replaced S)" using S(4) by simp
  from replaced_never_closed [OF cc_run_reach [OF S(1)] this] S show ?thesis by blast
qed

text \<open>
  A hang-up while the microphone prompt is open closes the client, but the answer goes to the
  server all the same once the microphone is granted, and the closed client keeps it.
\<close>

lemma hangup_at_prompt_still_answers:
  "\<exists>S. cc_run [Start, Answer ''in'' 5, Hangup, Hangup_Answered True, Offer_Created False ''in'' 0 (Inr sdp)] new_cc_system = Some S
     \<and> cc_call (sc_ctl S) = None \<and> cc_client (sc_ctl S) = None
     \<and> cc_log (sc_ctl S) = [Stop_Ringtone, Create_Client 0, Post_Decline ''in'', Stop_Ringtone, Stop_Ringback, Close_Client 0, Post_Answer ''in'']"
  "stranded (rtc_run es (microphone_granted t True True (close_client u new_rtc_client)))"
proof -
  show "stranded (rtc_run es (microphone_granted t True True (close_client u new_rtc_client)))"
    by (rule stranded_run) (simp add: stranded_def microphone_granted_def close_client_def new_rtc_client_def Let_def)
qed (simp add: new_cc_system_def new_call_controller_def cc_eval)

text \<open>Placing a call while an offered call is displayed drops the offer and leaves its ringtone on.\<close>

lemma placing_leaves_ringtone:
  "\<exists>S. cc_run [Start, Call_Event 1 \<lparr> ce_call_id = Some ''in'', ce_status = Some ''ringing'', ce_from = None \<rparr>, Place ''a'' ''b'',
       Make_Answered ''a'' ''b'' sample_make 10] new_cc_system = Some S
     \<and> cc_incoming (sc_ctl S) = None \<and> cc_log (sc_ctl S) = [Start_Ringtone, Post_Make ''a'' ''b'', Create_Client 0]"
  by (simp add: sample_make_def new_cc_system_def new_call_controller_def cc_eval)

text \<open>A hang-up that settles late ends whichever call is there by then.\<close>

lemma late_hangup_ends_next_call:
  "\<exists>S. cc_run (sample_dialling @ [Hangup,
       Call_Event 30 \<lparr> ce_call_id = Some ''c1'', ce_status = Some ''completed'', ce_from = None \<rparr>,
       Call_Event 40 \<lparr> ce_call_id = Some ''in'', ce_status = Some ''ringing'', ce_from = None \<rparr>, Answer ''in'' 50,
       Client_State 1 60 Rtc_Connecting, Hangup_Answered False]) new_cc_system = Some S
     \<and> cc_call (sc_ctl S) = None \<and> last (cc_log (sc_ctl S)) = Close_Client 1 \<and> Post_Decline ''in'' \<notin> set (cc_log (sc_ctl S))"
  by (simp add: sample_dialling_def sample_make_def new_cc_system_def new_call_controller_def cc_eval terminal_status_to_error_key_def)

section \<open>One call at a time\<close>

text \<open>While a call is in progress nothing can start another: placing or answering is refused
  with the in-progress message and changes nothing else, and a signal of any other ringing
  or connected call is declined on the server, unless it is held elsewhere, without touching
  the call. A displayed offer is protected in the same way.
\<close>

theorem single_call_guard:
  assumes "reach cc_init cc_step S" and "is_busy (sc_ctl S) \<or> cc_incoming (sc_ctl S) \<noteq> None"
    and "c \<noteq> ''''" and "\<not> call_has_id c (cc_call (sc_ctl S))" and "\<not> call_has_id c (cc_incoming (sc_ctl S))"
    and "status \<in> {Some ''ringing'', Some ''connected''}"
  shows "on_call_event now \<lparr> ce_call_id = Some c, ce_status = status, ce_from = caller \<rparr> (sc_ctl S) =
      (if c \<in> set (cc_held_elsewhere (sc_ctl S)) then sc_ctl S else (sc_ctl S)\<lparr> cc_log := cc_log (sc_ctl S) @ [Post_Decline c] \<rparr>)
    \<and> (is_busy (sc_ctl S) \<longrightarrow>
        place_call a b (sc_ctl S) = (sc_ctl S)\<lparr> cc_error := Some (Key Err_Call_In_Progress) \<rparr>
      \<and> answer_call c k now (sc_ctl S) = (False, (sc_ctl S)\<lparr> cc_error := Some (Key Err_Call_In_Progress) \<rparr>)
      \<and> cc_apply (Place a b) S = Some (S\<lparr> sc_ctl := (sc_ctl S)\<lparr> cc_error := Some (Key Err_Call_In_Progress) \<rparr> \<rparr>)
      \<and> cc_incoming (sc_ctl S) = None)"
proof -
  note ok = reach_sessions(1) [OF assms(1)]
  have call: "cc_call (sc_ctl S) \<noteq> None" if "cc_incoming (sc_ctl S) = None" using ok assms(2) that by (auto simp: ctl_ok_def)
  have inc: "is_busy (sc_ctl S) \<longrightarrow> cc_incoming (sc_ctl S) = None" using ok by (auto simp: ctl_ok_def)
  have "on_call_event now \<lparr> ce_call_id = Some c, ce_status = status, ce_from = caller \<rparr> (sc_ctl S) = inbound_call_event c caller (sc_ctl S)"
    using assms(3,4,6) by (auto simp: on_call_event_def)
  moreover have "inbound_call_event c caller (sc_ctl S) =
      (if c \<in> set (cc_held_elsewhere (sc_ctl S)) then sc_ctl S else (sc_ctl S)\<lparr> cc_log := cc_log (sc_ctl S) @ [Post_Decline c] \<rparr>)"
    using call assms(5) by (auto simp: inbound_call_event_def post_decline_def emit_def call_has_id_def split: option.splits)
  ultimately show ?thesis using inc by (simp add: place_call_def answer_call_def with_ctl_def)
qed

theorem single_call_guard_witness:
  "\<exists>S. cc_run sample_dialling new_cc_system = Some S
     \<and> on_call_event 30 \<lparr> ce_call_id = Some ''c2'', ce_status = Some ''ringing'', ce_from = None \<rparr> (sc_ctl S)
       = (sc_ctl S)\<lparr> cc_log := cc_log (sc_ctl S) @ [Post_Decline ''c2''] \<rparr>"
proof -
  obtain S where S: "cc_run sample_dialling new_cc_system = Some S" "cc_phase (sc_ctl S) = Connecting"
      "call_has_id ''c1'' (cc_call (sc_ctl S))" "cc_held_elsewhere (sc_ctl S) = []"
    using sample_dialling_runs by blast
  have r: "reach cc_init cc_step S" by (rule cc_run_reach [OF S(1)])
  have b: "is_busy (sc_ctl S) \<or> cc_incoming (sc_ctl S) \<noteq> None" using S(2) by (simp add: is_busy_def)
  have n: "\<not> call_has_id ''c2'' (cc_call (sc_ctl S))" using S(3) by (auto simp: call_has_id_def split: option.splits)
  have i: "\<not> call_has_id ''c2'' (cc_incoming (sc_ctl S))"
    using reach_sessions(1) [OF r] S(3) by (auto simp: ctl_ok_def call_has_id_def split: option.splits)
  from single_call_guard [OF r b _ n i, of "Some ''ringing''" 30 None "''a''" "''b''" 0] S show ?thesis by simp
qed

section \<open>The end of a call\<close>

text \<open>A terminal signal for the active call, in any phase, returns to idle with the message
  of its status, stops both tones, clears both timers and closes the current client, exactly
  once: any further terminal signal for the same call closes nothing and changes nothing
  but the held-elsewhere mark. A cancellation does the same without a message.
\<close>

theorem terminal_event_ends_call:
  assumes "reach cc_init cc_step S" and "cc_call (sc_ctl S) = Some m" and "cm_call_id m \<noteq> ''''"
    and "terminal_status status" and "terminal_status status2"
    and s_def: "s = sc_ctl S"
    and t_def: "t = on_call_event now \<lparr> ce_call_id = Some (cm_call_id m), ce_status = status, ce_from = caller \<rparr> (sc_ctl S)"
  shows "cc_phase t = Idle \<and> cc_call t = None \<and> cc_incoming t = None \<and> cc_client t = None
    \<and> cc_error t = Some (Key (terminal_status_to_error_key (the status)))
    \<and> cc_no_answer_timer t = None \<and> cc_establish_cap t = None
    \<and> cc_log t = cc_log s @ Stop_Ringtone # Stop_Ringback # map Close_Client (current s)
    \<and> on_call_event now2 \<lparr> ce_call_id = Some (cm_call_id m), ce_status = status2, ce_from = caller2 \<rparr> t
      = t\<lparr> cc_held_elsewhere := removeAll (cm_call_id m) (cc_held_elsewhere t) \<rparr>
    \<and> cc_log (on_call_cancelled (Some (cm_call_id m)) reason s) = cc_log s @ Stop_Ringtone # Stop_Ringback # map Close_Client (current s)
    \<and> cc_phase (on_call_cancelled (Some (cm_call_id m)) reason s) = Idle
    \<and> cc_error (on_call_cancelled (Some (cm_call_id m)) reason s) = None"
proof -
  have active: "call_has_id (cm_call_id m) (cc_call (sc_ctl S))" using assms(2) by (simp add: call_has_id_def)
  have no: "status \<noteq> Some ''ringing''" "status \<noteq> Some ''connected''" "status2 \<noteq> Some ''ringing''" "status2 \<noteq> Some ''connected''"
    using assms(4,5) by (auto simp: terminal_status_def)
  have t: "t = reset_to_idle (Some (Key (terminal_status_to_error_key (the status)))) (clear_no_answer_timer (sc_ctl S))"
    using active assms(3,4) no by (simp add: t_def on_call_event_def active_call_event_def)
  have "closing (clear_no_answer_timer (sc_ctl S)) = map Close_Client (current s)"
    by (simp add: closing_def current_def s_def split: option.splits)
  then have a: "cc_log t = cc_log s @ Stop_Ringtone # Stop_Ringback # map Close_Client (current s)" by (simp add: t s_def)
  have b: "on_call_event now2 \<lparr> ce_call_id = Some (cm_call_id m), ce_status = status2, ce_from = caller2 \<rparr> t
      = t\<lparr> cc_held_elsewhere := removeAll (cm_call_id m) (cc_held_elsewhere t) \<rparr>"
    using assms(3,5) no by (simp add: t on_call_event_def active_call_event_def call_has_id_def)
  have "cc_incoming s = None" using reach_sessions(1) [OF assms(1)] assms(2) by (auto simp: ctl_ok_def s_def)
  then have c: "\<exists>s1. on_call_cancelled (Some (cm_call_id m)) reason s = reset_to_idle None s1 \<and> cc_log s1 = cc_log s \<and> cc_client s1 = cc_client s"
    using active assms(3) by (auto simp: on_call_cancelled_def Let_def s_def call_has_id_def)
  then obtain s1 where s1: "on_call_cancelled (Some (cm_call_id m)) reason s = reset_to_idle None s1" "cc_log s1 = cc_log s"
    "cc_client s1 = cc_client s" by blast
  have "closing s1 = map Close_Client (current s)" using s1(3) by (simp add: closing_def current_def split: option.splits)
  then show ?thesis using a b s1 by (simp add: t)
qed

theorem terminal_event_ends_call_witness:
  "\<exists>S m. cc_run sample_dialling new_cc_system = Some S \<and> cc_call (sc_ctl S) = Some m
     \<and> cc_client (on_call_event 30 \<lparr> ce_call_id = Some (cm_call_id m), ce_status = Some ''busy'', ce_from = None \<rparr> (sc_ctl S)) = None"
proof -
  obtain S where S: "cc_run sample_dialling new_cc_system = Some S" "call_has_id ''c1'' (cc_call (sc_ctl S))"
    using sample_dialling_runs by blast
  then obtain m where m: "cc_call (sc_ctl S) = Some m" "cm_call_id m = ''c1''"
    by (auto simp: call_has_id_def split: option.splits)
  have e: "cm_call_id m \<noteq> ''''" using m(2) by simp
  have t: "terminal_status (Some ''busy'')" by (simp add: terminal_status_def)
  show ?thesis
    using terminal_event_ends_call [OF cc_run_reach [OF S(1)] m(1) e t t refl refl, of 30 None] S(1) m(1) by blast
qed

section \<open>Reconciliation\<close>

definition offered :: "active_call_entry \<Rightarrow> call_metadata" where
  "offered e = \<lparr> cm_call_id = ac_entry_call_id e, cm_direction = Cc_Inbound, cm_peer_number = ac_entry_from e,
     cm_from_number = None, cm_started_at = None, cm_muted = False, cm_volume = 1, cm_ended_reason = None \<rparr>"

definition presentable :: "string list \<Rightarrow> active_call_entry \<Rightarrow> bool" where
  "presentable held e \<longleftrightarrow> ac_entry_call_id e \<noteq> '''' \<and> ac_entry_status e = ''ringing'' \<and> ac_entry_call_id e \<notin> set held"

lemma find_listed: "find (presentable held) calls = Some e \<Longrightarrow> listed calls (Some (offered e))"
  by (auto dest!: find_Some_mem simp: listed_def offered_def presentable_def list_ex_iff)

text \<open>After a reconciliation whatever is displayed is in the server's list: an active call
  stays exactly when it is listed and is otherwise ended, its client closed; a displayed
  offer stays exactly when it is listed; and when nothing is displayed the first ringing
  call of the list that is not held elsewhere is offered. A failed request changes nothing.
\<close>

theorem reconcile_shows_listed:
  assumes "reach cc_init cc_step S" and s_def: "s = sc_ctl S" and t_def: "t = reconcile_settled (Some calls) (sc_ctl S)"
  shows "cc_call t = (if listed calls (cc_call s) then cc_call s else None)
    \<and> cc_incoming t = (if cc_call t \<noteq> None then None
         else if cc_incoming s \<noteq> None \<and> listed calls (cc_incoming s) then cc_incoming s
         else map_option offered (find (presentable (cc_held_elsewhere s)) calls))
    \<and> cc_client t = (if listed calls (cc_call s) then cc_client s else None)
    \<and> closed_clients t = closed_clients s @ (if listed calls (cc_call s) then [] else current s)
    \<and> listed calls (cc_call t) \<and> listed calls (cc_incoming t)
    \<and> reconcile_settled None s = s"
proof -
  note ok = reach_sessions(1) [OF assms(1), folded s_def]
  define s1 where "s1 = (if listed calls (cc_call s) then s else reset_to_idle None s)"
  define s2 where "s2 = (if listed calls (cc_incoming s1) then s1 else (emit Stop_Ringtone s1)\<lparr> cc_incoming := None \<rparr>)"
  have t: "t = (if cc_phase s2 = Idle \<and> cc_call s2 = None \<and> cc_incoming s2 = None then
       (case find (presentable (cc_held_elsewhere s2)) calls of
          Some e \<Rightarrow> present_incoming (ac_entry_call_id e) (ac_entry_from e) s2 | None \<Rightarrow> s2) else s2)"
    by (simp only: t_def reconcile_settled_def option.case Let_def s1_def s2_def s_def presentable_def [abs_def])
  have l0: "listed calls None" by (simp add: listed_def)
  have idle: "cc_phase s2 = Idle" if "cc_call s2 = None"
    using ok that by (cases "cc_phase s") (auto simp: s2_def s1_def ctl_ok_def is_busy_def split: if_splits)
  have s2: "cc_call s2 = (if listed calls (cc_call s) then cc_call s else None)"
      "cc_incoming s2 = (if listed calls (cc_call s) \<and> listed calls (cc_incoming s) then cc_incoming s else None)"
      "cc_held_elsewhere s2 = cc_held_elsewhere s" "cc_client s2 = (if listed calls (cc_call s) then cc_client s else None)"
      "closed_clients s2 = closed_clients s @ (if listed calls (cc_call s) then [] else current s)"
    using l0 by (auto simp: s2_def s1_def closed_clients_log)
  have i0: "cc_incoming s = None \<or> cc_call s = None" using ok by (simp add: ctl_ok_def)
  have p: "cc_call (present_incoming c f s2) = cc_call s2" "cc_client (present_incoming c f s2) = cc_client s2"
      "closed_clients (present_incoming c f s2) = closed_clients s2"
      "cc_incoming (present_incoming (ac_entry_call_id e) (ac_entry_from e) s2) = Some (offered e)" for c f e
    by (simp_all add: present_incoming_def closed_clients_log offered_def)
  have call: "cc_call t = cc_call s2" and cl: "cc_client t = cc_client s2" and k: "closed_clients t = closed_clients s2"
    by (simp_all add: t p split: option.splits)
  have inc: "cc_incoming t = (if cc_call s2 = None \<and> cc_incoming s2 = None
      then map_option offered (find (presentable (cc_held_elsewhere s)) calls) else cc_incoming s2)"
    using idle p(4) s2(3) by (auto simp: t split: option.splits)
  have "cc_incoming t = (if cc_call t \<noteq> None then None
         else if cc_incoming s \<noteq> None \<and> listed calls (cc_incoming s) then cc_incoming s
         else map_option offered (find (presentable (cc_held_elsewhere s)) calls))"
    using inc i0 l0 by (auto simp: call s2(1,2))
  moreover have "listed calls (cc_call t)" using l0 by (simp add: call s2(1))
  moreover have "listed calls (cc_incoming t)"
    using l0 find_listed [of _ calls] by (cases "find (presentable (cc_held_elsewhere s)) calls") (auto simp: inc s2(2))
  ultimately show ?thesis using call cl k s2 by (simp add: reconcile_settled_def)
qed

theorem reconcile_shows_listed_witness:
  "\<exists>S. cc_run sample_dialling new_cc_system = Some S
     \<and> cc_call (reconcile_settled (Some []) (sc_ctl S)) = None \<and> cc_client (reconcile_settled (Some []) (sc_ctl S)) = None"
proof -
  obtain S where S: "cc_run sample_dialling new_cc_system = Some S" "call_has_id ''c1'' (cc_call (sc_ctl S))"
    using sample_dialling_runs by blast
  then have "\<not> listed [] (cc_call (sc_ctl S))" by (auto simp: call_has_id_def listed_def split: option.splits)
  then show ?thesis using reconcile_shows_listed [OF cc_run_reach [OF S(1)] refl refl, of "[]"] S(1) by simp
qed

end
