(* ===== verification/Call_Controller_Stories.thy ===== *)
theory Call_Controller_Stories
  imports Call_Controller_Props
begin

text \<open>
  Whole calls of the browser's controller, from the click to the conversation, and the
  settling of everything that waits.
\<close>

section \<open>Every attempt settles\<close>

text \<open>How many more answers a waiting continuation can ask for, and the events that answer one.\<close>

fun weight :: "cc_pending \<Rightarrow> nat" where
  "weight (Await_Make _ _) = 4"
| "weight (Await_Offer outbound _ _) = (if outbound then 3 else 4)"
| "weight (Await_Answer _ _) = 3"
| "weight (Await_Exchange _ _) = 2"
| "weight (Await_Apply _ _ _ _) = 1"
| "weight Await_Hangup = 1"
| "weight Await_Dtmf = 1"
| "weight Await_Reconcile = 1"

definition waiting :: "cc_system \<Rightarrow> nat" where
  "waiting S = sum_list (map weight (sc_pending S))"

fun settles :: "cc_event \<Rightarrow> bool" where
  "settles (Make_Answered _ _ _ _) \<longleftrightarrow> True"
| "settles (Offer_Created _ _ _ _) \<longleftrightarrow> True"
| "settles (Answer_Answered _ _ _) \<longleftrightarrow> True"
| "settles (Offer_Answered _ _ _) \<longleftrightarrow> True"
| "settles (Answer_Was_Applied _ _ _ _ _) \<longleftrightarrow> True"
| "settles (Hangup_Answered _) \<longleftrightarrow> True"
| "settles (Dtmf_Answered _) \<longleftrightarrow> True"
| "settles (Reconciled _) \<longleftrightarrow> True"
| "settles _ \<longleftrightarrow> False"

lemma waiting_simps [simp]:
  "waiting (await p S) = weight p + waiting S" "waiting (with_ctl f S) = waiting S"
  "waiting (S\<lparr> sc_ctl := s \<rparr>) = waiting S" "waiting (opened S) = waiting S"
  by (simp_all add: waiting_def await_def with_ctl_def opened_def)

lemma weight_remove: "p \<in> set ps \<Longrightarrow> sum_list (map weight ps) = weight p + sum_list (map weight (remove1 p ps))"
  by (induction ps) auto

lemma settle_waiting:
  assumes "settle p f S = Some T" and "\<And>S. waiting (f S) < weight p + waiting S"
  shows "waiting T < waiting S"
proof -
  have p: "p \<in> set (sc_pending S)" and T: "T = f (S\<lparr> sc_pending := remove1 p (sc_pending S) \<rparr>)"
    using assms(1) by (auto simp: settle_def split: if_splits)
  have "waiting S = weight p + waiting (S\<lparr> sc_pending := remove1 p (sc_pending S) \<rparr>)"
    using weight_remove [OF p] by (simp add: waiting_def)
  then show ?thesis using assms(2) [of "S\<lparr> sc_pending := remove1 p (sc_pending S) \<rparr>"] T by simp
qed

lemma settles_decreases: "cc_apply e S = Some T \<Longrightarrow> settles e \<Longrightarrow> waiting T < waiting S"
proof (induction e S rule: cc_apply.induct)
  case (2 caller dest answer now S)
  then show ?case by simp (erule settle_waiting, simp split: prod.splits option.splits)
next
  case (4 outbound c k result S)
  then show ?case by simp (erule settle_waiting, simp split: sum.splits)
next
  case (5 c sdp answer S)
  then show ?case by simp (erule settle_waiting, simp split: prod.splits bool.splits)
next
  case (6 outbound c answer S)
  then show ?case by simp (erule settle_waiting, simp split: prod.splits option.splits)
qed (auto elim!: settle_waiting)

lemma some_settles:
  assumes "p \<in> set (sc_pending S)"
  shows "\<exists>e T. settles e \<and> cc_apply e S = Some T"
proof (cases p)
  case (Await_Make caller dest)
  then show ?thesis using assms by (intro exI [of _ "Make_Answered caller dest Http_Failed 0"]) (simp add: settle_def)
next
  case (Await_Offer outbound c k)
  then show ?thesis using assms by (intro exI [of _ "Offer_Created outbound c k (Inl None)"]) (simp add: settle_def)
next
  case (Await_Answer c sdp)
  then show ?thesis using assms by (intro exI [of _ "Answer_Answered c sdp Http_Failed"]) (simp add: settle_def)
next
  case (Await_Exchange outbound c)
  then show ?thesis using assms by (intro exI [of _ "Offer_Answered outbound c Http_Failed"]) (simp add: settle_def)
next
  case (Await_Apply outbound c k sdp)
  then show ?thesis using assms by (intro exI [of _ "Answer_Was_Applied outbound c k sdp False"]) (simp add: settle_def)
next
  case Await_Hangup
  then show ?thesis using assms by (intro exI [of _ "Hangup_Answered True"]) (simp add: settle_def)
next
  case Await_Dtmf
  then show ?thesis using assms by (intro exI [of _ "Dtmf_Answered True"]) (simp add: settle_def)
next
  case Await_Reconcile
  then show ?thesis using assms by (intro exI [of _ "Reconciled None"]) (simp add: settle_def)
qed



section \<open>Whole calls\<close>

lemma cc_run_append: "cc_run (xs @ ys) S = Option.bind (cc_run xs S) (cc_run ys)"
proof (induction xs arbitrary: S)
  case (Cons e xs)
  then show ?case by (cases "cc_apply e S") simp_all
qed simp

lemma cc_run_chain:
  "cc_run xs S = Some T \<Longrightarrow> cc_apply e T = Some U \<Longrightarrow> cc_run ys U = Some V \<Longrightarrow> cc_run (xs @ e # ys) S = Some V"
  by (simp add: cc_run_append)

text \<open>A continuation that is answered at once.\<close>

lemma await_simps [simp]:
  "settle p f (await p S) = Some (f S)" "sc_ctl (await p S) = sc_ctl S" "sc_next (await p S) = sc_next S" "sc_live (await p S) = sc_live S"
  "with_ctl g (await p S) = await p (with_ctl g S)" "(await p S)\<lparr> sc_ctl := s \<rparr> = await p (S\<lparr> sc_ctl := s \<rparr>)"
  "(await p S)\<lparr> sc_live := l \<rparr> = await p (S\<lparr> sc_live := l \<rparr>)"
  by (simp_all add: settle_def await_def with_ctl_def)

text \<open>C12. From idle, an outbound call whose requests succeed goes through placing, the
  microphone, the offer and its answer to ringing, with the no-answer timer armed and
  ringback on, having asked for each of these once and in this order; when the far party
  answers it is connected, the timer is off and the duration starts then; when nobody
  answers the timer ends it on the server and here.
\<close>

theorem dialled_call_story:
  assumes "cc_phase (sc_ctl S) = Idle" and "cc_client (sc_ctl S) = None" and "cc_started (sc_ctl S)"
    and "mr_call_id r \<noteq> ''''" and "ans \<noteq> []"
  shows "\<exists>T U V. cc_run [Place a b, Make_Answered a b (Http_Ok (Some r)) t0, Client_State (sc_next S) t1 Rtc_Connecting,
        Offer_Created True (mr_call_id r) (sc_next S) (Inr sdp), Offer_Answered True (mr_call_id r) (Http_Ok (Some ans)),
        Answer_Was_Applied True (mr_call_id r) (sc_next S) ans True] S = Some T
    \<and> cc_phase (sc_ctl T) = Ringing \<and> cc_no_answer_timer (sc_ctl T) = Some (mr_call_id r)
    \<and> cc_client (sc_ctl T) = Some (sc_next S) \<and> cc_error (sc_ctl T) = None
    \<and> (cc_warning (sc_ctl T) = Some Loopback_Ice_Candidate \<longleftrightarrow> sdp_has_loopback_candidate ans)
    \<and> cc_log (sc_ctl T) = cc_log (sc_ctl S) @ [Post_Make a b, Create_Client (sc_next S), Post_Offer sdp (mr_call_id r),
         Apply_Answer (sc_next S) ans, Play_Ringback]
    \<and> cc_apply (Call_Event t2 \<lparr> ce_call_id = Some (mr_call_id r), ce_status = Some ''connected'', ce_from = None \<rparr>) T = Some U
    \<and> cc_phase (sc_ctl U) = Connected \<and> cc_no_answer_timer (sc_ctl U) = None \<and> cc_client (sc_ctl U) = Some (sc_next S)
    \<and> Option.bind (cc_call (sc_ctl U)) cm_started_at = Some t2
    \<and> cc_apply (No_Answer_Timer (mr_call_id r)) T = Some V
    \<and> cc_phase (sc_ctl V) = Idle \<and> cc_call (sc_ctl V) = None \<and> cc_error (sc_ctl V) = Some (Key Err_No_Answer)
    \<and> cc_log (sc_ctl V) = cc_log (sc_ctl T) @ [Post_Decline (mr_call_id r), Stop_Ringback, Stop_Ringtone, Stop_Ringback,
         Close_Client (sc_next S)]"
proof -
  let ?c = "mr_call_id r"
  define m where "m = \<lparr> cm_call_id = ?c, cm_direction = Cc_Outbound,
     cm_peer_number = Some (case mr_to r of Some t \<Rightarrow> t | None \<Rightarrow> b), cm_from_number = Some (case mr_from r of Some f \<Rightarrow> f | None \<Rightarrow> a),
     cm_started_at = None, cm_muted = False, cm_volume = 1, cm_ended_reason = None \<rparr>"
  define s1 where "s1 = (sc_ctl S)\<lparr> cc_warning := None, cc_call := Some m, cc_incoming := None, cc_error := None,
     cc_log := cc_log (sc_ctl S) @ [Post_Make a b, Create_Client (sc_next S)], cc_client := Some (sc_next S), cc_subscription := Some (sc_next S),
     cc_subscribed := List.insert (sc_next S) (cc_subscribed (sc_ctl S)) \<rparr>"
  have m: "cm_call_id m = ?c" "cm_direction m = Cc_Outbound" "cm_started_at m = None" by (simp_all add: m_def)
  define S0 where "S0 = S\<lparr> sc_next := Suc (sc_next S), sc_ctl := s1 \<rparr>"
  let ?offer = "Await_Offer True ?c (sc_next S)"
  have 1: "cc_run [Place a b, Make_Answered a b (Http_Ok (Some r)) t0] S = Some (await ?offer S0)"
    using assms(1,2,4) by (simp add: with_ctl_def opened_def place_call_def is_busy_def make_settled_def
        establish_session_def open_client_def bind_client_state_def apply_webrtc_state_def emit_def Let_def S0_def s1_def m_def)
  define s2 where "s2 = s1\<lparr> cc_phase := Connecting \<rparr>"
  define S2 where "S2 = S0\<lparr> sc_ctl := s2, sc_live := List.insert (sc_next S) (sc_live S) \<rparr>"
  have 2: "cc_apply (Client_State (sc_next S) t1 Rtc_Connecting) (await ?offer S0) = Some (await ?offer S2)"
    using assms(1) by (simp add: S0_def S2_def s1_def s2_def with_ctl_def client_changed_def apply_webrtc_state_def set_phase_def
        enforce_session_visibility_def)
  define s5 where "s5 = s2\<lparr> cc_log := cc_log s2 @ [Post_Offer sdp ?c, Apply_Answer (sc_next S) ans],
     cc_warning := (if sdp_has_loopback_candidate ans then Some Loopback_Ice_Candidate else None) \<rparr>"
  define s6 where "s6 = s5\<lparr> cc_phase := Ringing, cc_log := cc_log s5 @ [Play_Ringback], cc_no_answer_timer := Some ?c \<rparr>"
  define T where "T = S2\<lparr> sc_ctl := s6 \<rparr>"
  have r: "set_phase Ringing s5 = s5\<lparr> cc_phase := Ringing \<rparr>"
    by (simp add: set_phase_def enforce_session_visibility_def s5_def s2_def s1_def)
  have w: "answer_applied True ?c ans True (s2\<lparr> cc_log := cc_log s2 @ [Post_Offer sdp ?c, Apply_Answer (sc_next S) ans] \<rparr>) = enter_ringing ?c s5"
  proof -
    have "(if sdp_has_loopback_candidate ans then s'\<lparr> cc_warning := Some Loopback_Ice_Candidate \<rparr> else s') = s5"
      if "s' = s2\<lparr> cc_log := cc_log s2 @ [Post_Offer sdp ?c, Apply_Answer (sc_next S) ans] \<rparr>" for s'
      by (rule call_controller.equality) (simp_all add: that s5_def s2_def s1_def)
    then show ?thesis by (simp add: answer_applied_def)
  qed
  have e: "enter_ringing ?c s5 = s6"
  proof -
    have "cc_call s5 = Some m" "cc_phase s5 = Connecting" by (simp_all add: s5_def s2_def s1_def)
    then have "enter_ringing ?c s5 = start_no_answer_timer ?c (emit Play_Ringback (set_phase Ringing s5))"
      by (simp add: enter_ringing_def m)
    also have "\<dots> = s6" unfolding r by (simp add: start_no_answer_timer_def clear_no_answer_timer_def emit_def s6_def)
    finally show ?thesis .
  qed
  have 3: "cc_run [Offer_Created True ?c (sc_next S) (Inr sdp), Offer_Answered True ?c (Http_Ok (Some ans)),
        Answer_Was_Applied True ?c (sc_next S) ans True] (await ?offer S2) = Some T"
  proof -
    have c: "cc_client s2 = Some (sc_next S)" by (simp add: s2_def s1_def)
    have "sc_ctl S2 = s2" by (simp add: S2_def)
    moreover have "S2\<lparr> sc_ctl := enter_ringing ?c s5 \<rparr> = T" by (simp add: e T_def)
    ultimately show ?thesis using assms(5) w c
      by (simp add: with_ctl_def outbound_offer_created_def exchange_offer_def offer_exchanged_def emit_def)
  qed
  have T: "cc_run [Place a b, Make_Answered a b (Http_Ok (Some r)) t0, Client_State (sc_next S) t1 Rtc_Connecting,
        Offer_Created True ?c (sc_next S) (Inr sdp), Offer_Answered True ?c (Http_Ok (Some ans)),
        Answer_Was_Applied True ?c (sc_next S) ans True] S = Some T"
    using cc_run_chain [OF 1 2 3] by (simp del: cc_run.simps)
  have has: "call_has_id ?c (cc_call s6)" by (simp add: call_has_id_def s6_def s5_def s2_def s1_def m)
  have s6: "cc_phase s6 = Ringing" "cc_started s6" "cc_client s6 = Some (sc_next S)" "cc_call s6 = Some m" "cc_error s6 = None"
      "cc_no_answer_timer s6 = Some ?c" "cc_warning s6 = Some Loopback_Ice_Candidate \<longleftrightarrow> sdp_has_loopback_candidate ans"
      "cc_log s6 = cc_log (sc_ctl S) @ [Post_Make a b, Create_Client (sc_next S), Post_Offer sdp ?c, Apply_Answer (sc_next S) ans, Play_Ringback]"
    using assms(3) by (simp_all add: s6_def s5_def s2_def s1_def)
  define sU where "sU = on_call_event t2 \<lparr> ce_call_id = Some ?c, ce_status = Some ''connected'', ce_from = None \<rparr> s6"
  define b1 where "b1 = patch_call (mark_started t2) (emit Stop_Ringback (clear_no_answer_timer s6))"
  have "sU = set_phase Connected b1" using has assms(4) s6(1)
    by (simp add: sU_def b1_def on_call_event_def active_call_event_def terminal_status_def)
  moreover have "set_phase Connected b1 = b1\<lparr> cc_phase := Connected \<rparr>" using s6
    by (simp add: b1_def set_phase_def enforce_session_visibility_def patch_call_def emit_def clear_no_answer_timer_def)
  ultimately have U: "cc_phase sU = Connected" "cc_no_answer_timer sU = None" "cc_client sU = Some (sc_next S)"
      "Option.bind (cc_call sU) cm_started_at = Some t2"
    using s6 m by (simp_all add: b1_def patch_call_def emit_def clear_no_answer_timer_def mark_started_def)
  have V: "cc_phase (no_answer_fires ?c s6) = Idle" "cc_call (no_answer_fires ?c s6) = None" "cc_error (no_answer_fires ?c s6) = Some (Key Err_No_Answer)"
      "cc_log (no_answer_fires ?c s6) = cc_log s6 @ [Post_Decline ?c, Stop_Ringback, Stop_Ringtone, Stop_Ringback, Close_Client (sc_next S)]"
    using has s6 by (simp_all add: no_answer_fires_def Let_def closing_def)
  show ?thesis
    by (rule exI [of _ T], rule exI [of _ "T\<lparr> sc_ctl := sU \<rparr>"], rule exI [of _ "T\<lparr> sc_ctl := no_answer_fires ?c s6 \<rparr>"])
      (use \<open>cc_run _ S = Some T\<close> in \<open>simp del: cc_run.simps add: T_def s6 U V with_ctl_def sU_def [symmetric]\<close>)
qed

definition idle_controller :: cc_system where
  "idle_controller = new_cc_system\<lparr> sc_ctl := start_controller new_call_controller \<rparr>"

lemma idle_controller_fields:
  "cc_phase (sc_ctl idle_controller) = Idle" "cc_client (sc_ctl idle_controller) = None" "cc_started (sc_ctl idle_controller)"
  "sc_next idle_controller = 0" "cc_log (sc_ctl idle_controller) = []"
  by (simp_all add: idle_controller_def new_cc_system_def new_call_controller_def start_controller_def)

theorem dialled_call_story_witness:
  "\<exists>T. cc_run [Place ''a'' ''b'', Make_Answered ''a'' ''b'' (Http_Ok (Some \<lparr> mr_call_id = ''c1'', mr_from = None, mr_to = None \<rparr>)) 1,
        Client_State 0 2 Rtc_Connecting, Offer_Created True ''c1'' 0 (Inr [1]), Offer_Answered True ''c1'' (Http_Ok (Some [2])),
        Answer_Was_Applied True ''c1'' 0 [2] True] idle_controller = Some T \<and> cc_phase (sc_ctl T) = Ringing"
  using dialled_call_story [OF idle_controller_fields(1,2,3), of "\<lparr> mr_call_id = ''c1'', mr_from = None, mr_to = None \<rparr>" "[2]" "''a''" "''b''" 1 2 "[1]" 3]
    idle_controller_fields(4) by (simp del: cc_run.simps) blast



end
