(* ===== verification/Http_Session.thy ===== *)
theory Http_Session
  imports Broadcaster_System Url_Guard Validators
begin

text \<open>
  \<^verbatim>\<open>src/middleware/session-middleware.ts\<close>, the hook every request passes, and the routes of
  \<^verbatim>\<open>src/routes/auth-routes.ts\<close> and \<^verbatim>\<open>src/routes/device-routes.ts\<close> on the services of
  \<^theory_text>\<open>Auth_Service\<close>, \<^theory_text>\<open>Devices\<close> and \<^theory_text>\<open>Ws_Tickets\<close>. A route is one function from the request
  and the state to the reply and the state; where it awaits a service more than once, the
  services' own theories have the segments.
\<close>

section \<open>Replies and bodies\<close>

text \<open>An error reply has a text, or the issues of a schema; \<open>Thrown\<close> is what the framework makes of
  an exception that leaves a handler.\<close>

datatype body_issue = Body_Required | Body_Invalid_Type | Body_Failed string

datatype route_error = Message string | Details "body_issue list" | Thrown

datatype 'a reply = Reply nat 'a | Error_Reply nat route_error

text \<open>A field of a JSON body.\<close>

datatype json_field = Missing | Text string | Truth bool | Null | Other_Json

fun text_issues :: "(string \<Rightarrow> body_issue list) \<Rightarrow> json_field \<Rightarrow> body_issue list" where
  "text_issues check Missing = [Body_Required]"
| "text_issues check (Text s) = check s"
| "text_issues check _ = [Body_Invalid_Type]"

fun truth_issues :: "json_field \<Rightarrow> body_issue list" where
  "truth_issues Missing = [Body_Required]"
| "truth_issues (Truth b) = []"
| "truth_issues _ = [Body_Invalid_Type]"

definition at_least_one :: "string \<Rightarrow> string \<Rightarrow> body_issue list" where
  "at_least_one message s = (if length s < 1 then [Body_Failed message] else [])"

definition at_most :: "nat \<Rightarrow> string \<Rightarrow> string \<Rightarrow> body_issue list" where
  "at_most n message s = (if n < length s then [Body_Failed message] else [])"

definition text_of :: "json_field \<Rightarrow> string" where
  "text_of f = (case f of Text s \<Rightarrow> s | _ \<Rightarrow> [])"

definition truth_of :: "json_field \<Rightarrow> bool" where
  "truth_of f = (case f of Truth b \<Rightarrow> b | _ \<Rightarrow> False)"

lemma text_issues_none: "text_issues check f = [] \<longleftrightarrow> (\<exists>s. f = Text s \<and> check s = [])"
  by (cases f) auto

lemma truth_issues_none: "truth_issues f = [] \<longleftrightarrow> (\<exists>b. f = Truth b)"
  by (cases f) auto

section \<open>The session hook\<close>

definition has_prefix :: "string \<Rightarrow> string \<Rightarrow> bool" where
  "has_prefix s p \<longleftrightarrow> take (length p) s = p"

definition has_suffix :: "string \<Rightarrow> string \<Rightarrow> bool" where
  "has_suffix s p \<longleftrightarrow> length p \<le> length s \<and> drop (length s - length p) s = p"

definition PUBLIC_PATHS :: "string list" where
  "PUBLIC_PATHS = [''/health'', ''/api/auth/login'', ''/api/version'']"

definition PUBLIC_PREFIXES :: "string list" where
  "PUBLIC_PREFIXES = [''/webhooks/'', ''/public/'', ''/ws'']"

definition STATIC_EXTENSIONS :: "string list" where
  "STATIC_EXTENSIONS = [''.html'', ''.js'', ''.css'', ''.map'', ''.ico'', ''.png'', ''.svg'', ''.jpg'', ''.woff'', ''.woff2'', ''.ttf'']"

record http_request =
  rq_method :: string
  rq_url :: string
  rq_authorization :: "string option"

definition is_public :: "bool \<Rightarrow> http_request \<Rightarrow> bool" where
  "is_public web_interface r \<longleftrightarrow>
     rq_url r \<in> set PUBLIC_PATHS
   \<or> list_ex (has_prefix (rq_url r)) PUBLIC_PREFIXES
   \<or> web_interface \<and> rq_method r = ''GET''
     \<and> (let url = takeWhile (\<lambda>c. c \<noteq> CHR ''?'') (rq_url r) in
          \<not> has_prefix url ''/api/''
          \<and> (list_ex (has_suffix url) STATIC_EXTENSIONS \<or> url = ''/''
             \<or> CHR ''.'' \<notin> set url \<and> \<not> has_prefix url ''/api/''))"

text \<open>The token of the header, when it has the form the hook and the logout expect.\<close>

definition bearer_token :: "string option \<Rightarrow> string option" where
  "bearer_token h = (case h of
       None \<Rightarrow> None
     | Some s \<Rightarrow> if s = '''' \<or> \<not> has_prefix s ''Bearer '' then None else Some (drop 7 s))"

record session_identity =
  sn_device_id :: string
  sn_device_name :: string
  sn_token :: string

datatype session_check = Passed "session_identity option" | Denied route_error

definition session_hook ::
    "auth_config \<Rightarrow> bool \<Rightarrow> int \<Rightarrow> int \<Rightarrow> http_request \<Rightarrow> device_row table \<Rightarrow> session_check \<times> device_row table" where
  "session_hook cfg web_interface now seen r t =
     (if is_public web_interface r then (Passed None, t)
      else case bearer_token (rq_authorization r) of
          None \<Rightarrow> (Denied (Message ''Authentication required''), t)
        | Some token \<Rightarrow> (case validate_session cfg token now seen t of
            (None, t') \<Rightarrow> (Denied (Message ''Invalid or expired session''), t')
          | (Some (device, name), t') \<Rightarrow>
              (Passed (Some \<lparr> sn_device_id = device, sn_device_name = name, sn_token = token \<rparr>), t')))"

text \<open>A request to a route: the hook on the devices, and the handler with the identity it attached;
  \<open>w\<close> is the rest of the state, the list the effects on others.\<close>

definition handle_request ::
    "auth_config \<Rightarrow> bool \<Rightarrow> int \<Rightarrow> int \<Rightarrow> http_request
      \<Rightarrow> (session_identity option \<Rightarrow> device_row table \<times> 'w \<Rightarrow> 'a reply \<times> (device_row table \<times> 'w) \<times> 'e list)
      \<Rightarrow> device_row table \<times> 'w \<Rightarrow> 'a reply \<times> (device_row table \<times> 'w) \<times> 'e list" where
  "handle_request cfg web_interface now seen r handler s =
     (case session_hook cfg web_interface now seen r (fst s) of
        (Denied e, t) \<Rightarrow> (Error_Reply 401 e, (t, snd s), [])
      | (Passed identity, t) \<Rightarrow> handler identity (t, snd s))"

section \<open>Logging in and out\<close>

record login_body =
  lb_password :: json_field
  lb_device_name :: json_field
  lb_push_topic_id :: json_field

definition login_issues :: "login_body option \<Rightarrow> body_issue list" where
  "login_issues body = (case body of
       None \<Rightarrow> [Body_Required]
     | Some b \<Rightarrow> text_issues (at_least_one ''Password is required'') (lb_password b)
         @ text_issues (\<lambda>s. at_least_one ''Device name is required'' s @ at_most 100 ''String must contain at most 100 character(s)'' s)
             (lb_device_name b)
         @ text_issues (\<lambda>s. at_least_one ''Push topic ID is required'' s @ at_most 200 ''String must contain at most 200 character(s)'' s)
             (lb_push_topic_id b))"

text \<open>What a login tells the others: the sockets of the other devices, and a wake signal for all
  other active devices.\<close>

datatype auth_effect = To_Socket ws_effect | Wake_Devices "(device_id \<times> string option) list"

definition login_route ::
    "auth_config \<Rightarrow> (string \<Rightarrow> string \<Rightarrow> bool) \<Rightarrow> (socket \<Rightarrow> bool) \<Rightarrow> broadcaster option \<Rightarrow> bool \<Rightarrow> login_draws \<Rightarrow> login_body option
      \<Rightarrow> device_row table \<times> auth_row option \<Rightarrow> login_result reply \<times> (device_row table \<times> auth_row option) \<times> auth_effect list" where
  "login_route cfg matches is_open ws wakes draws body s =
     (case login_issues body of
        i # is \<Rightarrow> (Error_Reply 400 (Details (i # is)), s, [])
      | [] \<Rightarrow>
          let name = text_of (lb_device_name (the body)) in
          (case login cfg matches (text_of (lb_password (the body))) name (name = ''Web Browser'') draws
              \<lparr> st_auth = snd s, st_devices = fst s \<rparr> of
             (Inl _, a) \<Rightarrow> (Error_Reply 500 Thrown, (st_devices a, st_auth a), [])
           | (Inr (Login_Ok token device topic), a) \<Rightarrow>
               (Reply 200 (Login_Ok token device topic), (st_devices a, st_auth a),
                (case ws of None \<Rightarrow> [] | Some b \<Rightarrow> map To_Socket (broadcast_except is_open device ''new_device_login'' b))
                @ (let others = filter (\<lambda>(d, _). d \<noteq> device) (get_active_devices_with_push_info (st_devices a)) in
                   if wakes \<and> 0 < length others then [Wake_Devices others] else []))
           | (Inr (Login_Locked until), a) \<Rightarrow> (Reply 423 (Login_Locked until), (st_devices a, st_auth a), [])
           | (Inr r, a) \<Rightarrow> (Reply 401 r, (st_devices a, st_auth a), [])))"

definition logout_route ::
    "string \<Rightarrow> http_request \<Rightarrow> device_row table \<times> auth_row option \<Rightarrow> string reply \<times> (device_row table \<times> auth_row option) \<times> auth_effect list" where
  "logout_route random r s =
     (case bearer_token (rq_authorization r) of
        None \<Rightarrow> (Error_Reply 401 (Message ''Missing or invalid authorization header''), s, [])
      | Some token \<Rightarrow> (case logout token random \<lparr> st_auth = snd s, st_devices = fst s \<rparr> of
          (Inl _, a) \<Rightarrow> (Error_Reply 500 Thrown, (st_devices a, st_auth a), [])
        | (Inr False, a) \<Rightarrow> (Error_Reply 401 (Message ''Invalid or already expired session''), (st_devices a, st_auth a), [])
        | (Inr True, a) \<Rightarrow> (Reply 200 ''Logged out successfully'', (st_devices a, st_auth a), [])))"

record password_body =
  pb_current :: json_field
  pb_new :: json_field
  pb_confirm :: json_field

definition change_password_issues :: "password_body option \<Rightarrow> body_issue list" where
  "change_password_issues body = (case body of
       None \<Rightarrow> [Body_Required]
     | Some b \<Rightarrow> text_issues (at_least_one ''Current password is required'') (pb_current b)
         @ text_issues (at_least_one ''New password is required'') (pb_new b)
         @ text_issues (at_least_one ''Password confirmation is required'') (pb_confirm b))"

text \<open>\<open>matches\<close> and \<open>hash\<close> are the comparison and the hash of \<^verbatim>\<open>bcrypt\<close>.\<close>

definition change_password_route ::
    "(string \<Rightarrow> string \<Rightarrow> bool) \<Rightarrow> (string \<Rightarrow> nat \<Rightarrow> string) \<Rightarrow> password_body option
      \<Rightarrow> device_row table \<times> auth_row option \<Rightarrow> string reply \<times> (device_row table \<times> auth_row option) \<times> auth_effect list" where
  "change_password_route matches hash body s =
     (case change_password_issues body of
        i # is \<Rightarrow> (Error_Reply 400 (Details (i # is)), s, [])
      | [] \<Rightarrow>
          let a = \<lparr> st_auth = snd s, st_devices = fst s \<rparr>; new = text_of (pb_new (the body)) in
          (case get_auth a of
             None \<Rightarrow> (Error_Reply 500 (Message ''Authentication not configured''), s, [])
           | Some password_hash \<Rightarrow>
               if \<not> matches (text_of (pb_current (the body))) password_hash
               then (Error_Reply 401 (Message ''Current password is incorrect''), s, [])
               else (case validate_password (js new) of
                   Invalid e \<Rightarrow> (Error_Reply 400 (Message e), s, [])
                 | Valid \<Rightarrow>
                     if new \<noteq> text_of (pb_confirm (the body))
                     then (Error_Reply 400 (Message ''Passwords do not match''), s, [])
                     else (let a' = update_password_hash (hash_password hash new) a in
                       (Reply 200 ''Password changed successfully'', (st_devices a', st_auth a'), [])))))"

definition ws_ticket_route ::
    "session_identity option \<Rightarrow> int \<Rightarrow> int \<Rightarrow> string \<Rightarrow> ticket_service option \<Rightarrow> string reply \<times> ticket_service option" where
  "ws_ticket_route identity cleanup_now now random tickets =
     (case identity of
        None \<Rightarrow> (Error_Reply 401 (Message ''Authentication required''), tickets)
      | Some i \<Rightarrow>
          if sn_token i = [] \<or> sn_device_id i = [] then (Error_Reply 401 (Message ''Authentication required''), tickets)
          else (case tickets of
              None \<Rightarrow> (Error_Reply 503 (Message ''WebSocket ticket service unavailable''), None)
            | Some ts \<Rightarrow> (case issue_ticket (sn_token i) (sn_device_id i) cleanup_now now random ts of
                (Inl _, ts') \<Rightarrow> (Error_Reply 429 (Message ''Too many pending tickets''), Some ts')
              | (Inr ticket, ts') \<Rightarrow> (Reply 200 ticket, Some ts'))))"

section \<open>Devices\<close>

text \<open>\<open>is_uuid\<close> and \<open>is_url\<close> are the formats of the schema library.\<close>

definition device_id_issues :: "(string \<Rightarrow> bool) \<Rightarrow> string \<Rightarrow> body_issue list" where
  "device_id_issues is_uuid i = (if is_uuid i then [] else [Body_Failed ''Invalid device ID format''])"

definition list_devices_route :: "device_row table \<Rightarrow> device_info list reply" where
  "list_devices_route t = Reply 200 (list_active_devices t)"

definition register_device_route :: "(string \<Rightarrow> bool) \<Rightarrow> (json_field \<times> json_field) option \<Rightarrow> (string \<times> string) reply" where
  "register_device_route is_uuid body =
     (case (case body of
          None \<Rightarrow> [Body_Required]
        | Some (i, name) \<Rightarrow> text_issues (device_id_issues is_uuid) i
            @ text_issues (\<lambda>s. at_least_one ''Device name is required'' s @ at_most 100 ''String must contain at most 100 character(s)'' s) name) of
        i # is \<Rightarrow> Error_Reply 400 (Details (i # is))
      | [] \<Rightarrow> Reply 200 (text_of (fst (the body)), text_of (snd (the body))))"

text \<open>\<open>guard\<close> is \<open>validate_push_endpoint_url\<close> with its parser and resolver.\<close>

definition put_push_endpoint_route ::
    "(string \<Rightarrow> bool) \<Rightarrow> (string \<Rightarrow> bool) \<Rightarrow> (jstr \<Rightarrow> bool \<Rightarrow> validation_result) \<Rightarrow> bool \<Rightarrow> string \<Rightarrow> json_field option
      \<Rightarrow> device_row table \<Rightarrow> string reply \<times> device_row table" where
  "put_push_endpoint_route is_uuid is_url guard ssrf_protection i body t =
     (if device_id_issues is_uuid i \<noteq> [] then (Error_Reply 400 (Details (device_id_issues is_uuid i)), t)
      else case (case body of
          None \<Rightarrow> [Body_Required]
        | Some url \<Rightarrow> text_issues (\<lambda>s. (if is_url s then [] else [Body_Failed ''Invalid push endpoint URL''])
            @ at_most 500 ''String must contain at most 500 character(s)'' s) url) of
        e # es \<Rightarrow> (Error_Reply 400 (Details (e # es)), t)
      | [] \<Rightarrow> (case guard (js (text_of (the body))) (\<not> ssrf_protection) of
          Invalid e \<Rightarrow> (Error_Reply 400 (Message e), t)
        | Valid \<Rightarrow> (case update_push_endpoint i (Some (text_of (the body))) t of
            (True, t') \<Rightarrow> (Reply 200 ''Push endpoint registered successfully'', t')
          | (False, t') \<Rightarrow> (Error_Reply 404 (Message ''Device not found or inactive''), t'))))"

definition delete_push_endpoint_route :: "(string \<Rightarrow> bool) \<Rightarrow> string \<Rightarrow> device_row table \<Rightarrow> string reply \<times> device_row table" where
  "delete_push_endpoint_route is_uuid i t =
     (if device_id_issues is_uuid i \<noteq> [] then (Error_Reply 400 (Details (device_id_issues is_uuid i)), t)
      else (Reply 200 ''Push endpoint removed'', snd (update_push_endpoint i None t)))"

definition delete_device_route :: "(string \<Rightarrow> bool) \<Rightarrow> string \<Rightarrow> string \<Rightarrow> device_row table \<Rightarrow> string reply \<times> device_row table" where
  "delete_device_route is_uuid random i t =
     (if device_id_issues is_uuid i \<noteq> [] then (Error_Reply 400 (Details (device_id_issues is_uuid i)), t)
      else (case deactivate_device i (Some (removed_token random)) t of
          (Inl _, t') \<Rightarrow> (Error_Reply 500 Thrown, t')
        | (Inr True, t') \<Rightarrow> (Reply 200 ''Device deregistered successfully'', t')
        | (Inr False, t') \<Rightarrow> (Error_Reply 404 (Message ''Device not found or already deregistered''), t')))"

section \<open>Requests one after another\<close>

text \<open>What the routes are registered with: \<^verbatim>\<open>bcrypt\<close>, the formats of the schema library, the guard of
  push endpoints with its switch, the sockets and whether there is a publisher of wake signals.\<close>

record api_env =
  ae_config :: auth_config
  ae_web_interface :: bool
  ae_matches :: "string \<Rightarrow> string \<Rightarrow> bool"
  ae_hash :: "string \<Rightarrow> nat \<Rightarrow> string"
  ae_is_uuid :: "string \<Rightarrow> bool"
  ae_is_url :: "string \<Rightarrow> bool"
  ae_guard :: "jstr \<Rightarrow> bool \<Rightarrow> validation_result"
  ae_ssrf_protection :: bool
  ae_is_open :: "socket \<Rightarrow> bool"
  ae_sockets :: "broadcaster option"
  ae_wakes :: bool

datatype api_call =
    Call_Login login_draws "login_body option"
  | Call_Logout string
  | Call_Change_Password "password_body option"
  | Call_List_Devices
  | Call_Register_Device "(json_field \<times> json_field) option"
  | Call_Put_Endpoint string "json_field option"
  | Call_Delete_Endpoint string
  | Call_Delete_Device string string

datatype api_answer = An_Login "login_result reply" | An_Text "string reply" | An_Devices "device_info list reply" | An_Pair "(string \<times> string) reply"

definition reply_status :: "'a reply \<Rightarrow> nat" where
  "reply_status r = (case r of Reply n _ \<Rightarrow> n | Error_Reply n _ \<Rightarrow> n)"

fun answer_status :: "api_answer \<Rightarrow> nat" where
  "answer_status (An_Login r) = reply_status r"
| "answer_status (An_Text r) = reply_status r"
| "answer_status (An_Devices r) = reply_status r"
| "answer_status (An_Pair r) = reply_status r"

type_synonym api_state = "device_row table \<times> auth_row option"

fun route_call :: "api_env \<Rightarrow> http_request \<Rightarrow> api_call \<Rightarrow> api_state \<Rightarrow> api_answer \<times> api_state \<times> auth_effect list" where
  "route_call env r (Call_Login draws body) s =
     (case login_route (ae_config env) (ae_matches env) (ae_is_open env) (ae_sockets env) (ae_wakes env) draws body s of
        (a, s', es) \<Rightarrow> (An_Login a, s', es))"
| "route_call env r (Call_Logout random) s = (case logout_route random r s of (a, s', es) \<Rightarrow> (An_Text a, s', es))"
| "route_call env r (Call_Change_Password body) s =
     (case change_password_route (ae_matches env) (ae_hash env) body s of (a, s', es) \<Rightarrow> (An_Text a, s', es))"
| "route_call env r Call_List_Devices s = (An_Devices (list_devices_route (fst s)), s, [])"
| "route_call env r (Call_Register_Device body) s = (An_Pair (register_device_route (ae_is_uuid env) body), s, [])"
| "route_call env r (Call_Put_Endpoint i body) s =
     (case put_push_endpoint_route (ae_is_uuid env) (ae_is_url env) (ae_guard env) (ae_ssrf_protection env) i body (fst s) of
        (a, t) \<Rightarrow> (An_Text a, (t, snd s), []))"
| "route_call env r (Call_Delete_Endpoint i) s =
     (case delete_push_endpoint_route (ae_is_uuid env) i (fst s) of (a, t) \<Rightarrow> (An_Text a, (t, snd s), []))"
| "route_call env r (Call_Delete_Device i random) s =
     (case delete_device_route (ae_is_uuid env) random i (fst s) of (a, t) \<Rightarrow> (An_Text a, (t, snd s), []))"

definition serve :: "api_env \<Rightarrow> int \<Rightarrow> http_request \<Rightarrow> api_call \<Rightarrow> api_state \<Rightarrow> nat \<times> api_state" where
  "serve env now r c s =
     (case session_hook (ae_config env) (ae_web_interface env) now now r (fst s) of
        (Denied e, t) \<Rightarrow> (401, (t, snd s))
      | (Passed _, t) \<Rightarrow> (case route_call env r c (t, snd s) of (a, s', _) \<Rightarrow> (answer_status a, s')))"

fun serve_all :: "api_env \<Rightarrow> (int \<times> http_request \<times> api_call) list \<Rightarrow> api_state \<Rightarrow> api_state" where
  "serve_all env [] s = s"
| "serve_all env ((now, r, c) # rest) s = serve_all env rest (snd (serve env now r c s))"

subsection \<open>No request brings a token back\<close>

fun draws_token :: "string \<Rightarrow> api_call \<Rightarrow> bool" where
  "draws_token k (Call_Login draws body) \<longleftrightarrow> ld_session_token draws = k"
| "draws_token k _ \<longleftrightarrow> False"

lemma hook_keeps_tokens: "session_hook cfg w now seen r t = (check, t') \<Longrightarrow> holds_token k t' = holds_token k t"
  using holds_validate [of k cfg _ now seen t]
  by (auto simp: session_hook_def split: if_splits option.splits prod.splits) (metis snd_conv)+

lemma login_tokens:
  assumes "login cfg matches pw name skip draws s = (r, a)" "holds_token k (st_devices a)"
  shows "k = ld_session_token draws \<or> holds_token k (st_devices s)"
proof -
  have b: "st_devices (snd (login_begin now s)) = st_devices s" for now
    by (simp add: login_begin_def split: option.splits)
  have f: "holds_token k (st_devices (snd (login_finish cfg valid name skip draws auth s1))) \<Longrightarrow>
      k = ld_session_token draws \<or> holds_token k (st_devices s1)" for valid auth s1
    using holds_after_register [of k "ld_device_id draws" "ld_register_now draws" name "ld_push_topic draws"
        "ld_session_token draws" skip "st_devices s1"]
    by (auto simp: login_finish_def Let_def split: if_splits prod.splits sum.splits device_error.splits)
  show ?thesis
    using assms b [of "ld_check_now draws"] f
    by (auto simp: login_def split: prod.splits sum.splits) (metis snd_conv)+
qed

lemma endpoint_keeps_tokens: "holds_token k (snd (update_push_endpoint i url t)) = holds_token k t"
  by (simp add: update_push_endpoint_def Let_def holds_update)

lemma login_route_tokens:
  assumes "login_route cfg matches is_open ws wakes draws body s = (a, s', es)" "holds_token k (fst s')" "k \<noteq> ld_session_token draws"
  shows "holds_token k (fst s)"
proof (cases "login_issues body")
  case Nil
  obtain r u where l: "login cfg matches (text_of (lb_password (the body))) (text_of (lb_device_name (the body)))
      (text_of (lb_device_name (the body)) = ''Web Browser'') draws \<lparr> st_auth = snd s, st_devices = fst s \<rparr> = (r, u)"
    by fastforce
  have "fst s' = st_devices u"
    using assms(1) Nil l by (auto simp: login_route_def Let_def split: sum.splits login_result.splits)
  with login_tokens [OF l] assms(2,3) show ?thesis by auto
qed (use assms in \<open>simp add: login_route_def\<close>)

lemma route_tokens:
  assumes "route_call env r c s = (a, s', es)" "\<not> is_sentinel k" "\<not> draws_token k c" "holds_token k (fst s')"
  shows "holds_token k (fst s)"
proof (cases c)
  case (Call_Login draws body)
  with assms login_route_tokens show ?thesis by (auto split: prod.splits)
next
  case (Call_Logout random)
  have "k \<noteq> logged_out_token random" using assms(2) by auto
  then show ?thesis
    using assms(1,4) Call_Logout holds_after_logout [of k _ random "\<lparr> st_auth = snd s, st_devices = fst s \<rparr>"]
    by (auto simp: logout_route_def split: option.splits prod.splits sum.splits bool.splits) (metis auth_state.select_convs(2) snd_conv)+
next
  case (Call_Change_Password body)
  then show ?thesis
    using assms(1,4) by (auto simp: change_password_route_def Let_def update_password_hash_def
        split: list.splits option.splits if_splits validation_result.splits)
next
  case (Call_Put_Endpoint i body)
  then show ?thesis
    using assms(1,4) endpoint_keeps_tokens [of k i _ "fst s"]
    by (auto simp: put_push_endpoint_route_def split: if_splits list.splits validation_result.splits prod.splits bool.splits) (metis snd_conv)+
next
  case (Call_Delete_Endpoint i)
  then show ?thesis
    using assms(1,4) by (auto simp: delete_push_endpoint_route_def endpoint_keeps_tokens split: if_splits)
next
  case (Call_Delete_Device i random)
  have "k \<noteq> removed_token random" using assms(2) by auto
  then show ?thesis
    using assms(1,4) Call_Delete_Device holds_after_deregister [of k i "removed_token random" "fst s"]
    by (auto simp: delete_device_route_def split: if_splits prod.splits sum.splits bool.splits)
qed (use assms in auto)

lemma serve_tokens:
  assumes "serve env now r c s = (status, s')" "\<not> is_sentinel k" "\<not> draws_token k c" "holds_token k (fst s')"
  shows "holds_token k (fst s)"
proof -
  obtain check t where h: "session_hook (ae_config env) (ae_web_interface env) now now r (fst s) = (check, t)" by fastforce
  note kept = hook_keeps_tokens [OF h, of k]
  show ?thesis
  proof (cases check)
    case (Denied e)
    then show ?thesis using assms(1,4) h kept by (auto simp: serve_def)
  next
    case (Passed identity)
    obtain a u es where c: "route_call env r c (t, snd s) = (a, u, es)" by (cases "route_call env r c (t, snd s)")
    have "s' = u" using assms(1) h Passed c by (simp add: serve_def)
    with route_tokens [OF c assms(2,3)] assms(4) kept show ?thesis by simp
  qed
qed

lemma serve_all_tokens:
  assumes "\<not> is_sentinel k" "\<forall>(_, _, c) \<in> set xs. \<not> draws_token k c" "holds_token k (fst (serve_all env xs s))"
  shows "holds_token k (fst s)"
  using assms(2,3)
proof (induction xs arbitrary: s)
  case (Cons x xs)
  obtain now r c where x: "x = (now, r, c)" by (cases x)
  obtain status s' where s: "serve env now r c s = (status, s')" by (cases "serve env now r c s")
  show ?case using serve_tokens [OF s assms(1)] Cons x s by auto
qed simp

lemma hook_keeps_rows:
  assumes "session_hook cfg w now seen r t = (check, t')"
  shows "map (\<lambda>d. (dv_device_id d, dv_session_token d)) t' = map (\<lambda>d. (dv_device_id d, dv_session_token d)) t"
proof -
  have "map (\<lambda>d. (dv_device_id d, dv_session_token d)) (snd (validate_session cfg token now seen t))
      = map (\<lambda>d. (dv_device_id d, dv_session_token d)) t" for token
    by (simp add: validate_session_def sql_simps split: option.splits)
  then show ?thesis
    using assms by (auto simp: session_hook_def split: if_splits option.splits prod.splits) (metis snd_conv)+
qed

lemma hook_keeps_ok:
  assumes "session_hook cfg w now seen r t = (check, t')" "devices_ok t"
  shows "devices_ok t'"
proof -
  have "map dv_device_id t' = map dv_device_id t" "map dv_session_token t' = map dv_session_token t"
    using arg_cong [OF hook_keeps_rows [OF assms(1)], of "map fst"] arg_cong [OF hook_keeps_rows [OF assms(1)], of "map snd"]
    by (simp_all add: comp_def)
  then show ?thesis using assms(2) by (simp add: devices_ok_def)
qed

definition ends_session :: "string \<Rightarrow> http_request \<Rightarrow> api_call \<Rightarrow> device_row table \<Rightarrow> bool" where
  "ends_session k r c t \<longleftrightarrow> (case c of
       Call_Logout _ \<Rightarrow> bearer_token (rq_authorization r) = Some k
     | Call_Delete_Device i _ \<Rightarrow> (i, k) \<in> (\<lambda>d. (dv_device_id d, dv_session_token d)) ` set t
     | _ \<Rightarrow> False)"

lemma serve_ends_session:
  assumes "serve env now r c s = (200, s')" "ends_session k r c (fst s)" "devices_ok (fst s)" "\<not> is_sentinel k"
  shows "\<not> holds_token k (fst s')"
proof -
  obtain check t where h: "session_hook (ae_config env) (ae_web_interface env) now now r (fst s) = (check, t)" by fastforce
  with assms(1) obtain identity where i: "check = Passed identity" by (cases check) (auto simp: serve_def)
  obtain a u es where c: "route_call env r c (t, snd s) = (a, u, es)" by (cases "route_call env r c (t, snd s)")
  have su: "s' = u" "answer_status a = 200" using assms(1) h i c by (auto simp: serve_def)
  show ?thesis
  proof (cases c)
    case (Call_Logout random)
    with assms(2) have b: "bearer_token (rq_authorization r) = Some k" by (simp add: ends_session_def)
    obtain v w where l: "logout k random \<lparr> st_auth = snd s, st_devices = t \<rparr> = (v, w)" by fastforce
    have "v = Inr True" "fst u = st_devices w"
      using c su(2) Call_Logout b l
      by (auto simp: logout_route_def reply_status_def split: sum.splits bool.splits)
    then show ?thesis using logout_removes(1) [OF assms(4)] l su(1) by simp
  next
    case (Call_Delete_Device i random)
    obtain v w where l: "deactivate_device i (Some (removed_token random)) t = (v, w)" by fastforce
    have v: "v = Inr True" "fst u = w"
      using c su(2) Call_Delete_Device l
      by (auto simp: delete_device_route_def reply_status_def split: if_splits sum.splits bool.splits)
    have "(i, k) \<in> set (map (\<lambda>d. (dv_device_id d, dv_session_token d)) t)"
      using assms(2) Call_Delete_Device hook_keeps_rows [OF h] by (simp add: ends_session_def)
    then obtain d where "d \<in> set t" "dv_device_id d = i" "dv_session_token d = k" by auto
    then show ?thesis
      using deregister_removes [OF hook_keeps_ok [OF h assms(3)], of d i random True w] assms(4) l v su(1) by simp
  qed (use assms(2) in \<open>simp_all add: ends_session_def\<close>)
qed

text \<open>No path under \<^verbatim>\<open>/api/\<close> is public, but for those named.\<close>

lemma api_not_public:
  assumes "has_prefix (rq_url r) ''/api/''" "rq_url r \<notin> set PUBLIC_PATHS"
  shows "\<not> is_public w r"
proof -
  have "take 5 (rq_url r) = ''/api/''" using assms(1) by (simp add: has_prefix_def numeral_eq_Suc)
  then obtain rest where u: "rq_url r = ''/api/'' @ rest" using append_take_drop_id [of 5 "rq_url r"] by metis
  then have "has_prefix (takeWhile (\<lambda>c. c \<noteq> CHR ''?'') (rq_url r)) ''/api/''" by (simp add: has_prefix_def)
  moreover have "\<not> list_ex (has_prefix (rq_url r)) PUBLIC_PREFIXES" using u by (simp add: PUBLIC_PREFIXES_def has_prefix_def)
  ultimately show ?thesis using assms(2) by (simp add: is_public_def Let_def)
qed

text \<open>C33: Once a logout with a session token has been answered with 200, or the removal of the
  device that holds it, every later request with that token to a path under \<^verbatim>\<open>/api/\<close> other than
  the login and the version is refused with 401 and changes nothing, whatever requests of
  whatever devices come in between, as long as no login draws the same token.\<close>
theorem revoked_session_refused:
  assumes "\<not> is_sentinel k" "devices_ok (fst s)" "serve env now0 r0 c0 s = (200, s1)" "ends_session k r0 c0 (fst s)"
    and "\<forall>(_, _, c) \<in> set xs. \<not> draws_token k c"
    and "has_prefix (rq_url r) ''/api/''" "rq_url r \<notin> set PUBLIC_PATHS" "bearer_token (rq_authorization r) = Some k"
  shows "serve env now r c (serve_all env xs s1) = (401, serve_all env xs s1)"
proof -
  have "\<not> holds_token k (fst (serve_all env xs s1))"
    using serve_all_tokens [OF assms(1,5)] serve_ends_session [OF assms(3,4,2,1)] by blast
  then show ?thesis
    using api_not_public [OF assms(6,7)] assms(8) by (simp add: serve_def session_hook_def validate_absent)
qed

definition example_api :: api_env where
  "example_api = \<lparr> ae_config = auth_service_config 30 None None, ae_web_interface = True, ae_matches = (=), ae_hash = (\<lambda>s _. s),
     ae_is_uuid = (\<lambda>_. True), ae_is_url = (\<lambda>_. True), ae_guard = (\<lambda>_ _. Valid), ae_ssrf_protection = True,
     ae_is_open = (\<lambda>_. True), ae_sockets = None, ae_wakes = False \<rparr>"

definition example_request :: "string \<Rightarrow> string \<Rightarrow> http_request" where
  "example_request url token = \<lparr> rq_method = ''POST'', rq_url = url, rq_authorization = Some (''Bearer '' @ token) \<rparr>"

lemma example_request_simps:
  "bearer_token (rq_authorization (example_request url token)) = Some token" "rq_url (example_request url token) = url"
  by (simp_all add: bearer_token_def example_request_def has_prefix_def)

lemma revoked_session_refused_witness:
  "\<exists>s1. serve example_api 6 (example_request ''/api/auth/logout'' ''k'') (Call_Logout ''r'') ([example_device ''d'' ''Pixel'' ''k'' 5], None) = (200, s1)
     \<and> serve example_api 7 (example_request ''/api/devices'' ''k'') Call_List_Devices s1 = (401, s1)"
proof -
  let ?s = "([example_device ''d'' ''Pixel'' ''k'' 5], None)" and ?r0 = "example_request ''/api/auth/logout'' ''k''"
  have k: "\<not> is_sentinel ''k''" "devices_ok (fst ?s)" by (simp_all add: is_sentinel_def devices_ok_def)
  have "\<not> is_public (ae_web_interface example_api) ?r0"
    by (rule api_not_public) (simp_all add: example_request_def has_prefix_def PUBLIC_PATHS_def)
  then have "\<exists>s1. serve example_api 6 ?r0 (Call_Logout ''r'') ?s = (200, s1)"
    by (simp add: serve_def session_hook_def example_request_simps validate_session_def sql_first_def example_device_def example_api_def
        auth_service_config_def expires_at_def MS_PER_DAY_def logout_route_def logout_def Let_def sql_update_def sql_count_def reply_status_def)
  then obtain s1 where s1: "serve example_api 6 ?r0 (Call_Logout ''r'') ?s = (200, s1)" by blast
  have e: "ends_session ''k'' ?r0 (Call_Logout ''r'') (fst ?s)" by (simp add: ends_session_def example_request_simps)
  have "serve example_api 7 (example_request ''/api/devices'' ''k'') Call_List_Devices (serve_all example_api [] s1) = (401, serve_all example_api [] s1)"
    by (rule revoked_session_refused [OF k s1 e])
      (simp_all add: example_request_simps has_prefix_def PUBLIC_PATHS_def)
  with s1 show ?thesis by simp
qed

section \<open>Where the guards end\<close>

text \<open>The hook looks at the address as it was sent, the router at the decoded one: with the web
  interface enabled, a request to \<^verbatim>\<open>/%61pi/conversations\<close> passes without a session.\<close>

lemma escaped_path_public:
  "is_public True \<lparr> rq_method = ''GET'', rq_url = ''/%61pi/conversations'', rq_authorization = None \<rparr>"
  by (simp add: is_public_def PUBLIC_PATHS_def PUBLIC_PREFIXES_def STATIC_EXTENSIONS_def has_prefix_def has_suffix_def)

text \<open>A wrong current password is answered like a failed login but not counted as one, and it is
  compared while the account is locked.\<close>

lemma guess_not_counted:
  assumes "change_password_issues (Some b) = []" "\<not> ae_matches env (text_of (pb_current b)) (au_password_hash a)"
  shows "route_call env r (Call_Change_Password (Some b)) (t, Some a)
    = (An_Text (Error_Reply 401 (Message ''Current password is incorrect'')), (t, Some a), [])"
  using assms by (simp add: change_password_route_def get_auth_def)

end
