(* ===== verification/Webhook_Auth.thy ===== *)
theory Webhook_Auth
  imports Url_Guard
begin

text \<open>
  Who may call a webhook and under which name. \<^verbatim>\<open>src/routes/webhook-endpoint-aliases.ts\<close>: the
  names of the endpoints and their aliases. \<^verbatim>\<open>src/middleware/webhook-auth-middleware.ts\<close>: the
  signature check for Vonage, where the token library is a parameter (\<open>verify\<close> answers the
  claims of a token whose signature holds under a secret, \<open>decode\<close> reads a token without
  checking it), and the origin check for 46elks. Lower-casing is that of ASCII letters; no name
  or address compared here has a letter that a wider lower-casing maps to.
\<close>

section \<open>Endpoint names\<close>

definition ALIAS_GROUPS :: "jstr list list" where
  "ALIAS_GROUPS =
     [map js [''inbound-sms'', ''sms-incoming'', ''sms_incoming'', ''incoming-sms''],
      map js [''sms-status'', ''sms_status''],
      map js [''answer'', ''voice-answer'', ''voice-start'', ''voice_start''],
      map js [''event'', ''voice-event'', ''voice_event'']]"

definition EXTRA_SUPPORTED_ENDPOINTS :: "string \<Rightarrow> jstr list option" where
  "EXTRA_SUPPORTED_ENDPOINTS provider_type =
     (if provider_type = ''46elks'' then Some [js ''voice_event''] else None)"

text \<open>\<^verbatim>\<open>_\<close> is the code unit 95, \<^verbatim>\<open>-\<close> is 45.\<close>

definition canonical_key :: "jstr \<Rightarrow> jstr" where
  "canonical_key endpoint = map (\<lambda>u. if u = 95 then 45 else u) (to_lower (trim endpoint))"

definition find_alias_group_keys :: "jstr \<Rightarrow> jstr list option" where
  "find_alias_group_keys endpoint =
     (let key = canonical_key endpoint in
      map_option (map canonical_key)
        (find (list_ex (\<lambda>member. canonical_key member = key)) ALIAS_GROUPS))"

definition resolve_webhook_endpoint :: "jstr \<Rightarrow> jstr list \<Rightarrow> jstr option" where
  "resolve_webhook_endpoint requested supported =
     (if requested = [] then None
      else if requested \<in> set supported then Some requested
      else (case find_alias_group_keys requested of
          None \<Rightarrow> None
        | Some group_keys \<Rightarrow> find (\<lambda>s. canonical_key s \<in> set group_keys) supported))"

definition get_accepted_endpoints :: "string \<Rightarrow> jstr list \<Rightarrow> jstr list" where
  "get_accepted_endpoints provider_type listed =
     listed @ (case EXTRA_SUPPORTED_ENDPOINTS provider_type of None \<Rightarrow> [] | Some extras \<Rightarrow> extras)"

lemma resolve_accepted:
  "resolve_webhook_endpoint requested supported = Some e \<Longrightarrow> e \<in> set supported"
  by (auto simp: resolve_webhook_endpoint_def split: if_splits option.splits dest: find_Some_mem)

lemma resolve_native [simp]:
  "e \<in> set supported \<Longrightarrow> e \<noteq> [] \<Longrightarrow> resolve_webhook_endpoint e supported = Some e"
  by (simp add: resolve_webhook_endpoint_def)

lemma resolve_same_meaning:
  assumes "resolve_webhook_endpoint requested supported = Some e" "e \<noteq> requested"
  shows "\<exists>group \<in> set ALIAS_GROUPS. canonical_key requested \<in> canonical_key ` set group
    \<and> canonical_key e \<in> canonical_key ` set group"
proof -
  from assms obtain group where g: "find (list_ex (\<lambda>member. canonical_key member = canonical_key requested)) ALIAS_GROUPS = Some group"
    and e: "find (\<lambda>s. canonical_key s \<in> canonical_key ` set group) supported = Some e"
    by (auto simp: resolve_webhook_endpoint_def find_alias_group_keys_def Let_def split: if_splits option.splits)
  from find_Some_mem [OF g] obtain member where "group \<in> set ALIAS_GROUPS" "member \<in> set group"
    "canonical_key member = canonical_key requested" by (auto simp: list_ex_iff)
  moreover have "canonical_key e \<in> canonical_key ` set group" using find_Some_mem [OF e] by simp
  ultimately show ?thesis by (metis imageI)
qed

lemma find_alias_canonical:
  "canonical_key a = canonical_key b \<Longrightarrow> find_alias_group_keys a = find_alias_group_keys b"
  by (simp add: find_alias_group_keys_def)

lemma resolve_spelling:
  assumes "canonical_key a = canonical_key b" "a \<notin> set supported" "b \<notin> set supported" "a \<noteq> []" "b \<noteq> []"
  shows "resolve_webhook_endpoint a supported = resolve_webhook_endpoint b supported"
  using assms(2-5) find_alias_canonical [OF assms(1)] by (simp add: resolve_webhook_endpoint_def)

section \<open>The signature check\<close>

datatype verify_reason = Reason_Ok | No_Auth_Header | Not_Bearer | No_Secret | Signature_Invalid | App_Id_Mismatch

record verify_result =
  vr_ok :: bool
  vr_reason :: verify_reason
  vr_alg :: "string option"
  vr_token_api_key :: "string option"
  vr_has_app_id_claim :: "bool option"

record webhook_auth_config =
  wa_vonage_api_secret :: "jstr option"
  wa_vonage_application_id :: "jstr option"

text \<open>What \<^verbatim>\<open>jwt.decode\<close> shows: it threw, answered \<^verbatim>\<open>null\<close>, or the fields that are read.\<close>

datatype decoded_token = Decode_Threw | Decode_Null
  | Decoded_Token (token_alg: "string option") (token_api_key: "string option") (token_has_app_id: bool)

definition diagnostics :: "decoded_token \<Rightarrow> string option \<times> string option \<times> bool option" where
  "diagnostics d = (case d of
       Decode_Threw \<Rightarrow> (None, None, None)
     | Decode_Null \<Rightarrow> (None, None, Some False)
     | Decoded_Token alg key has \<Rightarrow> (alg, key, Some has))"

text \<open>\<^verbatim>\<open>!s\<close> of an optional string: absent and empty are false.\<close>

definition truthy :: "'a list option \<Rightarrow> bool" where
  "truthy s = (case s of None \<Rightarrow> False | Some t \<Rightarrow> t \<noteq> [])"

lemma truthy_simps [simp]: "\<not> truthy None" "truthy (Some t) \<longleftrightarrow> t \<noteq> []"
  by (simp_all add: truthy_def)

lemma truthy_iff: "truthy s \<longleftrightarrow> (\<exists>t. s = Some t \<and> t \<noteq> [])"
  by (cases s) auto

definition BEARER :: jstr where
  "BEARER = js ''Bearer ''"

definition verify_vonage_webhook_jwt_detailed ::
    "(jstr \<Rightarrow> decoded_token) \<Rightarrow> (jstr \<Rightarrow> jstr \<Rightarrow> jstr option option) \<Rightarrow> jstr option \<Rightarrow> webhook_auth_config \<Rightarrow> verify_result" where
  "verify_vonage_webhook_jwt_detailed decode verify auth_header config =
     (if \<not> truthy auth_header
        then \<lparr> vr_ok = False, vr_reason = No_Auth_Header, vr_alg = None, vr_token_api_key = None, vr_has_app_id_claim = None \<rparr>
      else if \<not> starts_with (the auth_header) BEARER
        then \<lparr> vr_ok = False, vr_reason = Not_Bearer, vr_alg = None, vr_token_api_key = None, vr_has_app_id_claim = None \<rparr>
      else
        let token = drop 7 (the auth_header);
            (alg, key, has_app_id) = diagnostics (decode token)
        in if \<not> truthy (wa_vonage_api_secret config)
             then \<lparr> vr_ok = False, vr_reason = No_Secret, vr_alg = alg, vr_token_api_key = key, vr_has_app_id_claim = has_app_id \<rparr>
           else (case verify token (the (wa_vonage_api_secret config)) of
               None \<Rightarrow> \<lparr> vr_ok = False, vr_reason = Signature_Invalid, vr_alg = alg, vr_token_api_key = key, vr_has_app_id_claim = has_app_id \<rparr>
             | Some application_id \<Rightarrow>
                 if truthy (wa_vonage_application_id config) \<and> application_id \<noteq> wa_vonage_application_id config
                   then \<lparr> vr_ok = False, vr_reason = App_Id_Mismatch, vr_alg = alg, vr_token_api_key = key, vr_has_app_id_claim = Some True \<rparr>
                 else \<lparr> vr_ok = True, vr_reason = Reason_Ok, vr_alg = alg, vr_token_api_key = key, vr_has_app_id_claim = has_app_id \<rparr>))"

definition verify_vonage_webhook_jwt ::
    "(jstr \<Rightarrow> decoded_token) \<Rightarrow> (jstr \<Rightarrow> jstr \<Rightarrow> jstr option option) \<Rightarrow> jstr option \<Rightarrow> webhook_auth_config \<Rightarrow> bool" where
  "verify_vonage_webhook_jwt decode verify auth_header config =
     vr_ok (verify_vonage_webhook_jwt_detailed decode verify auth_header config)"

text \<open>
  The check fails closed: it accepts exactly a bearer token whose signature holds under a
  configured secret and whose application claim is the configured one, if one is configured.
\<close>

lemma verify_ok_iff:
  "verify_vonage_webhook_jwt decode verify auth_header config \<longleftrightarrow>
     (\<exists>token secret application_id. auth_header = Some (BEARER @ token)
        \<and> wa_vonage_api_secret config = Some secret \<and> secret \<noteq> []
        \<and> verify token secret = Some application_id
        \<and> (truthy (wa_vonage_application_id config) \<longrightarrow> application_id = wa_vonage_application_id config))"
proof (cases "\<exists>token. auth_header = Some (BEARER @ token)")
  case True
  then obtain token where a: "auth_header = Some (BEARER @ token)" by blast
  have b: "starts_with (BEARER @ token) BEARER" "drop 7 (BEARER @ token) = token" "BEARER \<noteq> []"
    by (simp_all add: starts_with_def BEARER_def js_def)
  show ?thesis
    unfolding verify_vonage_webhook_jwt_def verify_vonage_webhook_jwt_detailed_def a
    using b by (auto simp: truthy_iff split: prod.splits option.splits)
next
  case False
  have "\<not> (truthy auth_header \<and> starts_with (the auth_header) BEARER)"
  proof
    assume t: "truthy auth_header \<and> starts_with (the auth_header) BEARER"
    then obtain h where h: "auth_header = Some h" by (auto simp: truthy_iff)
    then have "h = BEARER @ drop (length BEARER) h"
      using t by (metis append_take_drop_id option.sel starts_with_def)
    then show False using False h by blast
  qed
  then have "\<not> verify_vonage_webhook_jwt decode verify auth_header config"
    by (auto simp: verify_vonage_webhook_jwt_def verify_vonage_webhook_jwt_detailed_def)
  then show ?thesis using False by auto
qed

lemma verify_reason_ok:
  "vr_ok (verify_vonage_webhook_jwt_detailed decode verify auth_header config)
    \<longleftrightarrow> vr_reason (verify_vonage_webhook_jwt_detailed decode verify auth_header config) = Reason_Ok"
  by (auto simp: verify_vonage_webhook_jwt_detailed_def Let_def split: prod.splits option.splits)

lemma unsigned_fails:
  "verify = (\<lambda>_ _. None) \<Longrightarrow> \<not> verify_vonage_webhook_jwt decode verify auth_header config"
  by (simp add: verify_ok_iff)

section \<open>The origin check\<close>

definition ELKS46_DEFAULT_WEBHOOK_IPS :: "jstr list" where
  "ELKS46_DEFAULT_WEBHOOK_IPS =
     map js [''176.10.154.199'', ''85.24.146.132'', ''185.39.146.243'', ''2001:9b0:2:902::199'']"

text \<open>\<^verbatim>\<open>/^::ffff:(\d{1,3}\.\d{1,3}\.\d{1,3}\.\d{1,3})$/\<close>: the captured group.\<close>

definition is_ip_label :: "jstr \<Rightarrow> bool" where
  "is_ip_label s \<longleftrightarrow> all_digits s \<and> 1 \<le> length s \<and> length s \<le> 3"

definition v4_mapped :: "jstr \<Rightarrow> jstr option" where
  "v4_mapped s =
     (if starts_with s (js ''::ffff:'') \<and> length (split_on 46 (drop 7 s)) = 4
         \<and> list_all is_ip_label (split_on 46 (drop 7 s))
      then Some (drop 7 s) else None)"

definition normalize_ip :: "jstr \<Rightarrow> jstr" where
  "normalize_ip ip =
     (let trimmed = to_lower (trim ip) in
      case v4_mapped trimmed of Some v4 \<Rightarrow> v4 | None \<Rightarrow> trimmed)"

definition verify_elks46_webhook_origin :: "jstr option \<Rightarrow> jstr list option \<Rightarrow> bool" where
  "verify_elks46_webhook_origin request_ip allowlist =
     (if \<not> truthy request_ip then False
      else
        let entries = (case allowlist of Some l \<Rightarrow> if 0 < length l then l else ELKS46_DEFAULT_WEBHOOK_IPS
              | None \<Rightarrow> ELKS46_DEFAULT_WEBHOOK_IPS);
            normalized_request = normalize_ip (the request_ip)
        in list_ex (\<lambda>entry. normalize_ip entry = normalized_request) entries)"

text \<open>
  A value of the stored configuration where a list of addresses is expected: an array of
  strings, a string, or anything else. \<^verbatim>\<open>split(/[\s,]+/)\<close> cuts at runs of separators; 44 is
  the comma.
\<close>

datatype ip_list_value = Ip_Array "jstr list" | Ip_Text jstr | Ip_Other

definition is_list_sep :: "nat \<Rightarrow> bool" where
  "is_list_sep u \<longleftrightarrow> is_space u \<or> u = 44"

fun split_list_seps :: "bool \<Rightarrow> jstr \<Rightarrow> jstr list" where
  "split_list_seps in_sep [] = [[]]"
| "split_list_seps in_sep (u # s) =
     (if is_list_sep u then (if in_sep then split_list_seps True s else [] # split_list_seps True s)
      else (case split_list_seps False s of [] \<Rightarrow> [[u]] | p # ps \<Rightarrow> (u # p) # ps))"

definition parse_elks46_ip_allowlist :: "ip_list_value \<Rightarrow> jstr list" where
  "parse_elks46_ip_allowlist value = (case value of
       Ip_Array vs \<Rightarrow> filter (\<lambda>v. 0 < length v) (map trim vs)
     | Ip_Text t \<Rightarrow> filter (\<lambda>v. 0 < length v) (map trim (split_list_seps False t))
     | Ip_Other \<Rightarrow> [])"

subsection \<open>Addresses\<close>

lemma to_lower_digits: "list_all (\<lambda>u. is_digit u \<or> u = 46 \<or> u = 58) s \<Longrightarrow> to_lower s = s"
  by (induction s) (auto simp: to_lower_def is_upper_def is_digit_def)

lemma dotted_chars: "list_all (\<lambda>u. is_digit u \<or> u = 46 \<or> u = 58) (dotted a b c d)"
proof -
  have "list_all (\<lambda>u. is_digit u \<or> u = 46 \<or> u = 58) (dec n)" for n
    using all_digits_dec [of n] by (auto simp: all_digits_def list_all_iff)
  then show ?thesis by (simp add: dotted_def)
qed

lemma dotted_solid: "edges_solid (dotted a b c d)"
proof -
  obtain u t where a: "dec a = u # t" by (cases "dec a") auto
  obtain v w where d: "dec d = w @ [v]" by (cases "dec d" rule: rev_cases) auto
  have "is_digit u" "is_digit v" using all_digits_dec [of a] all_digits_dec [of d] a d by auto
  then show ?thesis by (simp add: dotted_def a d edges_solid_def digit_not_space)
qed

lemma dec_label: "n \<le> 255 \<Longrightarrow> is_ip_label (dec n)"
proof -
  assume n: "n \<le> 255"
  have "length (dec n) \<le> 3"
    using n by (subst dec.simps, subst dec.simps, subst dec.simps) auto
  moreover have "1 \<le> length (dec n)" by (cases "dec n") auto
  ultimately show ?thesis by (simp add: is_ip_label_def)
qed

lemma normalize_dotted [simp]: "normalize_ip (dotted a b c d) = dotted a b c d"
proof -
  have "\<not> starts_with (dotted a b c d) (js ''::ffff:'')"
  proof
    assume "starts_with (dotted a b c d) (js ''::ffff:'')"
    then have "58 \<in> set (take (length (js ''::ffff:'')) (dotted a b c d))"
      by (simp add: starts_with_def js_def)
    then show False using no_colon_dotted in_set_takeD by metis
  qed
  then show ?thesis
    by (simp add: normalize_ip_def v4_mapped_def trim_solid dotted_solid to_lower_digits dotted_chars)
qed

lemma normalize_mapped:
  assumes "a \<le> 255" "b \<le> 255" "c \<le> 255" "d \<le> 255"
  shows "normalize_ip (js ''::ffff:'' @ dotted a b c d) = dotted a b c d"
proof -
  let ?m = "js ''::ffff:'' @ dotted a b c d"
  have "dotted a b c d \<noteq> []" by (simp add: dotted_def)
  then have "last ?m = last (dotted a b c d)" "?m = 58 # tl ?m" by (auto simp: js_def)
  moreover have "\<not> is_space (last (dotted a b c d))"
    using dotted_solid [of a b c d] \<open>dotted a b c d \<noteq> []\<close> by (auto simp: edges_solid_def split: list.splits)
  ultimately have "edges_solid ?m" by (auto simp: edges_solid_def is_space_def js_def)
  moreover have "to_lower ?m = ?m"
    using to_lower_digits [OF dotted_chars, of a b c d] by (simp add: to_lower_def js_def is_upper_def)
  moreover have "v4_mapped ?m = Some (dotted a b c d)"
  proof -
    have "starts_with ?m (js ''::ffff:'')" "drop 7 ?m = dotted a b c d"
      by (simp_all add: starts_with_def js_def)
    moreover have "split_on 46 (dotted a b c d) = [dec a, dec b, dec c, dec d]"
      by (simp add: dotted_def split_on_app split_on_none dec_no_dot)
    ultimately show ?thesis using assms by (simp add: v4_mapped_def dec_label)
  qed
  ultimately show ?thesis by (simp add: normalize_ip_def trim_solid)
qed

subsection \<open>Lists of addresses\<close>

definition is_entry :: "jstr \<Rightarrow> bool" where
  "is_entry e \<longleftrightarrow> e \<noteq> [] \<and> list_all (\<lambda>u. \<not> is_list_sep u) e"

text \<open>Entries separated by a comma and a space.\<close>

fun comma_list :: "jstr list \<Rightarrow> jstr" where
  "comma_list [] = []"
| "comma_list [e] = e"
| "comma_list (e # f # es) = e @ 44 # 32 # comma_list (f # es)"

lemma split_entry_sep:
  "e \<noteq> [] \<Longrightarrow> list_all (\<lambda>u. \<not> is_list_sep u) e \<Longrightarrow> is_list_sep u
    \<Longrightarrow> split_list_seps b (e @ u # s) = e # split_list_seps True s"
proof (induction e arbitrary: b)
  case (Cons x e)
  then show ?case by (cases e) auto
qed simp

lemma split_entry_end:
  "e \<noteq> [] \<Longrightarrow> list_all (\<lambda>u. \<not> is_list_sep u) e \<Longrightarrow> split_list_seps b e = [e]"
proof (induction e arbitrary: b)
  case (Cons x e)
  then show ?case by (cases e) auto
qed simp

lemma split_comma_list:
  "es \<noteq> [] \<Longrightarrow> list_all is_entry es \<Longrightarrow> split_list_seps b (comma_list es) = es"
proof (induction es arbitrary: b rule: comma_list.induct)
  case (3 e f es)
  have "is_list_sep 44" "is_list_sep 32" by (simp_all add: is_list_sep_def is_space_def)
  then show ?case using 3 by (simp add: is_entry_def split_entry_sep)
qed (auto simp: is_entry_def split_entry_end)

lemma entry_solid: "is_entry e \<Longrightarrow> trim e = e"
  by (rule trim_solid) (auto simp: is_entry_def edges_solid_def is_list_sep_def list_all_iff split: list.splits)

lemma parse_comma_list:
  assumes "list_all is_entry es"
  shows "parse_elks46_ip_allowlist (Ip_Text (comma_list es)) = es"
proof (cases "es = []")
  case True
  then show ?thesis by (simp add: parse_elks46_ip_allowlist_def trim_def)
next
  case False
  have "map trim es = es" using assms by (simp add: list_all_iff entry_solid map_idI)
  moreover have "filter (\<lambda>v. 0 < length v) es = es"
    using assms by (simp add: list_all_iff is_entry_def filter_id_conv)
  ultimately show ?thesis
    using split_comma_list [OF False assms] by (simp add: parse_elks46_ip_allowlist_def)
qed

lemma dotted_entry: "is_entry (dotted a b c d)"
proof -
  have "(is_digit u \<or> u = 46 \<or> u = 58) \<longrightarrow> \<not> is_list_sep u" for u
    by (auto simp: is_list_sep_def is_space_def is_digit_def)
  then have "list_all (\<lambda>u. \<not> is_list_sep u) (dotted a b c d)"
    using dotted_chars [of a b c d] unfolding list_all_iff by blast
  then show ?thesis by (simp add: is_entry_def) (simp add: dotted_def)
qed

section \<open>Properties\<close>

definition quad :: "nat \<times> nat \<times> nat \<times> nat \<Rightarrow> jstr" where
  "quad q = (case q of (a, b, c, d) \<Rightarrow> dotted a b c d)"

definition octets :: "nat \<times> nat \<times> nat \<times> nat \<Rightarrow> bool" where
  "octets q \<longleftrightarrow> (case q of (a, b, c, d) \<Rightarrow> a \<le> 255 \<and> b \<le> 255 \<and> c \<le> 255 \<and> d \<le> 255)"

lemma dotted_inj: "dotted a b c d = dotted a' b' c' d' \<longleftrightarrow> a = a' \<and> b = b' \<and> c = c' \<and> d = d'"
proof
  assume "dotted a b c d = dotted a' b' c' d'"
  then have "split_on 46 (dotted a b c d) = split_on 46 (dotted a' b' c' d')" by simp
  then show "a = a' \<and> b = b' \<and> c = c' \<and> d = d'"
    by (simp add: dotted_def split_on_app split_on_none dec_no_dot dec_eq_iff)
qed simp

lemma quad_inj: "quad p = quad q \<longleftrightarrow> p = q"
  by (cases p, cases q) (simp add: quad_def dotted_inj)

lemma normalize_quad [simp]: "normalize_ip (quad q) = quad q"
  by (cases q) (simp add: quad_def)

lemma normalize_mapped_quad: "octets q \<Longrightarrow> normalize_ip (js ''::ffff:'' @ quad q) = quad q"
  by (cases q) (simp add: quad_def octets_def normalize_mapped)

text \<open>An allowlist of IPv4 addresses written by an operator, separated by commas, is read
  back entry by entry, and the origin check over it admits exactly these addresses, in plain
  form and in the IPv4-mapped form; with a non-empty list the defaults are never consulted.\<close>

theorem allowlist_is_exact:
  assumes "qs \<noteq> []" "octets q"
  shows "verify_elks46_webhook_origin (Some (quad q))
           (Some (parse_elks46_ip_allowlist (Ip_Text (comma_list (map quad qs))))) = (q \<in> set qs)
       \<and> verify_elks46_webhook_origin (Some (js ''::ffff:'' @ quad q))
           (Some (parse_elks46_ip_allowlist (Ip_Text (comma_list (map quad qs))))) = (q \<in> set qs)"
proof -
  have e: "list_all is_entry (map quad qs)" by (auto simp: list_all_iff quad_def dotted_entry split: prod.splits)
  have n: "quad q \<noteq> []" by (cases q) (simp add: quad_def dotted_def)
  have "list_ex (\<lambda>entry. normalize_ip entry = quad q) (map quad qs) \<longleftrightarrow> q \<in> set qs"
    by (auto simp: list_ex_iff quad_inj)
  then show ?thesis
    using assms n by (simp add: verify_elks46_webhook_origin_def parse_comma_list [OF e] normalize_mapped_quad)
qed

theorem allowlist_is_exact_witness:
  "verify_elks46_webhook_origin (Some (js ''::ffff:'' @ quad (10, 1, 2, 3)))
     (Some (parse_elks46_ip_allowlist (Ip_Text (comma_list (map quad [(176, 10, 154, 199), (10, 1, 2, 3)])))))
   \<and> \<not> verify_elks46_webhook_origin (Some (quad (10, 1, 2, 4)))
     (Some (parse_elks46_ip_allowlist (Ip_Text (comma_list (map quad [(176, 10, 154, 199), (10, 1, 2, 3)])))))"
  using allowlist_is_exact [of "[(176, 10, 154, 199), (10, 1, 2, 3)]" "(10, 1, 2, 3)"]
    allowlist_is_exact [of "[(176, 10, 154, 199), (10, 1, 2, 3)]" "(10, 1, 2, 4)"]
  by (simp add: octets_def)

end
