(* ===== verification/Telephony_Providers.thy ===== *)
theory Telephony_Providers
  imports Webhook_Auth
begin

text \<open>
  The cloud providers: \<^verbatim>\<open>src/providers/telephony-provider.ts\<close> (events and results),
  \<^verbatim>\<open>src/providers/ncco-builder.ts\<close>, \<^verbatim>\<open>src/providers/vonage-telephony-provider.ts\<close>,
  \<^verbatim>\<open>src/providers/elks46-telephony-provider.ts\<close> and
  \<^verbatim>\<open>src/providers/dummy-telephony-provider.ts\<close>. The Vonage library, HTTP and the file system are
  outside the sources: what they answer is an argument, what they are asked is a request. The
  events a provider emits to its listeners are a list. Dates are read by the parameter
  \<open>parse_date\<close>, which is \<open>None\<close> on an invalid date. Fields of a webhook body have the types the
  source declares for them or are absent.
\<close>

section \<open>Events and results\<close>

datatype call_state = RINGING | ANSWERED | COMPLETED | FAILED | BUSY

datatype sms_delivery_status = Sms_DELIVERED | Sms_FAILED

datatype number_capability = VOICE | SMS | MMS

datatype telephony_event =
    Incoming_Call string jstr jstr "int option"
  | Call_State_Changed string call_state "int option" "int option"
  | Incoming_Sms string jstr jstr jstr "int option"
  | Sms_Status_Update string sms_delivery_status

record sms_result =
  sr_message_id :: string
  sr_success :: bool
  sr_error_reason :: "jstr option"

record provider_number =
  pn_number :: jstr
  pn_capabilities :: "number_capability set"

record provider_health =
  ph_healthy :: bool
  ph_reason :: "jstr option"
  ph_auth_failure :: bool

text \<open>
  The body of a webhook request: the fields the handlers read from it. The query of a request
  has the same form. \<open>orelse\<close> is \<^verbatim>\<open>??\<close>.
\<close>

record webhook_body =
  wb_uuid :: "string option"
  wb_message_uuid :: "string option"
  wb_message_id :: "string option"
  wb_callid :: "string option"
  wb_id :: "string option"
  wb_status :: "string option"
  wb_state :: "string option"
  wb_direction :: "string option"
  wb_endpoint_type :: "string option"
  wb_from :: "jstr option"
  wb_to :: "jstr option"
  wb_msisdn :: "jstr option"
  wb_text :: "jstr option"
  wb_message :: "jstr option"
  wb_custom_data :: "jstr option"
  wb_from_user :: "jstr option"
  wb_timestamp :: "jstr option"
  wb_duration :: "jstr option"
  wb_seconds :: "int option"

definition no_fields :: webhook_body where
  "no_fields = \<lparr> wb_uuid = None, wb_message_uuid = None, wb_message_id = None, wb_callid = None, wb_id = None,
     wb_status = None, wb_state = None, wb_direction = None, wb_endpoint_type = None, wb_from = None, wb_to = None,
     wb_msisdn = None, wb_text = None, wb_message = None, wb_custom_data = None, wb_from_user = None,
     wb_timestamp = None, wb_duration = None, wb_seconds = None \<rparr>"

definition orelse :: "'a option \<Rightarrow> 'a \<Rightarrow> 'a" where
  "orelse x d = (case x of None \<Rightarrow> d | Some y \<Rightarrow> y)"

lemma orelse_simps [simp]: "orelse None d = d" "orelse (Some y) d = y"
  by (simp_all add: orelse_def)

definition with_plus :: "jstr \<Rightarrow> jstr" where
  "with_plus n = (if starts_with n [43] then n else [43] @ n)"

lemma with_plus_starts [simp]: "starts_with (with_plus n) [43]"
  by (simp add: with_plus_def)

lemma with_plus_idem [simp]: "with_plus (with_plus n) = with_plus n"
  by (simp add: with_plus_def)

section \<open>Call control objects\<close>

datatype ncco_endpoint = Phone_Endpoint jstr | Sip_Endpoint jstr

record ncco_connect =
  nc_endpoint :: "ncco_endpoint list"
  nc_from :: "jstr option"
  nc_event_url :: "jstr list option"

datatype ncco_action =
    Ncco_Connect ncco_connect
  | Ncco_Talk jstr bool "nat option" "jstr option"

definition build_outbound_call_ncco :: "jstr \<Rightarrow> jstr \<Rightarrow> jstr option \<Rightarrow> ncco_action list" where
  "build_outbound_call_ncco to from event_url =
     [Ncco_Connect \<lparr> nc_endpoint = [Phone_Endpoint to], nc_from = Some from,
        nc_event_url = (if truthy event_url then Some [the event_url] else None) \<rparr>]"

definition build_sip_connect_ncco :: "jstr \<Rightarrow> jstr option \<Rightarrow> jstr option \<Rightarrow> ncco_action list" where
  "build_sip_connect_ncco sip_uri from event_url =
     [Ncco_Connect \<lparr> nc_endpoint = [Sip_Endpoint sip_uri], nc_from = (if truthy from then from else None),
        nc_event_url = (if truthy event_url then Some [the event_url] else None) \<rparr>]"

section \<open>Vonage\<close>

definition map_vonage_status_to_call_state :: "string \<Rightarrow> call_state option" where
  "map_vonage_status_to_call_state status =
     (if status = ''started'' \<or> status = ''ringing'' then Some RINGING
      else if status = ''answered'' then Some ANSWERED
      else if status = ''completed'' then Some COMPLETED
      else if status = ''busy'' \<or> status = ''rejected'' then Some BUSY
      else if status = ''failed'' \<or> status = ''cancelled'' \<or> status = ''timeout'' \<or> status = ''unanswered'' then Some FAILED
      else None)"

definition map_vonage_sms_status :: "string \<Rightarrow> sms_delivery_status option" where
  "map_vonage_sms_status status =
     (if status = ''delivered'' then Some Sms_DELIVERED
      else if status = ''failed'' \<or> status = ''rejected'' \<or> status = ''undeliverable'' then Some Sms_FAILED
      else None)"

fun js_includes :: "jstr \<Rightarrow> jstr \<Rightarrow> bool" where
  "js_includes [] p = (p = [])"
| "js_includes (u # s) p = (starts_with (u # s) p \<or> js_includes s p)"

text \<open>
  A thrown object: whether it is an \<^verbatim>\<open>Error\<close>, the status codes it may carry as numbers and its
  message, when a string. Anything else that is thrown is \<^const>\<open>None\<close>.
\<close>

record thrown_error =
  te_is_error :: bool
  te_status_code :: "int option"
  te_status :: "int option"
  te_response_status :: "int option"
  te_message :: "jstr option"

definition first_nonzero :: "int option list \<Rightarrow> int option" where
  "first_nonzero xs = (case find (\<lambda>x. x \<noteq> None \<and> x \<noteq> Some 0) xs of None \<Rightarrow> None | Some x \<Rightarrow> x)"

definition is_vonage_auth_error :: "thrown_error option \<Rightarrow> bool" where
  "is_vonage_auth_error error = (case error of
       None \<Rightarrow> False
     | Some err \<Rightarrow>
         let status = first_nonzero [te_status_code err, te_status err, te_response_status err] in
         if status = Some 401 \<or> status = Some 403 then True
         else let message = to_lower (orelse (te_message err) []) in
           js_includes message (js ''unauthor'') \<or> js_includes message (js ''invalid credentials'')
           \<or> js_includes message (js ''authentication failed''))"

record vonage_config =
  vc_application_id :: jstr
  vc_private_key :: "jstr option"
  vc_private_key_path :: "jstr option"
  vc_webhook_base_url :: jstr
  vc_supports_sips :: "bool option"

text \<open>The instance: the key it loaded and whether its two clients exist (they come and go together).\<close>

record vonage_provider =
  vp_config :: vonage_config
  vp_private_key :: "jstr option"
  vp_clients :: bool

definition new_vonage_provider :: "vonage_config \<Rightarrow> vonage_provider" where
  "new_vonage_provider config = \<lparr> vp_config = config, vp_private_key = None, vp_clients = False \<rparr>"

definition vonage_supports_sips :: "vonage_provider \<Rightarrow> bool" where
  "vonage_supports_sips p = orelse (vc_supports_sips (vp_config p)) True"

datatype provider_error = Not_Started | No_Key | File_Error | Api_Error jstr | Http_Status int

definition vonage_start :: "jstr option \<Rightarrow> vonage_provider \<Rightarrow> provider_error option \<times> vonage_provider" where
  "vonage_start file p =
     (if truthy (vc_private_key (vp_config p))
        then (None, p\<lparr> vp_private_key := vc_private_key (vp_config p), vp_clients := True \<rparr>)
      else if truthy (vc_private_key_path (vp_config p)) then
        (case file of None \<Rightarrow> (Some File_Error, p)
         | Some key \<Rightarrow> (None, p\<lparr> vp_private_key := Some key, vp_clients := True \<rparr>))
      else (Some No_Key, p))"

definition vonage_stop :: "vonage_provider \<Rightarrow> vonage_provider" where
  "vonage_stop p = p\<lparr> vp_private_key := None, vp_clients := False \<rparr>"

datatype provider_request =
    Create_Outbound_Call jstr jstr "ncco_action list" jstr
  | Put_Hangup string
  | Send_Message jstr jstr jstr
  | Post_Call jstr jstr jstr jstr
  | Delete_Call string
  | Post_Sms jstr jstr jstr
  | Later_Incoming_Sms jstr jstr jstr

definition vonage_event_url :: "vonage_config \<Rightarrow> jstr" where
  "vonage_event_url config = vc_webhook_base_url config @ js ''/webhooks/event''"

text \<open>\<open>made\<close>: the identifier the library answers, or the message of what it throws.\<close>

definition vonage_make_call ::
    "(jstr + string) \<Rightarrow> jstr \<Rightarrow> jstr \<Rightarrow> jstr option \<Rightarrow> vonage_provider \<Rightarrow> (provider_error + string) \<times> provider_request list" where
  "vonage_make_call made from to sip_uri p =
     (if \<not> vp_clients p then (Inl Not_Started, [])
      else
        let event_url = vonage_event_url (vp_config p);
            ncco = (if truthy sip_uri then build_sip_connect_ncco (the sip_uri) (Some from) (Some event_url)
              else build_outbound_call_ncco to from (Some event_url))
        in (case made of Inl e \<Rightarrow> Inl (Api_Error e) | Inr uuid \<Rightarrow> Inr uuid,
            [Create_Outbound_Call to from ncco event_url]))"

text \<open>
  The answer of an HTTP request: it failed on the network, it had an error status, or it was
  fine with its content.
\<close>

datatype 'a http_answer = Network_Error jstr | Status_Error int jstr | Http_Ok 'a

definition vonage_end_call ::
    "unit http_answer \<Rightarrow> string \<Rightarrow> vonage_provider \<Rightarrow> provider_error option \<times> provider_request list" where
  "vonage_end_call answer call_id p =
     (if \<not> truthy (vp_private_key p) then (Some Not_Started, [])
      else (case answer of Network_Error e \<Rightarrow> Some (Api_Error e) | Status_Error n _ \<Rightarrow> Some (Http_Status n) | Http_Ok _ \<Rightarrow> None,
            [Put_Hangup call_id]))"

definition vonage_send_sms ::
    "(jstr + string) \<Rightarrow> jstr \<Rightarrow> jstr \<Rightarrow> jstr \<Rightarrow> vonage_provider \<Rightarrow> (provider_error + sms_result) \<times> provider_request list" where
  "vonage_send_sms sent from to body p =
     (if \<not> vp_clients p then (Inl Not_Started, [])
      else (Inr (case sent of
            Inr uuid \<Rightarrow> \<lparr> sr_message_id = uuid, sr_success = True, sr_error_reason = None \<rparr>
          | Inl e \<Rightarrow> \<lparr> sr_message_id = '''', sr_success = False, sr_error_reason = Some e \<rparr>),
          [Send_Message from to body]))"

definition vonage_capability :: "string \<Rightarrow> number_capability option" where
  "vonage_capability f = (if f = ''SMS'' then Some SMS else if f = ''VOICE'' then Some VOICE
     else if f = ''MMS'' then Some MMS else None)"

definition vonage_list_numbers :: "(jstr \<times> string list option) list option \<Rightarrow> provider_number list" where
  "vonage_list_numbers response =
     map (\<lambda>(msisdn, features). \<lparr> pn_number = [43] @ msisdn,
         pn_capabilities = set (List.map_filter vonage_capability (orelse features [])) \<rparr>) (orelse response [])"

definition vonage_check_health :: "(thrown_error option + unit) \<Rightarrow> provider_health" where
  "vonage_check_health answer = (case answer of
       Inr _ \<Rightarrow> \<lparr> ph_healthy = True, ph_reason = None, ph_auth_failure = False \<rparr>
     | Inl error \<Rightarrow> \<lparr> ph_healthy = False,
         ph_reason = Some (js ''Vonage API check failed: '' @ (case error of None \<Rightarrow> js ''unknown error''
            | Some err \<Rightarrow> if te_is_error err then orelse (te_message err) [] else js ''unknown error'')),
         ph_auth_failure = is_vonage_auth_error error \<rparr>)"

definition vonage_webhook_endpoints :: "jstr list" where
  "vonage_webhook_endpoints = map js [''answer'', ''event'', ''inbound-sms'', ''sms-status'']"

definition generate_answer_ncco :: "jstr \<Rightarrow> jstr \<Rightarrow> bool \<Rightarrow> jstr option \<Rightarrow> jstr option \<Rightarrow> ncco_action list" where
  "generate_answer_ncco from to outbound sip_uri event_url =
     (if truthy sip_uri then build_sip_connect_ncco (the sip_uri) (Some from) event_url
      else if outbound then build_outbound_call_ncco to from event_url
      else [Ncco_Talk (js '' '') False (Some 0) None])"

text \<open>\<open>json\<close>: the \<^verbatim>\<open>from\<close> and \<^verbatim>\<open>to\<close> of a JSON object, \<open>None\<close> when \<^verbatim>\<open>JSON.parse\<close> throws.\<close>

definition custom_numbers ::
    "(jstr \<Rightarrow> (jstr option \<times> jstr option) option) \<Rightarrow> jstr option \<Rightarrow> jstr \<Rightarrow> jstr \<Rightarrow> jstr \<times> jstr" where
  "custom_numbers json custom_data from to =
     (if truthy custom_data then
        (case json (the custom_data) of
           None \<Rightarrow> (from, to)
         | Some (f, t) \<Rightarrow> (if truthy f then the f else from, if truthy t then the t else to))
      else (from, to))"

definition generate_answer_ncco_from_webhook ::
    "(jstr \<Rightarrow> (jstr option \<times> jstr option) option) \<Rightarrow> webhook_body \<Rightarrow> jstr option \<Rightarrow> ncco_action list" where
  "generate_answer_ncco_from_webhook json body sip_uri =
     (let from = orelse (wb_from body) []; to = orelse (wb_to body) [] in
      if truthy (wb_custom_data body) \<or> truthy (wb_from_user body) then
        let (call_from, call_to) = custom_numbers json (wb_custom_data body) from to
        in generate_answer_ncco call_from call_to True sip_uri None
      else if wb_direction body = Some ''outbound'' then generate_answer_ncco from to True sip_uri None
      else generate_answer_ncco from to False sip_uri None)"

definition event_time :: "(jstr \<Rightarrow> int option) \<Rightarrow> int \<Rightarrow> jstr option \<Rightarrow> int option" where
  "event_time parse_date now timestamp =
     (if truthy timestamp then parse_date (the timestamp) else Some now)"

definition vonage_process_call_event :: "(jstr \<Rightarrow> int option) \<Rightarrow> int \<Rightarrow> webhook_body \<Rightarrow> telephony_event list" where
  "vonage_process_call_event parse_date now d =
     (if \<not> truthy (wb_uuid d) \<or> \<not> truthy (wb_status d) then []
      else
        let call_id = the (wb_uuid d); status = the (wb_status d);
            timestamp = event_time parse_date now (wb_timestamp d)
        in if status = ''started'' \<and> wb_direction d = Some ''inbound''
             then [Incoming_Call call_id (orelse (wb_from d) []) (orelse (wb_to d) []) timestamp]
           else (case map_vonage_status_to_call_state status of
               None \<Rightarrow> []
             | Some state \<Rightarrow> [Call_State_Changed call_id state timestamp
                 (if truthy (wb_duration d) then parse_int (the (wb_duration d)) else None)]))"

definition vonage_process_sms_event :: "(jstr \<Rightarrow> int option) \<Rightarrow> int \<Rightarrow> webhook_body \<Rightarrow> telephony_event list" where
  "vonage_process_sms_event parse_date now d =
     (if \<not> truthy (wb_message_uuid d) \<or> \<not> truthy (wb_from d) \<or> \<not> truthy (wb_to d) then []
      else [Incoming_Sms (the (wb_message_uuid d)) (normalize_inbound_number (the (wb_from d)))
              (with_plus (the (wb_to d))) (orelse (wb_text d) []) (event_time parse_date now (wb_timestamp d))])"

definition vonage_process_sms_status_event :: "webhook_body \<Rightarrow> telephony_event list" where
  "vonage_process_sms_status_event d =
     (if \<not> truthy (wb_message_uuid d) \<or> \<not> truthy (wb_status d) then []
      else (case map_vonage_sms_status (the (wb_status d)) of
          None \<Rightarrow> []
        | Some status \<Rightarrow> [Sms_Status_Update (the (wb_message_uuid d)) status]))"

definition is_internal_sdk_leg :: "webhook_body \<Rightarrow> bool" where
  "is_internal_sdk_leg d = (case wb_to d of None \<Rightarrow> False | Some t \<Rightarrow> starts_with t (js ''device-''))"

datatype webhook_answer = Empty_Object | Ncco_Answer "ncco_action list"
  | Connect_Answer jstr jstr "jstr option" | Reject_Answer | Accepted_Answer

definition vonage_handle_webhook ::
    "(jstr \<Rightarrow> (jstr option \<times> jstr option) option) \<Rightarrow> (jstr \<Rightarrow> int option) \<Rightarrow> int \<Rightarrow> jstr \<Rightarrow> webhook_body \<Rightarrow> jstr option
      \<Rightarrow> webhook_answer \<times> telephony_event list" where
  "vonage_handle_webhook json parse_date now endpoint body sip_uri =
     (if endpoint = js ''answer'' then (Ncco_Answer (generate_answer_ncco_from_webhook json body sip_uri), [])
      else if endpoint = js ''event'' then
        (Empty_Object, if is_internal_sdk_leg body then [] else vonage_process_call_event parse_date now body)
      else if endpoint = js ''inbound-sms'' then (Empty_Object, vonage_process_sms_event parse_date now body)
      else if endpoint = js ''sms-status'' then (Empty_Object, vonage_process_sms_status_event body)
      else (Empty_Object, []))"

section \<open>46elks\<close>

definition map_elks46_status_to_call_state :: "string \<Rightarrow> call_state option" where
  "map_elks46_status_to_call_state status =
     (if status = ''ongoing'' then Some ANSWERED
      else if status = ''success'' then Some COMPLETED
      else if status = ''failed'' then Some FAILED
      else if status = ''busy'' then Some BUSY
      else if status = ''no-answer'' then Some FAILED
      else None)"

record elks46_config =
  ec_webhook_base_url :: jstr
  ec_registry_id :: "jstr option"
  ec_websocket_number :: "jstr option"

record elks46_provider =
  ep_config :: elks46_config
  ep_pending_call_sip_uris :: "(string, jstr) jmap"

definition new_elks46_provider :: "elks46_config \<Rightarrow> elks46_provider" where
  "new_elks46_provider config = \<lparr> ep_config = config, ep_pending_call_sip_uris = [] \<rparr>"

definition elks46_webhook_url :: "elks46_config \<Rightarrow> jstr \<Rightarrow> jstr" where
  "elks46_webhook_url config suffix =
     ec_webhook_base_url config @ js ''/webhooks/'' @ orelse (ec_registry_id config) (js ''46elks'') @ 47 # suffix"

definition get_hangup_webhook_url :: "elks46_config \<Rightarrow> jstr" where
  "get_hangup_webhook_url config = elks46_webhook_url config (js ''voice_event'')"

definition elks46_make_call ::
    "string http_answer \<Rightarrow> jstr \<Rightarrow> jstr \<Rightarrow> jstr option \<Rightarrow> elks46_provider
      \<Rightarrow> (provider_error + string) \<times> elks46_provider \<times> provider_request list" where
  "elks46_make_call answer from to sip_uri p =
     (let request = Post_Call from to (elks46_webhook_url (ep_config p) (js ''voice_start''))
            (elks46_webhook_url (ep_config p) (js ''voice_event''))
      in case answer of
          Network_Error e \<Rightarrow> (Inl (Api_Error e), p, [request])
        | Status_Error n _ \<Rightarrow> (Inl (Http_Status n), p, [request])
        | Http_Ok call_id \<Rightarrow> (Inr call_id,
            (if truthy sip_uri
             then p\<lparr> ep_pending_call_sip_uris := jm_set call_id (the sip_uri) (ep_pending_call_sip_uris p) \<rparr> else p),
            [request]))"

definition elks46_end_call :: "unit http_answer \<Rightarrow> string \<Rightarrow> provider_error option \<times> provider_request list" where
  "elks46_end_call answer call_id =
     (case answer of
        Network_Error e \<Rightarrow> Some (Api_Error e)
      | Status_Error n _ \<Rightarrow> if n = 404 then None else Some (Http_Status n)
      | Http_Ok _ \<Rightarrow> None, [Delete_Call call_id])"

definition elks46_send_sms :: "string http_answer \<Rightarrow> jstr \<Rightarrow> jstr \<Rightarrow> jstr \<Rightarrow> sms_result \<times> provider_request list" where
  "elks46_send_sms answer from to body =
     (case answer of
        Http_Ok message_id \<Rightarrow> \<lparr> sr_message_id = message_id, sr_success = True, sr_error_reason = None \<rparr>
      | Status_Error n text \<Rightarrow> \<lparr> sr_message_id = '''', sr_success = False,
          sr_error_reason = Some (js ''46elks SMS failed: '' @ dec (nat n) @ 32 # text) \<rparr>
      | Network_Error e \<Rightarrow> \<lparr> sr_message_id = '''', sr_success = False, sr_error_reason = Some e \<rparr>,
      [Post_Sms from to body])"

record elks46_number =
  en_number :: jstr
  en_active :: string
  en_capabilities :: "string list option"

definition elks46_capability :: "string \<Rightarrow> number_capability option" where
  "elks46_capability cap = (if cap = ''voice'' then Some VOICE else if cap = ''sms'' then Some SMS
     else if cap = ''mms'' then Some MMS else None)"

definition elks46_list_numbers ::
    "elks46_number list option http_answer \<Rightarrow> elks46_config \<Rightarrow> provider_error + provider_number list" where
  "elks46_list_numbers answer config = (case answer of
       Network_Error e \<Rightarrow> Inl (Api_Error e)
     | Status_Error n _ \<Rightarrow> Inl (Http_Status n)
     | Http_Ok data \<Rightarrow> Inr (map (\<lambda>n. \<lparr> pn_number = en_number n,
           pn_capabilities = set (List.map_filter elks46_capability (orelse (en_capabilities n) [])) \<rparr>)
         (filter (\<lambda>n. \<not> starts_with (en_number n) (js ''+4600''))
           (filter (\<lambda>n. Some (en_number n) \<noteq> ec_websocket_number config)
             (filter (\<lambda>n. en_active n = ''yes'') (orelse data []))))))"

definition elks46_check_health :: "unit http_answer \<Rightarrow> provider_health" where
  "elks46_check_health answer = (case answer of
       Http_Ok _ \<Rightarrow> \<lparr> ph_healthy = True, ph_reason = None, ph_auth_failure = False \<rparr>
     | Status_Error n _ \<Rightarrow>
         if n = 401 \<or> n = 403 then \<lparr> ph_healthy = False,
           ph_reason = Some (js ''Authentication failed ('' @ dec (nat n) @ js '')''), ph_auth_failure = True \<rparr>
         else \<lparr> ph_healthy = False, ph_reason = Some (js ''46elks API returned '' @ dec (nat n)), ph_auth_failure = False \<rparr>
     | Network_Error e \<Rightarrow> \<lparr> ph_healthy = False, ph_reason = Some (js ''46elks API unreachable: '' @ e), ph_auth_failure = False \<rparr>)"

definition elks46_webhook_endpoints :: "jstr list" where
  "elks46_webhook_endpoints = map js [''voice_start'', ''sms_incoming'']"

text \<open>The \<^verbatim>\<open>whenhangup\<close> member is absent from what the provider itself answers.\<close>

definition elks46_handle_voice_start ::
    "int \<Rightarrow> webhook_body \<Rightarrow> elks46_provider \<Rightarrow> webhook_answer \<times> elks46_provider \<times> telephony_event list" where
  "elks46_handle_voice_start now body p =
     (let call_id = orelse (wb_callid body) ''''; from = orelse (wb_from body) []; to = orelse (wb_to body) [];
          events = (if wb_direction body = Some ''incoming''
            then [Incoming_Call call_id (normalize_inbound_number from) to (Some now)] else []);
          forgotten = p\<lparr> ep_pending_call_sip_uris := jm_delete call_id (ep_pending_call_sip_uris p) \<rparr>
      in if truthy (ec_websocket_number (ep_config p))
           then (Connect_Answer (the (ec_websocket_number (ep_config p))) (if from \<noteq> [] then from else to) None, forgotten, events)
         else if truthy (jm_get (ep_pending_call_sip_uris p) call_id)
           then (Connect_Answer (the (jm_get (ep_pending_call_sip_uris p) call_id)) from None, forgotten, events)
         else (Connect_Answer to from None, p, events))"

text \<open>\<^verbatim>\<open>body.status ?? body.state\<close>; the identifier is \<^verbatim>\<open>callid\<close>, else \<^verbatim>\<open>id\<close>.\<close>

definition elks46_handle_voice_event :: "int \<Rightarrow> webhook_body \<Rightarrow> telephony_event list" where
  "elks46_handle_voice_event now body =
     (let call_id = (case wb_callid body of Some c \<Rightarrow> c | None \<Rightarrow> orelse (wb_id body) '''');
          status = (case wb_status body of Some st \<Rightarrow> Some st | None \<Rightarrow> wb_state body)
      in if call_id = '''' \<or> \<not> truthy status then []
         else (case map_elks46_status_to_call_state (the status) of
             None \<Rightarrow> []
           | Some state \<Rightarrow> [Call_State_Changed call_id state (Some now) (wb_seconds body)]))"

definition elks46_handle_sms_incoming :: "int \<Rightarrow> webhook_body \<Rightarrow> telephony_event list" where
  "elks46_handle_sms_incoming now body =
     (let message_id = orelse (wb_id body) ''''; from = orelse (wb_from body) []; to = orelse (wb_to body) [] in
      if message_id = '''' then []
      else if from = [] \<or> to = [] then []
      else [Incoming_Sms message_id (normalize_inbound_number from) to (orelse (wb_message body) []) (Some now)])"

definition elks46_handle_webhook ::
    "int \<Rightarrow> jstr \<Rightarrow> webhook_body \<Rightarrow> elks46_provider \<Rightarrow> webhook_answer \<times> elks46_provider \<times> telephony_event list" where
  "elks46_handle_webhook now endpoint body p =
     (if endpoint = js ''voice_start'' then elks46_handle_voice_start now body p
      else if endpoint = js ''voice_event'' then (Empty_Object, p, elks46_handle_voice_event now body)
      else if endpoint = js ''sms_incoming'' then (Empty_Object, p, elks46_handle_sms_incoming now body)
      else (Empty_Object, p, []))"

section \<open>The dummy provider\<close>

text \<open>
  The identifiers the provider makes up (from the clock and a random number) are arguments. The
  echo of a message is a request to run the simulation later.
\<close>

record dummy_provider =
  dp_numbers :: "jstr list"
  dp_active_simulated_calls :: "string list"

definition new_dummy_provider :: "jstr list option \<Rightarrow> dummy_provider" where
  "new_dummy_provider numbers = \<lparr> dp_numbers = orelse numbers [js ''+15550000001''], dp_active_simulated_calls = [] \<rparr>"

definition dummy_list_numbers :: "dummy_provider \<Rightarrow> provider_number list" where
  "dummy_list_numbers p = map (\<lambda>n. \<lparr> pn_number = n, pn_capabilities = {SMS, VOICE} \<rparr>) (dp_numbers p)"

definition dummy_send_sms :: "string \<Rightarrow> jstr \<Rightarrow> jstr \<Rightarrow> jstr \<Rightarrow> sms_result \<times> provider_request list" where
  "dummy_send_sms message_id from to body =
     (\<lparr> sr_message_id = message_id, sr_success = True, sr_error_reason = None \<rparr>,
      [Later_Incoming_Sms to from (js ''Echo: '' @ body)])"

definition dummy_end_call :: "string \<Rightarrow> dummy_provider \<Rightarrow> dummy_provider" where
  "dummy_end_call call_id p =
     p\<lparr> dp_active_simulated_calls := filter (\<lambda>i. i \<noteq> call_id) (dp_active_simulated_calls p) \<rparr>"

definition simulate_incoming_sms :: "string \<Rightarrow> int \<Rightarrow> jstr \<Rightarrow> jstr \<Rightarrow> jstr \<Rightarrow> telephony_event list" where
  "simulate_incoming_sms message_id now from to body = [Incoming_Sms message_id from to body (Some now)]"

definition get_primary_number :: "dummy_provider \<Rightarrow> jstr" where
  "get_primary_number p = (case dp_numbers p of [] \<Rightarrow> js ''+15550000001'' | n # _ \<Rightarrow> n)"

definition simulate_incoming_call :: "string \<Rightarrow> int \<Rightarrow> jstr \<Rightarrow> dummy_provider \<Rightarrow> dummy_provider \<times> telephony_event list" where
  "simulate_incoming_call call_id now from p =
     (p\<lparr> dp_active_simulated_calls := dp_active_simulated_calls p @ [call_id] \<rparr>,
      [Incoming_Call call_id from (get_primary_number p) (Some now)])"

definition hangup_simulated_call ::
    "string option \<Rightarrow> int \<Rightarrow> dummy_provider \<Rightarrow> string option \<times> dummy_provider \<times> telephony_event list" where
  "hangup_simulated_call call_id now p =
     (let calls = dp_active_simulated_calls p;
          target = (if truthy call_id then find (\<lambda>i. i = the call_id) calls
            else if calls = [] then None else Some (last calls))
      in if \<not> truthy target then (None, p, [])
         else (target, dummy_end_call (the target) p, [Call_State_Changed (the target) COMPLETED (Some now) None]))"

definition has_active_simulated_call :: "dummy_provider \<Rightarrow> bool" where
  "has_active_simulated_call p \<longleftrightarrow> 0 < length (dp_active_simulated_calls p)"

definition dummy_handle_webhook ::
    "string \<Rightarrow> int \<Rightarrow> jstr \<Rightarrow> webhook_body \<Rightarrow> webhook_answer \<times> telephony_event list" where
  "dummy_handle_webhook message_id now endpoint body =
     (Accepted_Answer,
      if endpoint = js ''inbound-sms'' \<and> truthy (wb_from body) \<and> truthy (wb_to body)
      then simulate_incoming_sms message_id now (the (wb_from body)) (the (wb_to body)) (orelse (wb_text body) []) else [])"

section \<open>What a provider tells\<close>

text \<open>The terminal statuses of a provider are those that end a call.\<close>

definition ended :: "call_state \<Rightarrow> bool" where
  "ended st \<longleftrightarrow> st = COMPLETED \<or> st = FAILED \<or> st = BUSY"

definition vonage_terminal_statuses :: "string list" where
  "vonage_terminal_statuses = [''completed'', ''failed'', ''busy'', ''unanswered'', ''rejected'', ''cancelled'', ''timeout'']"

lemma vonage_terminal_iff:
  "status \<in> set vonage_terminal_statuses \<longleftrightarrow> (\<exists>st. map_vonage_status_to_call_state status = Some st \<and> ended st)"
  by (auto simp: vonage_terminal_statuses_def map_vonage_status_to_call_state_def ended_def)

lemma normalize_inbound_plus: "starts_with n [43] \<Longrightarrow> normalize_inbound_number n = n"
  by (auto simp: normalize_inbound_number_def)

lemma normalize_inbound_idem [simp]: "normalize_inbound_number (normalize_inbound_number n) = normalize_inbound_number n"
  by (auto simp: normalize_inbound_number_def)

lemma sms_event_iff:
  "vonage_process_sms_event parse_date now d \<noteq> [] \<longleftrightarrow> truthy (wb_message_uuid d) \<and> truthy (wb_from d) \<and> truthy (wb_to d)"
  by (simp add: vonage_process_sms_event_def)

lemma dummy_call_ends:
  "hangup_simulated_call (Some c) now p = (Some t, p', events) \<Longrightarrow> c \<noteq> ''''
    \<Longrightarrow> t = c \<and> c \<notin> set (dp_active_simulated_calls p') \<and> events = [Call_State_Changed c COMPLETED (Some now) None]"
  by (auto simp: hangup_simulated_call_def dummy_end_call_def Let_def split: if_splits dest: find_Some_mem)

lemma dummy_call_round:
  assumes "c \<noteq> ''''" "simulate_incoming_call c now from p = (p1, es)"
  shows "has_active_simulated_call p1
    \<and> hangup_simulated_call (Some c) later p1 = (Some c, dummy_end_call c p, [Call_State_Changed c COMPLETED (Some later) None])"
proof -
  have p1: "p1 = p\<lparr> dp_active_simulated_calls := dp_active_simulated_calls p @ [c] \<rparr>"
    using assms(2) by (simp add: simulate_incoming_call_def)
  have "find (\<lambda>i. i = c) (xs @ [c]) = Some c" for xs by (induction xs) auto
  then show ?thesis
    using assms(1) by (simp add: p1 has_active_simulated_call_def hangup_simulated_call_def dummy_end_call_def)
qed

lemma pending_uri_used_once:
  assumes "\<not> truthy (ec_websocket_number (ep_config p))" "sip_uri \<noteq> []"
    and "elks46_make_call (Http_Ok c) from to (Some sip_uri) p = (Inr c, p1, rs)"
    and "wb_callid body = Some c"
    and "elks46_handle_voice_start now body p1 = (answer, p2, es)"
  shows "answer = Connect_Answer sip_uri (orelse (wb_from body) []) None \<and> jm_get (ep_pending_call_sip_uris p2) c = None"
  using assms by (auto simp: elks46_make_call_def elks46_handle_voice_start_def Let_def)

end
