(* ===== verification/Call_Routes.thy ===== *)
theory Call_Routes
  imports Http_Session Call_Story Telephony_Providers
begin

text \<open>
  \<^verbatim>\<open>src/routes/call-routes.ts\<close>: placing, answering, declining and feeding calls over HTTP, on the
  orchestrator of \<^theory_text>\<open>Orchestrator\<close> and the session hook of \<^theory_text>\<open>Http_Session\<close>. What the source asserts
  by a cast is a text or absent.
\<close>

section \<open>Helpers\<close>

text \<open>A text of code units below 256 as a string.\<close>

definition sj :: "jstr \<Rightarrow> string" where
  "sj s = map char_of s"

lemma sj_js [simp]: "sj (js s) = s"
  by (induction s) (simp_all add: sj_def js_def)

definition absent :: "string option \<Rightarrow> bool" where
  "absent f \<longleftrightarrow> f = None \<or> f = Some ''''"

definition blank :: "string \<Rightarrow> bool" where
  "blank s \<longleftrightarrow> trim (js s) = []"

text \<open>\<^verbatim>\<open>Math.max(parseInt(x ?? d, 10) || d, 1)\<close> and, with a maximum, the same within it.\<close>

definition at_least_page :: "int \<Rightarrow> string option \<Rightarrow> int" where
  "at_least_page d x =
     (let n = (case parse_int (js (orelse x (sj (dec (nat d))))) of None \<Rightarrow> d | Some n \<Rightarrow> if n = 0 then d else n) in max n 1)"

definition clamp_page :: "int \<Rightarrow> int \<Rightarrow> string option \<Rightarrow> int" where
  "clamp_page d most x = min (at_least_page d x) most"

lemma page_bounds: "1 \<le> at_least_page d x" "1 \<le> most \<Longrightarrow> 1 \<le> clamp_page d most x \<and> clamp_page d most x \<le> most"
  by (simp_all add: at_least_page_def clamp_page_def Let_def)

text \<open>\<^verbatim>\<open>s.includes(p)\<close>\<close>

definition contains_text :: "string \<Rightarrow> string \<Rightarrow> bool" where
  "contains_text s p \<longleftrightarrow> list_ex (\<lambda>i. has_prefix (drop i s) p) [0..<Suc (length s)]"

section \<open>Reading\<close>

definition active_calls_route :: "orchestrator option \<Rightarrow> active_call_view list reply" where
  "active_calls_route o' = Reply 200 (case o' of None \<Rightarrow> [] | Some s \<Rightarrow> get_all_active_calls s)"

definition call_history_route :: "string option \<Rightarrow> string option \<Rightarrow> string option \<Rightarrow> call_entry table \<Rightarrow> paginated_history reply" where
  "call_history_route page page_size provider_number t =
     Reply 200 (get_history (of_int (at_least_page 1 page)) (of_int (clamp_page 50 100 page_size))
       (if absent provider_number then None else provider_number) t)"

section \<open>Placing a call\<close>

text \<open>What the collaborators of \<open>initiate_outbound\<close> answer.\<close>

record call_answers =
  cx_sip_tls :: bool
  cx_number :: "string + provider_entry \<times> provider"
  cx_call_id :: string
  cx_session :: session_result
  cx_made :: "string + string"
  cx_patched :: bool
  cx_now :: int

definition orchestrator_status :: "orchestrator_error \<Rightarrow> nat" where
  "orchestrator_status e = (case e of Media_Unavailable \<Rightarrow> 503 | Provider_Not_Available \<Rightarrow> 503 | Call_Not_Found _ \<Rightarrow> 503 | _ \<Rightarrow> 500)"

definition orchestrator_message :: "orchestrator_error \<Rightarrow> string" where
  "orchestrator_message e = (case e of
       Number_Error m \<Rightarrow> m
     | Media_Unavailable \<Rightarrow> ''Media service is unavailable''
     | Media_Error m \<Rightarrow> m
     | Provider_Error m \<Rightarrow> m
     | Provider_Not_Available \<Rightarrow> ''Provider not available''
     | Call_Not_Found i \<Rightarrow> ''Call '' @ i @ '' not found''
     | Numbers_Error m \<Rightarrow> m)"

type_synonym made_call = "string \<times> string \<times> string"

definition make_call_route ::
    "call_answers \<Rightarrow> (string option \<times> string option) option \<Rightarrow> session_identity option \<Rightarrow> orchestrator option
      \<Rightarrow> made_call reply \<times> orchestrator option \<times> orch_effect list" where
  "make_call_route x body identity o' =
     (case body of
        None \<Rightarrow> (Error_Reply 500 Thrown, o', [])
      | Some (from, to) \<Rightarrow>
          if absent from \<or> absent to then (Error_Reply 400 (Message ''Missing required fields: from, to''), o', [])
          else (case validate_phone_number (js (the to)) of
              Invalid e \<Rightarrow> (Error_Reply 400 (Message e), o', [])
            | Valid \<Rightarrow>
                let normalized_to = sj (normalize_to_e164 (js (the to)) (js (the from))) in
                (case o' of
                   None \<Rightarrow> (Error_Reply 503 (Message ''Call orchestration service not available''), None, [])
                 | Some s \<Rightarrow> (case identity of
                     None \<Rightarrow> (Error_Reply 401 (Message ''Authentication required''), o', [])
                   | Some i \<Rightarrow>
                       if sn_device_id i = '''' then (Error_Reply 401 (Message ''Authentication required''), o', [])
                       else (case initiate_outbound (cx_sip_tls x) (cx_number x) (cx_call_id x) (cx_session x) (cx_made x)
                           (cx_patched x) (cx_now x) (sn_device_id i) (the from) normalized_to s of
                         (Inr r, s', es) \<Rightarrow> (Reply 200 r, Some s', es)
                       | (Inl e, s', es) \<Rightarrow> (Error_Reply (orchestrator_status e) (Message (orchestrator_message e)), Some s', es))))))"

section \<open>Answering and declining\<close>

text \<open>Up to the first wait of \<^verbatim>\<open>answerCall\<close>; \<^const>\<open>Inl\<close> is a reply at once. \<^verbatim>\<open>answerCall\<close> itself does not throw.\<close>

definition answer_route ::
    "string \<Rightarrow> int \<Rightarrow> session_identity option \<Rightarrow> orchestrator option
      \<Rightarrow> (unit reply + answer_progress) \<times> orchestrator option \<times> orch_effect list" where
  "answer_route c now identity o' =
     (if blank c then (Inl (Error_Reply 400 (Message ''callId is required'')), o', [])
      else case o' of
          None \<Rightarrow> (Inl (Error_Reply 503 (Message ''Call orchestration service not available'')), None, [])
        | Some s \<Rightarrow> (case identity of
            None \<Rightarrow> (Inl (Error_Reply 401 (Message ''Authentication required'')), o', [])
          | Some i \<Rightarrow>
              if sn_device_id i = '''' then (Inl (Error_Reply 401 (Message ''Authentication required'')), o', [])
              else (case answer_begin c (sn_device_id i) now s of (p, s', es) \<Rightarrow> (Inr p, Some s', es))))"

text \<open>The reply once it is known how the answering ended.\<close>

definition answer_reply :: "answer_result \<Rightarrow> (answer_result \<Rightarrow> string) \<Rightarrow> unit reply" where
  "answer_reply r reason = (if r = Answer_Success then Reply 200 () else Error_Reply 409 (Message (reason r)))"

definition decline_route :: "string \<Rightarrow> int \<Rightarrow> orchestrator option \<Rightarrow> unit reply \<times> orchestrator option \<times> orch_effect list" where
  "decline_route c now o' =
     (if blank c then (Error_Reply 400 (Message ''callId is required''), o', [])
      else case o' of
          None \<Rightarrow> (Error_Reply 503 (Message ''Call orchestration service not available''), None, [])
        | Some s \<Rightarrow> (case end_call c (Some ''declined'') now s of (s', es) \<Rightarrow> (Reply 200 (), Some s', es)))"

section \<open>Media\<close>

text \<open>The race of the exchange with a timer of five seconds; \<open>answered\<close> is what the bridge answers,
  \<open>None\<close> when the timer wins. A call that is not tracked is reported at once.\<close>

definition WEBRTC_OFFER_TIMEOUT_MS :: int where
  "WEBRTC_OFFER_TIMEOUT_MS = 5000"

definition webrtc_offer_route ::
    "(string option \<times> string option) option \<Rightarrow> offer_result option \<Rightarrow> session_identity option \<Rightarrow> orchestrator option
      \<Rightarrow> string reply \<times> orch_effect list" where
  "webrtc_offer_route body answered identity o' =
     (case identity of
        None \<Rightarrow> (Error_Reply 401 (Message ''Authentication required''), [])
      | Some i \<Rightarrow>
          if sn_device_id i = '''' then (Error_Reply 401 (Message ''Authentication required''), [])
          else (let (sdp_offer, c) = orelse body (None, None) in
            if absent sdp_offer \<or> absent c then (Error_Reply 400 (Message ''Missing required fields: sdpOffer, callId''), [])
            else (case o' of
                None \<Rightarrow> (Error_Reply 503 (Message ''Media service unavailable''), [])
              | Some s \<Rightarrow> (case handle_webrtc_offer (orelse answered Offer_Unavailable) (the c) (the sdp_offer) s of
                    (Inl (Call_Not_Found _), es) \<Rightarrow> (Error_Reply 404 (Message ''Call not found''), es)
                  | (r, es) \<Rightarrow>
                      if answered = None
                      then (Error_Reply 504 (Message ''Signaling timeout: WebRTC offer exchange did not complete within 5s''), es)
                      else (case r of
                          Inr sdp \<Rightarrow> (Reply 200 sdp, es)
                        | Inl Media_Unavailable \<Rightarrow> (Error_Reply 503 (Message ''Media service unavailable''), es)
                        | Inl e \<Rightarrow>
                            if contains_text (orchestrator_message e) ''Signaling timeout''
                            then (Error_Reply 504 (Message ''Signaling timeout: WebRTC offer exchange did not complete within 5s''), es)
                            else (Error_Reply 500 (Message (orchestrator_message e)), es))))))"

definition DTMF_DIGIT_REGEX :: "string \<Rightarrow> bool" where
  "DTMF_DIGIT_REGEX s \<longleftrightarrow> length s = 1 \<and> s ! 0 \<in> set ''0123456789*#''"

definition dtmf_route ::
    "string \<Rightarrow> string option \<Rightarrow> session_identity option \<Rightarrow> orchestrator option \<Rightarrow> string reply \<times> orch_effect list" where
  "dtmf_route c digit identity o' =
     (if blank c then (Error_Reply 400 (Message ''callId is required''), [])
      else if absent digit \<or> \<not> DTMF_DIGIT_REGEX (the digit)
        then (Error_Reply 400 (Message ''digit is required and must be a single DTMF character (0-9, *, #)''), [])
      else case o' of
          None \<Rightarrow> (Error_Reply 503 (Message ''Call orchestration service not available''), [])
        | Some s \<Rightarrow> (case identity of
            None \<Rightarrow> (Error_Reply 401 (Message ''Authentication required''), [])
          | Some i \<Rightarrow>
              if sn_device_id i = '''' then (Error_Reply 401 (Message ''Authentication required''), [])
              else if get_active_call c s = None then (Error_Reply 404 (Message ''Call not found or already ended''), [])
              else (Reply 200 (the digit), [])))"

section \<open>Requests as steps of the orchestrator\<close>

datatype call_request =
    Rq_Make call_answers "(string option \<times> string option) option"
  | Rq_Answer string
  | Rq_Decline string

text \<open>A request on the registry of devices and the orchestrator with its running answers. An answer
  is left at its first wait, with no status yet.\<close>

definition route_call_request ::
    "int \<Rightarrow> call_request \<Rightarrow> session_identity option \<Rightarrow> orch_system \<Rightarrow> nat option \<times> orch_system \<times> orch_effect list" where
  "route_call_request now rq identity S = (case rq of
       Rq_Make x body \<Rightarrow> (case make_call_route x body identity (Some (sy_state S)) of
          (a, s', es) \<Rightarrow> (Some (reply_status a),
            if es = [] \<and> reply_status a \<noteq> 200 then S
            else S\<lparr> sy_state := the s', sy_used := cx_call_id x # sy_used S \<rparr>, es))
     | Rq_Answer c \<Rightarrow> (case answer_route c now identity (Some (sy_state S)) of
          (Inl a, _, es) \<Rightarrow> (Some (reply_status a), S, es)
        | (Inr p, s', es) \<Rightarrow> (case p of Answered r \<Rightarrow> Some (if r = Answer_Success then 200 else 409) | _ \<Rightarrow> None,
            S\<lparr> sy_state := the s', sy_answering := still_waiting p (sn_device_id (the identity)) (sy_answering S) \<rparr>, es))
     | Rq_Decline c \<Rightarrow> (case decline_route c now (Some (sy_state S)) of
          (a, s', es) \<Rightarrow> (Some (reply_status a), S\<lparr> sy_state := the s' \<rparr>, es)))"

definition serve_call ::
    "auth_config \<Rightarrow> bool \<Rightarrow> int \<Rightarrow> http_request \<Rightarrow> call_request \<Rightarrow> device_row table \<times> orch_system
      \<Rightarrow> nat option \<times> (device_row table \<times> orch_system) \<times> orch_effect list" where
  "serve_call cfg web_interface now r rq s =
     (case session_hook cfg web_interface now now r (fst s) of
        (Denied e, t) \<Rightarrow> (Some 401, (t, snd s), [])
      | (Passed identity, t) \<Rightarrow> (case route_call_request now rq identity (snd s) of (a, S, es) \<Rightarrow> (a, (t, S), es)))"

lemma outbound_tracked:
  assumes "initiate_outbound sip_tls number c session made patched now device from to s = (Inr out, t, es)"
  shows "\<exists>call. jm_get (or_active_calls t) c = Some call \<and> ac_answered_by_device call = Some device \<and> ac_from call = from \<and> ac_to call = to"
  using assms
  by (auto simp: initiate_outbound_def Let_def track_outbound_def arm_watchdog_def jm_get_modify
      split: sum.splits session_result.splits prod.splits)

lemma make_call_cases:
  assumes "make_call_route x body identity (Some s) = (a, o', es)"
  obtains (refused) "reply_status a \<noteq> 200" "o' = Some s" "es = []"
  | (begun) origin dest i res t where "body = Some (Some origin, Some dest)" "validate_phone_number (js dest) = Valid" "identity = Some i"
      "initiate_outbound (cx_sip_tls x) (cx_number x) (cx_call_id x) (cx_session x) (cx_made x) (cx_patched x) (cx_now x)
         (sn_device_id i) origin (sj (normalize_to_e164 (js dest) (js origin))) s = (res, t, es)"
      "o' = Some t" "reply_status a = 200 \<longleftrightarrow> (\<exists>r. res = Inr r)"
proof (cases "case body of Some (Some origin, Some dest) \<Rightarrow> origin \<noteq> '''' \<and> dest \<noteq> '''' \<and> validate_phone_number (js dest) = Valid
      \<and> (case identity of None \<Rightarrow> False | Some i \<Rightarrow> sn_device_id i \<noteq> '''') | _ \<Rightarrow> False")
  case True
  then obtain origin dest i where b: "body = Some (Some origin, Some dest)" "origin \<noteq> ''''" "dest \<noteq> ''''" "validate_phone_number (js dest) = Valid"
    "identity = Some i" "sn_device_id i \<noteq> ''''" by (auto split: option.splits)
  obtain res t es' where r: "initiate_outbound (cx_sip_tls x) (cx_number x) (cx_call_id x) (cx_session x) (cx_made x) (cx_patched x) (cx_now x)
         (sn_device_id i) origin (sj (normalize_to_e164 (js dest) (js origin))) s = (res, t, es')" by (metis prod_cases3)
  show ?thesis
    by (rule begun [OF b(1,4,5), of res t])
      (use assms b r in \<open>auto simp: make_call_route_def absent_def Let_def reply_status_def orchestrator_status_def
        split: sum.splits orchestrator_error.splits\<close>)
next
  case False
  show ?thesis
    by (rule refused)
      (use assms False in \<open>auto simp: make_call_route_def absent_def Let_def reply_status_def
        split: option.splits if_splits validation_result.splits prod.splits\<close>)
qed

text \<open>What a request does, in the name of a device.\<close>

definition performs :: "call_request \<Rightarrow> string \<Rightarrow> nat option \<Rightarrow> orch_event \<Rightarrow> orch_system \<Rightarrow> bool" where
  "performs rq device status e S' \<longleftrightarrow> (case rq of
       Rq_Make x body \<Rightarrow> e = Ev_Outbound (cx_call_id x) \<and> (\<exists>origin dest. body = Some (Some origin, Some dest)
         \<and> validate_phone_number (js dest) = Valid
         \<and> (status = Some 200 \<longrightarrow> (\<exists>call. jm_get (or_active_calls (sy_state S')) (cx_call_id x) = Some call
              \<and> ac_answered_by_device call = Some device \<and> ac_from call = origin
              \<and> ac_to call = sj (normalize_to_e164 (js dest) (js origin)))))
     | Rq_Answer c \<Rightarrow> e = Ev_Answer c device
     | Rq_Decline c \<Rightarrow> e = Ev_End c (Some ''declined''))"

lemma route_call_request_steps:
  assumes "route_call_request now rq (Some i) S = (status, S', es)"
    and "case rq of Rq_Make x _ \<Rightarrow> cx_call_id x \<notin> set (sy_used S) | _ \<Rightarrow> True"
  shows "S' = S \<and> es = [] \<or> (\<exists>e. orch_step S (e, es) S' \<and> performs rq (sn_device_id i) status e S')"
proof (cases rq)
  case (Rq_Make x body)
  obtain a o' fs where m: "make_call_route x body (Some i) (Some (sy_state S)) = (a, o', fs)" by (metis prod_cases3)
  have r: "status = Some (reply_status a)" "es = fs"
    "S' = (if es = [] \<and> reply_status a \<noteq> 200 then S else S\<lparr> sy_state := the o', sy_used := cx_call_id x # sy_used S \<rparr>)"
    using assms(1) Rq_Make m by (auto simp: route_call_request_def)
  from m show ?thesis
  proof (cases rule: make_call_cases)
    case refused
    then show ?thesis using r by simp
  next
    case (begun origin dest i' res t)
    then have i': "i' = i" by simp
    show ?thesis
    proof (cases "es = [] \<and> reply_status a \<noteq> 200")
      case True
      then show ?thesis using r by simp
    next
      case False
      have S': "S' = S\<lparr> sy_state := t, sy_used := cx_call_id x # sy_used S \<rparr>"
        unfolding r(3) using False begun(5) by auto
      have "cx_call_id x \<notin> set (sy_used S)" using assms(2) Rq_Make by simp
      from os_outbound [OF this begun(4)] have "orch_step S (Ev_Outbound (cx_call_id x), es) S'" using r(2) S' by simp
      moreover have "performs rq (sn_device_id i) status (Ev_Outbound (cx_call_id x)) S'"
        using begun(1,2,6) outbound_tracked begun(4) Rq_Make r(1) S' i' by (auto simp: performs_def)
      ultimately show ?thesis by blast
    qed
  qed
next
  case (Rq_Answer c)
  obtain p t fs where b: "answer_begin c (sn_device_id i) now (sy_state S) = (p, t, fs)" by (metis prod_cases3)
  show ?thesis
  proof (cases "blank c \<or> sn_device_id i = ''''")
    case True
    then show ?thesis using assms(1) Rq_Answer by (cases "blank c") (simp_all add: route_call_request_def answer_route_def)
  next
    case False
    then have "es = fs" "S' = S\<lparr> sy_state := t, sy_answering := still_waiting p (sn_device_id i) (sy_answering S) \<rparr>"
      using assms(1) Rq_Answer b by (auto simp: route_call_request_def answer_route_def)
    then have "orch_step S (Ev_Answer c (sn_device_id i), es) S'" using os_answer [OF b] by simp
    then show ?thesis using Rq_Answer by (auto simp: performs_def)
  qed
next
  case (Rq_Decline c)
  obtain t fs where b: "end_call c (Some ''declined'') now (sy_state S) = (t, fs)" by fastforce
  show ?thesis
  proof (cases "blank c")
    case True
    then show ?thesis using assms(1) Rq_Decline by (auto simp: route_call_request_def decline_route_def)
  next
    case False
    then have "es = fs" "S' = S\<lparr> sy_state := t \<rparr>"
      using assms(1) Rq_Decline b by (auto simp: route_call_request_def decline_route_def)
    then have "orch_step S (Ev_End c (Some ''declined''), es) S'" using os_end [OF b] by simp
    then show ?thesis using Rq_Decline by (auto simp: performs_def)
  qed
qed



section \<open>What the routes do not do\<close>

text \<open>The route for tones is documented as forwarding the digit to the provider; it acknowledges it and
  does nothing else.\<close>

lemma dtmf_goes_nowhere: "snd (dtmf_route c digit identity o') = []"
  by (simp add: dtmf_route_def split: option.splits)

end
