(* ===== verification/Conversations.thy ===== *)
theory Conversations
  imports Validators Formatters Telephony_Providers
begin

text \<open>
  \<^verbatim>\<open>src/services/conversation-service.ts\<close> over the tables \<^verbatim>\<open>conversations\<close> (keyed by own number and
  other party), \<^verbatim>\<open>messages\<close> (unique \<^verbatim>\<open>provider_message_id\<close>, own number a foreign key) and
  \<^verbatim>\<open>numbers\<close> (of which only the keys matter here). Sending and retrying are cut where the provider
  is asked, receiving after its check for duplicates, retrying also after its checks; other
  requests run in between. Finding or creating the conversation is one segment. The
  provider's answer (\<^const>\<open>None\<close> when it or its resolution throws), the clock and generated
  identifiers are arguments. The length limits of the columns are left out.
\<close>

section \<open>Data\<close>

datatype message_direction = Dir_SENT | Dir_RECEIVED

datatype message_status = Msg_PENDING | Msg_SENT | Msg_DELIVERED | Msg_FAILED | Msg_QUEUED

record message =
  mg_id :: string
  mg_provider_message_id :: "string option"
  mg_conversation_number :: jstr
  mg_provider_number :: "jstr option"
  mg_body :: jstr
  mg_direction :: message_direction
  mg_status :: message_status
  mg_timestamp :: int
  mg_retry_count :: nat

record message_row = message +
  mg_removed :: bool

definition map_row :: "message_row \<Rightarrow> message" where
  "map_row row = message.truncate row"

record conversation_row =
  cv_phone_number :: jstr
  cv_provider_number :: jstr
  cv_last_message_preview :: "jstr option"
  cv_last_message_timestamp :: "int option"
  cv_created_at :: int
  cv_removed :: bool

record conversation_db =
  cd_conversations :: "conversation_row table"
  cd_messages :: "message_row table"
  cd_numbers :: "jstr list"

datatype conversation_event = New_Message jstr jstr message | Message_Status string message_status

datatype conversation_error =
    Invalid_Body string
  | Invalid_Destination string
  | Constraint_Violation
  | No_Result
  | Max_Retries_Exceeded
  | Only_Failed_Retried

definition MAX_RETRIES :: nat where
  "MAX_RETRIES = 3"

text \<open>\<open>124\<close> is the vertical bar.\<close>

definition thread_key :: "jstr \<Rightarrow> jstr \<Rightarrow> jstr" where
  "thread_key provider_number phone_number = provider_number @ 124 # phone_number"

section \<open>The tables\<close>

definition is_thread :: "jstr \<Rightarrow> jstr \<Rightarrow> conversation_row \<Rightarrow> bool" where
  "is_thread provider phone c \<longleftrightarrow> cv_provider_number c = provider \<and> cv_phone_number c = phone"

definition upsert_conversation :: "jstr \<Rightarrow> jstr \<Rightarrow> int \<Rightarrow> conversation_db \<Rightarrow> conversation_db" where
  "upsert_conversation provider phone now db =
     (case sql_first (is_thread provider phone) (cd_conversations db) of
        None \<Rightarrow> db\<lparr> cd_conversations := sql_insert \<lparr> cv_phone_number = phone, cv_provider_number = provider,
            cv_last_message_preview = None, cv_last_message_timestamp = None, cv_created_at = now, cv_removed = False \<rparr>
          (cd_conversations db) \<rparr>
      | Some existing \<Rightarrow> if cv_removed existing
          then db\<lparr> cd_conversations := sql_update (is_thread provider phone) (\<lambda>c. c\<lparr> cv_removed := False \<rparr>) (cd_conversations db) \<rparr>
          else db)"

definition update_conversation_metadata :: "jstr \<Rightarrow> jstr \<Rightarrow> jstr \<Rightarrow> int \<Rightarrow> conversation_db \<Rightarrow> conversation_db" where
  "update_conversation_metadata provider phone body timestamp db =
     db\<lparr> cd_conversations := sql_update (is_thread provider phone)
          (\<lambda>c. c\<lparr> cv_last_message_preview := Some (thread_list_preview body), cv_last_message_timestamp := Some timestamp \<rparr>)
          (cd_conversations db) \<rparr>"

text \<open>Whether the database takes a message: a fresh \<^verbatim>\<open>provider_message_id\<close>, an own number it knows.\<close>

definition message_id_free :: "string option \<Rightarrow> message_row table \<Rightarrow> bool" where
  "message_id_free pid t \<longleftrightarrow> pid = None \<or> list_all (\<lambda>m. mg_provider_message_id m \<noteq> pid) t"

definition insert_message :: "message_row \<Rightarrow> conversation_db \<Rightarrow> conversation_db option" where
  "insert_message row db =
     (if message_id_free (mg_provider_message_id row) (cd_messages db)
         \<and> (case mg_provider_number row of None \<Rightarrow> True | Some n \<Rightarrow> n \<in> set (cd_numbers db))
      then Some (db\<lparr> cd_messages := sql_insert row (cd_messages db) \<rparr>) else None)"

definition update_message ::
    "string \<Rightarrow> (message_row \<Rightarrow> message_row) \<Rightarrow> conversation_db \<Rightarrow> message_row option \<times> conversation_db" where
  "update_message i f db =
     (first_row (sql_returning (\<lambda>m. mg_id m = i) f (cd_messages db)),
      db\<lparr> cd_messages := sql_update (\<lambda>m. mg_id m = i) f (cd_messages db) \<rparr>)"

definition set_status :: "message_status \<Rightarrow> message_row \<Rightarrow> message_row" where
  "set_status status m = m\<lparr> mg_status := status \<rparr>"

definition set_sent :: "string \<Rightarrow> message_row \<Rightarrow> message_row" where
  "set_sent pid m = m\<lparr> mg_status := Msg_SENT, mg_provider_message_id := Some pid \<rparr>"

text \<open>\<^verbatim>\<open>executeTakeFirstOrThrow\<close> on an update by identifier.\<close>

definition update_status ::
    "string \<Rightarrow> message_status \<Rightarrow> conversation_db \<Rightarrow> (conversation_error + message) \<times> conversation_db" where
  "update_status i status db =
     (case update_message i (set_status status) db of (row, db') \<Rightarrow>
        (case row of None \<Rightarrow> Inl No_Result | Some r \<Rightarrow> Inr (map_row r), db'))"

text \<open>The update that would give two messages one \<^verbatim>\<open>provider_message_id\<close> is refused.\<close>

definition sent_id_free :: "string \<Rightarrow> string \<Rightarrow> conversation_db \<Rightarrow> bool" where
  "sent_id_free i pid db \<longleftrightarrow> list_all (\<lambda>m. mg_id m = i \<or> mg_provider_message_id m \<noteq> Some pid) (cd_messages db)"

section \<open>Sending\<close>

text \<open>Up to the request to the provider: the normalised destination and the pending message.\<close>

definition send_begin ::
    "string \<Rightarrow> int \<Rightarrow> jstr \<Rightarrow> jstr \<Rightarrow> jstr \<Rightarrow> conversation_db \<Rightarrow> (conversation_error + jstr \<times> message) \<times> conversation_db" where
  "send_begin i now from to body db =
     (case validate_message body of
        Invalid e \<Rightarrow> (Inl (Invalid_Body e), db)
      | Valid \<Rightarrow> (case validate_phone_number to of
          Invalid e \<Rightarrow> (Inl (Invalid_Destination e), db)
        | Valid \<Rightarrow>
            let normalized_to = normalize_to_e164 to from;
                db1 = upsert_conversation from normalized_to now db;
                row = \<lparr> mg_id = i, mg_provider_message_id = None, mg_conversation_number = normalized_to,
                  mg_provider_number = Some from, mg_body = body, mg_direction = Dir_SENT, mg_status = Msg_PENDING,
                  mg_timestamp = now, mg_retry_count = 0, mg_removed = False \<rparr>
            in (case insert_message row db1 of
                None \<Rightarrow> (Inl Constraint_Violation, db1)
              | Some db2 \<Rightarrow> (Inr (normalized_to, map_row row), db2))))"

definition send_finish ::
    "sms_result option \<Rightarrow> int \<Rightarrow> jstr \<Rightarrow> jstr \<Rightarrow> jstr \<Rightarrow> string \<Rightarrow> conversation_db
      \<Rightarrow> (conversation_error + message) \<times> conversation_db \<times> conversation_event list" where
  "send_finish result now from normalized_to body i db =
     (let (message, db1) = (case result of
            None \<Rightarrow> update_status i Msg_FAILED db
          | Some r \<Rightarrow>
              if sr_success r then
                (case (if sent_id_free i (sr_message_id r) db then update_message i (set_sent (sr_message_id r)) db
                       else update_message i (set_status Msg_SENT) db) of
                   (row, db') \<Rightarrow> (case row of None \<Rightarrow> Inl No_Result | Some r' \<Rightarrow> Inr (map_row r'), db'))
              else update_status i Msg_FAILED db)
      in case message of
           Inl e \<Rightarrow> (Inl e, db1, [])
         | Inr m \<Rightarrow> (Inr m, update_conversation_metadata from normalized_to body now db1, [New_Message normalized_to from m]))"

section \<open>Receiving\<close>

definition receive_duplicate :: "string \<Rightarrow> conversation_db \<Rightarrow> bool" where
  "receive_duplicate message_id db \<longleftrightarrow>
     message_id \<noteq> '''' \<and> sql_first (\<lambda>m. mg_provider_message_id m = Some message_id) (cd_messages db) \<noteq> None"

text \<open>After the check. The database refuses an invalid date.\<close>

definition receive_store ::
    "string \<Rightarrow> int \<Rightarrow> string \<Rightarrow> jstr \<Rightarrow> jstr \<Rightarrow> jstr \<Rightarrow> int option \<Rightarrow> conversation_db
      \<Rightarrow> (conversation_error + message option) \<times> conversation_db \<times> conversation_event list" where
  "receive_store i now message_id from to body timestamp db =
     (let db1 = upsert_conversation to from now db in
      case timestamp of
        None \<Rightarrow> (Inl Constraint_Violation, db1, [])
      | Some t \<Rightarrow>
          let row = \<lparr> mg_id = i, mg_provider_message_id = (if message_id \<noteq> '''' then Some message_id else None),
                mg_conversation_number = from, mg_provider_number = Some to, mg_body = body, mg_direction = Dir_RECEIVED,
                mg_status = Msg_DELIVERED, mg_timestamp = t, mg_retry_count = 0, mg_removed = False \<rparr>
          in (case insert_message row db1 of
              None \<Rightarrow> (Inl Constraint_Violation, db1, [])
            | Some db2 \<Rightarrow> (Inr (Some (map_row row)), update_conversation_metadata to from body t db2,
                [New_Message from to (map_row row)])))"

definition receive_message ::
    "string \<Rightarrow> int \<Rightarrow> string \<Rightarrow> jstr \<Rightarrow> jstr \<Rightarrow> jstr \<Rightarrow> int option \<Rightarrow> conversation_db
      \<Rightarrow> (conversation_error + message option) \<times> conversation_db \<times> conversation_event list" where
  "receive_message i now message_id from to body timestamp db =
     (if receive_duplicate message_id db then (Inr None, db, [])
      else receive_store i now message_id from to body timestamp db)"

definition update_message_status ::
    "string \<Rightarrow> sms_delivery_status \<Rightarrow> conversation_db \<Rightarrow> message option \<times> conversation_db \<times> conversation_event list" where
  "update_message_status provider_message_id status db =
     (let p = (\<lambda>m. mg_provider_message_id m = Some provider_message_id);
          st = (case status of Sms_DELIVERED \<Rightarrow> Msg_DELIVERED | Sms_FAILED \<Rightarrow> Msg_FAILED)
      in case sql_first p (cd_messages db) of
           None \<Rightarrow> (None, db, [])
         | Some _ \<Rightarrow> (case first_row (sql_returning p (set_status st) (cd_messages db)) of
             None \<Rightarrow> (None, db, [])
           | Some row \<Rightarrow> (Some (map_row row), db\<lparr> cd_messages := sql_update p (set_status st) (cd_messages db) \<rparr>,
               [Message_Status (mg_id row) st])))"

section \<open>Retrying\<close>

text \<open>The row is read and checked first; other requests run before it is marked.\<close>

definition retry_check :: "string \<Rightarrow> conversation_db \<Rightarrow> conversation_error + message_row" where
  "retry_check i db =
     (case sql_first (\<lambda>m. mg_id m = i) (cd_messages db) of
        None \<Rightarrow> Inl No_Result
      | Some existing \<Rightarrow>
          if MAX_RETRIES \<le> mg_retry_count existing then Inl Max_Retries_Exceeded
          else if mg_status existing \<noteq> Msg_FAILED then Inl Only_Failed_Retried
          else Inr existing)"

text \<open>Marking the message from the row read before, and what the provider is asked to send (own
  number, destination, body).\<close>

definition set_retry :: "nat \<Rightarrow> message_row \<Rightarrow> message_row" where
  "set_retry n m = m\<lparr> mg_retry_count := n, mg_status := Msg_PENDING \<rparr>"

definition retry_mark :: "message_row \<Rightarrow> conversation_db \<Rightarrow> (jstr \<times> jstr \<times> jstr) \<times> conversation_db" where
  "retry_mark existing db =
     ((orelse (mg_provider_number existing) [], mg_conversation_number existing, mg_body existing),
      snd (update_message (mg_id existing) (set_retry (mg_retry_count existing + 1)) db))"

text \<open>Unlike the first sending, the update of a sent message has no second attempt.\<close>

definition retry_finish ::
    "sms_result option \<Rightarrow> string \<Rightarrow> conversation_db \<Rightarrow> (conversation_error + message) \<times> conversation_db \<times> conversation_event list" where
  "retry_finish result i db =
     (let failed = (case update_message i (set_status Msg_FAILED) db of
            (None, db') \<Rightarrow> (Inl No_Result, db', [])
          | (Some row, db') \<Rightarrow> (Inr (map_row row), db', [Message_Status (mg_id row) Msg_FAILED]))
      in case result of
           None \<Rightarrow> failed
         | Some r \<Rightarrow>
             if \<not> sr_success r then failed
             else if \<not> sent_id_free i (sr_message_id r) db then (Inl Constraint_Violation, db, [])
             else (case update_message i (set_sent (sr_message_id r)) db of
                 (None, db') \<Rightarrow> (Inl No_Result, db', [])
               | (Some row, db') \<Rightarrow> (Inr (map_row row), db', [Message_Status (mg_id row) Msg_SENT])))"

section \<open>Reading and hiding\<close>

text \<open>The order \<^verbatim>\<open>last_message_timestamp desc\<close>: the database puts rows without a value first.\<close>

definition newest_first :: "conversation_row list \<Rightarrow> conversation_row list" where
  "newest_first cs = filter (\<lambda>c. cv_last_message_timestamp c = None) cs
     @ sort_key (\<lambda>c. - orelse (cv_last_message_timestamp c) 0) (filter (\<lambda>c. cv_last_message_timestamp c \<noteq> None) cs)"

record paginated_conversations =
  pc_conversations :: "conversation_row list"
  pc_page :: nat
  pc_page_size :: nat
  pc_total :: nat
  pc_total_pages :: nat

definition in_list :: "jstr option \<Rightarrow> conversation_row \<Rightarrow> bool" where
  "in_list provider c \<longleftrightarrow> \<not> cv_removed c \<and> (truthy provider \<longrightarrow> Some (cv_provider_number c) = provider)"

definition get_conversations :: "int \<Rightarrow> int \<Rightarrow> jstr option \<Rightarrow> conversation_db \<Rightarrow> paginated_conversations" where
  "get_conversations page page_size provider db =
     (let safe_page = nat (max 1 page); safe_page_size = nat (max 1 (min 100 page_size));
          rows = newest_first (sql_select (in_list provider) (cd_conversations db));
          total = sql_count (in_list provider) (cd_conversations db)
      in \<lparr> pc_conversations = take safe_page_size (drop ((safe_page - 1) * safe_page_size) rows),
           pc_page = safe_page, pc_page_size = safe_page_size, pc_total = total,
           pc_total_pages = (total + safe_page_size - 1) div safe_page_size \<rparr>)"

text \<open>The own number shown for a conversation: none for the empty one of old rows.\<close>

definition shown_provider_number :: "conversation_row \<Rightarrow> jstr option" where
  "shown_provider_number c = (if cv_provider_number c = [] then None else Some (cv_provider_number c))"

definition in_thread :: "jstr \<Rightarrow> jstr option \<Rightarrow> message_row \<Rightarrow> bool" where
  "in_thread phone provider m \<longleftrightarrow>
     mg_conversation_number m = phone \<and> \<not> mg_removed m \<and> (truthy provider \<longrightarrow> mg_provider_number m = provider)"

definition get_messages :: "jstr \<Rightarrow> int \<Rightarrow> jstr option \<Rightarrow> conversation_db \<Rightarrow> message list" where
  "get_messages phone limit provider db =
     map map_row (rev (take (nat (max 1 (min 100 limit)))
       (sort_key (\<lambda>m. - mg_timestamp m) (sql_select (in_thread phone provider) (cd_messages db)))))"

definition received_in :: "jstr \<Rightarrow> jstr \<Rightarrow> message_row \<Rightarrow> bool" where
  "received_in provider phone m \<longleftrightarrow> mg_conversation_number m = phone \<and> mg_direction m = Dir_RECEIVED
     \<and> (if provider = [] then mg_provider_number m = None else mg_provider_number m = Some provider)"

definition last_received :: "jstr \<Rightarrow> jstr \<Rightarrow> conversation_db \<Rightarrow> int option" where
  "last_received provider phone db =
     map_option mg_timestamp (first_row (sort_key (\<lambda>m. - mg_timestamp m) (sql_select (received_in provider phone) (cd_messages db))))"

definition get_last_received_timestamps :: "(jstr \<times> jstr) list \<Rightarrow> conversation_db \<Rightarrow> (jstr, int) jmap" where
  "get_last_received_timestamps threads db =
     fold (\<lambda>(provider, phone) results. case last_received provider phone db of
         None \<Rightarrow> results | Some t \<Rightarrow> jm_set (thread_key provider phone) t results) threads []"

definition remove_conversation :: "jstr \<Rightarrow> jstr \<Rightarrow> conversation_db \<Rightarrow> conversation_db" where
  "remove_conversation provider phone db =
     db\<lparr> cd_conversations := sql_update (is_thread provider phone) (\<lambda>c. c\<lparr> cv_removed := True \<rparr>) (cd_conversations db) \<rparr>"

definition remove_message :: "string \<Rightarrow> conversation_db \<Rightarrow> conversation_db" where
  "remove_message i db = snd (update_message i (\<lambda>m. m\<lparr> mg_removed := True \<rparr>) db)"

definition restore_message :: "string \<Rightarrow> conversation_db \<Rightarrow> conversation_db" where
  "restore_message i db = snd (update_message i (\<lambda>m. m\<lparr> mg_removed := False \<rparr>) db)"

end
