(* ===== verification/Conversation_System.thy ===== *)
theory Conversation_System
  imports Conversations
begin

text \<open>
  The conversation service under interleaved requests: the messages being sent or retried while
  the provider works on them, retries that have read their message, deliveries that have passed
  the check for duplicates, and every operation on the tables in between. An invariant of the
  reachable states, and what becomes of a message that is sent or received in any of them.
\<close>

section \<open>States and steps\<close>

record conversation_system =
  sy_db :: conversation_db
  sy_sending :: "(string \<times> jstr \<times> jstr \<times> jstr) list"
  sy_checked :: "message_row list"
  sy_retrying :: "string list"
  sy_stranded :: "string list"

text \<open>An entry of \<open>sy_sending\<close> is the message, the own number, the destination and the body; \<open>sy_stranded\<close>
  collects the messages whose retry was accepted by the provider under an identifier already taken.\<close>

text \<open>Receipts concern messages that were sent.\<close>

datatype conversation_step_event =
    Step_Send string "(conversation_error + jstr \<times> message)"
  | Step_Sent string "sms_result option" "conversation_error + message"
  | Step_Receive string string "conversation_error + message option"
  | Step_Retry_Check string
  | Step_Retry_Mark string
  | Step_Retried string "sms_result option"
  | Step_Receipt string
  | Step_Hide

inductive conversation_step :: "conversation_system \<Rightarrow> conversation_step_event \<Rightarrow> conversation_system \<Rightarrow> bool" where
  cs_send: "\<not> list_ex (\<lambda>m. mg_id m = i) (cd_messages (sy_db S)) \<Longrightarrow> send_begin i now from to body (sy_db S) = (Inr (to', m), db) \<Longrightarrow>
     conversation_step S (Step_Send i (Inr (to', m))) (S\<lparr> sy_db := db, sy_sending := (i, from, to', body) # sy_sending S \<rparr>)"
| cs_send_refused: "send_begin i now from to body (sy_db S) = (Inl e, db) \<Longrightarrow>
     conversation_step S (Step_Send i (Inl e)) (S\<lparr> sy_db := db \<rparr>)"
| cs_sent: "(i, from, to', body) \<in> set (sy_sending S) \<Longrightarrow> send_finish result now from to' body i (sy_db S) = (r, db, es) \<Longrightarrow>
     conversation_step S (Step_Sent i result r) (S\<lparr> sy_db := db, sy_sending := remove1 (i, from, to', body) (sy_sending S) \<rparr>)"
| cs_receive: "\<not> list_ex (\<lambda>m. mg_id m = i) (cd_messages (sy_db S)) \<Longrightarrow> receive_store i now pid from to body t (sy_db S) = (r, db, es) \<Longrightarrow>
     conversation_step S (Step_Receive i pid r) (S\<lparr> sy_db := db \<rparr>)"
| cs_retry_check: "retry_check i (sy_db S) = Inr row \<Longrightarrow>
     conversation_step S (Step_Retry_Check i) (S\<lparr> sy_checked := row # sy_checked S \<rparr>)"
| cs_retry_mark: "row \<in> set (sy_checked S) \<Longrightarrow> retry_mark row (sy_db S) = (q, db) \<Longrightarrow>
     conversation_step S (Step_Retry_Mark (mg_id row))
       (S\<lparr> sy_db := db, sy_checked := remove1 row (sy_checked S), sy_retrying := mg_id row # sy_retrying S \<rparr>)"
| cs_retried: "i \<in> set (sy_retrying S) \<Longrightarrow> retry_finish result i (sy_db S) = (r, db, es) \<Longrightarrow>
     conversation_step S (Step_Retried i result) (S\<lparr> sy_db := db, sy_retrying := remove1 i (sy_retrying S),
       sy_stranded := (if r = Inl Constraint_Violation then i # sy_stranded S else sy_stranded S) \<rparr>)"
| cs_receipt: "list_all (\<lambda>m. mg_provider_message_id m = Some pid \<longrightarrow> mg_direction m = Dir_SENT) (cd_messages (sy_db S)) \<Longrightarrow>
     update_message_status pid st (sy_db S) = (r, db, es) \<Longrightarrow>
     conversation_step S (Step_Receipt pid) (S\<lparr> sy_db := db \<rparr>)"
| cs_remove_conversation: "conversation_step S Step_Hide (S\<lparr> sy_db := remove_conversation provider phone (sy_db S) \<rparr>)"
| cs_remove_message: "conversation_step S Step_Hide (S\<lparr> sy_db := remove_message i (sy_db S) \<rparr>)"
| cs_restore_message: "conversation_step S Step_Hide (S\<lparr> sy_db := restore_message i (sy_db S) \<rparr>)"

definition conversation_init :: "conversation_system \<Rightarrow> bool" where
  "conversation_init S \<longleftrightarrow> cd_messages (sy_db S) = [] \<and> cd_conversations (sy_db S) = []
     \<and> sy_sending S = [] \<and> sy_checked S = [] \<and> sy_retrying S = [] \<and> sy_stranded S = []"

section \<open>The invariant\<close>

text \<open>Identifiers are unique, also those of the providers; no message has been retried more than
  three times; every message belongs to a thread; and a pending message is on its way, unless
  its retry was stranded.\<close>

definition provider_ids_unique :: "message_row list \<Rightarrow> bool" where
  "provider_ids_unique ms \<longleftrightarrow> (\<forall>m \<in> set ms. \<forall>m' \<in> set ms.
     mg_provider_message_id m \<noteq> None \<and> mg_provider_message_id m = mg_provider_message_id m' \<longrightarrow> mg_id m = mg_id m')"

definition threaded :: "conversation_db \<Rightarrow> message_row \<Rightarrow> bool" where
  "threaded db m \<longleftrightarrow> (case mg_provider_number m of None \<Rightarrow> False
     | Some p \<Rightarrow> list_ex (is_thread p (mg_conversation_number m)) (cd_conversations db))"

definition in_flight :: "conversation_system \<Rightarrow> string \<Rightarrow> bool" where
  "in_flight S i \<longleftrightarrow> i \<in> fst ` set (sy_sending S) \<or> i \<in> set (sy_retrying S)"

definition message_ok :: "conversation_system \<Rightarrow> message_row \<Rightarrow> bool" where
  "message_ok S m \<longleftrightarrow> mg_retry_count m \<le> MAX_RETRIES \<and> threaded (sy_db S) m
     \<and> (mg_status m = Msg_PENDING \<longrightarrow> in_flight S (mg_id m) \<or> mg_id m \<in> set (sy_stranded S))"

definition stored_id :: "conversation_system \<Rightarrow> string \<Rightarrow> bool" where
  "stored_id S i \<longleftrightarrow> i \<in> mg_id ` set (cd_messages (sy_db S))"

definition conversations_ok :: "conversation_system \<Rightarrow> bool" where
  "conversations_ok S \<longleftrightarrow> distinct (map mg_id (cd_messages (sy_db S))) \<and> provider_ids_unique (cd_messages (sy_db S))
     \<and> (\<forall>m \<in> set (cd_messages (sy_db S)). message_ok S m)
     \<and> (\<forall>s \<in> set (sy_sending S). stored_id S (fst s) \<and>
          (case s of (i, from, to', body) \<Rightarrow> list_ex (is_thread from to') (cd_conversations (sy_db S))))
     \<and> (\<forall>i \<in> set (sy_retrying S). stored_id S i)
     \<and> (\<forall>row \<in> set (sy_checked S). stored_id S (mg_id row) \<and> mg_retry_count row < MAX_RETRIES)"

section \<open>What the operations do to the tables\<close>

definition threads_kept :: "conversation_db \<Rightarrow> conversation_db \<Rightarrow> bool" where
  "threads_kept db db' \<longleftrightarrow> (\<forall>p q. list_ex (is_thread p q) (cd_conversations db) \<longrightarrow> list_ex (is_thread p q) (cd_conversations db'))"

lemma threads_kept_refl [simp]: "threads_kept db db"
  by (simp add: threads_kept_def)

lemma threads_kept_trans: "threads_kept a b \<Longrightarrow> threads_kept b c \<Longrightarrow> threads_kept a c"
  by (simp add: threads_kept_def)

lemma list_ex_update: "(\<And>r. P (f r) = P r) \<Longrightarrow> list_ex P (sql_update Q f rs) = list_ex P rs"
  by (induction rs) (auto simp: sql_update_def)

lemma threads_update:
  assumes "\<And>c. cv_phone_number (f c) = cv_phone_number c \<and> cv_provider_number (f c) = cv_provider_number c"
  shows "threads_kept db (db\<lparr> cd_conversations := sql_update q f (cd_conversations db) \<rparr>)"
  using assms by (simp add: threads_kept_def list_ex_update is_thread_def)

lemma upsert_threads:
  "threads_kept db (upsert_conversation p q now db)" "list_ex (is_thread p q) (cd_conversations (upsert_conversation p q now db))"
  "cd_messages (upsert_conversation p q now db) = cd_messages db" "cd_numbers (upsert_conversation p q now db) = cd_numbers db"
proof -
  show k: "threads_kept db (upsert_conversation p q now db)"
    by (auto simp: upsert_conversation_def threads_update split: option.splits) (simp add: threads_kept_def sql_insert_def)
  show "cd_messages (upsert_conversation p q now db) = cd_messages db" "cd_numbers (upsert_conversation p q now db) = cd_numbers db"
    by (simp_all add: upsert_conversation_def split: option.splits)
  show "list_ex (is_thread p q) (cd_conversations (upsert_conversation p q now db))"
  proof (cases "sql_first (is_thread p q) (cd_conversations db)")
    case None
    then show ?thesis by (simp add: upsert_conversation_def sql_insert_def is_thread_def)
  next
    case (Some c)
    then have "list_ex (is_thread p q) (cd_conversations db)" by (auto simp: list_ex_iff dest: sql_first_Some)
    with k show ?thesis by (simp add: threads_kept_def)
  qed
qed

lemma metadata_tables [simp]:
  "threads_kept db (update_conversation_metadata p q body t db)"
  "cd_messages (update_conversation_metadata p q body t db) = cd_messages db"
  "cd_numbers (update_conversation_metadata p q body t db) = cd_numbers db"
  by (simp_all add: update_conversation_metadata_def threads_update)

lemma insert_message_Some:
  "insert_message row db = Some db' \<Longrightarrow> message_id_free (mg_provider_message_id row) (cd_messages db)
     \<and> db' = db\<lparr> cd_messages := cd_messages db @ [row] \<rparr>"
  by (auto simp: insert_message_def sql_insert_def split: if_splits)

abbreviation with_id :: "string \<Rightarrow> message_row \<Rightarrow> bool" where
  "with_id i \<equiv> \<lambda>m. mg_id m = i"

text \<open>A change of one message that keeps what belongs to its place, and possibly gives it a new and
  free provider identifier.\<close>

definition proper_change :: "string \<Rightarrow> conversation_db \<Rightarrow> (message_row \<Rightarrow> message_row) \<Rightarrow> bool" where
  "proper_change i db f \<longleftrightarrow>
     (\<forall>m. mg_id (f m) = mg_id m \<and> mg_conversation_number (f m) = mg_conversation_number m
        \<and> mg_provider_number (f m) = mg_provider_number m \<and> mg_direction (f m) = mg_direction m)
     \<and> ((\<forall>m. mg_provider_message_id (f m) = mg_provider_message_id m)
        \<or> (\<exists>p. sent_id_free i p db \<and> (\<forall>m. mg_provider_message_id (f m) = Some p)))"

lemma proper_changes [simp]:
  "proper_change i db (set_status st)" "sent_id_free i p db \<Longrightarrow> proper_change i db (set_sent p)"
  "proper_change i db (set_retry n)" "proper_change i db (\<lambda>m. m\<lparr> mg_removed := b \<rparr>)"
  by (auto simp: proper_change_def set_status_def set_sent_def set_retry_def)

lemma update_message_eq:
  "update_message i f db = (row, db') \<longleftrightarrow>
     row = first_row (map f (filter (with_id i) (cd_messages db)))
     \<and> db' = db\<lparr> cd_messages := sql_update (with_id i) f (cd_messages db) \<rparr>"
  by (auto simp: update_message_def sql_returning_def)

lemma unique_pairs:
  "provider_ids_unique ms \<longleftrightarrow> (\<forall>a \<in> set (map (\<lambda>m. (mg_id m, mg_provider_message_id m)) ms).
     \<forall>b \<in> set (map (\<lambda>m. (mg_id m, mg_provider_message_id m)) ms). snd a \<noteq> None \<and> snd a = snd b \<longrightarrow> fst a = fst b)"
  by (simp add: provider_ids_unique_def)

lemma unique_after_change:
  assumes "distinct (map mg_id ms)" "provider_ids_unique ms" "proper_change i db f" "cd_messages db = ms"
  shows "provider_ids_unique (sql_update (with_id i) f ms)"
proof -
  have ids: "mg_id (f m) = mg_id m" for m using assms(3) by (simp add: proper_change_def)
  consider "\<And>m. mg_provider_message_id (f m) = mg_provider_message_id m"
    | p where "sent_id_free i p db" "\<And>m. mg_provider_message_id (f m) = Some p"
    using assms(3) by (auto simp: proper_change_def)
  then show ?thesis
  proof cases
    case 1
    with ids have "map (\<lambda>m. (mg_id m, mg_provider_message_id m)) (sql_update (with_id i) f ms)
        = map (\<lambda>m. (mg_id m, mg_provider_message_id m)) ms" by (intro sql_update_map) simp
    with assms(2) show ?thesis by (simp only: unique_pairs)
  next
    case 2
    with assms(4) have free: "m \<in> set ms \<Longrightarrow> mg_id m \<noteq> i \<Longrightarrow> mg_provider_message_id m \<noteq> Some p" for m
      by (auto simp: sent_id_free_def list_all_iff)
    show ?thesis
      unfolding provider_ids_unique_def
    proof (intro ballI impI)
      fix x y
      assume "x \<in> set (sql_update (with_id i) f ms)" "y \<in> set (sql_update (with_id i) f ms)"
        and eq: "mg_provider_message_id x \<noteq> None \<and> mg_provider_message_id x = mg_provider_message_id y"
      then obtain m m' where m: "m \<in> set ms" "x = (if mg_id m = i then f m else m)"
        "m' \<in> set ms" "y = (if mg_id m' = i then f m' else m')" by (auto simp: sql_update_def)
      show "mg_id x = mg_id y"
      proof (cases "mg_id m = i"; cases "mg_id m' = i")
        assume "mg_id m \<noteq> i" "mg_id m' \<noteq> i"
        with m eq assms(2) show ?thesis unfolding provider_ids_unique_def by (metis (no_types))
      qed (use m eq ids 2(2) free [of m] free [of m'] in auto)
    qed
  qed
qed

lemma unique_insert:
  assumes "provider_ids_unique ms" "message_id_free (mg_provider_message_id row) ms"
  shows "provider_ids_unique (ms @ [row])"
  using assms by (fastforce simp: provider_ids_unique_def message_id_free_def list_all_iff)

definition settled_by :: "string \<Rightarrow> conversation_db \<Rightarrow> conversation_db \<Rightarrow> bool" where
  "settled_by i db db' \<longleftrightarrow> threads_kept db db' \<and> (\<exists>f. proper_change i db f
     \<and> (\<forall>m. mg_status (f m) \<noteq> Msg_PENDING \<and> mg_retry_count (f m) = mg_retry_count m)
     \<and> cd_messages db' = sql_update (with_id i) f (cd_messages db))"

lemma settled_byI:
  "proper_change i db f \<Longrightarrow> (\<And>m. mg_status (f m) \<noteq> Msg_PENDING \<and> mg_retry_count (f m) = mg_retry_count m)
    \<Longrightarrow> cd_messages db' = sql_update (with_id i) f (cd_messages db) \<Longrightarrow> threads_kept db db' \<Longrightarrow> settled_by i db db'"
  unfolding settled_by_def by blast

lemma send_begin_Inr:
  assumes "send_begin i now from to body db = (Inr (to', m), db')"
  shows "threads_kept db db'" "list_ex (is_thread from to') (cd_conversations db')"
    "\<exists>row. cd_messages db' = cd_messages db @ [row] \<and> mg_id row = i \<and> mg_provider_message_id row = None
       \<and> mg_provider_number row = Some from \<and> mg_conversation_number row = to' \<and> mg_retry_count row = 0 \<and> m = map_row row
       \<and> mg_direction row = Dir_SENT \<and> mg_body row = body \<and> mg_status row = Msg_PENDING"
proof -
  let ?db1 = "upsert_conversation from to' now db"
  have "to' = normalize_to_e164 to from" and ins: "\<exists>row. insert_message row ?db1 = Some db' \<and> mg_id row = i \<and> mg_provider_message_id row = None
       \<and> mg_provider_number row = Some from \<and> mg_conversation_number row = to' \<and> mg_retry_count row = 0 \<and> m = map_row row
       \<and> mg_direction row = Dir_SENT \<and> mg_body row = body \<and> mg_status row = Msg_PENDING"
    using assms by (force simp: send_begin_def Let_def split: validation_result.splits option.splits)+
  then obtain row where r: "insert_message row ?db1 = Some db'" "mg_id row = i" "mg_provider_message_id row = None"
       "mg_provider_number row = Some from" "mg_conversation_number row = to'" "mg_retry_count row = 0" "m = map_row row"
       "mg_direction row = Dir_SENT" "mg_body row = body" "mg_status row = Msg_PENDING" by blast
  have db': "db' = ?db1\<lparr> cd_messages := cd_messages ?db1 @ [row] \<rparr>" using insert_message_Some [OF r(1)] by simp
  then show "threads_kept db db'" "list_ex (is_thread from to') (cd_conversations db')"
    using upsert_threads [where db = db and p = "from" and q = to' and now = now] by (simp_all add: threads_kept_def)
  show "\<exists>row. cd_messages db' = cd_messages db @ [row] \<and> mg_id row = i \<and> mg_provider_message_id row = None
       \<and> mg_provider_number row = Some from \<and> mg_conversation_number row = to' \<and> mg_retry_count row = 0 \<and> m = map_row row
       \<and> mg_direction row = Dir_SENT \<and> mg_body row = body \<and> mg_status row = Msg_PENDING"
    using r db' upsert_threads(3) by (intro exI [of _ row]) simp
qed

lemma send_begin_Inl:
  "send_begin i now from to body db = (Inl e, db') \<Longrightarrow> threads_kept db db' \<and> cd_messages db' = cd_messages db"
  using upsert_threads by (auto simp: send_begin_def Let_def split: validation_result.splits option.splits)

lemma update_status_db:
  "update_status i st db = (r, db') \<Longrightarrow> db' = db\<lparr> cd_messages := sql_update (with_id i) (set_status st) (cd_messages db) \<rparr>"
  by (auto simp: update_status_def update_message_eq split: prod.splits)

lemma threads_kept_messages [simp]: "threads_kept db (db\<lparr> cd_messages := ms \<rparr>)"
  by (simp add: threads_kept_def)

lemma settled_update:
  assumes "proper_change i db f" "\<And>m. mg_status (f m) \<noteq> Msg_PENDING \<and> mg_retry_count (f m) = mg_retry_count m"
  shows "settled_by i db (db\<lparr> cd_messages := sql_update (with_id i) f (cd_messages db) \<rparr>)"
  using assms by (auto intro!: settled_byI)

lemma settled_metadata: "settled_by i db db' \<Longrightarrow> settled_by i db (update_conversation_metadata p q body t db')"
  using threads_kept_trans [OF _ metadata_tables(1)] by (auto simp: settled_by_def)

text \<open>The update after the provider answered, before the metadata.\<close>

definition sent_update :: "sms_result option \<Rightarrow> string \<Rightarrow> conversation_db \<Rightarrow> message_row \<Rightarrow> message_row" where
  "sent_update result i db = (case result of
     None \<Rightarrow> set_status Msg_FAILED
   | Some r \<Rightarrow> if \<not> sr_success r then set_status Msg_FAILED
       else if sent_id_free i (sr_message_id r) db then set_sent (sr_message_id r) else set_status Msg_SENT)"

lemma sent_update_proper:
  "proper_change i db (sent_update result i db)"
  "mg_status (sent_update result i db m) \<noteq> Msg_PENDING" "mg_retry_count (sent_update result i db m) = mg_retry_count m"
  by (auto simp: sent_update_def set_status_def set_sent_def split: option.splits)

lemma send_finish_eq:
  "send_finish result now from to' body i db =
     (let ms = sql_update (with_id i) (sent_update result i db) (cd_messages db)
      in case filter (with_id i) (cd_messages db) of
           [] \<Rightarrow> (Inl No_Result, db\<lparr> cd_messages := ms \<rparr>, [])
         | m # _ \<Rightarrow> (Inr (map_row (sent_update result i db m)),
             update_conversation_metadata from to' body now (db\<lparr> cd_messages := ms \<rparr>),
             [New_Message to' from (map_row (sent_update result i db m))]))"
  by (cases result; cases "filter (with_id i) (cd_messages db)")
    (auto simp: send_finish_def sent_update_def update_status_def update_message_def sql_returning_def first_row_def Let_def)

lemma send_finish_settles:
  assumes "send_finish result now from to' body i db = (r, db', es)"
  shows "settled_by i db db'"
proof -
  have "settled_by i db (db\<lparr> cd_messages := sql_update (with_id i) (sent_update result i db) (cd_messages db) \<rparr>)"
    by (rule settled_update) (simp_all add: sent_update_proper)
  with settled_metadata [OF this] assms show ?thesis by (auto simp: send_finish_eq Let_def split: list.splits)
qed

lemma receive_store_cases:
  assumes "receive_store i now pid from to body t db = (r, db', es)"
  obtains (failed) "r = Inl Constraint_Violation" "es = []" "cd_messages db' = cd_messages db" "threads_kept db db'"
  | (stored) row where "r = Inr (Some (map_row row))" "es = [New_Message from to (map_row row)]"
      "cd_messages db' = cd_messages db @ [row]" "threads_kept db db'" "list_ex (is_thread to from) (cd_conversations db')"
      "message_id_free (mg_provider_message_id row) (cd_messages db)"
      "row = \<lparr> mg_id = i, mg_provider_message_id = (if pid \<noteq> '''' then Some pid else None),
          mg_conversation_number = from, mg_provider_number = Some to, mg_body = body, mg_direction = Dir_RECEIVED,
          mg_status = Msg_DELIVERED, mg_timestamp = the t, mg_retry_count = 0, mg_removed = False \<rparr>" "t \<noteq> None"
proof -
  let ?db1 = "upsert_conversation to from now db"
  let ?row = "\<lparr> mg_id = i, mg_provider_message_id = (if pid \<noteq> '''' then Some pid else None),
          mg_conversation_number = from, mg_provider_number = Some to, mg_body = body, mg_direction = Dir_RECEIVED,
          mg_status = Msg_DELIVERED, mg_timestamp = the t, mg_retry_count = 0, mg_removed = False \<rparr>"
  note u = upsert_threads [where db = db and p = to and q = "from" and now = now]
  show thesis
  proof (cases "t = None \<or> insert_message ?row ?db1 = None")
    case True
    with assms u show ?thesis
      by (intro failed) (auto simp: receive_store_def Let_def split: option.splits)
  next
    case False
    then obtain db2 where db2: "insert_message ?row ?db1 = Some db2" and t: "t \<noteq> None" by blast
    note s = insert_message_Some [OF db2]
    from t have "r = Inr (Some (map_row ?row))" "es = [New_Message from to (map_row ?row)]"
        and db': "db' = update_conversation_metadata to from body (the t) db2"
      using assms db2 by (auto simp: receive_store_def Let_def)
    moreover have "cd_messages db' = cd_messages db @ [?row]" using s u(3) db' by simp
    moreover have "threads_kept db db'" "list_ex (is_thread to from) (cd_conversations db')"
      using s u(1,2) metadata_tables(1) [of db2 to "from" body "the t"] by (auto simp: db' threads_kept_def)
    moreover have "message_id_free (mg_provider_message_id ?row) (cd_messages db)" using s u(3) by simp
    ultimately show ?thesis using stored [OF _ _ _ _ _ _ refl t] by blast
  qed
qed

lemma retry_check_Inr:
  "retry_check i db = Inr row \<Longrightarrow> row \<in> set (cd_messages db) \<and> mg_id row = i \<and> mg_retry_count row < MAX_RETRIES
     \<and> mg_status row = Msg_FAILED"
  by (auto simp: retry_check_def split: option.splits if_splits dest: sql_first_Some)

lemma retry_mark_db:
  "retry_mark row db = (q, db') \<Longrightarrow>
     db' = db\<lparr> cd_messages := sql_update (with_id (mg_id row)) (set_retry (mg_retry_count row + 1)) (cd_messages db) \<rparr>"
  by (auto simp: retry_mark_def update_message_def)

lemma retry_finish_cases:
  assumes "retry_finish result i db = (r, db', es)" "i \<in> mg_id ` set (cd_messages db)"
  obtains (taken) a where "result = Some a" "sr_success a" "\<not> sent_id_free i (sr_message_id a) db"
      "r = Inl Constraint_Violation" "db' = db" "es = []"
  | (settled) m where "settled_by i db db'" "m \<in> set (cd_messages db)" "mg_id m = i"
      "r = Inr (map_row (sent_update result i db m))" "es = [Message_Status i (mg_status (sent_update result i db m))]"
proof -
  obtain m ms where f: "filter (with_id i) (cd_messages db) = m # ms"
    using assms(2) by (cases "filter (with_id i) (cd_messages db)") (auto simp: filter_empty_conv)
  have m: "m \<in> set (cd_messages db)" "mg_id m = i"
    using f filter_eq_Cons_iff [of "with_id i"] by (auto dest: arg_cong [where f = set])
  show thesis
  proof (cases "\<exists>a. result = Some a \<and> sr_success a \<and> \<not> sent_id_free i (sr_message_id a) db")
    case True
    then show ?thesis using taken assms(1) by (auto simp: retry_finish_def Let_def)
  next
    case False
    then have eq: "db' = db\<lparr> cd_messages := sql_update (with_id i) (sent_update result i db) (cd_messages db) \<rparr>"
        "r = Inr (map_row (sent_update result i db m))" "es = [Message_Status i (mg_status (sent_update result i db m))]"
      using assms(1) f m(2)
      by (auto simp: retry_finish_def sent_update_def update_message_def sql_returning_def first_row_def Let_def
          set_status_def set_sent_def split: option.splits if_splits)
    have "settled_by i db db'" unfolding eq(1) by (rule settled_update) (simp_all add: sent_update_proper)
    then show ?thesis using settled m eq(2,3) by blast
  qed
qed

lemma receipt_cases:
  assumes "update_message_status pid st db = (r, db', es)"
    and "distinct (map mg_id (cd_messages db))" "provider_ids_unique (cd_messages db)"
  obtains (unknown) "r = None" "db' = db" "es = []" "\<forall>m \<in> set (cd_messages db). mg_provider_message_id m \<noteq> Some pid"
  | (known) m st' where "m \<in> set (cd_messages db)" "st' \<noteq> Msg_PENDING"
      "db' = db\<lparr> cd_messages := sql_update (with_id (mg_id m)) (set_status st') (cd_messages db) \<rparr>"
      "mg_provider_message_id m = Some pid" "es = [Message_Status (mg_id m) st']"
proof (cases "sql_first (\<lambda>m. mg_provider_message_id m = Some pid) (cd_messages db)")
  case None
  with assms(1) show ?thesis by (intro unknown) (auto simp: update_message_status_def Let_def sql_first_None)
next
  case (Some m)
  let ?p = "\<lambda>m. mg_provider_message_id m = Some pid"
  let ?st = "case st of Sms_DELIVERED \<Rightarrow> Msg_DELIVERED | Sms_FAILED \<Rightarrow> Msg_FAILED"
  have m: "m \<in> set (cd_messages db)" "?p m" using sql_first_Some [OF Some] by auto
  have "?p x \<longleftrightarrow> mg_id x = mg_id m" if x: "x \<in> set (cd_messages db)" for x
  proof
    show "?p x \<Longrightarrow> mg_id x = mg_id m" using assms(3) [unfolded provider_ids_unique_def, rule_format, OF x m(1)] m(2) by simp
    show "mg_id x = mg_id m \<Longrightarrow> ?p x" using assms(2) x m by (auto simp: distinct_map dest: inj_onD)
  qed
  then have u: "sql_update ?p (set_status ?st) (cd_messages db) = sql_update (with_id (mg_id m)) (set_status ?st) (cd_messages db)"
    by (auto simp: sql_update_def)
  obtain x xs where f: "filter ?p (cd_messages db) = x # xs" using m by (cases "filter ?p (cd_messages db)") (auto simp: filter_empty_conv)
  have "find ?p rs = first_row (filter ?p rs)" for rs by (induction rs) (auto simp: first_row_def)
  from this [of "cd_messages db"] have "x = m" using Some unfolding f by (simp add: sql_first_def first_row_def)
  then show ?thesis using assms(1) Some u f m
    by (intro known [of m ?st])
      (auto simp: update_message_status_def Let_def sql_returning_def first_row_def set_status_def split: sms_delivery_status.splits)
qed

section \<open>The invariant is kept\<close>

lemma threaded_kept: "threads_kept db db' \<Longrightarrow> threaded db m \<Longrightarrow> threaded db' m"
  by (auto simp: threaded_def threads_kept_def split: option.splits)

lemma conversations_okD:
  assumes "conversations_ok S"
  shows "distinct (map mg_id (cd_messages (sy_db S)))" "provider_ids_unique (cd_messages (sy_db S))"
    "m \<in> set (cd_messages (sy_db S)) \<Longrightarrow> message_ok S m"
    "(i, from, to', body) \<in> set (sy_sending S) \<Longrightarrow> stored_id S i \<and> list_ex (is_thread from to') (cd_conversations (sy_db S))"
    "i \<in> set (sy_retrying S) \<Longrightarrow> stored_id S i"
    "row \<in> set (sy_checked S) \<Longrightarrow> stored_id S (mg_id row) \<and> mg_retry_count row < MAX_RETRIES"
  using assms by (fastforce simp: conversations_ok_def)+

text \<open>Adding a message, and changing one.\<close>

lemma ok_insert:
  assumes ok: "conversations_ok S" and ms: "cd_messages db = cd_messages (sy_db S) @ [row]"
    and k: "threads_kept (sy_db S) db" and fresh: "\<not> stored_id S (mg_id row)"
    and free: "message_id_free (mg_provider_message_id row) (cd_messages (sy_db S))"
    and row: "message_ok (S\<lparr> sy_db := db, sy_sending := extra @ sy_sending S \<rparr>) row"
    and extra: "\<forall>(i, from, to', body) \<in> set extra. i = mg_id row \<and> list_ex (is_thread from to') (cd_conversations db)"
  shows "conversations_ok (S\<lparr> sy_db := db, sy_sending := extra @ sy_sending S \<rparr>)"
proof -
  let ?T = "S\<lparr> sy_db := db, sy_sending := extra @ sy_sending S \<rparr>"
  note d = conversations_okD [OF ok]
  have "message_ok ?T m" if "m \<in> set (cd_messages (sy_db S))" for m
    using d(3) [OF that] threaded_kept [OF k] by (auto simp: message_ok_def in_flight_def)
  moreover have "distinct (map mg_id (cd_messages db))" using d(1) fresh by (simp add: ms stored_id_def)
  moreover have "provider_ids_unique (cd_messages db)" using unique_insert [OF d(2) free] by (simp add: ms)
  moreover have "stored_id ?T i" if "stored_id S i \<or> i = mg_id row" for i using that by (auto simp: stored_id_def ms)
  moreover have "list_ex (is_thread p q) (cd_conversations db)" if "list_ex (is_thread p q) (cd_conversations (sy_db S))" for p q
    using k that by (simp add: threads_kept_def)
  ultimately show ?thesis
    using row extra d(4-6) unfolding conversations_ok_def by (auto simp: ms) 
qed

lemma ok_change:
  assumes ok: "conversations_ok S" and f: "proper_change i (sy_db S) f"
    and ms: "cd_messages (sy_db T) = sql_update (with_id i) f (cd_messages (sy_db S))"
    and k: "threads_kept (sy_db S) (sy_db T)"
    and retries: "\<And>m. mg_retry_count m \<le> MAX_RETRIES \<Longrightarrow> mg_retry_count (f m) \<le> MAX_RETRIES"
    and flight: "\<And>j. j \<noteq> i \<Longrightarrow> in_flight S j \<Longrightarrow> in_flight T j" and stranded: "set (sy_stranded S) \<subseteq> set (sy_stranded T)"
    and pending: "\<And>m. message_ok S m \<Longrightarrow> mg_id m = i \<Longrightarrow> mg_status (f m) = Msg_PENDING
        \<Longrightarrow> in_flight T i \<or> i \<in> set (sy_stranded T)"
    and sending: "set (sy_sending T) \<subseteq> set (sy_sending S)" and retrying: "\<And>j. j \<in> set (sy_retrying T) \<Longrightarrow> stored_id S j"
    and checked: "set (sy_checked T) \<subseteq> set (sy_checked S)"
  shows "conversations_ok T"
proof -
  note d = conversations_okD [OF ok]
  have ids: "mg_id (f m) = mg_id m" "mg_conversation_number (f m) = mg_conversation_number m"
    "mg_provider_number (f m) = mg_provider_number m" for m using f by (auto simp: proper_change_def)
  have "map mg_id (cd_messages (sy_db T)) = map mg_id (cd_messages (sy_db S))"
    unfolding ms by (rule sql_update_map) (rule ids)
  then have "distinct (map mg_id (cd_messages (sy_db T)))" and "mg_id ` set (cd_messages (sy_db T)) = mg_id ` set (cd_messages (sy_db S))"
    using d(1) by (simp_all flip: set_map)
  then have dist: "distinct (map mg_id (cd_messages (sy_db T)))" and st: "stored_id T = stored_id S"
    by (simp_all add: stored_id_def fun_eq_iff)
  have "provider_ids_unique (cd_messages (sy_db T))"
    unfolding ms by (rule unique_after_change [OF d(1,2) f refl])
  moreover have "message_ok T x" if x: "x \<in> set (cd_messages (sy_db T))" for x
  proof -
    obtain m where m: "m \<in> set (cd_messages (sy_db S))" "x = (if mg_id m = i then f m else m)"
      using x unfolding ms sql_update_mem by blast
    note mok = d(3) [OF m(1), unfolded message_ok_def]
    have "threaded (sy_db T) x"
      using threaded_kept [OF k, of m] mok m(2) by (cases "mg_id m = i") (simp_all add: threaded_def ids split: option.splits)
    moreover have "mg_retry_count x \<le> MAX_RETRIES" using mok retries m(2) by simp
    moreover have "in_flight T (mg_id x) \<or> mg_id x \<in> set (sy_stranded T)" if "mg_status x = Msg_PENDING"
      using that m(2) mok pending [OF d(3) [OF m(1)]] flight [of "mg_id m"] stranded ids(1) [of m] by (auto split: if_splits)
    ultimately show ?thesis by (simp add: message_ok_def)
  qed
  moreover have "list_ex (is_thread p q) (cd_conversations (sy_db T))" if "list_ex (is_thread p q) (cd_conversations (sy_db S))" for p q
    using k that by (simp add: threads_kept_def)
  ultimately show ?thesis
    using dist d(4-6) sending retrying checked unfolding conversations_ok_def st by fastforce
qed

lemma ok_same_messages:
  assumes ok: "conversations_ok S" and "cd_messages db = cd_messages (sy_db S)" "threads_kept (sy_db S) db"
  shows "conversations_ok (S\<lparr> sy_db := db \<rparr>)"
proof -
  let ?T = "S\<lparr> sy_db := db \<rparr>"
  note d = conversations_okD [OF ok]
  have "message_ok ?T m" if "m \<in> set (cd_messages (sy_db S))" for m
    using d(3) [OF that] threaded_kept [OF assms(3)] by (auto simp: message_ok_def in_flight_def)
  moreover have "list_ex (is_thread p q) (cd_conversations db)" if "list_ex (is_thread p q) (cd_conversations (sy_db S))" for p q
    using assms(3) that by (simp add: threads_kept_def)
  moreover have "stored_id ?T = stored_id S" using assms(2) by (simp add: stored_id_def fun_eq_iff)
  ultimately show ?thesis
    using d assms(2) unfolding conversations_ok_def by fastforce
qed

lemma in_flight_remove1: "j \<noteq> i \<Longrightarrow> in_flight S j \<Longrightarrow>
    in_flight (S\<lparr> sy_db := db, sy_sending := remove1 (i, p, q, b) (sy_sending S) \<rparr>) j"
  by (auto simp: in_flight_def image_iff)

lemma ok_hide:
  assumes ok: "conversations_ok S"
  shows "conversations_ok (S\<lparr> sy_db := sy_db S\<lparr> cd_messages :=
    sql_update (with_id i) (\<lambda>m. m\<lparr> mg_removed := b \<rparr>) (cd_messages (sy_db S)) \<rparr> \<rparr>)"
  by (rule ok_change [OF ok, of i "\<lambda>m. m\<lparr> mg_removed := b \<rparr>"])
    (use conversations_okD(5) [OF ok] in \<open>auto simp: in_flight_def message_ok_def\<close>)

lemma ok_step:
  assumes ok: "conversations_ok S" and step: "conversation_step S e T"
  shows "conversations_ok T"
  using step
proof cases
  case (cs_send i now "from" to body to' m db)
  note b = send_begin_Inr [OF cs_send(4)]
  obtain row where row: "cd_messages db = cd_messages (sy_db S) @ [row]" "mg_id row = i" "mg_provider_message_id row = None"
       "mg_provider_number row = Some from" "mg_conversation_number row = to'" "mg_retry_count row = 0" using b(3) by blast
  have "conversations_ok (S\<lparr> sy_db := db, sy_sending := [(i, from, to', body)] @ sy_sending S \<rparr>)"
    using ok row(1) b(1)
  proof (rule ok_insert)
    show "\<not> stored_id S (mg_id row)" using cs_send(3) row(2) by (auto simp: stored_id_def list_ex_iff)
    show "message_id_free (mg_provider_message_id row) (cd_messages (sy_db S))" by (simp add: message_id_free_def row(3))
    show "message_ok (S\<lparr> sy_db := db, sy_sending := [(i, from, to', body)] @ sy_sending S \<rparr>) row"
      using row b(2) by (simp add: message_ok_def threaded_def in_flight_def)
    show "\<forall>(i, from, to', body) \<in> set [(i, from, to', body)]. i = mg_id row \<and> list_ex (is_thread from to') (cd_conversations db)"
      using row(2) b(2) by simp
  qed
  with cs_send(2) show ?thesis by simp
next
  case (cs_send_refused i now "from" to body e db)
  with send_begin_Inl [OF cs_send_refused(3)] ok_same_messages [OF ok] show ?thesis by simp
next
  case (cs_sent i "from" to' body result now r db es)
  obtain f where f: "proper_change i (sy_db S) f" "\<And>m. mg_status (f m) \<noteq> Msg_PENDING \<and> mg_retry_count (f m) = mg_retry_count m"
      "cd_messages db = sql_update (with_id i) f (cd_messages (sy_db S))" "threads_kept (sy_db S) db"
    using send_finish_settles [OF cs_sent(4)] by (auto simp: settled_by_def)
  show ?thesis unfolding cs_sent(2)
    by (rule ok_change [OF ok f(1)])
      (use f in_flight_remove1 conversations_okD(5) [OF ok] in \<open>auto simp: in_flight_def dest: notin_set_remove1 set_remove1_subset [THEN subsetD]\<close>)
next
  case (cs_receive i now pid "from" to body t r db es)
  show ?thesis using cs_receive(4)
  proof (cases rule: receive_store_cases)
    case failed
    with ok_same_messages [OF ok] cs_receive(2) show ?thesis by simp
  next
    case (stored row)
    have "conversations_ok (S\<lparr> sy_db := db, sy_sending := [] @ sy_sending S \<rparr>)"
      using ok stored(3,4)
    proof (rule ok_insert)
      show "\<not> stored_id S (mg_id row)" using cs_receive(3) stored(7) by (auto simp: stored_id_def list_ex_iff)
      show "message_id_free (mg_provider_message_id row) (cd_messages (sy_db S))" by (rule stored(6))
      show "message_ok (S\<lparr> sy_db := db, sy_sending := [] @ sy_sending S \<rparr>) row"
        using stored(5,7) by (simp add: message_ok_def threaded_def)
    qed simp
    with cs_receive(2) show ?thesis by simp
  qed
next
  case (cs_retry_check i row)
  with ok retry_check_Inr [OF cs_retry_check(3)] show ?thesis
    by (auto simp: conversations_ok_def message_ok_def stored_id_def in_flight_def)
next
  case (cs_retry_mark row q db)
  have n: "mg_retry_count row < MAX_RETRIES" "stored_id S (mg_id row)" using conversations_okD(6) [OF ok cs_retry_mark(3)] by auto
  show ?thesis unfolding cs_retry_mark(2)
    by (rule ok_change [OF ok, of "mg_id row" "set_retry (mg_retry_count row + 1)"])
      (use n retry_mark_db [OF cs_retry_mark(4)] conversations_okD(5) [OF ok] in
        \<open>auto simp: in_flight_def set_retry_def dest: set_remove1_subset [THEN subsetD]\<close>)
next
  case (cs_retried i result r db es)
  have st: "i \<in> mg_id ` set (cd_messages (sy_db S))" using conversations_okD(5) [OF ok cs_retried(3)] by (simp add: stored_id_def)
  show ?thesis using cs_retried(4) st
  proof (cases rule: retry_finish_cases)
    case (taken a)
    have "sql_update (with_id i) (\<lambda>m. m) ms = ms" for ms by (simp add: sql_update_def)
    moreover have "proper_change i (sy_db S) (\<lambda>m. m)" by (simp add: proper_change_def)
    ultimately show ?thesis
      unfolding cs_retried(2)
      by (intro ok_change [OF ok, of i "\<lambda>m. m"])
        (use taken conversations_okD(5) [OF ok] in \<open>auto simp: in_flight_def dest: notin_set_remove1\<close>)
  next
    case (settled m)
    then obtain f where f: "proper_change i (sy_db S) f" "\<And>m. mg_status (f m) \<noteq> Msg_PENDING \<and> mg_retry_count (f m) = mg_retry_count m"
        "cd_messages db = sql_update (with_id i) f (cd_messages (sy_db S))" "threads_kept (sy_db S) db"
      by (auto simp: settled_by_def)
    show ?thesis unfolding cs_retried(2)
      by (rule ok_change [OF ok f(1)])
        (use f conversations_okD(5) [OF ok] settled(4) in \<open>auto simp: in_flight_def dest: notin_set_remove1\<close>)
  qed
next
  case (cs_receipt pid st r db es)
  note d = conversations_okD [OF ok]
  show ?thesis using cs_receipt(4) d(1,2)
  proof (cases rule: receipt_cases)
    case unknown
    with ok cs_receipt(2) show ?thesis by simp
  next
    case (known m st')
    show ?thesis unfolding cs_receipt(2)
      by (rule ok_change [OF ok, of "mg_id m" "set_status st'"])
        (use known(2,3) d(5) in \<open>auto simp: in_flight_def set_status_def\<close>)
  qed
next
  case (cs_remove_conversation provider phone)
  then show ?thesis
    using ok_same_messages [OF ok, of "remove_conversation provider phone (sy_db S)"]
    by (simp add: remove_conversation_def threads_update)
next
  case (cs_remove_message i)
  then show ?thesis using ok_hide [OF ok, of i True] by (simp add: remove_message_def update_message_def)
next
  case (cs_restore_message i)
  then show ?thesis using ok_hide [OF ok, of i False] by (simp add: restore_message_def update_message_def)
qed

interpretation conversation: invariant_system conversation_init conversation_step conversations_ok
proof
  show "conversation_init S \<Longrightarrow> conversations_ok S" for S
    by (simp add: conversation_init_def conversations_ok_def provider_ids_unique_def)
  show "conversations_ok S \<Longrightarrow> conversation_step S e T \<Longrightarrow> conversations_ok T" for S e T
    by (rule ok_step)
qed

section \<open>Received messages stay\<close>

text \<open>A received message is never on its way out.\<close>

definition received_ok :: "conversation_system \<Rightarrow> bool" where
  "received_ok S \<longleftrightarrow> (\<forall>m \<in> set (cd_messages (sy_db S)). mg_direction m = Dir_RECEIVED \<longrightarrow>
     mg_status m = Msg_DELIVERED \<and> \<not> in_flight S (mg_id m) \<and> mg_id m \<notin> mg_id ` set (sy_checked S))"

lemma received_okD:
  assumes "received_ok S" "m \<in> set (cd_messages (sy_db S))" "mg_direction m = Dir_RECEIVED"
  shows "mg_status m = Msg_DELIVERED" "\<not> in_flight S (mg_id m)" "mg_id m \<notin> mg_id ` set (sy_checked S)"
  using assms by (auto simp: received_ok_def)

text \<open>The rows after a step that concerns one message: the others are as they were.\<close>

definition untouched_but :: "string \<Rightarrow> message_row list \<Rightarrow> message_row list \<Rightarrow> bool" where
  "untouched_but i ms ms' \<longleftrightarrow> (\<forall>m. mg_id m \<noteq> i \<longrightarrow> m \<in> set ms' \<longleftrightarrow> m \<in> set ms)
     \<and> (\<forall>m' \<in> set ms'. \<exists>m \<in> set ms. mg_id m = mg_id m' \<and> mg_direction m = mg_direction m')"

lemma untouched_refl [simp]: "untouched_but i ms ms"
  by (auto simp: untouched_but_def)

lemma untouched_change: "proper_change i db f \<Longrightarrow> untouched_but i ms (sql_update (with_id i) f ms)"
  by (fastforce simp: untouched_but_def sql_update_def proper_change_def)

lemma settled_untouched: "settled_by i db db' \<Longrightarrow> untouched_but i (cd_messages db) (cd_messages db')"
  using untouched_change by (auto simp: settled_by_def)

lemma received_change_sent:
  assumes "received_ok S" "untouched_but i (cd_messages (sy_db S)) (cd_messages (sy_db T))"
    and i: "\<And>m. m \<in> set (cd_messages (sy_db S)) \<Longrightarrow> mg_id m = i \<Longrightarrow> mg_direction m = Dir_SENT"
    and T: "\<And>j. in_flight T j \<Longrightarrow> in_flight S j \<or> j = i"
      "mg_id ` set (sy_checked T) \<subseteq> mg_id ` set (sy_checked S)"
  shows "received_ok T \<and> (\<forall>m \<in> set (cd_messages (sy_db S)). mg_direction m = Dir_RECEIVED \<longrightarrow> m \<in> set (cd_messages (sy_db T)))"
proof -
  note d = received_okD [OF assms(1)]
  have other: "mg_id m \<noteq> i" if "m \<in> set (cd_messages (sy_db S))" "mg_direction m = Dir_RECEIVED" for m
    using i [OF that(1)] that(2) by auto
  have "mg_status m = Msg_DELIVERED \<and> \<not> in_flight T (mg_id m) \<and> mg_id m \<notin> mg_id ` set (sy_checked T)"
    if m: "m \<in> set (cd_messages (sy_db T))" "mg_direction m = Dir_RECEIVED" for m
  proof -
    obtain m0 where "m0 \<in> set (cd_messages (sy_db S))" "mg_id m0 = mg_id m" "mg_direction m0 = mg_direction m"
      using assms(2) m(1) by (auto simp: untouched_but_def)
    then have ne: "mg_id m \<noteq> i" using other m(2) by metis
    then have "m \<in> set (cd_messages (sy_db S))" using assms(2) m(1) by (auto simp: untouched_but_def)
    from d [OF this m(2)] T ne show ?thesis by blast
  qed
  moreover have "m \<in> set (cd_messages (sy_db T))" if "m \<in> set (cd_messages (sy_db S))" "mg_direction m = Dir_RECEIVED" for m
    using assms(2) other [OF that] that(1) by (auto simp: untouched_but_def)
  ultimately show ?thesis by (auto simp: received_ok_def)
qed

lemma received_change:
  assumes "received_ok S" "untouched_but i (cd_messages (sy_db S)) (cd_messages (sy_db T))"
    and i: "in_flight S i \<or> i \<in> mg_id ` set (sy_checked S)"
    and "\<And>j. in_flight T j \<Longrightarrow> in_flight S j \<or> j = i" "mg_id ` set (sy_checked T) \<subseteq> mg_id ` set (sy_checked S)"
  shows "received_ok T \<and> (\<forall>m \<in> set (cd_messages (sy_db S)). mg_direction m = Dir_RECEIVED \<longrightarrow> m \<in> set (cd_messages (sy_db T)))"
proof (rule received_change_sent [OF assms(1,2) _ assms(4,5)])
  fix m assume "m \<in> set (cd_messages (sy_db S))" "mg_id m = i"
  then show "mg_direction m = Dir_SENT" using received_okD [OF assms(1)] i by (cases "mg_direction m") auto
qed

text \<open>A received message after a step: the same but for being hidden or shown.\<close>

definition received_stays :: "conversation_db \<Rightarrow> conversation_db \<Rightarrow> bool" where
  "received_stays db db' \<longleftrightarrow> (\<forall>m \<in> set (cd_messages db). mg_direction m = Dir_RECEIVED \<longrightarrow>
     (\<exists>b. m\<lparr> mg_removed := b \<rparr> \<in> set (cd_messages db')))"

lemma received_stays_same: "(\<And>m. m \<in> set (cd_messages db) \<Longrightarrow> mg_direction m = Dir_RECEIVED \<Longrightarrow> m \<in> set (cd_messages db')) \<Longrightarrow> received_stays db db'"
  unfolding received_stays_def by (metis message_row.surjective message_row.update_convs(1))

lemma received_stays_trans:
  assumes "received_stays a b" "received_stays b c"
  shows "received_stays a c"
  unfolding received_stays_def
proof (intro ballI impI)
  fix m assume m: "m \<in> set (cd_messages a)" "mg_direction m = Dir_RECEIVED"
  with assms(1) obtain x where "m\<lparr> mg_removed := x \<rparr> \<in> set (cd_messages b)" by (auto simp: received_stays_def)
  with assms(2) m(2) obtain y where "(m\<lparr> mg_removed := x \<rparr>)\<lparr> mg_removed := y \<rparr> \<in> set (cd_messages c)"
    by (fastforce simp: received_stays_def)
  then show "\<exists>z. m\<lparr> mg_removed := z \<rparr> \<in> set (cd_messages c)" by auto
qed

lemma received_insert:
  assumes "received_ok S" "cd_messages (sy_db T) = cd_messages (sy_db S) @ rows" "sy_retrying T = sy_retrying S"
    and "sy_checked T = sy_checked S" "set (sy_sending T) \<subseteq> set (sy_sending S) \<union> extra"
    and "\<And>row. row \<in> set rows \<Longrightarrow> mg_direction row = Dir_RECEIVED \<Longrightarrow> mg_status row = Msg_DELIVERED \<and> extra = {}
        \<and> \<not> in_flight S (mg_id row) \<and> mg_id row \<notin> mg_id ` set (sy_checked S)"
    and "\<And>s. s \<in> extra \<Longrightarrow> \<not> stored_id S (fst s)"
  shows "received_ok T \<and> received_stays (sy_db S) (sy_db T)"
proof
  have flight: "in_flight S j \<or> j \<in> fst ` extra" if "in_flight T j" for j
    using that assms(3,5) by (auto simp: in_flight_def)
  show "received_ok T"
    unfolding received_ok_def
  proof (intro ballI impI)
    fix m assume m: "m \<in> set (cd_messages (sy_db T))" "mg_direction m = Dir_RECEIVED"
    show "mg_status m = Msg_DELIVERED \<and> \<not> in_flight T (mg_id m) \<and> mg_id m \<notin> mg_id ` set (sy_checked T)"
    proof (cases "m \<in> set (cd_messages (sy_db S))")
      case True
      then have "stored_id S (mg_id m)" by (simp add: stored_id_def)
      then have "mg_id m \<notin> fst ` extra" using assms(7) by fastforce
      with received_okD [OF assms(1) True m(2)] flight [of "mg_id m"] show ?thesis by (auto simp: assms(4))
    next
      case False
      with m(1) have "m \<in> set rows" by (simp add: assms(2))
      from assms(6) [OF this m(2)] flight [of "mg_id m"] show ?thesis by (auto simp: assms(4))
    qed
  qed
  show "received_stays (sy_db S) (sy_db T)" by (rule received_stays_same) (simp add: assms(2))
qed

lemma hidden_row:
  "(if mg_id m = i then m\<lparr> mg_removed := b \<rparr> else m) = m\<lparr> mg_removed := if mg_id m = i then b else mg_removed m \<rparr>"
  by simp

lemma received_hide:
  assumes "received_ok S"
  shows "received_ok (S\<lparr> sy_db := sy_db S\<lparr> cd_messages := sql_update (with_id i) (\<lambda>m. m\<lparr> mg_removed := b \<rparr>) (cd_messages (sy_db S)) \<rparr> \<rparr>)
    \<and> received_stays (sy_db S) (sy_db S\<lparr> cd_messages := sql_update (with_id i) (\<lambda>m. m\<lparr> mg_removed := b \<rparr>) (cd_messages (sy_db S)) \<rparr>)"
proof
  show "received_ok (S\<lparr> sy_db := sy_db S\<lparr> cd_messages := sql_update (with_id i) (\<lambda>m. m\<lparr> mg_removed := b \<rparr>) (cd_messages (sy_db S)) \<rparr> \<rparr>)"
    using assms by (simp add: received_ok_def in_flight_def sql_update_def hidden_row)
  have "m\<lparr> mg_removed := if mg_id m = i then b else mg_removed m \<rparr>
      \<in> set (sql_update (with_id i) (\<lambda>m. m\<lparr> mg_removed := b \<rparr>) (cd_messages (sy_db S)))"
    if "m \<in> set (cd_messages (sy_db S))" for m
    using that by (simp add: sql_update_def hidden_row)
  then show "received_stays (sy_db S) (sy_db S\<lparr> cd_messages := sql_update (with_id i) (\<lambda>m. m\<lparr> mg_removed := b \<rparr>) (cd_messages (sy_db S)) \<rparr>)"
    unfolding received_stays_def by (simp, blast)
qed

lemma not_stored_not_busy: "conversations_ok S \<Longrightarrow> \<not> stored_id S i \<Longrightarrow> \<not> in_flight S i \<and> i \<notin> mg_id ` set (sy_checked S)"
  using conversations_okD(4-6) unfolding in_flight_def by fastforce

lemma received_step:
  assumes ok: "conversations_ok S" and rec: "received_ok S" and step: "conversation_step S e T"
  shows "received_ok T \<and> received_stays (sy_db S) (sy_db T)"
  using step
proof cases
  case (cs_send i now "from" to body to' m db)
  obtain row where row: "cd_messages db = cd_messages (sy_db S) @ [row]" "mg_direction row = Dir_SENT"
    using send_begin_Inr(3) [OF cs_send(4)] by blast
  show ?thesis unfolding cs_send(2)
    by (rule received_insert [OF rec, of _ "[row]" "{(i, from, to', body)}"])
      (use row cs_send(3) in \<open>auto simp: stored_id_def list_ex_iff\<close>)
next
  case (cs_send_refused i now "from" to body e db)
  show ?thesis unfolding cs_send_refused(2)
    by (rule received_insert [OF rec, of _ "[]" "{}"]) (use send_begin_Inl [OF cs_send_refused(3)] in auto)
next
  case (cs_sent i "from" to' body result now r db es)
  have "in_flight S i" using cs_sent(3) by (force simp: in_flight_def)
  then have "received_ok T \<and> (\<forall>m \<in> set (cd_messages (sy_db S)). mg_direction m = Dir_RECEIVED \<longrightarrow> m \<in> set (cd_messages (sy_db T)))"
    unfolding cs_sent(2)
    by (intro received_change [OF rec, of i])
      (use settled_untouched [OF send_finish_settles [OF cs_sent(4)]] in \<open>auto simp: in_flight_def dest: notin_set_remove1 set_remove1_subset [THEN subsetD]\<close>)
  then show ?thesis using received_stays_same by blast
next
  case (cs_receive i now pid "from" to body t r db es)
  show ?thesis using cs_receive(4)
  proof (cases rule: receive_store_cases)
    case failed
    show ?thesis unfolding cs_receive(2) by (rule received_insert [OF rec, of _ "[]" "{}"]) (use failed in auto)
  next
    case (stored row)
    have "\<not> stored_id S i" using cs_receive(3) by (auto simp: stored_id_def list_ex_iff)
    from not_stored_not_busy [OF ok this] show ?thesis
      unfolding cs_receive(2) by (intro received_insert [OF rec, of _ "[row]" "{}"]) (use stored in auto)
  qed
next
  case (cs_retry_check i row)
  have "mg_direction row = Dir_SENT"
    using received_okD(1) [OF rec, of row] retry_check_Inr [OF cs_retry_check(3)] by (cases "mg_direction row") auto
  moreover have "mg_direction m = Dir_SENT" if "m \<in> set (cd_messages (sy_db S))" "mg_id m = mg_id row" for m
    using conversations_okD(1) [OF ok] retry_check_Inr [OF cs_retry_check(3)] that calculation by (auto simp: distinct_map dest: inj_onD)
  ultimately have "received_ok T"
    using rec unfolding cs_retry_check(2) by (force simp: received_ok_def in_flight_def)
  then show ?thesis using received_stays_same [of "sy_db S" "sy_db T"] cs_retry_check(2) by simp
next
  case (cs_retry_mark row q db)
  have "mg_id row \<in> mg_id ` set (sy_checked S)" using cs_retry_mark(3) by simp
  then have "received_ok T \<and> (\<forall>m \<in> set (cd_messages (sy_db S)). mg_direction m = Dir_RECEIVED \<longrightarrow> m \<in> set (cd_messages (sy_db T)))"
    unfolding cs_retry_mark(2)
    by (intro received_change [OF rec, of "mg_id row"])
      (use retry_mark_db [OF cs_retry_mark(4)] untouched_change [OF proper_changes(3), where i = "mg_id row"] in
        \<open>auto simp: in_flight_def dest: set_remove1_subset [THEN subsetD]\<close>)
  then show ?thesis using received_stays_same by blast
next
  case (cs_retried i result r db es)
  have st: "i \<in> mg_id ` set (cd_messages (sy_db S))" using conversations_okD(5) [OF ok cs_retried(3)] by (simp add: stored_id_def)
  have "untouched_but i (cd_messages (sy_db S)) (cd_messages db)"
    using cs_retried(4) st by (cases rule: retry_finish_cases) (simp_all add: settled_untouched)
  moreover have "in_flight S i" using cs_retried(3) by (simp add: in_flight_def)
  ultimately have "received_ok T \<and> (\<forall>m \<in> set (cd_messages (sy_db S)). mg_direction m = Dir_RECEIVED \<longrightarrow> m \<in> set (cd_messages (sy_db T)))"
    unfolding cs_retried(2)
    by (intro received_change [OF rec, of i]) (auto simp: in_flight_def dest: notin_set_remove1)
  then show ?thesis using received_stays_same by blast
next
  case (cs_receipt pid st r db es)
  note d = conversations_okD [OF ok]
  show ?thesis using cs_receipt(4) d(1,2)
  proof (cases rule: receipt_cases)
    case unknown
    with rec cs_receipt(2) received_stays_same [of "sy_db S" "sy_db S"] show ?thesis by simp
  next
    case (known m st')
    have "received_ok T \<and> (\<forall>m \<in> set (cd_messages (sy_db S)). mg_direction m = Dir_RECEIVED \<longrightarrow> m \<in> set (cd_messages (sy_db T)))"
    proof (rule received_change_sent [OF rec])
      show "untouched_but (mg_id m) (cd_messages (sy_db S)) (cd_messages (sy_db T))"
        using untouched_change [OF proper_changes(1), where i = "mg_id m"] by (simp add: cs_receipt(2) known(3))
      fix x assume x: "x \<in> set (cd_messages (sy_db S))" "mg_id x = mg_id m"
      then have "x = m" using d(1) known(1) by (auto simp: distinct_map dest: inj_onD)
      then show "mg_direction x = Dir_SENT" using cs_receipt(3) known(1,4) by (auto simp: list_all_iff)
    qed (auto simp: cs_receipt(2) in_flight_def)
    then show ?thesis using received_stays_same by blast
  qed
next
  case (cs_remove_conversation provider phone)
  show ?thesis unfolding cs_remove_conversation
    by (rule received_insert [OF rec, of _ "[]" "{}"]) (auto simp: remove_conversation_def)
next
  case (cs_remove_message i)
  then show ?thesis using received_hide [OF rec, of i True] by (simp add: remove_message_def update_message_def)
next
  case (cs_restore_message i)
  then show ?thesis using received_hide [OF rec, of i False] by (simp add: restore_message_def update_message_def)
qed

definition conversations_inv :: "conversation_system \<Rightarrow> bool" where
  "conversations_inv S \<longleftrightarrow> conversations_ok S \<and> received_ok S"

interpretation received: invariant_system conversation_init conversation_step conversations_inv
proof
  show "conversation_init S \<Longrightarrow> conversations_inv S" for S
    by (simp add: conversation_init_def conversations_inv_def conversations_ok_def received_ok_def provider_ids_unique_def)
  show "conversations_inv S \<Longrightarrow> conversation_step S e T \<Longrightarrow> conversations_inv T" for S e T
    using ok_step [of S e T] received_step [of S e T] by (simp add: conversations_inv_def)
qed

lemma received_run:
  "run conversation_step S es T \<Longrightarrow> conversations_inv S \<Longrightarrow> conversations_inv T \<and> received_stays (sy_db S) (sy_db T)"
proof (induction rule: run.induct)
  case (run_Nil S)
  then show ?case using received_stays_same by blast
next
  case (run_Cons S e T es U)
  then have "conversations_inv T \<and> received_stays (sy_db S) (sy_db T)"
    using received.inv_step [of S e T] received_step [of S e T] by (simp add: conversations_inv_def)
  with run_Cons show ?case using received_stays_trans by blast
qed

lemma only_element: "distinct xs \<Longrightarrow> (\<And>x. x \<in> set xs \<Longrightarrow> x = a) \<Longrightarrow> a \<in> set xs \<Longrightarrow> xs = [a]"
proof (cases xs)
  case (Cons x ys)
  assume a: "distinct xs" "\<And>x. x \<in> set xs \<Longrightarrow> x = a"
  from a(2) Cons have "x = a" by simp
  moreover have "ys = []" using a Cons by (cases ys) auto
  ultimately show ?thesis using Cons by simp
qed simp

section \<open>Sending\<close>

text \<open>C28. In every reachable state, whatever other requests run meanwhile, a message being sent comes to
  rest when the provider answers: it is sent when the provider accepted it and failed when it
  refused or could not be reached, never left pending and never an error of the request, also
  when the identifier the provider gave is already taken, which the message then does without.
  The thread is in the table and the devices are told once.\<close>

theorem sending_settles:
  assumes "reach conversation_init conversation_step S" "(i, from, to', body) \<in> set (sy_sending S)"
  shows "\<exists>m db. send_finish result now from to' body i (sy_db S) = (Inr m, db, [New_Message to' from m])
     \<and> mg_id m = i
     \<and> mg_status m = (if result \<noteq> None \<and> sr_success (the result) then Msg_SENT else Msg_FAILED)
     \<and> (mg_status m = Msg_SENT \<and> sent_id_free i (sr_message_id (the result)) (sy_db S) \<longrightarrow>
          mg_provider_message_id m = Some (sr_message_id (the result)))
     \<and> map map_row (filter (with_id i) (cd_messages db)) = [m]
     \<and> list_ex (is_thread from to') (cd_conversations db)"
proof -
  have ok: "conversations_ok S" by (rule conversation.reach_inv [OF assms(1)])
  note d = conversations_okD [OF ok]
  have st: "stored_id S i" and th: "list_ex (is_thread from to') (cd_conversations (sy_db S))" using d(4) [OF assms(2)] by auto
  let ?f = "sent_update result i (sy_db S)"
  have dist: "distinct (filter (with_id i) (cd_messages (sy_db S)))" using d(1) by (simp add: distinct_map)
  obtain r where r: "r \<in> set (cd_messages (sy_db S))" "mg_id r = i" using st by (auto simp: stored_id_def)
  have one: "filter (with_id i) (cd_messages (sy_db S)) = [r]"
    using d(1) r by (intro only_element [OF dist]) (auto simp: distinct_map dest: inj_onD)
  have keep: "mg_id (?f x) = mg_id x" for x using sent_update_proper(1) [of i "sy_db S" result] by (simp add: proper_change_def)
  have "filter (with_id i) (sql_update (with_id i) ?f ms) = map ?f (filter (with_id i) ms)" for ms
    using keep by (induction ms) (auto simp: sql_update_def)
  then have after: "filter (with_id i) (sql_update (with_id i) ?f (cd_messages (sy_db S))) = [?f r]" by (simp add: one)
  let ?db = "update_conversation_metadata from to' body now ((sy_db S)\<lparr> cd_messages := sql_update (with_id i) ?f (cd_messages (sy_db S)) \<rparr>)"
  have "send_finish result now from to' body i (sy_db S) = (Inr (map_row (?f r)), ?db, [New_Message to' from (map_row (?f r))])"
    by (simp add: send_finish_eq one)
  moreover have "list_ex (is_thread from to') (cd_conversations ?db)"
    using metadata_tables(1) th by (simp add: threads_kept_def)
  moreover have "map map_row (filter (with_id i) (cd_messages ?db)) = [map_row (?f r)]" by (simp add: after)
  moreover have "mg_id (map_row (?f r)) = i"
      "mg_status (map_row (?f r)) = (if result \<noteq> None \<and> sr_success (the result) then Msg_SENT else Msg_FAILED)"
      "mg_status (map_row (?f r)) = Msg_SENT \<and> sent_id_free i (sr_message_id (the result)) (sy_db S) \<longrightarrow>
          mg_provider_message_id (map_row (?f r)) = Some (sr_message_id (the result))"
    using r by (auto simp: map_row_def message.defs sent_update_def set_status_def set_sent_def split: option.splits)
  ultimately show ?thesis by - (intro exI conjI; assumption)
qed

section \<open>Receiving\<close>

lemma received_kept:
  assumes "reach conversation_init conversation_step S" "run conversation_step S es T"
    and "m \<in> set (cd_messages (sy_db S))" "mg_direction m = Dir_RECEIVED" "mg_provider_message_id m = Some pid" "pid \<noteq> ''''"
  shows "(\<exists>b. filter (\<lambda>x. mg_provider_message_id x = Some pid) (cd_messages (sy_db T)) = [m\<lparr> mg_removed := b \<rparr>])
     \<and> receive_message j now pid from to body t (sy_db T) = (Inr None, sy_db T, [])
     \<and> fst (receive_store j now pid from to body t (sy_db T)) = Inl Constraint_Violation
     \<and> cd_messages (fst (snd (receive_store j now pid from to body t (sy_db T)))) = cd_messages (sy_db T)"
proof -
  have "conversations_inv S" by (rule received.reach_inv [OF assms(1)])
  with received_run [OF assms(2)] have inv: "conversations_inv T" and stays: "received_stays (sy_db S) (sy_db T)" by auto
  obtain b where b: "m\<lparr> mg_removed := b \<rparr> \<in> set (cd_messages (sy_db T))" using stays assms(3,4) by (auto simp: received_stays_def)
  let ?m = "m\<lparr> mg_removed := b \<rparr>" and ?ms = "cd_messages (sy_db T)" and ?p = "\<lambda>x. mg_provider_message_id x = Some pid"
  have pm: "?p ?m" using assms(5) by simp
  note d = conversations_okD(1,2) [of T]
  have same: "x = ?m" if "x \<in> set ?ms" "?p x" for x
  proof -
    have "mg_id x = mg_id ?m"
      using inv d(2) [unfolded provider_ids_unique_def, rule_format, OF _ that(1) b] that(2) pm by (simp add: conversations_inv_def)
    then show ?thesis using inv d(1) that(1) b by (intro inj_onD [of mg_id "set ?ms"]) (auto simp: conversations_inv_def distinct_map)
  qed
  have "distinct (filter ?p ?ms)" using inv d(1) by (simp add: conversations_inv_def distinct_map)
  then have one: "filter ?p ?ms = [?m]"
  proof (rule only_element)
    show "x \<in> set (filter ?p ?ms) \<Longrightarrow> x = ?m" for x using same by simp
    show "?m \<in> set (filter ?p ?ms)" using b pm by simp
  qed
  have dup: "receive_duplicate pid (sy_db T)"
  proof -
    have "sql_first ?p ?ms \<noteq> None" unfolding sql_first_None using b pm by blast
    then show ?thesis using assms(6) by (simp add: receive_duplicate_def)
  qed
  obtain r db es' where rs: "receive_store j now pid from to body t (sy_db T) = (r, db, es')" by (cases "receive_store j now pid from to body t (sy_db T)") auto
  from rs have "r = Inl Constraint_Violation \<and> cd_messages db = ?ms"
  proof (cases rule: receive_store_cases)
    case (stored row)
    then have "\<forall>x \<in> set ?ms. \<not> ?p x" using assms(6) by (simp add: message_id_free_def list_all_iff)
    with b pm show ?thesis by blast
  qed simp
  with one dup rs show ?thesis by (auto simp: receive_message_def)
qed


section \<open>Examples\<close>

definition own_number :: jstr where
  "own_number = [43, 52, 54, 55, 48, 48, 48, 49]"

definition other_number :: jstr where
  "other_number = [43, 52, 54, 55, 48, 48, 48, 50]"

definition empty_conversations :: conversation_db where
  "empty_conversations = \<lparr> cd_conversations = [], cd_messages = [], cd_numbers = [own_number] \<rparr>"

definition example_start :: conversation_system where
  "example_start = \<lparr> sy_db = empty_conversations, sy_sending = [], sy_checked = [], sy_retrying = [], sy_stranded = [] \<rparr>"

definition example_row_received :: message_row where
  "example_row_received = \<lparr> mg_id = ''m1'', mg_provider_message_id = Some ''x'', mg_conversation_number = other_number,
     mg_provider_number = Some own_number, mg_body = [72, 105], mg_direction = Dir_RECEIVED, mg_status = Msg_DELIVERED,
     mg_timestamp = 7, mg_retry_count = 0, mg_removed = False \<rparr>"

lemma example_start_reached: "reach conversation_init conversation_step example_start"
  by (rule reach_init) (simp add: conversation_init_def example_start_def empty_conversations_def)

lemma example_receive:
  "\<exists>r db es. receive_store ''m1'' 5 ''x'' other_number own_number [72, 105] (Some 7) empty_conversations = (r, db, es)
     \<and> cd_messages db = [example_row_received]"
  by (simp add: receive_store_def Let_def upsert_conversation_def sql_first_def sql_insert_def insert_message_def
      empty_conversations_def message_id_free_def example_row_received_def)

lemma example_send:
  "\<exists>m db. send_begin ''m2'' 9 own_number other_number [72, 105] empty_conversations = (Inr (other_number, m), db)"
proof -
  have "validate_message [72, 105] = Valid" "validate_phone_number other_number = Valid"
      "normalize_to_e164 other_number own_number = other_number"
    by (simp_all add: text_eval validate_message_def validate_phone_number_def normalize_to_e164_def E164_REGEX_def
        other_number_def)
  then show ?thesis
    by (simp add: send_begin_def Let_def upsert_conversation_def sql_first_def sql_insert_def insert_message_def
        empty_conversations_def message_id_free_def)
qed

lemma sending_settles_witness:
  "\<exists>db m S. send_finish (Some \<lparr> sr_message_id = ''y'', sr_success = True, sr_error_reason = None \<rparr>) 10 own_number other_number
      [72, 105] ''m2'' S = (Inr m, db, [New_Message other_number own_number m]) \<and> mg_status m = Msg_SENT"
proof -
  obtain m db where b: "send_begin ''m2'' 9 own_number other_number [72, 105] empty_conversations = (Inr (other_number, m), db)"
    using example_send by blast
  let ?S = "example_start\<lparr> sy_db := db, sy_sending := (''m2'', own_number, other_number, [72, 105]) # sy_sending example_start \<rparr>"
  have "conversation_step example_start (Step_Send ''m2'' (Inr (other_number, m))) ?S"
    by (rule cs_send) (use b in \<open>simp_all add: example_start_def empty_conversations_def\<close>)
  with example_start_reached have S: "reach conversation_init conversation_step ?S" by (rule reach_step)
  have i: "(''m2'', own_number, other_number, [72, 105]) \<in> set (sy_sending ?S)" by simp
  show ?thesis
    using sending_settles [OF S i, of "Some \<lparr> sr_message_id = ''y'', sr_success = True, sr_error_reason = None \<rparr>" 10] by auto
qed


section \<open>Retries\<close>

text \<open>Two retries of a message that overlap both pass the checks and both ask the provider to send it;
  the count goes up by one.\<close>

lemma overlapping_retries_send_twice:
  assumes "retry_check i db = Inr row"
  shows "\<exists>q db1 db2. retry_mark row db = (q, db1) \<and> retry_mark row db1 = (q, db2)
    \<and> (\<forall>m \<in> set (cd_messages db2). mg_id m = i \<longrightarrow> mg_retry_count m = mg_retry_count row + 1)"
  using retry_check_Inr [OF assms] by (auto simp: retry_mark_def update_message_def sql_update_def set_retry_def)

text \<open>A retried message that the provider accepted under an identifier already taken stays pending:
  the request fails, the message cannot be retried again, and it was sent.\<close>

lemma retry_collision_strands:
  assumes "sr_success a" "\<not> sent_id_free i (sr_message_id a) db" "sql_first (with_id i) (cd_messages db) = Some m"
    and "mg_status m = Msg_PENDING"
  shows "retry_finish (Some a) i db = (Inl Constraint_Violation, db, [])"
    "retry_check i db \<in> {Inl Max_Retries_Exceeded, Inl Only_Failed_Retried}"
  using assms by (auto simp: retry_finish_def Let_def retry_check_def)

end
