(* ===== verification/Read_State.thy ===== *)
theory Read_State
  imports Call_History Notifications Conversation_System
begin

text \<open>
  \<^verbatim>\<open>src/services/read-state-service.ts\<close> over the table \<^verbatim>\<open>read_state\<close> and, read only, the call
  history and the conversations; its hook marks notifications. Whether the hook is there and
  whether it throws are arguments, as are the clock readings of the service and of the hook.
  \<^verbatim>\<open>getThreadReadStates\<close> of the conversation service reads the same table.
\<close>

section \<open>Data\<close>

datatype item_type = Missed_Calls | Messages

record read_state_row =
  rs_item_type :: item_type
  rs_item_key :: jstr
  rs_read_at :: int

record read_state_counts =
  rc_unread_messages :: nat
  rc_unseen_missed_calls :: nat

record read_world =
  rw_read_state :: "read_state_row table"
  rw_history :: "call_entry table"
  rw_conversations :: conversation_db
  rw_notifications :: "notification table"

datatype read_effect = Notified notification_effect | Read_State_Updated read_state_counts "string option"

definition GLOBAL_KEY :: jstr where
  "GLOBAL_KEY = js ''global''"

definition is_item :: "item_type \<Rightarrow> jstr \<Rightarrow> read_state_row \<Rightarrow> bool" where
  "is_item type key r \<longleftrightarrow> rs_item_type r = type \<and> rs_item_key r = key"

definition upsert_read_state :: "item_type \<Rightarrow> jstr \<Rightarrow> int \<Rightarrow> read_state_row table \<Rightarrow> read_state_row table" where
  "upsert_read_state type key now t =
     (case sql_first (is_item type key) t of
        Some _ \<Rightarrow> sql_update (is_item type key) (\<lambda>r. r\<lparr> rs_read_at := now \<rparr>) t
      | None \<Rightarrow> sql_insert \<lparr> rs_item_type = type, rs_item_key = key, rs_read_at = now \<rparr> t)"

section \<open>Counts\<close>

definition get_unseen_missed_calls_count :: "read_world \<Rightarrow> nat" where
  "get_unseen_missed_calls_count w =
     (let read_state = sql_first (is_item Missed_Calls GLOBAL_KEY) (rw_read_state w)
      in sql_count (\<lambda>c. ch_call_type c = MISSED \<and> (case read_state of None \<Rightarrow> True | Some r \<Rightarrow> ch_timestamp c > rs_read_at r))
           (rw_history w))"

definition read_state_map :: "read_state_row table \<Rightarrow> (jstr, int) jmap" where
  "read_state_map t = fold (\<lambda>r. jm_set (rs_item_key r) (rs_read_at r)) (sql_select (\<lambda>r. rs_item_type r = Messages) t) []"

definition unread_in :: "(jstr, int) jmap \<Rightarrow> conversation_db \<Rightarrow> jstr \<Rightarrow> jstr \<Rightarrow> nat" where
  "unread_in read_states db provider phone =
     (let read_at = jm_get read_states (thread_key provider phone)
      in sql_count (\<lambda>m. received_in provider phone m \<and> (case read_at of None \<Rightarrow> True | Some t \<Rightarrow> mg_timestamp m > t))
           (cd_messages db))"

definition get_unread_messages_count :: "read_world \<Rightarrow> nat" where
  "get_unread_messages_count w =
     (let read_states = read_state_map (rw_read_state w)
      in fold (\<lambda>conv total. total + unread_in read_states (rw_conversations w) (cv_provider_number conv) (cv_phone_number conv))
           (cd_conversations (rw_conversations w)) 0)"

definition get_counts :: "read_world \<Rightarrow> read_state_counts" where
  "get_counts w = \<lparr> rc_unread_messages = get_unread_messages_count w, rc_unseen_missed_calls = get_unseen_missed_calls_count w \<rparr>"

definition get_thread_read_states :: "jstr list \<Rightarrow> read_world \<Rightarrow> (jstr, int) jmap" where
  "get_thread_read_states keys w =
     (if keys = [] then [] else
      fold (\<lambda>r. jm_set (rs_item_key r) (rs_read_at r))
        (sql_select (\<lambda>r. rs_item_type r = Messages \<and> rs_item_key r \<in> set keys) (rw_read_state w)) [])"

section \<open>Marking\<close>

text \<open>The hook: \<^const>\<open>None\<close> when there is none, otherwise whether it succeeds.\<close>

definition notify_read ::
    "bool option \<Rightarrow> (notification table \<Rightarrow> nat \<times> notification table \<times> notification_effect list) \<Rightarrow> read_world
      \<Rightarrow> read_world \<times> read_effect list" where
  "notify_read hook mark w =
     (if hook = Some True then (case mark (rw_notifications w) of (_, t, es) \<Rightarrow> (w\<lparr> rw_notifications := t \<rparr>, map Notified es))
      else (w, []))"

definition mark_item_read ::
    "item_type \<Rightarrow> jstr \<Rightarrow> (notification table \<Rightarrow> nat \<times> notification table \<times> notification_effect list) \<Rightarrow> bool option
      \<Rightarrow> int \<Rightarrow> string option \<Rightarrow> read_world \<Rightarrow> read_state_counts \<times> read_world \<times> read_effect list" where
  "mark_item_read type key mark hook now exclude w =
     (case notify_read hook mark (w\<lparr> rw_read_state := upsert_read_state type key now (rw_read_state w) \<rparr>) of (w', es) \<Rightarrow>
        (get_counts w', w', es @ [Read_State_Updated (get_counts w') exclude]))"

definition mark_missed_calls_as_viewed ::
    "bool option \<Rightarrow> int \<Rightarrow> int \<Rightarrow> string option \<Rightarrow> read_world \<Rightarrow> read_state_counts \<times> read_world \<times> read_effect list" where
  "mark_missed_calls_as_viewed hook now later exclude =
     mark_item_read Missed_Calls GLOBAL_KEY (mark_all_read (Some [Missed_Call, Blocked_Call]) later) hook now exclude"

definition mark_thread_as_read ::
    "bool option \<Rightarrow> int \<Rightarrow> int \<Rightarrow> string option \<Rightarrow> jstr \<Rightarrow> jstr \<Rightarrow> read_world
      \<Rightarrow> read_state_counts \<times> read_world \<times> read_effect list" where
  "mark_thread_as_read hook now later exclude provider phone w =
     mark_item_read Messages (thread_key provider phone)
       (mark_conversation_read
          (map mg_id (sql_select (\<lambda>m. mg_conversation_number m = phone) (cd_messages (rw_conversations w)))) later)
       hook now exclude w"

section \<open>What marking changes\<close>

lemma thread_key_inj: "124 \<notin> set p \<Longrightarrow> 124 \<notin> set p' \<Longrightarrow> thread_key p q = thread_key p' q' \<longleftrightarrow> p = p' \<and> q = q'"
proof (induction p arbitrary: p')
  case Nil
  then show ?case by (cases p') (auto simp: thread_key_def)
next
  case (Cons a p)
  then show ?case by (cases p') (auto simp: thread_key_def)
qed

lemma fold_read_states:
  "jm_get (fold (\<lambda>r. jm_set (rs_item_key r) (rs_read_at r)) rows m) k =
     (case find (\<lambda>r. rs_item_key r = k) (rev rows) of None \<Rightarrow> jm_get m k | Some r \<Rightarrow> Some (rs_read_at r))"
  by (induction rows arbitrary: m rule: rev_induct) (auto split: option.splits)

lemma read_state_map_get:
  "jm_get (read_state_map t) k = map_option rs_read_at (find (is_item Messages k) (rev t))"
proof -
  have "find (\<lambda>r. rs_item_key r = k) (filter (\<lambda>r. rs_item_type r = Messages) rs) = find (is_item Messages k) rs" for rs
    by (induction rs) (auto simp: is_item_def)
  then show ?thesis
    by (simp add: read_state_map_def fold_read_states sql_select_def rev_filter split: option.splits)
qed

lemma find_update_item:
  "find (is_item type' key') (sql_update (is_item type key) (\<lambda>r. r\<lparr> rs_read_at := now \<rparr>) rows)
    = (if type' = type \<and> key' = key then map_option (\<lambda>r. r\<lparr> rs_read_at := now \<rparr>) (find (is_item type key) rows)
       else find (is_item type' key') rows)"
  by (induction rows) (auto simp: sql_update_def is_item_def [abs_def])

lemma rev_update: "rev (sql_update p f t) = sql_update p f (rev t)"
  by (simp add: sql_update_def rev_map)

lemma find_rev_None: "find p (rev t) = None \<longleftrightarrow> find p t = None"
  by (simp add: find_None_iff)

lemma read_state_after_upsert:
  "jm_get (read_state_map (upsert_read_state type key now t)) k
    = (if type = Messages \<and> k = key then Some now else jm_get (read_state_map t) k)"
proof (cases "sql_first (is_item type key) t")
  case None
  then have "find (is_item type key) (rev t) = None" by (simp add: sql_first_def find_rev_None)
  with None show ?thesis
    by (auto simp: upsert_read_state_def read_state_map_get sql_insert_def is_item_def)
next
  case (Some r)
  then have "find (is_item type key) (rev t) \<noteq> None" by (simp add: sql_first_def find_rev_None)
  with Some show ?thesis
    by (auto simp: upsert_read_state_def read_state_map_get rev_update find_update_item option.map_comp comp_def)
qed

lemma viewed_after_upsert:
  "map_option rs_read_at (sql_first (is_item Missed_Calls GLOBAL_KEY) (upsert_read_state type key now t))
    = (if type = Missed_Calls \<and> key = GLOBAL_KEY then Some now
       else map_option rs_read_at (sql_first (is_item Missed_Calls GLOBAL_KEY) t))"
proof (cases "sql_first (is_item type key) t")
  case None
  have "find p (t @ [r]) = (case find p t of None \<Rightarrow> if p r then Some r else None | Some x \<Rightarrow> Some x)" for p and r :: read_state_row
    by (induction t) auto
  with None show ?thesis
    by (auto simp: upsert_read_state_def sql_insert_def sql_first_def is_item_def split: option.splits)
next
  case (Some r)
  then show ?thesis by (auto simp: upsert_read_state_def sql_first_def find_update_item option.map_comp comp_def)
qed

lemma unseen_alt:
  "get_unseen_missed_calls_count w =
     (case map_option rs_read_at (sql_first (is_item Missed_Calls GLOBAL_KEY) (rw_read_state w)) of
        None \<Rightarrow> sql_count (\<lambda>c. ch_call_type c = MISSED) (rw_history w)
      | Some t \<Rightarrow> sql_count (\<lambda>c. ch_call_type c = MISSED \<and> ch_timestamp c > t) (rw_history w))"
  by (simp add: get_unseen_missed_calls_count_def Let_def split: option.splits)

lemma notify_read_tables:
  "notify_read hook mark w = (w', es) \<Longrightarrow>
     rw_read_state w' = rw_read_state w \<and> rw_history w' = rw_history w \<and> rw_conversations w' = rw_conversations w
     \<and> rw_notifications w' = (if hook = Some True then fst (snd (mark (rw_notifications w))) else rw_notifications w)
     \<and> (\<forall>counts exclude. Read_State_Updated counts exclude \<notin> set es)"
  by (auto simp: notify_read_def split: if_splits prod.splits)

lemma mark_item_read_tables:
  assumes "mark_item_read type key mark hook now exclude w = (counts, w', es)"
  shows "rw_read_state w' = upsert_read_state type key now (rw_read_state w)" "rw_history w' = rw_history w"
    "rw_conversations w' = rw_conversations w" "counts = get_counts w'" "last es = Read_State_Updated counts exclude"
    "rw_notifications w' = (if hook = Some True then fst (snd (mark (rw_notifications w))) else rw_notifications w)"
  using assms notify_read_tables [of hook mark "w\<lparr> rw_read_state := upsert_read_state type key now (rw_read_state w) \<rparr>"]
  by (auto simp: mark_item_read_def split: prod.splits)

text \<open>The unread messages of a thread, and all of them.\<close>

definition unread_of :: "read_world \<Rightarrow> jstr \<Rightarrow> jstr \<Rightarrow> nat" where
  "unread_of w = unread_in (read_state_map (rw_read_state w)) (rw_conversations w)"

lemma unread_total:
  "get_unread_messages_count w = sum_list (map (\<lambda>c. unread_of w (cv_provider_number c) (cv_phone_number c))
     (cd_conversations (rw_conversations w)))"
proof -
  have "fold (\<lambda>c total. total + f c) cs n = n + sum_list (map f cs)" for f :: "conversation_row \<Rightarrow> nat" and cs n
    by (induction cs arbitrary: n) auto
  then show ?thesis by (simp add: get_unread_messages_count_def Let_def unread_of_def)
qed

lemma unread_of_marked:
  assumes "rw_read_state w' = upsert_read_state type key now (rw_read_state w)" "rw_conversations w' = rw_conversations w"
  shows "unread_of w' p q = (if type = Messages \<and> thread_key p q = key
    then sql_count (\<lambda>m. received_in p q m \<and> mg_timestamp m > now) (cd_messages (rw_conversations w)) else unread_of w p q)"
  by (simp add: unread_of_def unread_in_def assms read_state_after_upsert Let_def)

section \<open>Reading\<close>

text \<open>Marking a thread as read leaves unread in it exactly what is dated after that moment, leaves every
  other thread and the missed calls as they were, and answers and announces the new counts,
  whether or not the notifications could be marked. Marking the missed calls does the same for
  them: unseen are exactly the later ones, no thread changes, and with the hook no notice of a
  missed or blocked call is left pending.\<close>

theorem marking_clears_exactly:
  assumes "124 \<notin> set p" "124 \<notin> set p'"
    and "mark_thread_as_read hook now later device p q w = (counts, w1, es1)"
    and "mark_missed_calls_as_viewed hook now later device w = (counts2, w2, es2)"
  shows "unread_of w1 p' q' = (if p' = p \<and> q' = q
       then sql_count (\<lambda>m. received_in p q m \<and> mg_timestamp m > now) (cd_messages (rw_conversations w)) else unread_of w p' q')
     \<and> get_unseen_missed_calls_count w1 = get_unseen_missed_calls_count w
     \<and> counts = get_counts w1 \<and> last es1 = Read_State_Updated counts device
     \<and> get_unseen_missed_calls_count w2 = sql_count (\<lambda>c. ch_call_type c = MISSED \<and> ch_timestamp c > now) (rw_history w)
     \<and> get_unread_messages_count w2 = get_unread_messages_count w
     \<and> counts2 = get_counts w2 \<and> last es2 = Read_State_Updated counts2 device
     \<and> (hook = Some True \<longrightarrow>
          list_all (\<lambda>n. nt_status n = Pending \<longrightarrow> nt_type n \<noteq> Missed_Call \<and> nt_type n \<noteq> Blocked_Call) (rw_notifications w2))"
proof -
  note t1 = mark_item_read_tables [OF assms(3) [unfolded mark_thread_as_read_def]]
  note t2 = mark_item_read_tables [OF assms(4) [unfolded mark_missed_calls_as_viewed_def]]
  have "unread_of w2 = unread_of w"
    using unread_of_marked [OF t2(1,3)] by (simp add: fun_eq_iff)
  then have "get_unread_messages_count w2 = get_unread_messages_count w" by (simp add: unread_total t2(3))
  moreover have "get_unseen_missed_calls_count w1 = get_unseen_missed_calls_count w"
    by (simp add: unseen_alt t1(1,2) viewed_after_upsert split: option.splits)
  moreover have "get_unseen_missed_calls_count w2 = sql_count (\<lambda>c. ch_call_type c = MISSED \<and> ch_timestamp c > now) (rw_history w)"
    by (simp add: unseen_alt t2(1,2) viewed_after_upsert)
  moreover have "list_all (\<lambda>n. nt_status n = Pending \<longrightarrow> nt_type n \<noteq> Missed_Call \<and> nt_type n \<noteq> Blocked_Call) (rw_notifications w2)"
    if "hook = Some True"
    using that by (simp add: t2(6) mark_all_read_def mark_rows_read_def Let_def list_all_iff sql_update_def) auto
  moreover have "unread_of w1 p' q' = (if p' = p \<and> q' = q
       then sql_count (\<lambda>m. received_in p q m \<and> mg_timestamp m > now) (cd_messages (rw_conversations w)) else unread_of w p' q')"
    using unread_of_marked [OF t1(1,3), of p' q'] thread_key_inj [OF assms(2,1)] by auto
  ultimately show ?thesis using t1(4,5) t2(4,5) by simp
qed

section \<open>Receiving and reading\<close>

definition threads_keyed :: "conversation_db \<Rightarrow> bool" where
  "threads_keyed db \<longleftrightarrow> distinct (map (\<lambda>c. (cv_provider_number c, cv_phone_number c)) (cd_conversations db))"

definition thread_keys :: "conversation_db \<Rightarrow> (jstr \<times> jstr) list" where
  "thread_keys db = map (\<lambda>c. (cv_provider_number c, cv_phone_number c)) (cd_conversations db)"

lemma thread_keys_update:
  "(\<And>c. cv_phone_number (f c) = cv_phone_number c \<and> cv_provider_number (f c) = cv_provider_number c) \<Longrightarrow>
     thread_keys (db\<lparr> cd_conversations := sql_update Q f (cd_conversations db) \<rparr>) = thread_keys db"
  by (simp add: thread_keys_def sql_update_map)

lemma thread_keys_upsert:
  "thread_keys (upsert_conversation p q now db) = (if (p, q) \<in> set (thread_keys db) then thread_keys db else thread_keys db @ [(p, q)])"
proof (cases "sql_first (is_thread p q) (cd_conversations db)")
  case None
  then have "(p, q) \<notin> set (thread_keys db)" by (auto simp: sql_first_None thread_keys_def is_thread_def)
  with None show ?thesis by (simp add: upsert_conversation_def sql_insert_def) (simp add: thread_keys_def)
next
  case (Some c)
  then have "(p, q) \<in> set (thread_keys db)" using sql_first_Some [OF Some] by (force simp: thread_keys_def is_thread_def)
  with Some show ?thesis by (auto simp: upsert_conversation_def thread_keys_update)
qed

lemma thread_keys_metadata: "thread_keys (update_conversation_metadata p q body t db) = thread_keys db"
  by (simp add: update_conversation_metadata_def thread_keys_update)

lemma thread_keys_messages [simp]: "thread_keys (db\<lparr> cd_messages := ms \<rparr>) = thread_keys db"
  by (simp add: thread_keys_def)

lemma unread_total_keys:
  "get_unread_messages_count w = sum_list (map (\<lambda>(p, q). unread_of w p q) (thread_keys (rw_conversations w)))"
  by (simp add: unread_total thread_keys_def comp_def)

lemma sum_list_one_changed:
  fixes f g :: "'a \<Rightarrow> nat"
  shows "distinct ks \<Longrightarrow> k \<in> set ks \<Longrightarrow> (\<And>x. x \<in> set ks \<Longrightarrow> x \<noteq> k \<Longrightarrow> f x = g x)
    \<Longrightarrow> sum_list (map f ks) + g k = sum_list (map g ks) + f k"
proof (induction ks)
  case (Cons a ks)
  show ?case
  proof (cases "a = k")
    case True
    then have eq: "map f ks = map g ks" using Cons.prems(1,3) by auto
    show ?thesis unfolding list.map sum_list.Cons True eq by simp
  next
    case False
    with Cons have "sum_list (map f ks) + g k = sum_list (map g ks) + f k" "f a = g a" by auto
    then show ?thesis by simp
  qed
qed simp

lemma received_row_counts:
  assumes "receive_store i now pid from to body (Some t) db = (Inr (Some m), db', es)" "to \<noteq> []"
  shows "thread_keys db' = (if (to, from) \<in> set (thread_keys db) then thread_keys db else thread_keys db @ [(to, from)])"
    "unread_of (w\<lparr> rw_conversations := db' \<rparr>) p q = unread_of (w\<lparr> rw_conversations := db \<rparr>) p q
       + (if p = to \<and> q = from \<and> (case jm_get (read_state_map (rw_read_state w)) (thread_key to from) of None \<Rightarrow> True | Some r \<Rightarrow> r < t)
          then 1 else 0)"
proof -
  show "thread_keys db' = (if (to, from) \<in> set (thread_keys db) then thread_keys db else thread_keys db @ [(to, from)])"
    using assms(1) by (auto simp: receive_store_def Let_def thread_keys_metadata thread_keys_upsert
        split: option.splits if_splits dest!: insert_message_Some)
  show "unread_of (w\<lparr> rw_conversations := db' \<rparr>) p q = unread_of (w\<lparr> rw_conversations := db \<rparr>) p q
       + (if p = to \<and> q = from \<and> (case jm_get (read_state_map (rw_read_state w)) (thread_key to from) of None \<Rightarrow> True | Some r \<Rightarrow> r < t)
          then 1 else 0)"
    using assms(1)
  proof (cases rule: receive_store_cases)
    case (stored row)
    have "received_in p q row \<longleftrightarrow> p = to \<and> q = from" using assms(2) stored(7) by (auto simp: received_in_def)
    moreover have "mg_timestamp row = t" using stored(7) by simp
    ultimately show ?thesis
      by (auto simp: unread_of_def unread_in_def Let_def stored(3) sql_count_def split: option.splits)
  qed simp
qed

lemma unread_of_unknown_thread:
  assumes "conversations_ok S" "rw_conversations w = sy_db S" "(p, q) \<notin> set (thread_keys (sy_db S))" "p \<noteq> []"
  shows "unread_of w p q = 0"
proof -
  have "\<not> received_in p q m" if m: "m \<in> set (cd_messages (sy_db S))" for m
  proof
    assume r: "received_in p q m"
    then have "mg_provider_number m = Some p" "mg_conversation_number m = q" using assms(4) by (auto simp: received_in_def)
    then have "list_ex (is_thread p q) (cd_conversations (sy_db S))"
      using conversations_okD(3) [OF assms(1) m] by (simp add: message_ok_def threaded_def)
    then show False using assms(3) by (force simp: thread_keys_def list_ex_iff is_thread_def)
  qed
  then show ?thesis by (simp add: unread_of_def unread_in_def Let_def assms(2) sql_count_def filter_empty_conv)
qed

text \<open>From a received message to its being read, in every reachable state of the conversations: a
  message dated after the last reading of its thread adds one to the unread messages shown to
  every device, in whatever thread it comes, a new or a hidden one too; and marking its thread
  as read at or after its date takes exactly the thread's unread messages off again, as long
  as none of them is dated later still.\<close>

theorem message_counts_until_read:
  assumes "reach conversation_init conversation_step S" "rw_conversations w = sy_db S" "distinct (thread_keys (sy_db S))"
    and "receive_store i now pid from to body (Some t) (sy_db S) = (Inr (Some m), db, es)" "to \<noteq> []" "124 \<notin> set to"
    and "case jm_get (read_state_map (rw_read_state w)) (thread_key to from) of None \<Rightarrow> True | Some r \<Rightarrow> r < t"
    and "mark_thread_as_read hook read_at later device to from (w\<lparr> rw_conversations := db \<rparr>) = (counts, w', es')"
    and "list_all (\<lambda>m. received_in to from m \<longrightarrow> mg_timestamp m \<le> read_at) (cd_messages db)"
    and "list_all (\<lambda>(p, q). 124 \<notin> set p) (thread_keys (sy_db S))"
  shows "get_unread_messages_count (w\<lparr> rw_conversations := db \<rparr>) = get_unread_messages_count w + 1
     \<and> unread_of w' to from = 0
     \<and> rc_unread_messages counts + unread_of w to from = get_unread_messages_count w"
proof -
  let ?w1 = "w\<lparr> rw_conversations := db \<rparr>" and ?k = "(to, from)" and ?ks = "thread_keys (sy_db S)" and ?ks' = "thread_keys db"
  have ok: "conversations_ok S" by (rule conversation.reach_inv [OF assms(1)])
  have w: "w\<lparr> rw_conversations := sy_db S \<rparr> = w" using assms(2) by simp
  note row1 = received_row_counts(1) [OF assms(4,5)] and row2 = received_row_counts(2) [OF assms(4,5), of w, unfolded w]
  have ks': "distinct ?ks'" "?k \<in> set ?ks'" using row1 assms(3) by auto
  have before: "sum_list (map (\<lambda>(p, q). unread_of w p q) ?ks') = get_unread_messages_count w"
    using row1 unread_of_unknown_thread [OF ok assms(2) _ assms(5), of "from"] by (simp add: unread_total_keys assms(2))
  have one: "unread_of ?w1 to from = unread_of w to from + 1" using row2 [of to "from"] assms(7) by simp
  have "sum_list (map (\<lambda>(p, q). unread_of ?w1 p q) ?ks') + unread_of w to from
      = sum_list (map (\<lambda>(p, q). unread_of w p q) ?ks') + unread_of ?w1 to from"
    using sum_list_one_changed [OF ks', of "\<lambda>(p, q). unread_of ?w1 p q" "\<lambda>(p, q). unread_of w p q"] row2 by auto
  with before one have total: "get_unread_messages_count ?w1 = get_unread_messages_count w + 1"
    by (simp add: unread_total_keys)
  note t = mark_item_read_tables [OF assms(8) [unfolded mark_thread_as_read_def]]
  have none: "sql_count (\<lambda>m. received_in to from m \<and> mg_timestamp m > read_at) (cd_messages db) = 0"
    using assms(9) by (auto simp: sql_count_def filter_empty_conv list_all_iff)
  have marked: "unread_of w' p q = (if p = to \<and> q = from then 0 else unread_of ?w1 p q)" if p: "124 \<notin> set p" for p q
    using unread_of_marked [OF t(1,3), of p q] none thread_key_inj [OF p assms(6)] by auto
  have bar: "124 \<notin> set (fst k)" if "k \<in> set ?ks'" for k
    using that row1 assms(6,10) by (auto simp: list_all_iff split: if_splits)
  have "sum_list (map (\<lambda>(p, q). unread_of w' p q) ?ks') + unread_of ?w1 to from
      = sum_list (map (\<lambda>(p, q). unread_of ?w1 p q) ?ks') + unread_of w' to from"
  proof -
    have "(case x of (p, q) \<Rightarrow> unread_of w' p q) = (case x of (p, q) \<Rightarrow> unread_of ?w1 p q)"
      if "x \<in> set ?ks'" "x \<noteq> ?k" for x
      using marked bar [OF that(1)] that(2) by (cases x) auto
    from sum_list_one_changed [OF ks', of "\<lambda>(p, q). unread_of w' p q" "\<lambda>(p, q). unread_of ?w1 p q", OF this]
    show ?thesis by simp
  qed
  moreover have zero: "unread_of w' to from = 0" using marked [OF assms(6)] by simp
  moreover have "get_unread_messages_count w' = sum_list (map (\<lambda>(p, q). unread_of w' p q) ?ks')"
    by (simp add: unread_total_keys t(3))
  ultimately have "get_unread_messages_count w' + unread_of w to from = get_unread_messages_count w"
    using total one by (simp add: unread_total_keys)
  with total zero t(4) show ?thesis by (simp add: get_counts_def)
qed

section \<open>Examples\<close>

definition example_world :: read_world where
  "example_world = \<lparr> rw_read_state = [\<lparr> rs_item_type = Messages, rs_item_key = thread_key own_number other_number, rs_read_at = 3 \<rparr>],
     rw_history = [], rw_conversations = empty_conversations, rw_notifications = [] \<rparr>"

lemma own_number_plain: "124 \<notin> set own_number" "own_number \<noteq> []"
  by (simp_all add: own_number_def)

lemma marking_clears_exactly_witness:
  "\<exists>counts w1 es1. mark_thread_as_read (Some True) 8 9 None own_number other_number
       (example_world\<lparr> rw_conversations := empty_conversations\<lparr> cd_messages := [example_row_received] \<rparr> \<rparr>) = (counts, w1, es1)
     \<and> unread_of w1 own_number other_number = 0"
proof -
  let ?w = "example_world\<lparr> rw_conversations := empty_conversations\<lparr> cd_messages := [example_row_received] \<rparr> \<rparr>"
  obtain counts w1 es1 where a: "mark_thread_as_read (Some True) 8 9 None own_number other_number ?w = (counts, w1, es1)"
    by (cases "mark_thread_as_read (Some True) 8 9 None own_number other_number ?w")
  obtain counts2 w2 es2 where b: "mark_missed_calls_as_viewed (Some True) 8 9 None ?w = (counts2, w2, es2)"
    by (cases "mark_missed_calls_as_viewed (Some True) 8 9 None ?w")
  from marking_clears_exactly [OF own_number_plain(1) own_number_plain(1) a b, of other_number] a
  show ?thesis by (simp add: sql_count_def example_row_received_def)
qed

lemma message_counts_until_read_witness:
  "\<exists>db. get_unread_messages_count (example_world\<lparr> rw_conversations := db \<rparr>) = get_unread_messages_count example_world + 1"
proof -
  obtain r db es where b: "receive_store ''m1'' 5 ''x'' other_number own_number [72, 105] (Some 7) empty_conversations = (r, db, es)"
    and ms: "cd_messages db = [example_row_received]"
    using example_receive by blast
  have r: "\<exists>m. r = Inr (Some m)"
    using b by (cases rule: receive_store_cases) (use ms in \<open>auto simp: empty_conversations_def\<close>)
  then obtain m where m: "r = Inr (Some m)" by blast
  obtain counts w' es' where k: "mark_thread_as_read None 8 9 None own_number other_number (example_world\<lparr> rw_conversations := db \<rparr>) = (counts, w', es')"
    by (cases "mark_thread_as_read None 8 9 None own_number other_number (example_world\<lparr> rw_conversations := db \<rparr>)")
  have "rw_conversations example_world = sy_db example_start" "distinct (thread_keys (sy_db example_start))"
      "list_all (\<lambda>(p, q). 124 \<notin> set p) (thread_keys (sy_db example_start))" "sy_db example_start = empty_conversations"
    by (simp_all add: example_world_def example_start_def empty_conversations_def thread_keys_def)
  note w = this
  have "get_unread_messages_count (example_world\<lparr> rw_conversations := db \<rparr>) = get_unread_messages_count example_world + 1"
    using message_counts_until_read [OF example_start_reached w(1,2) b [unfolded m w(4) [symmetric]] own_number_plain(2,1) _ k _ w(3)] ms
    by (simp add: example_world_def read_state_map_def sql_select_def example_row_received_def)
  then show ?thesis by blast
qed

section \<open>What is counted\<close>

text \<open>A message that its provider dates before the last reading of its thread, as one delivered late,
  is never unread.\<close>

lemma late_message_counts_as_read:
  assumes "receive_store i now pid from to body (Some t) db = (Inr (Some m), db', es)" "to \<noteq> []"
    and "jm_get (read_state_map (rw_read_state w)) (thread_key to from) = Some r" "t \<le> r"
  shows "unread_of (w\<lparr> rw_conversations := db' \<rparr>) to from = unread_of (w\<lparr> rw_conversations := db \<rparr>) to from"
  using received_row_counts(2) [OF assms(1,2), of w to "from"] assms(3,4) by simp

text \<open>Messages and conversations the user removed are counted on.\<close>

lemma hidden_still_unread:
  "get_unread_messages_count (w\<lparr> rw_conversations := remove_conversation p q (rw_conversations w) \<rparr>) = get_unread_messages_count w"
  "get_unread_messages_count (w\<lparr> rw_conversations := remove_message i (rw_conversations w) \<rparr>) = get_unread_messages_count w"
proof -
  have k: "thread_keys (remove_conversation p q db) = thread_keys db" "cd_messages (remove_conversation p q db) = cd_messages db" for db
    by (simp_all add: remove_conversation_def thread_keys_update)
  show "get_unread_messages_count (w\<lparr> rw_conversations := remove_conversation p q (rw_conversations w) \<rparr>) = get_unread_messages_count w"
    by (simp add: unread_total_keys unread_of_def unread_in_def k)
  have "received_in p q (m\<lparr> mg_removed := b \<rparr>) = received_in p q m" for p q b and m :: message_row by (simp add: received_in_def)
  then have c: "sql_count (\<lambda>m. received_in p q m \<and> P (mg_timestamp m)) (sql_update (with_id i) (\<lambda>m. m\<lparr> mg_removed := True \<rparr>) ms)
      = sql_count (\<lambda>m. received_in p q m \<and> P (mg_timestamp m)) ms" for p q P and ms :: "message_row list"
    by (induction ms) (auto simp: sql_count_def sql_update_def)
  have u: "unread_of (w\<lparr> rw_conversations := remove_message i (rw_conversations w) \<rparr>) p q = unread_of w p q" for p q
    using c [of p q "\<lambda>s. case jm_get (read_state_map (rw_read_state w)) (thread_key p q) of None \<Rightarrow> True | Some t \<Rightarrow> t < s"
        "cd_messages (rw_conversations w)"]
    by (simp add: unread_of_def unread_in_def remove_message_def update_message_def Let_def)
  have "thread_keys (remove_message i db) = thread_keys db" for db
    by (simp add: remove_message_def update_message_def thread_keys_def Let_def)
  then show "get_unread_messages_count (w\<lparr> rw_conversations := remove_message i (rw_conversations w) \<rparr>) = get_unread_messages_count w"
    by (simp add: unread_total_keys u)
qed

end
