(* ===== verification/Provider_Config.thy ===== *)
theory Provider_Config
  imports Formatters Telephony_Providers
begin

text \<open>
  The stored configuration of a provider: \<^verbatim>\<open>src/validators/provider-config-validator.ts\<close> (the
  schemas, with the checks of the schema library on strings) and
  \<^verbatim>\<open>src/services/config-encryption.ts\<close> (the sensitive fields, and their encryption with the
  cipher as a parameter). A configuration is a JavaScript object: its keys in order.
\<close>

datatype other_json = J_Null | J_Bool bool | J_Texts "jstr list" | J_Other

type_synonym config = "(jstr, other_json config_value) jmap"

section \<open>Validation\<close>

text \<open>
  The issues of the schema library: a missing field, a field of another type, and a failed check
  with its message. Only issues of the first two kinds keep a refinement of the whole object
  from running.
\<close>

datatype zod_issue = Zod_Required | Zod_Invalid_Type | Zod_Failed string

type_synonym field_issue = "string \<times> zod_issue"

definition string_field :: "bool \<Rightarrow> (jstr \<Rightarrow> string option) \<Rightarrow> string \<Rightarrow> config \<Rightarrow> field_issue list" where
  "string_field is_optional check field config = (case jm_get config (js field) of
       None \<Rightarrow> if is_optional then [] else [(field, Zod_Required)]
     | Some (CStr s) \<Rightarrow> (case check s of None \<Rightarrow> [] | Some m \<Rightarrow> [(field, Zod_Failed m)])
     | Some (COther _) \<Rightarrow> [(field, Zod_Invalid_Type)])"

definition boolean_field :: "string \<Rightarrow> config \<Rightarrow> field_issue list" where
  "boolean_field field config = (case jm_get config (js field) of
       None \<Rightarrow> []
     | Some (COther (J_Bool _)) \<Rightarrow> []
     | Some _ \<Rightarrow> [(field, Zod_Invalid_Type)])"

definition texts_field :: "string \<Rightarrow> config \<Rightarrow> field_issue list" where
  "texts_field field config = (case jm_get config (js field) of
       None \<Rightarrow> []
     | Some (CStr _) \<Rightarrow> []
     | Some (COther (J_Texts _)) \<Rightarrow> []
     | Some _ \<Rightarrow> [(field, Zod_Invalid_Type)])"

definition not_blank :: "string \<Rightarrow> jstr \<Rightarrow> string option" where
  "not_blank message s = (if trim s = [] then Some message else None)"

definition holds :: "(jstr \<Rightarrow> bool) \<Rightarrow> string \<Rightarrow> jstr \<Rightarrow> string option" where
  "holds p message s = (if p (trim s) then None else Some message)"

definition too_small :: string where
  "too_small = ''String must contain at least 1 character(s)''"

definition config_text :: "string \<Rightarrow> config \<Rightarrow> jstr option" where
  "config_text field config = (case jm_get config (js field) of Some (CStr s) \<Rightarrow> Some s | _ \<Rightarrow> None)"

definition type_failed :: "field_issue list \<Rightarrow> bool" where
  "type_failed issues \<longleftrightarrow> list_ex (\<lambda>(_, i). i = Zod_Required \<or> i = Zod_Invalid_Type) issues"

definition vonage_config_schema :: "(jstr \<Rightarrow> bool) \<Rightarrow> (jstr \<Rightarrow> bool) \<Rightarrow> config \<Rightarrow> field_issue list" where
  "vonage_config_schema is_uuid is_url config =
     (let issues =
          string_field False (not_blank ''api_key is required'') ''api_key'' config
        @ string_field False (not_blank ''api_secret is required'') ''api_secret'' config
        @ string_field True (not_blank too_small) ''signature_secret'' config
        @ string_field False (holds is_uuid ''application_id must be a valid UUID'') ''application_id'' config
        @ string_field True (\<lambda>s. if s = [] then Some ''private_key is required when private_key_path is not provided'' else None)
            ''private_key'' config
        @ string_field True (not_blank ''private_key_path is required when private_key is not provided'') ''private_key_path'' config
        @ string_field True (holds is_url ''webhook_base_url must be a valid URL'') ''webhook_base_url'' config
        @ boolean_field ''webhook_validation'' config
      in issues
        @ (if \<not> type_failed issues \<and> \<not> truthy (config_text ''private_key'' config)
              \<and> \<not> truthy (map_option trim (config_text ''private_key_path'' config))
           then [(''private_key'', Zod_Failed ''Either private_key or private_key_path must be provided'')] else []))"

definition dummy_config_schema :: "config \<Rightarrow> field_issue list" where
  "dummy_config_schema config = string_field True (\<lambda>_. None) ''name'' config"

definition elks46_config_schema :: "(jstr \<Rightarrow> bool) \<Rightarrow> config \<Rightarrow> field_issue list" where
  "elks46_config_schema is_url config =
       string_field False (not_blank ''api_username is required'') ''api_username'' config
     @ string_field False (not_blank ''api_password is required'') ''api_password'' config
     @ string_field True (holds is_url ''webhook_base_url must be a valid URL'') ''webhook_base_url'' config
     @ string_field True (\<lambda>_. None) ''websocket_number'' config
     @ boolean_field ''webhook_validation'' config
     @ texts_field ''webhook_ip_allowlist'' config"

definition schemas_by_type :: "(jstr \<Rightarrow> bool) \<Rightarrow> (jstr \<Rightarrow> bool) \<Rightarrow> string \<Rightarrow> (config \<Rightarrow> field_issue list) option" where
  "schemas_by_type is_uuid is_url type =
     (if type = ''vonage'' then Some (vonage_config_schema is_uuid is_url)
      else if type = ''dummy'' then Some dummy_config_schema
      else if type = ''46elks'' then Some (elks46_config_schema is_url)
      else if type = ''modem-gateway'' then Some (\<lambda>_. [])
      else None)"

definition get_supported_provider_types :: "string list" where
  "get_supported_provider_types = [''vonage'', ''dummy'', ''46elks'', ''modem-gateway'']"

text \<open>An empty list of errors is \<^verbatim>\<open>{valid: true}\<close>; the error of an unknown type is on the field \<^verbatim>\<open>type\<close>.\<close>

definition validate_provider_config ::
    "(jstr \<Rightarrow> bool) \<Rightarrow> (jstr \<Rightarrow> bool) \<Rightarrow> string \<Rightarrow> config \<Rightarrow> field_issue list" where
  "validate_provider_config is_uuid is_url type config =
     (case schemas_by_type is_uuid is_url type of
        None \<Rightarrow> [(''type'', Zod_Failed (''Unknown provider type: '' @ type))]
      | Some schema \<Rightarrow> schema config)"

lemma supported_types_iff:
  "type \<in> set get_supported_provider_types \<longleftrightarrow> schemas_by_type is_uuid is_url type \<noteq> None"
  by (simp add: get_supported_provider_types_def schemas_by_type_def)

section \<open>Types\<close>

text \<open>
  The types that the providers and the webhook router assert by casts (\<^verbatim>\<open>as string\<close>) when they
  read a configuration: a text where one is required, a text or nothing, a truth value or
  nothing.
\<close>

datatype field_type = Text_Required | Text_Optional | Bool_Optional | Texts_Optional

fun of_type :: "other_json config_value option \<Rightarrow> field_type \<Rightarrow> bool" where
  "of_type v Text_Required = (case v of Some (CStr _) \<Rightarrow> True | _ \<Rightarrow> False)"
| "of_type v Text_Optional = (case v of Some (CStr _) \<Rightarrow> True | None \<Rightarrow> True | _ \<Rightarrow> False)"
| "of_type v Bool_Optional = (case v of Some (COther (J_Bool _)) \<Rightarrow> True | None \<Rightarrow> True | _ \<Rightarrow> False)"
| "of_type v Texts_Optional = (case v of Some (CStr _) \<Rightarrow> True | Some (COther (J_Texts _)) \<Rightarrow> True | None \<Rightarrow> True | _ \<Rightarrow> False)"

definition config_signature :: "string \<Rightarrow> (string \<times> field_type) list" where
  "config_signature type =
     (if type = ''vonage'' then
        [(''api_key'', Text_Required), (''api_secret'', Text_Required), (''signature_secret'', Text_Optional),
         (''application_id'', Text_Required), (''private_key'', Text_Optional), (''private_key_path'', Text_Optional),
         (''webhook_base_url'', Text_Optional), (''webhook_validation'', Bool_Optional)]
      else if type = ''46elks'' then
        [(''api_username'', Text_Required), (''api_password'', Text_Required), (''webhook_base_url'', Text_Optional),
         (''websocket_number'', Text_Optional), (''webhook_validation'', Bool_Optional),
         (''webhook_ip_allowlist'', Texts_Optional)]
      else if type = ''dummy'' then [(''name'', Text_Optional)]
      else [])"

definition config_typed :: "string \<Rightarrow> config \<Rightarrow> bool" where
  "config_typed type config \<longleftrightarrow> list_all (\<lambda>(field, ty). of_type (jm_get config (js field)) ty) (config_signature type)"

lemma string_field_typed:
  "string_field is_optional check field config = [] \<Longrightarrow>
     of_type (jm_get config (js field)) (if is_optional then Text_Optional else Text_Required)"
  by (auto simp: string_field_def split: option.splits config_value.splits if_splits)

lemma boolean_field_typed: "boolean_field field config = [] \<longleftrightarrow> of_type (jm_get config (js field)) Bool_Optional"
  by (auto simp: boolean_field_def split: option.splits config_value.splits other_json.splits)

lemma texts_field_typed: "texts_field field config = [] \<longleftrightarrow> of_type (jm_get config (js field)) Texts_Optional"
  by (auto simp: texts_field_def split: option.splits config_value.splits other_json.splits)

lemmas field_typed =
  string_field_typed [of True, simplified if_True] string_field_typed [of False, simplified if_False]
  boolean_field_typed [THEN iffD1] texts_field_typed [THEN iffD1]

lemma validated_typed:
  assumes "validate_provider_config is_uuid is_url type config = []"
  shows "type \<in> set get_supported_provider_types \<and> config_typed type config"
proof -
  consider "type = ''vonage''" | "type = ''46elks''" | "type = ''dummy''" | "type = ''modem-gateway''"
    using assms by (auto simp: validate_provider_config_def schemas_by_type_def split: if_splits)
  then show ?thesis
  proof cases
    case 1
    then show ?thesis using assms
      by (auto dest!: field_typed simp: validate_provider_config_def schemas_by_type_def vonage_config_schema_def Let_def
          config_typed_def config_signature_def get_supported_provider_types_def simp del: of_type.simps)
  next
    case 2
    then show ?thesis using assms
      by (auto dest!: field_typed simp: validate_provider_config_def schemas_by_type_def elks46_config_schema_def
          config_typed_def config_signature_def get_supported_provider_types_def simp del: of_type.simps)
  next
    case 3
    then show ?thesis using assms
      by (auto dest!: field_typed simp: validate_provider_config_def schemas_by_type_def dummy_config_schema_def
          config_typed_def config_signature_def get_supported_provider_types_def simp del: of_type.simps)
  next
    case 4
    then show ?thesis
      by (simp add: config_typed_def config_signature_def get_supported_provider_types_def)
  qed
qed

lemma vonage_has_key:
  assumes "validate_provider_config is_uuid is_url ''vonage'' config = []"
  shows "truthy (config_text ''private_key'' config) \<or> truthy (map_option trim (config_text ''private_key_path'' config))"
  using assms
  by (auto simp: validate_provider_config_def schemas_by_type_def vonage_config_schema_def Let_def type_failed_def
      split: if_splits)

section \<open>Encryption\<close>

definition ENCRYPTED_PREFIX :: jstr where
  "ENCRYPTED_PREFIX = js ''enc:v1:''"

definition SENSITIVE_FIELDS :: "string \<Rightarrow> string list option" where
  "SENSITIVE_FIELDS type =
     (if type = ''vonage'' then Some [''api_secret'', ''signature_secret'', ''private_key'']
      else if type = ''46elks'' then Some [''api_password'']
      else if type = ''dummy'' then Some []
      else if type = ''modem-gateway'' then Some []
      else None)"

definition get_sensitive_fields :: "string \<Rightarrow> string list" where
  "get_sensitive_fields type = orelse (SENSITIVE_FIELDS type) []"

text \<open>
  The cipher: \<open>encipher\<close> takes the passphrase, the random vector in hexadecimal and the text to
  the tag and the ciphertext in hexadecimal, \<open>decipher\<close> back; \<open>None\<close> when it throws. The key
  derivation is part of it. 58 is the colon.
\<close>

type_synonym encipher = "jstr \<Rightarrow> jstr \<Rightarrow> jstr \<Rightarrow> jstr \<times> jstr"
type_synonym decipher = "jstr \<Rightarrow> jstr \<Rightarrow> jstr \<Rightarrow> jstr \<Rightarrow> jstr option"

definition encrypt_value :: "encipher \<Rightarrow> jstr \<Rightarrow> jstr \<Rightarrow> jstr \<Rightarrow> jstr" where
  "encrypt_value encipher iv plaintext key =
     (let (tag, ciphertext) = encipher key iv plaintext in ENCRYPTED_PREFIX @ iv @ 58 # tag @ 58 # ciphertext)"

definition is_encrypted :: "jstr \<Rightarrow> bool" where
  "is_encrypted value \<longleftrightarrow> starts_with value ENCRYPTED_PREFIX"

definition decrypt_value :: "decipher \<Rightarrow> jstr \<Rightarrow> jstr \<Rightarrow> jstr option" where
  "decrypt_value decipher value key =
     (if \<not> starts_with value ENCRYPTED_PREFIX then Some value
      else (case split_on 58 (drop (length ENCRYPTED_PREFIX) value) of
          [iv, tag, ciphertext] \<Rightarrow> decipher key iv tag ciphertext
        | _ \<Rightarrow> None))"

text \<open>\<open>ivs\<close> gives the vector drawn for a field.\<close>

definition encrypt_field :: "encipher \<Rightarrow> (string \<Rightarrow> jstr) \<Rightarrow> jstr \<Rightarrow> string \<Rightarrow> config \<Rightarrow> config" where
  "encrypt_field encipher ivs key field config = (case jm_get config (js field) of
       Some (CStr s) \<Rightarrow> if 0 < length s \<and> \<not> is_encrypted s
         then jm_set (js field) (CStr (encrypt_value encipher (ivs field) s key)) config else config
     | _ \<Rightarrow> config)"

definition encrypt_config :: "encipher \<Rightarrow> (string \<Rightarrow> jstr) \<Rightarrow> string \<Rightarrow> config \<Rightarrow> jstr option \<Rightarrow> config" where
  "encrypt_config encipher ivs type config key =
     (if \<not> truthy key then config
      else if get_sensitive_fields type = [] then config
      else fold (encrypt_field encipher ivs (the key)) (get_sensitive_fields type) config)"

definition decrypt_field :: "decipher \<Rightarrow> jstr \<Rightarrow> string \<Rightarrow> config option \<Rightarrow> config option" where
  "decrypt_field decipher key field config = (case config of
       None \<Rightarrow> None
     | Some c \<Rightarrow> (case jm_get c (js field) of
         Some (CStr s) \<Rightarrow> if is_encrypted s
           then (case decrypt_value decipher s key of None \<Rightarrow> None | Some p \<Rightarrow> Some (jm_set (js field) (CStr p) c)) else Some c
       | _ \<Rightarrow> Some c))"

definition decrypt_config :: "decipher \<Rightarrow> string \<Rightarrow> config \<Rightarrow> jstr option \<Rightarrow> config option" where
  "decrypt_config decipher type config key =
     (if \<not> truthy key then Some config
      else if get_sensitive_fields type = [] then Some config
      else fold (decrypt_field decipher (the key)) (get_sensitive_fields type) (Some config))"

subsection \<open>Round trip\<close>

text \<open>What the code relies on of the cipher for a passphrase: it is undone, and its parts are free of colons.\<close>

definition cipher_ok :: "encipher \<Rightarrow> decipher \<Rightarrow> jstr \<Rightarrow> bool" where
  "cipher_ok encipher decipher key \<longleftrightarrow>
     (\<forall>iv p tag ct. encipher key iv p = (tag, ct) \<longrightarrow> decipher key iv tag ct = Some p \<and> 58 \<notin> set tag \<and> 58 \<notin> set ct)"

lemma decrypt_encrypt_value:
  assumes "cipher_ok encipher decipher key" "58 \<notin> set iv"
  shows "decrypt_value decipher (encrypt_value encipher iv p key) key = Some p"
proof -
  obtain tag ct where e: "encipher key iv p = (tag, ct)" by fastforce
  then have "decipher key iv tag ct = Some p" "58 \<notin> set tag" "58 \<notin> set ct"
    using assms(1) by (auto simp: cipher_ok_def)
  then show ?thesis
    using assms(2) by (simp add: decrypt_value_def encrypt_value_def e starts_with_def split_on_app split_on_none)
qed

lemma encrypt_value_marked: "is_encrypted (encrypt_value encipher iv p key)"
  by (simp add: is_encrypted_def encrypt_value_def starts_with_def split: prod.splits)

lemma jm_set_back: "jm_get m k = Some v \<Longrightarrow> jm_set k v (jm_set k w m) = m"
  by (induction m) (auto simp: jm_get_def jm_set_def split: if_splits)

lemma jm_set_set [simp]: "jm_set k v (jm_set k w m) = jm_set k v m"
  by (induction m) (auto simp: jm_set_def)

lemma jm_set_swap: "k \<noteq> l \<Longrightarrow> jm_get m k \<noteq> None \<Longrightarrow> jm_get m l \<noteq> None \<Longrightarrow> jm_set k v (jm_set l w m) = jm_set l w (jm_set k v m)"
  by (induction m) (auto simp: jm_get_def jm_set_def update_Some_unfold update_swap split: if_splits)

definition plain_secrets :: "string \<Rightarrow> config \<Rightarrow> bool" where
  "plain_secrets type config \<longleftrightarrow>
     (\<forall>field \<in> set (get_sensitive_fields type). \<forall>s. jm_get config (js field) = Some (CStr s) \<longrightarrow> \<not> is_encrypted s)"

lemma encrypt_field_other: "f \<noteq> g \<Longrightarrow> jm_get (encrypt_field encipher ivs key f c) (js g) = jm_get c (js g)"
  by (auto simp: encrypt_field_def split: option.splits config_value.splits)

lemma encrypt_fields_other:
  "g \<notin> set fs \<Longrightarrow> jm_get (fold (encrypt_field encipher ivs key) fs c) (js g) = jm_get c (js g)"
  by (induction fs arbitrary: c) (auto simp: encrypt_field_other)

lemma fold_encrypt_set_other:
  "g \<notin> set fs \<Longrightarrow> jm_get c (js g) \<noteq> None \<Longrightarrow>
     fold (encrypt_field encipher ivs key) fs (jm_set (js g) v c) = jm_set (js g) v (fold (encrypt_field encipher ivs key) fs c)"
proof (induction fs arbitrary: c)
  case (Cons f fs)
  have "encrypt_field encipher ivs key f (jm_set (js g) v c) = jm_set (js g) v (encrypt_field encipher ivs key f c)"
    using Cons.prems by (auto simp: encrypt_field_def jm_set_swap split: option.splits config_value.splits)
  moreover have "jm_get (encrypt_field encipher ivs key f c) (js g) \<noteq> None"
    using Cons.prems encrypt_field_other [of f g] by auto
  ultimately show ?case using Cons by simp
qed simp

lemma decrypt_fold_None: "fold (decrypt_field decipher key) fs None = None"
  by (induction fs) (simp_all add: decrypt_field_def)

lemma decrypt_encrypt_fields:
  assumes "cipher_ok encipher decipher key" "\<And>f. 58 \<notin> set (ivs f)" "distinct fs"
    and "\<forall>f \<in> set fs. \<forall>s. jm_get c (js f) = Some (CStr s) \<longrightarrow> \<not> is_encrypted s"
  shows "fold (decrypt_field decipher key) fs (Some (fold (encrypt_field encipher ivs key) fs c)) = Some c"
  using assms(3,4)
proof (induction fs arbitrary: c)
  case (Cons f fs)
  let ?rest = "fold (encrypt_field encipher ivs key) fs c"
  have keep: "jm_get ?rest (js f) = jm_get c (js f)" using Cons.prems(1) by (simp add: encrypt_fields_other)
  have IH: "fold (decrypt_field decipher key) fs (Some ?rest) = Some c" using Cons by auto
  show ?case
  proof (cases "\<exists>s. jm_get c (js f) = Some (CStr s) \<and> s \<noteq> []")
    case True
    then obtain s where s: "jm_get c (js f) = Some (CStr s)" "s \<noteq> []" "\<not> is_encrypted s" using Cons.prems(2) by auto
    let ?e = "encrypt_value encipher (ivs f) s key"
    have "fold (encrypt_field encipher ivs key) (f # fs) c = jm_set (js f) (CStr ?e) ?rest"
      using s Cons.prems(1) by (simp add: encrypt_field_def fold_encrypt_set_other)
    moreover have "decrypt_field decipher key f (Some (jm_set (js f) (CStr ?e) ?rest)) = Some ?rest"
      using s(1) keep
      by (simp add: decrypt_field_def encrypt_value_marked decrypt_encrypt_value [OF assms(1,2)] jm_set_back del: jm_set_set)
    ultimately show ?thesis using IH by simp
  next
    case False
    then have "encrypt_field encipher ivs key f c = c"
      by (auto simp: encrypt_field_def split: option.splits config_value.splits)
    moreover have "decrypt_field decipher key f (Some ?rest) = Some ?rest"
      using False Cons.prems(2) keep
      by (auto simp: decrypt_field_def is_encrypted_def starts_with_def ENCRYPTED_PREFIX_def js_def split: option.splits config_value.splits)
    ultimately show ?thesis using IH by simp
  qed
qed simp


text \<open>A cipher for examples: it shifts every unit, past the colon.\<close>

definition shift_encipher :: encipher where
  "shift_encipher key iv p = ([48], map (\<lambda>u. u + 100) p)"

definition shift_decipher :: decipher where
  "shift_decipher key iv tag ct = Some (map (\<lambda>u. u - 100) ct)"

lemma shift_ok: "cipher_ok shift_encipher shift_decipher key"
  by (auto simp: cipher_ok_def shift_encipher_def shift_decipher_def comp_def)

definition example_elks_config :: config where
  "example_elks_config = [(js ''api_username'', CStr (js ''u'')), (js ''api_password'', CStr (js ''pw''))]"


text \<open>
  A secret that itself starts with the mark is stored as it is and cannot be read back: with a
  passphrase configured, loading it throws.
\<close>

lemma marked_secret_unreadable:
  "decrypt_config decipher ''46elks''
     (encrypt_config encipher ivs ''46elks'' [(js ''api_password'', CStr (js ''enc:v1:x''))] (Some (js ''k''))) (Some (js ''k'')) = None"
  by (simp add: encrypt_config_def decrypt_config_def get_sensitive_fields_def SENSITIVE_FIELDS_def encrypt_field_def
      decrypt_field_def decrypt_value_def jm_get_def is_encrypted_def ENCRYPTED_PREFIX_def starts_with_def js_def)

end
