(* ===== verification/Provider_Registry.thy ===== *)
theory Provider_Registry
  imports Provider_Config Orchestrator
begin

text \<open>
  \<^verbatim>\<open>src/services/provider-registry.ts\<close>: the map of provider entries beside the table of
  providers. The factory and \<^verbatim>\<open>start\<close> of a provider answer an instance or fail; a probe of its
  health answers a result or throws; both are arguments. The methods that await are cut at
  their awaits and composed in the order of the code. With them the status that
  \<^verbatim>\<open>src/routes/provider-routes.ts\<close> shows for an entry. Providers being told to stop, listeners
  told of an activation, and the numbers detached on removal are effects.
\<close>

datatype provider_status = Active | Unavailable | Disabled

record provider_instance =
  in_provider :: provider
  in_webhook_endpoints :: "jstr list"
  in_checks_health :: bool

record registry_entry =
  re_id :: string
  re_type :: string
  re_display_name :: jstr
  re_config :: config
  re_enabled :: bool
  re_instance :: "provider_instance option"
  re_status :: provider_status
  re_health :: "provider_health option"

record provider_row =
  pr_id :: string
  pr_type :: string
  pr_display_name :: jstr
  pr_config :: config
  pr_enabled :: bool

record registry =
  rg_providers :: "(string, registry_entry) jmap"
  rg_rows :: "provider_row table"
  rg_health_poll :: "int option"

definition new_registry :: "provider_row table \<Rightarrow> registry" where
  "new_registry rows = \<lparr> rg_providers = [], rg_rows = rows, rg_health_poll = None \<rparr>"

datatype registry_effect = Provider_Activated string | Stop_Instance string | Orphan_Numbers string | Probe_Health string

datatype registry_error = Provider_Not_Found string | Config_Invalid "field_issue list"

definition get_provider :: "string \<Rightarrow> registry \<Rightarrow> registry_entry option" where
  "get_provider i g = jm_get (rg_providers g) i"

definition list_providers :: "registry \<Rightarrow> registry_entry list" where
  "list_providers g = map snd (rg_providers g)"

definition modify_entry :: "string \<Rightarrow> (registry_entry \<Rightarrow> registry_entry) \<Rightarrow> registry \<Rightarrow> registry" where
  "modify_entry i f g = g\<lparr> rg_providers := jm_modify i f (rg_providers g) \<rparr>"

text \<open>An entry that has just been given the outcome of the factory and of \<^verbatim>\<open>start\<close>.\<close>

definition fresh_entry :: "provider_instance option \<Rightarrow> string \<Rightarrow> string \<Rightarrow> jstr \<Rightarrow> config \<Rightarrow> bool \<Rightarrow> registry_entry" where
  "fresh_entry started i type display_name config is_enabled =
     \<lparr> re_id = i, re_type = type, re_display_name = display_name, re_config = config, re_enabled = is_enabled,
       re_instance = started, re_status = (if started = None then Unavailable else Active), re_health = None \<rparr>"

section \<open>Loading\<close>

text \<open>\<open>False\<close>: decrypting a row threw and the loading was left there.\<close>

fun load_rows ::
    "decipher \<Rightarrow> jstr option \<Rightarrow> (string \<Rightarrow> provider_instance option) \<Rightarrow> provider_row list \<Rightarrow> registry \<Rightarrow> bool \<times> registry" where
  "load_rows decipher key started [] g = (True, g)"
| "load_rows decipher key started (row # rows) g =
     (case decrypt_config decipher (pr_type row) (pr_config row) key of
        None \<Rightarrow> (False, g)
      | Some config \<Rightarrow> load_rows decipher key started rows
          (g\<lparr> rg_providers := jm_set (pr_id row)
               (fresh_entry (started (pr_id row)) (pr_id row) (pr_type row) (pr_display_name row) config (pr_enabled row))
               (rg_providers g) \<rparr>))"

definition load_all :: "decipher \<Rightarrow> jstr option \<Rightarrow> (string \<Rightarrow> provider_instance option) \<Rightarrow> registry \<Rightarrow> bool \<times> registry" where
  "load_all decipher key started g = load_rows decipher key started (sql_select pr_enabled (rg_rows g)) g"

section \<open>Health\<close>

definition get_health :: "string \<Rightarrow> registry \<Rightarrow> provider_health option" where
  "get_health i g = (case get_provider i g of None \<Rightarrow> None | Some e \<Rightarrow> re_health e)"

definition can_probe :: "registry_entry \<Rightarrow> bool" where
  "can_probe e = (case re_instance e of None \<Rightarrow> False | Some inst \<Rightarrow> in_checks_health inst)"

text \<open>\<open>probed\<close>: the result, or \<^const>\<open>None\<close> when the probe threw.\<close>

definition health_of_probe :: "provider_health option \<Rightarrow> provider_health" where
  "health_of_probe probed = (case probed of
       Some h \<Rightarrow> h
     | None \<Rightarrow> \<lparr> ph_healthy = False, ph_reason = Some (js ''Health check error''), ph_auth_failure = False \<rparr>)"

definition check_provider_health ::
    "provider_health option \<Rightarrow> string \<Rightarrow> registry \<Rightarrow> registry \<times> registry_effect list" where
  "check_provider_health probed i g = (case get_provider i g of
       None \<Rightarrow> (g, [])
     | Some e \<Rightarrow> if \<not> can_probe e then (g, [])
         else (modify_entry i (\<lambda>e. e\<lparr> re_health := Some (health_of_probe probed) \<rparr>) g, [Probe_Health i]))"

definition health_targets :: "registry \<Rightarrow> string list" where
  "health_targets g = map re_id (filter (\<lambda>e. re_enabled e \<and> can_probe e
      \<and> \<not> (case re_health e of None \<Rightarrow> False | Some h \<Rightarrow> ph_auth_failure h)) (list_providers g))"

definition check_all_health ::
    "(string \<Rightarrow> provider_health option) \<Rightarrow> registry \<Rightarrow> registry \<times> registry_effect list" where
  "check_all_health probed g =
     fold (\<lambda>i (g, es). case check_provider_health (probed i) i g of (g', es') \<Rightarrow> (g', es @ es')) (health_targets g) (g, [])"

definition start_health_polling ::
    "(string \<Rightarrow> provider_health option) \<Rightarrow> int \<Rightarrow> registry \<Rightarrow> registry \<times> registry_effect list" where
  "start_health_polling probed interval_ms g =
     (if rg_health_poll g \<noteq> None then (g, [])
      else case check_all_health probed g of (g', es) \<Rightarrow> (g'\<lparr> rg_health_poll := Some interval_ms \<rparr>, es))"

definition stop_health_polling :: "registry \<Rightarrow> registry" where
  "stop_health_polling g = g\<lparr> rg_health_poll := None \<rparr>"

section \<open>URLs\<close>

text \<open>The slash is the code unit 47.\<close>

definition strip_slash :: "jstr \<Rightarrow> jstr" where
  "strip_slash base = (if base \<noteq> [] \<and> last base = 47 then butlast base else base)"

definition WEBHOOK_ENDPOINTS :: "string \<Rightarrow> jstr list option" where
  "WEBHOOK_ENDPOINTS type =
     (if type = ''vonage'' then Some vonage_webhook_endpoints
      else if type = ''46elks'' then Some elks46_webhook_endpoints
      else if type = ''dummy'' then Some []
      else if type = ''modem-gateway'' then Some []
      else None)"

definition entry_endpoints :: "registry_entry \<Rightarrow> jstr list" where
  "entry_endpoints e = (case re_instance e of
       Some inst \<Rightarrow> in_webhook_endpoints inst
     | None \<Rightarrow> orelse (WEBHOOK_ENDPOINTS (re_type e)) [])"

definition webhook_path :: "string \<Rightarrow> jstr \<Rightarrow> jstr" where
  "webhook_path i endpoint = js ''/webhooks/'' @ js i @ 47 # endpoint"

definition get_webhook_urls :: "jstr \<Rightarrow> string \<Rightarrow> registry \<Rightarrow> jstr list" where
  "get_webhook_urls base_url i g = (case get_provider i g of
       None \<Rightarrow> []
     | Some e \<Rightarrow> map (\<lambda>endpoint. strip_slash base_url @ webhook_path i endpoint) (entry_endpoints e))"

text \<open>\<^verbatim>\<open>base.replace(/^http(s?):\/\//i, 'ws' + s + '://')\<close>\<close>

definition ws_base :: "jstr \<Rightarrow> jstr" where
  "ws_base base =
     (if to_lower (take 8 base) = js ''https://'' then js ''ws'' @ [base ! 4] @ js ''://'' @ drop 8 base
      else if to_lower (take 7 base) = js ''http://'' then js ''ws://'' @ drop 7 base
      else base)"

definition get_signaling_ws_url :: "jstr \<Rightarrow> string \<Rightarrow> jstr" where
  "get_signaling_ws_url base_url i =
     (let path = js ''/ws/providers/'' @ js i @ js ''/signaling''; base = strip_slash base_url
      in if base = [] then path else ws_base base @ path)"

definition get_audio_ws_url :: "jstr \<Rightarrow> jstr" where
  "get_audio_ws_url base_url =
     (let base = strip_slash base_url in if base = [] then [] else ws_base base @ js ''/audio/'')"

section \<open>Adding\<close>

text \<open>What the registry is built with: the checks on strings, the cipher, the passphrase and the base URL.\<close>

record registry_env =
  ev_is_uuid :: "jstr \<Rightarrow> bool"
  ev_is_url :: "jstr \<Rightarrow> bool"
  ev_encipher :: encipher
  ev_decipher :: decipher
  ev_ivs :: "string \<Rightarrow> jstr"
  ev_key :: "jstr option"
  ev_base_url :: jstr

definition stored_config :: "registry_env \<Rightarrow> string \<Rightarrow> config \<Rightarrow> config" where
  "stored_config ev type config = encrypt_config (ev_encipher ev) (ev_ivs ev) type config (ev_key ev)"

text \<open>Up to the insert, whose success ends the segment; \<open>i\<close> is the generated identifier.\<close>

definition add_begin ::
    "registry_env \<Rightarrow> string \<Rightarrow> string \<Rightarrow> jstr \<Rightarrow> config \<Rightarrow> registry \<Rightarrow> (registry_error + unit) \<times> registry" where
  "add_begin ev i type display_name config g =
     (case validate_provider_config (ev_is_uuid ev) (ev_is_url ev) type config of
        [] \<Rightarrow> (Inr (), g\<lparr> rg_rows := sql_insert \<lparr> pr_id = i, pr_type = type, pr_display_name = display_name,
                 pr_config = stored_config ev type config, pr_enabled = True \<rparr> (rg_rows g) \<rparr>)
      | errors \<Rightarrow> (Inl (Config_Invalid errors), g))"

definition add_started ::
    "provider_instance option \<Rightarrow> string \<Rightarrow> string \<Rightarrow> jstr \<Rightarrow> config \<Rightarrow> registry \<Rightarrow> registry \<times> registry_effect list" where
  "add_started started i type display_name config g =
     (g\<lparr> rg_providers := jm_set i (fresh_entry started i type display_name config True) (rg_providers g) \<rparr>,
      if started \<noteq> None then [Provider_Activated i] else [])"

definition add_provider ::
    "registry_env \<Rightarrow> provider_instance option \<Rightarrow> provider_health option \<Rightarrow> string \<Rightarrow> string \<Rightarrow> jstr \<Rightarrow> config \<Rightarrow> registry
      \<Rightarrow> (registry_error + string \<times> jstr list) \<times> registry \<times> registry_effect list" where
  "add_provider ev started probed i type display_name config g =
     (case add_begin ev i type display_name config g of
        (Inl e, g1) \<Rightarrow> (Inl e, g1, [])
      | (Inr _, g1) \<Rightarrow>
          let (g2, es2) = add_started started i type display_name config g1;
              (g3, es3) = (if started \<noteq> None then check_provider_health probed i g2 else (g2, []))
          in (Inr (i, get_webhook_urls (ev_base_url ev) i g3), g3, es2 @ es3))"

section \<open>Updating\<close>

record provider_updates =
  pu_display_name :: "jstr option"
  pu_config :: "config option"
  pu_enabled :: "bool option"

text \<open>\<^verbatim>\<open>{ ...a, ...b }\<close>\<close>

definition spread :: "config \<Rightarrow> config \<Rightarrow> config" where
  "spread a b = fold (\<lambda>(k, v). jm_set k v) b a"

definition needs_reinit :: "provider_updates \<Rightarrow> bool" where
  "needs_reinit u \<longleftrightarrow> pu_config u \<noteq> None \<or> pu_enabled u \<noteq> None"

definition update_row :: "registry_env \<Rightarrow> string \<Rightarrow> config option \<Rightarrow> provider_updates \<Rightarrow> provider_row \<Rightarrow> provider_row" where
  "update_row ev type merged u row =
     row\<lparr> pr_display_name := orelse (pu_display_name u) (pr_display_name row),
          pr_config := (case merged of None \<Rightarrow> pr_config row | Some c \<Rightarrow> stored_config ev type c),
          pr_enabled := orelse (pu_enabled u) (pr_enabled row) \<rparr>"

text \<open>Up to the statement on the table; answers the merged configuration.\<close>

definition update_begin ::
    "registry_env \<Rightarrow> string \<Rightarrow> provider_updates \<Rightarrow> registry \<Rightarrow> (registry_error + config option) \<times> registry" where
  "update_begin ev i u g = (case get_provider i g of
       None \<Rightarrow> (Inl (Provider_Not_Found i), g)
     | Some e \<Rightarrow>
         let merged = map_option (spread (re_config e)) (pu_config u);
             errors = (case merged of None \<Rightarrow> []
                | Some c \<Rightarrow> validate_provider_config (ev_is_uuid ev) (ev_is_url ev) (re_type e) c)
         in if errors \<noteq> [] then (Inl (Config_Invalid errors), g)
            else (Inr merged,
              g\<lparr> rg_rows := sql_update (\<lambda>row. pr_id row = i) (update_row ev (re_type e) merged u) (rg_rows g) \<rparr>))"

text \<open>The entry takes the updates; an instance that must go is told to stop.\<close>

definition apply_updates :: "config option \<Rightarrow> provider_updates \<Rightarrow> registry_entry \<Rightarrow> registry_entry" where
  "apply_updates merged u e =
     e\<lparr> re_display_name := orelse (pu_display_name u) (re_display_name e), re_config := orelse merged (re_config e),
        re_enabled := orelse (pu_enabled u) (re_enabled e),
        re_health := (if needs_reinit u then None else re_health e) \<rparr>"

definition update_apply ::
    "string \<Rightarrow> config option \<Rightarrow> provider_updates \<Rightarrow> registry \<Rightarrow> registry \<times> registry_effect list" where
  "update_apply i merged u g =
     (modify_entry i (apply_updates merged u) g,
      case get_provider i g of
        None \<Rightarrow> []
      | Some e \<Rightarrow> if needs_reinit u \<and> re_instance e \<noteq> None then [Stop_Instance i] else [])"

text \<open>After the stop: without an instance; disabled, or about to be started (\<open>True\<close>).\<close>

definition update_stopped :: "string \<Rightarrow> registry \<Rightarrow> bool \<times> registry" where
  "update_stopped i g =
     (case get_provider i g of None \<Rightarrow> False | Some e \<Rightarrow> re_enabled e,
      modify_entry i (\<lambda>e. if re_enabled e then e\<lparr> re_instance := None \<rparr>
        else e\<lparr> re_instance := None, re_status := Disabled \<rparr>) g)"

text \<open>After the start, on the entry object the method holds.\<close>

definition update_started :: "provider_instance option \<Rightarrow> string \<Rightarrow> registry \<Rightarrow> registry \<times> registry_effect list" where
  "update_started started i g = (case started of
       Some inst \<Rightarrow> (modify_entry i (\<lambda>e. e\<lparr> re_instance := Some inst, re_status := Active \<rparr>) g, [Provider_Activated i])
     | None \<Rightarrow> (modify_entry i (\<lambda>e. e\<lparr> re_status := Unavailable \<rparr>) g, []))"

definition update_provider ::
    "registry_env \<Rightarrow> provider_instance option \<Rightarrow> provider_health option \<Rightarrow> string \<Rightarrow> provider_updates \<Rightarrow> registry
      \<Rightarrow> registry_error option \<times> registry \<times> registry_effect list" where
  "update_provider ev started probed i u g =
     (case update_begin ev i u g of
        (Inl e, g1) \<Rightarrow> (Some e, g1, [])
      | (Inr merged, g1) \<Rightarrow>
          let (g2, es2) = update_apply i merged u g1 in
          if \<not> needs_reinit u then (None, g2, es2)
          else let (go, g3) = update_stopped i g2 in
            if \<not> go then (None, g3, es2)
            else let (g4, es4) = update_started started i g3;
                     (g5, es5) = (if started \<noteq> None then check_provider_health probed i g4 else (g4, []))
              in (None, g5, es2 @ es4 @ es5))"

section \<open>Removing\<close>

definition remove_provider :: "string \<Rightarrow> registry \<Rightarrow> registry_error option \<times> registry \<times> registry_effect list" where
  "remove_provider i g = (case get_provider i g of
       None \<Rightarrow> (Some (Provider_Not_Found i), g, [])
     | Some e \<Rightarrow>
         (None,
          g\<lparr> rg_rows := sql_delete (\<lambda>row. pr_id row = i) (rg_rows g), rg_providers := jm_delete i (rg_providers g) \<rparr>,
          [Orphan_Numbers i] @ (if re_instance e \<noteq> None then [Stop_Instance i] else [])))"

section \<open>The status shown\<close>

datatype ui_status = Ui_Ok | Ui_Error | Ui_Not_Connected | Ui_Disabled

text \<open>What a modem gateway reports: its signal, its network and the fields that are stale.\<close>

record modem_status =
  ms_signal :: int
  ms_network :: "jstr option"
  ms_stale :: "jstr list option"

definition compute_provider_status :: "bool \<Rightarrow> modem_status option \<Rightarrow> registry_entry \<Rightarrow> ui_status" where
  "compute_provider_status is_connected modem p =
     (if \<not> re_enabled p then Ui_Disabled
      else if re_status p = Unavailable then Ui_Error
      else if re_type p = ''modem-gateway'' then
        (if re_instance p = None \<or> \<not> is_connected then Ui_Not_Connected
         else (case modem of
             None \<Rightarrow> Ui_Error
           | Some m \<Rightarrow> if ms_signal m = 0 \<or> \<not> truthy (ms_network m) then Ui_Error
               else (case ms_stale m of
                   None \<Rightarrow> Ui_Ok
                 | Some stale \<Rightarrow> if 3 \<le> length stale then Ui_Error else Ui_Ok)))
      else if re_status p \<noteq> Active then Ui_Error
      else (case re_health p of
          None \<Rightarrow> Ui_Ok
        | Some h \<Rightarrow> if \<not> ph_healthy h then Ui_Error else Ui_Ok))"

definition provider_status_fields :: "bool \<Rightarrow> modem_status option \<Rightarrow> registry_entry \<Rightarrow> ui_status \<times> jstr option \<times> bool" where
  "provider_status_fields is_connected modem p =
     (let unhealthy = (case re_health p of Some h \<Rightarrow> if \<not> ph_healthy h then Some h else None | None \<Rightarrow> None) in
      (compute_provider_status is_connected modem p,
       case unhealthy of None \<Rightarrow> None | Some h \<Rightarrow> ph_reason h,
       case unhealthy of None \<Rightarrow> False | Some h \<Rightarrow> ph_auth_failure h))"

section \<open>Typed configurations\<close>

definition well_typed :: "string \<Rightarrow> config \<Rightarrow> bool" where
  "well_typed type config \<longleftrightarrow> type \<in> set get_supported_provider_types \<and> config_typed type config"

lemma config_typed_text:
  assumes "config_typed type c" "jm_get c k = Some (CStr s)"
  shows "config_typed type (jm_set k (CStr t) c)"
proof -
  have "of_type (jm_get c f) ty \<Longrightarrow> of_type (jm_get (jm_set k (CStr t) c) f) ty" for f ty
    using assms(2) by (cases ty) auto
  then show ?thesis using assms(1) by (auto simp: config_typed_def list_all_iff)
qed

lemma encrypt_fields_typed:
  "config_typed type c \<Longrightarrow> config_typed type (fold (encrypt_field encipher ivs key) fs c)"
proof (induction fs arbitrary: c)
  case (Cons f fs)
  have "config_typed type (encrypt_field encipher ivs key f c)"
    using Cons.prems config_typed_text by (auto simp: encrypt_field_def split: option.splits config_value.splits)
  then show ?case by (simp add: Cons.IH)
qed simp

lemma stored_typed: "config_typed type c \<Longrightarrow> config_typed type (stored_config ev type c)"
  by (simp add: stored_config_def encrypt_config_def encrypt_fields_typed)

lemma decrypt_fields_typed:
  "config_typed type c \<Longrightarrow> fold (decrypt_field decipher key) fs (Some c) = Some d \<Longrightarrow> config_typed type d"
proof (induction fs arbitrary: c)
  case (Cons f fs)
  show ?case
  proof (cases "decrypt_field decipher key f (Some c)")
    case None
    then show ?thesis using Cons.prems(2) by (simp add: decrypt_fold_None)
  next
    case (Some c')
    then have "config_typed type c'"
      using Cons.prems(1) config_typed_text
      by (auto simp: decrypt_field_def split: option.splits config_value.splits if_splits)
    then show ?thesis using Cons.IH Cons.prems(2) Some by simp
  qed
qed simp

lemma decrypt_typed: "config_typed type c \<Longrightarrow> decrypt_config decipher type c key = Some d \<Longrightarrow> config_typed type d"
  by (auto simp: decrypt_config_def decrypt_fields_typed split: if_splits)

definition rows_typed :: "provider_row table \<Rightarrow> bool" where
  "rows_typed rows \<longleftrightarrow> (\<forall>row \<in> set rows. well_typed (pr_type row) (pr_config row))"

definition entries_typed :: "registry \<Rightarrow> bool" where
  "entries_typed g \<longleftrightarrow> (\<forall>i e. get_provider i g = Some e \<longrightarrow> re_id e = i \<and> well_typed (re_type e) (re_config e))"

lemma get_modify_entry [simp]:
  "get_provider j (modify_entry i f g) = (if j = i then map_option f (get_provider i g) else get_provider j g)"
  by (simp add: get_provider_def modify_entry_def)

lemma rows_modify_entry [simp]: "rg_rows (modify_entry i f g) = rg_rows g"
  by (simp add: modify_entry_def)

lemma entries_typed_modify:
  assumes "entries_typed g" "\<And>e. get_provider i g = Some e \<Longrightarrow> re_id (f e) = re_id e"
    and "\<And>e. get_provider i g = Some e \<Longrightarrow> well_typed (re_type (f e)) (re_config (f e))"
  shows "entries_typed (modify_entry i f g)"
  using assms by (fastforce simp: entries_typed_def split: if_splits)

lemma load_rows_typed:
  "entries_typed g \<Longrightarrow> rows_typed rows \<Longrightarrow> entries_typed (snd (load_rows decipher key started rows g))"
proof (induction rows arbitrary: g)
  case (Cons row rows)
  show ?case
  proof (cases "decrypt_config decipher (pr_type row) (pr_config row) key")
    case None
    then show ?thesis using Cons.prems by simp
  next
    case (Some c)
    have "well_typed (pr_type row) c"
      using Cons.prems(2) Some decrypt_typed by (auto simp: rows_typed_def well_typed_def)
    then have "entries_typed (g\<lparr> rg_providers := jm_set (pr_id row)
               (fresh_entry (started (pr_id row)) (pr_id row) (pr_type row) (pr_display_name row) c (pr_enabled row))
               (rg_providers g) \<rparr>)"
      using Cons.prems(1) by (auto simp: entries_typed_def get_provider_def fresh_entry_def)
    then show ?thesis using Cons Some by (simp add: rows_typed_def)
  qed
qed simp

lemma load_rows_rows [simp]: "rg_rows (snd (load_rows decipher key started rows g)) = rg_rows g"
  by (induction rows arbitrary: g) (auto split: option.splits)

lemma load_all_typed:
  "rows_typed (rg_rows g) \<Longrightarrow> entries_typed g \<Longrightarrow> entries_typed (snd (load_all decipher key started g))
    \<and> rows_typed (rg_rows (snd (load_all decipher key started g)))"
  by (auto simp: load_all_def sql_select_def rows_typed_def intro!: load_rows_typed)

section \<open>Running\<close>

text \<open>
  The registry with its running requests: additions between the insert and the start of the
  instance, and updates between the statement and the memory. The remaining segments of an
  update, which set only the instance and the status, may come at any time. A generated
  identifier has never been used before.
\<close>

record registry_system =
  ry_registry :: registry
  ry_adds :: "(string \<times> string \<times> jstr \<times> config) list"
  ry_updates :: "(string \<times> string \<times> config option \<times> provider_updates) list"
  ry_used :: "string list"

datatype registry_event = Ev_Add_Begin string | Ev_Add_Started string | Ev_Update_Begin string | Ev_Update_Apply string
  | Ev_Update_Stopped string | Ev_Update_Started string | Ev_Probed string | Ev_Remove string

definition registry_init :: "registry_system \<Rightarrow> bool" where
  "registry_init S \<longleftrightarrow> (\<exists>rows decipher key started. rows_typed rows \<and> distinct (map pr_id rows)
     \<and> (\<forall>row \<in> set rows. pr_id row \<in> set (ry_used S))
     \<and> ry_registry S = snd (load_all decipher key started (new_registry rows))
     \<and> ry_adds S = [] \<and> ry_updates S = [])"

inductive registry_step :: "registry_env \<Rightarrow> registry_system \<Rightarrow> registry_event \<Rightarrow> registry_system \<Rightarrow> bool"
  for ev :: registry_env where
  st_add_begin: "i \<notin> set (ry_used S) \<Longrightarrow> add_begin ev i type name config (ry_registry S) = (Inr (), g) \<Longrightarrow>
     registry_step ev S (Ev_Add_Begin i) (S\<lparr> ry_registry := g, ry_adds := (i, type, name, config) # ry_adds S, ry_used := i # ry_used S \<rparr>)"
| st_add_started: "(i, type, name, config) \<in> set (ry_adds S) \<Longrightarrow>
     add_started started i type name config (ry_registry S) = (g, es) \<Longrightarrow>
     registry_step ev S (Ev_Add_Started i) (S\<lparr> ry_registry := g, ry_adds := filter (\<lambda>a. fst a \<noteq> i) (ry_adds S) \<rparr>)"
| st_update_begin: "get_provider i (ry_registry S) = Some e \<Longrightarrow> update_begin ev i u (ry_registry S) = (Inr merged, g) \<Longrightarrow>
     registry_step ev S (Ev_Update_Begin i) (S\<lparr> ry_registry := g, ry_updates := (i, re_type e, merged, u) # ry_updates S \<rparr>)"
| st_update_apply: "(i, type, merged, u) \<in> set (ry_updates S) \<Longrightarrow> update_apply i merged u (ry_registry S) = (g, es) \<Longrightarrow>
     registry_step ev S (Ev_Update_Apply i) (S\<lparr> ry_registry := g, ry_updates := remove1 (i, type, merged, u) (ry_updates S) \<rparr>)"
| st_update_stopped: "update_stopped i (ry_registry S) = (go, g) \<Longrightarrow>
     registry_step ev S (Ev_Update_Stopped i) (S\<lparr> ry_registry := g \<rparr>)"
| st_update_started: "update_started started i (ry_registry S) = (g, es) \<Longrightarrow>
     registry_step ev S (Ev_Update_Started i) (S\<lparr> ry_registry := g \<rparr>)"
| st_probed: "check_provider_health probed i (ry_registry S) = (g, es) \<Longrightarrow>
     registry_step ev S (Ev_Probed i) (S\<lparr> ry_registry := g \<rparr>)"
| st_remove: "remove_provider i (ry_registry S) = (None, g, es) \<Longrightarrow>
     registry_step ev S (Ev_Remove i) (S\<lparr> ry_registry := g \<rparr>)"

lemma add_begin_ok:
  assumes "add_begin ev i type name config g = (Inr x, g')"
  shows "well_typed type config \<and> rg_providers g' = rg_providers g
    \<and> rg_rows g' = rg_rows g @ [\<lparr> pr_id = i, pr_type = type, pr_display_name = name,
                 pr_config = stored_config ev type config, pr_enabled = True \<rparr>]"
proof -
  have "validate_provider_config (ev_is_uuid ev) (ev_is_url ev) type config = []"
    using assms by (auto simp: add_begin_def split: list.splits)
  then show ?thesis
    using assms validated_typed by (auto simp: add_begin_def sql_insert_def well_typed_def)
qed

lemma update_begin_ok:
  assumes "update_begin ev i u g = (Inr merged, g')" "get_provider i g = Some e"
  shows "(case merged of None \<Rightarrow> True | Some c \<Rightarrow> well_typed (re_type e) c) \<and> rg_providers g' = rg_providers g
    \<and> rg_rows g' = sql_update (\<lambda>row. pr_id row = i) (update_row ev (re_type e) merged u) (rg_rows g)
    \<and> (merged = None \<longleftrightarrow> pu_config u = None)"
  using assms validated_typed
  by (auto simp: update_begin_def Let_def well_typed_def split: if_splits option.splits)

lemma rows_of_update [simp]:
  "pr_id (update_row ev type merged u row) = pr_id row" "pr_type (update_row ev type merged u row) = pr_type row"
  "pr_config (update_row ev type merged u row) = (case merged of None \<Rightarrow> pr_config row | Some c \<Rightarrow> stored_config ev type c)"
  by (simp_all add: update_row_def)

text \<open>The row of an entry has the entry's type.\<close>

definition rows_agree :: "registry \<Rightarrow> bool" where
  "rows_agree g \<longleftrightarrow> (\<forall>i e. get_provider i g = Some e \<longrightarrow> (\<forall>row \<in> set (rg_rows g). pr_id row = i \<longrightarrow> pr_type row = re_type e))"

lemma update_rows_typed:
  assumes "rows_typed rows" "case merged of None \<Rightarrow> True | Some c \<Rightarrow> well_typed type c"
    and "\<forall>row \<in> set rows. pr_id row = i \<longrightarrow> pr_type row = type"
  shows "rows_typed (sql_update (\<lambda>row. pr_id row = i) (update_row ev type merged u) rows)"
  using assms by (auto simp: rows_typed_def sql_update_def well_typed_def stored_typed split: option.splits)

lemma apply_updates_fields [simp]:
  "re_id (apply_updates merged u e) = re_id e" "re_type (apply_updates merged u e) = re_type e"
  "re_config (apply_updates merged u e) = orelse merged (re_config e)"
  "re_enabled (apply_updates merged u e) = orelse (pu_enabled u) (re_enabled e)"
  "re_instance (apply_updates merged u e) = re_instance e" "re_status (apply_updates merged u e) = re_status e"
  by (simp_all add: apply_updates_def)

lemma keeps_entries:
  assumes "\<And>e. re_id (f e) = re_id e" "\<And>e. re_type (f e) = re_type e" "\<And>e. re_config (f e) = re_config e"
  shows "entries_typed g \<Longrightarrow> entries_typed (modify_entry i f g)"
    and "rows_agree g \<Longrightarrow> rows_agree (modify_entry i f g)"
  using assms by (auto simp: entries_typed_def rows_agree_def split: if_splits)

text \<open>The segments that set only the instance, the status or the health of one entry.\<close>

definition quiet_change :: "registry \<Rightarrow> registry \<Rightarrow> bool" where
  "quiet_change g g' \<longleftrightarrow> (\<exists>i f. g' = modify_entry i f g \<and> (\<forall>e. re_id (f e) = re_id e \<and> re_type (f e) = re_type e \<and> re_config (f e) = re_config e))
     \<or> g' = g"

lemma quiet_changes:
  "update_stopped i g = (go, g') \<Longrightarrow> quiet_change g g'"
  "update_started started i g = (g', es) \<Longrightarrow> quiet_change g g'"
  "check_provider_health probed i g = (g', es) \<Longrightarrow> quiet_change g g'"
proof -
  let ?stop = "\<lambda>e. if re_enabled e then e\<lparr> re_instance := None \<rparr> else e\<lparr> re_instance := None, re_status := Disabled \<rparr>"
  have "\<forall>e. re_id (?stop e) = re_id e \<and> re_type (?stop e) = re_type e \<and> re_config (?stop e) = re_config e" by simp
  then show "update_stopped i g = (go, g') \<Longrightarrow> quiet_change g g'"
    unfolding update_stopped_def quiet_change_def by blast
next
  have a: "\<forall>e. re_id (e\<lparr> re_instance := Some inst, re_status := Active \<rparr>) = re_id e
      \<and> re_type (e\<lparr> re_instance := Some inst, re_status := Active \<rparr>) = re_type e
      \<and> re_config (e\<lparr> re_instance := Some inst, re_status := Active \<rparr>) = re_config e" for inst :: provider_instance by simp
  have b: "\<forall>e. re_id (e\<lparr> re_status := Unavailable \<rparr>) = re_id e \<and> re_type (e\<lparr> re_status := Unavailable \<rparr>) = re_type e
      \<and> re_config (e\<lparr> re_status := Unavailable \<rparr>) = re_config e" by simp
  show "update_started started i g = (g', es) \<Longrightarrow> quiet_change g g'"
    unfolding update_started_def quiet_change_def by (cases started) (use a b in \<open>force+\<close>)
next
  have "\<forall>e. re_id (e\<lparr> re_health := h \<rparr>) = re_id e \<and> re_type (e\<lparr> re_health := h \<rparr>) = re_type e
      \<and> re_config (e\<lparr> re_health := h \<rparr>) = re_config e" for h by simp
  then show "check_provider_health probed i g = (g', es) \<Longrightarrow> quiet_change g g'"
    unfolding check_provider_health_def quiet_change_def by (force split: option.splits if_splits)
qed

definition pending_add_ok :: "registry_system \<Rightarrow> string \<times> string \<times> jstr \<times> config \<Rightarrow> bool" where
  "pending_add_ok S a \<longleftrightarrow> (case a of (i, type, name, config) \<Rightarrow>
     well_typed type config \<and> i \<in> set (ry_used S) \<and> get_provider i (ry_registry S) = None
     \<and> (\<forall>row \<in> set (rg_rows (ry_registry S)). pr_id row = i \<longrightarrow> pr_type row = type))"

definition pending_update_ok :: "registry_system \<Rightarrow> string \<times> string \<times> config option \<times> provider_updates \<Rightarrow> bool" where
  "pending_update_ok S p \<longleftrightarrow> (case p of (i, type, merged, u) \<Rightarrow>
     (case merged of None \<Rightarrow> True | Some c \<Rightarrow> well_typed type c)
     \<and> i \<in> set (ry_used S) \<and> i \<notin> fst ` set (ry_adds S)
     \<and> (\<forall>e. get_provider i (ry_registry S) = Some e \<longrightarrow> re_type e = type))"

definition typed_state :: "registry_system \<Rightarrow> bool" where
  "typed_state S \<longleftrightarrow> rows_typed (rg_rows (ry_registry S)) \<and> entries_typed (ry_registry S) \<and> rows_agree (ry_registry S)
     \<and> (\<forall>i. get_provider i (ry_registry S) \<noteq> None \<longrightarrow> i \<in> set (ry_used S))
     \<and> (\<forall>row \<in> set (rg_rows (ry_registry S)). pr_id row \<in> set (ry_used S))
     \<and> distinct (map fst (ry_adds S))
     \<and> (\<forall>a \<in> set (ry_adds S). pending_add_ok S a) \<and> (\<forall>p \<in> set (ry_updates S). pending_update_ok S p)"

lemma typed_stateI:
  assumes "rows_typed (rg_rows (ry_registry S))" "entries_typed (ry_registry S)" "rows_agree (ry_registry S)"
    and "\<And>i. get_provider i (ry_registry S) \<noteq> None \<Longrightarrow> i \<in> set (ry_used S)"
    and "\<And>row. row \<in> set (rg_rows (ry_registry S)) \<Longrightarrow> pr_id row \<in> set (ry_used S)"
    and "distinct (map fst (ry_adds S))"
    and "\<And>a. a \<in> set (ry_adds S) \<Longrightarrow> pending_add_ok S a" "\<And>p. p \<in> set (ry_updates S) \<Longrightarrow> pending_update_ok S p"
  shows "typed_state S"
  using assms by (simp add: typed_state_def)

lemma typed_stateD:
  assumes "typed_state S"
  shows "rows_typed (rg_rows (ry_registry S))" "entries_typed (ry_registry S)" "rows_agree (ry_registry S)"
    and "get_provider i (ry_registry S) \<noteq> None \<Longrightarrow> i \<in> set (ry_used S)"
    and "row \<in> set (rg_rows (ry_registry S)) \<Longrightarrow> pr_id row \<in> set (ry_used S)"
    and "distinct (map fst (ry_adds S))"
    and "a \<in> set (ry_adds S) \<Longrightarrow> pending_add_ok S a" and "p \<in> set (ry_updates S) \<Longrightarrow> pending_update_ok S p"
  using assms by (auto simp: typed_state_def)

lemma quiet_typed:
  assumes "typed_state S" "quiet_change (ry_registry S) g'"
  shows "typed_state (S\<lparr> ry_registry := g' \<rparr>)"
  using assms(2) unfolding quiet_change_def
proof
  assume "g' = ry_registry S"
  then show ?thesis using assms(1) by simp
next
  assume "\<exists>i f. g' = modify_entry i f (ry_registry S) \<and> (\<forall>e. re_id (f e) = re_id e \<and> re_type (f e) = re_type e \<and> re_config (f e) = re_config e)"
  then obtain i f where g: "g' = modify_entry i f (ry_registry S)"
    and f: "\<And>e. re_id (f e) = re_id e" "\<And>e. re_type (f e) = re_type e" "\<And>e. re_config (f e) = re_config e" by blast
  note D = typed_stateD [OF assms(1)]
  have n: "get_provider j g' = None \<longleftrightarrow> get_provider j (ry_registry S) = None" for j using g by simp
  have t: "re_type e = t" if "get_provider j g' = Some e" "\<forall>e. get_provider j (ry_registry S) = Some e \<longrightarrow> re_type e = t" for j t e
    using that g f(2) by (auto split: if_splits)
  have r: "rg_rows g' = rg_rows (ry_registry S)" using g by simp
  show ?thesis
  proof (rule typed_stateI)
    fix a assume "a \<in> set (ry_adds (S\<lparr> ry_registry := g' \<rparr>))"
    then show "pending_add_ok (S\<lparr> ry_registry := g' \<rparr>) a" using D(7) [of a] by (auto simp: pending_add_ok_def n r)
  next
    fix p assume "p \<in> set (ry_updates (S\<lparr> ry_registry := g' \<rparr>))"
    then show "pending_update_ok (S\<lparr> ry_registry := g' \<rparr>) p" using D(8) [of p] by (auto simp: pending_update_ok_def t)
  next
    show "j \<in> set (ry_used (S\<lparr> ry_registry := g' \<rparr>))" if "get_provider j (ry_registry (S\<lparr> ry_registry := g' \<rparr>)) \<noteq> None" for j
      using that n [of j] D(4) [of j] by (simp del: not_None_eq)
  qed (use D(1-3,5,6) keeps_entries [of f "ry_registry S" i, OF f] g r in auto)
qed

lemma load_rows_from:
  "get_provider i (snd (load_rows decipher key started rows g)) = Some e \<Longrightarrow>
     get_provider i g = Some e \<or> (\<exists>row \<in> set rows. pr_id row = i \<and> pr_type row = re_type e)"
proof (induction rows arbitrary: g)
  case (Cons row rows)
  show ?case
  proof (cases "decrypt_config decipher (pr_type row) (pr_config row) key")
    case None
    then show ?thesis using Cons.prems by simp
  next
    case (Some c)
    then show ?thesis using Cons.IH [of "g\<lparr> rg_providers := jm_set (pr_id row)
               (fresh_entry (started (pr_id row)) (pr_id row) (pr_type row) (pr_display_name row) c (pr_enabled row))
               (rg_providers g) \<rparr>"] Cons.prems
      by (auto simp: get_provider_def fresh_entry_def split: if_splits)
  qed
qed simp

lemma init_typed: "registry_init S \<Longrightarrow> typed_state S"
proof -
  assume "registry_init S"
  then obtain rows decipher key started where r: "rows_typed rows" "distinct (map pr_id rows)"
    "\<forall>row \<in> set rows. pr_id row \<in> set (ry_used S)" and S: "ry_registry S = snd (load_all decipher key started (new_registry rows))"
    "ry_adds S = []" "ry_updates S = []" by (auto simp: registry_init_def)
  have e: "entries_typed (new_registry rows)" by (simp add: entries_typed_def get_provider_def new_registry_def)
  have w: "rg_rows (ry_registry S) = rows" by (simp add: S(1) load_all_def new_registry_def)
  have origin: "\<exists>row \<in> set rows. pr_id row = i \<and> pr_type row = re_type a" if "get_provider i (ry_registry S) = Some a" for i a
    using load_rows_from [of i decipher key started "sql_select pr_enabled rows" "new_registry rows" a] that
    by (auto simp: S(1) load_all_def new_registry_def get_provider_def sql_select_def)
  have agree: "pr_type row = re_type a" if "get_provider (pr_id row) (ry_registry S) = Some a" "row \<in> set rows" for row a
  proof -
    note o = origin [OF that(1)]
    obtain row' where "row' \<in> set rows" "pr_id row' = pr_id row" "pr_type row' = re_type a" using o by blast
    then show ?thesis using r(2) that(2) by (metis inj_on_def distinct_map)
  qed
  show ?thesis
  proof (rule typed_stateI)
    show "entries_typed (ry_registry S)"
      using load_all_typed [of "new_registry rows" decipher key started] r(1) e S(1) by (simp add: new_registry_def)
    show "rows_agree (ry_registry S)" using agree by (auto simp: rows_agree_def w)
    show "i \<in> set (ry_used S)" if "get_provider i (ry_registry S) \<noteq> None" for i using origin that r(3) by blast
  qed (use r S w in auto)
qed

lemma add_begin_typed:
  assumes "typed_state S" "i \<notin> set (ry_used S)" "add_begin ev i type name config (ry_registry S) = (Inr x, g)"
  shows "typed_state (S\<lparr> ry_registry := g, ry_adds := (i, type, name, config) # ry_adds S, ry_used := i # ry_used S \<rparr>)" (is "typed_state ?T")
proof -
  note a = add_begin_ok [OF assms(3)] and D = typed_stateD [OF assms(1)]
  have p: "get_provider j g = get_provider j (ry_registry S)" for j using a by (simp add: get_provider_def)
  have f1: "get_provider i (ry_registry S) = None" using assms(2) D(4) by blast
  have f2: "fst b \<noteq> i" if "b \<in> set (ry_adds S)" for b
    using D(7) [OF that] assms(2) by (auto simp: pending_add_ok_def split: prod.splits)
  have f3: "fst b \<noteq> i" if "b \<in> set (ry_updates S)" for b
    using D(8) [OF that] assms(2) by (auto simp: pending_update_ok_def split: prod.splits)
  have f4: "pr_id row \<noteq> i" if "row \<in> set (rg_rows (ry_registry S))" for row using D(5) [OF that] assms(2) by blast
  show ?thesis
  proof (rule typed_stateI)
    show "rows_typed (rg_rows (ry_registry ?T))" using D(1) a by (simp add: rows_typed_def well_typed_def stored_typed)
    show "entries_typed (ry_registry ?T)" using D(2) by (simp add: entries_typed_def p)
    show "rows_agree (ry_registry ?T)" using D(3) a f1 by (auto simp: rows_agree_def p)
    show "distinct (map fst (ry_adds ?T))" using D(6) f2 by auto
    show "pending_add_ok ?T b" if "b \<in> set (ry_adds ?T)" for b
      using that D(7) [of b] f2 [of b] f4 a f1 by (auto simp: pending_add_ok_def p)
    show "pending_update_ok ?T b" if "b \<in> set (ry_updates ?T)" for b
      using that D(8) [of b] f3 [of b] by (auto simp: pending_update_ok_def p)
    show "pr_id row \<in> set (ry_used ?T)" if "row \<in> set (rg_rows (ry_registry ?T))" for row using that a D(5) by auto
  qed (use D(4) p in auto)
qed

lemma add_started_typed:
  assumes "typed_state S" "(i, type, name, config) \<in> set (ry_adds S)"
    and "add_started started i type name config (ry_registry S) = (g, es)"
  shows "typed_state (S\<lparr> ry_registry := g, ry_adds := filter (\<lambda>a. fst a \<noteq> i) (ry_adds S) \<rparr>)" (is "typed_state ?T")
proof -
  note D = typed_stateD [OF assms(1)]
  have g: "get_provider j g = (if j = i then Some (fresh_entry started i type name config True) else get_provider j (ry_registry S))"
    "rg_rows g = rg_rows (ry_registry S)" for j
    using assms(3) by (auto simp: add_started_def get_provider_def)
  have w: "well_typed type config" "i \<in> set (ry_used S)"
    and t: "\<forall>row \<in> set (rg_rows (ry_registry S)). pr_id row = i \<longrightarrow> pr_type row = type"
    using D(7) [OF assms(2)] by (auto simp: pending_add_ok_def)
  have f3: "fst b \<noteq> i" if "b \<in> set (ry_updates S)" for b
    using D(8) [OF that] assms(2) by (force simp: pending_update_ok_def split: prod.splits)
  show ?thesis
  proof (rule typed_stateI)
    show "rows_typed (rg_rows (ry_registry ?T))" using D(1) g by simp
    show "entries_typed (ry_registry ?T)" using D(2) w(1) by (auto simp: entries_typed_def g fresh_entry_def)
    show "rows_agree (ry_registry ?T)" using D(3) t by (auto simp: rows_agree_def g fresh_entry_def)
    show "distinct (map fst (ry_adds ?T))" using D(6) by (simp add: distinct_map_filter)
    show "pending_add_ok ?T b" if "b \<in> set (ry_adds ?T)" for b
      using that D(7) [of b] by (auto simp: pending_add_ok_def g)
    show "pending_update_ok ?T b" if "b \<in> set (ry_updates ?T)" for b
      using that D(8) [of b] f3 [of b] by (auto simp: pending_update_ok_def g)
    show "j \<in> set (ry_used ?T)" if "get_provider j (ry_registry ?T) \<noteq> None" for j
      using that D(4) [of j] w(2) by (auto simp: g split: if_splits)
  qed (use D(5) g in auto)
qed

lemma update_begin_typed:
  assumes "typed_state S" "get_provider i (ry_registry S) = Some e" "update_begin ev i u (ry_registry S) = (Inr merged, g)"
  shows "typed_state (S\<lparr> ry_registry := g, ry_updates := (i, re_type e, merged, u) # ry_updates S \<rparr>)" (is "typed_state ?T")
proof -
  note a = update_begin_ok [OF assms(3,2)] and D = typed_stateD [OF assms(1)]
  have p: "get_provider j g = get_provider j (ry_registry S)" for j using a by (simp add: get_provider_def)
  have ids: "\<exists>row' \<in> set (rg_rows (ry_registry S)). pr_id row = pr_id row' \<and> pr_type row = pr_type row'" if "row \<in> set (rg_rows g)" for row
    using that a by (auto simp: sql_update_mem split: if_splits)
  have f: "i \<in> set (ry_used S)" using assms(2) D(4) by simp
  have "i \<notin> fst ` set (ry_adds S)"
  proof
    assume "i \<in> fst ` set (ry_adds S)"
    then obtain b where "b \<in> set (ry_adds S)" "fst b = i" by blast
    then show False using D(7) [of b] assms(2) by (auto simp: pending_add_ok_def split: prod.splits)
  qed
  with f assms(2) a have new: "pending_update_ok ?T (i, re_type e, merged, u)" by (simp add: pending_update_ok_def p)
  show ?thesis
  proof (rule typed_stateI)
    show "rows_typed (rg_rows (ry_registry ?T))"
      using D(1,3) assms(2) a by (auto intro!: update_rows_typed simp: rows_agree_def)
    show "entries_typed (ry_registry ?T)" using D(2) by (simp add: entries_typed_def p)
    show "rows_agree (ry_registry ?T)" using D(3) ids by (fastforce simp: rows_agree_def p)
    show "pending_add_ok ?T b" if "b \<in> set (ry_adds ?T)" for b
      using that D(7) [of b] ids by (fastforce simp: pending_add_ok_def p split: prod.splits)
    show "pending_update_ok ?T b" if "b \<in> set (ry_updates ?T)" for b
      using that D(8) [of b] new by (auto simp: pending_update_ok_def p split: prod.splits)
    show "pr_id row \<in> set (ry_used ?T)" if "row \<in> set (rg_rows (ry_registry ?T))" for row
      using that ids [of row] D(5) by auto
  qed (use D(4,6) p in auto)
qed

lemma update_apply_typed:
  assumes "typed_state S" "(i, type, merged, u) \<in> set (ry_updates S)" "update_apply i merged u (ry_registry S) = (g, es)"
  shows "typed_state (S\<lparr> ry_registry := g, ry_updates := remove1 (i, type, merged, u) (ry_updates S) \<rparr>)" (is "typed_state ?T")
proof -
  note D = typed_stateD [OF assms(1)]
  have g: "g = modify_entry i (apply_updates merged u) (ry_registry S)" using assms(3) by (simp add: update_apply_def)
  have w: "case merged of None \<Rightarrow> True | Some c \<Rightarrow> well_typed type c"
    "\<And>e. get_provider i (ry_registry S) = Some e \<Longrightarrow> re_type e = type"
    using D(8) [OF assms(2)] by (auto simp: pending_update_ok_def)
  have n: "get_provider j g = None \<longleftrightarrow> get_provider j (ry_registry S) = None" for j using g by simp
  have t: "re_type e = t" if "get_provider j g = Some e" "\<forall>e. get_provider j (ry_registry S) = Some e \<longrightarrow> re_type e = t" for j t e
    using that g by (auto split: if_splits)
  show ?thesis
  proof (rule typed_stateI)
    show "entries_typed (ry_registry ?T)"
      using D(2) w by (auto simp: g entries_typed_def split: option.splits if_splits)
    show "rows_agree (ry_registry ?T)" using D(3) by (auto simp: g rows_agree_def)
    show "pending_add_ok ?T b" if "b \<in> set (ry_adds ?T)" for b
      using that D(7) [of b] g by (auto simp: pending_add_ok_def n)
    show "pending_update_ok ?T b" if "b \<in> set (ry_updates ?T)" for b
    proof -
      have "b \<in> set (ry_updates S)" using that set_remove1_subset by fastforce
      then show ?thesis using D(8) [of b] by (auto simp: pending_update_ok_def t)
    qed
    show "j \<in> set (ry_used ?T)" if "get_provider j (ry_registry ?T) \<noteq> None" for j
      using that n [of j] D(4) [of j] by (simp del: not_None_eq)
  qed (use D(1,5,6) g in auto)
qed

lemma remove_typed:
  assumes "typed_state S" "remove_provider i (ry_registry S) = (None, g, es)"
  shows "typed_state (S\<lparr> ry_registry := g \<rparr>)" (is "typed_state ?T")
proof -
  note D = typed_stateD [OF assms(1)]
  have g: "get_provider j g = (if j = i then None else get_provider j (ry_registry S))"
    "rg_rows g = sql_delete (\<lambda>row. pr_id row = i) (rg_rows (ry_registry S))" for j
    using assms(2) by (auto simp: remove_provider_def get_provider_def split: option.splits)
  show ?thesis
  proof (rule typed_stateI)
    show "rows_typed (rg_rows (ry_registry ?T))" using D(1) by (simp add: g rows_typed_def sql_delete_def)
    show "entries_typed (ry_registry ?T)" using D(2) by (simp add: entries_typed_def g)
    show "rows_agree (ry_registry ?T)" using D(3) by (simp add: rows_agree_def g sql_delete_def)
    show "pending_add_ok ?T b" if "b \<in> set (ry_adds ?T)" for b
      using that D(7) [of b] by (auto simp: pending_add_ok_def g sql_delete_def)
    show "pending_update_ok ?T b" if "b \<in> set (ry_updates ?T)" for b
      using that D(8) [of b] by (auto simp: pending_update_ok_def g split: if_splits)
    show "j \<in> set (ry_used ?T)" if "get_provider j (ry_registry ?T) \<noteq> None" for j
      using that D(4) [of j] by (auto simp: g split: if_splits)
    show "pr_id row \<in> set (ry_used ?T)" if "row \<in> set (rg_rows (ry_registry ?T))" for row
      using that D(5) [of row] by (auto simp: g sql_delete_def)
  qed (use D(6) in auto)
qed

interpretation registry: invariant_system registry_init "registry_step ev" typed_state
proof unfold_locales
  show "registry_init S \<Longrightarrow> typed_state S" for S by (rule init_typed)
next
  fix S x T
  assume t: "typed_state S" and s: "registry_step ev S x T"
  from s t show "typed_state T"
    by (cases rule: registry_step.cases)
      (auto intro: add_begin_typed add_started_typed update_begin_typed update_apply_typed remove_typed
        quiet_typed [OF _ quiet_changes(1)] quiet_typed [OF _ quiet_changes(2)] quiet_typed [OF _ quiet_changes(3)])
qed

section \<open>Properties\<close>

definition example_env :: registry_env where
  "example_env = \<lparr> ev_is_uuid = (\<lambda>_. True), ev_is_url = (\<lambda>_. True), ev_encipher = shift_encipher,
     ev_decipher = shift_decipher, ev_ivs = (\<lambda>_. js ''0a''), ev_key = Some (js ''k''), ev_base_url = js ''https://x'' \<rparr>"

definition example_row :: provider_row where
  "example_row = \<lparr> pr_id = ''p1'', pr_type = ''46elks'', pr_display_name = js ''Elks'',
     pr_config = example_elks_config, pr_enabled = True \<rparr>"

definition example_inst :: provider_instance where
  "example_inst = \<lparr> in_provider = \<lparr> pv_provider_id = ''46elks'', pv_uses_websocket_audio = False, pv_supports_sips = None \<rparr>,
     in_webhook_endpoints = elks46_webhook_endpoints, in_checks_health = True \<rparr>"

definition example_registry :: registry where
  "example_registry = snd (load_all shift_decipher None (\<lambda>_. Some example_inst) (new_registry [example_row]))"

lemma example_registry_simps:
  "rg_rows example_registry = [example_row]"
  "get_provider ''p1'' example_registry
     = Some (fresh_entry (Some example_inst) ''p1'' ''46elks'' (js ''Elks'') example_elks_config True)"
  by (simp_all add: example_registry_def load_all_def new_registry_def sql_select_def example_row_def decrypt_config_def
      get_provider_def fresh_entry_def)

lemma example_elks_typed: "well_typed ''46elks'' example_elks_config"
  by (simp add: well_typed_def config_typed_def config_signature_def example_elks_config_def jm_get_def
      get_supported_provider_types_def js_def)

definition example_registry_system :: registry_system where
  "example_registry_system = \<lparr> ry_registry = example_registry, ry_adds = [], ry_updates = [], ry_used = [''p1''] \<rparr>"

lemma example_registry_init: "registry_init example_registry_system"
  unfolding registry_init_def
  by (rule exI [of _ "[example_row]"], rule exI [of _ shift_decipher], rule exI [of _ None],
      rule exI [of _ "\<lambda>_. Some example_inst"])
    (simp add: example_registry_system_def example_registry_def rows_typed_def example_row_def example_elks_typed)



subsection \<open>The life of an entry\<close>

text \<open>What holds of an entry while no request is under way on it.\<close>

definition settled :: "registry_entry \<Rightarrow> bool" where
  "settled e \<longleftrightarrow> (re_status e = Active \<longleftrightarrow> re_instance e \<noteq> None) \<and> (re_status e = Disabled \<longleftrightarrow> \<not> re_enabled e)"

definition all_settled :: "registry \<Rightarrow> bool" where
  "all_settled g \<longleftrightarrow> (\<forall>i e. get_provider i g = Some e \<longrightarrow> settled e)"

lemma fresh_settled [simp]: "settled (fresh_entry started i type name config True)"
  by (simp add: settled_def fresh_entry_def)

lemma probe_settled:
  "all_settled g \<Longrightarrow> check_provider_health probed i g = (g', es) \<Longrightarrow> all_settled g'"
  by (auto simp: all_settled_def check_provider_health_def settled_def split: option.splits if_splits)

lemma load_rows_settled:
  "all_settled g \<Longrightarrow> \<forall>row \<in> set rows. pr_enabled row \<Longrightarrow> all_settled (snd (load_rows decipher key started rows g))"
proof (induction rows arbitrary: g)
  case (Cons row rows)
  show ?case
  proof (cases "decrypt_config decipher (pr_type row) (pr_config row) key")
    case (Some c)
    have "all_settled (g\<lparr> rg_providers := jm_set (pr_id row)
               (fresh_entry (started (pr_id row)) (pr_id row) (pr_type row) (pr_display_name row) c (pr_enabled row))
               (rg_providers g) \<rparr>)"
      using Cons.prems by (auto simp: all_settled_def get_provider_def)
    from Cons.IH [OF this] show ?thesis using Cons.prems Some by simp
  qed (use Cons.prems in simp)
qed simp

lemma load_all_settled: "all_settled (snd (load_all decipher key started (new_registry rows)))"
  unfolding load_all_def
  by (rule load_rows_settled) (auto simp: all_settled_def get_provider_def new_registry_def sql_select_def)

lemma update_begin_keeps: "update_begin ev i u g = (Inr merged, g1) \<Longrightarrow> get_provider j g1 = get_provider j g"
  by (auto simp: update_begin_def get_provider_def Let_def split: option.splits if_splits)

lemma update_begin_found: "update_begin ev i u g = (Inr merged, g1) \<Longrightarrow> \<exists>e. get_provider i g = Some e"
  by (auto simp: update_begin_def split: option.splits)

lemma probe_fields:
  assumes "check_provider_health probed i g = (g', es)" "get_provider i g = Some e"
  shows "\<exists>e'. get_provider i g' = Some e' \<and> re_status e' = re_status e \<and> re_instance e' = re_instance e
    \<and> re_enabled e' = re_enabled e \<and> re_config e' = re_config e
    \<and> (can_probe e \<longrightarrow> re_health e' = Some (health_of_probe probed))"
  using assms by (auto simp: check_provider_health_def split: if_splits)

lemma probe_others: "check_provider_health probed i g = (g', es) \<Longrightarrow> j \<noteq> i \<Longrightarrow> get_provider j g' = get_provider j g"
  by (auto simp: check_provider_health_def split: option.splits if_splits)

lemma start_stage:
  assumes "update_started started i g = (g1, es1)" "get_provider i g = Some e"
    and "(if started \<noteq> None then check_provider_health probed i g1 else (g1, [])) = (g2, es2)"
  shows "(\<exists>e'. get_provider i g2 = Some e' \<and> re_enabled e' = re_enabled e \<and> re_config e' = re_config e
      \<and> re_instance e' = (if started = None then re_instance e else started)
      \<and> re_status e' = (if started = None then Unavailable else Active))
    \<and> (\<forall>j. j \<noteq> i \<longrightarrow> get_provider j g2 = get_provider j g)
    \<and> (Provider_Activated i \<in> set (es1 @ es2) \<longleftrightarrow> started \<noteq> None)"
proof (cases started)
  case None
  then show ?thesis using assms by (auto simp: update_started_def)
next
  case (Some inst)
  let ?e = "e\<lparr> re_instance := Some inst, re_status := Active \<rparr>"
  have g1: "get_provider i g1 = Some ?e" "\<And>j. j \<noteq> i \<Longrightarrow> get_provider j g1 = get_provider j g" "es1 = [Provider_Activated i]"
    using assms(1,2) Some by (auto simp: update_started_def)
  have p: "check_provider_health probed i g1 = (g2, es2)" using assms(3) Some by simp
  show ?thesis using probe_fields [OF p g1(1)] probe_others [OF p] g1 Some by auto
qed

text \<open>An update that runs on its own leaves the entry in agreement with what was asked for: an
  unknown provider or an invalid merged configuration changes nothing and is reported; a
  disabled provider has no instance any more and the status \<^verbatim>\<open>disabled\<close>, and a running instance
  was told to stop; an enabled one is active with the new instance, announced to the listeners,
  or unavailable without any; an update of the name alone keeps the instance. All other entries
  are untouched and the registry stays settled.
\<close>

theorem update_settles:
  assumes "all_settled g" "update_provider ev started probed i u g = (err, g', es)"
  shows "all_settled g' \<and> (\<forall>j. j \<noteq> i \<longrightarrow> get_provider j g' = get_provider j g)
    \<and> (err \<noteq> None \<longrightarrow> g' = g \<and> es = [])
    \<and> (err = None \<longrightarrow> (\<exists>e e'. get_provider i g = Some e \<and> get_provider i g' = Some e'
        \<and> re_enabled e' = orelse (pu_enabled u) (re_enabled e)
        \<and> re_config e' = (case pu_config u of None \<Rightarrow> re_config e | Some c \<Rightarrow> spread (re_config e) c)
        \<and> (\<not> needs_reinit u \<longrightarrow> re_instance e' = re_instance e \<and> es = [])
        \<and> (needs_reinit u \<longrightarrow> re_instance e' = (if re_enabled e' then started else None)
             \<and> (re_instance e \<noteq> None \<longrightarrow> Stop_Instance i \<in> set es)
             \<and> (Provider_Activated i \<in> set es \<longleftrightarrow> re_instance e' \<noteq> None))))"
proof (cases "update_begin ev i u g")
  case (Pair r g1)
  show ?thesis
  proof (cases r)
    case (Inl e)
    then have "g1 = g" using Pair by (auto simp: update_begin_def Let_def split: option.splits if_splits)
    moreover have "err = Some e" "g' = g1" "es = []" using assms(2) Pair Inl by (simp_all add: update_provider_def)
    ultimately show ?thesis using assms(1) by simp
  next
    case (Inr merged)
    note b = Pair [unfolded Inr]
    obtain e where e: "get_provider i g = Some e" using update_begin_found [OF b] by blast
    have m: "orelse merged (re_config e) = (case pu_config u of None \<Rightarrow> re_config e | Some c \<Rightarrow> spread (re_config e) c)"
      using b e by (auto simp: update_begin_def Let_def split: if_splits option.splits)
    have k: "get_provider j g1 = get_provider j g" for j by (rule update_begin_keeps [OF b])
    have s: "settled e" using assms(1) e by (simp add: all_settled_def)
    define e2 where "e2 = apply_updates merged u e"
    obtain g2 es2 where a: "update_apply i merged u g1 = (g2, es2)" by fastforce
    have g2: "get_provider j g2 = (if j = i then Some e2 else get_provider j g)" for j
      using a e k by (auto simp: update_apply_def e2_def)
    have es2: "es2 = (if needs_reinit u \<and> re_instance e \<noteq> None then [Stop_Instance i] else [])"
      using a e k by (simp add: update_apply_def)
    show ?thesis
    proof (cases "needs_reinit u")
      case False
      then have "err = None" "g' = g2" "es = []" using assms(2) b a es2 by (auto simp: update_provider_def)
      moreover have "pu_enabled u = None" using False by (auto simp: needs_reinit_def)
      then have "settled e2" using s by (simp add: e2_def settled_def)
      ultimately show ?thesis using assms(1) e False g2 m by (auto simp: all_settled_def e2_def)
    next
      case True
      obtain go g3 where st: "update_stopped i g2 = (go, g3)" by fastforce
      define e3 where "e3 = (if re_enabled e2 then e2\<lparr> re_instance := None \<rparr> else e2\<lparr> re_instance := None, re_status := Disabled \<rparr>)"
      have go: "go = re_enabled e2" and g3: "get_provider j g3 = (if j = i then Some e3 else get_provider j g)" for j
        using st g2 by (auto simp: update_stopped_def e3_def)
      show ?thesis
      proof (cases "re_enabled e2")
        case no: False
        then have "err = None" "g' = g3" "es = es2"
          using assms(2) b a st go True by (auto simp: update_provider_def)
        moreover have "settled e3" using no by (simp add: e3_def settled_def)
        ultimately show ?thesis
          using assms(1) e g3 True no m es2 by (auto simp: all_settled_def e3_def e2_def)
      next
        case yes: True
        obtain g4 es4 where str: "update_started started i g3 = (g4, es4)" by fastforce
        obtain g5 es5 where pr: "(if started \<noteq> None then check_provider_health probed i g4 else (g4, [])) = (g5, es5)" by fastforce
        have r: "err = None" "g' = g5" "es = es2 @ es4 @ es5"
          using assms(2) b a st go True str pr yes by (auto simp: update_provider_def Let_def)
        obtain e5 where e5: "get_provider i g5 = Some e5" "re_enabled e5 = re_enabled e3" "re_config e5 = re_config e3"
          "re_instance e5 = (if started = None then re_instance e3 else started)"
          "re_status e5 = (if started = None then Unavailable else Active)"
          and o: "\<And>j. j \<noteq> i \<Longrightarrow> get_provider j g5 = get_provider j g3"
          and ev: "Provider_Activated i \<in> set (es4 @ es5) \<longleftrightarrow> started \<noteq> None"
          using start_stage [OF str _ pr, of e3] g3 by auto
        have "settled e5" using e5 yes by (simp add: e3_def settled_def)
        then have "all_settled g5" using assms(1) o g3 e5(1) unfolding all_settled_def by (metis option.inject)
        then show ?thesis
          using e e5 True yes m es2 ev o g3 r by (auto simp: e2_def e3_def)
      qed
    qed
  qed
qed

definition disable_update :: provider_updates where
  "disable_update = \<lparr> pu_display_name = None, pu_config = None, pu_enabled = Some False \<rparr>"

theorem update_settles_witness:
  "\<exists>e'. get_provider ''p1'' (fst (snd (update_provider example_env None None ''p1'' disable_update example_registry))) = Some e'
     \<and> \<not> re_enabled e' \<and> re_instance e' = None
     \<and> Stop_Instance ''p1'' \<in> set (snd (snd (update_provider example_env None None ''p1'' disable_update example_registry)))"
proof -
  obtain err g' es where u: "update_provider example_env None None ''p1'' disable_update example_registry = (err, g', es)"
    by (cases "update_provider example_env None None ''p1'' disable_update example_registry") blast
  have s: "all_settled example_registry" unfolding example_registry_def by (rule load_all_settled)
  have "err = None"
    using u by (auto simp: update_provider_def update_begin_def example_registry_simps disable_update_def Let_def
        split: prod.splits if_splits)
  then show ?thesis
    using update_settles [OF s u] unfolding u
    by (auto simp: disable_update_def needs_reinit_def example_registry_simps fresh_entry_def)
qed

subsection \<open>Interleavings and restarts\<close>

text \<open>
  Loading takes only the enabled rows, so after a restart the registry does not know a provider
  that was disabled: it is not listed, its webhooks find no provider, and the request that would
  enable it again is refused as unknown.
\<close>

lemma load_rows_only:
  "\<forall>row \<in> set rows. pr_id row \<noteq> i \<Longrightarrow> get_provider i (snd (load_rows decipher key started rows g)) = get_provider i g"
proof (induction rows arbitrary: g)
  case (Cons row rows)
  then show ?case
    by (cases "decrypt_config decipher (pr_type row) (pr_config row) key") (auto simp: get_provider_def)
qed simp

lemma disabled_provider_lost_on_restart:
  assumes "update_provider ev started probed i disable_update g = (None, g', es)"
    and "g'' = snd (load_all decipher key started' (new_registry (rg_rows g')))"
  shows "get_provider i g'' = None
    \<and> fst (update_provider ev' started'' probed' i \<lparr> pu_display_name = None, pu_config = None, pu_enabled = Some True \<rparr> g'')
        = Some (Provider_Not_Found i)"
proof -
  obtain merged g1 where b: "update_begin ev i disable_update g = (Inr merged, g1)"
    using assms(1) by (auto simp: update_provider_def split: prod.splits sum.splits)
  have r: "rg_rows g' = rg_rows g1"
    using assms(1) b
    by (auto simp: update_provider_def Let_def update_apply_def update_stopped_def update_started_def check_provider_health_def
        split: prod.splits if_splits option.splits)
  obtain e where e: "get_provider i g = Some e" using update_begin_found [OF b] by blast
  have rows: "rg_rows g1 = sql_update (\<lambda>row. pr_id row = i) (update_row ev (re_type e) merged disable_update) (rg_rows g)"
    using update_begin_ok [OF b e] by blast
  have "pr_enabled (update_row ev t merged disable_update row) = False" for t row
    by (simp add: update_row_def disable_update_def)
  then have "\<forall>row \<in> set (sql_select pr_enabled (rg_rows g')). pr_id row \<noteq> i"
    unfolding r rows sql_update_def sql_select_def by auto
  from load_rows_only [OF this, of decipher key started' "new_registry (rg_rows g')"]
  have n: "get_provider i g'' = None"
    unfolding assms(2) load_all_def by (simp add: new_registry_def get_provider_def)
  then show ?thesis by (simp add: update_provider_def update_begin_def)
qed

text \<open>
  Loading decrypts outside its error handling: one row that cannot be decrypted (another
  passphrase, a damaged value) stops the loading there, and the providers after it are not
  loaded, although each of them could be.
\<close>

lemma bad_secret_stops_loading:
  assumes "decrypt_config decipher (pr_type bad) (pr_config bad) key = None" "pr_enabled bad"
  shows "load_all decipher key started (new_registry (bad # rows)) = (False, new_registry (bad # rows))"
  using assms by (simp add: load_all_def new_registry_def sql_select_def)

text \<open>
  A request that disables a provider while an earlier one is still starting its instance is
  undone in part: the earlier one sets the instance and the status \<^verbatim>\<open>active\<close> on the disabled entry.
\<close>

lemma disabled_provider_runs:
  assumes "get_provider i g = Some e" "re_enabled e" "update_stopped i g = (True, g1)"
    and "update_apply i None disable_update g1 = (g2, es2)" "update_stopped i g2 = (go, g3)"
    and "update_started (Some inst) i g3 = (g4, es4)"
  shows "\<exists>e'. get_provider i g4 = Some e' \<and> \<not> re_enabled e' \<and> re_status e' = Active \<and> re_instance e' = Some inst \<and> \<not> settled e'"
proof -
  have "get_provider i g1 = Some (e\<lparr> re_instance := None \<rparr>)" using assms(1-3) by (auto simp: update_stopped_def)
  then have "get_provider i g2 = Some (apply_updates None disable_update (e\<lparr> re_instance := None \<rparr>))"
    using assms(4) by (auto simp: update_apply_def)
  then have "\<exists>e3. get_provider i g3 = Some e3 \<and> \<not> re_enabled e3"
    using assms(5) by (auto simp: update_stopped_def disable_update_def)
  then show ?thesis using assms(6) by (auto simp: update_started_def settled_def)
qed

section \<open>What users are shown\<close>

text \<open>A settled cloud provider shows \<^verbatim>\<open>ok\<close> exactly when it runs and its last probe, if any, succeeded.\<close>

lemma shown_ok_iff:
  "settled e \<Longrightarrow> re_type e \<noteq> ''modem-gateway'' \<Longrightarrow>
     compute_provider_status c m e = Ui_Ok \<longleftrightarrow>
       re_enabled e \<and> re_instance e \<noteq> None \<and> (case re_health e of None \<Rightarrow> True | Some h \<Rightarrow> ph_healthy h)"
  by (auto simp: compute_provider_status_def settled_def split: option.splits provider_status.splits)

text \<open>A provider with rejected credentials is not probed again until it is configured anew.\<close>

lemma rejected_not_probed:
  assumes "entries_typed g" "get_provider i g = Some e" "re_health e = Some h" "ph_auth_failure h" "jm_ok (rg_providers g)"
  shows "i \<notin> set (health_targets g)"
proof
  assume "i \<in> set (health_targets g)"
  then obtain j e' where m: "(j, e') \<in> set (rg_providers g)" "re_id e' = i"
    "\<not> (case re_health e' of None \<Rightarrow> False | Some h \<Rightarrow> ph_auth_failure h)"
    by (auto simp: health_targets_def list_providers_def)
  then have "get_provider j g = Some e'" using assms(5) by (simp add: get_provider_def jm_get_mem)
  then have "e' = e" using assms(1,2) m(2) by (auto simp: entries_typed_def)
  then show False using m(3) assms(3,4) by simp
qed

end
