(* ===== verification/Numbers.thy ===== *)
theory Numbers
  imports Validators Provider_Registry
begin

text \<open>
  \<^verbatim>\<open>src/services/number-management-service.ts\<close> over the table \<^verbatim>\<open>numbers\<close> (keyed by the number, its
  provider possibly none), the setting \<^verbatim>\<open>default_number\<close> and the provider registry, whose table
  names the providers in joins. A synchronisation is cut where the provider is asked for its
  numbers; its statements on the database are one segment. The answer of the provider
  (\<^const>\<open>None\<close> when it throws), the clock and the database's order of texts are arguments.
\<close>

section \<open>Colours\<close>

definition NUMBER_COLOR_PALETTE :: "string list" where
  "NUMBER_COLOR_PALETTE =
     [''#D32F2F'', ''#1976D2'', ''#388E3C'', ''#F9A825'', ''#7B1FA2'', ''#0097A7'', ''#E64A19'', ''#5C6BC0'',
      ''#689F38'', ''#C2185B'', ''#00897B'', ''#F57F17'', ''#512DA8'', ''#0288D1'', ''#AFB42B'', ''#AD1457'']"

record color_choice =
  cc_color :: string
  cc_reclaim_from :: "string option"

definition color_count :: "(string, nat) jmap \<Rightarrow> string \<Rightarrow> nat" where
  "color_count counts color = orelse (jm_get counts color) 0"

definition count_palette_colors :: "string list \<Rightarrow> (string, nat) jmap" where
  "count_palette_colors colors =
     fold (\<lambda>c counts. if jm_has counts c then jm_set c (color_count counts c + 1) counts else counts) colors
       (fold (\<lambda>c counts. jm_set c 0 counts) NUMBER_COLOR_PALETTE [])"

text \<open>The loops of steps 3 and 4: the best colour so far with its count, none standing for infinity.\<close>

definition reclaim_loop :: "(string \<Rightarrow> nat) \<Rightarrow> (string \<Rightarrow> nat) \<Rightarrow> string list \<Rightarrow> (string \<times> nat) option" where
  "reclaim_loop active inactive palette =
     fold (\<lambda>color best. if active color = 0 \<and> 0 < inactive color
         \<and> (case best of None \<Rightarrow> True | Some (_, n) \<Rightarrow> inactive color < n)
       then Some (color, inactive color) else best) palette None"

definition share_loop :: "(string \<Rightarrow> nat) \<Rightarrow> string list \<Rightarrow> string \<times> nat" where
  "share_loop active palette =
     fold (\<lambda>color (best, n). if active color < n then (color, active color) else (best, n)) palette
       (hd palette, active (hd palette))"

definition choose_color :: "string option \<Rightarrow> string list \<Rightarrow> string list \<Rightarrow> color_choice" where
  "choose_color existing active_colors inactive_colors =
     (let active = color_count (count_palette_colors active_colors);
          inactive = color_count (count_palette_colors inactive_colors)
      in case (case existing of None \<Rightarrow> None
           | Some e \<Rightarrow> if e \<in> set NUMBER_COLOR_PALETTE \<and> active e = 0 then Some e else None) of
           Some e \<Rightarrow> \<lparr> cc_color = e, cc_reclaim_from = None \<rparr>
         | None \<Rightarrow> (case find (\<lambda>color. active color = 0 \<and> inactive color = 0) NUMBER_COLOR_PALETTE of
             Some color \<Rightarrow> \<lparr> cc_color = color, cc_reclaim_from = None \<rparr>
           | None \<Rightarrow> (case reclaim_loop active inactive NUMBER_COLOR_PALETTE of
               Some (color, _) \<Rightarrow> \<lparr> cc_color = color, cc_reclaim_from = Some color \<rparr>
             | None \<Rightarrow> \<lparr> cc_color = fst (share_loop active NUMBER_COLOR_PALETTE), cc_reclaim_from = None \<rparr>)))"

section \<open>Data\<close>

record number_row =
  nr_number :: jstr
  nr_provider_id :: "string option"
  nr_label :: "jstr option"
  nr_color :: "string option"
  nr_added_at :: int
  nr_is_active :: bool
  nr_last_used_at :: "int option"
  nr_block_inbound_calls :: bool

text \<open>A row joined with its provider.\<close>

record number_record = number_row +
  nr_provider_display_name :: "jstr option"

record sync_result =
  sy_added :: "jstr list"
  sy_removed :: "jstr list"
  sy_total :: nat

datatype number_event =
    Numbers_Changed "number_record list" "jstr list" "jstr list"
  | Number_Label_Updated jstr jstr
  | Number_Block_Inbound_Updated jstr bool

datatype number_error =
    Provider_Not_In_Registry string
  | Provider_Unavailable string
  | List_Numbers_Failed
  | No_Provider_For_Number

text \<open>The setting is absent, cleared, or a number.\<close>

record number_db =
  nd_numbers :: "number_row table"
  nd_default_number :: "jstr option option"

section \<open>Reading\<close>

definition joined :: "provider_row table \<Rightarrow> number_row \<Rightarrow> number_record option" where
  "joined providers n =
     (case sql_first (\<lambda>p. Some (pr_id p) = nr_provider_id n) providers of
        None \<Rightarrow> None
      | Some p \<Rightarrow> Some (number_row.extend n (number_record.fields (Some (pr_display_name p)))))"

definition unjoined :: "number_row \<Rightarrow> number_record" where
  "unjoined n = number_row.extend n (number_record.fields None)"

definition inner_join :: "provider_row table \<Rightarrow> number_row list \<Rightarrow> number_record list" where
  "inner_join providers ns = List.map_filter (joined providers) ns"

text \<open>The order \<^verbatim>\<open>last_used_at desc\<close>: the database puts rows without a value first.\<close>

definition last_used_desc :: "number_record list \<Rightarrow> number_record list" where
  "last_used_desc ns = filter (\<lambda>n. nr_last_used_at n = None) ns
     @ sort_key (\<lambda>n. - orelse (nr_last_used_at n) 0) (filter (\<lambda>n. nr_last_used_at n \<noteq> None) ns)"

definition get_numbers :: "provider_row table \<Rightarrow> number_db \<Rightarrow> number_record list" where
  "get_numbers providers db = last_used_desc (inner_join providers (sql_select nr_is_active (nd_numbers db)))"

definition get_all_numbers ::
    "(number_record list \<Rightarrow> number_record list) \<Rightarrow> bool \<Rightarrow> provider_row table \<Rightarrow> number_db \<Rightarrow> number_record list" where
  "get_all_numbers by_name include_orphaned providers db =
     by_name (if include_orphaned
       then map (\<lambda>n. case joined providers n of Some j \<Rightarrow> j | None \<Rightarrow> unjoined n) (nd_numbers db)
       else inner_join providers (nd_numbers db))"

definition get_default_number :: "provider_row table \<Rightarrow> number_db \<Rightarrow> number_record option" where
  "get_default_number providers db =
     (let numbers = inner_join providers (sql_select nr_is_active (nd_numbers db)) in
      if numbers = [] then None
      else case (case nd_default_number db of Some (Some v) \<Rightarrow>
            if v = [] then None else find (\<lambda>n. nr_number n = v) numbers | _ \<Rightarrow> None) of
        Some user_default \<Rightarrow> Some user_default
      | None \<Rightarrow>
          if length numbers = 1 then Some (numbers ! 0)
          else (let used_numbers = filter (\<lambda>n. nr_last_used_at n \<noteq> None) numbers in
            if 0 < length used_numbers
            then Some (sort_key (\<lambda>n. - orelse (nr_last_used_at n) 0) used_numbers ! 0)
            else Some (sort_key nr_added_at numbers ! 0)))"

section \<open>Synchronisation\<close>

definition get_color_usage :: "jstr option \<Rightarrow> number_db \<Rightarrow> string list \<times> string list" where
  "get_color_usage exclude_number db =
     (let rows = sql_select (\<lambda>n. nr_color n \<noteq> None \<and> Some (nr_number n) \<noteq> exclude_number) (nd_numbers db)
      in (map (the \<circ> nr_color) (filter nr_is_active rows), map (the \<circ> nr_color) (filter (\<lambda>n. \<not> nr_is_active n) rows)))"

definition set_number :: "jstr \<Rightarrow> (number_row \<Rightarrow> number_row) \<Rightarrow> number_db \<Rightarrow> number_db" where
  "set_number number f db = db\<lparr> nd_numbers := sql_update (\<lambda>n. nr_number n = number) f (nd_numbers db) \<rparr>"

definition reclaim_color :: "color_choice \<Rightarrow> string list \<Rightarrow> number_db \<Rightarrow> string list \<times> number_db" where
  "reclaim_color choice inactive_colors db =
     (case cc_reclaim_from choice of
        None \<Rightarrow> (inactive_colors, db)
      | Some c \<Rightarrow> (remove1 c inactive_colors,
          (case sql_first (\<lambda>n. \<not> nr_is_active n \<and> nr_color n = Some c) (nd_numbers db) of
             None \<Rightarrow> db
           | Some holder \<Rightarrow> set_number (nr_number holder) (\<lambda>n. n\<lparr> nr_color := None \<rparr>) db)))"

definition upsert_number :: "jstr \<Rightarrow> string \<Rightarrow> string \<Rightarrow> int \<Rightarrow> number_db \<Rightarrow> number_db" where
  "upsert_number number provider color now db =
     (if list_ex (\<lambda>n. nr_number n = number) (nd_numbers db)
      then set_number number (\<lambda>n. n\<lparr> nr_provider_id := Some provider, nr_is_active := True, nr_color := Some color \<rparr>) db
      else db\<lparr> nd_numbers := sql_insert \<lparr> nr_number = number, nr_provider_id = Some provider, nr_label = None,
             nr_color = Some color, nr_added_at = now, nr_is_active = True, nr_last_used_at = None,
             nr_block_inbound_calls = False \<rparr> (nd_numbers db) \<rparr>)"

text \<open>The colours held by active and by inactive numbers, the database, and the numbers added.\<close>

record sync_state =
  ss_active_colors :: "string list"
  ss_inactive_colors :: "string list"
  ss_db :: number_db
  ss_added :: "jstr list"

definition sync_activate :: "string option \<Rightarrow> (string \<Rightarrow> number_db \<Rightarrow> number_db) \<Rightarrow> jstr \<Rightarrow> sync_state \<Rightarrow> sync_state" where
  "sync_activate existing put number s =
     (let choice = choose_color existing (ss_active_colors s) (ss_inactive_colors s)
      in case reclaim_color choice (ss_inactive_colors s) (ss_db s) of (inactive, db) \<Rightarrow>
           \<lparr> ss_active_colors = ss_active_colors s @ [cc_color choice], ss_inactive_colors = inactive,
             ss_db = put (cc_color choice) db, ss_added = ss_added s @ [number] \<rparr>)"

definition sync_number :: "string \<Rightarrow> int \<Rightarrow> number_row list \<Rightarrow> jstr \<Rightarrow> sync_state \<Rightarrow> sync_state" where
  "sync_number provider now db_numbers number s =
     (case find (\<lambda>n. nr_number n = number) db_numbers of
        None \<Rightarrow> sync_activate None (\<lambda>color. upsert_number number provider color now) number s
      | Some existing \<Rightarrow>
          if nr_is_active existing then s
          else sync_activate (nr_color existing)
                 (\<lambda>color. set_number number (\<lambda>n. n\<lparr> nr_is_active := True, nr_color := Some color \<rparr>)) number
                 (s\<lparr> ss_inactive_colors := (case nr_color existing of None \<Rightarrow> ss_inactive_colors s
                      | Some c \<Rightarrow> if c = '''' then ss_inactive_colors s else remove1 c (ss_inactive_colors s)) \<rparr>))"

text \<open>The numbers of the provider that it no longer lists; the lists of colours are not read again.\<close>

definition orphaned_rows :: "jstr list \<Rightarrow> number_row list \<Rightarrow> number_row list" where
  "orphaned_rows listed db_numbers = filter (\<lambda>n. nr_is_active n \<and> nr_number n \<notin> set listed) db_numbers"

definition orphan_number :: "number_row \<Rightarrow> number_db \<Rightarrow> number_db" where
  "orphan_number n db = set_number (nr_number n) (\<lambda>m. m\<lparr> nr_is_active := False, nr_provider_id := None \<rparr>) db"

definition sync_store ::
    "string \<Rightarrow> jstr list \<Rightarrow> int \<Rightarrow> provider_row table \<Rightarrow> number_db \<Rightarrow> sync_result \<times> number_db \<times> number_event list" where
  "sync_store provider listed now providers db =
     (let db_numbers = sql_select (\<lambda>n. nr_provider_id n = Some provider) (nd_numbers db);
          s = fold (sync_number provider now db_numbers) listed
                \<lparr> ss_active_colors = fst (get_color_usage None db), ss_inactive_colors = snd (get_color_usage None db),
                  ss_db = db, ss_added = [] \<rparr>;
          gone = orphaned_rows listed db_numbers;
          db' = fold orphan_number gone (ss_db s);
          removed = map nr_number gone
      in (\<lparr> sy_added = ss_added s, sy_removed = removed, sy_total = length listed \<rparr>, db',
          if ss_added s \<noteq> [] \<or> removed \<noteq> [] then [Numbers_Changed (get_numbers providers db') (ss_added s) removed] else []))"

definition sync_begin :: "string \<Rightarrow> registry \<Rightarrow> number_error + registry_entry" where
  "sync_begin provider g =
     (case get_provider provider g of
        None \<Rightarrow> Inl (Provider_Not_In_Registry provider)
      | Some e \<Rightarrow> if re_instance e = None then Inl (Provider_Unavailable provider) else Inr e)"

definition sync_numbers ::
    "string \<Rightarrow> provider_number list option \<Rightarrow> int \<Rightarrow> registry \<Rightarrow> number_db
      \<Rightarrow> (number_error + sync_result) \<times> number_db \<times> number_event list" where
  "sync_numbers provider answer now g db =
     (case sync_begin provider g of
        Inl e \<Rightarrow> (Inl e, db, [])
      | Inr _ \<Rightarrow> (case answer of
          None \<Rightarrow> (Inl List_Numbers_Failed, db, [])
        | Some numbers \<Rightarrow> (case sync_store provider (map pn_number numbers) now (rg_rows g) db of
            (r, db', es) \<Rightarrow> (Inr r, db', es))))"

section \<open>The other operations\<close>

text \<open>A statement on the active row of a number; whether it found one.\<close>

definition update_active :: "jstr \<Rightarrow> (number_row \<Rightarrow> number_row) \<Rightarrow> number_db \<Rightarrow> bool \<times> number_db" where
  "update_active number f db =
     (let p = (\<lambda>n. nr_number n = number \<and> nr_is_active n)
      in (0 < sql_count p (nd_numbers db), db\<lparr> nd_numbers := sql_update p f (nd_numbers db) \<rparr>))"

definition update_label :: "jstr \<Rightarrow> jstr \<Rightarrow> number_db \<Rightarrow> string option \<times> number_db \<times> number_event list" where
  "update_label number label db =
     (case validate_label label of
        Invalid e \<Rightarrow> (Some e, db, [])
      | Valid \<Rightarrow> (case update_active number (\<lambda>n. n\<lparr> nr_label := Some label \<rparr>) db of
          (False, db') \<Rightarrow> (Some ''Number not found or inactive'', db', [])
        | (True, db') \<Rightarrow> (None, db', [Number_Label_Updated number label])))"

definition active_row :: "jstr \<Rightarrow> number_db \<Rightarrow> number_row option" where
  "active_row number db = sql_first (\<lambda>n. nr_number n = number \<and> nr_is_active n) (nd_numbers db)"

definition get_provider_for_number :: "jstr \<Rightarrow> registry \<Rightarrow> number_db \<Rightarrow> registry_entry option" where
  "get_provider_for_number number g db =
     (case active_row number db of
        None \<Rightarrow> None
      | Some row \<Rightarrow> (case nr_provider_id row of
          None \<Rightarrow> None
        | Some p \<Rightarrow> if p = '''' then None else get_provider p g))"

definition require_provider_for_number :: "jstr \<Rightarrow> registry \<Rightarrow> number_db \<Rightarrow> number_error + registry_entry" where
  "require_provider_for_number number g db =
     (case get_provider_for_number number g db of
        None \<Rightarrow> Inl No_Provider_For_Number
      | Some entry \<Rightarrow>
          if re_status entry = Disabled then Inl (Provider_Unavailable (re_id entry))
          else if re_status entry = Unavailable \<or> re_instance entry = None then Inl (Provider_Unavailable (re_id entry))
          else Inr entry)"

definition set_default_number :: "jstr option \<Rightarrow> number_db \<Rightarrow> string option \<times> number_db" where
  "set_default_number number db =
     (if (case number of None \<Rightarrow> True | Some n \<Rightarrow> active_row n db \<noteq> None)
      then (None, db\<lparr> nd_default_number := Some number \<rparr>)
      else (Some ''Number not found or inactive'', db))"

definition set_active :: "jstr \<Rightarrow> bool \<Rightarrow> provider_row table \<Rightarrow> number_db \<Rightarrow> string option \<times> number_db \<times> number_event list" where
  "set_active number active providers db =
     (let db' = set_number number (\<lambda>n. n\<lparr> nr_is_active := active \<rparr>) db
      in if sql_count (\<lambda>n. nr_number n = number) (nd_numbers db) = 0 then (Some ''Number not found'', db', [])
         else (None, db', [Numbers_Changed (get_numbers providers db') [] []]))"

definition mark_number_used :: "jstr \<Rightarrow> int \<Rightarrow> number_db \<Rightarrow> bool \<times> number_db" where
  "mark_number_used number now db = update_active number (\<lambda>n. n\<lparr> nr_last_used_at := Some now \<rparr>) db"

definition set_block_inbound_calls :: "jstr \<Rightarrow> bool \<Rightarrow> number_db \<Rightarrow> string option \<times> number_db \<times> number_event list" where
  "set_block_inbound_calls number block db =
     (case update_active number (\<lambda>n. n\<lparr> nr_block_inbound_calls := block \<rparr>) db of
        (False, db') \<Rightarrow> (Some ''Number not found or inactive'', db', [])
      | (True, db') \<Rightarrow> (None, db', [Number_Block_Inbound_Updated number block]))"

definition is_inbound_blocked :: "jstr \<Rightarrow> number_db \<Rightarrow> bool" where
  "is_inbound_blocked number db =
     (case active_row number db of None \<Rightarrow> False | Some row \<Rightarrow> nr_block_inbound_calls row)"

section \<open>The choice of a colour\<close>

lemma palette_distinct: "distinct NUMBER_COLOR_PALETTE"
  by (simp add: NUMBER_COLOR_PALETTE_def)

lemma palette_size: "length NUMBER_COLOR_PALETTE = 16"
  by (simp add: NUMBER_COLOR_PALETTE_def)

lemma palette_not_Nil [simp]: "NUMBER_COLOR_PALETTE \<noteq> []"
  by (simp add: NUMBER_COLOR_PALETTE_def)

lemma zero_counts:
  "jm_get (fold (\<lambda>c counts. jm_set c 0 counts) cs m) k = (if k \<in> set cs then Some 0 else jm_get m k)"
  by (induction cs arbitrary: m) auto

lemma counts_get:
  "jm_get (fold (\<lambda>c counts. if jm_has counts c then jm_set c (color_count counts c + 1) counts else counts) cs m) k
    = map_option (\<lambda>n. n + count_list cs k) (jm_get m k)"
proof (induction cs arbitrary: m)
  case (Cons c cs)
  then show ?case by (cases "jm_get m c"; cases "jm_get m k") (auto simp: jm_has_iff color_count_def)
qed (simp add: option.map_ident)

lemma count_palette:
  "color_count (count_palette_colors cs) k = (if k \<in> set NUMBER_COLOR_PALETTE then count_list cs k else 0)"
  by (simp add: color_count_def count_palette_colors_def counts_get zero_counts)

lemma count_palette_zero:
  "k \<in> set NUMBER_COLOR_PALETTE \<Longrightarrow> color_count (count_palette_colors cs) k = 0 \<longleftrightarrow> k \<notin> set cs"
  by (simp add: count_palette count_list_0_iff)

lemma count_palette_pos:
  "k \<in> set NUMBER_COLOR_PALETTE \<Longrightarrow> 0 < color_count (count_palette_colors cs) k \<longleftrightarrow> k \<in> set cs"
  using count_palette_zero [of k cs] by (simp only: zero_less_iff_neq_zero) simp

text \<open>The loop of step 3 finds the first colour of least count among the candidates, if there is any.\<close>

lemma reclaim_fold:
  "fold (\<lambda>x b. if P x \<and> (case b of None \<Rightarrow> True | Some (_, n) \<Rightarrow> f x < n) then Some (x, f x) else b) xs b0 = r
    \<Longrightarrow> (case b0 of None \<Rightarrow> True | Some (y, n) \<Rightarrow> n = f y)
    \<Longrightarrow> (case r of None \<Rightarrow> b0 = None \<and> (\<forall>x \<in> set xs. \<not> P x)
        | Some (y, n) \<Rightarrow> n = f y \<and> (b0 = r \<or> y \<in> set xs \<and> P y) \<and> (\<forall>x \<in> set xs. P x \<longrightarrow> f y \<le> f x)
            \<and> (case b0 of None \<Rightarrow> True | Some (z, _) \<Rightarrow> f y \<le> f z))"
  for f :: "'a \<Rightarrow> nat"
proof (induction xs arbitrary: b0)
  case Nil
  then show ?case by (auto split: option.splits)
next
  case (Cons x xs)
  let ?b = "if P x \<and> (case b0 of None \<Rightarrow> True | Some (_, n) \<Rightarrow> f x < n) then Some (x, f x) else b0"
  have step: "fold (\<lambda>x b. if P x \<and> (case b of None \<Rightarrow> True | Some (_, n) \<Rightarrow> f x < n) then Some (x, f x) else b) xs ?b = r"
    using Cons.prems(1) by simp
  have ok: "case ?b of None \<Rightarrow> True | Some (y, n) \<Rightarrow> n = f y"
    using Cons.prems(2) by (auto split: option.splits)
  show ?case
    using Cons.IH [OF step ok] Cons.prems(2) by (fastforce split: option.splits if_splits)
qed

lemma reclaim_loop_None:
  "reclaim_loop a i p = None \<Longrightarrow> c \<in> set p \<Longrightarrow> a c = 0 \<Longrightarrow> i c = 0"
  using reclaim_fold [of "\<lambda>c. a c = 0 \<and> 0 < i c" i p None] by (auto simp: reclaim_loop_def conj_assoc)

lemma reclaim_loop_Some:
  assumes "reclaim_loop a i p = Some (c, n)"
  shows "c \<in> set p" "a c = 0" "0 < i c" "d \<in> set p \<Longrightarrow> a d = 0 \<Longrightarrow> 0 < i d \<Longrightarrow> i c \<le> i d"
  using assms reclaim_fold [of "\<lambda>c. a c = 0 \<and> 0 < i c" i p None] by (auto simp: reclaim_loop_def conj_assoc)

lemma share_fold:
  "fold (\<lambda>x (y, n). if f x < n then (x, f x) else (y, n)) xs (y0, f y0) = (y, n)
    \<Longrightarrow> n = f y \<and> (y = y0 \<or> y \<in> set xs) \<and> f y \<le> f y0 \<and> (\<forall>x \<in> set xs. f y \<le> f x)"
  for f :: "'a \<Rightarrow> nat"
proof (induction xs arbitrary: y0)
  case (Cons x xs)
  show ?case
  proof (cases "f x < f y0")
    case True
    then have "fold (\<lambda>x (y, n). if f x < n then (x, f x) else (y, n)) xs (x, f x) = (y, n)"
      using Cons.prems by simp
    from Cons.IH [OF this] True show ?thesis by auto
  next
    case False
    then have "fold (\<lambda>x (y, n). if f x < n then (x, f x) else (y, n)) xs (y0, f y0) = (y, n)"
      using Cons.prems by simp
    from Cons.IH [OF this] False show ?thesis by auto
  qed
qed simp

lemma share_loop_least:
  assumes "p \<noteq> []"
  shows "fst (share_loop a p) \<in> set p" "c \<in> set p \<Longrightarrow> a (fst (share_loop a p)) \<le> a c"
  using assms share_fold [of a p "hd p" "fst (share_loop a p)" "snd (share_loop a p)"]
  by (auto simp: share_loop_def)

definition keeps_color :: "string option \<Rightarrow> string list \<Rightarrow> bool" where
  "keeps_color existing active \<longleftrightarrow> (case existing of None \<Rightarrow> False | Some e \<Rightarrow> e \<in> set NUMBER_COLOR_PALETTE \<and> e \<notin> set active)"

lemma choose_color_cases:
  obtains (keep) e where "existing = Some e" "keeps_color existing active" "e \<in> set NUMBER_COLOR_PALETTE" "e \<notin> set active"
      "choose_color existing active inactive = \<lparr> cc_color = e, cc_reclaim_from = None \<rparr>"
  | (free) c where "\<not> keeps_color existing active" "c \<in> set NUMBER_COLOR_PALETTE" "c \<notin> set active" "c \<notin> set inactive"
      "choose_color existing active inactive = \<lparr> cc_color = c, cc_reclaim_from = None \<rparr>"
  | (reclaim) c where "\<not> keeps_color existing active" "c \<in> set NUMBER_COLOR_PALETTE" "c \<notin> set active"
      "set NUMBER_COLOR_PALETTE \<subseteq> set active \<union> set inactive"
      "\<forall>d \<in> set NUMBER_COLOR_PALETTE. d \<notin> set active \<longrightarrow> count_list inactive c \<le> count_list inactive d"
      "choose_color existing active inactive = \<lparr> cc_color = c, cc_reclaim_from = Some c \<rparr>"
  | (share) c where "\<not> keeps_color existing active" "c \<in> set NUMBER_COLOR_PALETTE" "set NUMBER_COLOR_PALETTE \<subseteq> set active"
      "\<forall>d \<in> set NUMBER_COLOR_PALETTE. count_list active c \<le> count_list active d"
      "choose_color existing active inactive = \<lparr> cc_color = c, cc_reclaim_from = None \<rparr>"
proof -
  let ?p = NUMBER_COLOR_PALETTE
  let ?a = "color_count (count_palette_colors active)" and ?i = "color_count (count_palette_colors inactive)"
  let ?keep = "case existing of None \<Rightarrow> None | Some e \<Rightarrow> if e \<in> set ?p \<and> ?a e = 0 then Some e else None"
  show thesis
  proof (cases ?keep)
    case (Some e)
    with keep show ?thesis
      by (auto simp: choose_color_def keeps_color_def count_palette_zero split: option.splits if_splits)
  next
    case no_keep: None
    have lost: "\<not> keeps_color existing active"
      using no_keep by (auto simp: keeps_color_def count_palette_zero count_palette_pos split: option.splits if_splits)
    show ?thesis
    proof (cases "find (\<lambda>c. ?a c = 0 \<and> ?i c = 0) ?p")
      case (Some c)
      with no_keep have "choose_color existing active inactive = \<lparr> cc_color = c, cc_reclaim_from = None \<rparr>"
        by (simp add: choose_color_def)
      moreover from find_Some_mem [OF Some] have "c \<in> set ?p" "?a c = 0" "?i c = 0" by auto
      ultimately show ?thesis using free lost by (simp add: count_palette_zero)
    next
      case no_free: None
      have held: "set ?p \<subseteq> set active \<union> set inactive"
        using no_free by (auto simp: find_None_iff count_palette_zero count_palette_pos)
      show ?thesis
      proof (cases "reclaim_loop ?a ?i ?p")
        case (Some cn)
        obtain c n where cn: "cn = (c, n)" by (cases cn)
        note r = reclaim_loop_Some [OF Some [unfolded cn]]
        have "choose_color existing active inactive = \<lparr> cc_color = c, cc_reclaim_from = Some c \<rparr>"
          using no_keep no_free Some cn by (simp add: choose_color_def)
        moreover have "count_list inactive c \<le> count_list inactive d" if "d \<in> set ?p" "d \<notin> set active" for d
          using r(1) r(4) [OF that(1)] that held
          by (cases "?i d = 0") (auto simp: count_palette_zero, auto simp: count_palette count_list_0_iff split: if_splits)
        ultimately show ?thesis using reclaim lost r(1,2) held by (simp add: count_palette_zero)
      next
        case no_reclaim: None
        have "set ?p \<subseteq> set active"
          using reclaim_loop_None [OF no_reclaim] held by (auto simp: count_palette_zero)
        moreover have "choose_color existing active inactive
            = \<lparr> cc_color = fst (share_loop ?a ?p), cc_reclaim_from = None \<rparr>"
          using no_keep no_free no_reclaim by (simp add: choose_color_def)
        moreover have "\<forall>d \<in> set ?p. count_list active (fst (share_loop ?a ?p)) \<le> count_list active d"
          using share_loop_least(2) [of ?p _ ?a] share_loop_least(1) [of ?p ?a] by (simp add: count_palette)
        ultimately show ?thesis using share lost share_loop_least(1) [of ?p ?a] by simp
      qed
    qed
  qed
qed

lemma choose_color_fresh:
  assumes "length active < length NUMBER_COLOR_PALETTE"
  shows "cc_color (choose_color existing active inactive) \<notin> set active"
proof (cases existing active inactive rule: choose_color_cases)
  case (share c)
  have "card (set NUMBER_COLOR_PALETTE) \<le> card (set active)"
    by (rule card_mono [OF _ share(3)]) simp
  then show ?thesis
    using assms card_length [of active] by (simp add: distinct_card palette_distinct)
qed simp_all


end
