(* ===== verification/Numbers_Sync.thy ===== *)
theory Numbers_Sync
  imports Numbers
begin

text \<open>
  What a synchronisation of \<^theory_text>\<open>Numbers\<close> leaves in the table: exactly the listed numbers are the
  active ones of the provider, every number keeps what the user gave it, the colours of active
  numbers stay distinct as long as the palette suffices, and a repetition changes nothing. The
  proofs look rows up by their number, which is the primary key of the table.
\<close>

section \<open>Looking rows up by number\<close>

definition row_of :: "number_db \<Rightarrow> jstr \<Rightarrow> number_row option" where
  "row_of db n = sql_first (\<lambda>r. nr_number r = n) (nd_numbers db)"

definition keyed :: "number_db \<Rightarrow> bool" where
  "keyed db \<longleftrightarrow> distinct (map nr_number (nd_numbers db))"

lemma row_of_number: "row_of db n = Some r \<Longrightarrow> nr_number r = n \<and> r \<in> set (nd_numbers db)"
  by (auto simp: row_of_def dest: sql_first_Some)

lemma find_key: "distinct (map k rs) \<Longrightarrow> r \<in> set rs \<Longrightarrow> find (\<lambda>x. k x = k r) rs = Some r"
  by (induction rs) auto

lemma row_of_mem: "keyed db \<Longrightarrow> r \<in> set (nd_numbers db) \<Longrightarrow> row_of db (nr_number r) = Some r"
  using find_key [of nr_number "nd_numbers db" r] by (simp add: keyed_def row_of_def sql_first_def)

lemma row_of_iff: "keyed db \<Longrightarrow> row_of db n = Some r \<longleftrightarrow> r \<in> set (nd_numbers db) \<and> nr_number r = n"
  using row_of_number row_of_mem by blast

lemma find_filter_key:
  "distinct (map k rs) \<Longrightarrow>
     find (\<lambda>r. k r = n) (filter P rs) = (case find (\<lambda>r. k r = n) rs of None \<Rightarrow> None | Some r \<Rightarrow> if P r then Some r else None)"
proof (induction rs)
  case (Cons a rs)
  then have "find (\<lambda>r. k r = k a) rs = None" by (auto simp: find_None_iff image_iff)
  with Cons show ?case by (auto split: option.splits)
qed simp

lemma find_update:
  "(\<And>r. k (f r) = k r) \<Longrightarrow>
     find (\<lambda>r. k r = n) (sql_update (\<lambda>r. k r = m) f rs)
       = (if n = m then map_option f (find (\<lambda>r. k r = n) rs) else find (\<lambda>r. k r = n) rs)"
  by (induction rs) (auto simp: sql_update_def)

lemma row_of_set_number:
  "(\<And>r. nr_number (f r) = nr_number r) \<Longrightarrow>
     row_of (set_number m f db) n = (if n = m then map_option f (row_of db n) else row_of db n)"
  by (simp add: row_of_def set_number_def sql_first_def find_update)

lemma keyed_set_number: "(\<And>r. nr_number (f r) = nr_number r) \<Longrightarrow> keyed (set_number m f db) = keyed db"
  by (simp add: keyed_def set_number_def sql_update_map)

lemma find_insert: "find P (sql_insert r rs) = (case find P rs of None \<Rightarrow> if P r then Some r else None | Some x \<Rightarrow> Some x)"
  by (induction rs) (auto simp: sql_insert_def)

definition fresh_row :: "jstr \<Rightarrow> string \<Rightarrow> string \<Rightarrow> int \<Rightarrow> number_row" where
  "fresh_row n p color now = \<lparr> nr_number = n, nr_provider_id = Some p, nr_label = None, nr_color = Some color,
     nr_added_at = now, nr_is_active = True, nr_last_used_at = None, nr_block_inbound_calls = False \<rparr>"

lemma exists_row_of: "list_ex (\<lambda>r. nr_number r = n) (nd_numbers db) \<longleftrightarrow> row_of db n \<noteq> None"
  by (simp add: row_of_def sql_first_None list_ex_iff)

lemma row_of_upsert:
  "row_of (upsert_number m p color now db) n =
     (if n = m then (case row_of db n of None \<Rightarrow> Some (fresh_row n p color now)
        | Some r \<Rightarrow> Some (r\<lparr> nr_provider_id := Some p, nr_is_active := True, nr_color := Some color \<rparr>))
      else row_of db n)"
proof (cases "row_of db m")
  case None
  then have "row_of (upsert_number m p color now db) n
      = (case row_of db n of None \<Rightarrow> if m = n then Some (fresh_row m p color now) else None | Some r \<Rightarrow> Some r)"
    by (simp only: upsert_number_def exists_row_of not_True_eq_False if_False simp_thms)
      (simp add: row_of_def sql_first_def find_insert fresh_row_def split: option.splits)
  with None show ?thesis by (auto split: option.splits)
next
  case (Some r)
  then show ?thesis by (simp add: upsert_number_def exists_row_of row_of_set_number split: option.splits)
qed

lemma keyed_upsert: "keyed (upsert_number m p color now db) = keyed db"
proof (cases "row_of db m")
  case None
  then have "m \<notin> nr_number ` set (nd_numbers db)" by (auto simp: row_of_def sql_first_None)
  with None show ?thesis by (simp add: upsert_number_def exists_row_of) (simp add: keyed_def sql_insert_def)
qed (simp add: upsert_number_def exists_row_of keyed_set_number)

text \<open>Taking a colour back touches at most one row, an inactive one.\<close>

definition faded :: "number_row \<Rightarrow> number_row \<Rightarrow> bool" where
  "faded r r' \<longleftrightarrow> r' = r \<or> \<not> nr_is_active r \<and> r' = r\<lparr> nr_color := None \<rparr>"

lemma faded_refl [simp]: "faded r r"
  by (simp add: faded_def)

lemma faded_trans: "faded a b \<Longrightarrow> faded b c \<Longrightarrow> faded a c"
  by (auto simp: faded_def)

lemma faded_fields: "faded r r' \<Longrightarrow> nr_number r' = nr_number r \<and> nr_provider_id r' = nr_provider_id r
    \<and> nr_is_active r' = nr_is_active r"
  by (auto simp: faded_def)

lemma row_of_reclaim:
  assumes "reclaim_color choice inactive db = (inactive', db')" "keyed db"
  shows "keyed db' \<and> (case row_of db n of None \<Rightarrow> row_of db' n = None
    | Some r \<Rightarrow> \<exists>r'. row_of db' n = Some r' \<and> faded r r')"
proof -
  consider "db' = db" | holder c where "db' = set_number (nr_number holder) (\<lambda>n. n\<lparr> nr_color := None \<rparr>) db"
      "sql_first (\<lambda>n. \<not> nr_is_active n \<and> nr_color n = Some c) (nd_numbers db) = Some holder"
    using assms(1) by (auto simp: reclaim_color_def split: option.splits)
  then show ?thesis
  proof cases
    case 1
    then show ?thesis using assms(2) by (simp split: option.splits)
  next
    case 2
    have "holder \<in> set (nd_numbers db)" "\<not> nr_is_active holder" using sql_first_Some [OF 2(2)] by auto
    then have "row_of db (nr_number holder) = Some holder" using row_of_mem assms(2) by blast
    then show ?thesis
      using \<open>\<not> nr_is_active holder\<close> assms(2)
      by (auto simp: 2(1) keyed_set_number row_of_set_number faded_def split: option.splits)
  qed
qed

section \<open>The activations\<close>

definition provided_by :: "string \<Rightarrow> number_db \<Rightarrow> jstr \<Rightarrow> bool" where
  "provided_by p db n \<longleftrightarrow> (case row_of db n of None \<Rightarrow> False | Some r \<Rightarrow> nr_is_active r \<and> nr_provider_id r = Some p)"

text \<open>What the user gave a number and when it came and was used.\<close>

definition same_user_data :: "number_row \<Rightarrow> number_row \<Rightarrow> bool" where
  "same_user_data r r' \<longleftrightarrow> nr_number r' = nr_number r \<and> nr_label r' = nr_label r \<and> nr_added_at r' = nr_added_at r
     \<and> nr_last_used_at r' = nr_last_used_at r \<and> nr_block_inbound_calls r' = nr_block_inbound_calls r"

text \<open>The row of a number before and after the numbers of a list have been brought in.\<close>

definition brought_in :: "string \<Rightarrow> bool \<Rightarrow> number_row option \<Rightarrow> number_row option \<Rightarrow> bool" where
  "brought_in p listed before after \<longleftrightarrow>
     (case before of
        None \<Rightarrow> if listed then (\<exists>r'. after = Some r' \<and> nr_is_active r' \<and> nr_provider_id r' = Some p \<and> nr_label r' = None)
          else after = None
      | Some r \<Rightarrow> if listed \<and> \<not> (nr_is_active r \<and> nr_provider_id r = Some p)
          then (\<exists>r'. after = Some r' \<and> nr_is_active r' \<and> nr_provider_id r' = Some p \<and> same_user_data r r')
          else (\<exists>r'. after = Some r' \<and> faded r r'))"

definition bringing_in :: "string \<Rightarrow> number_db \<Rightarrow> jstr list \<Rightarrow> number_db \<Rightarrow> bool" where
  "bringing_in p db ns db' \<longleftrightarrow> keyed db' \<and> (\<forall>n. brought_in p (n \<in> set ns) (row_of db n) (row_of db' n))"

lemma brought_in_faded:
  assumes "brought_in p listed before after"
    and "case after of None \<Rightarrow> after' = None | Some r \<Rightarrow> \<exists>r'. after' = Some r' \<and> faded r r'"
  shows "brought_in p listed before after'"
  using assms by (auto simp: brought_in_def faded_def same_user_data_def split: option.splits if_splits)

abbreviation rows_of_provider :: "string \<Rightarrow> number_db \<Rightarrow> number_row list" where
  "rows_of_provider p db \<equiv> sql_select (\<lambda>n. nr_provider_id n = Some p) (nd_numbers db)"

lemma found_row:
  "keyed db \<Longrightarrow> find (\<lambda>r. nr_number r = n) (rows_of_provider p db)
    = (case row_of db n of None \<Rightarrow> None | Some r \<Rightarrow> if nr_provider_id r = Some p then Some r else None)"
  by (simp add: keyed_def row_of_def sql_first_def sql_select_def find_filter_key)

lemma sync_number_cases:
  assumes "keyed db" "sync_number p now (rows_of_provider p db) n s = t"
  obtains (kept) "provided_by p db n" "t = s"
  | (brought) existing put s' where "\<not> provided_by p db n" "t = sync_activate existing put n s'"
      "ss_db s' = ss_db s" "ss_active_colors s' = ss_active_colors s" "ss_added s' = ss_added s"
      "put = (\<lambda>color. upsert_number n p color now) \<and> \<not> (\<exists>r. row_of db n = Some r \<and> nr_provider_id r = Some p)
        \<or> (\<exists>r. row_of db n = Some r \<and> nr_provider_id r = Some p \<and> \<not> nr_is_active r
            \<and> put = (\<lambda>color. set_number n (\<lambda>m. m\<lparr> nr_is_active := True, nr_color := Some color \<rparr>)))"
proof (cases "find (\<lambda>r. nr_number r = n) (rows_of_provider p db)")
  case None
  then have no: "\<not> (\<exists>r. row_of db n = Some r \<and> nr_provider_id r = Some p)"
    using found_row [OF assms(1)] by (auto split: option.splits)
  then have "\<not> provided_by p db n" by (auto simp: provided_by_def split: option.splits)
  with no None assms(2) show ?thesis
    by (intro brought [where s' = s and put = "\<lambda>color. upsert_number n p color now"])
      (auto simp: sync_number_def)
next
  case (Some r)
  then have r: "row_of db n = Some r" "nr_provider_id r = Some p"
    using found_row [OF assms(1)] by (auto split: option.splits if_splits)
  show ?thesis
  proof (cases "nr_is_active r")
    case True
    with r Some assms(2) show ?thesis by (intro kept) (auto simp: provided_by_def sync_number_def)
  next
    case False
    let ?s = "s\<lparr> ss_inactive_colors := (case nr_color r of None \<Rightarrow> ss_inactive_colors s
                      | Some c \<Rightarrow> if c = '''' then ss_inactive_colors s else remove1 c (ss_inactive_colors s)) \<rparr>"
    from False r Some assms(2) show ?thesis
      by (intro brought [where s' = ?s and existing = "nr_color r"
            and put = "\<lambda>color. set_number n (\<lambda>m. m\<lparr> nr_is_active := True, nr_color := Some color \<rparr>)"])
        (auto simp: provided_by_def sync_number_def)
  qed
qed

lemma sync_activate_fields:
  assumes "reclaim_color (choose_color existing (ss_active_colors s) (ss_inactive_colors s)) (ss_inactive_colors s) (ss_db s)
      = (inactive, db1)"
  shows "sync_activate existing put n s =
    \<lparr> ss_active_colors = ss_active_colors s @ [cc_color (choose_color existing (ss_active_colors s) (ss_inactive_colors s))],
      ss_inactive_colors = inactive,
      ss_db = put (cc_color (choose_color existing (ss_active_colors s) (ss_inactive_colors s))) db1,
      ss_added = ss_added s @ [n] \<rparr>"
  using assms by (simp add: sync_activate_def Let_def)

lemma bringing_in_step:
  assumes "keyed db" "bringing_in p db ns (ss_db s)"
  shows "bringing_in p db (ns @ [n]) (ss_db (sync_number p now (rows_of_provider p db) n s))"
  using assms(1) refl [of "sync_number p now (rows_of_provider p db) n s"]
proof (cases rule: sync_number_cases)
  case kept
  have "brought_in p (m \<in> set (ns @ [n])) (row_of db m) (row_of (ss_db s) m)" for m
  proof (cases "m = n")
    case True
    with kept(1) assms(2) show ?thesis
      by (auto simp: bringing_in_def brought_in_def provided_by_def split: option.splits dest!: spec [of _ n])
  next
    case False
    with assms(2) show ?thesis by (simp add: bringing_in_def)
  qed
  then show ?thesis using assms(2) kept(2) by (simp add: bringing_in_def)
next
  case (brought existing put s')
  obtain inactive db1 where rc:
    "reclaim_color (choose_color existing (ss_active_colors s') (ss_inactive_colors s')) (ss_inactive_colors s') (ss_db s')
      = (inactive, db1)" by force
  note re = row_of_reclaim [OF rc, unfolded brought(3)]
  have k: "keyed (ss_db s)" and b: "\<And>m. brought_in p (m \<in> set ns) (row_of db m) (row_of (ss_db s) m)"
    using assms(2) by (auto simp: bringing_in_def)
  have k1: "keyed db1" using re k by blast
  have b1: "brought_in p (m \<in> set ns) (row_of db m) (row_of db1 m)" for m
    using brought_in_faded [OF b] re [OF k] by blast
  define c where "c = cc_color (choose_color existing (ss_active_colors s') (ss_inactive_colors s'))"
  have t: "ss_db (sync_number p now (rows_of_provider p db) n s) = put c db1"
    unfolding brought(2) c_def by (simp add: sync_activate_fields [OF rc])
  have "keyed (put c db1)" using brought(6) k1 by (auto simp: keyed_upsert keyed_set_number)
  moreover have "brought_in p (m \<in> set (ns @ [n])) (row_of db m) (row_of (put c db1) m)" for m
  proof (cases "m = n")
    case False
    then have "row_of (put c db1) m = row_of db1 m"
      using brought(6) by (auto simp: row_of_upsert row_of_set_number)
    with False b1 [of m] show ?thesis by simp
  next
    case True
    with brought(1,6) b1 [of n] show ?thesis
      by (auto simp: brought_in_def provided_by_def row_of_upsert row_of_set_number fresh_row_def faded_def same_user_data_def
          split: option.splits if_splits)
  qed
  ultimately show ?thesis by (simp add: bringing_in_def t)
qed

definition sync_start :: "number_db \<Rightarrow> sync_state" where
  "sync_start db = \<lparr> ss_active_colors = fst (get_color_usage None db), ss_inactive_colors = snd (get_color_usage None db),
     ss_db = db, ss_added = [] \<rparr>"

definition sync_all :: "string \<Rightarrow> int \<Rightarrow> number_db \<Rightarrow> jstr list \<Rightarrow> sync_state" where
  "sync_all p now db ns = fold (sync_number p now (rows_of_provider p db)) ns (sync_start db)"

lemma sync_all_Nil [simp]: "sync_all p now db [] = sync_start db"
  by (simp add: sync_all_def)

lemma sync_all_snoc:
  "sync_all p now db (ns @ [n]) = sync_number p now (rows_of_provider p db) n (sync_all p now db ns)"
  by (simp add: sync_all_def)

lemma sync_all_brings_in: "keyed db \<Longrightarrow> bringing_in p db ns (ss_db (sync_all p now db ns))"
proof (induction ns rule: rev_induct)
  case Nil
  then show ?case by (auto simp: bringing_in_def brought_in_def sync_start_def split: option.splits)
next
  case (snoc n ns)
  then show ?case unfolding sync_all_snoc by (intro bringing_in_step) auto
qed

lemma sync_number_added:
  assumes "keyed db"
  shows "ss_added (sync_number p now (rows_of_provider p db) n s)
    = (if provided_by p db n then ss_added s else ss_added s @ [n])"
  using assms refl [of "sync_number p now (rows_of_provider p db) n s"]
proof (cases rule: sync_number_cases)
  case (brought existing put s')
  then show ?thesis by (simp add: sync_activate_def Let_def split: prod.splits)
qed simp

lemma sync_all_added: "keyed db \<Longrightarrow> ss_added (sync_all p now db ns) = filter (\<lambda>n. \<not> provided_by p db n) ns"
  by (induction ns rule: rev_induct) (simp_all add: sync_start_def sync_all_snoc sync_number_added)

section \<open>The removals\<close>

definition orphaned_row :: "number_row \<Rightarrow> number_row" where
  "orphaned_row r = r\<lparr> nr_is_active := False, nr_provider_id := None \<rparr>"

lemma orphan_numbers:
  "keyed db \<Longrightarrow> keyed (fold orphan_number gone db)
    \<and> row_of (fold orphan_number gone db) n
        = (if n \<in> nr_number ` set gone then map_option orphaned_row (row_of db n) else row_of db n)"
proof (induction gone arbitrary: db)
  case (Cons r gone)
  have k: "keyed (orphan_number r db)" using Cons.prems by (simp add: orphan_number_def keyed_set_number)
  have "row_of (orphan_number r db) n = (if n = nr_number r then map_option orphaned_row (row_of db n) else row_of db n)"
    by (simp add: orphan_number_def row_of_set_number orphaned_row_def [abs_def])
  with Cons.IH [OF k] show ?case
    by (cases "row_of db n") (auto simp: orphaned_row_def)
qed simp

lemma orphaned_rows_iff:
  assumes "keyed db"
  shows "n \<in> nr_number ` set (orphaned_rows ns (rows_of_provider p db)) \<longleftrightarrow> provided_by p db n \<and> n \<notin> set ns"
proof
  assume "n \<in> nr_number ` set (orphaned_rows ns (rows_of_provider p db))"
  then obtain r where "r \<in> set (nd_numbers db)" "nr_number r = n" "nr_is_active r" "nr_provider_id r = Some p" "n \<notin> set ns"
    by (auto simp: orphaned_rows_def sql_select_def)
  then show "provided_by p db n \<and> n \<notin> set ns"
    using row_of_mem [OF assms] by (auto simp: provided_by_def)
next
  assume a: "provided_by p db n \<and> n \<notin> set ns"
  then obtain r where "row_of db n = Some r" "nr_is_active r" "nr_provider_id r = Some p"
    by (auto simp: provided_by_def split: option.splits)
  with a row_of_number [OF this(1)] show "n \<in> nr_number ` set (orphaned_rows ns (rows_of_provider p db))"
    by (force simp: orphaned_rows_def sql_select_def)
qed

section \<open>What a synchronisation leaves\<close>

text \<open>The row of a number before and after: activated, orphaned, or left but for its colour.\<close>

definition synced_row :: "string \<Rightarrow> bool \<Rightarrow> number_row option \<Rightarrow> number_row option \<Rightarrow> bool" where
  "synced_row p listed before after \<longleftrightarrow>
     (case before of
        None \<Rightarrow> (case after of None \<Rightarrow> \<not> listed
          | Some r' \<Rightarrow> listed \<and> nr_is_active r' \<and> nr_provider_id r' = Some p \<and> nr_label r' = None)
      | Some r \<Rightarrow> (case after of None \<Rightarrow> False
          | Some r' \<Rightarrow>
              if nr_is_active r \<and> nr_provider_id r = Some p
              then r' = (if listed then r else r\<lparr> nr_is_active := False, nr_provider_id := None \<rparr>)
              else if listed then nr_is_active r' \<and> nr_provider_id r' = Some p \<and> same_user_data r r'
              else r' = r \<or> \<not> nr_is_active r \<and> r' = r\<lparr> nr_color := None \<rparr>))"

lemma sync_store_unfold:
  "sync_store p ns now providers db =
     (let gone = orphaned_rows ns (rows_of_provider p db);
          db' = fold orphan_number gone (ss_db (sync_all p now db ns));
          added = ss_added (sync_all p now db ns); removed = map nr_number gone
      in (\<lparr> sy_added = added, sy_removed = removed, sy_total = length ns \<rparr>, db',
          if added \<noteq> [] \<or> removed \<noteq> [] then [Numbers_Changed (get_numbers providers db') added removed] else []))"
  by (simp add: sync_store_def sync_all_def sync_start_def Let_def)

lemma sync_store_rows:
  assumes "sync_store p ns now providers db = (r, db', es)" "keyed db"
  shows "keyed db'" "synced_row p (n \<in> set ns) (row_of db n) (row_of db' n)"
    "sy_added r = filter (\<lambda>n. \<not> provided_by p db n) ns" "sy_removed r = map nr_number (orphaned_rows ns (rows_of_provider p db))"
    "es = (if sy_added r = [] \<and> sy_removed r = [] then [] else [Numbers_Changed (get_numbers providers db') (sy_added r) (sy_removed r)])"
proof -
  let ?gone = "orphaned_rows ns (rows_of_provider p db)" and ?db1 = "ss_db (sync_all p now db ns)"
  have db': "db' = fold orphan_number ?gone ?db1" using assms(1) by (auto simp: sync_store_unfold Let_def)
  have b: "bringing_in p db ns ?db1" by (rule sync_all_brings_in [OF assms(2)])
  then have k1: "keyed ?db1" and bn: "brought_in p (n \<in> set ns) (row_of db n) (row_of ?db1 n)"
    by (auto simp: bringing_in_def)
  show "keyed db'" using orphan_numbers [OF k1] db' by blast
  have "row_of db' n = (if provided_by p db n \<and> n \<notin> set ns then map_option orphaned_row (row_of ?db1 n) else row_of ?db1 n)"
    using orphan_numbers [OF k1] db' orphaned_rows_iff [OF assms(2)] by simp
  with bn show "synced_row p (n \<in> set ns) (row_of db n) (row_of db' n)"
    by (auto simp: synced_row_def brought_in_def provided_by_def orphaned_row_def faded_def split: option.splits if_splits)
  show "sy_added r = filter (\<lambda>n. \<not> provided_by p db n) ns" "sy_removed r = map nr_number ?gone"
    using assms(1) by (auto simp: sync_store_unfold Let_def sync_all_added [OF assms(2)])
  show "es = (if sy_added r = [] \<and> sy_removed r = [] then [] else [Numbers_Changed (get_numbers providers db') (sy_added r) (sy_removed r)])"
    using assms(1) by (auto simp: sync_store_unfold Let_def)
qed

lemma sync_all_settled: "(\<And>n. n \<in> set ns \<Longrightarrow> provided_by p db n) \<Longrightarrow> keyed db \<Longrightarrow> sync_all p now db ns = sync_start db"
proof (induction ns rule: rev_induct)
  case (snoc n ns)
  then have ih: "sync_all p now db ns = sync_start db" and n: "provided_by p db n" by auto
  show ?case
    unfolding sync_all_snoc ih
    using snoc.prems(2) refl [of "sync_number p now (rows_of_provider p db) n (sync_start db)"]
    by (cases rule: sync_number_cases) (use n in auto)
qed simp

lemma sync_store_settled:
  assumes "keyed db" "\<And>n. provided_by p db n \<longleftrightarrow> n \<in> set ns"
  shows "sync_store p ns now providers db = (\<lparr> sy_added = [], sy_removed = [], sy_total = length ns \<rparr>, db, [])"
proof -
  have "orphaned_rows ns (rows_of_provider p db) = []"
    using orphaned_rows_iff [OF assms(1), of _ ns p] assms(2) by (metis ex_in_conv image_is_empty set_empty)
  then show ?thesis
    using sync_all_settled [OF _ assms(1), of ns p now] assms(2) by (simp add: sync_store_unfold Let_def sync_start_def)
qed

lemma sync_numbers_Inr:
  "sync_numbers p (Some listed) now g db = (Inr r, db', es) \<Longrightarrow>
     sync_store p (map pn_number listed) now (rg_rows g) db = (r, db', es) \<and> (\<exists>e. sync_begin p g = Inr e)"
  by (auto simp: sync_numbers_def split: sum.splits prod.splits)

lemma sync_numbers_store:
  "sync_begin p g = Inr e \<Longrightarrow> sync_numbers p (Some listed) now g db =
     (case sync_store p (map pn_number listed) now (rg_rows g) db of (r, db', es) \<Rightarrow> (Inr r, db', es))"
  by (simp add: sync_numbers_def)

lemma synced_row_provided:
  "synced_row p listed (row_of db n) (row_of db' n) \<Longrightarrow> provided_by p db' n \<longleftrightarrow> listed"
  by (auto simp: synced_row_def provided_by_def split: option.splits if_splits)

text \<open>C26. A synchronisation with a running provider leaves every number either activated for it
  (when listed), orphaned (when it was active for it and is listed no longer) or as it was, but
  for the colour an inactive number may lose; label, blocking and dates survive in every case.
  It reports exactly the numbers that became active and those orphaned, announces them if
  there are any, and a repetition with the same answer changes nothing and announces nothing.\<close>

theorem sync_exact:
  assumes "distinct (map nr_number (nd_numbers db))" "sync_numbers p (Some listed) now g db = (Inr r, db', es)"
  shows "synced_row p (n \<in> pn_number ` set listed) (row_of db n) (row_of db' n)
     \<and> distinct (map nr_number (nd_numbers db'))
     \<and> sy_added r = filter (\<lambda>n. \<not> provided_by p db n) (map pn_number listed)
     \<and> set (sy_removed r) = {n. provided_by p db n \<and> n \<notin> pn_number ` set listed}
     \<and> es = (if sy_added r = [] \<and> sy_removed r = [] then []
         else [Numbers_Changed (get_numbers (rg_rows g) db') (sy_added r) (sy_removed r)])
     \<and> sync_numbers p (Some listed) later g db'
         = (Inr \<lparr> sy_added = [], sy_removed = [], sy_total = length listed \<rparr>, db', [])"
proof -
  have k: "keyed db" using assms(1) by (simp add: keyed_def)
  obtain e where st: "sync_store p (map pn_number listed) now (rg_rows g) db = (r, db', es)" and e: "sync_begin p g = Inr e"
    using sync_numbers_Inr [OF assms(2)] by blast
  note rows = sync_store_rows [OF st k, simplified]
  have row: "synced_row p (m \<in> pn_number ` set listed) (row_of db m) (row_of db' m)" for m
    using rows(2) by blast
  have "provided_by p db' m \<longleftrightarrow> m \<in> pn_number ` set listed" for m
    by (rule synced_row_provided [OF row])
  then have "sync_store p (map pn_number listed) later (rg_rows g) db'
      = (\<lparr> sy_added = [], sy_removed = [], sy_total = length listed \<rparr>, db', [])"
    using sync_store_settled [OF rows(1), of p "map pn_number listed"] by simp
  moreover have "set (sy_removed r) = {n. provided_by p db n \<and> n \<notin> pn_number ` set listed}"
    using orphaned_rows_iff [OF k, of _ "map pn_number listed" p] rows(4) by auto
  ultimately show ?thesis
    using rows row [of n] by (simp add: sync_numbers_store [OF e] keyed_def)
qed

section \<open>Distinct colours\<close>

definition colors_apart :: "number_db \<Rightarrow> bool" where
  "colors_apart db \<longleftrightarrow> (\<forall>n m r r'. row_of db n = Some r \<and> row_of db m = Some r' \<and> nr_is_active r \<and> nr_is_active r'
     \<and> nr_color r = nr_color r' \<and> nr_color r \<noteq> None \<longrightarrow> n = m)"

definition colors_tracked :: "string list \<Rightarrow> number_db \<Rightarrow> bool" where
  "colors_tracked active db \<longleftrightarrow> (\<forall>n r c. row_of db n = Some r \<and> nr_is_active r \<and> nr_color r = Some c \<longrightarrow> c \<in> set active)"

lemma usage_active: "set (fst (get_color_usage None db)) = {c. \<exists>r \<in> set (nd_numbers db). nr_is_active r \<and> nr_color r = Some c}"
  by (auto simp: get_color_usage_def Let_def sql_select_def image_iff) force

lemma colors_apart_usage:
  assumes "keyed db"
  shows "colors_apart db \<longleftrightarrow> distinct (fst (get_color_usage None db))"
proof -
  let ?rs = "filter nr_is_active (filter (\<lambda>n. nr_color n \<noteq> None) (nd_numbers db))"
  have "distinct ?rs" using assms by (simp add: keyed_def distinct_map)
  then have d: "distinct (fst (get_color_usage None db)) \<longleftrightarrow> inj_on (the \<circ> nr_color) (set ?rs)"
    by (simp add: get_color_usage_def Let_def sql_select_def distinct_map)
  have "inj_on (the \<circ> nr_color) (set ?rs) \<longleftrightarrow> colors_apart db"
  proof
    assume i: "inj_on (the \<circ> nr_color) (set ?rs)"
    have "r = r'" if "row_of db n = Some r" "row_of db m = Some r'" "nr_is_active r" "nr_is_active r'"
        "nr_color r = nr_color r'" "nr_color r \<noteq> None" for n m r r'
      using that row_of_number [OF that(1)] row_of_number [OF that(2)] by (intro inj_onD [OF i]) auto
    then show "colors_apart db" unfolding colors_apart_def using row_of_number by metis
  next
    assume a: "colors_apart db"
    have same: "nr_number x = nr_number y"
      if "x \<in> set (nd_numbers db)" "y \<in> set (nd_numbers db)" "nr_is_active x" "nr_is_active y"
        "nr_color x = nr_color y" "nr_color x \<noteq> None" for x y
      using a that row_of_mem [OF assms] unfolding colors_apart_def by metis
    show "inj_on (the \<circ> nr_color) (set ?rs)"
    proof (rule inj_onI)
      fix x y assume "x \<in> set ?rs" "y \<in> set ?rs" and eq: "(the \<circ> nr_color) x = (the \<circ> nr_color) y"
      then have m: "x \<in> set (nd_numbers db)" "y \<in> set (nd_numbers db)" "nr_is_active x" "nr_is_active y"
          "nr_color x = nr_color y" "nr_color x \<noteq> None"
        by (auto simp: option.expand)
      from same [OF m] m(1,2) assms show "x = y" by (auto simp: keyed_def distinct_map dest: inj_onD)
    qed
  qed
  with d show ?thesis by simp
qed

lemma apart_faded:
  assumes "\<And>n. case row_of db n of None \<Rightarrow> row_of db' n = None | Some r \<Rightarrow> \<exists>r'. row_of db' n = Some r' \<and> faded r r'"
  shows "colors_apart db \<Longrightarrow> colors_apart db'" "colors_tracked A db \<Longrightarrow> colors_tracked A db'"
proof -
  have same: "row_of db n = Some r" if "row_of db' n = Some r" "nr_is_active r" for n r
    using assms [of n] that by (auto simp: faded_def split: option.splits)
  show "colors_apart db \<Longrightarrow> colors_apart db'" unfolding colors_apart_def using same by blast
  show "colors_tracked A db \<Longrightarrow> colors_tracked A db'" unfolding colors_tracked_def using same by blast
qed

lemma apart_new_color:
  assumes "colors_apart db" "colors_tracked A db" "c \<notin> set A"
    and "\<And>m. m \<noteq> n \<Longrightarrow> row_of db' m = row_of db m" "\<And>r. row_of db' n = Some r \<Longrightarrow> nr_color r = Some c"
  shows "colors_apart db' \<and> colors_tracked (A @ [c]) db'"
proof
  show "colors_tracked (A @ [c]) db'"
    unfolding colors_tracked_def
  proof (intro allI impI)
    fix m r d assume a: "row_of db' m = Some r \<and> nr_is_active r \<and> nr_color r = Some d"
    show "d \<in> set (A @ [c])"
    proof (cases "m = n")
      case True
      with a assms(5) [of r] show ?thesis by simp
    next
      case False
      with a assms(4) [OF False] have "row_of db m = Some r" by simp
      with a assms(2) show ?thesis by (auto simp: colors_tracked_def)
    qed
  qed
  show "colors_apart db'"
    unfolding colors_apart_def
  proof (intro allI impI)
    fix m k r s
    assume a: "row_of db' m = Some r \<and> row_of db' k = Some s \<and> nr_is_active r \<and> nr_is_active s
      \<and> nr_color r = nr_color s \<and> nr_color r \<noteq> None"
    have old: "False" if "j \<noteq> n" "row_of db' j = Some x" "nr_is_active x" "nr_color x = Some c" for j x
      using that assms(2,3) assms(4) [of j] by (auto simp: colors_tracked_def)
    show "m = k"
    proof (cases "m = n \<or> k = n")
      case True
      with a assms(5) [of r] assms(5) [of s] show ?thesis
        using old [of m r] old [of k s] by fastforce
    next
      case False
      with a assms(4) [of m] assms(4) [of k] have "row_of db m = Some r" "row_of db k = Some s" by simp_all
      with a assms(1) show ?thesis unfolding colors_apart_def by blast
    qed
  qed
qed

lemma sync_number_colors:
  assumes "keyed db" "keyed (ss_db s)" "colors_apart (ss_db s)" "colors_tracked (ss_active_colors s) (ss_db s)"
    and "length (ss_active_colors s) < length NUMBER_COLOR_PALETTE \<or> provided_by p db n"
    and t_def: "t = sync_number p now (rows_of_provider p db) n s"
  shows "colors_apart (ss_db t) \<and> colors_tracked (ss_active_colors t) (ss_db t)
    \<and> length (ss_active_colors t) = length (ss_active_colors s) + (if provided_by p db n then 0 else 1)"
  using assms(1) t_def [symmetric]
proof (cases rule: sync_number_cases)
  case kept
  then show ?thesis using assms(3,4) by simp
next
  case (brought existing put s')
  define choice where "choice = choose_color existing (ss_active_colors s) (ss_inactive_colors s')"
  obtain inactive db1 where rc: "reclaim_color choice (ss_inactive_colors s') (ss_db s) = (inactive, db1)" by force
  have t: "t = \<lparr> ss_active_colors = ss_active_colors s @ [cc_color choice], ss_inactive_colors = inactive,
      ss_db = put (cc_color choice) db1, ss_added = ss_added s @ [n] \<rparr>"
    using sync_activate_fields [of existing s' inactive db1 put n] rc brought(2-5) by (simp add: choice_def)
  note re = row_of_reclaim [OF rc assms(2)]
  note fades = apart_faded [where db = "ss_db s" and db' = db1, OF conjunct2 [OF re]]
  have a1: "colors_apart db1" "colors_tracked (ss_active_colors s) db1"
    by (rule fades(1) [OF assms(3)], rule fades(2) [OF assms(4)])
  have "colors_apart (put (cc_color choice) db1) \<and> colors_tracked (ss_active_colors s @ [cc_color choice]) (put (cc_color choice) db1)"
  proof (rule apart_new_color [OF a1])
    show "cc_color choice \<notin> set (ss_active_colors s)"
      using assms(5) brought(1) unfolding choice_def by (intro choose_color_fresh) simp
    show "m \<noteq> n \<Longrightarrow> row_of (put (cc_color choice) db1) m = row_of db1 m" for m
      using brought(6) by (auto simp: row_of_upsert row_of_set_number)
    show "row_of (put (cc_color choice) db1) n = Some r \<Longrightarrow> nr_color r = Some (cc_color choice)" for r
      using brought(6) by (auto simp: row_of_upsert row_of_set_number fresh_row_def split: option.splits)
  qed
  then show ?thesis using brought(1) by (simp add: t)
qed

lemma sync_all_colors:
  assumes "keyed db" "colors_apart db"
    and "length (fst (get_color_usage None db)) + length (filter (\<lambda>n. \<not> provided_by p db n) ns) \<le> length NUMBER_COLOR_PALETTE"
  shows "colors_apart (ss_db (sync_all p now db ns))
    \<and> colors_tracked (ss_active_colors (sync_all p now db ns)) (ss_db (sync_all p now db ns))
    \<and> length (ss_active_colors (sync_all p now db ns))
        = length (fst (get_color_usage None db)) + length (filter (\<lambda>n. \<not> provided_by p db n) ns)"
  using assms(3)
proof (induction ns rule: rev_induct)
  case Nil
  have "colors_tracked (fst (get_color_usage None db)) db"
    using row_of_number unfolding colors_tracked_def usage_active by blast
  with assms(2) show ?case by (simp add: sync_start_def)
next
  case (snoc n ns)
  then have ih: "colors_apart (ss_db (sync_all p now db ns))"
      "colors_tracked (ss_active_colors (sync_all p now db ns)) (ss_db (sync_all p now db ns))"
      "length (ss_active_colors (sync_all p now db ns))
        = length (fst (get_color_usage None db)) + length (filter (\<lambda>n. \<not> provided_by p db n) ns)" by auto
  have k: "keyed (ss_db (sync_all p now db ns))"
    using sync_all_brings_in [OF assms(1)] by (simp add: bringing_in_def)
  have room: "length (ss_active_colors (sync_all p now db ns)) < length NUMBER_COLOR_PALETTE \<or> provided_by p db n"
    using snoc.prems ih(3) by (auto split: if_splits)
  from sync_number_colors [OF assms(1) k ih(1,2) room refl, of now] show ?case
    by (simp add: sync_all_snoc ih(3))
qed

text \<open>As long as the colours held by active numbers and the numbers a synchronisation activates
  do not outnumber the palette, no two active numbers share a colour afterwards if none did
  before, also when a number is taken over from another provider or from one that was removed.\<close>

theorem sync_keeps_colors_apart:
  assumes "distinct (map nr_number (nd_numbers db))" "distinct (fst (get_color_usage None db))"
    and "sync_numbers p (Some listed) now g db = (Inr r, db', es)"
    and "length (fst (get_color_usage None db)) + length (sy_added r) \<le> length NUMBER_COLOR_PALETTE"
  shows "distinct (fst (get_color_usage None db'))"
proof -
  have k: "keyed db" using assms(1) by (simp add: keyed_def)
  have st: "sync_store p (map pn_number listed) now (rg_rows g) db = (r, db', es)"
    using sync_numbers_Inr [OF assms(3)] by blast
  note rows = sync_store_rows [OF st k]
  let ?db1 = "ss_db (sync_all p now db (map pn_number listed))"
  let ?gone = "orphaned_rows (map pn_number listed) (rows_of_provider p db)"
  have a1: "colors_apart ?db1"
    using sync_all_colors [OF k, of p "map pn_number listed" now] assms(2,4) colors_apart_usage [OF k] rows(3) by simp
  have k1: "keyed ?db1" using sync_all_brings_in [OF k] by (simp add: bringing_in_def)
  have db': "db' = fold orphan_number ?gone ?db1" using st by (auto simp: sync_store_unfold Let_def)
  have "row_of ?db1 n = Some x" if "row_of db' n = Some x" "nr_is_active x" for n x
    using that conjunct2 [OF orphan_numbers [OF k1, of ?gone n]] by (auto simp: db' orphaned_row_def split: if_splits)
  with a1 have "colors_apart db'" unfolding colors_apart_def by blast
  then show ?thesis using colors_apart_usage [OF rows(1)] by simp
qed

section \<open>Examples\<close>

definition example_number :: "jstr \<Rightarrow> string option \<Rightarrow> string option \<Rightarrow> bool \<Rightarrow> number_row" where
  "example_number n p color active = \<lparr> nr_number = n, nr_provider_id = p, nr_label = None, nr_color = color,
     nr_added_at = 0, nr_is_active = active, nr_last_used_at = None, nr_block_inbound_calls = False \<rparr>"

definition example_numbers :: number_db where
  "example_numbers = \<lparr> nd_numbers = [example_number [43, 49] (Some ''p1'') (Some ''#D32F2F'') True,
     example_number [43, 50] None (Some ''#1976D2'') False], nd_default_number = None \<rparr>"

definition example_answer :: "provider_number list" where
  "example_answer = [\<lparr> pn_number = [43, 50], pn_capabilities = {} \<rparr>, \<lparr> pn_number = [43, 51], pn_capabilities = {} \<rparr>]"

definition example_synced :: number_db where
  "example_synced = \<lparr> nd_numbers = [example_number [43, 49] None (Some ''#D32F2F'') False,
     example_number [43, 50] (Some ''p1'') (Some ''#388E3C'') True,
     (example_number [43, 51] (Some ''p1'') (Some ''#F9A825'') True)\<lparr> nr_added_at := 5 \<rparr>], nd_default_number = None \<rparr>"

lemma example_sync:
  "sync_numbers ''p1'' (Some example_answer) 5 example_registry example_numbers
    = (Inr \<lparr> sy_added = [[43, 50], [43, 51]], sy_removed = [[43, 49]], sy_total = 2 \<rparr>, example_synced,
       [Numbers_Changed (get_numbers [example_row] example_synced) [[43, 50], [43, 51]] [[43, 49]]])"
proof -
  have s: "fst (sync_store ''p1'' [[43, 50], [43, 51]] 5 [] example_numbers)
      = \<lparr> sy_added = [[43, 50], [43, 51]], sy_removed = [[43, 49]], sy_total = 2 \<rparr>"
    "fst (snd (sync_store ''p1'' [[43, 50], [43, 51]] 5 [] example_numbers)) = example_synced"
    by code_simp+
  have "sync_store ''p1'' [[43, 50], [43, 51]] 5 [example_row] example_numbers
    = (\<lparr> sy_added = [[43, 50], [43, 51]], sy_removed = [[43, 49]], sy_total = 2 \<rparr>, example_synced,
       [Numbers_Changed (get_numbers [example_row] example_synced) [[43, 50], [43, 51]] [[43, 49]]])"
    using s by (simp add: sync_store_def Let_def)
  then show ?thesis
    by (simp add: sync_numbers_def sync_begin_def example_registry_simps fresh_entry_def example_answer_def)
qed

lemma sync_exact_witness:
  "synced_row ''p1'' True (row_of example_numbers [43, 50]) (row_of example_synced [43, 50])
   \<and> sync_numbers ''p1'' (Some example_answer) 9 example_registry example_synced
       = (Inr \<lparr> sy_added = [], sy_removed = [], sy_total = 2 \<rparr>, example_synced, [])"
proof -
  have "distinct (map nr_number (nd_numbers example_numbers))" by (simp add: example_numbers_def example_number_def)
  from sync_exact [OF this example_sync, of "[43, 50]" 9] show ?thesis by (simp add: example_answer_def)
qed

lemma sync_keeps_colors_apart_witness:
  "distinct (fst (get_color_usage None example_synced))"
proof (rule sync_keeps_colors_apart [OF _ _ example_sync])
  show "distinct (map nr_number (nd_numbers example_numbers))" by (simp add: example_numbers_def example_number_def)
  show "distinct (fst (get_color_usage None example_numbers))"
    "length (fst (get_color_usage None example_numbers))
       + length (sy_added \<lparr> sy_added = [[43, 50], [43, 51]], sy_removed = [[43, 49]], sy_total = 2 \<rparr>)
      \<le> length NUMBER_COLOR_PALETTE"
    by (simp_all add: example_numbers_def example_number_def get_color_usage_def sql_select_def palette_size)
qed

text \<open>A number that comes back after its provider was removed does not keep its colour, although
  nobody else holds it: it counts as held by the number itself.\<close>

lemma orphan_loses_color:
  "map_option nr_color (row_of example_numbers [43, 50]) = Some (Some ''#1976D2'')
   \<and> map_option nr_color (row_of example_synced [43, 50]) = Some (Some ''#388E3C'')
   \<and> ''#1976D2'' \<notin> set (fst (get_color_usage (Some [43, 50]) example_numbers))
   \<and> ''#1976D2'' \<notin> set (snd (get_color_usage (Some [43, 50]) example_numbers))"
  by (simp add: row_of_def sql_first_def example_numbers_def example_synced_def example_number_def get_color_usage_def
      sql_select_def)

end
