(* ===== verification/Numbers_Use.thy ===== *)
theory Numbers_Use
  imports Numbers_Sync
begin

text \<open>
  How the numbers of \<^theory_text>\<open>Numbers\<close> are used: which one is the default, which provider serves a
  number, and the flags the user sets.
\<close>

section \<open>The default number\<close>

lemma inner_join_mem:
  "j \<in> set (inner_join providers ns) \<longleftrightarrow> (\<exists>n \<in> set ns. joined providers n = Some j)"
  by (auto simp: inner_join_def List.map_filter_def image_iff)

lemma joined_fields:
  "joined providers n = Some j \<Longrightarrow> nr_number j = nr_number n \<and> nr_is_active j = nr_is_active n
     \<and> nr_last_used_at j = nr_last_used_at n \<and> nr_added_at j = nr_added_at n \<and> nr_provider_id j = nr_provider_id n"
  by (auto simp: joined_def number_row.defs number_record.defs split: option.splits)

lemma first_sorted:
  fixes f :: "'a \<Rightarrow> 'b :: linorder"
  assumes "xs \<noteq> []"
  shows "sort_key f xs ! 0 \<in> set xs" "x \<in> set xs \<Longrightarrow> f (sort_key f xs ! 0) \<le> f x"
proof -
  obtain y ys where s: "sort_key f xs = y # ys" using assms by (cases "sort_key f xs") (auto dest: arg_cong [where f = length])
  have "set (y # ys) = set xs" using set_sort [of f xs] s by simp
  moreover have "sorted (map f (y # ys))" using sorted_sort_key [of f xs] s by simp
  ultimately show "sort_key f xs ! 0 \<in> set xs" "x \<in> set xs \<Longrightarrow> f (sort_key f xs ! 0) \<le> f x"
    using s by auto
qed

text \<open>The numbers the default is chosen from: active, with a provider the database knows.\<close>

definition choosable :: "provider_row table \<Rightarrow> number_db \<Rightarrow> number_record list" where
  "choosable providers db = inner_join providers (filter nr_is_active (nd_numbers db))"

definition preferred :: "number_db \<Rightarrow> number_record \<Rightarrow> bool" where
  "preferred db n \<longleftrightarrow> nr_number n \<noteq> [] \<and> nd_default_number db = Some (Some (nr_number n))"

lemma preferred_find:
  "(case nd_default_number db of Some (Some v) \<Rightarrow> if v = [] then None else find (\<lambda>n. nr_number n = v) ns | _ \<Rightarrow> None)
     = find (preferred db) ns"
proof -
  have "find (\<lambda>n. nr_number n = v) ns = find (preferred db) ns"
    if "nd_default_number db = Some (Some v)" "v \<noteq> []" for v
  proof -
    from that have "(\<lambda>n. nr_number n = v) = preferred db" by (auto simp: preferred_def fun_eq_iff)
    then show ?thesis by simp
  qed
  then show ?thesis
    by (auto simp: preferred_def find_None_iff eq_commute [of None] split: option.splits)
qed

lemma default_of:
  "get_default_number providers db =
    (let ns = choosable providers db; used = filter (\<lambda>n. nr_last_used_at n \<noteq> None) ns in
     if ns = [] then None else case find (preferred db) ns of Some u \<Rightarrow> Some u
     | None \<Rightarrow> if length ns = 1 then Some (ns ! 0)
         else if 0 < length used then Some (sort_key (\<lambda>n. - orelse (nr_last_used_at n) 0) used ! 0)
         else Some (sort_key nr_added_at ns ! 0))"
  unfolding get_default_number_def Let_def preferred_find choosable_def sql_select_def
  by (simp split: option.splits)

text \<open>The default number: none when no active number has a provider; else one of them, namely the
  one the user chose if it is among them, else one used as recently as any if any was ever used,
  else one added no later than any.\<close>

theorem default_number_choice:
  "(case get_default_number providers db of
      None \<Rightarrow> choosable providers db = []
    | Some d \<Rightarrow> d \<in> set (choosable providers db)
        \<and> (if list_ex (preferred db) (choosable providers db) then preferred db d
           else if list_ex (\<lambda>n. nr_last_used_at n \<noteq> None) (choosable providers db)
           then nr_last_used_at d \<noteq> None
             \<and> list_all (\<lambda>n. orelse (nr_last_used_at n) (the (nr_last_used_at d)) \<le> the (nr_last_used_at d)) (choosable providers db)
           else list_all (\<lambda>n. nr_added_at d \<le> nr_added_at n) (choosable providers db)))"
proof -
  let ?ns = "choosable providers db"
  let ?used = "filter (\<lambda>n. nr_last_used_at n \<noteq> None) ?ns"
  note eq = default_of [unfolded Let_def]
  show ?thesis
  proof (cases "?ns = []")
    case False
    show ?thesis
    proof (cases "find (preferred db) ?ns")
      case (Some u)
      with find_Some_mem [OF Some] False show ?thesis by (auto simp: eq list_ex_iff)
    next
      case None
      then have none: "\<not> list_ex (preferred db) ?ns" by (simp add: find_None_iff list_ex_iff)
      consider (one) x where "?ns = [x]" | (used) "length ?ns \<noteq> 1" "?used \<noteq> []" | (unused) "length ?ns \<noteq> 1" "?used = []"
        by (metis One_nat_def length_Suc_conv length_0_conv)
      then show ?thesis
      proof cases
        case one
        with none None show ?thesis by (auto simp: eq orelse_def)
      next
        case used
        let ?d = "sort_key (\<lambda>n. - orelse (nr_last_used_at n) 0) ?used ! 0"
        have d: "?d \<in> set ?ns" "nr_last_used_at ?d \<noteq> None"
          using first_sorted(1) [OF used(2), of "\<lambda>n. - orelse (nr_last_used_at n) 0"] by auto
        have le: "orelse (nr_last_used_at n) (the (nr_last_used_at ?d)) \<le> the (nr_last_used_at ?d)" if "n \<in> set ?ns" for n
          using first_sorted(2) [OF used(2), of n "\<lambda>n. - orelse (nr_last_used_at n) 0"] that d(2)
          by (auto simp: orelse_def split: option.splits)
        have "list_ex (\<lambda>n. nr_last_used_at n \<noteq> None) ?ns" using d by (auto simp: list_ex_iff)
        with False None none used d le show ?thesis by (simp add: eq list_all_iff)
      next
        case unused
        have "\<not> list_ex (\<lambda>n. nr_last_used_at n \<noteq> None) ?ns" using unused(2) by (auto simp: list_ex_iff filter_empty_conv)
        with False None none unused first_sorted(1) [OF False, of nr_added_at] first_sorted(2) [OF False, where f = nr_added_at] show ?thesis by (simp add: eq list_all_iff)
      qed
    qed
  qed (simp add: eq)
qed

text \<open>The choice of the user is kept as long as the number is active and has a provider.\<close>

lemma set_then_default:
  assumes "set_default_number (Some n) db = (None, db')" "\<exists>d \<in> set (choosable providers db). nr_number d = n" "n \<noteq> []"
  shows "map_option nr_number (get_default_number providers db') = Some n"
proof -
  have db': "choosable providers db' = choosable providers db" "nd_default_number db' = Some (Some n)"
    using assms(1) by (auto simp: set_default_number_def choosable_def split: if_splits)
  with assms(2,3) have "find (preferred db') (choosable providers db') \<noteq> None"
    by (auto simp: find_None_iff preferred_def)
  then obtain d where f: "find (preferred db') (choosable providers db') = Some d" by blast
  have ne: "choosable providers db' \<noteq> []" using f by auto
  from find_Some_mem [OF f] db'(2) have "nr_number d = n" by (simp add: preferred_def)
  then show ?thesis using f ne by (simp add: default_of Let_def)
qed

section \<open>The provider of a number\<close>

lemma find_conj: "find (\<lambda>r. P r \<and> Q r) rs = find P (filter Q rs)"
  by (induction rs) auto

lemma active_row_of: "keyed db \<Longrightarrow> active_row n db = (case row_of db n of None \<Rightarrow> None | Some r \<Rightarrow> if nr_is_active r then Some r else None)"
  using find_filter_key [of nr_number "nd_numbers db" n nr_is_active]
  by (simp add: keyed_def active_row_def row_of_def sql_first_def find_conj)

lemma required_is_running:
  "require_provider_for_number n g db = Inr e \<Longrightarrow> re_status e = Active \<and> re_instance e \<noteq> None"
  by (cases "re_status e") (auto simp: require_provider_for_number_def split: option.splits if_splits)

lemma sync_serves:
  assumes "distinct (map nr_number (nd_numbers db))" "get_provider p g = Some e" "re_status e = Active" "p \<noteq> ''''"
    and "sync_numbers p (Some listed) now g db = (Inr r, db1, es)"
    and "n \<in> pn_number ` set listed \<or> provided_by p db n"
  shows "require_provider_for_number n g db1
    = (if n \<in> pn_number ` set listed then Inr e else Inl No_Provider_For_Number)"
proof -
  have k: "keyed db" using assms(1) by (simp add: keyed_def)
  obtain e' where st: "sync_store p (map pn_number listed) now (rg_rows g) db = (r, db1, es)" and e': "sync_begin p g = Inr e'"
    using sync_numbers_Inr [OF assms(5)] by blast
  have inst: "re_instance e \<noteq> None" using e' assms(2) by (auto simp: sync_begin_def split: if_splits)
  note rows = sync_store_rows [OF st k, simplified]
  show ?thesis
  proof (cases "n \<in> pn_number ` set listed")
    case True
    then have "provided_by p db1 n" using synced_row_provided [OF rows(2)] by blast
    then show ?thesis
      using True assms(2-4) inst
      by (auto simp: provided_by_def require_provider_for_number_def get_provider_for_number_def active_row_of [OF rows(1)]
          split: option.splits)
  next
    case False
    with assms(6) rows(2) [of n] have "\<exists>r'. row_of db1 n = Some r' \<and> \<not> nr_is_active r'"
      by (auto simp: synced_row_def provided_by_def split: option.splits)
    with False show ?thesis
      by (auto simp: require_provider_for_number_def get_provider_for_number_def active_row_of [OF rows(1)])
  qed
qed

text \<open>After a synchronisation with an active provider, every number it listed is served by that
  provider, whoever had it before, and every number that was its own and is listed no longer is
  served by none.\<close>

theorem synced_number_served:
  assumes "distinct (map nr_number (nd_numbers db))" "get_provider p g = Some e" "re_status e = Active" "p \<noteq> ''''"
    and "sync_numbers p (Some listed) now g db = (Inr r, db1, es)"
    and "n \<in> pn_number ` set listed \<or> provided_by p db n"
  shows "require_provider_for_number n g db1
    = (if n \<in> pn_number ` set listed then Inr e else Inl No_Provider_For_Number)"
  by (rule sync_serves [OF assms])

lemma synced_number_served_witness:
  "require_provider_for_number [43, 50] example_registry example_synced
      = Inr (fresh_entry (Some example_inst) ''p1'' ''46elks'' (js ''Elks'') example_elks_config True)"
  using synced_number_served [OF _ example_registry_simps(2) _ _ example_sync, of "[43, 50]"]
  by (simp add: example_numbers_def example_number_def example_answer_def fresh_entry_def)

section \<open>The flags of a number\<close>

lemma update_active_other:
  assumes "update_active n f db = (found, db')" "\<And>r. nr_number (f r) = nr_number r"
  shows "found \<longleftrightarrow> active_row n db \<noteq> None"
    and "\<not> found \<Longrightarrow> db' = db"
    and "keyed db \<Longrightarrow> row_of db' m = (if m = n \<and> found then map_option f (row_of db m) else row_of db m)"
proof -
  let ?p = "\<lambda>r. nr_number r = n \<and> nr_is_active r"
  have eq: "found = (0 < sql_count ?p (nd_numbers db))" "db' = db\<lparr> nd_numbers := sql_update ?p f (nd_numbers db) \<rparr>"
    using assms(1) by (auto simp: update_active_def Let_def)
  show a: "found \<longleftrightarrow> active_row n db \<noteq> None"
    by (auto simp: eq(1) active_row_def sql_first_None sql_count_def filter_empty_conv)
  show "\<not> found \<Longrightarrow> db' = db" using eq by (simp add: sql_update_none)
  show "row_of db' m = (if m = n \<and> found then map_option f (row_of db m) else row_of db m)" if key: "keyed db"
  proof (cases found)
    case False
    then show ?thesis using eq by (simp add: sql_update_none)
  next
    case True
    with a obtain r where r: "row_of db n = Some r" "nr_is_active r"
      by (auto simp: active_row_of [OF key] split: option.splits if_splits)
    have "nr_number x = n \<and> nr_is_active x \<longleftrightarrow> nr_number x = n" if "x \<in> set (nd_numbers db)" for x
      using r row_of_mem [OF key that] by auto
    then have "sql_update ?p f (nd_numbers db) = sql_update (\<lambda>r. nr_number r = n) f (nd_numbers db)"
      by (auto simp: sql_update_def)
    then show ?thesis
      using True row_of_set_number [of f n db m] assms(2) by (simp add: eq(2) set_number_def)
  qed
qed

lemma set_block_blocks:
  assumes "keyed db" "set_block_inbound_calls n b db = (None, db', es)"
  shows "is_inbound_blocked n db' = b" "m \<noteq> n \<Longrightarrow> is_inbound_blocked m db' = is_inbound_blocked m db"
    "es = [Number_Block_Inbound_Updated n b]"
proof -
  have u: "update_active n (\<lambda>r. r\<lparr> nr_block_inbound_calls := b \<rparr>) db = (True, db')"
    and es: "es = [Number_Block_Inbound_Updated n b]"
    using assms(2) by (auto simp: set_block_inbound_calls_def split: prod.splits bool.splits)
  note o = update_active_other [OF u]
  have k: "keyed db'"
    using u assms(1) by (auto simp: update_active_def Let_def keyed_def sql_update_map)
  have a: "active_row n db \<noteq> None" using o(1) by simp
  show "is_inbound_blocked n db' = b"
    using a o(3) [OF _ assms(1), of n]
    by (auto simp: is_inbound_blocked_def active_row_of [OF k] active_row_of [OF assms(1)] split: option.splits if_splits)
  show "m \<noteq> n \<Longrightarrow> is_inbound_blocked m db' = is_inbound_blocked m db"
    using o(3) [OF _ assms(1), of m] by (simp add: is_inbound_blocked_def active_row_of [OF k] active_row_of [OF assms(1)])
  show "es = [Number_Block_Inbound_Updated n b]" by (rule es)
qed

text \<open>Numbers never used come first in the list, not last as its documentation says: that is where
  the database puts rows without a value in a descending order.\<close>

lemma unused_numbers_first:
  "map nr_number (get_numbers [example_row]
      \<lparr> nd_numbers = [(example_number [43, 49] (Some ''p1'') None True)\<lparr> nr_last_used_at := Some 7 \<rparr>,
          example_number [43, 50] (Some ''p1'') None True], nd_default_number = None \<rparr>) = [[43, 50], [43, 49]]"
  by (simp add: get_numbers_def last_used_desc_def inner_join_def sql_select_def List.map_filter_def joined_def sql_first_def
      example_number_def example_row_def number_row.defs number_record.defs)

end
