(* ===== verification/Message_Routes.thy ===== *)
theory Message_Routes
  imports Call_Routes Read_State Numbers_Use
begin

text \<open>
  The routes for messages, read state, numbers, notifications and the initial state:
  \<^verbatim>\<open>src/routes/sms-routes.ts\<close>, \<^verbatim>\<open>read-state-routes.ts\<close>, \<^verbatim>\<open>number-routes.ts\<close>,
  \<^verbatim>\<open>notification-routes.ts\<close> and \<^verbatim>\<open>sync-routes.ts\<close>, with \<^verbatim>\<open>isConversationUnread\<close> of the browser's thread
  list. All of them are behind the session hook of \<^theory_text>\<open>Http_Session\<close>.
\<close>

section \<open>Decoding a path parameter\<close>

text \<open>\<^verbatim>\<open>decodeURIComponent\<close>: escapes are bytes of UTF-8, 37 is the percent sign. \<^const>\<open>None\<close> when it throws.\<close>

definition hex_digit :: "nat \<Rightarrow> nat option" where
  "hex_digit u = (if is_digit u then Some (u - 48) else if 97 \<le> u \<and> u \<le> 102 then Some (u - 87)
     else if 65 \<le> u \<and> u \<le> 70 then Some (u - 55) else None)"

fun escape_byte :: "jstr \<Rightarrow> (nat \<times> jstr) option" where
  "escape_byte (p # a # b # r) =
     (if p \<noteq> 37 then None else case (hex_digit a, hex_digit b) of (Some x, Some y) \<Rightarrow> Some (16 * x + y, r) | _ \<Rightarrow> None)"
| "escape_byte _ = None"

fun continuation_bytes :: "nat \<Rightarrow> nat \<Rightarrow> jstr \<Rightarrow> (nat \<times> jstr) option" where
  "continuation_bytes 0 v s = Some (v, s)"
| "continuation_bytes (Suc n) v s = (case escape_byte s of
       None \<Rightarrow> None
     | Some (b, r) \<Rightarrow> if 128 \<le> b \<and> b < 192 then continuation_bytes n (64 * v + (b - 128)) r else None)"

definition utf16_units :: "nat \<Rightarrow> jstr" where
  "utf16_units c = (if c < 65536 then [c] else [55296 + (c - 65536) div 1024, 56320 + (c - 65536) mod 1024])"

definition escaped_char :: "jstr \<Rightarrow> (jstr \<times> jstr) option" where
  "escaped_char s = (case escape_byte s of
       None \<Rightarrow> None
     | Some (b, r) \<Rightarrow>
         if b < 128 then Some ([b], r)
         else (case (if 192 \<le> b \<and> b < 224 then Some (1, b - 192, 128)
                 else if 224 \<le> b \<and> b < 240 then Some (2, b - 224, 2048)
                 else if 240 \<le> b \<and> b < 248 then Some (3, b - 240, 65536) else None) of
             None \<Rightarrow> None
           | Some (n, v, least) \<Rightarrow> (case continuation_bytes n v r of
               None \<Rightarrow> None
             | Some (c, r') \<Rightarrow> if least \<le> c \<and> c \<le> 1114111 \<and> \<not> (55296 \<le> c \<and> c \<le> 57343) then Some (utf16_units c, r') else None)))"

lemma escape_byte_shorter: "escape_byte s = Some (b, r) \<Longrightarrow> length r < length s"
  by (induction s rule: escape_byte.induct) (auto split: if_splits option.splits)

lemma continuation_shorter: "continuation_bytes n v s = Some (c, r) \<Longrightarrow> length r \<le> length s"
  by (induction n v s rule: continuation_bytes.induct)
    (fastforce dest: escape_byte_shorter split: option.splits if_splits)+

lemma escaped_char_shorter: "escaped_char s = Some (us, r) \<Longrightarrow> length r < length s"
  by (auto simp: escaped_char_def dest!: escape_byte_shorter continuation_shorter split: option.splits if_splits prod.splits)

function decode_uri_component :: "jstr \<Rightarrow> jstr option" where
  "decode_uri_component [] = Some []"
| "decode_uri_component (u # s) =
     (if u \<noteq> 37 then map_option (Cons u) (decode_uri_component s)
      else case escaped_char (u # s) of
          None \<Rightarrow> None
        | Some (us, r) \<Rightarrow> map_option (append us) (decode_uri_component r))"
  by pat_completeness auto
termination
  by (relation "measure length") (auto dest: escaped_char_shorter)

lemma decode_plain: "37 \<notin> set s \<Longrightarrow> decode_uri_component s = Some s"
  by (induction s) auto

section \<open>Messages\<close>

definition blank_text :: "jstr option \<Rightarrow> bool" where
  "blank_text s \<longleftrightarrow> (case s of None \<Rightarrow> True | Some t \<Rightarrow> t = [] \<or> trim t = [])"

definition conversation_message :: "conversation_error \<Rightarrow> string" where
  "conversation_message e = (case e of
       Invalid_Body m \<Rightarrow> m
     | Invalid_Destination m \<Rightarrow> m
     | Constraint_Violation \<Rightarrow> ''constraint violation''
     | No_Result \<Rightarrow> ''no result''
     | Max_Retries_Exceeded \<Rightarrow> ''Maximum retry count (3) exceeded''
     | Only_Failed_Retried \<Rightarrow> ''Only FAILED messages can be retried'')"

text \<open>Up to the provider: a reply at once, or the recipient and the message that waits for it.
  \<open>numbers\<close>: the number service, when there is one.\<close>

definition send_sms_route ::
    "string \<Rightarrow> int \<Rightarrow> (jstr option \<times> jstr option \<times> jstr option) option \<Rightarrow> (registry \<times> number_db) option \<Rightarrow> conversation_db
      \<Rightarrow> (message reply + jstr \<times> jstr \<times> jstr) \<times> conversation_db" where
  "send_sms_route i now request_body numbers db =
     (case request_body of
        None \<Rightarrow> (Inl (Error_Reply 500 Thrown), db)
      | Some (to, body, from) \<Rightarrow>
          if \<not> truthy to \<or> \<not> truthy body \<or> \<not> truthy from
          then (Inl (Error_Reply 400 (Message ''Missing required fields: to, body, from'')), db)
          else (case validate_message (the body) of
              Invalid e \<Rightarrow> (Inl (Error_Reply 400 (Message e)), db)
            | Valid \<Rightarrow> (case validate_phone_number (the to) of
                Invalid e \<Rightarrow> (Inl (Error_Reply 400 (Message e)), db)
              | Valid \<Rightarrow>
                  if (case numbers of None \<Rightarrow> False | Some (g, n) \<Rightarrow> get_provider_for_number (the from) g n = None)
                  then (Inl (Error_Reply 403 (Message ''The \"from\" number is not a registered active number'')), db)
                  else (case send_begin i now (the from) (the to) (the body) db of
                      (Inl e, db') \<Rightarrow> (Inl (Error_Reply 500 (Message (conversation_message e))), db')
                    | (Inr (recipient, _), db') \<Rightarrow> (Inr (recipient, the from, the body), db')))))"

definition send_sms_reply ::
    "sms_result option \<Rightarrow> int \<Rightarrow> string \<Rightarrow> jstr \<times> jstr \<times> jstr \<Rightarrow> conversation_db
      \<Rightarrow> message reply \<times> conversation_db \<times> conversation_event list" where
  "send_sms_reply result now i waiting db =
     (case waiting of (recipient, from, body) \<Rightarrow>
        (case send_finish result now from recipient body i db of
           (Inl e, db', es) \<Rightarrow> (Error_Reply 500 (Message (conversation_message e)), db', es)
         | (Inr m, db', es) \<Rightarrow> (Reply 201 m, db', es)))"

record thread_view =
  tv_phone_number :: jstr
  tv_provider_number :: "jstr option"
  tv_last_message_preview :: "jstr option"
  tv_last_message_timestamp :: "int option"
  tv_last_received_at :: "int option"
  tv_created_at :: int
  tv_last_read_at :: "int option"

definition jstr_page :: "int \<Rightarrow> jstr option \<Rightarrow> int" where
  "jstr_page d x = (case x of None \<Rightarrow> max d 1 | Some s \<Rightarrow>
     (let n = (case parse_int s of None \<Rightarrow> d | Some n \<Rightarrow> if n = 0 then d else n) in max n 1))"

definition list_conversations_route ::
    "jstr option \<Rightarrow> jstr option \<Rightarrow> jstr option \<Rightarrow> read_world \<Rightarrow> (thread_view list \<times> nat \<times> nat \<times> nat \<times> nat) reply" where
  "list_conversations_route page page_size provider_number w =
     (let db = rw_conversations w;
          result = get_conversations (jstr_page 1 page) (min (jstr_page 50 page_size) 100)
            (if truthy provider_number then provider_number else None) db;
          threads = map (\<lambda>c. (orelse (shown_provider_number c) [], cv_phone_number c)) (pc_conversations result);
          read_states = get_thread_read_states (map (\<lambda>(p, n). thread_key p n) threads) w;
          last_received_times = get_last_received_timestamps threads db
      in Reply 200
          (map (\<lambda>c. let key = thread_key (orelse (shown_provider_number c) []) (cv_phone_number c) in
             \<lparr> tv_phone_number = cv_phone_number c, tv_provider_number = shown_provider_number c,
               tv_last_message_preview = cv_last_message_preview c, tv_last_message_timestamp = cv_last_message_timestamp c,
               tv_last_received_at = jm_get last_received_times key, tv_created_at = cv_created_at c,
               tv_last_read_at = jm_get read_states key \<rparr>) (pc_conversations result),
           pc_page result, pc_page_size result, pc_total result, pc_total_pages result))"

definition is_conversation_unread :: "thread_view \<Rightarrow> bool" where
  "is_conversation_unread v = (case tv_last_received_at v of
       None \<Rightarrow> False
     | Some received \<Rightarrow> (case tv_last_read_at v of None \<Rightarrow> True | Some t \<Rightarrow> received > t))"

definition list_messages_route :: "jstr \<Rightarrow> jstr option \<Rightarrow> jstr option \<Rightarrow> conversation_db \<Rightarrow> (jstr \<times> message list) reply" where
  "list_messages_route number limit from db =
     (if blank_text (Some number) then Error_Reply 400 (Message ''Phone number parameter is required'')
      else case decode_uri_component number of
          None \<Rightarrow> Error_Reply 500 Thrown
        | Some n \<Rightarrow> Reply 200 (n, get_messages n (min (jstr_page 100 limit) 100) (if blank_text from then None else from) db))"

definition delete_conversation_route :: "jstr \<Rightarrow> jstr option \<Rightarrow> conversation_db \<Rightarrow> unit reply \<times> conversation_db" where
  "delete_conversation_route number from db =
     (if blank_text (Some number) then (Error_Reply 400 (Message ''Phone number parameter is required''), db)
      else if blank_text from then (Error_Reply 400 (Message ''from (provider number) query parameter is required''), db)
      else case decode_uri_component number of
          None \<Rightarrow> (Error_Reply 500 Thrown, db)
        | Some n \<Rightarrow> (Reply 200 (), remove_conversation (the from) n db))"

definition delete_message_route :: "string \<Rightarrow> conversation_db \<Rightarrow> unit reply \<times> conversation_db" where
  "delete_message_route i db =
     (if blank i then (Error_Reply 400 (Message ''Message ID parameter is required''), db)
      else (Reply 200 (), remove_message i db))"

definition restore_message_route :: "string \<Rightarrow> conversation_db \<Rightarrow> unit reply \<times> conversation_db" where
  "restore_message_route i db =
     (if blank i then (Error_Reply 400 (Message ''Message ID parameter is required''), db)
      else (Reply 200 (), restore_message i db))"

section \<open>Read state\<close>

definition counts_route :: "read_world \<Rightarrow> read_state_counts reply" where
  "counts_route w = Reply 200 (get_counts w)"

definition read_calls_route ::
    "bool option \<Rightarrow> int \<Rightarrow> int \<Rightarrow> session_identity option \<Rightarrow> read_world \<Rightarrow> read_state_counts reply \<times> read_world \<times> read_effect list" where
  "read_calls_route hook now later identity w =
     (case mark_missed_calls_as_viewed hook now later (map_option sn_device_id identity) w of
        (counts, w', es) \<Rightarrow> (Reply 200 counts, w', es))"

definition read_messages_route ::
    "bool option \<Rightarrow> int \<Rightarrow> int \<Rightarrow> session_identity option \<Rightarrow> jstr \<Rightarrow> jstr option \<Rightarrow> read_world
      \<Rightarrow> read_state_counts reply \<times> read_world \<times> read_effect list" where
  "read_messages_route hook now later identity number from w =
     (if blank_text (Some number) then (Error_Reply 400 (Message ''Phone number is required''), w, [])
      else if blank_text from then (Error_Reply 400 (Message ''from (provider number) query parameter is required''), w, [])
      else case decode_uri_component number of
          None \<Rightarrow> (Error_Reply 500 Thrown, w, [])
        | Some n \<Rightarrow> (case mark_thread_as_read hook now later (map_option sn_device_id identity) (the from) n w of
            (counts, w', es) \<Rightarrow> (Reply 200 counts, w', es)))"

section \<open>Numbers\<close>

definition list_numbers_route ::
    "(number_record list \<Rightarrow> number_record list) \<Rightarrow> string option \<Rightarrow> provider_row table \<Rightarrow> number_db
      \<Rightarrow> (number_record list \<times> jstr option) reply" where
  "list_numbers_route by_name include_orphaned providers db =
     Reply 200 (get_all_numbers by_name (include_orphaned = Some ''true'') providers db,
       map_option nr_number (get_default_number providers db))"

text \<open>A text of the body is a \<open>json_field\<close>; the schema's own bounds come before those of the service.\<close>

definition update_label_route ::
    "jstr \<Rightarrow> json_field option \<Rightarrow> number_db \<Rightarrow> (jstr \<times> jstr) reply \<times> number_db \<times> number_event list" where
  "update_label_route number body db =
     (case (case body of
          None \<Rightarrow> [Body_Required]
        | Some label \<Rightarrow> text_issues (\<lambda>s. at_least_one ''Label is required'' s @ at_most 30 ''Label must be at most 30 characters'' s) label) of
        i # is \<Rightarrow> (Error_Reply 400 (Details (i # is)), db, [])
      | [] \<Rightarrow> (case update_label number (js (text_of (the body))) db of
          (Some e, db', es) \<Rightarrow> (Error_Reply 404 (Message e), db', es)
        | (None, db', es) \<Rightarrow> (Reply 200 (number, js (text_of (the body))), db', es)))"

text \<open>\<open>listed\<close> is what the provider lists, \<^const>\<open>None\<close> when it fails; the reply to a failure has the
  error's message.\<close>

definition sync_numbers_route ::
    "string option \<Rightarrow> provider_number list option \<Rightarrow> int \<Rightarrow> registry \<Rightarrow> number_db
      \<Rightarrow> (number_error + sync_result) reply \<times> number_db \<times> number_event list" where
  "sync_numbers_route provider listed now g db =
     (if absent provider then (Error_Reply 400 (Message ''providerId is required''), db, [])
      else (case sync_numbers (the provider) listed now g db of
          (Inl e, db', es) \<Rightarrow> (Reply 502 (Inl e), db', es)
        | (Inr r, db', es) \<Rightarrow> (Reply 200 (Inr r), db', es)))"

definition set_active_route ::
    "jstr \<Rightarrow> json_field option \<Rightarrow> provider_row table \<Rightarrow> number_db \<Rightarrow> (jstr \<times> bool) reply \<times> number_db \<times> number_event list" where
  "set_active_route number body providers db =
     (case (case body of None \<Rightarrow> [Body_Required] | Some f \<Rightarrow> truth_issues f) of
        i # is \<Rightarrow> (Error_Reply 400 (Details (i # is)), db, [])
      | [] \<Rightarrow> (case set_active number (truth_of (the body)) providers db of
          (Some e, db', es) \<Rightarrow> (Error_Reply 404 (Message e), db', es)
        | (None, db', es) \<Rightarrow> (Reply 200 (number, truth_of (the body)), db', es)))"

definition block_inbound_route ::
    "jstr \<Rightarrow> json_field option \<Rightarrow> number_db \<Rightarrow> (jstr \<times> bool) reply \<times> number_db \<times> number_event list" where
  "block_inbound_route number body db =
     (case (case body of None \<Rightarrow> [Body_Required] | Some f \<Rightarrow> truth_issues f) of
        i # is \<Rightarrow> (Error_Reply 400 (Details (i # is)), db, [])
      | [] \<Rightarrow> (case set_block_inbound_calls number (truth_of (the body)) db of
          (Some e, db', es) \<Rightarrow> (Error_Reply 404 (Message e), db', es)
        | (None, db', es) \<Rightarrow> (Reply 200 (number, truth_of (the body)), db', es)))"

text \<open>The body's \<^verbatim>\<open>number\<close>: absent, \<^verbatim>\<open>null\<close>, or a number.\<close>

definition default_number_route :: "jstr option option \<Rightarrow> number_db \<Rightarrow> jstr option reply \<times> number_db" where
  "default_number_route number db =
     (case number of
        None \<Rightarrow> (Error_Reply 400 (Message ''Request body must include \"number\" field (string or null)''), db)
      | Some n \<Rightarrow> (case set_default_number n db of
          (Some e, db') \<Rightarrow> (Error_Reply 404 (Message e), db')
        | (None, db') \<Rightarrow> (Reply 200 n, db')))"

section \<open>Notifications\<close>

definition VALID_NOTIFICATION_TYPES :: "(string \<times> notification_type) list" where
  "VALID_NOTIFICATION_TYPES = [(''incoming_call'', notification_type.Incoming_Call), (''missed_call'', Missed_Call), (''incoming_sms'', notification_type.Incoming_Sms),
     (''blocked_call'', Blocked_Call), (''new_device_login'', New_Device_Login)]"

definition pending_notifications_route :: "int \<Rightarrow> notification table \<Rightarrow> notification list reply" where
  "pending_notifications_route now t = Reply 200 (get_pending_notifications now t)"

definition get_notification_route :: "string \<Rightarrow> notification table \<Rightarrow> notification reply" where
  "get_notification_route i t =
     (if length i < 1 then Error_Reply 400 (Message ''Invalid notification ID'')
      else case get_notification_by_id i t of
          None \<Rightarrow> Error_Reply 404 (Message ''Notification not found'')
        | Some n \<Rightarrow> Reply 200 n)"

definition read_notification_route ::
    "string \<Rightarrow> int \<Rightarrow> notification table \<Rightarrow> string reply \<times> notification table \<times> notification_effect list" where
  "read_notification_route i now t =
     (if length i < 1 then (Error_Reply 400 (Message ''Invalid notification ID''), t, [])
      else case mark_read i now t of
          (False, t', es) \<Rightarrow> (Error_Reply 404 (Message ''Notification not found''), t', es)
        | (True, t', es) \<Rightarrow> (Reply 200 ''Notification marked as read'', t', es))"

definition read_all_notifications_route ::
    "string option \<Rightarrow> int \<Rightarrow> notification table \<Rightarrow> string reply \<times> notification table \<times> notification_effect list" where
  "read_all_notifications_route type now t =
     (case type of
        None \<Rightarrow> (case mark_all_read None now t of (_, t', es) \<Rightarrow> (Reply 200 ''Notifications marked as read'', t', es))
      | Some ty \<Rightarrow> (case map_of VALID_NOTIFICATION_TYPES ty of
          None \<Rightarrow> (Error_Reply 400 (Message (''Invalid notification type: \"'' @ ty @
            ''\". Valid types are: incoming_call, missed_call, incoming_sms, blocked_call, new_device_login'')), t, [])
        | Some n \<Rightarrow> (case mark_all_read (Some [n]) now t of (_, t', es) \<Rightarrow> (Reply 200 ''Notifications marked as read'', t', es))))"

text \<open>The route's documentation has 404 for a notification that does not exist; one that was read already
  is answered the same way.\<close>

lemma reading_twice_not_found:
  assumes "read_notification_route i now t = (Reply 200 m, t', es)"
  shows "fst (read_notification_route i later t') = Error_Reply 404 (Message ''Notification not found'')"
proof -
  let ?p = "\<lambda>r. nt_id r = i \<and> nt_status r = Pending"
  have t': "t' = sql_update ?p (\<lambda>r. r\<lparr> nt_status := Read, nt_updated_at := now \<rparr>) t" and i: "\<not> length i < 1"
    using assms by (auto simp: read_notification_route_def mark_read_def Let_def split: if_splits prod.splits bool.splits)
  have "sql_count ?p t' = 0" unfolding t' by (auto simp: sql_count_def sql_update_def filter_empty_conv)
  then show ?thesis using i by (simp add: read_notification_route_def mark_read_def Let_def)
qed

section \<open>The initial state\<close>

text \<open>In a descending order the database puts rows without a value first.\<close>

definition sync_numbers_view :: "number_db \<Rightarrow> number_row list" where
  "sync_numbers_view db = (let ns = sql_select nr_is_active (nd_numbers db) in
     filter (\<lambda>n. nr_last_used_at n = None) ns
     @ sort_key (\<lambda>n. - orelse (nr_last_used_at n) 0) (filter (\<lambda>n. nr_last_used_at n \<noteq> None) ns))"

definition sync_state_route ::
    "number_db \<Rightarrow> call_entry table \<Rightarrow> conversation_db \<Rightarrow> (number_row list \<times> call_entry list \<times> conversation_row list) reply" where
  "sync_state_route numbers history db =
     Reply 200 (sync_numbers_view numbers, take 50 (sort_key (\<lambda>e. - ch_timestamp e) history), take 50 (newest_first (cd_conversations db)))"

text \<open>A conversation the user removed is left out of the list of conversations, as the removal promises,
  but still part of the initial state.\<close>

lemma sync_state_shows_removed:
  assumes "cv_removed c" "cv_last_message_timestamp c = None"
  shows "sync_state_route numbers history \<lparr> cd_conversations = [c], cd_messages = ms, cd_numbers = ns \<rparr>
      = Reply 200 (sync_numbers_view numbers, take 50 (sort_key (\<lambda>e. - ch_timestamp e) history), [c])"
    and "pc_conversations (get_conversations 1 50 None \<lparr> cd_conversations = [c], cd_messages = ms, cd_numbers = ns \<rparr>) = []"
  using assms
  by (simp_all add: sync_state_route_def newest_first_def get_conversations_def sql_select_def in_list_def Let_def)

section \<open>Unread threads\<close>

lemma first_row_sorted:
  "(case first_row (sort_key (\<lambda>m. - mg_timestamp m) ms) of
     None \<Rightarrow> ms = [] | Some m \<Rightarrow> m \<in> set ms \<and> (\<forall>x \<in> set ms. mg_timestamp x \<le> mg_timestamp m))"
proof (cases "ms = []")
  case True
  then show ?thesis by (simp add: first_row_def)
next
  case False
  let ?s = "sort_key (\<lambda>m. - mg_timestamp m) ms"
  have "?s \<noteq> []" using False by (metis length_0_conv length_sort)
  then have "first_row ?s = Some (?s ! 0)" by (cases ?s) (simp_all add: first_row_def)
  then show ?thesis using first_sorted [OF False, where f = "\<lambda>m. - mg_timestamp m"] by auto
qed

lemma unread_iff_newer:
  "0 < unread_in reads db p n \<longleftrightarrow> (case last_received p n db of
     None \<Rightarrow> False
   | Some received \<Rightarrow> (case jm_get reads (thread_key p n) of None \<Rightarrow> True | Some t \<Rightarrow> received > t))"
proof -
  let ?ms = "sql_select (received_in p n) (cd_messages db)"
  have u: "0 < unread_in reads db p n \<longleftrightarrow>
      (\<exists>m \<in> set ?ms. case jm_get reads (thread_key p n) of None \<Rightarrow> True | Some t \<Rightarrow> mg_timestamp m > t)"
    by (auto simp: unread_in_def Let_def sql_count_def sql_select_def filter_empty_conv)
  show ?thesis
  proof (cases "first_row (sort_key (\<lambda>m. - mg_timestamp m) ?ms)")
    case None
    have "?ms = []" using first_row_sorted [of ?ms] unfolding None by simp
    then show ?thesis using u by (simp add: last_received_def first_row_def)
  next
    case (Some m)
    then have "m \<in> set ?ms" "\<forall>x \<in> set ?ms. mg_timestamp x \<le> mg_timestamp m" using first_row_sorted [of ?ms] by auto
    then show ?thesis using u Some by (fastforce simp: last_received_def split: option.splits)
  qed
qed

lemma last_received_times:
  assumes "\<forall>(p', n') \<in> set threads. 124 \<notin> set p'" "124 \<notin> set p"
  shows "jm_get (fold (\<lambda>(provider, phone) results. case last_received provider phone db of
         None \<Rightarrow> results | Some t \<Rightarrow> jm_set (thread_key provider phone) t results) threads m) (thread_key p n)
     = (if (p, n) \<in> set threads \<and> last_received p n db \<noteq> None then last_received p n db else jm_get m (thread_key p n))"
  using assms(1)
proof (induction threads arbitrary: m)
  case (Cons a threads)
  obtain p' n' where a: "a = (p', n')" by (cases a)
  then have "thread_key p n = thread_key p' n' \<longleftrightarrow> p = p' \<and> n = n'" using Cons.prems assms(2) thread_key_inj by simp
  then show ?case using Cons a by (auto split: option.splits)
qed simp

lemma thread_read_state:
  assumes "k \<in> set keys"
  shows "jm_get (get_thread_read_states keys w) k = jm_get (read_state_map (rw_read_state w)) k"
proof -
  have f: "find (\<lambda>r. rs_item_key r = k) (filter (\<lambda>r. rs_item_type r = Messages \<and> rs_item_key r \<in> set keys) rs)
      = find (is_item Messages k) rs" for rs
    using assms by (induction rs) (auto simp: is_item_def)
  have "keys \<noteq> []" using assms by auto
  then show ?thesis
    by (simp add: get_thread_read_states_def fold_read_states read_state_map_get sql_select_def rev_filter f split: option.splits)
qed

lemma shown_or_empty [simp]: "orelse (shown_provider_number c) [] = cv_provider_number c"
  by (simp add: shown_provider_number_def orelse_def)

lemma listed_rows: "set (pc_conversations (get_conversations page page_size own db)) \<subseteq> {c \<in> set (cd_conversations db). \<not> cv_removed c}"
  by (auto simp: get_conversations_def Let_def newest_first_def sql_select_def in_list_def dest!: in_set_takeD in_set_dropD)


definition example_thread_world :: read_world where
  "example_thread_world = example_world\<lparr> rw_conversations := empty_conversations\<lparr>
     cd_conversations := [\<lparr> cv_phone_number = other_number, cv_provider_number = own_number, cv_last_message_preview = None,
       cv_last_message_timestamp = Some 7, cv_created_at = 1, cv_removed = False \<rparr>],
     cd_messages := [example_row_received] \<rparr> \<rparr>"


end
