(* ===== verification/Modem_Gateway.thy ===== *)
theory Modem_Gateway
  imports Provider_Registry
begin

text \<open>
  The signalling connection of a modem gateway: \<^verbatim>\<open>src/providers/modem-gateway-ws-handler.ts\<close> and
  \<^verbatim>\<open>src/providers/modem-gateway-persistence.ts\<close>. A handler method that awaits the database is cut
  there; a segment takes the value it waited for as an argument. Sockets belong to the \<^verbatim>\<open>ws\<close>
  library: their ready states are part of the state, closing one begins its closing handshake.
  Nonces and signatures are the base64 texts that are sent. A timer is the time it is due; fields
  of a message have the types the source declares for them or are absent.
\<close>

section \<open>Messages\<close>

record status_data =
  sd_signal :: int
  sd_network :: "jstr option"
  sd_operator :: "jstr option"
  sd_band :: "jstr option"
  sd_network_tech :: "jstr option"
  sd_modem_model :: "jstr option"
  sd_modem_manufacturer :: "jstr option"
  sd_firmware :: "jstr option"
  sd_imei :: "jstr option"
  sd_imsi :: "jstr option"
  sd_iccid :: "jstr option"
  sd_msisdn :: "jstr option"
  sd_stale :: "jstr list option"
  sd_unsupported_warning :: "jstr option"

record call_state_data =
  cs_call_id :: string
  cs_state :: call_state
  cs_reason :: "jstr option"
  cs_duration_seconds :: "int option"

record incoming_sms_data =
  is_message_id :: string
  is_from :: jstr
  is_to :: jstr
  is_body :: jstr
  is_timestamp :: "int option"

record sms_result_data =
  sx_request_id :: string
  sx_success :: bool
  sx_message_ref :: "int option"
  sx_error_reason :: "jstr option"

text \<open>
  What the gateway sends. The state of a call may carry the request it answers, besides the data
  that is passed on; a list of capabilities or the reported number may be missing.
\<close>

datatype gateway_message =
    Auth_Pair "jstr option" "jstr option"
  | Auth_Response "jstr option"
  | Gm_Status status_data
  | Gm_Number_Report "jstr option" "string list option"
  | Gm_Incoming_Call string jstr
  | Gm_Call_State "string option" call_state_data
  | Gm_Incoming_Sms incoming_sms_data
  | Gm_Sms_Result sms_result_data
  | Gm_Dtmf_Received string jstr
  | Gm_Dtmf_Result string bool "jstr option"
  | Gm_Ussd_Response string jstr bool
  | Gm_Ussd_Error string "int option" jstr
  | Gm_Missed_Calls "(jstr \<times> int) list"
  | Gm_Buffered_Sms "incoming_sms_data list"
  | Gm_Delivery_Report string string
  | Gm_Call_Ack string
  | Gm_Answer_Ack string
  | Gm_Unknown string

text \<open>A frame is a message, or no JSON, or JSON without a type.\<close>

datatype gateway_frame = No_Json | No_Type | Frame gateway_message

datatype gateway_request =
    Auth_Challenge jstr
  | Auth_Success
  | Auth_Error string
  | Gr_Make_Call string string jstr jstr
  | Gr_Answer_Call string string jstr
  | Gr_End_Call string
  | Gr_Send_Sms string jstr jstr jstr
  | Gr_Sms_Ack string

datatype ws_handler_event =
    Wh_Connected
  | Wh_Disconnected
  | Wh_Authenticated
  | Wh_Status status_data
  | Wh_Number_Report "jstr option" "string list"
  | Wh_Incoming_Call string jstr
  | Wh_Call_State call_state_data
  | Wh_Incoming_Sms incoming_sms_data
  | Wh_Sms_Result sms_result_data
  | Wh_Dtmf_Received string jstr
  | Wh_Dtmf_Result string bool "jstr option"
  | Wh_Ussd_Response string jstr bool
  | Wh_Ussd_Error string "int option" jstr
  | Wh_Missed_Calls "(jstr \<times> int) list"
  | Wh_Buffered_Sms "incoming_sms_data list"
  | Wh_Delivery_Report string string

section \<open>The stored pairing\<close>

text \<open>
  Reading the configuration of the provider and writing it back are two statements. A JSON object
  keeps no member that is undefined; a public key that is deleted becomes null.
\<close>

record gateway_env =
  ge_parse_date :: "jstr \<Rightarrow> int option"
  ge_iso_date :: "int \<Rightarrow> jstr"
  ge_base64_length :: "jstr \<Rightarrow> nat"
  ge_verify :: "jstr \<Rightarrow> jstr \<Rightarrow> jstr \<Rightarrow> bool"
  ge_lower :: "jstr \<Rightarrow> jstr"

definition load_config :: "string \<Rightarrow> provider_row table \<Rightarrow> config option" where
  "load_config i rows = map_option pr_config (sql_first (\<lambda>row. pr_id row = i) rows)"

definition save_config :: "string \<Rightarrow> config \<Rightarrow> provider_row table \<Rightarrow> provider_row table" where
  "save_config i config = sql_update (\<lambda>row. pr_id row = i) (\<lambda>row. row\<lparr> pr_config := config \<rparr>)"

definition stored_text :: "string \<Rightarrow> config option \<Rightarrow> jstr option" where
  "stored_text field config = (case config of None \<Rightarrow> None | Some c \<Rightarrow> config_text field c)"

definition get_public_key :: "config option \<Rightarrow> jstr option" where
  "get_public_key = stored_text ''public_key''"

definition get_pairing_secret :: "config option \<Rightarrow> jstr option" where
  "get_pairing_secret = stored_text ''pairing_secret''"

definition get_pairing_secret_created_at :: "gateway_env \<Rightarrow> config option \<Rightarrow> int option" where
  "get_pairing_secret_created_at ev config =
     (let raw = stored_text ''pairing_secret_created_at'' config
      in if truthy raw then ge_parse_date ev (the raw) else None)"

definition update_config_field :: "string \<Rightarrow> other_json config_value \<Rightarrow> config option \<Rightarrow> config" where
  "update_config_field field v config = jm_set (js field) v (orelse config [])"

definition set_public_key :: "jstr \<Rightarrow> config option \<Rightarrow> config" where
  "set_public_key key = update_config_field ''public_key'' (CStr key)"

definition delete_public_key :: "config option \<Rightarrow> config" where
  "delete_public_key = update_config_field ''public_key'' (COther J_Null)"

definition set_pairing_secret :: "gateway_env \<Rightarrow> jstr \<Rightarrow> int \<Rightarrow> config option \<Rightarrow> config" where
  "set_pairing_secret ev secret created_at config =
     jm_set (js ''pairing_secret_created_at'') (CStr (ge_iso_date ev created_at))
       (jm_set (js ''pairing_secret'') (CStr secret) (orelse config []))"

definition clear_pairing_secret :: "config option \<Rightarrow> config" where
  "clear_pairing_secret config =
     jm_delete (js ''pairing_secret_created_at'') (jm_delete (js ''pairing_secret'') (orelse config []))"

section \<open>The handler\<close>

definition PAIRING_SECRET_TTL_MS :: int where "PAIRING_SECRET_TTL_MS = 24 * 60 * 60 * 1000"
definition CHALLENGE_EXPIRY_MS :: int where "CHALLENGE_EXPIRY_MS = 30000"
definition AUTH_RATE_LIMIT_MS :: int where "AUTH_RATE_LIMIT_MS = 1000"
definition GATEWAY_PING_INTERVAL_MS :: int where "GATEWAY_PING_INTERVAL_MS = 30000"
definition GATEWAY_PONG_TIMEOUT_MS :: int where "GATEWAY_PONG_TIMEOUT_MS = 60000"
definition AUTH_TIMEOUT_MS :: int where "AUTH_TIMEOUT_MS = 30000"

datatype ready_state = Socket_Open | Socket_Closing | Socket_Closed

record gateway_handler =
  gh_ws :: "nat option"
  gh_sockets :: "nat \<Rightarrow> ready_state"
  gh_authenticated :: bool
  gh_pending_challenge :: "(jstr \<times> int) option"
  gh_last_auth_attempt :: int
  gh_ping_interval :: "int option"
  gh_pong_timeout :: "int option"
  gh_pong_received :: bool
  gh_auth_timeout :: "int option"

definition new_gateway_handler :: gateway_handler where
  "new_gateway_handler = \<lparr> gh_ws = None, gh_sockets = (\<lambda>_. Socket_Closed), gh_authenticated = False,
     gh_pending_challenge = None, gh_last_auth_attempt = 0, gh_ping_interval = None, gh_pong_timeout = None,
     gh_pong_received = True, gh_auth_timeout = None \<rparr>"

text \<open>
  What the handler does besides changing its state. A challenge timer is set and never cleared; a
  rejected promise that nobody awaits ends the process.
\<close>

datatype gateway_effect =
    Ws_Send nat gateway_request
  | Ws_Close nat
  | Ws_Ping nat
  | Arm_Challenge_Timer int
  | To_Provider gateway_message
  | Emit_Event ws_handler_event
  | Unhandled_Rejection

definition is_socket_connected :: "gateway_handler \<Rightarrow> bool" where
  "is_socket_connected s = (case gh_ws s of None \<Rightarrow> False | Some k \<Rightarrow> gh_sockets s k = Socket_Open)"

definition is_connected :: "gateway_handler \<Rightarrow> bool" where
  "is_connected s \<longleftrightarrow> is_socket_connected s \<and> gh_authenticated s"

definition send_message :: "gateway_request \<Rightarrow> gateway_handler \<Rightarrow> bool \<times> gateway_effect list" where
  "send_message msg s = (if is_socket_connected s then (True, [Ws_Send (the (gh_ws s)) msg]) else (False, []))"

definition close_existing :: "gateway_handler \<Rightarrow> gateway_handler \<times> gateway_effect list" where
  "close_existing s =
     (let s' = s\<lparr> gh_ping_interval := None, gh_pong_timeout := None, gh_auth_timeout := None,
                 gh_authenticated := False, gh_pending_challenge := None, gh_ws := None \<rparr>
      in case gh_ws s of
           None \<Rightarrow> (s', [])
         | Some k \<Rightarrow> (s'\<lparr> gh_sockets := (gh_sockets s)(k := if gh_sockets s k = Socket_Open then Socket_Closing else gh_sockets s k) \<rparr>,
                      [Ws_Close k]))"

text \<open>An error is reported to the gateway and its connection closed.\<close>

definition refuse_auth :: "string \<Rightarrow> gateway_handler \<Rightarrow> gateway_handler \<times> gateway_effect list" where
  "refuse_auth reason s =
     (case close_existing s of (s', es) \<Rightarrow> (s', snd (send_message (Auth_Error reason) s) @ es))"

definition start_gateway_pings :: "int \<Rightarrow> gateway_handler \<Rightarrow> gateway_handler" where
  "start_gateway_pings now s = s\<lparr> gh_ping_interval := Some (now + GATEWAY_PING_INTERVAL_MS), gh_pong_received := True \<rparr>"

definition handle_connection :: "int \<Rightarrow> nat \<Rightarrow> gateway_handler \<Rightarrow> gateway_handler \<times> gateway_effect list" where
  "handle_connection now k s =
     (let (s1, es) = (if gh_ws s \<noteq> None then close_existing s else (s, []));
          s2 = s1\<lparr> gh_ws := Some k, gh_sockets := (gh_sockets s1)(k := Socket_Open), gh_authenticated := False,
                   gh_pending_challenge := None \<rparr>
      in ((start_gateway_pings now s2)\<lparr> gh_auth_timeout := Some (now + AUTH_TIMEOUT_MS) \<rparr>,
          es @ [Emit_Event Wh_Connected]))"

definition handle_disconnect :: "gateway_handler \<Rightarrow> gateway_handler \<times> gateway_effect list" where
  "handle_disconnect s =
     (s\<lparr> gh_ping_interval := None, gh_pong_timeout := None, gh_auth_timeout := None, gh_ws := None,
         gh_authenticated := False, gh_pending_challenge := None \<rparr>, [Emit_Event Wh_Disconnected])"

section \<open>Challenge and response\<close>

definition issue_challenge :: "int \<Rightarrow> jstr \<Rightarrow> gateway_handler \<Rightarrow> gateway_handler \<times> gateway_effect list" where
  "issue_challenge now nonce s =
     (let s' = s\<lparr> gh_pending_challenge := Some (nonce, now + CHALLENGE_EXPIRY_MS) \<rparr>
      in (s', snd (send_message (Auth_Challenge nonce) s') @ [Arm_Challenge_Timer (now + CHALLENGE_EXPIRY_MS)]))"

text \<open>After the stored key has been read.\<close>

definition initiate_auth :: "int \<Rightarrow> jstr \<Rightarrow> jstr option \<Rightarrow> gateway_handler \<Rightarrow> gateway_handler \<times> gateway_effect list" where
  "initiate_auth now nonce public_key s = (if truthy public_key then issue_challenge now nonce s else (s, []))"

definition challenge_timer_fires :: "gateway_handler \<Rightarrow> gateway_handler \<times> gateway_effect list" where
  "challenge_timer_fires s =
     (if gh_pending_challenge s \<noteq> None \<and> \<not> gh_authenticated s then refuse_auth ''challenge_timeout'' s else (s, []))"

definition auth_timeout_fires :: "gateway_handler \<Rightarrow> gateway_handler \<times> gateway_effect list" where
  "auth_timeout_fires s =
     (let s' = s\<lparr> gh_auth_timeout := None \<rparr> in if \<not> gh_authenticated s then refuse_auth ''auth_timeout'' s' else (s', []))"

definition admit :: "gateway_handler \<Rightarrow> gateway_handler \<times> gateway_effect list" where
  "admit s =
     (let s' = s\<lparr> gh_authenticated := True, gh_auth_timeout := None \<rparr>
      in (s', snd (send_message Auth_Success s') @ [Emit_Event Wh_Authenticated]))"

text \<open>\<open>True\<close>: the handler goes on to read the stored key.\<close>

definition response_begin :: "int \<Rightarrow> jstr option \<Rightarrow> gateway_handler \<Rightarrow> bool \<times> gateway_handler \<times> gateway_effect list" where
  "response_begin now signature s =
     (if \<not> truthy signature then (False, refuse_auth ''missing_signature'' s)
      else case gh_pending_challenge s of
        None \<Rightarrow> (False, refuse_auth ''no_pending_challenge'' s)
      | Some (_, expires_at) \<Rightarrow>
          if now > expires_at then (False, refuse_auth ''challenge_expired'' (s\<lparr> gh_pending_challenge := None \<rparr>))
          else (True, s, []))"

definition response_key :: "gateway_env \<Rightarrow> jstr \<Rightarrow> jstr option \<Rightarrow> gateway_handler \<Rightarrow> gateway_handler \<times> gateway_effect list" where
  "response_key ev signature public_key s =
     (if \<not> truthy public_key then refuse_auth ''not_paired'' s
      else case gh_pending_challenge s of
        None \<Rightarrow> (s, [Unhandled_Rejection])
      | Some (nonce, _) \<Rightarrow>
          if ge_verify ev (the public_key) nonce signature then admit (s\<lparr> gh_pending_challenge := None \<rparr>)
          else refuse_auth ''invalid_signature'' (s\<lparr> gh_pending_challenge := None \<rparr>))"

section \<open>Pairing\<close>

definition pair_begin :: "jstr option \<Rightarrow> jstr option \<Rightarrow> gateway_handler \<Rightarrow> bool \<times> gateway_handler \<times> gateway_effect list" where
  "pair_begin public_key secret s =
     (if \<not> truthy public_key \<or> \<not> truthy secret then (False, refuse_auth ''missing_fields'' s) else (True, s, []))"

definition pair_existing_key :: "jstr option \<Rightarrow> gateway_handler \<Rightarrow> bool \<times> gateway_handler \<times> gateway_effect list" where
  "pair_existing_key existing_key s =
     (if truthy existing_key then (False, refuse_auth ''already_paired'' s) else (True, s, []))"

definition pair_stored_secret ::
    "gateway_env \<Rightarrow> jstr \<Rightarrow> jstr option \<Rightarrow> gateway_handler \<Rightarrow> bool \<times> gateway_handler \<times> gateway_effect list" where
  "pair_stored_secret ev secret stored s =
     (if \<not> truthy stored then (False, refuse_auth ''secret_already_used'' s)
      else if ge_lower ev (the stored) \<noteq> ge_lower ev secret then (False, refuse_auth ''invalid_secret'' s)
      else (True, s, []))"

definition pair_created_at ::
    "gateway_env \<Rightarrow> int \<Rightarrow> jstr \<Rightarrow> int option \<Rightarrow> gateway_handler \<Rightarrow> bool \<times> gateway_handler \<times> gateway_effect list" where
  "pair_created_at ev now public_key created_at s =
     (if (case created_at of None \<Rightarrow> False | Some t \<Rightarrow> now - t > PAIRING_SECRET_TTL_MS)
      then (False, refuse_auth ''secret_expired'' s)
      else if ge_base64_length ev public_key \<noteq> 32 then (False, refuse_auth ''invalid_public_key'' s)
      else (True, s, []))"

section \<open>Messages that arrive\<close>

text \<open>What an authentication message starts: the value it reads first, or nothing.\<close>

datatype auth_start = Start_Pairing jstr jstr | Start_Response jstr

definition handle_auth_message ::
    "int \<Rightarrow> gateway_message \<Rightarrow> gateway_handler \<Rightarrow> auth_start option \<times> gateway_handler \<times> gateway_effect list" where
  "handle_auth_message now msg s =
     (if now - gh_last_auth_attempt s < AUTH_RATE_LIMIT_MS then (None, refuse_auth ''rate_limited'' s)
      else let s1 = s\<lparr> gh_last_auth_attempt := now \<rparr> in
        case msg of
          Auth_Pair public_key secret \<Rightarrow> (case pair_begin public_key secret s1 of (go, r) \<Rightarrow>
            (if go then Some (Start_Pairing (the public_key) (the secret)) else None, r))
        | Auth_Response signature \<Rightarrow> (case response_begin now signature s1 of (go, r) \<Rightarrow>
            (if go then Some (Start_Response (the signature)) else None, r))
        | _ \<Rightarrow> (None, s1, []))"

fun event_of :: "gateway_message \<Rightarrow> ws_handler_event option" where
  "event_of (Gm_Status d) = Some (Wh_Status d)"
| "event_of (Gm_Number_Report number capabilities) = Some (Wh_Number_Report number (orelse capabilities []))"
| "event_of (Gm_Incoming_Call c f) = Some (Wh_Incoming_Call c f)"
| "event_of (Gm_Call_State _ d) = Some (Wh_Call_State d)"
| "event_of (Gm_Incoming_Sms d) = Some (Wh_Incoming_Sms d)"
| "event_of (Gm_Sms_Result d) = Some (Wh_Sms_Result d)"
| "event_of (Gm_Dtmf_Received c d) = Some (Wh_Dtmf_Received c d)"
| "event_of (Gm_Dtmf_Result r b e) = Some (Wh_Dtmf_Result r b e)"
| "event_of (Gm_Ussd_Response r t b) = Some (Wh_Ussd_Response r t b)"
| "event_of (Gm_Ussd_Error r c t) = Some (Wh_Ussd_Error r c t)"
| "event_of (Gm_Missed_Calls cs) = Some (Wh_Missed_Calls cs)"
| "event_of (Gm_Buffered_Sms ms) = Some (Wh_Buffered_Sms ms)"
| "event_of (Gm_Delivery_Report r t) = Some (Wh_Delivery_Report r t)"
| "event_of _ = None"

definition dispatch_message :: "gateway_message \<Rightarrow> gateway_effect list" where
  "dispatch_message msg = To_Provider msg # (case event_of msg of None \<Rightarrow> [] | Some e \<Rightarrow> [Emit_Event e])"

fun is_auth_message :: "gateway_message \<Rightarrow> bool" where
  "is_auth_message (Auth_Pair _ _) = True"
| "is_auth_message (Auth_Response _) = True"
| "is_auth_message _ = False"

definition handle_frame ::
    "int \<Rightarrow> gateway_frame \<Rightarrow> gateway_handler \<Rightarrow> auth_start option \<times> gateway_handler \<times> gateway_effect list" where
  "handle_frame now frame s =
     (case frame of
        No_Json \<Rightarrow> (None, s, [])
      | No_Type \<Rightarrow> (None, s, [])
      | Frame msg \<Rightarrow>
          if is_auth_message msg then handle_auth_message now msg s
          else if \<not> gh_authenticated s then (None, s, [])
          else (None, s, dispatch_message msg))"

section \<open>Pings\<close>

definition handle_pong :: "gateway_handler \<Rightarrow> gateway_handler" where
  "handle_pong s = s\<lparr> gh_pong_received := True, gh_pong_timeout := None \<rparr>"

text \<open>\<open>pinged\<close>: the ping did not throw.\<close>

definition ping_tick :: "int \<Rightarrow> bool \<Rightarrow> gateway_handler \<Rightarrow> gateway_handler \<times> gateway_effect list" where
  "ping_tick now pinged s =
     (if \<not> is_socket_connected s then (s\<lparr> gh_ping_interval := None \<rparr>, [])
      else let s1 = s\<lparr> gh_ping_interval := Some (now + GATEWAY_PING_INTERVAL_MS),
                       gh_pong_timeout := (if gh_pong_received s then gh_pong_timeout s else Some (now + GATEWAY_PONG_TIMEOUT_MS)),
                       gh_pong_received := False \<rparr>
        in if pinged then (s1, [Ws_Ping (the (gh_ws s))]) else handle_disconnect s1)"

definition pong_timeout_fires :: "gateway_handler \<Rightarrow> gateway_handler \<times> gateway_effect list" where
  "pong_timeout_fires s =
     (case close_existing s of (s', es) \<Rightarrow> (s', es @ [Emit_Event Wh_Disconnected]))"

section \<open>Resetting\<close>

definition reset_pairing_begin :: "gateway_handler \<Rightarrow> gateway_handler \<times> gateway_effect list" where
  "reset_pairing_begin s = close_existing s"

end
