(* ===== verification/Modem_Gateway_System.thy ===== *)
theory Modem_Gateway_System
  imports Modem_Gateway
begin

text \<open>
  The signalling connection of a modem gateway as a step relation: sockets connect, send, close
  and fail in any order, segments that wait for the database are answered in any order, timers
  fire when they are due, and other services write the providers' rows. A query reads the rows at
  the moment its segment goes on. Sockets are numbered in the order they connect. Three fields are
  recorded for the statements only: the nonces issued, on which connection; what each admitted
  connection had proven; and the sockets in the order they connected, newest first.
\<close>

section \<open>Waiting segments\<close>

text \<open>
  What a connection showed when it was admitted: a signature of a nonce under the stored key, or
  the stored secret, with the age it had in milliseconds, if known.
\<close>

datatype gateway_proof =
    Signed jstr jstr jstr
  | Knew_Secret jstr jstr jstr "int option"

datatype gateway_wait =
    W_Initiate nat
  | W_Response nat jstr
  | W_Pair_Key nat jstr jstr
  | W_Pair_Secret nat jstr jstr
  | W_Pair_Created nat jstr jstr jstr
  | W_Store_Load nat jstr gateway_proof
  | W_Store_Save nat gateway_proof config
  | W_Clear_Load nat gateway_proof
  | W_Clear_Save nat gateway_proof config
  | W_Paired nat gateway_proof
  | W_Reset_Load jstr
  | W_Reset_Save jstr config
  | W_Reset_Secret_Load jstr
  | W_Reset_Secret_Save config

text \<open>What a segment leaves: the segment that waits next, the rows, the handler and the effects.\<close>

type_synonym resumed = "gateway_wait option \<times> provider_row table \<times> gateway_handler \<times> gateway_effect list"

definition goes_on :: "gateway_wait \<Rightarrow> provider_row table \<Rightarrow> bool \<times> gateway_handler \<times> gateway_effect list \<Rightarrow> resumed" where
  "goes_on w rows r = (case r of (go, h, es) \<Rightarrow> (if go then Some w else None, rows, h, es))"

definition stops :: "provider_row table \<Rightarrow> gateway_handler \<times> gateway_effect list \<Rightarrow> resumed" where
  "stops rows r = (case r of (h, es) \<Rightarrow> (None, rows, h, es))"

fun resume_wait ::
    "gateway_env \<Rightarrow> string \<Rightarrow> int \<Rightarrow> jstr \<Rightarrow> gateway_wait \<Rightarrow> provider_row table \<Rightarrow> gateway_handler \<Rightarrow> resumed" where
  "resume_wait ev i now nonce (W_Initiate k) rows h =
     stops rows (initiate_auth now nonce (get_public_key (load_config i rows)) h)"
| "resume_wait ev i now nonce (W_Response k sig) rows h =
     stops rows (response_key ev sig (get_public_key (load_config i rows)) h)"
| "resume_wait ev i now nonce (W_Pair_Key k pk secret) rows h =
     goes_on (W_Pair_Secret k pk secret) rows (pair_existing_key (get_public_key (load_config i rows)) h)"
| "resume_wait ev i now nonce (W_Pair_Secret k pk secret) rows h =
     (let stored = get_pairing_secret (load_config i rows)
      in goes_on (W_Pair_Created k pk secret (the stored)) rows (pair_stored_secret ev secret stored h))"
| "resume_wait ev i now nonce (W_Pair_Created k pk secret stored) rows h =
     (let created_at = get_pairing_secret_created_at ev (load_config i rows)
      in goes_on (W_Store_Load k pk (Knew_Secret pk secret stored (map_option (\<lambda>t. now - t) created_at))) rows
           (pair_created_at ev now pk created_at h))"
| "resume_wait ev i now nonce (W_Store_Load k pk p) rows h =
     (Some (W_Store_Save k p (set_public_key pk (load_config i rows))), rows, h, [])"
| "resume_wait ev i now nonce (W_Store_Save k p c) rows h = (Some (W_Clear_Load k p), save_config i c rows, h, [])"
| "resume_wait ev i now nonce (W_Clear_Load k p) rows h =
     (Some (W_Clear_Save k p (clear_pairing_secret (load_config i rows))), rows, h, [])"
| "resume_wait ev i now nonce (W_Clear_Save k p c) rows h = (Some (W_Paired k p), save_config i c rows, h, [])"
| "resume_wait ev i now nonce (W_Paired k p) rows h = stops rows (admit h)"
| "resume_wait ev i now nonce (W_Reset_Load secret) rows h =
     (Some (W_Reset_Save secret (delete_public_key (load_config i rows))), rows, h, [])"
| "resume_wait ev i now nonce (W_Reset_Save secret c) rows h = (Some (W_Reset_Secret_Load secret), save_config i c rows, h, [])"
| "resume_wait ev i now nonce (W_Reset_Secret_Load secret) rows h =
     (Some (W_Reset_Secret_Save (set_pairing_secret ev secret now (load_config i rows))), rows, h, [])"
| "resume_wait ev i now nonce (W_Reset_Secret_Save c) rows h = (None, save_config i c rows, h, [])"

fun first_wait :: "nat \<Rightarrow> auth_start option \<Rightarrow> gateway_wait list" where
  "first_wait k None = []"
| "first_wait k (Some (Start_Pairing pk secret)) = [W_Pair_Key k pk secret]"
| "first_wait k (Some (Start_Response sig)) = [W_Response k sig]"

section \<open>The step relation\<close>

record gateway_system =
  gs_handler :: gateway_handler
  gs_rows :: "provider_row table"
  gs_waits :: "gateway_wait list"
  gs_timers :: "int list"
  gs_now :: int
  gs_attached :: "nat list"
  gs_seen :: "nat list"
  gs_issued :: "(nat \<times> jstr) list"
  gs_proven :: "(nat \<times> gateway_proof) list"

datatype gateway_label =
    L_Connect nat
  | L_Frame nat gateway_frame
  | L_Closed nat
  | L_Error nat
  | L_Pong nat
  | L_Answer gateway_wait
  | L_Ping_Tick
  | L_Pong_Timeout
  | L_Auth_Timeout
  | L_Challenge_Timer int
  | L_Reset jstr
  | L_Rows
  | L_Time

text \<open>The challenge timers that effects set, the nonce an answered segment issues, and what it proves.\<close>

definition armed_timers :: "gateway_effect list \<Rightarrow> int list" where
  "armed_timers es = List.map_filter (\<lambda>e. case e of Arm_Challenge_Timer t \<Rightarrow> Some t | _ \<Rightarrow> None) es"

fun issues :: "gateway_wait \<Rightarrow> jstr \<Rightarrow> gateway_effect list \<Rightarrow> (nat \<times> jstr) list" where
  "issues (W_Initiate k) nonce es = (if armed_timers es = [] then [] else [(k, nonce)])"
| "issues _ nonce es = []"

fun proves :: "gateway_wait \<Rightarrow> string \<Rightarrow> provider_row table \<Rightarrow> gateway_handler \<Rightarrow> gateway_handler \<Rightarrow> (nat \<times> gateway_proof) list" where
  "proves (W_Paired k p) i rows h h' = [(k, p)]"
| "proves (W_Response k sig) i rows h h' =
     (if gh_authenticated h' \<and> gh_pending_challenge h \<noteq> None
      then [(k, Signed (the (get_public_key (load_config i rows))) (fst (the (gh_pending_challenge h))) sig)] else [])"
| "proves _ i rows h h' = []"

inductive gateway_step ::
    "gateway_env \<Rightarrow> string \<Rightarrow> gateway_system \<Rightarrow> gateway_label \<times> gateway_effect list \<Rightarrow> gateway_system \<Rightarrow> bool"
  for ev :: gateway_env and i :: string where
  gs_connect: "k \<notin> set (gs_seen S) \<Longrightarrow> handle_connection (gs_now S) k (gs_handler S) = (h, es) \<Longrightarrow>
     gateway_step ev i S (L_Connect k, es)
       (S\<lparr> gs_handler := h, gs_waits := W_Initiate k # gs_waits S, gs_attached := k # gs_attached S, gs_seen := k # gs_seen S \<rparr>)"
| gs_frame: "k \<in> set (gs_attached S) \<Longrightarrow> handle_frame (gs_now S) f (gs_handler S) = (start, h, es) \<Longrightarrow>
     gateway_step ev i S (L_Frame k f, es) (S\<lparr> gs_handler := h, gs_waits := first_wait k start @ gs_waits S \<rparr>)"
| gs_closed: "k \<in> set (gs_attached S) \<Longrightarrow> handle_disconnect (gs_handler S) = (h, es) \<Longrightarrow>
     gateway_step ev i S (L_Closed k, es)
       (S\<lparr> gs_handler := h\<lparr> gh_sockets := (gh_sockets h)(k := Socket_Closed) \<rparr>, gs_attached := removeAll k (gs_attached S) \<rparr>)"
| gs_error: "k \<in> set (gs_attached S) \<Longrightarrow> handle_disconnect (gs_handler S) = (h, es) \<Longrightarrow>
     gateway_step ev i S (L_Error k, es) (S\<lparr> gs_handler := h \<rparr>)"
| gs_pong: "k \<in> set (gs_attached S) \<Longrightarrow>
     gateway_step ev i S (L_Pong k, []) (S\<lparr> gs_handler := handle_pong (gs_handler S) \<rparr>)"
| gs_answer: "w \<in> set (gs_waits S) \<Longrightarrow> nonce \<notin> snd ` set (gs_issued S) \<Longrightarrow>
     resume_wait ev i (gs_now S) nonce w (gs_rows S) (gs_handler S) = (next_wait, rows, h, es) \<Longrightarrow>
     gateway_step ev i S (L_Answer w, es)
       (S\<lparr> gs_handler := h, gs_rows := rows, gs_waits := (case next_wait of None \<Rightarrow> [] | Some v \<Rightarrow> [v]) @ remove1 w (gs_waits S),
          gs_timers := armed_timers es @ gs_timers S, gs_issued := issues w nonce es @ gs_issued S,
          gs_proven := proves w i (gs_rows S) (gs_handler S) h @ gs_proven S \<rparr>)"
| gs_ping_tick: "gh_ping_interval (gs_handler S) = Some t \<Longrightarrow> t \<le> gs_now S \<Longrightarrow>
     ping_tick (gs_now S) pinged (gs_handler S) = (h, es) \<Longrightarrow>
     gateway_step ev i S (L_Ping_Tick, es) (S\<lparr> gs_handler := h \<rparr>)"
| gs_pong_timeout: "gh_pong_timeout (gs_handler S) = Some t \<Longrightarrow> t \<le> gs_now S \<Longrightarrow>
     pong_timeout_fires (gs_handler S) = (h, es) \<Longrightarrow>
     gateway_step ev i S (L_Pong_Timeout, es) (S\<lparr> gs_handler := h \<rparr>)"
| gs_auth_timeout: "gh_auth_timeout (gs_handler S) = Some t \<Longrightarrow> t \<le> gs_now S \<Longrightarrow>
     auth_timeout_fires (gs_handler S) = (h, es) \<Longrightarrow>
     gateway_step ev i S (L_Auth_Timeout, es) (S\<lparr> gs_handler := h \<rparr>)"
| gs_challenge_timer: "t \<in> set (gs_timers S) \<Longrightarrow> t \<le> gs_now S \<Longrightarrow> challenge_timer_fires (gs_handler S) = (h, es) \<Longrightarrow>
     gateway_step ev i S (L_Challenge_Timer t, es) (S\<lparr> gs_handler := h, gs_timers := remove1 t (gs_timers S) \<rparr>)"
| gs_reset: "reset_pairing_begin (gs_handler S) = (h, es) \<Longrightarrow>
     gateway_step ev i S (L_Reset secret, es) (S\<lparr> gs_handler := h, gs_waits := W_Reset_Load secret # gs_waits S \<rparr>)"
| gs_write_rows: "gateway_step ev i S (L_Rows, []) (S\<lparr> gs_rows := rows \<rparr>)"
| gs_time: "gs_now S \<le> t \<Longrightarrow> gateway_step ev i S (L_Time, []) (S\<lparr> gs_now := t \<rparr>)"

definition gateway_init :: "gateway_system \<Rightarrow> bool" where
  "gateway_init S \<longleftrightarrow> gs_handler S = new_gateway_handler \<and> gs_waits S = [] \<and> gs_timers S = [] \<and> gs_attached S = []
     \<and> gs_seen S = [] \<and> gs_issued S = [] \<and> gs_proven S = []"

text \<open>A run is calm when a gateway connects only after the earlier sockets are gone and nothing waits.\<close>

definition calm_gateway_step ::
    "gateway_env \<Rightarrow> string \<Rightarrow> gateway_system \<Rightarrow> gateway_label \<times> gateway_effect list \<Rightarrow> gateway_system \<Rightarrow> bool" where
  "calm_gateway_step ev i S l T \<longleftrightarrow> gateway_step ev i S l T
     \<and> (\<forall>k. fst l = L_Connect k \<longrightarrow> gs_attached S = [] \<and> gs_waits S = [])"

inductive_cases gateway_stepE: "gateway_step ev i S l T"

section \<open>What the operations keep\<close>

text \<open>No admission and no new challenge.\<close>

definition quiet_handler :: "gateway_handler \<Rightarrow> gateway_handler \<Rightarrow> bool" where
  "quiet_handler h h' \<longleftrightarrow> (gh_authenticated h' \<longrightarrow> gh_authenticated h)
     \<and> (gh_pending_challenge h' = None \<or> gh_pending_challenge h' = gh_pending_challenge h)"

text \<open>A connection that is not admitted is watched by the authentication timer.\<close>

definition watched :: "int \<Rightarrow> gateway_handler \<Rightarrow> bool" where
  "watched now h \<longleftrightarrow> (gh_ws h \<noteq> None \<and> \<not> gh_authenticated h \<longrightarrow>
     (\<exists>d. gh_auth_timeout h = Some d \<and> d \<le> now + AUTH_TIMEOUT_MS))"

lemma quiet_refl [simp]: "quiet_handler h h"
  by (simp add: quiet_handler_def)

lemma quiet_trans: "quiet_handler a b \<Longrightarrow> quiet_handler b c \<Longrightarrow> quiet_handler a c"
  by (auto simp: quiet_handler_def)

lemma close_existing_state:
  assumes "close_existing h = (h', es)"
  shows "gh_ws h' = None" "\<not> gh_authenticated h'" "gh_pending_challenge h' = None" "gh_auth_timeout h' = None"
    "gh_ping_interval h' = None" "gh_pong_timeout h' = None" "armed_timers es = []"
    "gh_sockets h' = (\<lambda>k. if gh_ws h = Some k \<and> gh_sockets h k = Socket_Open then Socket_Closing else gh_sockets h k)"
    "es = (case gh_ws h of None \<Rightarrow> [] | Some k \<Rightarrow> [Ws_Close k])"
  using assms by (auto simp: close_existing_def Let_def armed_timers_def fun_eq_iff split: option.splits)

lemma refuse_auth_state:
  assumes "refuse_auth reason h = (h', es)"
  shows "gh_ws h' = None" "\<not> gh_authenticated h'" "gh_pending_challenge h' = None"
    "armed_timers es = []" "quiet_handler x h'" "watched now h'"
    "To_Provider m \<notin> set es" "Unhandled_Rejection \<notin> set es"
    "gh_ws h = Some k \<Longrightarrow> gh_sockets h' k \<noteq> Socket_Open \<and> last es = Ws_Close k"
proof -
  obtain es' where c: "close_existing h = (h', es')" and e: "es = snd (send_message (Auth_Error reason) h) @ es'"
    using assms by (auto simp: refuse_auth_def split: prod.splits)
  note s = close_existing_state [OF c]
  show "gh_ws h' = None" "\<not> gh_authenticated h'" "gh_pending_challenge h' = None" by (rule s)+
  show "quiet_handler x h'" "watched now h'" using s(1-3) by (simp_all add: quiet_handler_def watched_def)
  show "armed_timers es = []" "To_Provider m \<notin> set es" "Unhandled_Rejection \<notin> set es"
    using s(7,9) by (auto simp: e send_message_def armed_timers_def split: option.splits)
  show "gh_sockets h' k \<noteq> Socket_Open \<and> last es = Ws_Close k" if "gh_ws h = Some k"
    using s(8,9) that by (auto simp: e)
qed

lemma handle_connection_state:
  assumes "handle_connection now k h = (h', es)"
  shows "gh_ws h' = Some k" "\<not> gh_authenticated h'" "gh_pending_challenge h' = None" "watched now h'" "quiet_handler x h'"
    "armed_timers es = []" "To_Provider m \<notin> set es"
  using assms by (auto simp: handle_connection_def close_existing_def Let_def start_gateway_pings_def watched_def
      quiet_handler_def armed_timers_def split: option.splits if_splits)

lemma handle_disconnect_state:
  assumes "handle_disconnect h = (h', es)"
  shows "gh_ws h' = None" "\<not> gh_authenticated h'" "gh_pending_challenge h' = None" "watched now h'" "quiet_handler x h'"
    "gh_sockets h' = gh_sockets h" "es = [Emit_Event Wh_Disconnected]"
  using assms by (auto simp: handle_disconnect_def watched_def quiet_handler_def)

lemma begin_state:
  "pair_begin pk secret h = (go, h', es) \<Longrightarrow> (if go then h' = h \<and> es = [] else \<exists>r. refuse_auth r h = (h', es))"
  "pair_existing_key key h = (go, h', es) \<Longrightarrow> (if go then h' = h \<and> es = [] else \<exists>r. refuse_auth r h = (h', es))"
  "pair_stored_secret ev s stored h = (go, h', es) \<Longrightarrow> (if go then h' = h \<and> es = [] else \<exists>r. refuse_auth r h = (h', es))"
  "pair_created_at ev now key' t h = (go, h', es) \<Longrightarrow> (if go then h' = h \<and> es = [] else \<exists>r. refuse_auth r h = (h', es))"
  "response_begin now sig h = (go, h', es) \<Longrightarrow> (if go then h' = h \<and> es = [] else \<exists>r g. refuse_auth r g = (h', es))"
  by (auto simp: pair_begin_def pair_existing_key_def pair_stored_secret_def pair_created_at_def response_begin_def
      split: if_splits option.splits prod.splits; blast)+

lemma handle_frame_state:
  assumes "handle_frame now f h = (start, h', es)"
  shows "h' = h \<or> (\<exists>t. h' = h\<lparr> gh_last_auth_attempt := t \<rparr>) \<or> (\<exists>r g. refuse_auth r g = (h', es))"
    and "To_Provider m \<in> set es \<Longrightarrow> gh_authenticated h \<and> f = Frame m \<and> h' = h \<and> start = None"
    and "armed_timers es = []"
proof -
  consider "start = None" "h' = h" "es = []"
    | m where "f = Frame m" "\<not> is_auth_message m" "gh_authenticated h" "start = None" "h' = h" "es = dispatch_message m"
    | r g where "refuse_auth r g = (h', es)"
    | t where "h' = h\<lparr> gh_last_auth_attempt := t \<rparr>" "es = []"
    using assms by (auto simp: handle_frame_def handle_auth_message_def Let_def
        split: gateway_frame.splits if_splits gateway_message.splits prod.splits dest!: begin_state)
  then show "h' = h \<or> (\<exists>t. h' = h\<lparr> gh_last_auth_attempt := t \<rparr>) \<or> (\<exists>r g. refuse_auth r g = (h', es))"
    and "To_Provider m \<in> set es \<Longrightarrow> gh_authenticated h \<and> f = Frame m \<and> h' = h \<and> start = None"
    and "armed_timers es = []"
    by (cases; auto simp: dispatch_message_def armed_timers_def refuse_auth_state split: option.splits dest: refuse_auth_state)+
qed

section \<open>Admissions\<close>

fun valid_proof :: "gateway_env \<Rightarrow> gateway_proof \<Rightarrow> bool" where
  "valid_proof ev (Signed key nonce sig) \<longleftrightarrow> key \<noteq> [] \<and> ge_verify ev key nonce sig"
| "valid_proof ev (Knew_Secret pk secret stored age) \<longleftrightarrow> stored \<noteq> [] \<and> ge_lower ev stored = ge_lower ev secret
     \<and> ge_base64_length ev pk = 32 \<and> (case age of None \<Rightarrow> True | Some a \<Rightarrow> a \<le> PAIRING_SECRET_TTL_MS)"

fun by_secret :: "gateway_proof \<Rightarrow> bool" where
  "by_secret (Signed _ _ _) = False"
| "by_secret (Knew_Secret _ _ _ _) = True"

fun wait_ok :: "gateway_env \<Rightarrow> gateway_wait \<Rightarrow> bool" where
  "wait_ok ev (W_Pair_Created k pk secret stored) \<longleftrightarrow> stored \<noteq> [] \<and> ge_lower ev stored = ge_lower ev secret"
| "wait_ok ev (W_Store_Load k pk p) \<longleftrightarrow> valid_proof ev p \<and> by_secret p"
| "wait_ok ev (W_Store_Save k p c) \<longleftrightarrow> valid_proof ev p \<and> by_secret p"
| "wait_ok ev (W_Clear_Load k p) \<longleftrightarrow> valid_proof ev p \<and> by_secret p"
| "wait_ok ev (W_Clear_Save k p c) \<longleftrightarrow> valid_proof ev p \<and> by_secret p"
| "wait_ok ev (W_Paired k p) \<longleftrightarrow> valid_proof ev p \<and> by_secret p"
| "wait_ok ev _ \<longleftrightarrow> True"

fun wait_socket :: "gateway_wait \<Rightarrow> nat option" where
  "wait_socket (W_Initiate k) = Some k"
| "wait_socket (W_Response k _) = Some k"
| "wait_socket (W_Pair_Key k _ _) = Some k"
| "wait_socket (W_Pair_Secret k _ _) = Some k"
| "wait_socket (W_Pair_Created k _ _ _) = Some k"
| "wait_socket (W_Store_Load k _ _) = Some k"
| "wait_socket (W_Store_Save k _ _) = Some k"
| "wait_socket (W_Clear_Load k _) = Some k"
| "wait_socket (W_Clear_Save k _ _) = Some k"
| "wait_socket (W_Paired k _) = Some k"
| "wait_socket _ = None"

lemma send_effects [simp]:
  "To_Provider m \<notin> set (snd (send_message r h))" "armed_timers (snd (send_message r h) @ es) = armed_timers es"
  by (simp_all add: send_message_def armed_timers_def)

lemma admit_state:
  "admit h = (h', es) \<Longrightarrow> gh_authenticated h' \<and> gh_ws h' = gh_ws h \<and> gh_pending_challenge h' = gh_pending_challenge h
     \<and> gh_sockets h' = gh_sockets h \<and> armed_timers es = [] \<and> To_Provider m \<notin> set es"
  by (auto simp: admit_def Let_def) (simp add: armed_timers_def)

lemma issue_challenge_state:
  "issue_challenge now nonce h = (h', es) \<Longrightarrow> h' = h\<lparr> gh_pending_challenge := Some (nonce, now + CHALLENGE_EXPIRY_MS) \<rparr>
     \<and> armed_timers es = [now + CHALLENGE_EXPIRY_MS] \<and> To_Provider m \<notin> set es"
  by (auto simp: issue_challenge_def Let_def) (simp add: armed_timers_def)

lemma truthy_some: "truthy x \<Longrightarrow> \<exists>t. x = Some t \<and> t \<noteq> []"
  by (cases x) auto

lemma stops_eq: "stops rows r = (nxt, rows', h, es) \<longleftrightarrow> nxt = None \<and> rows' = rows \<and> r = (h, es)"
  by (auto simp: stops_def split: prod.splits)

lemma response_key_cases:
  assumes "response_key ev sig key h = (h', es)"
  obtains r g where "refuse_auth r g = (h', es)"
    | "h' = h" "es = [Unhandled_Rejection]" "gh_pending_challenge h = None"
    | n t k where "gh_pending_challenge h = Some (n, t)" "key = Some k" "k \<noteq> []" "ge_verify ev k n sig"
        "admit (h\<lparr> gh_pending_challenge := None \<rparr>) = (h', es)"
proof (cases "truthy key")
  case True
  then obtain k where k: "key = Some k" "k \<noteq> []" using truthy_some by blast
  show ?thesis
  proof (cases "gh_pending_challenge h")
    case None
    then show ?thesis using assms True that(2) by (simp add: response_key_def)
  next
    case (Some c)
    then obtain n t where c: "gh_pending_challenge h = Some (n, t)" by (cases c) simp
    show ?thesis
    proof (cases "ge_verify ev k n sig")
      case True
      then show ?thesis using assms k c that(3) by (simp add: response_key_def)
    next
      case False
      then show ?thesis using assms k c that(1) [of "''invalid_signature''"] by (simp add: response_key_def)
    qed
  qed
next
  case False
  then show ?thesis using assms that(1) [of "''not_paired''" h] by (simp add: response_key_def)
qed

text \<open>The ways a segment ends: it leaves the handler alone, refuses, issues a challenge, or admits.\<close>

lemma resume_wait_cases:
  assumes "resume_wait ev i now nonce w rows h = (nxt, rows', h', es)"
  obtains (same) "h' = h" "armed_timers es = []" "\<And>m. To_Provider m \<notin> set es" "proves w i rows h h' = []"
    | (refused) r g where "refuse_auth r g = (h', es)" "nxt = None" "proves w i rows h h' = []"
    | (issued) k where "w = W_Initiate k" "issue_challenge now nonce h = (h', es)" "nxt = None"
    | (admitted) k p g where "proves w i rows h h' = [(k, p)]" "wait_ok ev w \<Longrightarrow> valid_proof ev p" "wait_socket w = Some k"
        "admit g = (h', es)" "g = h \<or> g = h\<lparr> gh_pending_challenge := None \<rparr>" "nxt = None"
        "\<And>key n sig. p = Signed key n sig \<Longrightarrow> wait_ok ev w \<Longrightarrow> w = W_Response k sig \<and> (\<exists>t. gh_pending_challenge h = Some (n, t))
           \<and> get_public_key (load_config i rows) = Some key"
proof -
  have no_timers: "armed_timers [] = []" by (simp add: armed_timers_def)
  have go: thesis if "goes_on v rows (b, h1, es1) = (nxt, rows', h', es)" "proves w i rows h h' = []"
    "if b then h1 = h \<and> es1 = [] else \<exists>r. refuse_auth r h = (h1, es1)" for v b h1 es1
    using that same refused no_timers by (cases b) (auto simp: goes_on_def)
  have quiet: thesis if "h' = h" "es = []" "proves w i rows h h' = []" using that same no_timers by simp
  show thesis
  proof (cases w)
    case (W_Initiate k)
    let ?key = "get_public_key (load_config i rows)"
    have r: "initiate_auth now nonce ?key h = (h', es)" "nxt = None"
      using assms W_Initiate by (simp_all add: stops_eq)
    show ?thesis
    proof (cases "truthy ?key")
      case True
      then show ?thesis using r issued [OF W_Initiate] by (simp add: initiate_auth_def)
    next
      case False
      then show ?thesis using r quiet W_Initiate by (simp add: initiate_auth_def)
    qed
  next
    case (W_Response k sig)
    let ?key = "get_public_key (load_config i rows)"
    have r: "response_key ev sig ?key h = (h', es)" "nxt = None" using assms W_Response by (simp_all add: stops_eq)
    show ?thesis
      using r(1)
    proof (cases rule: response_key_cases)
      case 1
      then show ?thesis using refused [OF 1 r(2)] refuse_auth_state(2) [OF 1] W_Response by simp
    next
      case 2
      then show ?thesis using same W_Response by (simp add: armed_timers_def List.map_filter_def)
    next
      case (3 n t key)
      show ?thesis
        by (rule admitted [of k "Signed key n sig", OF _ _ _ 3(5)]) (use 3 W_Response r(2) admit_state [OF 3(5)] in auto)
    qed
  next
    case (W_Paired k p)
    then show ?thesis using assms admitted [of k p h] by (simp add: stops_eq)
  next
    case (W_Pair_Key k pk secret)
    let ?r = "pair_existing_key (get_public_key (load_config i rows)) h"
    obtain b h1 es1 where r: "?r = (b, h1, es1)" by (cases ?r)
    then show ?thesis using assms W_Pair_Key go [OF _ _ begin_state(2) [OF r]] by simp
  next
    case (W_Pair_Secret k pk secret)
    let ?r = "pair_stored_secret ev secret (get_pairing_secret (load_config i rows)) h"
    obtain b h1 es1 where r: "?r = (b, h1, es1)" by (cases ?r)
    then show ?thesis using assms W_Pair_Secret go [OF _ _ begin_state(3) [OF r]] by (simp add: Let_def)
  next
    case (W_Pair_Created k pk secret stored)
    let ?r = "pair_created_at ev now pk (get_pairing_secret_created_at ev (load_config i rows)) h"
    obtain b h1 es1 where r: "?r = (b, h1, es1)" by (cases ?r)
    then show ?thesis using assms W_Pair_Created go [OF _ _ begin_state(4) [OF r]] by (simp add: Let_def)
  qed (use assms quiet in simp_all)
qed

lemma goes_on_eq: "goes_on v rows (b, h, es) = (Some u, rows', h', es') \<longleftrightarrow> b \<and> u = v \<and> rows' = rows \<and> h' = h \<and> es' = es"
  by (auto simp: goes_on_def)

lemma resume_wait_next:
  assumes "resume_wait ev i now nonce w rows h = (Some v, rows', h', es)" "wait_ok ev w"
  shows "wait_ok ev v \<and> wait_socket v = wait_socket w"
proof (cases w)
  case (W_Pair_Key k pk secret)
  then show ?thesis using assms by (cases "pair_existing_key (get_public_key (load_config i rows)) h") (simp add: goes_on_eq)
next
  case (W_Pair_Secret k pk secret)
  let ?stored = "get_pairing_secret (load_config i rows)"
  obtain b h1 es1 where r: "pair_stored_secret ev secret ?stored h = (b, h1, es1)" by (cases "pair_stored_secret ev secret ?stored h")
  moreover have "b" "v = W_Pair_Created k pk secret (the ?stored)" using assms(1) W_Pair_Secret r by (simp_all add: Let_def goes_on_eq)
  ultimately show ?thesis using W_Pair_Secret truthy_some [of ?stored] by (auto simp: pair_stored_secret_def split: if_splits)
next
  case (W_Pair_Created k pk secret stored)
  let ?t = "get_pairing_secret_created_at ev (load_config i rows)"
  obtain b h1 es1 where r: "pair_created_at ev now pk ?t h = (b, h1, es1)" by (cases "pair_created_at ev now pk ?t h")
  moreover have "b" "v = W_Store_Load k pk (Knew_Secret pk secret stored (map_option (\<lambda>t. now - t) ?t))"
    using assms(1) W_Pair_Created r by (simp_all add: Let_def goes_on_eq)
  ultimately show ?thesis using W_Pair_Created assms(2) by (auto simp: pair_created_at_def split: if_splits option.splits)
qed (use assms in \<open>auto simp: stops_eq\<close>)

text \<open>In every state: what was proven is valid, a nonce is issued once, and the timer watches.\<close>

definition gateway_ok :: "gateway_env \<Rightarrow> gateway_system \<Rightarrow> bool" where
  "gateway_ok ev S \<longleftrightarrow> watched (gs_now S) (gs_handler S)
     \<and> list_all (wait_ok ev) (gs_waits S) \<and> list_all (\<lambda>(k, p). valid_proof ev p) (gs_proven S)
     \<and> (gh_authenticated (gs_handler S) \<longrightarrow> gs_proven S \<noteq> []) \<and> distinct (map snd (gs_issued S))"

lemma refused_ok:
  assumes "refuse_auth r g = (h', es)"
  shows "watched now h'" "\<not> gh_authenticated h'" "gh_pending_challenge h' = None"
  using refuse_auth_state [OF assms] by simp_all

lemma timer_state:
  "challenge_timer_fires h = (h', es) \<Longrightarrow> h' = h \<or> (\<exists>r g. refuse_auth r g = (h', es))"
  "auth_timeout_fires h = (h', es) \<Longrightarrow> h' = h\<lparr> gh_auth_timeout := None \<rparr> \<and> gh_authenticated h \<or> (\<exists>r g. refuse_auth r g = (h', es))"
  by (auto simp: challenge_timer_fires_def auth_timeout_fires_def Let_def split: if_splits)

lemma ping_tick_state:
  assumes "ping_tick now pinged h = (h', es)"
  shows "gh_authenticated h' \<longrightarrow> gh_authenticated h" "gh_pending_challenge h' = None \<or> gh_pending_challenge h' = gh_pending_challenge h"
    "watched now h \<Longrightarrow> watched now h'" "To_Provider m \<notin> set es" "gh_sockets h' = gh_sockets h"
  using assms by (auto simp: ping_tick_def Let_def handle_disconnect_def watched_def split: if_splits)

lemma pong_timeout_state:
  assumes "pong_timeout_fires h = (h', es)"
  shows "\<not> gh_authenticated h'" "gh_pending_challenge h' = None" "watched now h'" "To_Provider m \<notin> set es"
  using assms close_existing_state [of h] by (auto simp: pong_timeout_fires_def watched_def split: prod.splits option.splits)

lemma handle_pong_state [simp]:
  "gh_authenticated (handle_pong h) = gh_authenticated h" "gh_pending_challenge (handle_pong h) = gh_pending_challenge h"
  "watched now (handle_pong h) = watched now h"
  by (simp_all add: handle_pong_def watched_def)

lemma watched_later: "watched now h \<Longrightarrow> now \<le> t \<Longrightarrow> watched t h"
  by (force simp: watched_def)

lemma answer_ok:
  assumes "resume_wait ev i (gs_now S) nonce w (gs_rows S) (gs_handler S) = (nxt, rows, h, es)" "gateway_ok ev S"
    "w \<in> set (gs_waits S)"
  shows "watched (gs_now S) h" "list_all (\<lambda>(k, p). valid_proof ev p) (proves w i (gs_rows S) (gs_handler S) h)"
    "gh_authenticated h \<longrightarrow> proves w i (gs_rows S) (gs_handler S) h @ gs_proven S \<noteq> []"
proof -
  have w: "wait_ok ev w" using assms(2,3) by (auto simp: gateway_ok_def list_all_iff)
  have g: "watched (gs_now S) (gs_handler S)" "gh_authenticated (gs_handler S) \<longrightarrow> gs_proven S \<noteq> []"
    using assms(2) by (simp_all add: gateway_ok_def)
  have "watched (gs_now S) h \<and> list_all (\<lambda>(k, p). valid_proof ev p) (proves w i (gs_rows S) (gs_handler S) h)
      \<and> (gh_authenticated h \<longrightarrow> proves w i (gs_rows S) (gs_handler S) h @ gs_proven S \<noteq> [])"
    using assms(1)
  proof (cases rule: resume_wait_cases)
    case same
    then show ?thesis using g by simp
  next
    case (refused r g)
    then show ?thesis using refused_ok [OF refused(1)] by simp
  next
    case (issued k)
    then show ?thesis using g issue_challenge_state [OF issued(2)] by (auto simp: watched_def)
  next
    case (admitted k p g')
    then show ?thesis using admit_state [OF admitted(4)] w by (simp add: watched_def)
  qed
  then show "watched (gs_now S) h" "list_all (\<lambda>(k, p). valid_proof ev p) (proves w i (gs_rows S) (gs_handler S) h)"
    "gh_authenticated h \<longrightarrow> proves w i (gs_rows S) (gs_handler S) h @ gs_proven S \<noteq> []"
    by blast+
qed

lemma issued_distinct:
  assumes "distinct (map snd issued)" "nonce \<notin> snd ` set issued"
  shows "distinct (map snd (issues w nonce es @ issued))"
  using assms by (cases w) auto

lemma gateway_step_ok:
  assumes "gateway_ok ev S" "gateway_step ev i S l T"
  shows "gateway_ok ev T"
proof -
  have ok: "watched (gs_now S) (gs_handler S)" "list_all (wait_ok ev) (gs_waits S)" "list_all (\<lambda>(k, p). valid_proof ev p) (gs_proven S)"
    "gh_authenticated (gs_handler S) \<Longrightarrow> gs_proven S \<noteq> []" "distinct (map snd (gs_issued S))"
    using assms(1) by (simp_all add: gateway_ok_def)
  from assms(2) show ?thesis
  proof (cases rule: gateway_step.cases)
    case (gs_connect k h es)
    then show ?thesis using ok handle_connection_state [OF gs_connect(4)] by (simp add: gateway_ok_def)
  next
    case (gs_frame k f start h es)
    have "list_all (wait_ok ev) (first_wait k start)"
      by (cases start rule: option.exhaust) (simp, rename_tac a, case_tac a, simp_all)
    moreover have "watched (gs_now S) h" "gh_authenticated h \<longrightarrow> gh_authenticated (gs_handler S)"
      using handle_frame_state(1) [OF gs_frame(4)] ok(1) refused_ok by (auto simp: watched_def)
    ultimately show ?thesis using ok gs_frame(2) by (auto simp: gateway_ok_def)
  next
    case (gs_closed k h es)
    then show ?thesis using ok handle_disconnect_state [OF gs_closed(4)] by (simp add: gateway_ok_def watched_def)
  next
    case (gs_error k h es)
    then show ?thesis using ok handle_disconnect_state [OF gs_error(4)] by (simp add: gateway_ok_def)
  next
    case (gs_pong k)
    then show ?thesis using ok by (simp add: gateway_ok_def)
  next
    case (gs_answer w nonce nxt rows h es)
    note a = answer_ok [OF gs_answer(5) assms(1) gs_answer(3)]
    have "wait_ok ev w" using ok(2) gs_answer(3) by (simp add: list_all_iff)
    then have "list_all (wait_ok ev) (case nxt of None \<Rightarrow> [] | Some v \<Rightarrow> [v])"
      using resume_wait_next [of ev i _ nonce w] gs_answer(5) by (auto split: option.splits)
    moreover have "list_all (wait_ok ev) (remove1 w (gs_waits S))"
      using ok(2) by (auto simp: list_all_iff dest: notin_set_remove1)
    ultimately show ?thesis using a ok issued_distinct [OF ok(5) gs_answer(4)] gs_answer(2)
      by (auto simp: gateway_ok_def)
  next
    case (gs_ping_tick t pinged h es)
    then show ?thesis using ok ping_tick_state(1,3) [OF gs_ping_tick(5)] by (auto simp: gateway_ok_def)
  next
    case (gs_pong_timeout t h es)
    then show ?thesis using ok pong_timeout_state [OF gs_pong_timeout(5)] by (auto simp: gateway_ok_def)
  next
    case (gs_auth_timeout t h es)
    then have "watched (gs_now S) h \<and> (gh_authenticated h \<longrightarrow> gh_authenticated (gs_handler S))"
      using timer_state(2) [OF gs_auth_timeout(5)] refused_ok by (auto simp: watched_def)
    then show ?thesis using ok gs_auth_timeout(2) by (auto simp: gateway_ok_def)
  next
    case (gs_challenge_timer t h es)
    then have "watched (gs_now S) h \<and> (gh_authenticated h \<longrightarrow> gh_authenticated (gs_handler S))"
      using timer_state(1) [OF gs_challenge_timer(5)] ok(1) refused_ok by auto
    then show ?thesis using ok gs_challenge_timer(2) by (auto simp: gateway_ok_def)
  next
    case (gs_reset h es secret)
    then show ?thesis using ok close_existing_state [of "gs_handler S"] by (auto simp: gateway_ok_def reset_pairing_begin_def watched_def)
  next
    case (gs_write_rows rows)
    then show ?thesis using ok by (simp add: gateway_ok_def)
  next
    case (gs_time t)
    then show ?thesis using ok watched_later by (auto simp: gateway_ok_def)
  qed
qed

lemma gateway_init_ok: "gateway_init S \<Longrightarrow> gateway_ok ev S"
  by (simp add: gateway_init_def gateway_ok_def new_gateway_handler_def watched_def)

interpretation gateway: invariant_system gateway_init "gateway_step ev i" "gateway_ok ev" for ev i
  by unfold_locales (fact gateway_init_ok gateway_step_ok)+

text \<open>In a calm run everything that lives belongs to the newest connection.\<close>

definition newest :: "gateway_system \<Rightarrow> nat \<Rightarrow> bool" where
  "newest S k \<longleftrightarrow> (case gs_seen S of [] \<Rightarrow> False | j # _ \<Rightarrow> k = j)"

definition calm_ok :: "gateway_system \<Rightarrow> bool" where
  "calm_ok S \<longleftrightarrow> (\<forall>k \<in> set (gs_attached S). newest S k)
     \<and> (\<forall>w \<in> set (gs_waits S). \<forall>k. wait_socket w = Some k \<longrightarrow> newest S k)
     \<and> (gh_authenticated (gs_handler S) \<longrightarrow> (\<exists>k. newest S k \<and> k \<in> fst ` set (gs_proven S)))
     \<and> (\<forall>n t. gh_pending_challenge (gs_handler S) = Some (n, t) \<longrightarrow> (\<exists>k. newest S k \<and> (k, n) \<in> set (gs_issued S)))
     \<and> (\<forall>k key n sig. (k, Signed key n sig) \<in> set (gs_proven S) \<longrightarrow> (k, n) \<in> set (gs_issued S))"

lemma newest_unique: "newest S j \<Longrightarrow> newest S k \<Longrightarrow> j = k"
  by (auto simp: newest_def split: list.splits)

lemma newest_cong: "gs_seen T = gs_seen S \<Longrightarrow> newest T = newest S"
  by (simp add: newest_def fun_eq_iff)

text \<open>A step that connects nothing keeps it, when the handler is not admitted and not challenged.\<close>

lemma calm_intro:
  assumes "calm_ok S" "gs_seen T = gs_seen S" "set (gs_attached T) \<subseteq> set (gs_attached S)"
    and "\<And>w k. w \<in> set (gs_waits T) \<Longrightarrow> wait_socket w = Some k \<Longrightarrow> newest S k"
    and "gh_authenticated (gs_handler T) \<Longrightarrow> \<exists>k. newest S k \<and> k \<in> fst ` set (gs_proven T)"
    and "\<And>n t. gh_pending_challenge (gs_handler T) = Some (n, t) \<Longrightarrow> \<exists>k. newest S k \<and> (k, n) \<in> set (gs_issued T)"
    and "\<And>k key n sig. (k, Signed key n sig) \<in> set (gs_proven T) \<Longrightarrow> (k, n) \<in> set (gs_issued T)"
  shows "calm_ok T"
  unfolding calm_ok_def newest_cong [OF assms(2)]
proof (intro conjI allI impI ballI)
  show "newest S k" if "k \<in> set (gs_attached T)" for k using assms(1,3) that unfolding calm_ok_def by blast
qed (fact assms(4-7))+

lemma calm_kept:
  assumes "calm_ok S" "gs_seen T = gs_seen S" "quiet_handler (gs_handler S) (gs_handler T)"
    and "set (gs_attached T) \<subseteq> set (gs_attached S)"
    and "\<And>w k. w \<in> set (gs_waits T) \<Longrightarrow> wait_socket w = Some k \<Longrightarrow> newest S k"
    and "set (gs_issued S) \<subseteq> set (gs_issued T)" "gs_proven T = gs_proven S"
  shows "calm_ok T"
proof (rule calm_intro [OF assms(1,2,4,5)])
  have c: "gh_authenticated (gs_handler S) \<longrightarrow> (\<exists>k. newest S k \<and> k \<in> fst ` set (gs_proven S))"
      "\<And>n t. gh_pending_challenge (gs_handler S) = Some (n, t) \<Longrightarrow> \<exists>k. newest S k \<and> (k, n) \<in> set (gs_issued S)"
      "\<And>k key n sig. (k, Signed key n sig) \<in> set (gs_proven S) \<Longrightarrow> (k, n) \<in> set (gs_issued S)"
    using assms(1) unfolding calm_ok_def by blast+
  show "\<exists>k. newest S k \<and> k \<in> fst ` set (gs_proven T)" if "gh_authenticated (gs_handler T)"
    using c(1) assms(3,7) that by (simp add: quiet_handler_def)
  show "\<exists>k. newest S k \<and> (k, n) \<in> set (gs_issued T)" if "gh_pending_challenge (gs_handler T) = Some (n, t)" for n t
    using c(2) [of n t] assms(3,6) that by (auto simp: quiet_handler_def)
  show "(k, n) \<in> set (gs_issued T)" if "(k, Signed key n sig) \<in> set (gs_proven T)" for k key n sig
    using c(3) [of k key n sig] assms(6,7) that by auto
qed

lemma frame_quiet:
  assumes "handle_frame now f h = (start, h', es)"
  shows "quiet_handler h h'"
  using handle_frame_state(1) [OF assms] refused_ok by (auto simp: quiet_handler_def)

lemma first_wait_socket: "w \<in> set (first_wait k start) \<Longrightarrow> wait_socket w = Some k"
  by (cases start rule: option.exhaust) (simp, rename_tac a, case_tac a, simp_all)

lemma calm_step_ok:
  assumes "calm_ok S \<and> gateway_ok ev S" "calm_gateway_step ev i S l T"
  shows "calm_ok T \<and> gateway_ok ev T"
proof
  have step: "gateway_step ev i S l T" and calm: "\<And>k. fst l = L_Connect k \<Longrightarrow> gs_attached S = [] \<and> gs_waits S = []"
    using assms(2) by (auto simp: calm_gateway_step_def)
  have c: "calm_ok S" and g: "gateway_ok ev S" using assms(1) by blast+
  show "gateway_ok ev T" by (rule gateway_step_ok [OF g step])
  have waits: "newest S k" if "w \<in> set (gs_waits S)" "wait_socket w = Some k" for w k
    using c that by (auto simp: calm_ok_def)
  have signed: "(k, n) \<in> set (gs_issued S)" if "(k, Signed key n sig) \<in> set (gs_proven S)" for k key n sig
    using c that unfolding calm_ok_def by blast
  have admitted_before: "\<exists>k. newest S k \<and> k \<in> fst ` set (gs_proven S)" if "gh_authenticated (gs_handler S)"
    using c that unfolding calm_ok_def by blast
  have challenged: "\<exists>k. newest S k \<and> (k, n) \<in> set (gs_issued S)" if "gh_pending_challenge (gs_handler S) = Some (n, t)" for n t
    using c that unfolding calm_ok_def by blast
  from step show "calm_ok T"
  proof (cases rule: gateway_step.cases)
    case (gs_connect k h es)
    then have "gs_attached S = []" "gs_waits S = []" using calm by auto
    then show ?thesis using gs_connect c handle_connection_state [OF gs_connect(4)] by (simp add: calm_ok_def newest_def)
  next
    case (gs_frame k f start h es)
    have "newest S k" using c gs_frame(3) by (simp add: calm_ok_def)
    then show ?thesis using gs_frame waits first_wait_socket [of _ k start] frame_quiet [OF gs_frame(4)]
      by (intro calm_kept [OF c]) auto
  next
    case (gs_closed k h es)
    then show ?thesis using waits handle_disconnect_state(2,3) [OF gs_closed(4)]
      by (intro calm_kept [OF c]) (auto simp: quiet_handler_def)
  next
    case (gs_error k h es)
    then show ?thesis using waits handle_disconnect_state(5) [OF gs_error(4)] by (intro calm_kept [OF c]) auto
  next
    case (gs_pong k)
    then show ?thesis using waits by (intro calm_kept [OF c]) (auto simp: quiet_handler_def)
  next
    case (gs_answer w nonce nxt rows h es)
    have ok: "wait_ok ev w" using g gs_answer(3) by (auto simp: gateway_ok_def list_all_iff)
    have next_waits: "newest S k" if "v \<in> set (gs_waits T)" "wait_socket v = Some k" for v k
    proof -
      have "v \<in> set ((case nxt of None \<Rightarrow> [] | Some u \<Rightarrow> [u]) @ remove1 w (gs_waits S))" using that(1) gs_answer(2) by simp
      then consider "v \<in> set (gs_waits S)" | "nxt = Some v" by (cases nxt) (auto dest: subsetD [OF set_remove1_subset])
      then show ?thesis
      proof cases
        case 1
        then show ?thesis using waits that(2) by blast
      next
        case 2
        show ?thesis using resume_wait_next [OF gs_answer(5) [unfolded 2] ok] waits [OF gs_answer(3)] that(2) by simp
      qed
    qed
    show ?thesis
      using gs_answer(5)
    proof (cases rule: resume_wait_cases)
      case same
      then show ?thesis using gs_answer(2) next_waits by (intro calm_kept [OF c]) auto
    next
      case (refused r g)
      then show ?thesis using gs_answer(2) next_waits refuse_auth_state(5) [OF refused(1)] by (intro calm_kept [OF c]) auto
    next
      case (issued k)
      have k: "newest S k" using waits [OF gs_answer(3)] issued(1) by simp
      note h = issue_challenge_state [OF issued(2)]
      show ?thesis
      proof (rule calm_intro [OF c _ _ next_waits])
        show "\<exists>k. newest S k \<and> k \<in> fst ` set (gs_proven T)" if "gh_authenticated (gs_handler T)"
          using that admitted_before gs_answer(2) h issued(1) by simp
        show "\<exists>k. newest S k \<and> (k, n) \<in> set (gs_issued T)" if "gh_pending_challenge (gs_handler T) = Some (n, t)" for n t
          using that k gs_answer(2) h issued(1) by simp blast
        show "(j, n) \<in> set (gs_issued T)" if "(j, Signed key n sig) \<in> set (gs_proven T)" for j key n sig
          using that signed [of j key n sig] gs_answer(2) issued(1) by simp
      qed (use gs_answer(2) in auto)
    next
      case (admitted k p g')
      have k: "newest S k" using waits [OF gs_answer(3) admitted(3)] .
      have new: "(k, n) \<in> set (gs_issued S)" if "p = Signed key n sig" for key n sig
        using admitted(7) [OF that ok] challenged [of n] k newest_unique by blast
      note h = admit_state [OF admitted(4)]
      show ?thesis
      proof (rule calm_intro [OF c _ _ next_waits])
        show "\<exists>k. newest S k \<and> k \<in> fst ` set (gs_proven T)"
          using k gs_answer(2) admitted(1) by auto
        show "\<exists>k. newest S k \<and> (k, n) \<in> set (gs_issued T)" if "gh_pending_challenge (gs_handler T) = Some (n, t)" for n t
          using that challenged [of n t] gs_answer(2) h admitted(5) by auto
        show "(j, n) \<in> set (gs_issued T)" if "(j, Signed key n sig) \<in> set (gs_proven T)" for j key n sig
          using that new [of key n sig] signed [of j key n sig] gs_answer(2) admitted(1) by auto
      qed (use gs_answer(2) in auto)
    qed
  next
    case (gs_ping_tick t pinged h es)
    then show ?thesis using waits ping_tick_state(1,2) [OF gs_ping_tick(5)] by (intro calm_kept [OF c]) (auto simp: quiet_handler_def)
  next
    case (gs_pong_timeout t h es)
    then show ?thesis using waits pong_timeout_state(1,2) [OF gs_pong_timeout(5)] by (intro calm_kept [OF c]) (auto simp: quiet_handler_def)
  next
    case (gs_auth_timeout t h es)
    then show ?thesis using waits timer_state(2) [OF gs_auth_timeout(5)] refused_ok
      by (intro calm_kept [OF c]) (auto simp: quiet_handler_def)
  next
    case (gs_challenge_timer t h es)
    then show ?thesis using waits timer_state(1) [OF gs_challenge_timer(5)] refused_ok
      by (intro calm_kept [OF c]) (auto simp: quiet_handler_def)
  next
    case (gs_reset h es secret)
    then show ?thesis using waits close_existing_state(2,3) [of "gs_handler S" h es]
      by (intro calm_kept [OF c]) (auto simp: quiet_handler_def reset_pairing_begin_def)
  next
    case (gs_write_rows rows)
    then show ?thesis using waits by (intro calm_kept [OF c]) auto
  next
    case (gs_time t)
    then show ?thesis using waits by (intro calm_kept [OF c]) auto
  qed
qed

end
