(* ===== verification/Modem_Gateway_Provider.thy ===== *)
theory Modem_Gateway_Provider
  imports Modem_Gateway_System
begin

text \<open>
  The driver of a modem gateway: \<^verbatim>\<open>src/providers/modem-gateway-telephony-provider.ts\<close>. Its
  requests go through the handler of \<^verbatim>\<open>Modem_Gateway\<close>, which is \<^const>\<open>None\<close> until the server attaches
  one; a promise it gives out is a pending operation with the time its timer is due, and is
  settled by an effect. Generated identifiers and the clock are arguments.
\<close>

section \<open>State\<close>

definition CALL_TIMEOUT_MS :: int where "CALL_TIMEOUT_MS = 30000"
definition SMS_TIMEOUT_MS :: int where "SMS_TIMEOUT_MS = 60000"

datatype gateway_error =
    Gateway_Unavailable string
  | Gateway_Timeout string int
  | Gateway_Call_Failed call_state "jstr option"

record pending_operation =
  po_operation :: string
  po_timeout_ms :: int
  po_timer :: int

text \<open>A response carries nothing, or the result of a message.\<close>

type_synonym gateway_outcome = "gateway_error + sms_result option"

record gateway_provider =
  gp_reported_number :: "jstr option"
  gp_reported_capabilities :: "number_capability set"
  gp_pending :: "(string, pending_operation) jmap"
  gp_modem_status :: "status_data option"

definition new_gateway_provider :: gateway_provider where
  "new_gateway_provider = \<lparr> gp_reported_number = None, gp_reported_capabilities = {}, gp_pending = [], gp_modem_status = None \<rparr>"

datatype provider_effect =
    Through_Ws gateway_effect
  | Settle string gateway_outcome
  | Emit_Telephony telephony_event
  | Number_Report_Callback

section \<open>Pending operations\<close>

definition ensure_connected :: "gateway_handler option \<Rightarrow> bool" where
  "ensure_connected h = (case h of None \<Rightarrow> False | Some s \<Rightarrow> is_connected s)"

definition wait_for_response :: "string \<Rightarrow> int \<Rightarrow> string \<Rightarrow> int \<Rightarrow> gateway_provider \<Rightarrow> gateway_provider" where
  "wait_for_response request_id timeout_ms operation now p =
     p\<lparr> gp_pending := jm_set request_id \<lparr> po_operation = operation, po_timeout_ms = timeout_ms, po_timer = now + timeout_ms \<rparr>
         (gp_pending p) \<rparr>"

definition settle_request :: "string \<Rightarrow> gateway_outcome \<Rightarrow> gateway_provider \<Rightarrow> gateway_provider \<times> provider_effect list" where
  "settle_request request_id outcome p =
     (case jm_get (gp_pending p) request_id of
        None \<Rightarrow> (p, [])
      | Some _ \<Rightarrow> (p\<lparr> gp_pending := jm_delete request_id (gp_pending p) \<rparr>, [Settle request_id outcome]))"

definition resolve_request :: "string \<Rightarrow> sms_result option \<Rightarrow> gateway_provider \<Rightarrow> gateway_provider \<times> provider_effect list" where
  "resolve_request request_id v = settle_request request_id (Inr v)"

definition reject_request :: "string \<Rightarrow> gateway_error \<Rightarrow> gateway_provider \<Rightarrow> gateway_provider \<times> provider_effect list" where
  "reject_request request_id e = settle_request request_id (Inl e)"

definition request_timeout_fires :: "string \<Rightarrow> gateway_provider \<Rightarrow> gateway_provider \<times> provider_effect list" where
  "request_timeout_fires request_id p =
     (case jm_get (gp_pending p) request_id of
        None \<Rightarrow> (p, [])
      | Some op \<Rightarrow> (p\<lparr> gp_pending := jm_delete request_id (gp_pending p) \<rparr>,
          [Settle request_id (Inl (Gateway_Timeout (po_operation op) (po_timeout_ms op)))]))"

definition reject_all_pending :: "gateway_error \<Rightarrow> gateway_provider \<Rightarrow> gateway_provider \<times> provider_effect list" where
  "reject_all_pending e p =
     (p\<lparr> gp_pending := [] \<rparr>, map (\<lambda>request_id. Settle request_id (Inl e)) (jm_keys (gp_pending p)))"

section \<open>Operations\<close>

definition through :: "gateway_request \<Rightarrow> gateway_handler option \<Rightarrow> provider_effect list" where
  "through msg h = (case h of None \<Rightarrow> [] | Some s \<Rightarrow> map Through_Ws (snd (send_message msg s)))"

text \<open>A request that waits for a response, or the error that is thrown at once.\<close>

definition gateway_request_begin ::
    "gateway_request \<Rightarrow> string \<Rightarrow> int \<Rightarrow> string \<Rightarrow> int \<Rightarrow> gateway_handler option \<Rightarrow> gateway_provider
      \<Rightarrow> gateway_error option \<times> gateway_provider \<times> provider_effect list" where
  "gateway_request_begin msg request_id timeout_ms operation now h p =
     (if \<not> ensure_connected h then (Some (Gateway_Unavailable ''Modem gateway is not connected''), p, [])
      else (None, wait_for_response request_id timeout_ms operation now p, through msg h))"

definition gateway_make_call ::
    "string \<Rightarrow> string \<Rightarrow> jstr \<Rightarrow> jstr option \<Rightarrow> int \<Rightarrow> gateway_handler option \<Rightarrow> gateway_provider
      \<Rightarrow> gateway_error option \<times> gateway_provider \<times> provider_effect list" where
  "gateway_make_call request_id call_id to audio_url now h p =
     gateway_request_begin (Gr_Make_Call request_id call_id to (orelse audio_url [])) request_id CALL_TIMEOUT_MS ''make_call'' now h p"

definition gateway_answer_call ::
    "string \<Rightarrow> string \<Rightarrow> jstr option \<Rightarrow> int \<Rightarrow> gateway_handler option \<Rightarrow> gateway_provider
      \<Rightarrow> gateway_error option \<times> gateway_provider \<times> provider_effect list" where
  "gateway_answer_call request_id call_id audio_ws_url now h p =
     gateway_request_begin (Gr_Answer_Call request_id call_id (orelse audio_ws_url [])) request_id CALL_TIMEOUT_MS ''answer_call'' now h p"

definition gateway_send_sms ::
    "string \<Rightarrow> jstr \<Rightarrow> jstr \<Rightarrow> jstr \<Rightarrow> int \<Rightarrow> gateway_handler option \<Rightarrow> gateway_provider
      \<Rightarrow> gateway_error option \<times> gateway_provider \<times> provider_effect list" where
  "gateway_send_sms request_id from to body now h p =
     gateway_request_begin (Gr_Send_Sms request_id from to body) request_id SMS_TIMEOUT_MS ''send_sms'' now h p"

definition gateway_end_call :: "string \<Rightarrow> gateway_handler option \<Rightarrow> gateway_error option \<times> provider_effect list" where
  "gateway_end_call call_id h =
     (if \<not> ensure_connected h then (Some (Gateway_Unavailable ''Modem gateway is not connected''), [])
      else (None, through (Gr_End_Call call_id) h))"

definition ack_incoming_sms :: "string \<Rightarrow> gateway_handler option \<Rightarrow> provider_effect list" where
  "ack_incoming_sms message_id h = (if message_id = '''' then [] else through (Gr_Sms_Ack message_id) h)"

definition gateway_list_numbers :: "gateway_provider \<Rightarrow> provider_number list" where
  "gateway_list_numbers p =
     (if \<not> truthy (gp_reported_number p) then []
      else [\<lparr> pn_number = the (gp_reported_number p), pn_capabilities = gp_reported_capabilities p \<rparr>])"

text \<open>Stopping also closes the connection.\<close>

definition gateway_stop ::
    "gateway_handler option \<Rightarrow> gateway_provider \<Rightarrow> gateway_handler option \<times> gateway_provider \<times> provider_effect list" where
  "gateway_stop h p =
     (case reject_all_pending (Gateway_Unavailable ''Provider is stopping'') p of (p', es) \<Rightarrow>
        (case h of
           None \<Rightarrow> (None, p', es)
         | Some s \<Rightarrow> (case close_existing s of (s', es') \<Rightarrow> (Some s', p', es @ map Through_Ws es'))))"

text \<open>What the server attaches to the handler: the callback of a disconnection.\<close>

definition on_gateway_disconnect :: "gateway_provider \<Rightarrow> gateway_provider \<times> provider_effect list" where
  "on_gateway_disconnect p =
     (case reject_all_pending (Gateway_Unavailable ''Modem gateway disconnected'') p of (p', es) \<Rightarrow>
        (p'\<lparr> gp_reported_number := None, gp_reported_capabilities := {} \<rparr>, es @ [Number_Report_Callback]))"

section \<open>Messages\<close>

definition capability_of :: "string \<Rightarrow> number_capability option" where
  "capability_of c = (if c = ''VOICE'' then Some VOICE else if c = ''SMS'' then Some SMS else if c = ''MMS'' then Some MMS else None)"

definition handle_number_report ::
    "jstr option \<Rightarrow> string list option \<Rightarrow> gateway_provider \<Rightarrow> gateway_provider \<times> provider_effect list" where
  "handle_number_report number capabilities p =
     (if truthy number
      then p\<lparr> gp_reported_number := number,
              gp_reported_capabilities := set (List.map_filter capability_of (orelse capabilities [])) \<rparr>
      else p\<lparr> gp_reported_number := None, gp_reported_capabilities := {} \<rparr>, [Number_Report_Callback])"

definition handle_call_state ::
    "int \<Rightarrow> string option \<Rightarrow> call_state_data \<Rightarrow> gateway_provider \<Rightarrow> gateway_provider \<times> provider_effect list" where
  "handle_call_state now request_id d p =
     (let (p', es) = (case request_id of
          None \<Rightarrow> (p, [])
        | Some r \<Rightarrow> if r = '''' then (p, [])
            else if cs_state d = FAILED \<or> cs_state d = BUSY then reject_request r (Gateway_Call_Failed (cs_state d) (cs_reason d)) p
            else if cs_state d = RINGING \<or> cs_state d = ANSWERED then resolve_request r None p
            else (p, []))
      in (p', es @ [Emit_Telephony (Call_State_Changed (cs_call_id d) (cs_state d) (Some now) (cs_duration_seconds d))]))"

definition handle_gateway_incoming_call :: "int \<Rightarrow> string \<Rightarrow> jstr \<Rightarrow> gateway_provider \<Rightarrow> provider_effect list" where
  "handle_gateway_incoming_call now call_id from p =
     [Emit_Telephony (Incoming_Call call_id from (orelse (gp_reported_number p) []) (Some now))]"

definition handle_incoming_sms :: "int \<Rightarrow> incoming_sms_data \<Rightarrow> gateway_provider \<Rightarrow> provider_effect list" where
  "handle_incoming_sms now d p =
     [Emit_Telephony (Incoming_Sms (is_message_id d) (is_from d)
        (if is_to d \<noteq> [] then is_to d else orelse (gp_reported_number p) []) (is_body d) (Some (orelse (is_timestamp d) now)))]"

definition handle_sms_result :: "sms_result_data \<Rightarrow> gateway_provider \<Rightarrow> gateway_provider \<times> provider_effect list" where
  "handle_sms_result d p = resolve_request (sx_request_id d)
     (Some \<lparr> sr_message_id = sx_request_id d, sr_success = sx_success d,
        sr_error_reason = (if sx_success d then None else sx_error_reason d) \<rparr>) p"

definition handle_delivery_report :: "string \<Rightarrow> string \<Rightarrow> provider_effect list" where
  "handle_delivery_report message_ref status =
     [Emit_Telephony (Sms_Status_Update message_ref (if status = ''DELIVERED'' then Sms_DELIVERED else Sms_FAILED))]"

definition keep_prev :: "'a option \<Rightarrow> 'a option \<Rightarrow> 'a option" where
  "keep_prev incoming previous = (if incoming \<noteq> None then incoming else previous)"

definition handle_status :: "status_data \<Rightarrow> gateway_provider \<Rightarrow> gateway_provider" where
  "handle_status d p =
     (let prev = gp_modem_status p;
          kept = (\<lambda>field. keep_prev (field d) (case prev of None \<Rightarrow> None | Some s \<Rightarrow> field s))
      in p\<lparr> gp_modem_status := Some (d\<lparr> sd_modem_model := kept sd_modem_model, sd_modem_manufacturer := kept sd_modem_manufacturer,
             sd_firmware := kept sd_firmware, sd_imei := kept sd_imei, sd_imsi := kept sd_imsi, sd_iccid := kept sd_iccid,
             sd_msisdn := kept sd_msisdn, sd_unsupported_warning := kept sd_unsupported_warning \<rparr>) \<rparr>)"

fun handle_inbound_message ::
    "int \<Rightarrow> gateway_message \<Rightarrow> gateway_provider \<Rightarrow> gateway_provider \<times> provider_effect list" where
  "handle_inbound_message now (Gm_Number_Report number capabilities) p = handle_number_report number capabilities p"
| "handle_inbound_message now (Gm_Call_State request_id d) p = handle_call_state now request_id d p"
| "handle_inbound_message now (Gm_Incoming_Call c f) p = (p, handle_gateway_incoming_call now c f p)"
| "handle_inbound_message now (Gm_Incoming_Sms d) p = (p, handle_incoming_sms now d p)"
| "handle_inbound_message now (Gm_Sms_Result d) p = handle_sms_result d p"
| "handle_inbound_message now (Gm_Delivery_Report r s) p = (p, handle_delivery_report r s)"
| "handle_inbound_message now (Gm_Call_Ack r) p = resolve_request r None p"
| "handle_inbound_message now (Gm_Answer_Ack r) p = resolve_request r None p"
| "handle_inbound_message now (Gm_Status d) p = (handle_status d p, [])"
| "handle_inbound_message now _ p = (p, [])"

section \<open>Requests over a run\<close>

text \<open>The provider with the clock, the requests begun and those settled, in order.\<close>

record provider_system =
  ps_provider :: gateway_provider
  ps_now :: int
  ps_begun :: "string list"
  ps_settled :: "(string \<times> gateway_outcome) list"

definition settlements :: "provider_effect list \<Rightarrow> (string \<times> gateway_outcome) list" where
  "settlements es = List.map_filter (\<lambda>e. case e of Settle r v \<Rightarrow> Some (r, v) | _ \<Rightarrow> None) es"

inductive gateway_provider_step :: "provider_system \<Rightarrow> provider_effect list \<Rightarrow> provider_system \<Rightarrow> bool" where
  gp_request: "r \<notin> set (ps_begun S) \<Longrightarrow> ms = CALL_TIMEOUT_MS \<or> ms = SMS_TIMEOUT_MS \<Longrightarrow>
     gateway_request_begin msg r ms op (ps_now S) h (ps_provider S) = (None, p, es) \<Longrightarrow>
     gateway_provider_step S es (S\<lparr> ps_provider := p, ps_begun := r # ps_begun S \<rparr>)"
| gp_message: "handle_inbound_message (ps_now S) m (ps_provider S) = (p, es) \<Longrightarrow>
     gateway_provider_step S es (S\<lparr> ps_provider := p, ps_settled := ps_settled S @ settlements es \<rparr>)"
| gp_timeout: "jm_get (gp_pending (ps_provider S)) r = Some op \<Longrightarrow> po_timer op \<le> ps_now S \<Longrightarrow>
     request_timeout_fires r (ps_provider S) = (p, es) \<Longrightarrow>
     gateway_provider_step S es (S\<lparr> ps_provider := p, ps_settled := ps_settled S @ settlements es \<rparr>)"
| gp_disconnect: "on_gateway_disconnect (ps_provider S) = (p, es) \<Longrightarrow>
     gateway_provider_step S es (S\<lparr> ps_provider := p, ps_settled := ps_settled S @ settlements es \<rparr>)"
| gp_stop: "gateway_stop h (ps_provider S) = (h', p, es) \<Longrightarrow>
     gateway_provider_step S es (S\<lparr> ps_provider := p, ps_settled := ps_settled S @ settlements es \<rparr>)"
| gp_time: "ps_now S \<le> t \<Longrightarrow> gateway_provider_step S [] (S\<lparr> ps_now := t \<rparr>)"

definition gateway_provider_init :: "provider_system \<Rightarrow> bool" where
  "gateway_provider_init S \<longleftrightarrow> ps_provider S = new_gateway_provider \<and> ps_begun S = [] \<and> ps_settled S = []"

section \<open>Every request is settled once\<close>

lemma settlements_simps [simp]:
  "settlements [] = []" "settlements (e # es) = (case e of Settle r v \<Rightarrow> [(r, v)] | _ \<Rightarrow> []) @ settlements es"
  "settlements (es @ es') = settlements es @ settlements es'"
  "settlements (map Through_Ws ws) = []" "settlements (map (\<lambda>r. Settle r v) rs) = map (\<lambda>r. (r, v)) rs"
proof -
  show "settlements (map Through_Ws ws) = []" by (induction ws) (auto simp: settlements_def List.map_filter_def)
  show "settlements (map (\<lambda>r. Settle r v) rs) = map (\<lambda>r. (r, v)) rs" by (induction rs) (auto simp: settlements_def List.map_filter_def)
qed (auto simp: settlements_def List.map_filter_def split: provider_effect.splits)

lemma through_settles [simp]: "settlements (through msg h) = []"
  by (simp add: through_def split: option.splits)

text \<open>An effect list either settles nothing, or one pending request, which it removes.\<close>

definition settles_one :: "gateway_provider \<Rightarrow> gateway_provider \<Rightarrow> provider_effect list \<Rightarrow> bool" where
  "settles_one p p' es \<longleftrightarrow> gp_pending p' = gp_pending p \<and> settlements es = []
     \<or> (\<exists>r v. jm_get (gp_pending p) r \<noteq> None \<and> gp_pending p' = jm_delete r (gp_pending p) \<and> settlements es = [(r, v)])"

lemma settle_request_one: "settle_request r v p = (p', es) \<Longrightarrow> settles_one p p' es"
  by (auto simp: settle_request_def settles_one_def split: option.splits)

lemma call_state_one: "handle_call_state now r d p = (p', es) \<Longrightarrow> settles_one p p' es"
proof -
  assume a: "handle_call_state now r d p = (p', es)"
  let ?e = "Emit_Telephony (Call_State_Changed (cs_call_id d) (cs_state d) (Some now) (cs_duration_seconds d))"
  have "\<exists>es1. es = es1 @ [?e] \<and> (p' = p \<and> es1 = [] \<or> (\<exists>r v. settle_request r v p = (p', es1)))"
    using a by (auto simp: handle_call_state_def resolve_request_def reject_request_def Let_def split: option.splits if_splits prod.splits)
  then show ?thesis using settle_request_one by (fastforce simp: settles_one_def)
qed

lemma message_settles: "handle_inbound_message now m p = (p', es) \<Longrightarrow> settles_one p p' es"
proof (cases m)
  case (Gm_Call_State r d)
  then show "handle_inbound_message now m p = (p', es) \<Longrightarrow> settles_one p p' es" using call_state_one by simp
qed (auto simp: settles_one_def handle_number_report_def handle_gateway_incoming_call_def handle_incoming_sms_def
    handle_delivery_report_def handle_status_def Let_def handle_sms_result_def resolve_request_def
    settle_request_def split: if_splits option.splits)

lemma timeout_settles: "request_timeout_fires r p = (p', es) \<Longrightarrow> settles_one p p' es"
  by (auto simp: request_timeout_fires_def settles_one_def split: option.splits)

text \<open>Disconnecting and stopping settle all that is pending.\<close>

lemma all_settled:
  "on_gateway_disconnect p = (p', es) \<Longrightarrow> gp_pending p' = [] \<and> (\<exists>e. settlements es = map (\<lambda>r. (r, Inl e)) (jm_keys (gp_pending p)))"
  "gateway_stop h p = (h', p', es) \<Longrightarrow> gp_pending p' = [] \<and> (\<exists>e. settlements es = map (\<lambda>r. (r, Inl e)) (jm_keys (gp_pending p)))"
  by (auto simp: on_gateway_disconnect_def gateway_stop_def reject_all_pending_def split: option.splits prod.splits)

definition requests_ok :: "provider_system \<Rightarrow> bool" where
  "requests_ok S \<longleftrightarrow> jm_ok (gp_pending (ps_provider S)) \<and> distinct (map fst (ps_settled S))
     \<and> fst ` set (ps_settled S) \<inter> set (jm_keys (gp_pending (ps_provider S))) = {}
     \<and> set (ps_begun S) = fst ` set (ps_settled S) \<union> set (jm_keys (gp_pending (ps_provider S)))
     \<and> (\<forall>r op. jm_get (gp_pending (ps_provider S)) r = Some op \<longrightarrow> po_timer op \<le> ps_now S + SMS_TIMEOUT_MS)"

lemma jm_keys_delete: "jm_ok m \<Longrightarrow> set (jm_keys (jm_delete k m)) = set (jm_keys m) - {k}"
  by (auto simp: jm_keys_iff split: if_splits)

lemma requests_settled_one:
  assumes "requests_ok S" "settles_one (ps_provider S) p es"
  shows "requests_ok (S\<lparr> ps_provider := p, ps_settled := ps_settled S @ settlements es \<rparr>)"
proof -
  let ?m = "gp_pending (ps_provider S)"
  have m: "jm_ok ?m" using assms(1) by (simp add: requests_ok_def)
  consider "gp_pending p = ?m" "settlements es = []"
    | r v where "jm_get ?m r \<noteq> None" "gp_pending p = jm_delete r ?m" "settlements es = [(r, v)]"
    using assms(2) by (auto simp: settles_one_def)
  then show ?thesis
  proof cases
    case 1
    then show ?thesis using assms(1) by (simp add: requests_ok_def)
  next
    case (2 r v)
    then have "r \<in> set (jm_keys ?m)" by (simp add: jm_keys_iff)
    with 2 assms(1) jm_keys_delete [OF m, of r] show ?thesis
      unfolding requests_ok_def by (auto split: if_splits)
  qed
qed

lemma requests_settled_all:
  assumes "requests_ok S" "gp_pending p = []" "settlements es = map (\<lambda>r. (r, Inl e)) (jm_keys (gp_pending (ps_provider S)))"
  shows "requests_ok (S\<lparr> ps_provider := p, ps_settled := ps_settled S @ settlements es \<rparr>)"
proof -
  let ?m = "gp_pending (ps_provider S)"
  have "distinct (jm_keys ?m)" using assms(1) by (simp add: requests_ok_def jm_ok_def jm_keys_def)
  moreover have "fst ` set (settlements es) = set (jm_keys ?m)" "map fst (settlements es) = jm_keys ?m"
    by (simp_all add: assms(3) image_image comp_def)
  ultimately show ?thesis using assms(1,2) unfolding requests_ok_def
    by (simp add: image_Un) (simp add: jm_keys_def)
qed

lemma requests_step:
  assumes "requests_ok S" "gateway_provider_step S es T"
  shows "requests_ok T"
  using assms(2)
proof (cases rule: gateway_provider_step.cases)
  case (gp_request r ms msg op h p)
  let ?m = "gp_pending (ps_provider S)"
  have p: "gp_pending p = jm_set r \<lparr> po_operation = op, po_timeout_ms = ms, po_timer = ps_now S + ms \<rparr> ?m"
    using gp_request(4) by (auto simp: gateway_request_begin_def wait_for_response_def split: if_splits)
  have "set (jm_keys (jm_set r x ?m)) = insert r (set (jm_keys ?m))" for x
    by (auto simp: jm_keys_iff split: if_splits)
  moreover have "r \<notin> fst ` set (ps_settled S)" using assms(1) gp_request(2) by (auto simp: requests_ok_def)
  ultimately show ?thesis using assms(1) gp_request(1,3) unfolding requests_ok_def
    by (auto simp: p SMS_TIMEOUT_MS_def CALL_TIMEOUT_MS_def)
next
  case (gp_message m p)
  then show ?thesis using requests_settled_one [OF assms(1) message_settles] by simp
next
  case (gp_timeout r op p)
  then show ?thesis using requests_settled_one [OF assms(1) timeout_settles] by simp
next
  case (gp_disconnect p)
  then show ?thesis using requests_settled_all [OF assms(1)] all_settled(1) [OF gp_disconnect(2)] by auto
next
  case (gp_stop h h' p)
  then show ?thesis using requests_settled_all [OF assms(1)] all_settled(2) [OF gp_stop(2)] by auto
next
  case (gp_time t)
  then show ?thesis using assms(1) by (force simp: requests_ok_def)
qed

interpretation requests: invariant_system gateway_provider_init gateway_provider_step requests_ok
proof
  show "gateway_provider_init S \<Longrightarrow> requests_ok S" for S
    by (simp add: gateway_provider_init_def requests_ok_def new_gateway_provider_def jm_keys_def)
qed (fact requests_step)

text \<open>C37: In every state reached, whatever the gateway answers, repeats or leaves out and whenever it
  disconnects, a request that was sent is either pending, with a timer that is due within a minute
  and settles it, or has been settled exactly once; a disconnection and a stop leave nothing
  pending, and after a disconnection no number is listed.\<close>
theorem requests_settled_once:
  assumes "reach gateway_provider_init gateway_provider_step S" "r \<in> set (ps_begun S)"
  shows "(case jm_get (gp_pending (ps_provider S)) r of
       Some op \<Rightarrow> filter (\<lambda>x. fst x = r) (ps_settled S) = [] \<and> po_timer op \<le> ps_now S + SMS_TIMEOUT_MS
         \<and> (\<exists>p. request_timeout_fires r (ps_provider S)
              = (p, [Settle r (Inl (Gateway_Timeout (po_operation op) (po_timeout_ms op)))]) \<and> jm_get (gp_pending p) r = None)
     | None \<Rightarrow> \<exists>v. filter (\<lambda>x. fst x = r) (ps_settled S) = [(r, v)])
     \<and> gp_pending (fst (on_gateway_disconnect (ps_provider S))) = []
     \<and> gateway_list_numbers (fst (on_gateway_disconnect (ps_provider S))) = []
     \<and> gp_pending (fst (snd (gateway_stop h (ps_provider S)))) = []"
proof -
  let ?m = "gp_pending (ps_provider S)"
  have ok: "requests_ok S" by (rule requests.reach_inv [OF assms(1)])
  have "gp_pending (fst (on_gateway_disconnect (ps_provider S))) = []" "gp_pending (fst (snd (gateway_stop h (ps_provider S)))) = []"
    "gateway_list_numbers (fst (on_gateway_disconnect (ps_provider S))) = []"
    by (simp_all add: on_gateway_disconnect_def gateway_stop_def reject_all_pending_def gateway_list_numbers_def split: option.splits prod.splits)
  moreover have "case jm_get ?m r of
       Some op \<Rightarrow> filter (\<lambda>x. fst x = r) (ps_settled S) = [] \<and> po_timer op \<le> ps_now S + SMS_TIMEOUT_MS
         \<and> (\<exists>p. request_timeout_fires r (ps_provider S)
              = (p, [Settle r (Inl (Gateway_Timeout (po_operation op) (po_timeout_ms op)))]) \<and> jm_get (gp_pending p) r = None)
     | None \<Rightarrow> \<exists>v. filter (\<lambda>x. fst x = r) (ps_settled S) = [(r, v)]"
  proof (cases "jm_get ?m r")
    case None
    then have "r \<notin> set (jm_keys ?m)" by (simp add: jm_keys_iff)
    then have "r \<in> fst ` set (ps_settled S)" using ok assms(2) by (auto simp: requests_ok_def)
    then obtain v where v: "(r, v) \<in> set (ps_settled S)" by auto
    have "distinct (map fst (ps_settled S))" using ok by (simp add: requests_ok_def)
    then have "filter (\<lambda>x. fst x = r) (ps_settled S) = [(r, v)]"
      using filter_distinct_key [of fst "ps_settled S" "(r, v)"] v by simp
    then show ?thesis using None by simp
  next
    case (Some op)
    then have "r \<in> set (jm_keys ?m)" by (simp add: jm_keys_iff)
    then have "r \<notin> fst ` set (ps_settled S)" using ok by (auto simp: requests_ok_def)
    then have "filter (\<lambda>x. fst x = r) (ps_settled S) = []" by (force simp: filter_empty_conv)
    then show ?thesis using Some ok by (simp add: requests_ok_def request_timeout_fires_def)
  qed
  ultimately show ?thesis by blast
qed

section \<open>What is not taken up\<close>

text \<open>The calls missed while the gateway was offline are dropped, and a delivery report names the
  modem's reference, while the message was stored under the identifier of its request.\<close>

lemma offline_calls_dropped: "handle_inbound_message now (Gm_Missed_Calls calls) p = (p, [])"
  by simp

lemma delivery_report_names_reference:
  "handle_inbound_message now (Gm_Delivery_Report message_ref status) p
     = (p, [Emit_Telephony (Sms_Status_Update message_ref (if status = ''DELIVERED'' then Sms_DELIVERED else Sms_FAILED))])"
  "jm_get (gp_pending p) (sx_request_id d) \<noteq> None \<Longrightarrow>
     \<exists>e. snd (handle_inbound_message now (Gm_Sms_Result d) p)
       = [Settle (sx_request_id d) (Inr (Some \<lparr> sr_message_id = sx_request_id d, sr_success = sx_success d, sr_error_reason = e \<rparr>))]"
  by (auto simp: handle_delivery_report_def handle_sms_result_def resolve_request_def settle_request_def split: option.splits)

section \<open>Examples\<close>

definition example_requests :: provider_system where
  "example_requests = \<lparr> ps_provider = new_gateway_provider, ps_now = 0, ps_begun = [], ps_settled = [] \<rparr>"

definition example_handler :: gateway_handler where
  "example_handler = new_gateway_handler\<lparr> gh_ws := Some 0, gh_sockets := (\<lambda>_. Socket_Open), gh_authenticated := True \<rparr>"

lemma example_handler_connected: "is_connected example_handler" "gh_ws example_handler = Some 0"
  by (simp_all add: example_handler_def is_connected_def is_socket_connected_def)

lemma requests_settled_once_witness:
  "\<exists>(S :: provider_system) op. jm_get (gp_pending (ps_provider S)) ''r'' = Some op \<and> po_timer op \<le> ps_now S + SMS_TIMEOUT_MS"
proof -
  let ?p = "wait_for_response ''r'' CALL_TIMEOUT_MS ''make_call'' 0 new_gateway_provider"
  let ?S = "example_requests\<lparr> ps_provider := ?p, ps_begun := [''r''] \<rparr>"
  have "reach gateway_provider_init gateway_provider_step example_requests"
    by (rule reach_init) (simp add: gateway_provider_init_def example_requests_def)
  moreover have "gateway_provider_step example_requests (through (Gr_Make_Call ''r'' ''c'' [] []) (Some example_handler)) ?S"
    using gp_request [of "''r''" example_requests CALL_TIMEOUT_MS "Gr_Make_Call ''r'' ''c'' [] []" "''make_call''" "Some example_handler" ?p]
      example_handler_connected(1)
    by (simp add: gateway_request_begin_def ensure_connected_def example_requests_def)
  ultimately have r: "reach gateway_provider_init gateway_provider_step ?S" by (rule reach_step)
  have "\<exists>op. jm_get (gp_pending (ps_provider ?S)) ''r'' = Some op" by (simp add: wait_for_response_def)
  then obtain op where op: "jm_get (gp_pending (ps_provider ?S)) ''r'' = Some op" by blast
  have "''r'' \<in> set (ps_begun ?S)" by simp
  from requests_settled_once [OF r this] op have "po_timer op \<le> ps_now ?S + SMS_TIMEOUT_MS" by simp
  then show ?thesis using op by blast
qed

end
