(* ===== verification/Modem_Gateway_Props.thy ===== *)
theory Modem_Gateway_Props
  imports Modem_Gateway_System
begin

text \<open>
  What holds of the signalling connection of a modem gateway in its reachable states and over a
  whole pairing, and where the source does not do what it says: a handler keeps one admission for
  all the sockets it has ever been given.
\<close>

interpretation calm_gateway: invariant_system gateway_init "calm_gateway_step ev i" "\<lambda>S. calm_ok S \<and> gateway_ok ev S" for ev i
proof unfold_locales
  show "calm_ok S \<and> gateway_ok ev S" if "gateway_init S" for S
    using that gateway_init_ok [OF that] by (auto simp: gateway_init_def calm_ok_def new_gateway_handler_def)
qed (fact calm_step_ok)

section \<open>Who is heard\<close>

lemma only_frames_reach_provider:
  assumes "gateway_step ev i S (l, es) T" "To_Provider m \<in> set es"
  obtains k where "l = L_Frame k (Frame m)" "gh_authenticated (gs_handler S)" "k \<in> set (gs_attached S)"
  using assms(1)
proof (cases rule: gateway_step.cases)
  case (gs_connect k h)
  then show ?thesis using assms(2) handle_connection_state(7) [OF gs_connect(4)] by simp
next
  case (gs_frame k f start h)
  then show ?thesis using assms(2) that handle_frame_state(2) [OF gs_frame(4)] by auto
next
  case (gs_answer w nonce nxt rows h)
  from gs_answer(5) have "To_Provider m \<notin> set es"
  proof (cases rule: resume_wait_cases)
    case (refused r g)
    then show ?thesis using refuse_auth_state(7) by blast
  next
    case (issued k)
    then show ?thesis using issue_challenge_state by blast
  next
    case (admitted k p g)
    then show ?thesis using admit_state by blast
  qed blast
  then show ?thesis using assms(2) by simp
next
  case (gs_ping_tick t pinged h)
  then show ?thesis using assms(2) ping_tick_state(4) by blast
next
  case (gs_pong_timeout t h)
  then show ?thesis using assms(2) pong_timeout_state(4) by blast
next
  case (gs_auth_timeout t h)
  then show ?thesis using assms(2) refuse_auth_state(7) by (fastforce simp: auth_timeout_fires_def Let_def split: if_splits)
next
  case (gs_challenge_timer t h)
  then show ?thesis using assms(2) refuse_auth_state(7) by (fastforce simp: challenge_timer_fires_def split: if_splits)
next
  case (gs_reset h secret)
  then show ?thesis using assms(2) close_existing_state(9) [of "gs_handler S" h es] by (auto simp: reset_pairing_begin_def split: option.splits)
qed (use assms(2) in \<open>auto simp: handle_disconnect_def\<close>)

text \<open>C30: A message reaches the provider only as a frame of some socket and only after the stored
  key or the stored secret has been shown on some connection, whatever the sockets, the timers,
  the database and the other services do. In a run in which a gateway connects only after the
  earlier sockets are gone and nothing waits, the socket that is heard is the one that showed it:
  it signed a nonce issued on that very connection and on no other, or it knew the secret within
  a day of its creation and sent a key of 32 bytes.\<close>
theorem gateway_heard_when_proven:
  assumes "reach gateway_init (gateway_step ev i) S" "gateway_step ev i S (l, es) T" "To_Provider m \<in> set es"
  shows "\<exists>k. l = L_Frame k (Frame m) \<and> (\<exists>j p. (j, p) \<in> set (gs_proven S) \<and> valid_proof ev p)
     \<and> (reach gateway_init (calm_gateway_step ev i) S \<longrightarrow>
          (\<exists>p. (k, p) \<in> set (gs_proven S) \<and> valid_proof ev p
             \<and> (\<forall>key n sig. p = Signed key n sig \<longrightarrow> filter (\<lambda>x. snd x = n) (gs_issued S) = [(k, n)])))"
proof -
  obtain k where k: "l = L_Frame k (Frame m)" "gh_authenticated (gs_handler S)" "k \<in> set (gs_attached S)"
    using only_frames_reach_provider [OF assms(2,3)] by blast
  have ok: "gateway_ok ev S" by (rule gateway.reach_inv [OF assms(1)])
  then have valid: "valid_proof ev p" if "(j, p) \<in> set (gs_proven S)" for j p
    using that by (auto simp: gateway_ok_def list_all_iff)
  have "gs_proven S \<noteq> []" using ok k(2) by (simp add: gateway_ok_def)
  then have "hd (gs_proven S) \<in> set (gs_proven S)" by simp
  then have some: "\<exists>j p. (j, p) \<in> set (gs_proven S) \<and> valid_proof ev p" using valid by (metis surj_pair)
  have "\<exists>p. (k, p) \<in> set (gs_proven S) \<and> valid_proof ev p
      \<and> (\<forall>key n sig. p = Signed key n sig \<longrightarrow> filter (\<lambda>x. snd x = n) (gs_issued S) = [(k, n)])"
    if "reach gateway_init (calm_gateway_step ev i) S"
  proof -
    have c: "calm_ok S" using calm_gateway.reach_inv [OF that] by blast
    then have "newest S k" using k(3) by (simp add: calm_ok_def)
    then obtain p where p: "(k, p) \<in> set (gs_proven S)"
      using c k(2) newest_unique unfolding calm_ok_def by fastforce
    have "filter (\<lambda>x. snd x = n) (gs_issued S) = [(k, n)]" if "p = Signed key n sig" for key n sig
    proof -
      have "(k, n) \<in> set (gs_issued S)" using c p that unfolding calm_ok_def by blast
      moreover have "distinct (map snd (gs_issued S))" using ok by (simp add: gateway_ok_def)
      ultimately show ?thesis using filter_distinct_key [of snd "gs_issued S" "(k, n)"] by simp
    qed
    then show ?thesis using p valid by blast
  qed
  then show ?thesis using k(1) some by blast
qed

section \<open>Connections that do not prove anything\<close>


section \<open>A gateway that has its key\<close>

lemma fresh_nonce: "\<exists>n :: jstr. n \<notin> set xs"
proof -
  have "infinite (UNIV :: jstr set)" by (rule infinite_UNIV_listI)
  from ex_new_if_finite [OF this, of "set xs"] show ?thesis by simp
qed

lemma gateway_handshake:
  assumes "k \<notin> set (gs_seen S)" "nonce \<notin> snd ` set (gs_issued S)" "AUTH_RATE_LIMIT_MS \<le> gs_now S - gh_last_auth_attempt (gs_handler S)"
    and "get_public_key (load_config i (gs_rows S)) = Some key" "key \<noteq> []" "sig \<noteq> []" "ge_verify ev key nonce sig"
  obtains A B C D es where
    "gateway_step ev i S (L_Connect k, es) A"
    "gateway_step ev i A (L_Answer (W_Initiate k), [Ws_Send k (Auth_Challenge nonce), Arm_Challenge_Timer (gs_now S + CHALLENGE_EXPIRY_MS)]) B"
    "gateway_step ev i B (L_Frame k (Frame (Auth_Response (Some sig))), []) C"
    "gateway_step ev i C (L_Answer (W_Response k sig), [Ws_Send k Auth_Success, Emit_Event Wh_Authenticated]) D"
    "gh_ws (gs_handler D) = Some k" "is_connected (gs_handler D)" "set (gs_attached D) = insert k (set (gs_attached S))"
    "gs_waits D = gs_waits S" "gs_proven D = (k, Signed key nonce sig) # gs_proven S"
proof -
  obtain h1 es where h1: "handle_connection (gs_now S) k (gs_handler S) = (h1, es)"
    by (cases "handle_connection (gs_now S) k (gs_handler S)")
  have f: "gh_ws h1 = Some k" "gh_sockets h1 k = Socket_Open" "gh_last_auth_attempt h1 = gh_last_auth_attempt (gs_handler S)"
    using h1 by (auto simp: handle_connection_def close_existing_def start_gateway_pings_def Let_def split: if_splits option.splits)
  let ?A = "S\<lparr> gs_handler := h1, gs_waits := W_Initiate k # gs_waits S, gs_attached := k # gs_attached S, gs_seen := k # gs_seen S \<rparr>"
  let ?t = "gs_now S + CHALLENGE_EXPIRY_MS"
  let ?h2 = "h1\<lparr> gh_pending_challenge := Some (nonce, ?t) \<rparr>"
  let ?e2 = "[Ws_Send k (Auth_Challenge nonce), Arm_Challenge_Timer ?t]"
  let ?B = "?A\<lparr> gs_handler := ?h2, gs_waits := gs_waits S, gs_timers := ?t # gs_timers S, gs_issued := (k, nonce) # gs_issued S \<rparr>"
  have a: "gateway_step ev i S (L_Connect k, es) ?A" by (rule gs_connect [OF assms(1) h1])
  have r2: "resume_wait ev i (gs_now ?A) nonce (W_Initiate k) (gs_rows ?A) (gs_handler ?A) = (None, gs_rows S, ?h2, ?e2)"
    using assms(4,5) f by (simp add: stops_def initiate_auth_def issue_challenge_def send_message_def is_socket_connected_def)
  have b: "gateway_step ev i ?A (L_Answer (W_Initiate k), ?e2) ?B"
    using gs_answer [OF _ _ r2] assms(2) by (simp add: armed_timers_def List.map_filter_def)
  let ?h3 = "?h2\<lparr> gh_last_auth_attempt := gs_now S \<rparr>"
  let ?C = "?B\<lparr> gs_handler := ?h3, gs_waits := W_Response k sig # gs_waits S \<rparr>"
  have "handle_frame (gs_now ?B) (Frame (Auth_Response (Some sig))) (gs_handler ?B) = (Some (Start_Response sig), ?h3, [])"
    using assms(3,6) f(3) by (simp add: handle_frame_def handle_auth_message_def response_begin_def CHALLENGE_EXPIRY_MS_def)
  from gs_frame [OF _ this] have c: "gateway_step ev i ?B (L_Frame k (Frame (Auth_Response (Some sig))), []) ?C" by simp
  let ?h4 = "?h3\<lparr> gh_pending_challenge := None, gh_authenticated := True, gh_auth_timeout := None \<rparr>"
  let ?e4 = "[Ws_Send k Auth_Success, Emit_Event Wh_Authenticated]"
  obtain nonce' where n: "nonce' \<notin> set (map snd (gs_issued ?C))" using fresh_nonce by blast
  have r4: "resume_wait ev i (gs_now ?C) nonce' (W_Response k sig) (gs_rows ?C) (gs_handler ?C) = (None, gs_rows S, ?h4, ?e4)"
    using assms(4,5,7) f by (simp add: stops_def response_key_def admit_def send_message_def is_socket_connected_def)
  have n': "nonce' \<notin> snd ` set (gs_issued ?C)" using n by (simp only: list.set_map [symmetric]) simp
  obtain D where d: "gateway_step ev i ?C (L_Answer (W_Response k sig), ?e4) D"
    and D: "gs_handler D = ?h4" "gs_attached D = gs_attached ?C" "gs_waits D = gs_waits S"
      "gs_proven D = (k, Signed key nonce sig) # gs_proven S"
    using gs_answer [OF _ n' r4] assms(4) by simp
  show thesis
    by (rule that [OF a b c d]) (use f in \<open>simp_all add: D is_connected_def is_socket_connected_def\<close>)
qed

lemma four_steps:
  assumes "gateway_step ev i S a A" "gateway_step ev i A b B" "gateway_step ev i B c C" "gateway_step ev i C d D"
  shows "run (gateway_step ev i) S [a, b, c, d] D"
  by (rule run_Cons, rule assms(1), rule run_Cons, rule assms(2), rule run_Cons, rule assms(3), rule run_single, rule assms(4))

text \<open>From every state a gateway that holds the stored key is admitted in four steps, whatever is
  still attached or waiting: it connects, is sent a challenge, signs it and is told that it has
  succeeded, provided that a second has passed since the last attempt.\<close>
theorem paired_gateway_admitted:
  assumes "reach gateway_init (gateway_step ev i) S" "k \<notin> set (gs_seen S)" "nonce \<notin> snd ` set (gs_issued S)"
    and "AUTH_RATE_LIMIT_MS \<le> gs_now S - gh_last_auth_attempt (gs_handler S)"
    and "get_public_key (load_config i (gs_rows S)) = Some key" "key \<noteq> []" "sig \<noteq> []" "ge_verify ev key nonce sig"
  shows "\<exists>es T. run (gateway_step ev i) S es T
     \<and> map fst es = [L_Connect k, L_Answer (W_Initiate k), L_Frame k (Frame (Auth_Response (Some sig))), L_Answer (W_Response k sig)]
     \<and> Ws_Send k (Auth_Challenge nonce) \<in> set (snd (es ! 1)) \<and> snd (es ! 3) = [Ws_Send k Auth_Success, Emit_Event Wh_Authenticated]
     \<and> gh_ws (gs_handler T) = Some k \<and> is_connected (gs_handler T) \<and> reach gateway_init (gateway_step ev i) T"
proof -
  obtain A B C D es where d: "gateway_step ev i S (L_Connect k, es) A"
    "gateway_step ev i A (L_Answer (W_Initiate k), [Ws_Send k (Auth_Challenge nonce), Arm_Challenge_Timer (gs_now S + CHALLENGE_EXPIRY_MS)]) B"
    "gateway_step ev i B (L_Frame k (Frame (Auth_Response (Some sig))), []) C"
    "gateway_step ev i C (L_Answer (W_Response k sig), [Ws_Send k Auth_Success, Emit_Event Wh_Authenticated]) D"
    "gh_ws (gs_handler D) = Some k" "is_connected (gs_handler D)"
    by (rule gateway_handshake [OF assms(2-8)])
  have "reach gateway_init (gateway_step ev i) D"
    by (rule reach_step [OF reach_step [OF reach_step [OF reach_step [OF assms(1) d(1)] d(2)] d(3)] d(4)])
  moreover note four_steps [OF d(1-4)]
  ultimately show ?thesis using d(5,6) by (intro exI conjI) (assumption | simp)+
qed

section \<open>A whole pairing\<close>

text \<open>The segments of one attempt answered in order, with nothing in between.\<close>

fun wait_weight :: "gateway_wait \<Rightarrow> nat" where
  "wait_weight (W_Pair_Key _ _ _) = 8"
| "wait_weight (W_Pair_Secret _ _ _) = 7"
| "wait_weight (W_Pair_Created _ _ _ _) = 6"
| "wait_weight (W_Store_Load _ _ _) = 5"
| "wait_weight (W_Store_Save _ _ _) = 4"
| "wait_weight (W_Clear_Load _ _) = 3"
| "wait_weight (W_Clear_Save _ _ _) = 2"
| "wait_weight (W_Reset_Load _) = 4"
| "wait_weight (W_Reset_Save _ _) = 3"
| "wait_weight (W_Reset_Secret_Load _) = 2"
| "wait_weight _ = 1"

lemma resume_weight: "resume_wait ev i now nonce w rows h = (Some v, rows', h', es) \<Longrightarrow> wait_weight v < wait_weight w"
  by (cases w) (auto simp: goes_on_def stops_def Let_def split: prod.splits if_splits)

function settle_wait ::
    "gateway_env \<Rightarrow> string \<Rightarrow> int \<Rightarrow> gateway_wait \<Rightarrow> provider_row table \<Rightarrow> gateway_handler
      \<Rightarrow> provider_row table \<times> gateway_handler \<times> gateway_effect list" where
  "settle_wait ev i now w rows h =
     (case resume_wait ev i now [] w rows h of
        (None, rows1, h1, es) \<Rightarrow> (rows1, h1, es)
      | (Some v, rows1, h1, es) \<Rightarrow> (case settle_wait ev i now v rows1 h1 of (rows2, h2, es2) \<Rightarrow> (rows2, h2, es @ es2)))"
  by pat_completeness auto
termination
  by (relation "measure (\<lambda>(ev, i, now, w, rows, h). wait_weight w)") (auto dest!: resume_weight [OF sym])

declare settle_wait.simps [simp del]

text \<open>What the description of pairing requires, in the order in which it is checked.\<close>

definition pairing_refusal :: "gateway_env \<Rightarrow> int \<Rightarrow> config \<Rightarrow> jstr \<Rightarrow> jstr \<Rightarrow> string option" where
  "pairing_refusal ev now c pk secret =
     (if truthy (get_public_key (Some c)) then Some ''already_paired''
      else if \<not> truthy (get_pairing_secret (Some c)) then Some ''secret_already_used''
      else if ge_lower ev (the (get_pairing_secret (Some c))) \<noteq> ge_lower ev secret then Some ''invalid_secret''
      else if (case get_pairing_secret_created_at ev (Some c) of None \<Rightarrow> False | Some t \<Rightarrow> now - t > PAIRING_SECRET_TTL_MS)
        then Some ''secret_expired''
      else if ge_base64_length ev pk \<noteq> 32 then Some ''invalid_public_key'' else None)"

lemma field_names:
  "js ''public_key'' \<noteq> js ''pairing_secret''" "js ''public_key'' \<noteq> js ''pairing_secret_created_at''"
  "js ''pairing_secret'' \<noteq> js ''pairing_secret_created_at''"
  by (simp_all add: text_eval)

lemma load_saved:
  "load_config i (save_config i c rows) = (if load_config i rows = None then None else Some c)"
  "j \<noteq> i \<Longrightarrow> load_config j (save_config i c rows) = load_config j rows"
  "filter (\<lambda>row. pr_id row \<noteq> i) (save_config i c rows) = filter (\<lambda>row. pr_id row \<noteq> i) rows"
  by (induction rows) (auto simp: load_config_def save_config_def sql_first_def sql_update_def)

lemma stored_pairing:
  assumes "c' = clear_pairing_secret (Some (set_public_key pk (Some c)))"
  shows "get_public_key (Some c') = Some pk" "get_pairing_secret (Some c') = None"
    "get_pairing_secret_created_at ev (Some c') = None"
    "\<And>f. f \<notin> {js ''public_key'', js ''pairing_secret'', js ''pairing_secret_created_at''} \<Longrightarrow> jm_get c' f = jm_get c f"
  using field_names
  by (auto simp: assms get_public_key_def get_pairing_secret_def get_pairing_secret_created_at_def stored_text_def
      clear_pairing_secret_def set_public_key_def update_config_field_def config_text_def Let_def)

lemma settle_store:
  assumes "load_config i rows = Some c" "c' = clear_pairing_secret (Some (set_public_key pk (Some c)))"
  shows "\<exists>rows'. settle_wait ev i now (W_Store_Load k pk p) rows h = (rows', admit h) \<and> load_config i rows' = Some c'
     \<and> filter (\<lambda>row. pr_id row \<noteq> i) rows' = filter (\<lambda>row. pr_id row \<noteq> i) rows"
proof -
  let ?r1 = "save_config i (set_public_key pk (Some c)) rows"
  let ?r2 = "save_config i c' ?r1"
  have l: "load_config i ?r1 = Some (set_public_key pk (Some c))" "load_config i ?r2 = Some c'"
    by (simp_all add: load_saved assms(1))
  have "settle_wait ev i now (W_Paired k p) ?r2 h = (?r2, admit h)"
    by (subst settle_wait.simps) (simp add: stops_def split: prod.splits)
  then have "settle_wait ev i now (W_Clear_Save k p c') ?r1 h = (?r2, admit h)"
    by (subst settle_wait.simps) (simp split: prod.splits)
  then have "settle_wait ev i now (W_Clear_Load k p) ?r1 h = (?r2, admit h)"
    by (subst settle_wait.simps) (simp add: l assms(2) split: prod.splits)
  then have "settle_wait ev i now (W_Store_Save k p (set_public_key pk (Some c))) rows h = (?r2, admit h)"
    by (subst settle_wait.simps) (simp split: prod.splits)
  then have "settle_wait ev i now (W_Store_Load k pk p) rows h = (?r2, admit h)"
    by (subst settle_wait.simps) (simp add: assms(1) split: prod.splits)
  then show ?thesis using l(2) by (simp add: load_saved(3))
qed

lemma settle_refused:
  assumes "resume_wait ev i now [] w rows h = (None, rows, refuse_auth r h)"
  shows "settle_wait ev i now w rows h = (rows, refuse_auth r h)"
  using assms by (subst settle_wait.simps) (simp split: prod.splits)

lemma settle_on:
  assumes "resume_wait ev i now [] w rows h = (Some v, rows, h, [])"
  shows "settle_wait ev i now w rows h = settle_wait ev i now v rows h"
  using assms by (subst settle_wait.simps) (simp split: prod.splits)

lemma settle_pairing:
  assumes "load_config i rows = Some c"
  shows "settle_wait ev i now (W_Pair_Key k pk secret) rows h =
    (case pairing_refusal ev now c pk secret of
       Some r \<Rightarrow> (rows, refuse_auth r h)
     | None \<Rightarrow> settle_wait ev i now (W_Store_Load k pk (Knew_Secret pk secret (the (get_pairing_secret (Some c)))
         (map_option (\<lambda>t. now - t) (get_pairing_secret_created_at ev (Some c))))) rows h)"
proof -
  let ?key = "get_public_key (Some c)" and ?stored = "get_pairing_secret (Some c)"
  let ?age = "get_pairing_secret_created_at ev (Some c)"
  note w = goes_on_def pair_existing_key_def pair_stored_secret_def pair_created_at_def Let_def assms
  show ?thesis
  proof (cases "truthy ?key")
    case True
    then have "pairing_refusal ev now c pk secret = Some ''already_paired''" by (simp add: pairing_refusal_def)
    moreover have "resume_wait ev i now [] (W_Pair_Key k pk secret) rows h = (None, rows, refuse_auth ''already_paired'' h)"
      using True by (simp add: w split: prod.splits)
    ultimately show ?thesis using settle_refused by simp
  next
    case key: False
    have 1: "settle_wait ev i now (W_Pair_Key k pk secret) rows h = settle_wait ev i now (W_Pair_Secret k pk secret) rows h"
      by (rule settle_on) (use key in \<open>simp add: w\<close>)
    show ?thesis
    proof (cases "truthy ?stored \<and> ge_lower ev (the ?stored) = ge_lower ev secret")
      case False
      then obtain r where r: "pairing_refusal ev now c pk secret = Some r"
          "pair_stored_secret ev secret ?stored h = (False, refuse_auth r h)"
        using key by (cases "truthy ?stored") (auto simp: pairing_refusal_def pair_stored_secret_def)
      then have "resume_wait ev i now [] (W_Pair_Secret k pk secret) rows h = (None, rows, refuse_auth r h)"
        by (simp add: goes_on_def Let_def assms split: prod.splits)
      then show ?thesis using settle_refused 1 r(1) by simp
    next
      case stored: True
      have 2: "settle_wait ev i now (W_Pair_Secret k pk secret) rows h
          = settle_wait ev i now (W_Pair_Created k pk secret (the ?stored)) rows h"
        by (rule settle_on) (use stored in \<open>simp add: w\<close>)
      let ?expired = "case ?age of None \<Rightarrow> False | Some t \<Rightarrow> now - t > PAIRING_SECRET_TTL_MS"
      show ?thesis
      proof (cases "?expired \<or> ge_base64_length ev pk \<noteq> 32")
        case True
        then obtain r where r: "pairing_refusal ev now c pk secret = Some r"
            "pair_created_at ev now pk ?age h = (False, refuse_auth r h)"
          using key stored by (cases ?expired) (auto simp: pairing_refusal_def pair_created_at_def)
        then have "resume_wait ev i now [] (W_Pair_Created k pk secret (the ?stored)) rows h = (None, rows, refuse_auth r h)"
          by (simp add: goes_on_def Let_def assms split: prod.splits)
        then show ?thesis using settle_refused 1 2 r(1) by simp
      next
        case False
        then have "pairing_refusal ev now c pk secret = None" using key stored by (simp add: pairing_refusal_def)
        moreover have "settle_wait ev i now (W_Pair_Created k pk secret (the ?stored)) rows h
            = settle_wait ev i now (W_Store_Load k pk (Knew_Secret pk secret (the ?stored) (map_option (\<lambda>t. now - t) ?age))) rows h"
          by (rule settle_on) (use False in \<open>simp add: w\<close>)
        ultimately show ?thesis using 1 2 by simp
      qed
    qed
  qed
qed

text \<open>C31: A pairing is admitted exactly when no key is stored, the stored secret matches up to case and
  is at most a day old, and the key has 32 bytes; otherwise the first requirement that fails is
  reported, the connection is closed and nothing is stored. An admitted pairing stores the key,
  removes the secret and its date and leaves every other field and every other provider as it was;
  afterwards every attempt to pair, with whatever secret and key, is refused as already paired,
  and a response to a challenge is admitted exactly when it verifies under the key just stored.\<close>
theorem pairing_outcome:
  assumes "load_config i rows = Some c" "settle_wait ev i now (W_Pair_Key k pk secret) rows h = (rows', h', es)" "pk \<noteq> []"
  shows "(case pairing_refusal ev now c pk secret of
       Some r \<Rightarrow> rows' = rows \<and> (h', es) = refuse_auth r h
     | None \<Rightarrow> (h', es) = admit h
         \<and> (\<exists>c'. load_config i rows' = Some c' \<and> get_public_key (Some c') = Some pk \<and> get_pairing_secret (Some c') = None
              \<and> (\<forall>f. f \<notin> {js ''public_key'', js ''pairing_secret'', js ''pairing_secret_created_at''} \<longrightarrow> jm_get c' f = jm_get c f))
         \<and> filter (\<lambda>row. pr_id row \<noteq> i) rows' = filter (\<lambda>row. pr_id row \<noteq> i) rows
         \<and> settle_wait ev i later (W_Pair_Key k2 pk2 secret2) rows' h2 = (rows', refuse_auth ''already_paired'' h2)
         \<and> (gh_pending_challenge h2 = Some (nonce, t) \<longrightarrow>
              settle_wait ev i later (W_Response k2 sig) rows' h2
              = (rows', (if ge_verify ev pk nonce sig then admit else refuse_auth ''invalid_signature'') (h2\<lparr> gh_pending_challenge := None \<rparr>))))"
proof (cases "pairing_refusal ev now c pk secret")
  case (Some r)
  then show ?thesis using assms(2) settle_pairing [OF assms(1)] by simp
next
  case None
  let ?c = "clear_pairing_secret (Some (set_public_key pk (Some c)))"
  note s = stored_pairing [OF refl]
  let ?p = "Knew_Secret pk secret (the (get_pairing_secret (Some c))) (map_option (\<lambda>t. now - t) (get_pairing_secret_created_at ev (Some c)))"
  obtain rows1 where r1: "settle_wait ev i now (W_Store_Load k pk ?p) rows h = (rows1, admit h)"
    and r2: "load_config i rows1 = Some ?c" and r3: "filter (\<lambda>row. pr_id row \<noteq> i) rows1 = filter (\<lambda>row. pr_id row \<noteq> i) rows"
    using settle_store [OF assms(1) refl, of ev now k pk ?p h] by blast
  have "settle_wait ev i now (W_Pair_Key k pk secret) rows h = (rows1, admit h)"
    unfolding settle_pairing [OF assms(1)] None by (simp add: r1)
  note r = this r2 r3
  have rows: "rows' = rows1" "(h', es) = admit h" using assms(2) r(1) by simp_all
  have "pairing_refusal ev later ?c pk2 secret2 = Some ''already_paired''"
    using s(1) assms(3) by (simp add: pairing_refusal_def)
  then have "settle_wait ev i later (W_Pair_Key k2 pk2 secret2) rows1 h2 = (rows1, refuse_auth ''already_paired'' h2)"
    using settle_pairing [OF r(2)] by simp
  moreover have "settle_wait ev i later (W_Response k2 sig) rows1 h2
      = (rows1, (if ge_verify ev pk nonce sig then admit else refuse_auth ''invalid_signature'') (h2\<lparr> gh_pending_challenge := None \<rparr>))"
    if "gh_pending_challenge h2 = Some (nonce, t)"
    using that s(1) assms(3) r(2) by (subst settle_wait.simps) (simp add: stops_def response_key_def split: prod.splits)
  ultimately show ?thesis
    unfolding None option.case rows(1) using rows(2) r(2,3) s(1,2,4) by blast
qed

section \<open>What the source does not mean\<close>

text \<open>
  The sockets share one handler: the close of any socket, in particular of one that a new
  connection has replaced, drops the connection there is, and its ping interval with it.
\<close>

lemma any_close_drops_connection:
  assumes "gateway_step ev i S (L_Closed k, es) T"
  shows "gh_ws (gs_handler T) = None \<and> \<not> gh_authenticated (gs_handler T) \<and> gh_ping_interval (gs_handler T) = None
     \<and> (\<forall>j. j \<noteq> k \<longrightarrow> gh_sockets (gs_handler T) j = gh_sockets (gs_handler S) j) \<and> es = [Emit_Event Wh_Disconnected]"
  using assms by (cases rule: gateway_step.cases) (auto simp: handle_disconnect_def)

text \<open>A frame of any socket that is still attached, replaced or not, is heard while the handler is admitted.\<close>

lemma replaced_socket_heard:
  assumes "k \<in> set (gs_attached S)" "gh_authenticated (gs_handler S)" "\<not> is_auth_message m"
  shows "gateway_step ev i S (L_Frame k (Frame m), dispatch_message m) S"
proof -
  have "handle_frame (gs_now S) (Frame m) (gs_handler S) = (None, gs_handler S, dispatch_message m)"
    using assms(2,3) by (simp add: handle_frame_def)
  from gs_frame [OF assms(1) this] show ?thesis by simp
qed

text \<open>So a stranger whose socket is replaced by the gateway's, and who does not complete the closing
  handshake, is heard once the gateway has been admitted.\<close>

lemma stranger_heard:
  assumes "j \<in> set (gs_attached S)" "j \<notin> fst ` set (gs_proven S)" "j \<noteq> k" "\<not> is_auth_message m"
    and "k \<notin> set (gs_seen S)" "nonce \<notin> snd ` set (gs_issued S)" "AUTH_RATE_LIMIT_MS \<le> gs_now S - gh_last_auth_attempt (gs_handler S)"
    and "get_public_key (load_config i (gs_rows S)) = Some key" "key \<noteq> []" "sig \<noteq> []" "ge_verify ev key nonce sig"
  shows "\<exists>es T. run (gateway_step ev i) S es T \<and> j \<notin> fst ` set (gs_proven T)
     \<and> gateway_step ev i T (L_Frame j (Frame m), dispatch_message m) T"
proof -
  obtain A B C D es where d: "gateway_step ev i S (L_Connect k, es) A"
    "gateway_step ev i A (L_Answer (W_Initiate k), [Ws_Send k (Auth_Challenge nonce), Arm_Challenge_Timer (gs_now S + CHALLENGE_EXPIRY_MS)]) B"
    "gateway_step ev i B (L_Frame k (Frame (Auth_Response (Some sig))), []) C"
    "gateway_step ev i C (L_Answer (W_Response k sig), [Ws_Send k Auth_Success, Emit_Event Wh_Authenticated]) D"
    and D: "gh_ws (gs_handler D) = Some k" "is_connected (gs_handler D)" "set (gs_attached D) = insert k (set (gs_attached S))"
      "gs_waits D = gs_waits S" "gs_proven D = (k, Signed key nonce sig) # gs_proven S"
    by (rule gateway_handshake [OF assms(5-11)])
  have "gateway_step ev i D (L_Frame j (Frame m), dispatch_message m) D"
    using replaced_socket_heard [OF _ _ assms(4), of j D] D(2,3) assms(1) by (simp add: is_connected_def)
  moreover have "j \<notin> fst ` set (gs_proven D)" using D(5) assms(2,3) by simp
  moreover note four_steps [OF d(1-4)]
  ultimately show ?thesis by blast
qed

text \<open>
  A connection that closes while its response waits for the stored key leaves no challenge: the
  handler reads a member of null, and nothing awaits the promise that this rejects.
\<close>

lemma close_during_response_rejects:
  assumes "W_Response k sig \<in> set (gs_waits S)" "k \<in> set (gs_attached S)" "nonce \<notin> snd ` set (gs_issued S)"
    and "truthy (get_public_key (load_config i (gs_rows S)))"
  shows "\<exists>T U. gateway_step ev i S (L_Closed k, [Emit_Event Wh_Disconnected]) T
     \<and> gateway_step ev i T (L_Answer (W_Response k sig), [Unhandled_Rejection]) U"
proof -
  obtain h where h: "handle_disconnect (gs_handler S) = (h, [Emit_Event Wh_Disconnected])" "gh_pending_challenge h = None"
    by (simp add: handle_disconnect_def)
  let ?T = "S\<lparr> gs_handler := h\<lparr> gh_sockets := (gh_sockets h)(k := Socket_Closed) \<rparr>, gs_attached := removeAll k (gs_attached S) \<rparr>"
  have "gateway_step ev i S (L_Closed k, [Emit_Event Wh_Disconnected]) ?T" by (rule gs_closed [OF assms(2) h(1)])
  moreover have "resume_wait ev i (gs_now ?T) nonce (W_Response k sig) (gs_rows ?T) (gs_handler ?T)
      = (None, gs_rows ?T, gs_handler ?T, [Unhandled_Rejection])"
    using assms(4) h(2) by (simp add: response_key_def stops_def)
  from gs_answer [OF _ _ this] assms(1,3) have "\<exists>U. gateway_step ev i ?T (L_Answer (W_Response k sig), [Unhandled_Rejection]) U"
    by auto
  ultimately show ?thesis by blast
qed

text \<open>The timer of an earlier challenge ends a later connection that still has time to answer.\<close>

lemma earlier_challenge_timer_closes:
  assumes "gh_pending_challenge h = Some (nonce, t)" "\<not> gh_authenticated h"
  shows "challenge_timer_fires h = refuse_auth ''challenge_timeout'' h"
  using assms by (simp add: challenge_timer_fires_def)

text \<open>
  Without pongs every tick of the interval sets the timeout anew, thirty seconds before it would
  be due: a silent gateway stays connected after any number of ticks.
\<close>

primrec silent_ticks :: "nat \<Rightarrow> int \<Rightarrow> gateway_handler \<Rightarrow> gateway_handler" where
  "silent_ticks 0 now h = h"
| "silent_ticks (Suc n) now h = silent_ticks n (now + GATEWAY_PING_INTERVAL_MS) (fst (ping_tick now True h))"

lemma silent_gateway_kept:
  assumes "is_connected h" "gh_pong_received h \<Longrightarrow> gh_pong_timeout h = None"
  shows "is_connected (silent_ticks n now h)
     \<and> (0 < n \<longrightarrow> (case gh_pong_timeout (silent_ticks n now h) of None \<Rightarrow> True | Some d \<Rightarrow> now + int n * GATEWAY_PING_INTERVAL_MS < d))"
  using assms
proof (induction n arbitrary: now h)
  case 0
  then show ?case by simp
next
  case (Suc n)
  let ?h = "fst (ping_tick now True h)"
  have c: "is_connected ?h" "\<not> gh_pong_received ?h"
    "gh_pong_timeout ?h = (if gh_pong_received h then None else Some (now + GATEWAY_PONG_TIMEOUT_MS))"
    using Suc.prems by (auto simp: ping_tick_def is_connected_def is_socket_connected_def Let_def split: option.splits)
  note ih = Suc.IH [of ?h "now + GATEWAY_PING_INTERVAL_MS", OF c(1)]
  show ?case
  proof (cases n)
    case 0
    then show ?thesis using c by (simp add: GATEWAY_PONG_TIMEOUT_MS_def GATEWAY_PING_INTERVAL_MS_def)
  next
    case (Suc m)
    then show ?thesis using ih c(2) by (simp add: algebra_simps split: option.splits)
  qed
qed

text \<open>
  The registry keeps the configuration it read or was given before the pairing and writes all of
  it back when any field is updated: the stored key is gone and the used secret is back.
\<close>

lemma update_undoes_pairing:
  assumes "get_provider i g = Some e" "re_type e = ''modem-gateway''" "load_config i (rg_rows g) \<noteq> None"
    and "get_public_key (Some (re_config e)) = None" "get_pairing_secret (Some (re_config e)) = Some secret"
  shows "\<exists>g'. update_begin ev i \<lparr> pu_display_name = None, pu_config = Some [], pu_enabled = None \<rparr> g = (Inr (Some (re_config e)), g')
     \<and> get_public_key (load_config i (rg_rows g')) = None \<and> get_pairing_secret (load_config i (rg_rows g')) = Some secret"
proof -
  have s: "stored_config ev ''modem-gateway'' c = c" for c
    by (simp add: stored_config_def encrypt_config_def get_sensitive_fields_def SENSITIVE_FIELDS_def)
  let ?u = "\<lparr> pu_display_name = None, pu_config = Some [], pu_enabled = None \<rparr>"
  let ?g = "g\<lparr> rg_rows := sql_update (\<lambda>row. pr_id row = i) (update_row ev (re_type e) (Some (re_config e)) ?u) (rg_rows g) \<rparr>"
  have "update_begin ev i ?u g = (Inr (Some (re_config e)), ?g)"
    using assms(1,2) by (simp add: update_begin_def Let_def spread_def validate_provider_config_def schemas_by_type_def)
  moreover have "load_config i (rg_rows ?g) = Some (re_config e)"
  proof -
    have "load_config i (sql_update (\<lambda>row. pr_id row = i) (update_row ev (re_type e) (Some (re_config e)) ?u) rows) = Some (re_config e)"
      if "load_config i rows \<noteq> None" for rows
      using that s assms(2) by (induction rows) (auto simp: load_config_def sql_first_def sql_update_def)
    then show ?thesis using assms(3) by simp
  qed
  ultimately show ?thesis using assms(4,5) by auto
qed

section \<open>Examples\<close>

text \<open>A paired gateway whose signature of a nonce is the key and the nonce together.\<close>

definition example_gateway_env :: gateway_env where
  "example_gateway_env = \<lparr> ge_parse_date = (\<lambda>_. Some 0), ge_iso_date = (\<lambda>_. []), ge_base64_length = (\<lambda>_. 32),
     ge_verify = (\<lambda>key nonce sig. sig = key @ nonce), ge_lower = to_lower \<rparr>"

definition example_gateway_row :: "config \<Rightarrow> provider_row" where
  "example_gateway_row c = \<lparr> pr_id = ''g'', pr_type = ''modem-gateway'', pr_display_name = [], pr_config = c, pr_enabled = True \<rparr>"

definition example_gateway :: gateway_system where
  "example_gateway = \<lparr> gs_handler = new_gateway_handler, gs_rows = [example_gateway_row [(js ''public_key'', CStr [7])]],
     gs_waits = [], gs_timers = [], gs_now = 5000, gs_attached = [], gs_seen = [], gs_issued = [], gs_proven = [] \<rparr>"

lemma example_gateway_start:
  "reach gateway_init (gateway_step example_gateway_env ''g'') example_gateway" "0 \<notin> set (gs_seen example_gateway)"
  "[1] \<notin> snd ` set (gs_issued example_gateway)"
  "AUTH_RATE_LIMIT_MS \<le> gs_now example_gateway - gh_last_auth_attempt (gs_handler example_gateway)"
  "get_public_key (load_config ''g'' (gs_rows example_gateway)) = Some [7]" "[7] \<noteq> ([] :: jstr)" "[7, 1] \<noteq> ([] :: jstr)"
  "ge_verify example_gateway_env [7] [1] [7, 1]"
proof -
  show "reach gateway_init (gateway_step example_gateway_env ''g'') example_gateway"
    by (rule reach_init) (simp add: gateway_init_def example_gateway_def)
qed (simp_all add: example_gateway_def new_gateway_handler_def AUTH_RATE_LIMIT_MS_def get_public_key_def stored_text_def
    load_config_def sql_first_def example_gateway_row_def config_text_def jm_get_def example_gateway_env_def)

lemma paired_gateway_admitted_witness:
  "\<exists>es T. run (gateway_step example_gateway_env ''g'') example_gateway es T \<and> is_connected (gs_handler T)"
  using paired_gateway_admitted [OF example_gateway_start] by blast

lemma gateway_heard_when_proven_witness:
  "\<exists>S m. (\<exists>k p. (k, p) \<in> set (gs_proven S) \<and> valid_proof example_gateway_env p)
     \<and> gateway_step example_gateway_env ''g'' S (L_Frame 0 (Frame m), dispatch_message m) S"
proof -
  obtain A B C D es where d: "gateway_step example_gateway_env ''g'' example_gateway (L_Connect 0, es) A"
    "gateway_step example_gateway_env ''g'' A (L_Answer (W_Initiate 0), [Ws_Send 0 (Auth_Challenge [1]), Arm_Challenge_Timer (gs_now example_gateway + CHALLENGE_EXPIRY_MS)]) B"
    "gateway_step example_gateway_env ''g'' B (L_Frame 0 (Frame (Auth_Response (Some [7, 1]))), []) C"
    "gateway_step example_gateway_env ''g'' C (L_Answer (W_Response 0 [7, 1]), [Ws_Send 0 Auth_Success, Emit_Event Wh_Authenticated]) D"
    and D: "gh_ws (gs_handler D) = Some 0" "is_connected (gs_handler D)" "set (gs_attached D) = insert 0 (set (gs_attached example_gateway))"
    by (rule gateway_handshake [OF example_gateway_start(2-8)])
  have r: "reach gateway_init (gateway_step example_gateway_env ''g'') D"
    by (rule reach_step [OF reach_step [OF reach_step [OF reach_step [OF example_gateway_start(1) d(1)] d(2)] d(3)] d(4)])
  have f: "gateway_step example_gateway_env ''g'' D (L_Frame 0 (Frame (Gm_Call_Ack ''r'')), dispatch_message (Gm_Call_Ack ''r'')) D"
    by (rule replaced_socket_heard) (use D in \<open>simp_all add: is_connected_def\<close>)
  have "To_Provider (Gm_Call_Ack ''r'') \<in> set (dispatch_message (Gm_Call_Ack ''r''))" by (simp add: dispatch_message_def)
  from gateway_heard_when_proven [OF r f this] f show ?thesis by blast
qed


lemma pairing_outcome_witness:
  "\<exists>rows' h' es. settle_wait example_gateway_env ''g'' 9 (W_Pair_Key 0 [7] (js ''AbCdEf'')) [example_gateway_row [(js ''pairing_secret'', CStr (js ''abcdef''))]]
       new_gateway_handler = (rows', h', es) \<and> (h', es) = admit new_gateway_handler"
proof -
  let ?c = "[(js ''pairing_secret'', CStr (js ''abcdef''))] :: config"
  let ?s = "settle_wait example_gateway_env ''g'' 9 (W_Pair_Key 0 [7] (js ''AbCdEf'')) [example_gateway_row ?c] new_gateway_handler"
  obtain rows' h' es where s: "?s = (rows', h', es)" by (cases ?s)
  have c: "load_config ''g'' [example_gateway_row ?c] = Some ?c"
    by (simp add: load_config_def sql_first_def example_gateway_row_def)
  have "to_lower (js ''AbCdEf'') = to_lower (js ''abcdef'')" by (simp add: text_eval to_lower_def)
  then have n: "pairing_refusal example_gateway_env 9 ?c [7] (js ''AbCdEf'') = None"
    using field_names by (simp add: pairing_refusal_def get_public_key_def get_pairing_secret_def get_pairing_secret_created_at_def
        stored_text_def config_text_def jm_get_def example_gateway_env_def Let_def js_def)
  have "(h', es) = admit new_gateway_handler"
    using pairing_outcome [OF c s example_gateway_start(6), unfolded n option.case, THEN conjunct1] .
  then show ?thesis using s by blast
qed

end
