(* ===== verification/Webhook_Router.thy ===== *)
theory Webhook_Router
  imports Provider_Registry
begin

text \<open>
  \<^verbatim>\<open>src/routes/webhook-router.ts\<close>: the route \<^verbatim>\<open>/webhooks/:providerId/*\<close>, its checks in order, and
  the handlers of the endpoints. The router has no state of its own: a request together with the
  registry and the answers of the services gives a reply and the effects on the services, in
  order. A service that is not configured is a \<open>False\<close> in \<open>services\<close>; an answer that is \<^const>\<open>None\<close>
  where one may fail is a thrown error. \<open>Reply 500\<close> is also what the server answers when a
  handler throws.
\<close>

section \<open>Requests, services and replies\<close>

record webhook_request =
  rq_is_get :: bool
  rq_auth_header :: "jstr option"
  rq_ip :: "jstr option"
  rq_query :: webhook_body
  rq_body :: "webhook_body option"

record services =
  sv_history :: bool
  sv_conversations :: bool
  sv_wake_signals :: bool
  sv_device_registry :: bool
  sv_numbers :: bool
  sv_broadcaster :: bool
  sv_orchestrator :: bool
  sv_notifications :: bool
  sv_webhook_base_url :: "jstr option"

text \<open>
  What the collaborators answer: the clock, the date and JSON parsers, the token library, whether
  a number blocks inbound calls, whether a call could be recorded, the devices to wake, the call
  and SIP address of \<^verbatim>\<open>handleInbound\<close>, the call tracked for a provider's identifier, whether
  \<^verbatim>\<open>receiveMessage\<close> succeeded, the numbers with their labels, and the provider instance.
\<close>

record answers =
  an_now :: int
  an_parse_date :: "jstr \<Rightarrow> int option"
  an_json :: "jstr \<Rightarrow> (jstr option \<times> jstr option) option"
  an_decode :: "jstr \<Rightarrow> decoded_token"
  an_verify :: "jstr \<Rightarrow> jstr \<Rightarrow> jstr option option"
  an_blocked :: "jstr \<Rightarrow> bool option"
  an_recorded :: bool
  an_devices :: "string list option"
  an_inbound :: "(string \<times> jstr) option"
  an_call_id :: "string \<Rightarrow> string option"
  an_received :: bool
  an_numbers :: "(jstr \<times> jstr option) list option"
  an_hangup_url :: jstr
  an_generic :: "jstr \<Rightarrow> webhook_body option \<Rightarrow> (webhook_answer \<times> telephony_event list) option"

datatype router_effect =
    Record_Call jstr "jstr option" call_type string
  | History_Update_Broadcast string jstr jstr
  | Wake_Devices "string list" string string
  | Blocked_Call_Event string jstr jstr
  | Handle_Inbound string string jstr jstr
  | Patch_Session string string
  | End_Call string
  | Provider_Events "telephony_event list"
  | Set_Revealed_Number string jstr
  | Receive_Message string jstr jstr jstr "int option"
  | Sms_Notification string jstr jstr "jstr option" jstr int

datatype webhook_reply = Reply nat | Reply_With webhook_answer

section \<open>Numbers\<close>

definition is_dialable_number :: "jstr \<Rightarrow> bool" where
  "is_dialable_number value = (if value = [] then False else if starts_with value [43] then True else all_digits value)"

definition router_normalize_inbound_number :: "jstr \<Rightarrow> jstr" where
  "router_normalize_inbound_number value =
     (if value = [] then value
      else if starts_with value [43] then value
      else if \<not> (value \<noteq> [] \<and> all_digits value) then value
      else if \<not> starts_with value [48] \<and> length value \<le> 6 then value
      else [43] @ value)"

text \<open>The router's copy of the normalisation is the one of \<^verbatim>\<open>phone-number-validator.ts\<close>.\<close>

lemma router_normalize_is_validators: "router_normalize_inbound_number = normalize_inbound_number"
  by (rule ext) (simp add: router_normalize_inbound_number_def normalize_inbound_number_def)

definition caller_number :: "jstr \<Rightarrow> jstr" where
  "caller_number from = (if starts_with from [43] then from else if is_dialable_number from then [43] @ from else from)"

definition numbered :: "string \<Rightarrow> int \<Rightarrow> string" where
  "numbered prefix now = prefix @ map char_of (dec (nat now))"

section \<open>Blocked calls\<close>

text \<open>The wake signals to all registered devices; failures are only logged.\<close>

definition wake_devices :: "services \<Rightarrow> answers \<Rightarrow> string \<Rightarrow> string \<Rightarrow> router_effect list" where
  "wake_devices sv an wake_id reason =
     (if sv_wake_signals sv \<and> sv_device_registry sv then
        (case an_devices an of
           None \<Rightarrow> []
         | Some devices \<Rightarrow> if devices \<noteq> [] then [Wake_Devices devices wake_id reason] else [])
      else [])"

lemma wake_devices_cases: "wake_devices sv an i r = [] \<or> (\<exists>ds. wake_devices sv an i r = [Wake_Devices ds i r])"
  by (simp add: wake_devices_def split: option.splits)

definition record_blocked_call_and_notify ::
    "services \<Rightarrow> answers \<Rightarrow> jstr \<Rightarrow> jstr \<Rightarrow> string \<Rightarrow> router_effect list" where
  "record_blocked_call_and_notify sv an from_number to_number call_id =
     (let caller = (if from_number \<noteq> [] then from_number else js ''Unknown'');
          recorded = (sv_history sv \<and> an_recorded an)
      in (if sv_history sv then [Record_Call caller (Some to_number) BLOCKED call_id] else [])
       @ (if \<not> recorded \<and> sv_broadcaster sv then [History_Update_Broadcast call_id caller to_number] else [])
       @ wake_devices sv an call_id ''blocked_call''
       @ (if sv_broadcaster sv then [Blocked_Call_Event call_id caller to_number] else []))"

text \<open>The Swedish text of the announcement; its letters outside ASCII are the units 229 and 228.\<close>

definition blocked_announcement :: jstr where
  "blocked_announcement = js ''Det g'' @ [229] @ js ''r inte att ringa till det h'' @ [228]
     @ js ''r numret just nu. Skicka ett SMS ist'' @ [228] @ js ''llet.''"

definition block_ncco :: "ncco_action list" where
  "block_ncco = [Ncco_Talk blocked_announcement False None (Some (js ''sv-SE''))]"

section \<open>The answer webhook\<close>

definition event_url_for :: "services \<Rightarrow> string \<Rightarrow> jstr option" where
  "event_url_for sv provider_id =
     (if truthy (sv_webhook_base_url sv)
      then Some (the (sv_webhook_base_url sv) @ webhook_path provider_id (js ''event'')) else None)"

text \<open>An inbound call: refused with an announcement on a blocked number, else handed to the orchestrator.\<close>

definition answer_inbound ::
    "services \<Rightarrow> answers \<Rightarrow> string \<Rightarrow> jstr \<Rightarrow> jstr \<Rightarrow> string \<Rightarrow> string \<Rightarrow> webhook_reply \<times> router_effect list" where
  "answer_inbound sv an provider_id from to provider_call_id blocked_id =
     (let normalized_to = with_plus to;
          go = (if sv_orchestrator sv then
              (case an_inbound an of
                 Some (_, uri) \<Rightarrow> generate_answer_ncco from to False (Some uri) (event_url_for sv provider_id)
               | None \<Rightarrow> generate_answer_ncco from to False None None,
               [Handle_Inbound provider_id provider_call_id (caller_number from) normalized_to])
            else (generate_answer_ncco from to False None None, []))
      in case (if sv_numbers sv then an_blocked an normalized_to else Some False) of
          None \<Rightarrow> (Reply 500, [])
        | Some True \<Rightarrow> (Reply_With (Ncco_Answer block_ncco),
            record_blocked_call_and_notify sv an (caller_number from) normalized_to blocked_id)
        | Some False \<Rightarrow> (Reply_With (Ncco_Answer (fst go)), snd go))"

definition is_inbound_pstn_call :: "webhook_body \<Rightarrow> bool" where
  "is_inbound_pstn_call body \<longleftrightarrow>
     wb_endpoint_type body = Some ''phone'' \<or> (\<not> truthy (wb_custom_data body) \<and> \<not> truthy (wb_from_user body))"

definition handle_answer :: "services \<Rightarrow> answers \<Rightarrow> string \<Rightarrow> webhook_request \<Rightarrow> webhook_reply \<times> router_effect list" where
  "handle_answer sv an provider_id rq =
     (if rq_is_get rq then
        let query = rq_query rq in
        answer_inbound sv an provider_id (orelse (wb_from query) []) (orelse (wb_to query) [])
          (orelse (wb_uuid query) '''') (numbered ''blocked-'' (an_now an))
      else (case rq_body rq of
          None \<Rightarrow> (Reply 500, [])
        | Some body \<Rightarrow>
            let from = orelse (wb_from body) []; to = orelse (wb_to body) [] in
            if is_inbound_pstn_call body then
              answer_inbound sv an provider_id from to (orelse (wb_uuid body) '''')
                (orelse (wb_uuid body) (numbered ''blocked-'' (an_now an)))
            else
              let (custom_from, custom_to) = custom_numbers (an_json an) (wb_custom_data body) from to
              in (Reply_With (Ncco_Answer (build_outbound_call_ncco custom_to custom_from (event_url_for sv provider_id))), [])))"

section \<open>The event webhook\<close>

text \<open>\<^verbatim>\<open>/^\+?\d{5,}$/\<close>\<close>

definition looks_like_number :: "jstr \<Rightarrow> bool" where
  "looks_like_number s =
     (let digits = (case s of u # t \<Rightarrow> if u = 43 then t else s | [] \<Rightarrow> []) in all_digits digits \<and> 5 \<le> length digits)"

text \<open>What an event of an inbound or outbound leg adds: the arrival, the revealed number, the outbound record.\<close>

definition event_started :: "services \<Rightarrow> answers \<Rightarrow> bool \<Rightarrow> webhook_body \<Rightarrow> router_effect list" where
  "event_started sv an is_blocked body =
     (if wb_direction body = Some ''inbound'' \<and> wb_status body = Some ''started'' \<and> truthy (wb_uuid body)
         \<and> truthy (wb_from body) \<and> truthy (wb_to body) \<and> \<not> is_internal_sdk_leg body \<and> \<not> sv_orchestrator sv \<and> \<not> is_blocked then
        (if sv_history sv then [Record_Call (caller_number (the (wb_from body))) (Some (with_plus (the (wb_to body)))) INCOMING
             (the (wb_uuid body))] else [])
      @ wake_devices sv an (the (wb_uuid body)) ''incoming_call_legacy''
      else [])"

definition event_revealed :: "services \<Rightarrow> webhook_body \<Rightarrow> router_effect list" where
  "event_revealed sv body =
     (if wb_direction body = Some ''inbound'' \<and> wb_status body = Some ''completed'' \<and> truthy (wb_uuid body)
         \<and> truthy (wb_from body) \<and> \<not> is_internal_sdk_leg body \<and> sv_history sv \<and> looks_like_number (the (wb_from body))
      then [Set_Revealed_Number (the (wb_uuid body)) (with_plus (the (wb_from body)))] else [])"

definition event_outbound :: "services \<Rightarrow> webhook_body \<Rightarrow> router_effect list" where
  "event_outbound sv body =
     (if wb_direction body = Some ''outbound'' \<and> wb_status body = Some ''ringing'' \<and> truthy (wb_uuid body)
         \<and> truthy (wb_to body) \<and> \<not> is_internal_sdk_leg body \<and> \<not> starts_with (the (wb_to body)) (js ''sip'') \<and> sv_history sv
      then [Record_Call (with_plus (the (wb_to body)))
             (if truthy (wb_from body) then Some (with_plus (the (wb_from body))) else None) OUTGOING (the (wb_uuid body))]
      else [])"

definition event_lifecycle :: "services \<Rightarrow> answers \<Rightarrow> webhook_body \<Rightarrow> router_effect list" where
  "event_lifecycle sv an body =
     (if sv_orchestrator sv then
        (if truthy (wb_uuid body) \<and> truthy (wb_status body) \<and> the (wb_status body) \<in> set vonage_terminal_statuses then
           (case an_call_id an (the (wb_uuid body)) of
              Some internal_call_id \<Rightarrow> if internal_call_id \<noteq> '''' then [End_Call internal_call_id] else []
            | None \<Rightarrow> [])
         else [])
      else [Provider_Events (vonage_process_call_event (an_parse_date an) (an_now an) body)])"

definition handle_event :: "services \<Rightarrow> answers \<Rightarrow> webhook_request \<Rightarrow> webhook_reply \<times> router_effect list" where
  "handle_event sv an rq = (case rq_body rq of
       None \<Rightarrow> (Reply 500, [])
     | Some body \<Rightarrow>
         (case (if \<not> is_internal_sdk_leg body \<and> wb_direction body = Some ''inbound'' \<and> truthy (wb_to body) \<and> sv_numbers sv
                then an_blocked an (with_plus (the (wb_to body))) else Some False) of
            None \<Rightarrow> (Reply 500, [])
          | Some is_blocked \<Rightarrow>
              (Reply_With Empty_Object,
               (if \<not> is_internal_sdk_leg body \<and> \<not> is_blocked then event_lifecycle sv an body else [])
               @ event_started sv an is_blocked body @ event_revealed sv body @ event_outbound sv body)))"

section \<open>The message webhooks\<close>

definition sms_timestamp :: "answers \<Rightarrow> jstr option \<Rightarrow> int option" where
  "sms_timestamp an timestamp = event_time (an_parse_date an) (an_now an) timestamp"

definition inbound_sms_get :: "services \<Rightarrow> answers \<Rightarrow> webhook_body \<Rightarrow> webhook_reply \<times> router_effect list" where
  "inbound_sms_get sv an query =
     (let raw_from = orelse (wb_msisdn query) []; raw_to = orelse (wb_to query) [];
          message_id = orelse (wb_message_id query) (numbered ''legacy-'' (an_now an))
      in if raw_from = [] then (Reply 400, [])
         else if sv_conversations sv then
           (if an_received an then Reply_With Empty_Object else Reply 500,
            [Receive_Message message_id (router_normalize_inbound_number raw_from) (with_plus raw_to)
               (orelse (wb_text query) []) (sms_timestamp an (wb_timestamp query))])
         else (Reply_With Empty_Object,
           [Provider_Events (vonage_process_sms_event (an_parse_date an) (an_now an)
              (query\<lparr> wb_message_uuid := wb_message_id query, wb_from := wb_msisdn query \<rparr>))]))"

definition inbound_sms_notification ::
    "answers \<Rightarrow> string \<Rightarrow> jstr \<Rightarrow> jstr \<Rightarrow> jstr \<Rightarrow> int option \<Rightarrow> router_effect option" where
  "inbound_sms_notification an message_id from to text timestamp =
     (case (an_numbers an, timestamp) of
        (Some numbers, Some t) \<Rightarrow> Some (Sms_Notification message_id from to
          (case find (\<lambda>n. fst n = to) numbers of None \<Rightarrow> None | Some n \<Rightarrow> snd n)
          (if 160 < length text then take 160 text else text) t)
      | _ \<Rightarrow> None)"

definition inbound_sms_post :: "services \<Rightarrow> answers \<Rightarrow> webhook_body \<Rightarrow> webhook_reply \<times> router_effect list" where
  "inbound_sms_post sv an body =
     (let raw_from = orelse (wb_from body) []; raw_to = orelse (wb_to body) [];
          from = router_normalize_inbound_number raw_from; to = with_plus raw_to;
          message_id = orelse (wb_message_uuid body) ''''; text = orelse (wb_text body) [];
          timestamp = sms_timestamp an (wb_timestamp body)
      in if message_id = '''' \<or> from = [] \<or> from = [43] then (Reply 400, [])
         else if sv_conversations sv \<and> \<not> an_received an then (Reply 500, [Receive_Message message_id from to text timestamp])
         else
           let received = (if sv_conversations sv then [Receive_Message message_id from to text timestamp]
               else [Provider_Events (vonage_process_sms_event (an_parse_date an) (an_now an) body)])
           in if sv_notifications sv \<and> sv_numbers sv then
                (case inbound_sms_notification an message_id from to text timestamp of
                   None \<Rightarrow> (Reply 500, received)
                 | Some notification \<Rightarrow> (Reply_With Empty_Object, received @ [notification]))
              else (Reply_With Empty_Object, received))"

definition handle_inbound_sms :: "services \<Rightarrow> answers \<Rightarrow> webhook_request \<Rightarrow> webhook_reply \<times> router_effect list" where
  "handle_inbound_sms sv an rq =
     (if rq_is_get rq then inbound_sms_get sv an (rq_query rq)
      else (case rq_body rq of None \<Rightarrow> (Reply 500, []) | Some body \<Rightarrow> inbound_sms_post sv an body))"

definition handle_sms_status :: "webhook_request \<Rightarrow> webhook_reply \<times> router_effect list" where
  "handle_sms_status rq = (case rq_body rq of
       None \<Rightarrow> (Reply 500, [])
     | Some body \<Rightarrow> (Reply_With Empty_Object, [Provider_Events (vonage_process_sms_status_event body)]))"

section \<open>46elks\<close>

text \<open>\<open>None\<close>: not an inbound call, the generic handler goes on.\<close>

definition elks46_voice_start ::
    "answers \<Rightarrow> string \<Rightarrow> config \<Rightarrow> webhook_body \<Rightarrow> (webhook_reply \<times> router_effect list) option" where
  "elks46_voice_start an provider_id config body =
     (if wb_direction body \<noteq> Some ''incoming'' then None
      else
        let call_id = orelse (wb_callid body) ''''; from = orelse (wb_from body) []; to = orelse (wb_to body) [];
            handle = Handle_Inbound provider_id call_id (if from \<noteq> [] then caller_number from else js ''anonymous'') (with_plus to)
        in Some (case an_inbound an of
            None \<Rightarrow> (Reply_With Reject_Answer, [handle])
          | Some (internal_id, uri) \<Rightarrow>
              if truthy (config_text ''websocket_number'' config)
              then (Reply_With (Connect_Answer (the (config_text ''websocket_number'' config)) from (Some (an_hangup_url an))),
                    [handle, Patch_Session internal_id call_id])
              else (Reply_With (Connect_Answer uri from (Some (an_hangup_url an))), [handle])))"

definition generic_handler :: "answers \<Rightarrow> jstr \<Rightarrow> webhook_body option \<Rightarrow> webhook_reply \<times> router_effect list" where
  "generic_handler an endpoint body = (case an_generic an endpoint body of
       None \<Rightarrow> (Reply 500, [])
     | Some (answer, events) \<Rightarrow> (Reply_With answer, [Provider_Events events]))"

section \<open>The route\<close>

definition validation_enabled :: "config \<Rightarrow> bool" where
  "validation_enabled config \<longleftrightarrow> jm_get config (js ''webhook_validation'') \<noteq> Some (COther (J_Bool False))"

definition signing_secret :: "config \<Rightarrow> jstr" where
  "signing_secret config =
     (if truthy (config_text ''signature_secret'' config) then the (config_text ''signature_secret'' config)
      else if truthy (config_text ''api_secret'' config) then the (config_text ''api_secret'' config) else [])"

definition vonage_refused :: "answers \<Rightarrow> config \<Rightarrow> webhook_request \<Rightarrow> bool" where
  "vonage_refused an config rq \<longleftrightarrow>
     validation_enabled config \<and> signing_secret config \<noteq> []
     \<and> \<not> vr_ok (verify_vonage_webhook_jwt_detailed (an_decode an) (an_verify an) (rq_auth_header rq)
           \<lparr> wa_vonage_api_secret = Some (signing_secret config),
             wa_vonage_application_id = Some (orelse (config_text ''application_id'' config) []) \<rparr>)
     \<and> \<not> rq_is_get rq"

definition allowlist_value :: "config \<Rightarrow> ip_list_value" where
  "allowlist_value config = (case jm_get config (js ''webhook_ip_allowlist'') of
       Some (CStr t) \<Rightarrow> Ip_Text t | Some (COther (J_Texts ts)) \<Rightarrow> Ip_Array ts | _ \<Rightarrow> Ip_Other)"

definition elks46_refused :: "config \<Rightarrow> webhook_request \<Rightarrow> bool" where
  "elks46_refused config rq \<longleftrightarrow>
     validation_enabled config
     \<and> \<not> verify_elks46_webhook_origin (rq_ip rq) (Some (parse_elks46_ip_allowlist (allowlist_value config)))"

definition dispatch ::
    "services \<Rightarrow> answers \<Rightarrow> string \<Rightarrow> registry_entry \<Rightarrow> jstr \<Rightarrow> webhook_request \<Rightarrow> webhook_reply \<times> router_effect list" where
  "dispatch sv an provider_id e resolved rq =
     (if re_type e = ''vonage'' \<and> resolved = js ''answer'' then handle_answer sv an provider_id rq
      else if re_type e = ''vonage'' \<and> resolved = js ''event'' then handle_event sv an rq
      else if re_type e = ''vonage'' \<and> resolved = js ''inbound-sms'' then handle_inbound_sms sv an rq
      else if re_type e = ''vonage'' \<and> resolved = js ''sms-status'' then handle_sms_status rq
      else if re_type e = ''46elks'' \<and> resolved = js ''voice_start'' \<and> sv_orchestrator sv then
        (case rq_body rq of
           None \<Rightarrow> (Reply 500, [])
         | Some body \<Rightarrow> (case elks46_voice_start an provider_id (re_config e) body of
             Some r \<Rightarrow> r
           | None \<Rightarrow> generic_handler an resolved (rq_body rq)))
      else generic_handler an resolved (rq_body rq))"

definition webhook_router ::
    "registry \<Rightarrow> services \<Rightarrow> answers \<Rightarrow> string \<Rightarrow> jstr \<Rightarrow> webhook_request \<Rightarrow> webhook_reply \<times> router_effect list" where
  "webhook_router g sv an provider_id endpoint rq =
     (case get_provider provider_id g of
        None \<Rightarrow> (Reply 404, [])
      | Some e \<Rightarrow>
          if re_status e = Disabled \<or> \<not> re_enabled e then (Reply 503, [])
          else (case re_instance e of
              None \<Rightarrow> (Reply 503, [])
            | Some inst \<Rightarrow>
                if re_type e = ''vonage'' \<and> vonage_refused an (re_config e) rq then (Reply 401, [])
                else if re_type e = ''46elks'' \<and> elks46_refused (re_config e) rq then (Reply 403, [])
                else (case resolve_webhook_endpoint endpoint (get_accepted_endpoints (re_type e) (in_webhook_endpoints inst)) of
                    None \<Rightarrow> (Reply 404, [])
                  | Some resolved \<Rightarrow> dispatch sv an provider_id e resolved rq)))"

text \<open>The pattern \<^verbatim>\<open>/webhooks/:providerId/*\<close> on a path: a parameter is a non-empty segment.\<close>

definition match_webhook_route :: "jstr \<Rightarrow> (jstr \<times> jstr) option" where
  "match_webhook_route path =
     (if starts_with path (js ''/webhooks/'') then
        (let rest = drop 10 path; i = takeWhile (\<lambda>u. u \<noteq> 47) rest in
         case dropWhile (\<lambda>u. u \<noteq> 47) rest of
           [] \<Rightarrow> None
         | _ # endpoint \<Rightarrow> if i = [] then None else Some (i, endpoint))
      else None)"

section \<open>Who causes effects\<close>

lemma router_effects:
  assumes "snd (webhook_router g sv an i endpoint rq) \<noteq> []"
  shows "\<exists>e inst resolved. get_provider i g = Some e \<and> re_enabled e \<and> re_status e \<noteq> Disabled \<and> re_instance e = Some inst
    \<and> \<not> (re_type e = ''vonage'' \<and> vonage_refused an (re_config e) rq)
    \<and> \<not> (re_type e = ''46elks'' \<and> elks46_refused (re_config e) rq)
    \<and> resolve_webhook_endpoint endpoint (get_accepted_endpoints (re_type e) (in_webhook_endpoints inst)) = Some resolved
    \<and> webhook_router g sv an i endpoint rq = dispatch sv an i e resolved rq"
proof -
  obtain e where e: "get_provider i g = Some e"
    using assms by (cases "get_provider i g") (simp_all add: webhook_router_def)
  have s: "re_enabled e" "re_status e \<noteq> Disabled" using assms e by (simp_all add: webhook_router_def split: if_splits)
  obtain inst where inst: "re_instance e = Some inst"
    using assms e s by (cases "re_instance e") (simp_all add: webhook_router_def)
  have v: "\<not> (re_type e = ''vonage'' \<and> vonage_refused an (re_config e) rq)"
    using assms e s inst by (simp add: webhook_router_def split: if_splits)
  have x: "\<not> (re_type e = ''46elks'' \<and> elks46_refused (re_config e) rq)"
    using assms e s inst v by (simp add: webhook_router_def split: if_splits)
  obtain resolved where r: "resolve_webhook_endpoint endpoint (get_accepted_endpoints (re_type e) (in_webhook_endpoints inst)) = Some resolved"
    using assms e s inst v x
    by (cases "resolve_webhook_endpoint endpoint (get_accepted_endpoints (re_type e) (in_webhook_endpoints inst))")
      (simp_all add: webhook_router_def)
  have "webhook_router g sv an i endpoint rq = dispatch sv an i e resolved rq"
    unfolding webhook_router_def using e s inst v x r by (simp del: de_Morgan_conj)
  with e s inst v x r show ?thesis by blast
qed

lemma vonage_accepted:
  assumes "\<not> vonage_refused an config rq" "validation_enabled config" "signing_secret config \<noteq> []"
  shows "rq_is_get rq \<or> (\<exists>token application_id. rq_auth_header rq = Some (BEARER @ token)
    \<and> an_verify an token (signing_secret config) = Some application_id
    \<and> (truthy (config_text ''application_id'' config) \<longrightarrow> application_id = config_text ''application_id'' config))"
proof (cases "rq_is_get rq")
  case False
  let ?c = "\<lparr> wa_vonage_api_secret = Some (signing_secret config),
      wa_vonage_application_id = Some (orelse (config_text ''application_id'' config) []) \<rparr>"
  have "verify_vonage_webhook_jwt (an_decode an) (an_verify an) (rq_auth_header rq) ?c"
    using assms False by (simp add: vonage_refused_def verify_vonage_webhook_jwt_def)
  then obtain token application_id where "rq_auth_header rq = Some (BEARER @ token)"
    "an_verify an token (signing_secret config) = Some application_id"
    "truthy (Some (orelse (config_text ''application_id'' config) [])) \<longrightarrow> application_id = Some (orelse (config_text ''application_id'' config) [])"
    unfolding verify_ok_iff by auto
  moreover have "truthy (config_text ''application_id'' config) \<Longrightarrow>
      Some (orelse (config_text ''application_id'' config) []) = config_text ''application_id'' config"
    by (auto simp: truthy_iff)
  moreover have "truthy (config_text ''application_id'' config) \<Longrightarrow> truthy (Some (orelse (config_text ''application_id'' config) []))"
    by (auto simp: truthy_iff)
  ultimately show ?thesis by metis
qed simp

definition example_services :: services where
  "example_services = \<lparr> sv_history = True, sv_conversations = True, sv_wake_signals = False, sv_device_registry = True,
     sv_numbers = True, sv_broadcaster = True, sv_orchestrator = True, sv_notifications = True,
     sv_webhook_base_url = Some (js ''https://x'') \<rparr>"

definition example_answers :: answers where
  "example_answers = \<lparr> an_now = 1000, an_parse_date = (\<lambda>_. Some 5), an_json = (\<lambda>_. None), an_decode = (\<lambda>_. Decode_Null),
     an_verify = (\<lambda>token secret. if token = secret then Some None else None), an_blocked = (\<lambda>_. Some False), an_recorded = True,
     an_devices = None, an_inbound = Some (''c1'', js ''sip:c1''), an_call_id = (\<lambda>_. Some ''c1''), an_received = True,
     an_numbers = Some [], an_hangup_url = js ''https://x/h'', an_generic = (\<lambda>_ _. None) \<rparr>"

definition example_vonage_entry :: registry_entry where
  "example_vonage_entry = fresh_entry (Some (example_inst\<lparr> in_webhook_endpoints := vonage_webhook_endpoints \<rparr>)) ''v1'' ''vonage'' (js ''V'')
     [(js ''api_secret'', CStr (js ''s3''))] True"

definition example_vonage_registry :: registry where
  "example_vonage_registry = \<lparr> rg_providers = [(''v1'', example_vonage_entry)], rg_rows = [], rg_health_poll = None \<rparr>"

definition example_request :: webhook_request where
  "example_request = \<lparr> rq_is_get = False, rq_auth_header = Some (BEARER @ js ''s3''), rq_ip = None, rq_query = no_fields,
     rq_body = Some (no_fields\<lparr> wb_uuid := Some ''u1'', wb_status := Some ''completed'', wb_to := Some (js ''46700000001''),
       wb_from := Some (js ''46700000002''), wb_direction := Some ''inbound'' \<rparr>) \<rparr>"

lemma example_vonage_simps:
  "get_provider ''v1'' example_vonage_registry = Some example_vonage_entry"
  "re_status example_vonage_entry = Active" "re_enabled example_vonage_entry" "re_type example_vonage_entry = ''vonage''"
  "re_instance example_vonage_entry = Some (example_inst\<lparr> in_webhook_endpoints := vonage_webhook_endpoints \<rparr>)"
  "config_text ''api_secret'' (re_config example_vonage_entry) = Some (js ''s3'')"
  "validation_enabled (re_config example_vonage_entry)" "signing_secret (re_config example_vonage_entry) = js ''s3''"
  by (simp_all add: example_vonage_registry_def example_vonage_entry_def get_provider_def jm_get_def fresh_entry_def
      config_text_def validation_enabled_def signing_secret_def js_def)

lemma example_vonage_accepts: "\<not> vonage_refused example_answers (re_config example_vonage_entry) example_request"
proof -
  have "verify_vonage_webhook_jwt (an_decode example_answers) (an_verify example_answers) (rq_auth_header example_request)
      \<lparr> wa_vonage_api_secret = Some (js ''s3''), wa_vonage_application_id = Some [] \<rparr>"
    unfolding verify_ok_iff by (simp add: example_request_def example_answers_def) (simp add: js_def)
  moreover have "config_text ''application_id'' (re_config example_vonage_entry) = None"
    by (simp add: example_vonage_entry_def fresh_entry_def config_text_def jm_get_def)
  ultimately show ?thesis
    by (simp add: vonage_refused_def example_vonage_simps verify_vonage_webhook_jwt_def)
qed

lemma example_event_run:
  "webhook_router example_vonage_registry example_services example_answers ''v1'' (js ''event'') example_request
    = (Reply_With Empty_Object, [End_Call ''c1'', Set_Revealed_Number ''u1'' (js ''+46700000002'')])"
proof -
  have "js ''event'' \<in> set (get_accepted_endpoints ''vonage'' vonage_webhook_endpoints)" "js ''event'' \<noteq> []"
    by (simp_all add: get_accepted_endpoints_def vonage_webhook_endpoints_def) (simp add: js_def)
  then have r: "resolve_webhook_endpoint (js ''event'') (get_accepted_endpoints ''vonage'' vonage_webhook_endpoints) = Some (js ''event'')"
    by (rule resolve_native)
  have "handle_event example_services example_answers example_request
    = (Reply_With Empty_Object, [End_Call ''c1'', Set_Revealed_Number ''u1'' (js ''+46700000002'')])"
    by (simp add: handle_event_def example_request_def example_services_def example_answers_def no_fields_def is_internal_sdk_leg_def
        with_plus_def event_lifecycle_def vonage_terminal_statuses_def event_started_def event_revealed_def event_outbound_def
        looks_like_number_def)
      (simp add: js_def starts_with_def is_digit_def)
  then show ?thesis
    by (simp add: webhook_router_def example_vonage_simps example_vonage_accepts dispatch_def r)
qed

text \<open>C16. Every effect of a webhook request comes from an admitted sender: the provider is
  registered, enabled and has an instance, the endpoint is one it accepts, and, unless its
  validation was switched off, a request to a Vonage provider with a signing secret is a GET or
  carries a bearer token whose signature holds under that secret (and whose application is the
  configured one), and a request to a 46elks provider comes from an address of its allowlist.
  Any other request is answered with an error status and changes nothing.\<close>

theorem webhook_effects_admitted:
  assumes "snd (webhook_router g sv an i endpoint rq) \<noteq> []"
  shows "\<exists>e inst resolved. get_provider i g = Some e \<and> re_enabled e \<and> re_instance e = Some inst
    \<and> resolved \<in> set (get_accepted_endpoints (re_type e) (in_webhook_endpoints inst))
    \<and> resolve_webhook_endpoint endpoint (get_accepted_endpoints (re_type e) (in_webhook_endpoints inst)) = Some resolved
    \<and> (re_type e = ''vonage'' \<and> validation_enabled (re_config e) \<and> signing_secret (re_config e) \<noteq> [] \<longrightarrow>
        rq_is_get rq \<or> (\<exists>token application_id. rq_auth_header rq = Some (BEARER @ token)
          \<and> an_verify an token (signing_secret (re_config e)) = Some application_id
          \<and> (truthy (config_text ''application_id'' (re_config e)) \<longrightarrow> application_id = config_text ''application_id'' (re_config e))))
    \<and> (re_type e = ''46elks'' \<and> validation_enabled (re_config e) \<longrightarrow>
        verify_elks46_webhook_origin (rq_ip rq) (Some (parse_elks46_ip_allowlist (allowlist_value (re_config e)))))"
proof -
  obtain e inst resolved where e: "get_provider i g = Some e" "re_enabled e" "re_instance e = Some inst"
    "\<not> (re_type e = ''vonage'' \<and> vonage_refused an (re_config e) rq)"
    "\<not> (re_type e = ''46elks'' \<and> elks46_refused (re_config e) rq)"
    and r: "resolve_webhook_endpoint endpoint (get_accepted_endpoints (re_type e) (in_webhook_endpoints inst)) = Some resolved"
    using router_effects [OF assms] by blast
  have "re_type e = ''vonage'' \<and> validation_enabled (re_config e) \<and> signing_secret (re_config e) \<noteq> [] \<longrightarrow>
        rq_is_get rq \<or> (\<exists>token application_id. rq_auth_header rq = Some (BEARER @ token)
          \<and> an_verify an token (signing_secret (re_config e)) = Some application_id
          \<and> (truthy (config_text ''application_id'' (re_config e)) \<longrightarrow> application_id = config_text ''application_id'' (re_config e)))"
    using vonage_accepted e(4) by blast
  moreover have "re_type e = ''46elks'' \<and> validation_enabled (re_config e) \<longrightarrow>
        verify_elks46_webhook_origin (rq_ip rq) (Some (parse_elks46_ip_allowlist (allowlist_value (re_config e))))"
    using e(5) by (simp add: elks46_refused_def)
  ultimately show ?thesis using e(1-3) r resolve_accepted [OF r] by blast
qed

theorem webhook_effects_admitted_witness:
  "\<exists>token application_id. rq_auth_header example_request = Some (BEARER @ token)
     \<and> an_verify example_answers token (js ''s3'') = Some application_id"
proof -
  have n: "snd (webhook_router example_vonage_registry example_services example_answers ''v1'' (js ''event'') example_request) \<noteq> []"
    by (simp add: example_event_run)
  have "js ''s3'' \<noteq> []" "\<not> rq_is_get example_request" by (simp_all add: js_def example_request_def)
  then show ?thesis
    using webhook_effects_admitted [OF n] by (auto simp: example_vonage_simps)
qed

section \<open>Blocked numbers\<close>

definition is_inbound_handling :: "router_effect \<Rightarrow> bool" where
  "is_inbound_handling x = (case x of Handle_Inbound _ _ _ _ \<Rightarrow> True | _ \<Rightarrow> False)"

lemma blocked_effects:
  assumes "sv_numbers sv" "an_blocked an (with_plus to) = Some True"
  shows "answer_inbound sv an i from to pid bid
    = (Reply_With (Ncco_Answer block_ncco), record_blocked_call_and_notify sv an (caller_number from) (with_plus to) bid)"
  using assms by (simp add: answer_inbound_def)

lemma blocked_record_quiet: "\<forall>x \<in> set (record_blocked_call_and_notify sv an caller to bid). \<not> is_inbound_handling x"
proof -
  have "\<forall>x \<in> set (wake_devices sv an bid r). \<not> is_inbound_handling x" for r
    using wake_devices_cases [of sv an bid r] by (auto simp: is_inbound_handling_def)
  then show ?thesis by (simp add: record_blocked_call_and_notify_def Let_def ball_Un is_inbound_handling_def)
qed

lemma blocked_record_effects:
  assumes "caller \<noteq> []"
  shows "sv_history sv \<Longrightarrow> Record_Call caller (Some to) BLOCKED bid \<in> set (record_blocked_call_and_notify sv an caller to bid)"
    and "sv_broadcaster sv \<Longrightarrow> Blocked_Call_Event bid caller to \<in> set (record_blocked_call_and_notify sv an caller to bid)"
    and "sv_history sv \<Longrightarrow> sv_broadcaster sv \<Longrightarrow> \<not> an_recorded an
      \<Longrightarrow> History_Update_Broadcast bid caller to \<in> set (record_blocked_call_and_notify sv an caller to bid)"
  using assms by (simp_all add: record_blocked_call_and_notify_def Let_def)

lemma caller_number_Nil [simp]: "caller_number from = [] \<longleftrightarrow> from = []"
  by (auto simp: caller_number_def is_dialable_number_def)



text \<open>
  The 46elks handler does not ask whether the number is blocked: whatever the owner set, an
  incoming call is handed to the orchestrator.
\<close>

lemma elks46_ignores_block:
  assumes "wb_direction body = Some ''incoming''"
  shows "\<exists>r x es. elks46_voice_start an i config body = Some (r, x # es) \<and> is_inbound_handling x
    \<and> elks46_voice_start (an\<lparr> an_blocked := b \<rparr>) i config body = elks46_voice_start an i config body"
  using assms by (simp add: elks46_voice_start_def Let_def is_inbound_handling_def split: option.splits)

section \<open>Unsigned requests\<close>

text \<open>
  A GET is not held to the signature: a message delivered by a GET without any token, to a Vonage
  provider with validation on and a secret configured, is stored as an incoming message from the
  number it names. No notification is made for it, unlike for a POST.
\<close>

lemma unsigned_get_delivers_sms:
  assumes "get_provider i g = Some e" "re_type e = ''vonage''" "re_enabled e" "re_status e \<noteq> Disabled"
    and "re_instance e = Some inst" "in_webhook_endpoints inst = vonage_webhook_endpoints"
    and "rq_is_get rq" "rq_auth_header rq = None" "sv_conversations sv" "an_received an"
    and "wb_msisdn (rq_query rq) = Some from" "from \<noteq> []"
  shows "\<exists>message_id to text t. webhook_router g sv an i (js ''inbound-sms'') rq
    = (Reply_With Empty_Object, [Receive_Message message_id (router_normalize_inbound_number from) to text t])"
proof -
  have "js ''inbound-sms'' \<in> set (get_accepted_endpoints ''vonage'' vonage_webhook_endpoints)" "js ''inbound-sms'' \<noteq> []"
    by (simp_all add: get_accepted_endpoints_def vonage_webhook_endpoints_def) (simp add: js_def)
  then have r: "resolve_webhook_endpoint (js ''inbound-sms'') (get_accepted_endpoints ''vonage'' vonage_webhook_endpoints) = Some (js ''inbound-sms'')"
    by (rule resolve_native)
  have n: "\<not> vonage_refused an (re_config e) rq" using assms(7) by (simp add: vonage_refused_def)
  show ?thesis
    using assms by (simp add: webhook_router_def n r dispatch_def handle_inbound_sms_def inbound_sms_get_def Let_def)
qed

section \<open>URLs and the route\<close>

definition no_slash :: "string \<Rightarrow> bool" where
  "no_slash i \<longleftrightarrow> i \<noteq> '''' \<and> 47 \<notin> set (js i)"

lemma match_webhook_path: "no_slash i \<Longrightarrow> match_webhook_route (webhook_path i endpoint) = Some (js i, endpoint)"
proof -
  assume i: "no_slash i"
  have p: "starts_with (webhook_path i endpoint) (js ''/webhooks/'')" "drop 10 (webhook_path i endpoint) = js i @ 47 # endpoint"
    by (simp_all add: webhook_path_def starts_with_def js_def)
  have "\<forall>u \<in> set (js i). u \<noteq> 47" using i by (metis no_slash_def)
  then have t: "takeWhile (\<lambda>u. u \<noteq> 47) (js i @ 47 # endpoint) = js i" "dropWhile (\<lambda>u. u \<noteq> 47) (js i @ 47 # endpoint) = 47 # endpoint"
    by (simp_all add: takeWhile_append2 dropWhile_append2)
  have "js i \<noteq> []" using i by (simp add: no_slash_def js_def)
  then show ?thesis by (simp add: match_webhook_route_def p t Let_def)
qed

text \<open>The URLs the registry hands out are served: each is the base URL followed by a path that
  the route takes apart into this provider and this endpoint, and the endpoint resolves to
  itself, so a configured webhook never meets the unknown-provider or unknown-endpoint answer.
  The URL a 46elks call reports its end to is served likewise, although it is not handed out.\<close>

theorem webhook_urls_are_served:
  assumes "no_slash i" "get_provider i g = Some e" "re_instance e = Some inst"
    and "url \<in> set (get_webhook_urls base_url i g)" "[] \<notin> set (in_webhook_endpoints inst)"
  shows "\<exists>path endpoint. url = strip_slash base_url @ path \<and> match_webhook_route path = Some (js i, endpoint)
    \<and> endpoint \<in> set (in_webhook_endpoints inst)
    \<and> resolve_webhook_endpoint endpoint (get_accepted_endpoints (re_type e) (in_webhook_endpoints inst)) = Some endpoint"
proof -
  obtain endpoint where u: "url = strip_slash base_url @ webhook_path i endpoint" "endpoint \<in> set (in_webhook_endpoints inst)"
    using assms(2-4) by (auto simp: get_webhook_urls_def entry_endpoints_def)
  have "endpoint \<noteq> []" using u(2) assms(5) by metis
  then have "resolve_webhook_endpoint endpoint (get_accepted_endpoints (re_type e) (in_webhook_endpoints inst)) = Some endpoint"
    using u(2) by (simp add: get_accepted_endpoints_def)
  then show ?thesis using u match_webhook_path [OF assms(1)] by blast
qed

theorem webhook_urls_are_served_witness:
  "\<exists>path endpoint. js ''https://x/webhooks/p1/voice_start'' = strip_slash (js ''https://x'') @ path
     \<and> match_webhook_route path = Some (js ''p1'', endpoint)"
proof -
  have "js ''https://x/webhooks/p1/voice_start'' \<in> set (get_webhook_urls (js ''https://x'') ''p1'' example_registry)"
    by (simp add: get_webhook_urls_def example_registry_simps entry_endpoints_def fresh_entry_def example_inst_def
        elks46_webhook_endpoints_def strip_slash_def webhook_path_def) (simp add: js_def)
  then show ?thesis
    using webhook_urls_are_served [of "''p1''" example_registry "fresh_entry (Some example_inst) ''p1'' ''46elks'' (js ''Elks'') example_elks_config True"
        example_inst "js ''https://x/webhooks/p1/voice_start''" "js ''https://x''"]
    by (auto simp: example_registry_simps no_slash_def fresh_entry_def example_inst_def elks46_webhook_endpoints_def js_def)
qed

lemma elks46_hangup_url_served:
  assumes "no_slash i" "ec_registry_id config = Some (js i)" "in_webhook_endpoints inst = elks46_webhook_endpoints"
  shows "get_hangup_webhook_url config = ec_webhook_base_url config @ webhook_path i (js ''voice_event'')
    \<and> match_webhook_route (webhook_path i (js ''voice_event'')) = Some (js i, js ''voice_event'')
    \<and> resolve_webhook_endpoint (js ''voice_event'') (get_accepted_endpoints ''46elks'' (in_webhook_endpoints inst)) = Some (js ''voice_event'')"
proof -
  have "js ''voice_event'' \<in> set (get_accepted_endpoints ''46elks'' (in_webhook_endpoints inst))" "js ''voice_event'' \<noteq> []"
    by (simp_all add: get_accepted_endpoints_def EXTRA_SUPPORTED_ENDPOINTS_def) (simp add: js_def)
  then have "resolve_webhook_endpoint (js ''voice_event'') (get_accepted_endpoints ''46elks'' (in_webhook_endpoints inst)) = Some (js ''voice_event'')"
    by (rule resolve_native)
  then show ?thesis
    using assms(1,2) match_webhook_path by (simp add: get_hangup_webhook_url_def elks46_webhook_url_def webhook_path_def)
qed

text \<open>
  The URL that an outbound Vonage call reports its events to has no provider in its path, and
  the route does not match it: these events are not delivered.
\<close>

lemma vonage_event_url_unserved:
  "vonage_event_url config = vc_webhook_base_url config @ js ''/webhooks/event'' \<and> match_webhook_route (js ''/webhooks/event'') = None"
  by (simp add: vonage_event_url_def match_webhook_route_def Let_def) (simp add: js_def)

end
