(* ===== verification/Server_Events.thy ===== *)
theory Server_Events
  imports Webhook_Router Call_Lifecycle
begin

text \<open>
  \<^verbatim>\<open>src/server.ts\<close>: the factory of providers and the listener that the server attaches to each
  provider instance. The listener's own state is the map of calls it tracks for providers whose
  calls the orchestrator does not manage. A promise that the listener starts and only logs is
  an effect; where it waits for an answer to go on (the stored message, the updated history
  entry) the answer is an argument.
\<close>

section \<open>The factory\<close>

definition config_or :: "string \<Rightarrow> config \<Rightarrow> jstr \<Rightarrow> jstr" where
  "config_or field config d = (if truthy (config_text field config) then the (config_text field config) else d)"

definition nonempty_text :: "string \<Rightarrow> config \<Rightarrow> jstr option" where
  "nonempty_text field config = (if truthy (config_text field config) then config_text field config else None)"

text \<open>\<^verbatim>\<open>Boolean(v)\<close> of a configuration value.\<close>

fun js_boolean :: "other_json config_value \<Rightarrow> bool" where
  "js_boolean (CStr s) = (s \<noteq> [])"
| "js_boolean (COther J_Null) = False"
| "js_boolean (COther (J_Bool b)) = b"
| "js_boolean (COther _) = True"

definition make_vonage :: "jstr \<Rightarrow> config \<Rightarrow> vonage_provider" where
  "make_vonage server_base config = new_vonage_provider
     \<lparr> vc_application_id = orelse (config_text ''application_id'' config) [],
       vc_private_key = nonempty_text ''private_key'' config,
       vc_private_key_path = nonempty_text ''private_key_path'' config,
       vc_webhook_base_url = config_or ''webhook_base_url'' config server_base,
       vc_supports_sips = (case jm_get config (js ''supports_sips'') of
           None \<Rightarrow> None | Some v \<Rightarrow> if v = COther J_Null then None else Some (js_boolean v)) \<rparr>"

definition make_elks46 :: "jstr \<Rightarrow> string \<Rightarrow> config \<Rightarrow> elks46_provider" where
  "make_elks46 server_base registry_id config = new_elks46_provider
     \<lparr> ec_webhook_base_url = config_or ''webhook_base_url'' config server_base,
       ec_registry_id = Some (js registry_id),
       ec_websocket_number = nonempty_text ''websocket_number'' config \<rparr>"

text \<open>A 46elks call reports its end to a URL under this provider's identifier.\<close>

lemma made_elks46_hangup_url:
  "get_hangup_webhook_url (ep_config (make_elks46 base i config))
     = config_or ''webhook_base_url'' config base @ webhook_path i (js ''voice_event'')"
  by (simp add: make_elks46_def new_elks46_provider_def get_hangup_webhook_url_def elks46_webhook_url_def webhook_path_def)

section \<open>The listener\<close>

record legacy_call =
  lc_status :: string
  lc_from :: "jstr option"
  lc_provider_number :: "jstr option"
  lc_started_at :: int

type_synonym legacy_calls = "(string, legacy_call) jmap"

datatype server_effect =
    Store_Message string jstr jstr jstr "int option"
  | Ack_Message string
  | Notify_Sms string jstr jstr "jstr option" jstr int
  | Orchestrator_End string
  | Orchestrator_Inbound string string jstr jstr
  | Broadcast_Status string string "int option"
  | Broadcast_Caller_Disconnect string
  | Wake_Missed "string list" string
  | History_Missed string
  | History_Duration string int
  | History_Unanswered string

text \<open>\<open>stored\<close>: the message was rejected (\<^const>\<open>None\<close>), new, or a duplicate.\<close>

definition sms_notice ::
    "(jstr \<times> jstr option) list option \<Rightarrow> string \<Rightarrow> jstr \<Rightarrow> jstr \<Rightarrow> jstr \<Rightarrow> int option \<Rightarrow> server_effect list" where
  "sms_notice numbers message_id from to body timestamp = (case (numbers, timestamp) of
       (Some ns, Some t) \<Rightarrow> [Notify_Sms message_id from to
          (case find (\<lambda>n. fst n = to) ns of None \<Rightarrow> None | Some n \<Rightarrow> snd n)
          (if 160 < length body then take 160 body else body) t]
     | _ \<Rightarrow> [])"

lemma sms_notice_cases: "sms_notice ns m f to b t = [] \<or> (\<exists>l p u. sms_notice ns m f to b t = [Notify_Sms m f to l p u])"
  unfolding sms_notice_def by (cases ns; cases t) simp_all

definition on_incoming_sms ::
    "bool \<Rightarrow> bool option \<Rightarrow> (jstr \<times> jstr option) list option \<Rightarrow> string \<Rightarrow> jstr \<Rightarrow> jstr \<Rightarrow> jstr \<Rightarrow> int option \<Rightarrow> server_effect list" where
  "on_incoming_sms is_modem_gateway stored numbers message_id from to body timestamp =
     Store_Message message_id from to body timestamp #
     (case stored of
        None \<Rightarrow> []
      | Some is_new \<Rightarrow>
          (if is_modem_gateway then [Ack_Message message_id] else [])
        @ (if is_new then sms_notice numbers message_id from to body timestamp else []))"

definition legacy_status :: "call_state \<Rightarrow> string" where
  "legacy_status state = (case state of RINGING \<Rightarrow> ''ringing'' | ANSWERED \<Rightarrow> ''connected'' | COMPLETED \<Rightarrow> ''completed''
     | FAILED \<Rightarrow> ''failed'' | BUSY \<Rightarrow> ''busy'')"

text \<open>\<open>missed\<close>: the identifier of the entry that the update to \<^verbatim>\<open>MISSED\<close> changed, if any; \<open>None\<close> when it failed.\<close>

definition legacy_history ::
    "string option option \<Rightarrow> string list option \<Rightarrow> string \<Rightarrow> call_state \<Rightarrow> int option \<Rightarrow> server_effect list" where
  "legacy_history missed devices call_id state duration =
     History_Missed call_id #
     (case missed of
        None \<Rightarrow> []
      | Some (Some entry_id) \<Rightarrow> Broadcast_Caller_Disconnect call_id #
          (case devices of None \<Rightarrow> [] | Some ds \<Rightarrow> if ds \<noteq> [] then [Wake_Missed ds entry_id] else [])
      | Some None \<Rightarrow>
          if state = COMPLETED \<and> (case duration of None \<Rightarrow> False | Some d \<Rightarrow> 0 < d)
          then [History_Duration call_id (the duration)] else [History_Unanswered call_id])"

definition on_call_state_changed ::
    "(string \<Rightarrow> string option) \<Rightarrow> string option option \<Rightarrow> string list option \<Rightarrow> int
      \<Rightarrow> string \<Rightarrow> call_state \<Rightarrow> int option \<Rightarrow> legacy_calls \<Rightarrow> legacy_calls \<times> server_effect list" where
  "on_call_state_changed call_of missed devices now call_id state duration calls =
     (if truthy (call_of call_id) then
        (calls, if ended state then [Orchestrator_End (the (call_of call_id))]
           else if state = ANSWERED then [Broadcast_Status (the (call_of call_id)) ''connected'' None] else [])
      else
        let existing = jm_get calls call_id;
            calls1 = (if state = ANSWERED then jm_set call_id
                \<lparr> lc_status = ''connected'', lc_from = (case existing of None \<Rightarrow> None | Some e \<Rightarrow> lc_from e),
                  lc_provider_number = (case existing of None \<Rightarrow> None | Some e \<Rightarrow> lc_provider_number e),
                  lc_started_at = (case existing of None \<Rightarrow> now | Some e \<Rightarrow> lc_started_at e) \<rparr> calls
              else calls)
        in if ended state \<and> call_id \<noteq> ''''
           then (jm_delete call_id calls1, Broadcast_Status call_id (legacy_status state) duration #
                   legacy_history missed devices call_id state duration)
           else (calls1, [Broadcast_Status call_id (legacy_status state) duration]))"

definition on_incoming_call :: "(string \<Rightarrow> string option) \<Rightarrow> string \<Rightarrow> string \<Rightarrow> jstr \<Rightarrow> jstr \<Rightarrow> server_effect list" where
  "on_incoming_call call_of entry_id call_id from to =
     (if truthy (call_of call_id) then []
      else [Orchestrator_Inbound entry_id call_id (if from \<noteq> [] \<and> trim from \<noteq> [] then from else js ''anonymous'') to])"

text \<open>What the listener is told: the answers to the requests it waits for, per event.\<close>

record listener_env =
  le_entry_id :: string
  le_is_modem_gateway :: bool
  le_now :: int
  le_call_of :: "string \<Rightarrow> string option"
  le_stored :: "string \<Rightarrow> bool option"
  le_numbers :: "(jstr \<times> jstr option) list option"
  le_missed :: "string \<Rightarrow> string option option"
  le_devices :: "string list option"

definition on_provider_event :: "listener_env \<Rightarrow> telephony_event \<Rightarrow> legacy_calls \<Rightarrow> legacy_calls \<times> server_effect list" where
  "on_provider_event env event calls = (case event of
       Incoming_Sms message_id from to body timestamp \<Rightarrow>
         (calls, on_incoming_sms (le_is_modem_gateway env) (le_stored env message_id) (le_numbers env) message_id from to body timestamp)
     | Call_State_Changed call_id state timestamp duration \<Rightarrow>
         on_call_state_changed (le_call_of env) (le_missed env call_id) (le_devices env) (le_now env) call_id state duration calls
     | Incoming_Call call_id from to timestamp \<Rightarrow> (calls, on_incoming_call (le_call_of env) (le_entry_id env) call_id from to)
     | Sms_Status_Update _ _ \<Rightarrow> (calls, []))"

fun on_provider_events :: "listener_env \<Rightarrow> telephony_event list \<Rightarrow> legacy_calls \<Rightarrow> legacy_calls \<times> server_effect list" where
  "on_provider_events env [] calls = (calls, [])"
| "on_provider_events env (event # events) calls =
     (case on_provider_event env event calls of (c1, e1) \<Rightarrow>
      (case on_provider_events env events c1 of (c2, e2) \<Rightarrow> (c2, e1 @ e2)))"

section \<open>From a webhook to the orchestrator\<close>

text \<open>The calls that a router effect ends: directly, or through the events handed to the listener.\<close>

definition ended_by_server :: "server_effect \<Rightarrow> string list" where
  "ended_by_server x = (case x of Orchestrator_End c \<Rightarrow> [c] | _ \<Rightarrow> [])"

definition ended_by_router :: "listener_env \<Rightarrow> legacy_calls \<Rightarrow> router_effect \<Rightarrow> string list" where
  "ended_by_router env calls x = (case x of
       End_Call c \<Rightarrow> [c]
     | Provider_Events events \<Rightarrow> concat (map ended_by_server (snd (on_provider_events env events calls)))
     | _ \<Rightarrow> [])"

definition end_requested :: "string list \<Rightarrow> int \<Rightarrow> orchestrator \<Rightarrow> orchestrator \<times> orch_effect list" where
  "end_requested cs now s = end_calls (map (\<lambda>c. (c, Some ''provider_call_state_changed'')) cs) now s"

text \<open>A webhook request as the server runs it: the router, the listener, the orchestrator.\<close>

definition serve_webhook ::
    "registry \<Rightarrow> services \<Rightarrow> answers \<Rightarrow> listener_env \<Rightarrow> legacy_calls \<Rightarrow> string \<Rightarrow> jstr \<Rightarrow> webhook_request \<Rightarrow> orchestrator
      \<Rightarrow> webhook_reply \<times> orchestrator \<times> orch_effect list" where
  "serve_webhook g sv an env calls i endpoint rq s =
     (let (reply, effects) = webhook_router g sv (an\<lparr> an_call_id := \<lambda>pid. get_call_id_by_provider_call_id pid s \<rparr>) i endpoint rq;
          (s', es) = end_requested
            (concat (map (ended_by_router (env\<lparr> le_call_of := \<lambda>pid. get_call_id_by_provider_call_id pid s \<rparr>) calls) effects))
            (an_now an) s
      in (reply, s', es))"

lemma end_requested_one:
  assumes "maps_ok s" "jm_get (or_active_calls s) c = Some call"
  shows "end_requested [c] now s = (untrack call s, end_effects (Some ''provider_call_state_changed'') now call)"
  using end_call_some [OF assms(1), of c call "Some ''provider_call_state_changed''" now] assms(2)
  by (simp add: end_requested_def)

lemma untracked_gone:
  assumes "maps_ok s" "jm_get (or_active_calls s) c = Some call"
  shows "jm_get (or_active_calls (untrack call s)) c = None"
    and "get_call_id_by_provider_call_id (ac_provider_call_id call) (untrack call s) = None"
  using maps_ok_call [OF assms] by (simp_all add: untrack_def call_ok_def get_call_id_by_provider_call_id_def)

lemma end_step:
  assumes "reach orch_init orch_step S" "jm_get (or_active_calls (sy_state S)) c = Some call"
  shows "reach orch_init orch_step (S\<lparr> sy_state := untrack call (sy_state S) \<rparr>)"
proof -
  have m: "maps_ok (sy_state S)" using orch.reach_inv [OF assms(1)] by (simp add: orch_inv_def)
  have "end_call c None 0 (sy_state S) = (untrack call (sy_state S), end_effects None 0 call)"
    using end_call_some [OF m, of c call None 0] assms(2) by simp
  then show ?thesis by (rule reach_step [where step = orch_step, OF assms(1) os_end])
qed

section \<open>The caller hangs up\<close>

definition elks46_generic :: "int \<Rightarrow> elks46_provider \<Rightarrow> jstr \<Rightarrow> webhook_body option \<Rightarrow> (webhook_answer \<times> telephony_event list) option" where
  "elks46_generic now p endpoint body = (case body of
       None \<Rightarrow> None
     | Some b \<Rightarrow> (case elks46_handle_webhook now endpoint b p of (answer, _, events) \<Rightarrow> Some (answer, events)))"

lemma ended_by_router_simps [simp]:
  "ended_by_router env calls (End_Call c) = [c]"
  "ended_by_router env calls (Provider_Events events) = concat (map ended_by_server (snd (on_provider_events env events calls)))"
  "ended_by_router env calls (Record_Call n p t j) = []"
  "ended_by_router env calls (Wake_Devices ds j r) = []"
  "ended_by_router env calls (Set_Revealed_Number j n) = []"
  by (simp_all add: ended_by_router_def)

text \<open>The router's effects of an event other than the end of a call end nothing.\<close>

lemma event_rest_ends_nothing:
  "concat (map (ended_by_router env calls) (event_started sv an b body @ event_revealed sv body @ event_outbound sv body)) = []"
proof -
  have w: "concat (map (ended_by_router env calls) (wake_devices sv an j r)) = []" for j r
    using wake_devices_cases [of sv an j r] by auto
  have "concat (map (ended_by_router env calls) (event_started sv an b body)) = []"
    unfolding event_started_def using w by (simp del: concat_eq_Nil_conv)
  then show ?thesis by (simp add: event_revealed_def event_outbound_def)
qed

text \<open>A request whose effects end one tracked call.\<close>

lemma serve_ends_one:
  assumes "maps_ok s" "jm_get (or_active_calls s) c = Some call"
    and "webhook_router g sv (an\<lparr> an_call_id := \<lambda>pid. get_call_id_by_provider_call_id pid s \<rparr>) i endpoint rq = (reply, effects)"
    and "concat (map (ended_by_router (env\<lparr> le_call_of := \<lambda>pid. get_call_id_by_provider_call_id pid s \<rparr>) calls) effects) = [c]"
  shows "serve_webhook g sv an env calls i endpoint rq s
    = (reply, untrack call s, end_effects (Some ''provider_call_state_changed'') (an_now an) call)"
  unfolding serve_webhook_def assms(3) by (simp add: assms(4) end_requested_one [OF assms(1,2)])

text \<open>What the end of a tracked call does to the orchestrator.\<close>

lemma ended_call_facts:
  assumes "reach orch_init orch_step S" "jm_get (or_active_calls (sy_state S)) c = Some call"
  shows "jm_get (or_active_calls (untrack call (sy_state S))) c = None"
    and "\<forall>k. k \<noteq> c \<longrightarrow> jm_get (or_active_calls (untrack call (sy_state S))) k = jm_get (or_active_calls (sy_state S)) k"
    and "Broadcast_Disconnected c \<in> set (end_effects trigger now call)"
    and "reach orch_init orch_step (S\<lparr> sy_state := untrack call (sy_state S) \<rparr>)"
proof -
  have m: "maps_ok (sy_state S)" using orch.reach_inv [OF assms(1)] by (simp add: orch_inv_def)
  have id: "ac_call_id call = c" using maps_ok_call [OF m assms(2)] by (simp add: call_ok_def)
  show "jm_get (or_active_calls (untrack call (sy_state S))) c = None" by (rule untracked_gone(1) [OF m assms(2)])
  show "\<forall>k. k \<noteq> c \<longrightarrow> jm_get (or_active_calls (untrack call (sy_state S))) k = jm_get (or_active_calls (sy_state S)) k"
    using id by (simp add: untrack_def)
  show "Broadcast_Disconnected c \<in> set (end_effects trigger now call)" using id by (simp add: end_effects_def)
  show "reach orch_init orch_step (S\<lparr> sy_state := untrack call (sy_state S) \<rparr>)" by (rule end_step [OF assms])
qed

lemma vonage_dispatch_event:
  assumes "get_provider i g = Some e" "re_type e = ''vonage''" "re_enabled e" "re_status e \<noteq> Disabled" "re_instance e = Some inst"
    and "in_webhook_endpoints inst = vonage_webhook_endpoints" "\<not> vonage_refused an (re_config e) rq"
  shows "webhook_router g sv an i (js ''event'') rq = handle_event sv an rq"
proof -
  have "js ''event'' \<in> set (get_accepted_endpoints ''vonage'' vonage_webhook_endpoints)" "js ''event'' \<noteq> []"
    by (simp_all add: get_accepted_endpoints_def vonage_webhook_endpoints_def) (simp add: js_def)
  then have r: "resolve_webhook_endpoint (js ''event'') (get_accepted_endpoints ''vonage'' vonage_webhook_endpoints) = Some (js ''event'')"
    by (rule resolve_native)
  show ?thesis using assms by (simp add: webhook_router_def r dispatch_def)
qed

lemma vonage_refused_call_of [simp]: "vonage_refused (an\<lparr> an_call_id := f \<rparr>) config rq = vonage_refused an config rq"
  by (simp add: vonage_refused_def)


text \<open>The same for 46elks, whose report travels through the provider instance and the server's listener.\<close>

lemma elks46_dispatch_event:
  assumes "get_provider i g = Some e" "re_type e = ''46elks''" "re_enabled e" "re_status e \<noteq> Disabled" "re_instance e = Some inst"
    and "\<not> elks46_refused (re_config e) rq"
  shows "webhook_router g sv an i (js ''voice_event'') rq = generic_handler an (js ''voice_event'') (rq_body rq)"
proof -
  have "js ''voice_event'' \<in> set (get_accepted_endpoints ''46elks'' (in_webhook_endpoints inst))" "js ''voice_event'' \<noteq> []"
    by (simp_all add: get_accepted_endpoints_def EXTRA_SUPPORTED_ENDPOINTS_def) (simp add: js_def)
  then have r: "resolve_webhook_endpoint (js ''voice_event'') (get_accepted_endpoints ''46elks'' (in_webhook_endpoints inst)) = Some (js ''voice_event'')"
    by (rule resolve_native)
  show ?thesis using assms by (simp add: webhook_router_def r dispatch_def)
qed

text \<open>When 46elks reports, from an allowlisted address, the end of a call to the URL registered for it
  (as \<^verbatim>\<open>callid\<close> or \<^verbatim>\<open>id\<close>, in \<^verbatim>\<open>status\<close> or \<^verbatim>\<open>state\<close>), the report passes the route, the origin check,
  the provider and the server's listener, and ends exactly the call tracked for it: it is no
  longer tracked, the devices are told under the internal identifier, every other call is
  untouched, and the orchestrator is in a reachable state.\<close>

theorem elks46_hangup_ends_call:
  assumes "reach orch_init orch_step S" "jm_get (or_active_calls (sy_state S)) c = Some call" "c \<noteq> ''''"
    and "get_call_id_by_provider_call_id pid (sy_state S) = Some c" "pid \<noteq> ''''"
    and "get_provider i g = Some e" "re_type e = ''46elks''" "re_enabled e" "re_status e \<noteq> Disabled" "re_instance e = Some inst"
    and "\<not> elks46_refused (re_config e) rq" "an_generic an = elks46_generic (an_now an) p"
    and "rq_body rq = Some body" "wb_callid body = Some pid \<or> wb_callid body = None \<and> wb_id body = Some pid"
    and "wb_status body = Some status \<or> wb_status body = None \<and> wb_state body = Some status"
    and "map_elks46_status_to_call_state status = Some st" "ended st"
  shows "serve_webhook g sv an env calls i (js ''voice_event'') rq (sy_state S)
      = (Reply_With Empty_Object, untrack call (sy_state S), end_effects (Some ''provider_call_state_changed'') (an_now an) call)
    \<and> jm_get (or_active_calls (untrack call (sy_state S))) c = None
    \<and> (\<forall>k. k \<noteq> c \<longrightarrow> jm_get (or_active_calls (untrack call (sy_state S))) k = jm_get (or_active_calls (sy_state S)) k)
    \<and> Broadcast_Disconnected c \<in> set (end_effects (Some ''provider_call_state_changed'') (an_now an) call)
    \<and> reach orch_init orch_step (S\<lparr> sy_state := untrack call (sy_state S) \<rparr>)"
proof -
  let ?s = "sy_state S" and ?an = "an\<lparr> an_call_id := \<lambda>pid. get_call_id_by_provider_call_id pid (sy_state S) \<rparr>"
  have m: "maps_ok ?s" using orch.reach_inv [OF assms(1)] by (simp add: orch_inv_def)
  have st: "status \<noteq> ''''" using assms(16) by (auto simp: map_elks46_status_to_call_state_def)
  let ?events = "[Call_State_Changed pid st (Some (an_now an)) (wb_seconds body)]"
  have ev: "elks46_handle_voice_event (an_now an) body = ?events"
    using assms(5,14-16) st by (auto simp: elks46_handle_voice_event_def Let_def)
  have "webhook_router g sv ?an i (js ''voice_event'') rq = generic_handler ?an (js ''voice_event'') (rq_body rq)"
    using assms(6-11) by (intro elks46_dispatch_event)
  also have "\<dots> = (Reply_With Empty_Object, [Provider_Events ?events])"
    using assms(12,13) ev by (simp add: generic_handler_def elks46_generic_def elks46_handle_webhook_def)
  finally have r: "webhook_router g sv ?an i (js ''voice_event'') rq = (Reply_With Empty_Object, [Provider_Events ?events])" .
  have "concat (map (ended_by_router (env\<lparr> le_call_of := \<lambda>pid. get_call_id_by_provider_call_id pid ?s \<rparr>) calls) [Provider_Events ?events]) = [c]"
    using assms(3,4,17) by (simp add: on_provider_event_def on_call_state_changed_def ended_by_server_def)
  from serve_ends_one [OF m assms(2) r this] show ?thesis using ended_call_facts [OF assms(1,2)] by blast
qed

definition example_listener_env :: listener_env where
  "example_listener_env = \<lparr> le_entry_id = ''p1'', le_is_modem_gateway = False, le_now = 1000, le_call_of = (\<lambda>_. None),
     le_stored = (\<lambda>_. Some True), le_numbers = None, le_missed = (\<lambda>_. None), le_devices = None \<rparr>"

definition hangup_body :: webhook_body where
  "hangup_body = no_fields\<lparr> wb_uuid := Some ''p1'', wb_callid := Some ''p1'', wb_status := Some ''busy'',
     wb_to := Some (js ''46700000001'') \<rparr>"

lemma ringing_facts:
  "jm_get (or_active_calls (sy_state ringing_system)) ''c1'' = Some sample_call"
  "get_call_id_by_provider_call_id ''p1'' (sy_state ringing_system) = Some ''c1''"
  by (simp_all add: sample_defs jmap_eval get_call_id_by_provider_call_id_def)


definition example_elks_request :: webhook_request where
  "example_elks_request = \<lparr> rq_is_get = False, rq_auth_header = None, rq_ip = Some (js ''85.24.146.132''), rq_query = no_fields,
     rq_body = Some hangup_body \<rparr>"

definition example_elks_answers :: answers where
  "example_elks_answers = example_answers\<lparr> an_generic := elks46_generic 1000 (make_elks46 (js ''https://x'') ''p1'' example_elks_config) \<rparr>"

lemma example_elks_admitted: "\<not> elks46_refused example_elks_config example_elks_request"
proof -
  have "js ''85.24.146.132'' \<in> set ELKS46_DEFAULT_WEBHOOK_IPS" by (simp add: ELKS46_DEFAULT_WEBHOOK_IPS_def)
  then have "verify_elks46_webhook_origin (rq_ip example_elks_request) (Some [])"
    by (auto simp: verify_elks46_webhook_origin_def example_elks_request_def list_ex_iff Let_def) (simp add: js_def)
  moreover have "parse_elks46_ip_allowlist (allowlist_value example_elks_config) = []"
    by (simp add: allowlist_value_def example_elks_config_def jm_get_def parse_elks46_ip_allowlist_def)
  ultimately show ?thesis by (simp add: elks46_refused_def)
qed

theorem elks46_hangup_ends_call_witness:
  "fst (serve_webhook example_registry example_services example_elks_answers example_listener_env [] ''p1'' (js ''voice_event'')
      example_elks_request (sy_state ringing_system)) = Reply_With Empty_Object
   \<and> jm_get (or_active_calls (fst (snd (serve_webhook example_registry example_services example_elks_answers example_listener_env []
      ''p1'' (js ''voice_event'') example_elks_request (sy_state ringing_system))))) ''c1'' = None"
proof -
  let ?e = "fresh_entry (Some example_inst) ''p1'' ''46elks'' (js ''Elks'') example_elks_config True"
  have "re_type ?e = ''46elks''" "re_enabled ?e" "re_status ?e \<noteq> Disabled" "re_instance ?e = Some example_inst" "re_config ?e = example_elks_config"
    by (simp_all add: fresh_entry_def)
  moreover have "map_elks46_status_to_call_state ''busy'' = Some BUSY" "ended BUSY"
    by (simp_all add: map_elks46_status_to_call_state_def ended_def)
  ultimately show ?thesis
    using elks46_hangup_ends_call [OF ringing_reachable ringing_facts(1) _ ringing_facts(2) _ example_registry_simps(2),
        where an = example_elks_answers and rq = example_elks_request and body = hangup_body and status = "''busy''"
        and st = BUSY and p = "make_elks46 (js ''https://x'') ''p1'' example_elks_config" and sv = example_services
        and env = example_listener_env and calls = "[]" and inst = example_inst] example_elks_admitted
    by (simp add: hangup_body_def example_elks_request_def example_elks_answers_def example_answers_def)
qed

section \<open>Messages\<close>

text \<open>A modem gateway is told to forget a message only once the message is stored.\<close>

lemma ack_after_store:
  "Ack_Message m \<in> set (on_incoming_sms gw stored numbers m from to body t) \<Longrightarrow> gw \<and> stored \<noteq> None"
proof -
  assume "Ack_Message m \<in> set (on_incoming_sms gw stored numbers m from to body t)"
  then show ?thesis
    using sms_notice_cases [of numbers m "from" to body t] unfolding on_incoming_sms_def
    by (cases stored) (auto split: if_splits)
qed

text \<open>
  A delivery receipt changes nothing: the router hands it to the provider, the provider turns it
  into an event, and the listener has no case for that event.
\<close>

lemma status_event_cases:
  "vonage_process_sms_status_event body = [] \<or> (\<exists>m st. vonage_process_sms_status_event body = [Sms_Status_Update m st])"
  unfolding vonage_process_sms_status_event_def by (cases "map_vonage_sms_status (the (wb_status body))") simp_all

lemma delivery_receipt_ignored:
  assumes "handle_sms_status rq = (reply, effects)" "Provider_Events events \<in> set effects"
  shows "on_provider_events env events calls = (calls, [])"
proof (cases "rq_body rq")
  case None
  then have "effects = []" using assms(1) unfolding handle_sms_status_def by simp
  then show ?thesis using assms(2) by simp
next
  case (Some body)
  then have "effects = [Provider_Events (vonage_process_sms_status_event body)]"
    using assms(1) unfolding handle_sms_status_def by simp
  then have "events = vonage_process_sms_status_event body" using assms(2) by simp
  then show ?thesis using status_event_cases [of body] by (elim disjE exE) (simp_all add: on_provider_event_def)
qed

end
