(* ===== verification/Modem_Gateway_Stories.thy ===== *)
theory Modem_Gateway_Stories
  imports Modem_Gateway_Provider Modem_Gateway_Props Server_Events Conversation_System Numbers_Use
begin

text \<open>
  Whole runs through the modem gateway: the handler, the driver, the listener of \<^verbatim>\<open>src/server.ts\<close> and
  the services behind it. A message from the gateway is stored before it is acknowledged, and the
  number of a gateway is served while its connection lasts.
\<close>

section \<open>Messages\<close>

text \<open>The part of the listener that waits for the message to be stored and acknowledges it; the
  acknowledgement goes back through the driver. \<open>fails\<close>: the database refuses.\<close>

definition store_and_ack ::
    "string \<Rightarrow> int \<Rightarrow> bool \<Rightarrow> (jstr \<times> jstr option) list option \<Rightarrow> gateway_handler \<Rightarrow> telephony_event \<Rightarrow> conversation_db
      \<Rightarrow> conversation_db \<times> server_effect list \<times> provider_effect list" where
  "store_and_ack i now fails numbers h event db = (case event of
       Incoming_Sms message_id from to body timestamp \<Rightarrow>
         (case (if fails then (Inl Constraint_Violation, db, []) else receive_message i now message_id from to body timestamp db) of
            (r, db', _) \<Rightarrow>
              (let es = on_incoming_sms True (case r of Inl _ \<Rightarrow> None | Inr m \<Rightarrow> Some (m \<noteq> None)) numbers message_id from to body timestamp
               in (db', es, if Ack_Message message_id \<in> set es then ack_incoming_sms message_id (Some h) else [])))
     | _ \<Rightarrow> (db, [], []))"

text \<open>A frame with a message, from the socket to the table and back.\<close>

definition gateway_sms_arrives ::
    "string \<Rightarrow> int \<Rightarrow> bool \<Rightarrow> (jstr \<times> jstr option) list option \<Rightarrow> incoming_sms_data \<Rightarrow> gateway_handler \<Rightarrow> gateway_provider
      \<Rightarrow> conversation_db \<Rightarrow> conversation_db \<times> server_effect list \<times> provider_effect list" where
  "gateway_sms_arrives i now fails numbers d h p db =
     (case handle_frame now (Frame (Gm_Incoming_Sms d)) h of (_, h', es) \<Rightarrow>
        if To_Provider (Gm_Incoming_Sms d) \<in> set es
        then (case snd (handle_inbound_message now (Gm_Incoming_Sms d) p) of
                [Emit_Telephony event] \<Rightarrow> store_and_ack i now fails numbers h' event db
              | _ \<Rightarrow> (db, [], []))
        else (db, [], []))"

definition gateway_sms_to :: "incoming_sms_data \<Rightarrow> gateway_provider \<Rightarrow> jstr" where
  "gateway_sms_to d p = (if is_to d \<noteq> [] then is_to d else orelse (gp_reported_number p) [])"

lemma gateway_sms_arrives_connected:
  assumes "is_connected h"
  shows "gateway_sms_arrives i now fails numbers d h p db
    = store_and_ack i now fails numbers h
        (Incoming_Sms (is_message_id d) (is_from d) (gateway_sms_to d p) (is_body d) (Some (orelse (is_timestamp d) now))) db"
  using assms by (simp add: gateway_sms_arrives_def handle_frame_def dispatch_message_def is_connected_def handle_incoming_sms_def gateway_sms_to_def)

lemma acked_iff_stored:
  assumes "is_connected h" "gh_ws h = Some k" "is_message_id d \<noteq> ''''"
    and "gateway_sms_arrives i now fails numbers d h p db = (db', ses, pes)"
  shows "if fails then db' = db \<and> pes = []
    else \<exists>r es. receive_message i now (is_message_id d) (is_from d) (gateway_sms_to d p) (is_body d) (Some (orelse (is_timestamp d) now)) db = (r, db', es)
      \<and> pes = (case r of Inl _ \<Rightarrow> [] | Inr _ \<Rightarrow> [Through_Ws (Ws_Send k (Gr_Sms_Ack (is_message_id d)))])"
proof -
  have sent: "ack_incoming_sms (is_message_id d) (Some h) = [Through_Ws (Ws_Send k (Gr_Sms_Ack (is_message_id d)))]"
    using assms(1-3) by (simp add: ack_incoming_sms_def through_def send_message_def is_connected_def)
  have ack: "Ack_Message m \<in> set (on_incoming_sms True stored numbers m f t b ts) \<longleftrightarrow> stored \<noteq> None" for stored m f t b ts
    using sms_notice_cases [of numbers m f t b ts] by (auto simp: on_incoming_sms_def split: option.splits)
  show ?thesis
    using assms(4) unfolding gateway_sms_arrives_connected [OF assms(1)]
    by (auto simp: store_and_ack_def Let_def ack sent split: prod.splits sum.splits if_splits)
qed

lemma receive_message_stores:
  assumes "receive_message i now pid from to body (Some t) db = (r, db', es)" "pid \<noteq> ''''"
    and "\<forall>m \<in> set (cd_messages db). mg_provider_message_id m = Some pid \<longrightarrow> mg_direction m = Dir_RECEIVED"
  shows "(case r of Inl _ \<Rightarrow> False | Inr _ \<Rightarrow> True)
      \<longleftrightarrow> (\<exists>m \<in> set (cd_messages db'). mg_provider_message_id m = Some pid)"
    and "\<forall>m \<in> set (cd_messages db'). mg_provider_message_id m = Some pid \<longrightarrow> mg_direction m = Dir_RECEIVED"
proof -
  have *: "((case r of Inl _ \<Rightarrow> False | Inr _ \<Rightarrow> True) \<longleftrightarrow> (\<exists>m \<in> set (cd_messages db'). mg_provider_message_id m = Some pid))
      \<and> (\<forall>m \<in> set (cd_messages db'). mg_provider_message_id m = Some pid \<longrightarrow> mg_direction m = Dir_RECEIVED)"
  proof (cases "receive_duplicate pid db")
    case True
    then show ?thesis using assms(1,3) by (auto simp: receive_message_def receive_duplicate_def sql_first_None)
  next
    case False
    then have s: "receive_store i now pid from to body (Some t) db = (r, db', es)"
      and none: "\<forall>m \<in> set (cd_messages db). mg_provider_message_id m \<noteq> Some pid"
      using assms(1,2) by (auto simp: receive_message_def receive_duplicate_def sql_first_None)
    from s show ?thesis
      by (cases rule: receive_store_cases) (use none assms(2) in \<open>auto simp: list_all_iff\<close>)
  qed
  then show "(case r of Inl _ \<Rightarrow> False | Inr _ \<Rightarrow> True) \<longleftrightarrow> (\<exists>m \<in> set (cd_messages db'). mg_provider_message_id m = Some pid)"
    and "\<forall>m \<in> set (cd_messages db'). mg_provider_message_id m = Some pid \<longrightarrow> mg_direction m = Dir_RECEIVED" by blast+
qed

lemma receive_message_run:
  assumes "receive_message i now pid from to body t (sy_db S) = (r, db, es)" "\<not> list_ex (\<lambda>m. mg_id m = i) (cd_messages (sy_db S))"
  shows "\<exists>xs. run conversation_step S xs (S\<lparr> sy_db := db \<rparr>)"
proof (cases "receive_duplicate pid (sy_db S)")
  case True
  then have "S\<lparr> sy_db := db \<rparr> = S" using assms(1) by (simp add: receive_message_def)
  then show ?thesis using run_Nil by metis
next
  case False
  then have "receive_store i now pid from to body t (sy_db S) = (r, db, es)" using assms(1) by (simp add: receive_message_def)
  from cs_receive [OF assms(2) this] have "run conversation_step S [Step_Receive i pid r] (S\<lparr> sy_db := db \<rparr>)" by (rule run_single)
  then show ?thesis by blast
qed


definition example_sms :: incoming_sms_data where
  "example_sms = \<lparr> is_message_id = ''x'', is_from = other_number, is_to = own_number, is_body = [72, 105], is_timestamp = Some 7 \<rparr>"


section \<open>The number of a gateway\<close>

text \<open>The callback the server gives the driver: it synchronises the numbers of the provider. One
  synchronisation is taken as finished before the next message.\<close>

definition number_report_sync ::
    "string \<Rightarrow> registry \<Rightarrow> int \<Rightarrow> gateway_provider \<times> provider_effect list \<Rightarrow> number_db \<Rightarrow> gateway_provider \<times> number_db" where
  "number_report_sync i g now r db =
     (fst r, if Number_Report_Callback \<in> set (snd r)
       then fst (snd (sync_numbers i (Some (gateway_list_numbers (fst r))) now g db)) else db)"

text \<open>What the driver hears: messages, and that the connection is gone.\<close>

datatype gateway_news = Heard int gateway_message | Connection_Lost int

fun news_time :: "gateway_news \<Rightarrow> int" where
  "news_time (Heard now _) = now"
| "news_time (Connection_Lost now) = now"

fun on_news :: "gateway_news \<Rightarrow> gateway_provider \<Rightarrow> gateway_provider \<times> provider_effect list" where
  "on_news (Heard now m) p = handle_inbound_message now m p"
| "on_news (Connection_Lost _) p = on_gateway_disconnect p"

fun follow_numbers ::
    "string \<Rightarrow> registry \<Rightarrow> gateway_news list \<Rightarrow> gateway_provider \<times> number_db \<Rightarrow> gateway_provider \<times> number_db" where
  "follow_numbers i g [] s = s"
| "follow_numbers i g (x # xs) (p, db) = follow_numbers i g xs (number_report_sync i g (news_time x) (on_news x p) db)"

text \<open>The reported number survives everything but a report and a lost connection, and both are told
  to the callback.\<close>

lemma settle_keeps_number:
  "resolve_request r v p = (p', es) \<Longrightarrow> gp_reported_number p' = gp_reported_number p"
  "reject_request r e p = (p', es) \<Longrightarrow> gp_reported_number p' = gp_reported_number p"
  by (auto simp: resolve_request_def reject_request_def settle_request_def split: option.splits)

lemma reported_number_kept:
  assumes "on_news x p = (p', es)" "Number_Report_Callback \<notin> set es"
  shows "gp_reported_number p' = gp_reported_number p"
proof (cases x)
  case (Heard now m)
  with assms show ?thesis
    by (cases m) (auto simp: handle_number_report_def handle_call_state_def handle_sms_result_def handle_status_def Let_def
        settle_keeps_number split: option.splits if_splits prod.splits)
next
  case (Connection_Lost now)
  with assms show ?thesis by (auto simp: on_gateway_disconnect_def split: prod.splits)
qed

text \<open>What one event leaves: the numbers active for the gateway are those it reported.\<close>

definition numbers_agree :: "string \<Rightarrow> gateway_provider \<Rightarrow> number_db \<Rightarrow> bool" where
  "numbers_agree i p db \<longleftrightarrow> keyed db \<and> (\<forall>n. provided_by i db n \<longleftrightarrow> gp_reported_number p = Some n \<and> n \<noteq> [])"

lemma listed_numbers: "pn_number ` set (gateway_list_numbers p) = {n. gp_reported_number p = Some n \<and> n \<noteq> []}"
  by (auto simp: gateway_list_numbers_def truthy_def split: option.splits)

lemma report_synced:
  assumes "number_report_sync i g now (p, es) db = (p', db')" "keyed db" "get_provider i g = Some e" "re_instance e \<noteq> None"
  shows "p' = p" and "Number_Report_Callback \<notin> set es \<Longrightarrow> db' = db"
    and "Number_Report_Callback \<in> set es \<Longrightarrow> keyed db' \<and> (\<forall>n. synced_row i (gp_reported_number p = Some n \<and> n \<noteq> []) (row_of db n) (row_of db' n))"
proof -
  show "p' = p" "Number_Report_Callback \<notin> set es \<Longrightarrow> db' = db" using assms(1) by (auto simp: number_report_sync_def)
  assume report: "Number_Report_Callback \<in> set es"
  have "sync_begin i g = Inr e" using assms(3,4) by (simp add: sync_begin_def)
  then obtain r es' where "sync_store i (map pn_number (gateway_list_numbers p)) now (rg_rows g) db = (r, db', es')"
    using assms(1) report by (auto simp: number_report_sync_def sync_numbers_store split: prod.splits)
  note rows = sync_store_rows [OF this assms(2)]
  have l: "n \<in> set (map pn_number (gateway_list_numbers p)) \<longleftrightarrow> gp_reported_number p = Some n \<and> n \<noteq> []" for n
    using listed_numbers [of p] by (auto simp: set_eq_iff image_iff)
  then show "keyed db' \<and> (\<forall>n. synced_row i (gp_reported_number p = Some n \<and> n \<noteq> []) (row_of db n) (row_of db' n))"
    using rows(1) rows(2) [unfolded l] by blast
qed

text \<open>A number that was the gateway's stays its own or becomes nobody's.\<close>

definition once_own :: "string \<Rightarrow> number_db \<Rightarrow> jstr \<Rightarrow> bool" where
  "once_own i db n \<longleftrightarrow> (case row_of db n of None \<Rightarrow> False | Some r \<Rightarrow> nr_is_active r \<longrightarrow> nr_provider_id r = Some i)"

lemma synced_once_own: "synced_row i b (row_of db n) (row_of db' n) \<Longrightarrow> once_own i db n \<Longrightarrow> once_own i db' n"
  by (auto simp: synced_row_def once_own_def split: option.splits if_splits)

lemma provided_once_own: "provided_by i db n \<Longrightarrow> once_own i db n"
  by (simp add: provided_by_def once_own_def split: option.splits)

lemma synced_agree:
  assumes "keyed db' \<and> (\<forall>n. synced_row i (gp_reported_number p = Some n \<and> n \<noteq> []) (row_of db n) (row_of db' n))"
  shows "numbers_agree i p db' \<and> (\<forall>n. once_own i db n \<longrightarrow> once_own i db' n)"
proof -
  have s: "synced_row i (gp_reported_number p = Some n \<and> n \<noteq> []) (row_of db n) (row_of db' n)" for n using assms by blast
  have "provided_by i db' n \<longleftrightarrow> gp_reported_number p = Some n \<and> n \<noteq> []" for n by (rule synced_row_provided [OF s])
  moreover have "once_own i db' n" if "once_own i db n" for n by (rule synced_once_own [OF s that])
  ultimately show ?thesis using assms by (simp add: numbers_agree_def)
qed

lemma follow_numbers_agree:
  assumes "follow_numbers i g xs (p, db) = (p', db')" "numbers_agree i p db" "get_provider i g = Some e" "re_instance e \<noteq> None"
  shows "numbers_agree i p' db' \<and> (\<forall>n. once_own i db n \<longrightarrow> once_own i db' n)"
  using assms(1,2)
proof (induction xs arbitrary: p db)
  case (Cons x xs)
  obtain q es where x: "on_news x p = (q, es)" by (cases "on_news x p")
  obtain q' db1 where s: "number_report_sync i g (news_time x) (q, es) db = (q', db1)" by (cases "number_report_sync i g (news_time x) (q, es) db")
  note r = report_synced [OF s _ assms(3,4)]
  have k: "keyed db" using Cons.prems(2) by (simp add: numbers_agree_def)
  have "numbers_agree i q db1 \<and> (\<forall>n. once_own i db n \<longrightarrow> once_own i db1 n)"
  proof (cases "Number_Report_Callback \<in> set es")
    case True
    then show ?thesis using synced_agree [OF r(3) [OF k]] by blast
  next
    case False
    then show ?thesis using r(2) [OF k] reported_number_kept [OF x] Cons.prems(2) by (simp add: numbers_agree_def)
  qed
  moreover have "follow_numbers i g xs (q, db1) = (p', db')" using Cons.prems(1) x s r(1) [OF k] by simp
  ultimately show ?case using Cons.IH by blast
qed simp


definition example_gateway_entry :: registry_entry where
  "example_gateway_entry = fresh_entry (Some example_inst) ''g'' ''modem-gateway'' [] [] True"

definition example_gateway_registry :: registry where
  "example_gateway_registry = \<lparr> rg_providers = jm_set ''g'' example_gateway_entry [], rg_rows = [example_gateway_row []], rg_health_poll = None \<rparr>"


end
