(* ===== verification/Provider_Routes.thy ===== *)
theory Provider_Routes
  imports Call_Routes Modem_Gateway_Stories
begin

text \<open>
  \<^verbatim>\<open>src/routes/provider-routes.ts\<close> and \<^verbatim>\<open>modem-gateway-signaling-route.ts\<close>: the management of the
  providers over HTTP, on the registry of \<^theory_text>\<open>Provider_Registry\<close>, the gateway of
  \<^theory_text>\<open>Modem_Gateway\<close> and \<^theory_text>\<open>Modem_Gateway_Provider\<close> and the dummy provider. A body is a JSON
  object with its \<^verbatim>\<open>config\<close> apart.
\<close>

section \<open>What a client may see of a configuration\<close>

definition route_secret_fields :: "string \<Rightarrow> string list" where
  "route_secret_fields type =
     (if type = ''vonage'' then [''api_secret'', ''signature_secret'', ''private_key'', ''private_key_path'']
      else if type = ''46elks'' then [''api_password''] else [])"

definition STRIP_FIELDS :: "string \<Rightarrow> string list" where
  "STRIP_FIELDS type = (if type = ''modem-gateway'' then [''pairing_secret'', ''pairing_secret_created_at''] else [])"

definition route_mask_secret :: "jstr \<Rightarrow> jstr" where
  "route_mask_secret value =
     (if length value \<le> 4 then replicate (length value) 42
      else replicate (length value - 4) 42 @ drop (length value - 4) value)"

definition mask_field :: "string \<Rightarrow> config \<Rightarrow> config" where
  "mask_field field masked = (case jm_get masked (js field) of
       Some (CStr s) \<Rightarrow> jm_set (js field) (CStr (route_mask_secret s)) masked
     | _ \<Rightarrow> masked)"

definition mask_config :: "string \<Rightarrow> config \<Rightarrow> config" where
  "mask_config type config =
     fold mask_field (route_secret_fields type) (fold (\<lambda>field. jm_delete (js field)) (STRIP_FIELDS type) config)"

section \<open>Requests\<close>

text \<open>\<^verbatim>\<open>/^[a-z0-9]{6,8}$/i\<close>\<close>

definition PAIRING_SECRET_REGEX :: "jstr \<Rightarrow> bool" where
  "PAIRING_SECRET_REGEX s \<longleftrightarrow> 6 \<le> length s \<and> length s \<le> 8 \<and> list_all (\<lambda>u. is_digit u \<or> is_lower u \<or> is_upper u) s"

datatype body_config = No_Config | Config_Object config | Config_Other

text \<open>A body: \<^const>\<open>None\<close> when it is no object, otherwise its fields and its \<^verbatim>\<open>config\<close>.\<close>

type_synonym provider_body = "(config \<times> body_config) option"

definition bounded_text :: "nat \<Rightarrow> string \<Rightarrow> string \<Rightarrow> jstr \<Rightarrow> string option" where
  "bounded_text most short long s = (if s = [] then Some short else if most < length s then Some long else None)"

definition add_provider_issues :: "provider_body \<Rightarrow> field_issue list" where
  "add_provider_issues body = (case body of
       None \<Rightarrow> [(''body'', Zod_Required)]
     | Some (obj, config) \<Rightarrow>
         string_field False (\<lambda>s. if s = [] then Some ''Provider type is required'' else None) ''type'' obj
       @ string_field False (bounded_text 100 ''Display name is required'' ''Display name must be 100 characters or fewer'') ''displayName'' obj
       @ (if config = Config_Other then [(''config'', Zod_Invalid_Type)] else []))"

definition update_provider_issues :: "provider_body \<Rightarrow> field_issue list" where
  "update_provider_issues body = (case body of
       None \<Rightarrow> [(''body'', Zod_Required)]
     | Some (obj, config) \<Rightarrow>
         string_field True (bounded_text 100 ''Display name is required'' ''Display name must be 100 characters or fewer'') ''displayName'' obj
       @ (if config = Config_Other then [(''config'', Zod_Invalid_Type)] else [])
       @ boolean_field ''enabled'' obj)"

definition body_text :: "string \<Rightarrow> provider_body \<Rightarrow> jstr" where
  "body_text field body = orelse (config_text field (fst (the body))) []"

definition body_truth :: "string \<Rightarrow> provider_body \<Rightarrow> bool option" where
  "body_truth field body = (case jm_get (fst (the body)) (js field) of Some (COther (J_Bool b)) \<Rightarrow> Some b | _ \<Rightarrow> None)"

definition body_config_of :: "provider_body \<Rightarrow> config option" where
  "body_config_of body = (case snd (the body) of Config_Object c \<Rightarrow> Some c | _ \<Rightarrow> None)"

text \<open>Refusals: the issues of a schema or of the configuration, an identifier that is no UUID, and texts.\<close>

datatype provider_error =
    Field_Errors "field_issue list"
  | Invalid_Provider_Id
  | Provider_Missing string
  | Refused_Request string
  | Internal

datatype 'a provider_reply = Answer nat 'a | Refusal nat provider_error

section \<open>Reading\<close>

definition provider_types_route :: "bool \<Rightarrow> string list provider_reply" where
  "provider_types_route experimental_enabled =
     Answer 200 (if experimental_enabled then get_supported_provider_types
       else filter (\<lambda>t. t \<notin> set [''modem-gateway'']) get_supported_provider_types)"

text \<open>The running gateways: the handler of an instance, when it was given one, and its driver.\<close>

type_synonym gateways = "string \<Rightarrow> gateway_handler option \<times> gateway_provider"

definition gateway_connected :: "gateways \<Rightarrow> registry_entry \<Rightarrow> bool" where
  "gateway_connected gs e \<longleftrightarrow> re_instance e \<noteq> None \<and> (case fst (gs (re_id e)) of None \<Rightarrow> False | Some h \<Rightarrow> is_connected h)"

definition modem_health :: "status_data \<Rightarrow> modem_status" where
  "modem_health d = \<lparr> ms_signal = sd_signal d, ms_network = sd_network d, ms_stale = sd_stale d \<rparr>"

definition status_fields :: "gateways \<Rightarrow> registry_entry \<Rightarrow> ui_status \<times> jstr option \<times> bool" where
  "status_fields gs e = provider_status_fields (gateway_connected gs e)
     (map_option modem_health (gp_modem_status (snd (gs (re_id e))))) e"

record provider_summary =
  px_id :: string
  px_type :: string
  px_display_name :: jstr
  px_enabled :: bool
  px_status :: "ui_status \<times> jstr option \<times> bool"
  px_connected :: "bool option"

definition list_providers_route :: "gateways \<Rightarrow> registry \<Rightarrow> provider_summary list provider_reply" where
  "list_providers_route gs g = Answer 200 (map (\<lambda>e. \<lparr> px_id = re_id e, px_type = re_type e, px_display_name = re_display_name e,
     px_enabled = re_enabled e, px_status = status_fields gs e,
     px_connected = (if re_type e = ''modem-gateway'' then Some (gateway_connected gs e) else None) \<rparr>) (list_providers g))"

record provider_view =
  vw_id :: string
  vw_type :: string
  vw_display_name :: jstr
  vw_config :: config
  vw_enabled :: bool
  vw_status :: "ui_status \<times> jstr option \<times> bool"
  vw_webhook_urls :: "jstr list"
  vw_audio_ws_url :: "jstr option"

definition provider_detail :: "registry_env \<Rightarrow> gateways \<Rightarrow> registry \<Rightarrow> registry_entry \<Rightarrow> provider_view" where
  "provider_detail ev gs g e = \<lparr> vw_id = re_id e, vw_type = re_type e, vw_display_name = re_display_name e,
     vw_config = mask_config (re_type e) (re_config e), vw_enabled = re_enabled e, vw_status = status_fields gs e,
     vw_webhook_urls = get_webhook_urls (ev_base_url ev) (re_id e) g,
     vw_audio_ws_url = (if re_type e = ''46elks'' then Some (get_audio_ws_url (ev_base_url ev)) else None) \<rparr>"

definition get_provider_route :: "registry_env \<Rightarrow> gateways \<Rightarrow> string \<Rightarrow> registry \<Rightarrow> provider_view provider_reply" where
  "get_provider_route ev gs i g =
     (if \<not> ev_is_uuid ev (js i) then Refusal 400 Invalid_Provider_Id
      else case get_provider i g of
          None \<Rightarrow> Refusal 404 (Provider_Missing i)
        | Some e \<Rightarrow> Answer 200 (provider_detail ev gs g e))"

text \<open>The status of a modem: whether it is connected, and what it last reported.\<close>

definition modem_status_route :: "registry_env \<Rightarrow> gateways \<Rightarrow> string \<Rightarrow> registry \<Rightarrow> (bool \<times> status_data option) provider_reply" where
  "modem_status_route ev gs i g =
     (if \<not> ev_is_uuid ev (js i) then Refusal 400 Invalid_Provider_Id
      else case get_provider i g of
          None \<Rightarrow> Refusal 404 (Provider_Missing i)
        | Some e \<Rightarrow>
            if re_type e \<noteq> ''modem-gateway'' then Refusal 400 (Refused_Request ''Status endpoint is only supported for modem-gateway providers'')
            else if re_instance e = None then Answer 200 (False, None)
            else Answer 200 (gateway_connected gs e, gp_modem_status (snd (gs i))))"

section \<open>Changing\<close>

text \<open>\<open>i\<close> is the generated identifier, \<open>now_iso\<close> the clock's text, \<open>started\<close> and \<open>probed\<close> what the registry's
  collaborators answer. The reply: identifier, webhook addresses and, for a gateway, its socket's address.\<close>

definition with_pairing_secret :: "jstr \<Rightarrow> jstr \<Rightarrow> config \<Rightarrow> config" where
  "with_pairing_secret secret now_iso c =
     jm_set (js ''pairing_secret_created_at'') (CStr now_iso) (jm_set (js ''pairing_secret'') (CStr (to_lower secret)) c)"

definition secret_issue :: "string \<Rightarrow> field_issue" where
  "secret_issue field = (field, Zod_Failed ''A pairing secret (6-8 alphanumeric characters) is required'')"

definition valid_pairing_secret :: "jstr option \<Rightarrow> bool" where
  "valid_pairing_secret s \<longleftrightarrow> (case s of None \<Rightarrow> False | Some t \<Rightarrow> t \<noteq> [] \<and> PAIRING_SECRET_REGEX t)"

definition add_provider_route ::
    "registry_env \<Rightarrow> provider_instance option \<Rightarrow> provider_health option \<Rightarrow> string \<Rightarrow> jstr \<Rightarrow> provider_body \<Rightarrow> registry
      \<Rightarrow> (string \<times> jstr list \<times> jstr option) provider_reply \<times> registry \<times> registry_effect list" where
  "add_provider_route ev started probed i now_iso body g =
     (case add_provider_issues body of
        e # es \<Rightarrow> (Refusal 400 (Field_Errors (e # es)), g, [])
      | [] \<Rightarrow>
          let type = sj (body_text ''type'' body); config = orelse (body_config_of body) [];
              gateway = (type = ''modem-gateway''); secret = config_text ''pairing_secret'' config
          in if gateway \<and> \<not> valid_pairing_secret secret
             then (Refusal 400 (Field_Errors [secret_issue ''config.pairing_secret'']), g, [])
             else (case add_provider ev started probed i type (body_text ''displayName'' body)
                 (if gateway then with_pairing_secret (the secret) now_iso config else config) g of
               (Inl (Config_Invalid errors), g', es) \<Rightarrow> (Refusal 400 (Field_Errors errors), g', es)
             | (Inl (Provider_Not_Found j), g', es) \<Rightarrow> (Refusal 500 Internal, g', es)
             | (Inr (j, urls), g', es) \<Rightarrow>
                 (Answer 201 (j, urls, if gateway then Some (get_signaling_ws_url (ev_base_url ev) j) else None), g', es)))"

definition update_provider_route ::
    "registry_env \<Rightarrow> gateways \<Rightarrow> provider_instance option \<Rightarrow> provider_health option \<Rightarrow> string \<Rightarrow> provider_body \<Rightarrow> registry
      \<Rightarrow> provider_view provider_reply \<times> registry \<times> registry_effect list" where
  "update_provider_route ev gs started probed i body g =
     (if \<not> ev_is_uuid ev (js i) then (Refusal 400 Invalid_Provider_Id, g, [])
      else case update_provider_issues body of
          e # es \<Rightarrow> (Refusal 400 (Field_Errors (e # es)), g, [])
        | [] \<Rightarrow> (case update_provider ev started probed i
              \<lparr> pu_display_name = config_text ''displayName'' (fst (the body)), pu_config = body_config_of body,
                pu_enabled = body_truth ''enabled'' body \<rparr> g of
            (Some (Provider_Not_Found j), g', es) \<Rightarrow> (Refusal 404 (Provider_Missing j), g', es)
          | (Some (Config_Invalid errors), g', es) \<Rightarrow> (Refusal 400 (Field_Errors errors), g', es)
          | (None, g', es) \<Rightarrow> (case get_provider i g' of
              None \<Rightarrow> (Refusal 404 (Provider_Missing i), g', es)
            | Some e \<Rightarrow> (Answer 200 (provider_detail ev gs g' e), g', es))))"

text \<open>The registry never throws the error of a blocked removal, so there is no branch of status 409.\<close>

definition delete_provider_route ::
    "registry_env \<Rightarrow> string \<Rightarrow> registry \<Rightarrow> unit provider_reply \<times> registry \<times> registry_effect list" where
  "delete_provider_route ev i g =
     (if \<not> ev_is_uuid ev (js i) then (Refusal 400 Invalid_Provider_Id, g, [])
      else case remove_provider i g of
          (Some (Provider_Not_Found j), g', es) \<Rightarrow> (Refusal 404 (Provider_Missing j), g', es)
        | (Some (Config_Invalid errors), g', es) \<Rightarrow> (Refusal 500 Internal, g', es)
        | (None, g', es) \<Rightarrow> (Answer 204 (), g', es))"

text \<open>The reset of a pairing: the handler closes its connection, forgets the key and stores the secret; then
  the registry writes the configuration it has in memory with the same changes.\<close>

definition reset_handler_rows :: "gateway_env \<Rightarrow> string \<Rightarrow> int \<Rightarrow> jstr \<Rightarrow> provider_row table \<Rightarrow> provider_row table" where
  "reset_handler_rows gev i now secret rows =
     (let rows1 = save_config i (delete_public_key (load_config i rows)) rows
      in save_config i (set_pairing_secret gev secret now (load_config i rows1)) rows1)"

definition reset_config :: "jstr \<Rightarrow> jstr \<Rightarrow> config \<Rightarrow> config" where
  "reset_config secret now_iso c = jm_set (js ''public_key'') (COther J_Null)
     (jm_set (js ''pairing_secret_created_at'') (CStr now_iso) (jm_set (js ''pairing_secret'') (CStr secret) c))"

definition reset_pairing_route ::
    "registry_env \<Rightarrow> gateway_env \<Rightarrow> provider_instance option \<Rightarrow> provider_health option \<Rightarrow> string \<Rightarrow> int \<Rightarrow> jstr option
      \<Rightarrow> gateway_handler option \<Rightarrow> registry
      \<Rightarrow> jstr provider_reply \<times> gateway_handler option \<times> registry \<times> gateway_effect list \<times> registry_effect list" where
  "reset_pairing_route ev gev started probed i now pairing_secret handler g =
     (if \<not> ev_is_uuid ev (js i) then (Refusal 400 Invalid_Provider_Id, handler, g, [], [])
      else case get_provider i g of
          None \<Rightarrow> (Refusal 404 (Provider_Missing i), handler, g, [], [])
        | Some e \<Rightarrow>
            if re_type e \<noteq> ''modem-gateway''
            then (Refusal 400 (Refused_Request ''Reset is only supported for modem-gateway providers''), handler, g, [], [])
            else if \<not> valid_pairing_secret pairing_secret
            then (Refusal 400 (Field_Errors [secret_issue ''pairingSecret'']), handler, g, [], [])
            else let normalized = to_lower (the pairing_secret);
                     (handler', wes, g1) = (case (if re_instance e = None then None else handler) of
                        None \<Rightarrow> (handler, [], g)
                      | Some h \<Rightarrow> (case reset_pairing_begin h of (h', es) \<Rightarrow>
                          (Some h', es, g\<lparr> rg_rows := reset_handler_rows gev i now normalized (rg_rows g) \<rparr>)))
              in (case update_provider ev started probed i
                    \<lparr> pu_display_name = None, pu_config = Some (reset_config normalized (ge_iso_date gev now) (re_config e)),
                      pu_enabled = None \<rparr> g1 of
                  (Some _, g2, es) \<Rightarrow> (Refusal 500 Internal, handler', g2, wes, es)
                | (None, g2, es) \<Rightarrow> (Answer 200 (get_signaling_ws_url (ev_base_url ev) i), handler', g2, wes, es)))"

section \<open>Simulated traffic of the dummy provider\<close>

text \<open>The instance of a dummy provider, when it has one.\<close>

definition dummy_guard :: "registry_env \<Rightarrow> bool \<Rightarrow> string \<Rightarrow> string \<Rightarrow> registry \<Rightarrow> (nat \<times> provider_error) option" where
  "dummy_guard ev needs_enabled refusal i g =
     (if \<not> ev_is_uuid ev (js i) then Some (400, Invalid_Provider_Id)
      else case get_provider i g of
          None \<Rightarrow> Some (404, Provider_Missing i)
        | Some e \<Rightarrow>
            if re_type e \<noteq> ''dummy'' then Some (400, Refused_Request refusal)
            else if needs_enabled \<and> \<not> re_enabled e then Some (400, Refused_Request ''Provider is disabled'')
            else if re_instance e = None then Some (400, Refused_Request ''Provider is not available'') else None)"

definition simulate_sms_issues :: "provider_body \<Rightarrow> field_issue list" where
  "simulate_sms_issues body = (case body of
       None \<Rightarrow> [(''body'', Zod_Required)]
     | Some (obj, _) \<Rightarrow>
         string_field False (bounded_text 64 ''From number is required'' ''From number is too long'') ''from'' obj
       @ string_field False (bounded_text 1600 ''Message body is required'' ''Message body is too long'') ''body'' obj)"

definition simulate_sms_route ::
    "registry_env \<Rightarrow> string \<Rightarrow> int \<Rightarrow> string \<Rightarrow> provider_body \<Rightarrow> registry \<Rightarrow> dummy_provider
      \<Rightarrow> unit provider_reply \<times> telephony_event list" where
  "simulate_sms_route ev message_id now i body g p =
     (case dummy_guard ev False ''Simulating incoming SMS is only supported for dummy providers'' i g of
        Some (n, e) \<Rightarrow> (Refusal n e, [])
      | None \<Rightarrow> (case simulate_sms_issues body of
          e # es \<Rightarrow> (Refusal 400 (Field_Errors (e # es)), [])
        | [] \<Rightarrow> (Answer 202 (), simulate_incoming_sms message_id now (body_text ''from'' body) (get_primary_number p) (body_text ''body'' body))))"

definition simulate_call_issues :: "provider_body \<Rightarrow> field_issue list" where
  "simulate_call_issues body = (case body of
       None \<Rightarrow> [(''body'', Zod_Required)]
     | Some (obj, _) \<Rightarrow> string_field False (bounded_text 64 ''From number is required'' ''From number is too long'') ''from'' obj)"

definition simulate_call_route ::
    "registry_env \<Rightarrow> string \<Rightarrow> int \<Rightarrow> string \<Rightarrow> provider_body \<Rightarrow> registry \<Rightarrow> dummy_provider
      \<Rightarrow> string provider_reply \<times> dummy_provider \<times> telephony_event list" where
  "simulate_call_route ev call_id now i body g p =
     (case dummy_guard ev True ''Simulating incoming calls is only supported for dummy providers'' i g of
        Some (n, e) \<Rightarrow> (Refusal n e, p, [])
      | None \<Rightarrow> (case simulate_call_issues body of
          e # es \<Rightarrow> (Refusal 400 (Field_Errors (e # es)), p, [])
        | [] \<Rightarrow> (case simulate_incoming_call call_id now (body_text ''from'' body) p of
            (p', events) \<Rightarrow> (Answer 202 call_id, p', events))))"

definition hangup_issues :: "provider_body \<Rightarrow> field_issue list" where
  "hangup_issues body = (case body of
       None \<Rightarrow> []
     | Some (obj, _) \<Rightarrow> string_field True
         (bounded_text 128 ''String must contain at least 1 character(s)'' ''String must contain at most 128 character(s)'') ''callId'' obj)"

definition hangup_call_route ::
    "registry_env \<Rightarrow> int \<Rightarrow> string \<Rightarrow> provider_body \<Rightarrow> registry \<Rightarrow> dummy_provider
      \<Rightarrow> string provider_reply \<times> dummy_provider \<times> telephony_event list" where
  "hangup_call_route ev now i body g p =
     (case dummy_guard ev False ''Hanging up incoming calls is only supported for dummy providers'' i g of
        Some (n, e) \<Rightarrow> (Refusal n e, p, [])
      | None \<Rightarrow> (case hangup_issues body of
          e # es \<Rightarrow> (Refusal 400 (Field_Errors (e # es)), p, [])
        | [] \<Rightarrow> (case hangup_simulated_call (case body of None \<Rightarrow> None | Some (obj, _) \<Rightarrow> map_option sj (config_text ''callId'' obj)) now p of
            (None, p', events) \<Rightarrow> (Refusal 404 (Refused_Request ''No active simulated call to hang up''), p', events)
          | (Some c, p', events) \<Rightarrow> (Answer 202 c, p', events))))"

section \<open>The signalling socket\<close>

datatype signaling_outcome = Close_Socket nat string | Hand_Over

definition signaling_route :: "string \<Rightarrow> registry \<Rightarrow> gateways \<Rightarrow> signaling_outcome" where
  "signaling_route i g gs = (case get_provider i g of
       None \<Rightarrow> Close_Socket 4404 ''Provider not found''
     | Some e \<Rightarrow>
         if re_type e \<noteq> ''modem-gateway'' then Close_Socket 4400 ''Provider is not a modem-gateway type''
         else if re_instance e = None then Close_Socket 4503 ''Provider is not active''
         else if fst (gs i) = None then Close_Socket 4503 ''Provider WS handler not initialized''
         else Hand_Over)"

section \<open>Secrets do not leave\<close>

lemma strip_get:
  "jm_get (fold (\<lambda>field. jm_delete (js field)) fs c) (js f) = (if f \<in> set fs then None else jm_get c (js f))"
  by (induction fs arbitrary: c) auto

lemma mask_field_get:
  "jm_get (mask_field g c) (js f) = (if f = g then
     (case jm_get c (js f) of Some (CStr s) \<Rightarrow> Some (CStr (route_mask_secret s)) | v \<Rightarrow> v) else jm_get c (js f))"
  by (simp add: mask_field_def split: option.splits config_value.splits)

lemma mask_fields_get:
  assumes "distinct fs"
  shows "jm_get (fold mask_field fs c) (js f) = (if f \<in> set fs then
     (case jm_get c (js f) of Some (CStr s) \<Rightarrow> Some (CStr (route_mask_secret s)) | v \<Rightarrow> v) else jm_get c (js f))"
  using assms by (induction fs arbitrary: c) (auto simp: mask_field_get)

lemma secret_fields_distinct: "distinct (route_secret_fields type)"
  by (simp add: route_secret_fields_def)

lemma stripped_not_secret: "f \<in> set (STRIP_FIELDS type) \<Longrightarrow> f \<notin> set (route_secret_fields type)"
  by (auto simp: STRIP_FIELDS_def route_secret_fields_def split: if_splits)

text \<open>Every field of the masked configuration.\<close>

lemma mask_config_get:
  "jm_get (mask_config type c) (js f) =
     (if f \<in> set (STRIP_FIELDS type) then None
      else if f \<in> set (route_secret_fields type)
        then (case jm_get c (js f) of Some (CStr s) \<Rightarrow> Some (CStr (route_mask_secret s)) | v \<Rightarrow> v)
      else jm_get c (js f))"
  using stripped_not_secret [of f type]
  by (cases "f \<in> set (STRIP_FIELDS type)") (simp_all add: mask_config_def mask_fields_get [OF secret_fields_distinct] strip_get)

text \<open>What is encrypted in the database is masked for the client.\<close>

lemma sensitive_masked: "set (get_sensitive_fields type) \<subseteq> set (route_secret_fields type)"
  by (auto simp: get_sensitive_fields_def SENSITIVE_FIELDS_def route_secret_fields_def orelse_def)

definition hides :: "jstr \<Rightarrow> jstr \<Rightarrow> bool" where
  "hides shown s \<longleftrightarrow> length shown = length s \<and> (\<forall>k < length s. k + 4 < length s \<or> length s \<le> 4 \<longrightarrow> shown ! k = 42)"

lemma mask_hides: "hides (route_mask_secret s) s"
  by (auto simp: hides_def route_mask_secret_def nth_append)

lemma details_masked:
  assumes "get_provider_route ev gs i g = Answer 200 v \<or> update_provider_route ev gs started probed i body g = (Answer 200 v, g', es)"
  obtains e h where "vw_type v = re_type e" "vw_config v = mask_config (re_type e) (re_config e)" "get_provider i h = Some e" "h \<in> {g, g'}"
proof -
  have "\<exists>e h. v = provider_detail ev gs h e \<and> get_provider i h = Some e \<and> h \<in> {g, g'}"
    using assms by (auto simp: get_provider_route_def update_provider_route_def
        split: if_splits option.splits list.splits prod.splits registry_error.splits)
  then show ?thesis using that by (auto simp: provider_detail_def)
qed

text \<open>C34: No route that shows a provider lets a secret out: whatever is shown of a provider, each field
  that is encrypted in the database appears with all but its last four characters blanked out,
  all of them when it has no more; the secret of a pairing does not appear at all; every other
  field is shown as it is.\<close>
theorem details_hide_secrets:
  assumes "get_provider_route ev gs i g = Answer 200 v \<or> update_provider_route ev gs started probed i body g = (Answer 200 v, g', es)"
  shows "\<exists>h \<in> {g, g'}. \<exists>e. get_provider i h = Some e \<and> vw_type v = re_type e
      \<and> (\<forall>f s. f \<in> set (get_sensitive_fields (re_type e)) \<longrightarrow> jm_get (re_config e) (js f) = Some (CStr s) \<longrightarrow>
            (\<exists>shown. jm_get (vw_config v) (js f) = Some (CStr shown) \<and> hides shown s))
      \<and> (re_type e = ''modem-gateway'' \<longrightarrow> jm_get (vw_config v) (js ''pairing_secret'') = None)
      \<and> (\<forall>f. f \<notin> set (route_secret_fields (re_type e)) \<longrightarrow> f \<notin> set (STRIP_FIELDS (re_type e)) \<longrightarrow>
            jm_get (vw_config v) (js f) = jm_get (re_config e) (js f))"
proof -
  obtain e h where e: "vw_type v = re_type e" "vw_config v = mask_config (re_type e) (re_config e)"
      "get_provider i h = Some e" "h \<in> {g, g'}" using details_masked [OF assms] .
  have sensitive: "\<exists>shown. jm_get (vw_config v) (js f) = Some (CStr shown) \<and> hides shown s"
    if "f \<in> set (get_sensitive_fields (re_type e))" "jm_get (re_config e) (js f) = Some (CStr s)" for f s
  proof -
    have "f \<in> set (route_secret_fields (re_type e))" using that(1) sensitive_masked by blast
    moreover from this have "f \<notin> set (STRIP_FIELDS (re_type e))" using stripped_not_secret by blast
    ultimately have "jm_get (vw_config v) (js f) = Some (CStr (route_mask_secret s))" using that(2) by (simp add: e(2) mask_config_get)
    then show ?thesis using mask_hides by blast
  qed
  have "jm_get (vw_config v) (js ''pairing_secret'') = None" if "re_type e = ''modem-gateway''"
    by (simp add: e(2) mask_config_get STRIP_FIELDS_def that)
  moreover have "jm_get (vw_config v) (js f) = jm_get (re_config e) (js f)"
    if "f \<notin> set (route_secret_fields (re_type e))" "f \<notin> set (STRIP_FIELDS (re_type e))" for f
    using that by (simp add: e(2) mask_config_get)
  ultimately show ?thesis using e(1,3,4) sensitive by blast
qed

lemma example_details:
  "\<exists>v. get_provider_route example_env (\<lambda>_. (None, new_gateway_provider)) ''p1'' example_registry = Answer 200 v"
  by (simp add: get_provider_route_def example_registry_simps example_env_def)

lemma details_hide_secrets_witness:
  "\<exists>v shown. get_provider_route example_env (\<lambda>_. (None, new_gateway_provider)) ''p1'' example_registry = Answer 200 v
     \<and> jm_get (vw_config v) (js ''api_password'') = Some (CStr shown) \<and> hides shown (js ''pw'')"
proof -
  obtain v where v: "get_provider_route example_env (\<lambda>_. (None, new_gateway_provider)) ''p1'' example_registry = Answer 200 v"
    using example_details by blast
  have "''api_password'' \<in> set (get_sensitive_fields ''46elks'')"
      "jm_get example_elks_config (js ''api_password'') = Some (CStr (js ''pw''))"
    by (simp_all add: get_sensitive_fields_def SENSITIVE_FIELDS_def orelse_def example_elks_config_def jm_get_def)
  then show ?thesis
    using details_hide_secrets [OF disjI1 [OF v], where g' = example_registry] v
    by (auto simp: example_registry_simps fresh_entry_def)
qed

section \<open>A reset and the pairing after it\<close>

lemma spread_get:
  "jm_ok b \<Longrightarrow> jm_get (spread a b) k = (case jm_get b k of None \<Rightarrow> jm_get a k | Some v \<Rightarrow> Some v)"
proof (induction b arbitrary: a)
  case (Cons x b)
  obtain k' v' where x: "x = (k', v')" by (cases x)
  have "jm_ok b" "jm_get b k' = None" using Cons.prems x by (auto simp: jm_ok_def jm_get_def map_of_eq_None_iff)
  moreover have "jm_get (x # b) k = (if k = k' then Some v' else jm_get b k)" by (simp add: x jm_get_def)
  ultimately show ?case using Cons.IH [of "jm_set k' v' a"] x by (auto simp: spread_def split: option.splits)
qed (simp add: spread_def jm_get_def)

lemma started_rows:
  "rg_rows (snd (update_stopped i g)) = rg_rows g" "rg_rows (fst (update_started started i g)) = rg_rows g"
  "rg_rows (fst (update_apply i merged u g)) = rg_rows g" "rg_rows (fst (check_provider_health probed i g)) = rg_rows g"
  by (simp_all add: update_stopped_def update_started_def update_apply_def check_provider_health_def split: option.splits)

lemma update_provider_rows:
  assumes "update_provider ev started probed i u g = (None, g', es)" "get_provider i g = Some e"
  shows "rg_rows g' = sql_update (\<lambda>row. pr_id row = i) (update_row ev (re_type e) (map_option (spread (re_config e)) (pu_config u)) u) (rg_rows g)"
proof -
  obtain r g1 where b: "update_begin ev i u g = (r, g1)" by fastforce
  have g1: "r = Inr (map_option (spread (re_config e)) (pu_config u))"
    "rg_rows g1 = sql_update (\<lambda>row. pr_id row = i) (update_row ev (re_type e) (map_option (spread (re_config e)) (pu_config u)) u) (rg_rows g)"
    using assms b by (auto simp: update_provider_def update_begin_def Let_def split: if_splits)
  have "rg_rows g' = rg_rows g1"
    using assms(1) b g1(1) started_rows
    by (auto simp: update_provider_def Let_def split: if_splits prod.splits) (metis fst_conv snd_conv)+
  then show ?thesis using g1(2) by simp
qed

lemma to_lower_idem [simp]: "to_lower (to_lower s) = to_lower s"
  by (simp add: to_lower_def is_upper_def)

text \<open>The row of the provider after the registry's update.\<close>

lemma load_update_row:
  "load_config i (sql_update (\<lambda>row. pr_id row = i) (update_row ev ''modem-gateway'' (Some c) u) rows)
     = (if load_config i rows = None then None else Some c)"
  "filter (\<lambda>row. pr_id row \<noteq> i) (sql_update (\<lambda>row. pr_id row = i) (update_row ev type merged u) rows) = filter (\<lambda>row. pr_id row \<noteq> i) rows"
proof -
  have "stored_config ev ''modem-gateway'' c = c"
    by (simp add: stored_config_def encrypt_config_def get_sensitive_fields_def SENSITIVE_FIELDS_def)
  then show "load_config i (sql_update (\<lambda>row. pr_id row = i) (update_row ev ''modem-gateway'' (Some c) u) rows)
     = (if load_config i rows = None then None else Some c)"
    by (induction rows) (auto simp: load_config_def sql_first_def sql_update_def update_row_def)
  show "filter (\<lambda>row. pr_id row \<noteq> i) (sql_update (\<lambda>row. pr_id row = i) (update_row ev type merged u) rows) = filter (\<lambda>row. pr_id row \<noteq> i) rows"
    by (induction rows) (auto simp: sql_update_def update_row_def)
qed

lemma reset_handler_rows_load:
  "load_config i (reset_handler_rows gev i now secret rows) = None \<longleftrightarrow> load_config i rows = None"
  "filter (\<lambda>row. pr_id row \<noteq> i) (reset_handler_rows gev i now secret rows) = filter (\<lambda>row. pr_id row \<noteq> i) rows"
  "load_config i rows = Some c \<Longrightarrow> \<exists>c'. load_config i (reset_handler_rows gev i now secret rows) = Some c'"
  by (simp_all add: reset_handler_rows_def Let_def load_saved)

text \<open>What a reset that was answered with 200 leaves.\<close>

lemma reset_outcome:
  assumes "reset_pairing_route ev gev started probed i now secret handler g = (Answer 200 url, handler', g', wes, es)"
    and "get_provider i g = Some e" "jm_ok (re_config e)" "load_config i (rg_rows g) \<noteq> None"
  obtains c where "load_config i (rg_rows g') = Some c" "valid_pairing_secret secret"
    "\<And>f. jm_get c f = jm_get (reset_config (to_lower (the secret)) (ge_iso_date gev now) (re_config e)) f"
    "filter (\<lambda>row. pr_id row \<noteq> i) (rg_rows g') = filter (\<lambda>row. pr_id row \<noteq> i) (rg_rows g)"
    "re_instance e \<noteq> None \<Longrightarrow> handler' = map_option (fst \<circ> close_existing) handler"
proof -
  let ?reset = "reset_config (to_lower (the secret)) (ge_iso_date gev now) (re_config e)"
  let ?u = "\<lparr> pu_display_name = None, pu_config = Some ?reset, pu_enabled = None \<rparr>"
  let ?c = "spread (re_config e) ?reset"
  have guards: "ev_is_uuid ev (js i)" "re_type e = ''modem-gateway''" "valid_pairing_secret secret"
    using assms(1,2) by (auto simp: reset_pairing_route_def Let_def split: if_splits)
  obtain handler1 wes1 g1 where first: "(case (if re_instance e = None then None else handler) of
        None \<Rightarrow> (handler, [], g)
      | Some h \<Rightarrow> (case reset_pairing_begin h of (h', es) \<Rightarrow>
          (Some h', es, g\<lparr> rg_rows := reset_handler_rows gev i now (to_lower (the secret)) (rg_rows g) \<rparr>))) = (handler1, wes1, g1)"
    by (metis prod_cases3)
  then have g1: "get_provider i g1 = Some e" "load_config i (rg_rows g1) \<noteq> None"
      "filter (\<lambda>row. pr_id row \<noteq> i) (rg_rows g1) = filter (\<lambda>row. pr_id row \<noteq> i) (rg_rows g)"
      "re_instance e \<noteq> None \<longrightarrow> handler1 = map_option (fst \<circ> close_existing) handler"
    using assms(2,4) by (auto simp: get_provider_def reset_pairing_begin_def reset_handler_rows_load split: option.splits if_splits prod.splits)
  obtain r g2 fs where up: "update_provider ev started probed i ?u g1 = (r, g2, fs)" by (metis prod_cases3)
  have second: "r = None" "g' = g2" "handler' = handler1"
    using assms(1) unfolding reset_pairing_route_def assms(2) Let_def
    by (simp_all add: guards first up split: option.splits)
  have rows: "rg_rows g' = sql_update (\<lambda>row. pr_id row = i) (update_row ev ''modem-gateway'' (Some ?c) ?u) (rg_rows g1)"
    using update_provider_rows [OF up [unfolded second(1)] g1(1)] guards(2) second(2) by simp
  have ok: "jm_ok ?reset" using assms(3) by (simp add: reset_config_def)
  have "jm_get ?c f = jm_get ?reset f" for f
  proof (cases "jm_get ?reset f")
    case None
    then have "jm_get (re_config e) f = None" by (auto simp: reset_config_def split: if_splits)
    then show ?thesis using None by (simp add: spread_get [OF ok])
  next
    case (Some v)
    then show ?thesis by (simp add: spread_get [OF ok])
  qed
  moreover have "load_config i (rg_rows g') = Some ?c" unfolding rows load_update_row(1) using g1(2) by simp
  moreover have "filter (\<lambda>row. pr_id row \<noteq> i) (rg_rows g') = filter (\<lambda>row. pr_id row \<noteq> i) (rg_rows g)"
    unfolding rows load_update_row(2) by (rule g1(3))
  ultimately show ?thesis using that guards(3) g1(4) second(3) by blast
qed

text \<open>C38: After a reset of a gateway's pairing that was answered with 200 the connection is closed and
  the stored key is gone, and the next pairing is decided by the new secret alone: it is refused
  for any other secret, for a day-old one and for a key of the wrong length, and otherwise
  admitted and its key stored, whatever the gateway was paired with before. Other providers keep
  their rows.\<close>
theorem reset_allows_new_pairing:
  assumes "reset_pairing_route ev gev started probed i now secret handler g = (Answer 200 url, handler', g', wes, es)"
    and "get_provider i g = Some e" "jm_ok (re_config e)" "load_config i (rg_rows g) \<noteq> None"
    and "ge_lower gev = to_lower" "ge_iso_date gev now \<noteq> []" "ge_parse_date gev (ge_iso_date gev now) = Some now"
  shows "get_public_key (load_config i (rg_rows g')) = None
    \<and> filter (\<lambda>row. pr_id row \<noteq> i) (rg_rows g') = filter (\<lambda>row. pr_id row \<noteq> i) (rg_rows g)
    \<and> (re_instance e \<noteq> None \<longrightarrow> handler = Some h0 \<longrightarrow> (\<exists>h1. handler' = Some h1 \<and> gh_ws h1 = None \<and> \<not> is_connected h1))
    \<and> (let s = settle_wait gev i later (W_Pair_Key k pk secret2) (rg_rows g') h in
        if to_lower secret2 \<noteq> to_lower (the secret) then s = (rg_rows g', refuse_auth ''invalid_secret'' h)
        else if later - now > PAIRING_SECRET_TTL_MS then s = (rg_rows g', refuse_auth ''secret_expired'' h)
        else if ge_base64_length gev pk \<noteq> 32 then s = (rg_rows g', refuse_auth ''invalid_public_key'' h)
        else \<exists>rows. s = (rows, admit h) \<and> get_public_key (load_config i rows) = Some pk)"
proof -
  obtain c where c: "load_config i (rg_rows g') = Some c" "valid_pairing_secret secret"
    "\<And>f. jm_get c f = jm_get (reset_config (to_lower (the secret)) (ge_iso_date gev now) (re_config e)) f"
    "filter (\<lambda>row. pr_id row \<noteq> i) (rg_rows g') = filter (\<lambda>row. pr_id row \<noteq> i) (rg_rows g)"
    "re_instance e \<noteq> None \<Longrightarrow> handler' = map_option (fst \<circ> close_existing) handler"
    using reset_outcome [OF assms(1-4)] by blast
  have "the secret \<noteq> []" using c(2) by (auto simp: valid_pairing_secret_def split: option.splits)
  then have some: "to_lower (the secret) \<noteq> []" by (simp add: to_lower_def)
  have stored: "get_public_key (Some c) = None" "get_pairing_secret (Some c) = Some (to_lower (the secret))"
      "get_pairing_secret_created_at gev (Some c) = Some now"
    using field_names assms(6,7)
    by (simp_all add: get_public_key_def get_pairing_secret_def get_pairing_secret_created_at_def stored_text_def config_text_def
        c(3) reset_config_def Let_def)
  have refusal: "pairing_refusal gev later c pk secret2 =
      (if to_lower secret2 \<noteq> to_lower (the secret) then Some ''invalid_secret''
       else if later - now > PAIRING_SECRET_TTL_MS then Some ''secret_expired''
       else if ge_base64_length gev pk \<noteq> 32 then Some ''invalid_public_key'' else None)"
    using some by (simp add: pairing_refusal_def stored assms(5) eq_commute)
  have "\<exists>rows. settle_wait gev i later (W_Store_Load k pk p) (rg_rows g') h = (rows, admit h)
      \<and> get_public_key (load_config i rows) = Some pk" for p
    using settle_store [OF c(1) refl, of gev later k pk p h] stored_pairing(1) [OF refl] by metis
  moreover have "\<exists>h1. handler' = Some h1 \<and> gh_ws h1 = None \<and> \<not> is_connected h1" if "re_instance e \<noteq> None" "handler = Some h0"
    using c(5) that close_existing_state(1,2) [of h0 "fst (close_existing h0)" "snd (close_existing h0)"]
    by (simp add: is_connected_def)
  ultimately show ?thesis
    using stored(1) c(1,4) settle_pairing [OF c(1), of gev later k pk secret2 h] refusal by (simp add: Let_def)
qed

lemma gateway_update_accepted:
  assumes "get_provider i g = Some e" "re_type e = ''modem-gateway''"
  shows "\<exists>g' es. update_provider ev started probed i u g = (None, g', es)"
proof -
  have "update_begin ev i u g = (Inr (map_option (spread (re_config e)) (pu_config u)), snd (update_begin ev i u g))"
    using assms by (auto simp: update_begin_def Let_def validate_provider_config_def schemas_by_type_def split: option.splits)
  then show ?thesis
    by (cases "update_begin ev i u g") (auto simp: update_provider_def Let_def split: prod.splits)
qed

definition example_reset_env :: gateway_env where
  "example_reset_env = example_gateway_env\<lparr> ge_iso_date := (\<lambda>_. [1]), ge_parse_date := (\<lambda>_. Some 0) \<rparr>"

lemma reset_allows_new_pairing_witness:
  "\<exists>url g' wes es rows. reset_pairing_route example_env example_reset_env (Some example_inst) None ''g'' 0 (Some (js ''Abc123''))
        None example_gateway_registry = (Answer 200 url, None, g', wes, es)
     \<and> settle_wait example_reset_env ''g'' 9 (W_Pair_Key 0 [7] (js ''aBC123'')) (rg_rows g') new_gateway_handler = (rows, admit new_gateway_handler)"
proof -
  let ?secret = "Some (js ''Abc123'')"
  have e: "get_provider ''g'' example_gateway_registry = Some example_gateway_entry" "re_type example_gateway_entry = ''modem-gateway''"
      "re_config example_gateway_entry = []"
    by (simp_all add: get_provider_def example_gateway_registry_def example_gateway_entry_def fresh_entry_def jmap_eval)
  have l: "load_config ''g'' (rg_rows example_gateway_registry) \<noteq> None"
    by (simp add: load_config_def sql_first_def example_gateway_registry_def example_gateway_row_def)
  have v: "valid_pairing_secret ?secret"
    by (simp add: valid_pairing_secret_def PAIRING_SECRET_REGEX_def text_eval is_digit_def is_lower_def is_upper_def)
  obtain g' es where u: "update_provider example_env (Some example_inst) None ''g''
      \<lparr> pu_display_name = None, pu_config = Some (reset_config (to_lower (the ?secret)) (ge_iso_date example_reset_env 0) []), pu_enabled = None \<rparr>
      example_gateway_registry = (None, g', es)"
    using gateway_update_accepted [OF e(1,2)] by blast
  have r: "reset_pairing_route example_env example_reset_env (Some example_inst) None ''g'' 0 ?secret None example_gateway_registry
      = (Answer 200 (get_signaling_ws_url (ev_base_url example_env) ''g''), None, g', [], es)"
    using u v by (simp add: reset_pairing_route_def e example_env_def)
  have env: "ge_lower example_reset_env = to_lower" "ge_iso_date example_reset_env 0 \<noteq> []"
      "ge_parse_date example_reset_env (ge_iso_date example_reset_env 0) = Some 0" "ge_base64_length example_reset_env [7] = 32"
    by (simp_all add: example_reset_env_def example_gateway_env_def)
  have "to_lower (js ''aBC123'') = to_lower (js ''Abc123'')" by (simp add: text_eval to_lower_def)
  then have "\<exists>rows. settle_wait example_reset_env ''g'' 9 (W_Pair_Key 0 [7] (js ''aBC123'')) (rg_rows g') new_gateway_handler
      = (rows, admit new_gateway_handler)"
    using reset_allows_new_pairing [OF r e(1) _ l env(1-3), of new_gateway_handler 9 0 "[7]" "js ''aBC123''" new_gateway_handler]
    by (auto simp: e(3) env(4) PAIRING_SECRET_TTL_MS_def)
  with r show ?thesis by blast
qed

section \<open>What the documentation promises\<close>

text \<open>The removal of a provider is documented to be rejected while numbers are assigned or calls are active;
  nothing refuses it.\<close>

lemma removal_never_blocked:
  assumes "ev_is_uuid ev (js i)" "get_provider i g = Some e"
  shows "fst (delete_provider_route ev i g) = Answer 204 ()"
  using assms by (simp add: delete_provider_route_def remove_provider_def)

text \<open>The update takes any pairing secret for a gateway, which the addition and the reset check.\<close>

lemma update_skips_secret_check:
  assumes "ev_is_uuid ev (js i)" "get_provider i g = Some e" "re_type e = ''modem-gateway''"
    and "body = Some ([], Config_Object [(js ''pairing_secret'', CStr (js ''1''))])"
  shows "\<not> valid_pairing_secret (Some (js ''1''))"
    and "\<exists>g' es. update_provider ev started probed i
        \<lparr> pu_display_name = None, pu_config = body_config_of body, pu_enabled = None \<rparr> g = (None, g', es)"
  using gateway_update_accepted [OF assms(2,3)]
  by (simp_all add: valid_pairing_secret_def PAIRING_SECRET_REGEX_def)

end
