(* ===== verification/Provider_Form.thy ===== *)
theory Provider_Form
  imports Provider_Routes
begin

text \<open>
  The logic of \<^verbatim>\<open>web/src/components/providers.tsx\<close>, the page that manages providers in the browser:
  its forms and the requests they send. What the routes of \<^theory_text>\<open>Provider_Routes\<close> reply is what the
  page receives. Markup, labels, hints and icons are left out.
\<close>

section \<open>The fields of a form\<close>

datatype field_kind = Kind_Text | Kind_Password | Kind_Textarea | Kind_Checkbox

record config_field =
  cf_name :: string
  cf_type :: field_kind
  cf_required :: bool
  cf_default_checked :: "bool option"
  cf_show_when :: "string option"

definition plain_field :: "string \<Rightarrow> field_kind \<Rightarrow> bool \<Rightarrow> config_field" where
  "plain_field name kind required =
     \<lparr> cf_name = name, cf_type = kind, cf_required = required, cf_default_checked = None, cf_show_when = None \<rparr>"

definition CONFIG_FIELDS :: "string \<Rightarrow> config_field list" where
  "CONFIG_FIELDS type =
     (if type = ''vonage'' then
        [plain_field ''api_key'' Kind_Text True, plain_field ''api_secret'' Kind_Password True,
         plain_field ''signature_secret'' Kind_Password False, plain_field ''application_id'' Kind_Text True,
         plain_field ''private_key'' Kind_Textarea True,
         (plain_field ''webhook_validation'' Kind_Checkbox False)\<lparr> cf_default_checked := Some True \<rparr>]
      else if type = ''46elks'' then
        [plain_field ''api_username'' Kind_Text True, plain_field ''api_password'' Kind_Password True,
         plain_field ''websocket_number'' Kind_Text False,
         (plain_field ''webhook_validation'' Kind_Checkbox False)\<lparr> cf_default_checked := Some True \<rparr>,
         (plain_field ''override_webhook_whitelist'' Kind_Checkbox False)\<lparr> cf_default_checked := Some False,
            cf_show_when := Some ''webhook_validation'' \<rparr>,
         (plain_field ''webhook_ip_allowlist'' Kind_Textarea False)\<lparr> cf_show_when := Some ''override_webhook_whitelist'' \<rparr>]
      else [])"

definition UI_ONLY_CONFIG_FIELDS :: "string list" where
  "UI_ONLY_CONFIG_FIELDS = [''override_webhook_whitelist'']"

datatype form_value = F_Text jstr | F_Bool bool

type_synonym form = "(string, form_value) jmap"

definition build_default_config :: "string \<Rightarrow> form" where
  "build_default_config type = fold (\<lambda>field config. if cf_type field = Kind_Checkbox
     then jm_set (cf_name field) (F_Bool (orelse (cf_default_checked field) False)) config else config) (CONFIG_FIELDS type) []"

text \<open>\<^verbatim>\<open>typeof v === "string" ? v : ""\<close> and \<^verbatim>\<open>v === true\<close>\<close>

definition form_text :: "form \<Rightarrow> string \<Rightarrow> jstr" where
  "form_text form f = (case jm_get form f of Some (F_Text s) \<Rightarrow> s | _ \<Rightarrow> [])"

definition form_true :: "form \<Rightarrow> string \<Rightarrow> bool" where
  "form_true form f \<longleftrightarrow> jm_get form f = Some (F_Bool True)"

section \<open>Display\<close>

text \<open>\<^verbatim>\<open>ts.join(separator)\<close>\<close>

fun join_with :: "jstr \<Rightarrow> jstr list \<Rightarrow> jstr" where
  "join_with sep [] = []"
| "join_with sep [t] = t"
| "join_with sep (t # ts) = t @ sep @ join_with sep ts"


text \<open>The sign for an empty value is the em dash, the code unit 8212; 44 and 32 make the separator. Lists of
  other values and objects are left out.\<close>

definition config_value_display :: "other_json config_value option \<Rightarrow> jstr option" where
  "config_value_display v = (case v of
       None \<Rightarrow> Some [8212]
     | Some (CStr s) \<Rightarrow> Some (if s = [] then [8212] else s)
     | Some (COther (J_Bool b)) \<Rightarrow> Some (if b then js ''On'' else js ''Off'')
     | Some (COther (J_Texts ts)) \<Rightarrow> Some (if 0 < length ts then join_with [44, 32] ts else [8212])
     | Some (COther J_Null) \<Rightarrow> Some [8212]
     | Some (COther J_Other) \<Rightarrow> None)"

definition provider_status_label :: "provider_summary \<Rightarrow> string" where
  "provider_status_label p = (case px_status p of (status, _, auth_error) \<Rightarrow>
     (case status of Ui_Ok \<Rightarrow> ''OK'' | Ui_Not_Connected \<Rightarrow> ''Not Connected'' | Ui_Disabled \<Rightarrow> ''Disabled''
      | Ui_Error \<Rightarrow> if auth_error then ''Authentication Error'' else ''Error''))"

text \<open>The secret of a pairing from random bytes: the first gives the length.\<close>

definition PAIRING_CHARS :: string where
  "PAIRING_CHARS = ''abcdefghijklmnopqrstuvwxyz0123456789''"

definition generate_pairing_secret :: "nat \<Rightarrow> (nat \<Rightarrow> nat) \<Rightarrow> jstr" where
  "generate_pairing_secret random_byte bytes =
     map (\<lambda>i. of_char (PAIRING_CHARS ! (bytes i mod length PAIRING_CHARS))) [0..<6 + random_byte mod 3]"

section \<open>The form for a new provider\<close>

text \<open>Its request: the type, the name and the configuration.\<close>

definition add_config :: "string \<Rightarrow> form \<Rightarrow> jstr option \<Rightarrow> form" where
  "add_config type form secret =
     (let config = fold jm_delete UI_ONLY_CONFIG_FIELDS form in
      case secret of Some s \<Rightarrow> jm_set ''pairing_secret'' (F_Text s) config | None \<Rightarrow> config)"

text \<open>A form as the configuration the server reads from the body.\<close>

definition form_json :: "form \<Rightarrow> config" where
  "form_json form = map (\<lambda>(f, v). (js f, case v of F_Text s \<Rightarrow> CStr s | F_Bool b \<Rightarrow> COther (J_Bool b))) form"

definition add_body :: "string \<Rightarrow> jstr \<Rightarrow> form \<Rightarrow> nat \<Rightarrow> (nat \<Rightarrow> nat) \<Rightarrow> provider_body" where
  "add_body type display_name form random_byte bytes =
     Some ([(js ''type'', CStr (js type)), (js ''displayName'', CStr display_name)],
       Config_Object (form_json (add_config type form
         (if type = ''modem-gateway'' then Some (generate_pairing_secret random_byte bytes) else None))))"

section \<open>The edit form\<close>

text \<open>What a field of the form holds when a provider is opened for editing.\<close>

definition edit_value :: "config \<Rightarrow> config_field \<Rightarrow> form_value" where
  "edit_value config field =
     (let value = jm_get config (js (cf_name field)) in
      if cf_name field = ''override_webhook_whitelist'' then
        F_Bool (case jm_get config (js ''webhook_ip_allowlist'') of
            Some (COther (J_Texts ts)) \<Rightarrow> 0 < length ts | Some (CStr s) \<Rightarrow> 0 < length (trim s) | _ \<Rightarrow> False)
      else if cf_type field = Kind_Checkbox then
        F_Bool (case value of None \<Rightarrow> orelse (cf_default_checked field) False | Some v \<Rightarrow> v \<noteq> COther (J_Bool False))
      else if cf_name field = ''webhook_ip_allowlist'' then
        F_Text (case value of Some (COther (J_Texts ts)) \<Rightarrow> join_with [10] ts | Some (CStr s) \<Rightarrow> s | _ \<Rightarrow> [])
      else (let str_value = (case value of Some (CStr s) \<Rightarrow> s | _ \<Rightarrow> []) in
        F_Text (if starts_with str_value [42] then [] else str_value)))"

definition edit_form_of :: "provider_view \<Rightarrow> form" where
  "edit_form_of v = fold (\<lambda>field. jm_set (cf_name field) (edit_value (vw_config v) field)) (CONFIG_FIELDS (vw_type v)) []"

text \<open>What a field sends when the form is submitted, if anything.\<close>

definition edit_change :: "form \<Rightarrow> form \<Rightarrow> config_field \<Rightarrow> form_value option" where
  "edit_change original current field =
     (let name = cf_name field; text = form_text current name in
      if name \<in> set UI_ONLY_CONFIG_FIELDS then None
      else if name = ''webhook_ip_allowlist'' then
        (if \<not> form_true current ''override_webhook_whitelist''
         then (if 0 < length (trim (form_text original name)) then Some (F_Text []) else None)
         else if text \<noteq> form_text original name then Some (F_Text text) else None)
      else if cf_type field = Kind_Checkbox then
        (if form_true current name \<noteq> form_true original name then Some (F_Bool (form_true current name)) else None)
      else if 0 < length text then Some (F_Text text) else None)"

definition edit_config_update :: "string \<Rightarrow> form \<Rightarrow> form \<Rightarrow> form" where
  "edit_config_update type original current =
     fold (\<lambda>field update. case edit_change original current field of None \<Rightarrow> update | Some v \<Rightarrow> jm_set (cf_name field) v update)
       (CONFIG_FIELDS type) []"

text \<open>The request, \<^const>\<open>None\<close> when nothing is sent: the new name and the changed configuration, each
  only when there is one.\<close>

definition edit_body :: "provider_view \<Rightarrow> jstr \<Rightarrow> form \<Rightarrow> form \<Rightarrow> provider_body" where
  "edit_body v display_name original current =
     (let update = edit_config_update (vw_type v) original current;
          name = (if display_name \<noteq> vw_display_name v then [(js ''displayName'', CStr display_name)] else []);
          config = (if 0 < length (jm_keys update) then Config_Object (form_json update) else No_Config)
      in if name = [] \<and> config = No_Config then None else Some (name, config))"

section \<open>Reading a form\<close>

lemma form_fields_distinct: "distinct (map cf_name (CONFIG_FIELDS type))"
  by (simp add: CONFIG_FIELDS_def plain_field_def)

lemma fold_set_get:
  assumes "distinct (map name xs)"
  shows "jm_get (fold (\<lambda>x m. case val x of None \<Rightarrow> m | Some v \<Rightarrow> jm_set (name x) v m) xs m) k
    = (case find (\<lambda>x. name x = k) xs of Some x \<Rightarrow> (case val x of None \<Rightarrow> jm_get m k | Some v \<Rightarrow> Some v) | None \<Rightarrow> jm_get m k)"
  using assms
proof (induction xs arbitrary: m)
  case (Cons x xs)
  have "find (\<lambda>y. name y = k) xs = None" if "name x = k" using Cons.prems that by (auto simp: find_None_iff) (metis imageI)
  then show ?case using Cons by (auto split: option.splits)
qed simp

lemma find_field: "distinct (map name xs) \<Longrightarrow> x \<in> set xs \<Longrightarrow> find (\<lambda>y. name y = name x) xs = Some x"
  by (induction xs) force+

lemma edit_form_get:
  assumes "field \<in> set (CONFIG_FIELDS (vw_type v))"
  shows "jm_get (edit_form_of v) (cf_name field) = Some (edit_value (vw_config v) field)"
  using fold_set_get [OF form_fields_distinct, where val = "\<lambda>f. Some (edit_value (vw_config v) f)"]
  by (simp add: edit_form_of_def find_field [OF form_fields_distinct assms])

lemma edit_update_get:
  assumes "field \<in> set (CONFIG_FIELDS type)"
  shows "jm_get (edit_config_update type original current) (cf_name field) = edit_change original current field"
  using fold_set_get [OF form_fields_distinct, where val = "edit_change original current"]
  by (simp add: edit_config_update_def find_field [OF form_fields_distinct assms] split: option.splits)

section \<open>What an edit changes\<close>

lemma form_json_get:
  "jm_get (form_json form) (js f) = map_option (\<lambda>v. case v of F_Text s \<Rightarrow> CStr s | F_Bool b \<Rightarrow> COther (J_Bool b)) (jm_get form f)"
  by (induction form) (auto simp: form_json_def jm_get_def)

lemma form_json_ok: "jm_ok form \<Longrightarrow> jm_ok (form_json form)"
  by (induction form) (auto simp: form_json_def jm_ok_def image_iff)

lemma edit_update_ok: "jm_ok (edit_config_update type original current)"
proof -
  have "jm_ok m \<Longrightarrow> jm_ok (fold (\<lambda>field update. case edit_change original current field of None \<Rightarrow> update
      | Some v \<Rightarrow> jm_set (cf_name field) v update) fs m)" for fs m
    by (induction fs arbitrary: m) (auto split: option.splits)
  then show ?thesis by (simp add: edit_config_update_def)
qed

lemma masked_shows_blank: "route_mask_secret s = [] \<or> starts_with (route_mask_secret s) [42]"
  by (cases "length s \<le> 4"; cases s) (auto simp: route_mask_secret_def starts_with_def take_Cons' Suc_diff_le simp del: drop_Cons')

lemma form_fields_stay: "field \<in> set (CONFIG_FIELDS type) \<Longrightarrow> cf_name field \<notin> set (STRIP_FIELDS type)"
  by (auto simp: CONFIG_FIELDS_def STRIP_FIELDS_def split: if_splits)

lemma shown_text:
  assumes "field \<in> set (CONFIG_FIELDS type)" "jm_get (mask_config type c) (js (cf_name field)) = Some (CStr t)"
    and "\<not> starts_with t [42]" "t \<noteq> []"
  shows "jm_get c (js (cf_name field)) = Some (CStr t)"
  using assms form_fields_stay [OF assms(1)] masked_shows_blank
  by (auto simp: mask_config_get split: if_splits option.splits config_value.splits)

lemma list_kept_in_form:
  assumes "field \<in> set (CONFIG_FIELDS (vw_type v))" "cf_name field = ''webhook_ip_allowlist''"
    and "\<not> form_true (edit_form_of v) ''override_webhook_whitelist''"
  shows "trim (form_text (edit_form_of v) (cf_name field)) = []"
proof -
  obtain g where g: "g \<in> set (CONFIG_FIELDS (vw_type v))" "cf_name g = ''override_webhook_whitelist''"
    using assms(1,2) by (force simp: CONFIG_FIELDS_def plain_field_def split: if_splits)
  have "cf_type field \<noteq> Kind_Checkbox" using assms(1,2) by (auto simp: CONFIG_FIELDS_def plain_field_def split: if_splits)
  then show ?thesis
    using assms(2,3) edit_form_get [OF g(1)] edit_form_get [OF assms(1)]
    by (simp add: form_true_def form_text_def g(2) edit_value_def trim_def
        split: option.splits config_value.splits other_json.splits)
qed

lemma unedited_not_changed:
  assumes f: "field \<in> set (CONFIG_FIELDS (vw_type v))" and c: "vw_config v = mask_config (vw_type v) c"
    and same: "jm_get current (cf_name field) = jm_get (edit_form_of v) (cf_name field)"
    and override: "cf_name field = ''webhook_ip_allowlist'' \<Longrightarrow>
      jm_get current ''override_webhook_whitelist'' = jm_get (edit_form_of v) ''override_webhook_whitelist''"
    and change: "edit_change (edit_form_of v) current field = Some x"
  shows "\<exists>t. x = F_Text t \<and> jm_get c (js (cf_name field)) = Some (CStr t)"
proof (cases "cf_name field = ''webhook_ip_allowlist''")
  case True
  have "form_text current (cf_name field) = form_text (edit_form_of v) (cf_name field)"
    "form_true current ''override_webhook_whitelist'' = form_true (edit_form_of v) ''override_webhook_whitelist''"
    using same override [OF True] by (simp_all add: form_text_def form_true_def)
  then show ?thesis
    using change True list_kept_in_form [OF f True] by (auto simp: edit_change_def Let_def UI_ONLY_CONFIG_FIELDS_def split: if_splits)
next
  case False
  have kind: "cf_name field \<notin> set UI_ONLY_CONFIG_FIELDS" "cf_type field \<noteq> Kind_Checkbox"
    using change False same by (auto simp: edit_change_def Let_def form_true_def split: if_splits)
  have typed: "x = F_Text (form_text (edit_form_of v) (cf_name field))" "form_text (edit_form_of v) (cf_name field) \<noteq> []"
    using change False kind same by (auto simp: edit_change_def Let_def form_text_def split: if_splits)
  obtain t where t: "jm_get (vw_config v) (js (cf_name field)) = Some (CStr t)" "form_text (edit_form_of v) (cf_name field) = t"
      "\<not> starts_with t [42]"
    using typed(2) False kind edit_form_get [OF f]
    by (auto simp: form_text_def edit_value_def Let_def UI_ONLY_CONFIG_FIELDS_def split: option.splits config_value.splits if_splits)
  then show ?thesis using shown_text [OF f t(1) [unfolded c] t(3)] typed by simp
qed

text \<open>What the server stores of a field after the request of the edit form.\<close>

lemma edit_stored:
  assumes "all_settled g" "get_provider i g = Some e" "field \<in> set (CONFIG_FIELDS type)"
    and "edit_body v name original current = Some request" "vw_type v = type"
    and "update_provider_route ev gs started probed i (Some request) g = (Answer 200 v', g', es)"
  shows "\<exists>e'. get_provider i g' = Some e' \<and> re_enabled e' = re_enabled e
    \<and> jm_get (re_config e') (js (cf_name field)) = (case edit_change original current field of
          None \<Rightarrow> jm_get (re_config e) (js (cf_name field))
        | Some (F_Text s) \<Rightarrow> Some (CStr s)
        | Some (F_Bool b) \<Rightarrow> Some (COther (J_Bool b)))"
proof -
  let ?update = "edit_config_update type original current"
  let ?u = "\<lparr> pu_display_name = config_text ''displayName'' (fst request), pu_config = body_config_of (Some request),
      pu_enabled = body_truth ''enabled'' (Some request) \<rparr>"
  have fst: "fst request = (if name \<noteq> vw_display_name v then [(js ''displayName'', CStr name)] else [])"
    and snd: "snd request = (if ?update = [] then No_Config else Config_Object (form_json ?update))"
    using assms(4,5) by (auto simp: edit_body_def Let_def jm_keys_def split: if_splits)
  have parts: "body_truth ''enabled'' (Some request) = None" "body_config_of (Some request) = (if ?update = [] then None else Some (form_json ?update))"
    by (simp_all add: fst snd body_truth_def body_config_of_def jm_get_def)
  obtain r g2 fs where up: "update_provider ev started probed i ?u g = (r, g2, fs)" by (metis prod_cases3)
  have over: "r = None" "g' = g2"
    using assms(6) up by (auto simp: update_provider_route_def split: if_splits list.splits option.splits registry_error.splits)
  obtain e' where e': "get_provider i g' = Some e'" "re_enabled e' = re_enabled e"
      "re_config e' = (case pu_config ?u of None \<Rightarrow> re_config e | Some c \<Rightarrow> spread (re_config e) c)"
    using update_settles [OF assms(1) up] over assms(2) parts(1) by auto
  have "jm_get (re_config e') (js (cf_name field))
      = (case jm_get ?update (cf_name field) of None \<Rightarrow> jm_get (re_config e) (js (cf_name field))
        | Some x \<Rightarrow> Some (case x of F_Text s \<Rightarrow> CStr s | F_Bool b \<Rightarrow> COther (J_Bool b)))"
    by (simp add: e'(3) parts(2) spread_get [OF form_json_ok [OF edit_update_ok]] form_json_get split: option.splits)
  then show ?thesis using e' edit_update_get [OF assms(3), of original current] by (auto split: option.splits form_value.splits)
qed


definition example_view :: provider_view where
  "example_view = provider_detail example_env (\<lambda>_. (None, new_gateway_provider)) example_registry
     (fresh_entry (Some example_inst) ''p1'' ''46elks'' (js ''Elks'') example_elks_config True)"

definition example_edit :: form where
  "example_edit = jm_set ''api_username'' (F_Text (js ''me'')) (edit_form_of example_view)"

definition example_edit_request :: "config \<times> body_config" where
  "example_edit_request = ([], Config_Object [(js ''api_username'', CStr (js ''me''))])"

lemma example_elks_get: "jm_get example_elks_config (js f)
    = (if f = ''api_username'' then Some (CStr (js ''u'')) else if f = ''api_password'' then Some (CStr (js ''pw'')) else None)"
  by (simp add: example_elks_config_def jm_get_def)

lemma example_edit_form:
  "edit_form_of example_view = [(''api_username'', F_Text (js ''u'')), (''api_password'', F_Text []), (''websocket_number'', F_Text []),
     (''webhook_validation'', F_Bool True), (''override_webhook_whitelist'', F_Bool False), (''webhook_ip_allowlist'', F_Text [])]"
proof -
  have m: "route_mask_secret (js ''pw'') = [42, 42]" by (simp add: route_mask_secret_def js_def eval_nat_numeral)
  have c: "vw_type example_view = ''46elks''" "jm_get (vw_config example_view) (js f)
      = (if f = ''api_username'' then Some (CStr (js ''u'')) else if f = ''api_password'' then Some (CStr [42, 42]) else None)" for f
    by (simp_all add: example_view_def provider_detail_def fresh_entry_def mask_config_get STRIP_FIELDS_def route_secret_fields_def
        example_elks_get m)
  have u: "js ''u'' \<noteq> 42 # t" for t by (simp add: js_def)
  show ?thesis
    by (simp add: edit_form_of_def c u CONFIG_FIELDS_def plain_field_def edit_value_def jm_set_def Let_def orelse_def starts_with_def)
qed

lemma example_edit_body: "edit_body example_view (js ''Elks'') (edit_form_of example_view) example_edit = Some example_edit_request"
proof -
  have t: "vw_type example_view = ''46elks''" "vw_display_name example_view = js ''Elks''"
    by (simp_all add: example_view_def provider_detail_def fresh_entry_def)
  have "edit_config_update ''46elks'' (edit_form_of example_view) example_edit = [(''api_username'', F_Text (js ''me''))]"
    by (simp add: edit_config_update_def CONFIG_FIELDS_def plain_field_def edit_change_def UI_ONLY_CONFIG_FIELDS_def example_edit_def
        example_edit_form form_text_def form_true_def jm_get_def jm_set_def Let_def trim_def js_def)
  then show ?thesis by (simp add: edit_body_def t example_edit_request_def form_json_def jm_keys_def)
qed

lemma example_edit_accepted:
  "\<exists>v' g' es. update_provider_route example_env (\<lambda>_. (None, new_gateway_provider)) (Some example_inst) None ''p1'' (Some example_edit_request)
     example_registry = (Answer 200 v', g', es)"
proof -
  have c: "jm_get (spread example_elks_config [(js ''api_username'', CStr (js ''me''))]) (js f)
      = (if f = ''api_username'' then Some (CStr (js ''me'')) else if f = ''api_password'' then Some (CStr (js ''pw'')) else None)" for f
    by (simp add: spread_def example_elks_get)
  have t: "trim (js ''me'') \<noteq> []" "trim (js ''pw'') \<noteq> []" by (simp_all add: trim_def text_eval)
  let ?u = "\<lparr> pu_display_name = None, pu_config = Some [(js ''api_username'', CStr (js ''me''))], pu_enabled = None \<rparr>"
  have valid: "validate_provider_config (ev_is_uuid example_env) (ev_is_url example_env) ''46elks''
      (spread example_elks_config [(js ''api_username'', CStr (js ''me''))]) = []"
    by (simp add: validate_provider_config_def schemas_by_type_def elks46_config_schema_def string_field_def boolean_field_def
        texts_field_def not_blank_def c t)
  obtain r g' es where u: "update_provider example_env (Some example_inst) None ''p1'' ?u example_registry = (r, g', es)" by (metis prod_cases3)
  have r: "r = None"
    using u valid by (auto simp: update_provider_def update_begin_def example_registry_simps Let_def fresh_entry_def
        split: prod.splits if_splits)
  have s: "all_settled example_registry" unfolding example_registry_def by (rule load_all_settled)
  obtain e' where "get_provider ''p1'' g' = Some e'" using update_settles [OF s u] r by auto
  then show ?thesis
    using u r by (simp add: update_provider_route_def example_edit_request_def update_provider_issues_def string_field_def boolean_field_def
        config_text_def body_config_of_def body_truth_def example_env_def)
qed


section \<open>Secrets, and what the form still sends\<close>

text \<open>Whatever bytes are drawn, the server takes the secret the page made.\<close>

lemma page_secret_accepted: "valid_pairing_secret (Some (generate_pairing_secret random_byte bytes))"
proof -
  have chars: "list_all (\<lambda>c. is_digit (of_char c) \<or> is_lower (of_char c) \<or> is_upper (of_char c)) PAIRING_CHARS"
    by (simp add: PAIRING_CHARS_def is_digit_def is_lower_def is_upper_def)
  have "is_digit u \<or> is_lower u \<or> is_upper u" if "u \<in> set (generate_pairing_secret random_byte bytes)" for u
  proof -
    have pos: "0 < length PAIRING_CHARS" by (simp add: PAIRING_CHARS_def)
    obtain k where "u = of_char (PAIRING_CHARS ! (k mod length PAIRING_CHARS))"
      using \<open>u \<in> _\<close> by (auto simp: generate_pairing_secret_def)
    then show ?thesis using chars nth_mem [OF mod_less_divisor [OF pos], of k] by (auto simp: list_all_iff)
  qed
  moreover have "length (generate_pairing_secret random_byte bytes) = 6 + random_byte mod 3"
    by (simp add: generate_pairing_secret_def)
  moreover have "random_byte mod 3 < 3" by simp
  ultimately show ?thesis by (auto simp: valid_pairing_secret_def PAIRING_SECRET_REGEX_def list_all_iff)
qed

text \<open>Submitting the form of a provider with nothing changed sends its plain texts again, and a
  configuration in the request restarts the provider.\<close>

lemma untouched_edit_restarts:
  assumes "vw_type v = ''46elks''" "jm_get (vw_config v) (js ''api_username'') = Some (CStr t)" "t \<noteq> []" "\<not> starts_with t [42]"
  shows "\<exists>c. edit_body v (vw_display_name v) (edit_form_of v) (edit_form_of v) = Some ([], Config_Object c)
    \<and> needs_reinit \<lparr> pu_display_name = None, pu_config = Some c, pu_enabled = None \<rparr>"
proof -
  let ?user = "plain_field ''api_username'' Kind_Text True"
  have f: "?user \<in> set (CONFIG_FIELDS (vw_type v))" by (simp add: assms(1) CONFIG_FIELDS_def)
  have "edit_value (vw_config v) ?user = F_Text t"
    using assms(4) by (auto simp: edit_value_def plain_field_def assms(2) Let_def)
  then have "form_text (edit_form_of v) ''api_username'' = t"
    using edit_form_get [OF f] by (simp add: form_text_def plain_field_def)
  then have "edit_change (edit_form_of v) (edit_form_of v) ?user = Some (F_Text t)"
    by (simp add: edit_change_def plain_field_def UI_ONLY_CONFIG_FIELDS_def assms(3))
  then have "edit_config_update (vw_type v) (edit_form_of v) (edit_form_of v) \<noteq> []"
    using edit_update_get [OF f, of "edit_form_of v" "edit_form_of v"] by auto
  then show ?thesis by (simp add: edit_body_def jm_keys_def needs_reinit_def)
qed

text \<open>The form for a new provider sends the list that was typed before the override was turned off again,
  which hides the list.\<close>

lemma hidden_allowlist_sent:
  assumes "jm_get form ''webhook_ip_allowlist'' = Some (F_Text s)" "\<not> form_true form ''override_webhook_whitelist''"
  shows "\<exists>c. snd (the (add_body ''46elks'' name form random_byte bytes)) = Config_Object c
    \<and> jm_get c (js ''webhook_ip_allowlist'') = Some (CStr s)"
  using assms by (simp add: add_body_def add_config_def form_json_get UI_ONLY_CONFIG_FIELDS_def)

end
