(* ===== verification/Spec2Isabelle.thy ===== *)
theory Spec2Isabelle
  imports Validators Url_Guard Formatters Web_Text Ws_Tickets Auth_Service Startup_Cleanup
    Call_Story Failure_Detector Call_Router Broadcaster_System Call_Controller_Stories Message_Routes Provider_Form
begin

text \<open>
  A verification development for svarla, a self-hosted telephony server in TypeScript: devices
  (browsers and phones) log in, place and answer calls and send messages through telephony
  providers, a media bridge carries the audio, and numbers, conversations, call history and
  notifications live in a PostgreSQL database.

  \<^bold>\<open>The program and its parts.\<close> The server (\<^verbatim>\<open>src/\<close>) is a set of services behind HTTP routes,
  provider webhooks, a WebSocket broadcaster and the signalling connections of modem gateways.
  For calls the centre is the call orchestrator: it keeps the tracked calls in memory, asks the
  media bridge for sessions and the providers for calls, tells the devices over the broadcaster,
  and writes the outcome of each call through the call history and the notification services. For
  messages it is the conversation service, with the read state on top of it. The provider registry
  keeps the configured providers, their encrypted configurations and their running instances; the
  number service keeps the numbers in step with what the instances list. Webhooks and gateway
  messages become events of a provider, which the listener of \<^verbatim>\<open>server.ts\<close> hands to the services.
  The authentication service guards the devices' sessions in the device registry, which the
  web-device reaper sweeps; the session hook stands before every route; WebSocket tickets admit a
  session to the socket; a start-up clean-up settles what a crash left; the failure detector ends
  all calls when the bridge fails. The browser client (\<^verbatim>\<open>web/src/\<close>) brings its call controller, its
  WebRTC client, its pages and its checks.

  \<^bold>\<open>Which theory models what.\<close> File names are under \<^verbatim>\<open>src/\<close> of the repository.
  \<^item> \<^verbatim>\<open>Svarla_Prelude\<close>: JavaScript \<^verbatim>\<open>Map\<close> objects as association lists in insertion order
    (locale \<open>key_store\<close>), SQL statements on lists of rows (locale \<open>sql_store\<close>), reachability and
    the invariant rule (locale \<open>invariant_system\<close>).
  \<^item> \<^verbatim>\<open>Js_Text\<close>: strings as UTF-16 code units; \<^verbatim>\<open>Validators\<close>: \<^verbatim>\<open>src/validators\<close> (phone numbers,
    labels, messages, passwords); \<^verbatim>\<open>Url_Guard\<close>: \<^verbatim>\<open>src/validators/url-validator.ts\<close>;
    \<^verbatim>\<open>Formatters\<close>: \<^verbatim>\<open>src/formatters\<close>; \<^verbatim>\<open>Web_Text\<close>: \<^verbatim>\<open>web/src/call\<close> (duration, dialer, DTMF and
    capability guards) and \<^verbatim>\<open>src/services/sip-uri-selector.ts\<close>.
  \<^item> \<^verbatim>\<open>Ws_Tickets\<close>: \<^verbatim>\<open>src/services/ws-ticket-service.ts\<close> as a step relation with its clock.
  \<^item> \<^verbatim>\<open>Devices\<close>: \<^verbatim>\<open>src/services/device-registry-manager.ts\<close>; \<^verbatim>\<open>Web_Device_Reaper\<close>:
    \<^verbatim>\<open>src/services/web-device-reaper.ts\<close> over the locale \<open>reaper_registry\<close>, which is the source's
    interface \<^verbatim>\<open>ReaperRegistry\<close> and which the device registry interprets; \<^verbatim>\<open>Auth_Service\<close>:
    \<^verbatim>\<open>src/services/auth-service.ts\<close>, with logins split at the password comparison and the
    registry's life as a step relation.
  \<^item> \<^verbatim>\<open>Call_History\<close>: \<^verbatim>\<open>src/services/call-history-service.ts\<close>; \<^verbatim>\<open>Notifications\<close>:
    \<^verbatim>\<open>src/services/notification-service.ts\<close>; \<^verbatim>\<open>Startup_Cleanup\<close>:
    \<^verbatim>\<open>src/services/startup-cleanup-service.ts\<close>. Tables are lists of rows; the unique and foreign
    keys the code relies on are checked by the inserts and updates, and their refusal is an error.
  \<^item> \<^verbatim>\<open>Orchestrator\<close>: \<^verbatim>\<open>src/services/call-orchestrator.ts\<close>, one definition per handler or per
    segment between two awaits, with effects as values; \<^verbatim>\<open>Orchestrator_System\<close>: the segments as
    a step relation with the waiting continuations in the state, and its invariant;
    \<^verbatim>\<open>Orchestrator_Props\<close>: the locale \<open>exclusive_claim\<close> of first-come operations, interpreted on
    answering; \<^verbatim>\<open>Call_Lifecycle\<close>, \<^verbatim>\<open>Call_Setup\<close>, \<^verbatim>\<open>Call_Sweeps\<close>: the properties over reachable
    states; \<^verbatim>\<open>Call_Story\<close>: the effects applied to the tables of history and notifications.
  \<^item> \<^verbatim>\<open>Failure_Detector\<close>: \<^verbatim>\<open>src/services/media-bridge-failure-detector.ts\<close>; \<^verbatim>\<open>Call_Router\<close>:
    \<^verbatim>\<open>src/services/call-router.ts\<close> as a step relation, with \<open>exclusive_claim\<close> interpreted a second
    time on the ways to resolve a ringing call.
  \<^item> \<^verbatim>\<open>Broadcaster\<close>: \<^verbatim>\<open>src/websocket/broadcaster.ts\<close>, its sockets and the messages each
    was sent; \<^verbatim>\<open>Broadcaster_System\<close>: connections, closings and ping rounds as a step relation,
    its invariant (interpretation \<open>sockets\<close>), and \<open>connect\<close>, which runs a ticket, the registry of
    devices and the broadcaster in the order a connection meets them.
  \<^item> \<^verbatim>\<open>Provider_Config\<close>: \<^verbatim>\<open>src/validators/provider-config-validator.ts\<close> and
    \<^verbatim>\<open>src/services/config-encryption.ts\<close>; \<^verbatim>\<open>Telephony_Providers\<close>: the Vonage, 46elks and dummy drivers
    and \<^verbatim>\<open>ncco-builder.ts\<close> of \<^verbatim>\<open>src/providers\<close>; \<^verbatim>\<open>Provider_Registry\<close>:
    \<^verbatim>\<open>src/services/provider-registry.ts\<close>, cut at its awaits, as a step relation.
  \<^item> \<^verbatim>\<open>Webhook_Auth\<close>: \<^verbatim>\<open>src/middleware/webhook-auth-middleware.ts\<close> and
    \<^verbatim>\<open>src/routes/webhook-endpoint-aliases.ts\<close>; \<^verbatim>\<open>Webhook_Router\<close>: \<^verbatim>\<open>src/routes/webhook-router.ts\<close>;
    \<^verbatim>\<open>Server_Events\<close>: the provider factory and the listener of provider events of \<^verbatim>\<open>src/server.ts\<close>,
    and a hang-up from the webhook to the orchestrator.
  \<^item> \<^verbatim>\<open>Conversations\<close>: \<^verbatim>\<open>src/services/conversation-service.ts\<close>; \<^verbatim>\<open>Conversation_System\<close>: sending,
    retrying and receiving as a step relation; \<^verbatim>\<open>Read_State\<close>: \<^verbatim>\<open>src/services/read-state-service.ts\<close>.
  \<^item> \<^verbatim>\<open>Numbers\<close>: \<^verbatim>\<open>src/services/number-management-service.ts\<close>; \<^verbatim>\<open>Numbers_Sync\<close>: what a
    synchronisation leaves; \<^verbatim>\<open>Numbers_Use\<close>: which number and which provider serve a call or message.
  \<^item> \<^verbatim>\<open>Modem_Gateway\<close>: \<^verbatim>\<open>src/providers/modem-gateway-ws-handler.ts\<close> and
    \<^verbatim>\<open>modem-gateway-persistence.ts\<close>; \<^verbatim>\<open>Modem_Gateway_System\<close>: connections, timers and the waiting
    continuations of a pairing as a step relation; \<^verbatim>\<open>Modem_Gateway_Props\<close>: what holds over reachable
    states; \<^verbatim>\<open>Modem_Gateway_Provider\<close>: \<^verbatim>\<open>src/providers/modem-gateway-telephony-provider.ts\<close>, with its
    requests as a step relation; \<^verbatim>\<open>Modem_Gateway_Stories\<close>: gateway, driver, listener and services
    composed, for messages and for numbers.
  \<^item> \<^verbatim>\<open>Http_Session\<close>: \<^verbatim>\<open>src/middleware/session-middleware.ts\<close>, \<^verbatim>\<open>auth-routes.ts\<close> and
    \<^verbatim>\<open>device-routes.ts\<close> of \<^verbatim>\<open>src/routes\<close>; \<^verbatim>\<open>Call_Routes\<close>: \<^verbatim>\<open>call-routes.ts\<close>; \<^verbatim>\<open>Message_Routes\<close>:
    \<^verbatim>\<open>sms-routes.ts\<close>, \<^verbatim>\<open>read-state-routes.ts\<close>, \<^verbatim>\<open>number-routes.ts\<close>, \<^verbatim>\<open>notification-routes.ts\<close> and
    \<^verbatim>\<open>sync-routes.ts\<close>; \<^verbatim>\<open>Provider_Routes\<close>: \<^verbatim>\<open>provider-routes.ts\<close> and
    \<^verbatim>\<open>modem-gateway-signaling-route.ts\<close>; \<^verbatim>\<open>Provider_Form\<close>: the forms of
    \<^verbatim>\<open>web/src/components/providers.tsx\<close>.
  \<^item> \<^verbatim>\<open>Webrtc_Client\<close>: \<^verbatim>\<open>web/src/call/webrtc-call-client.ts\<close>: the negotiation cut at its awaits,
    the claim of the microphone, mute, the media watchdog and closing; interpretation \<open>rtc\<close>.
  \<^item> \<^verbatim>\<open>Call_Controller\<close>: \<^verbatim>\<open>web/src/call/call-controller.ts\<close>, one definition per method or per
    segment between two awaits, with its requests, sounds and client calls in a log;
    \<^verbatim>\<open>Call_Controller_System\<close>: the segments with the waiting continuations in the state, and the
    invariant (interpretation \<open>cc\<close>); \<^verbatim>\<open>Call_Controller_Props\<close>: what holds over reachable states
    (interpretation \<open>calm\<close> of the invariant rule on runs without overlapping sessions);
    \<^verbatim>\<open>Call_Controller_Stories\<close>: complete runs of a dialled and of an answered call, and that the
    waiting continuations are used up.

  \<^bold>\<open>How the code is modelled.\<close> A class with state is a record and its methods are functions on
  it. A handler that awaits is cut at its awaits: segments run without interruption, as they do
  on the event loop, and anything may run between them. Answers of collaborators (providers, the
  bridge, the clock, generated identifiers, \<^verbatim>\<open>bcrypt\<close>, ciphers, signatures, DNS) are arguments;
  requests to them and messages to devices are effects in order. A thrown error is the left side of
  a sum or an answer constructor. A route is a function from the parsed request to the reply, the
  state and the effects. JavaScript numbers of whole value are \<^typ>\<open>int\<close> or \<^typ>\<open>nat\<close>, times are
  milliseconds; no arithmetic of the modelled code comes near the limit of exact integers.

  \<^bold>\<open>What the lemmas show.\<close> Reachability invariants: the agreement of the orchestrator's maps and
  the armed watchdog of every call, the timers of the router, the bound and single use of
  tickets, the registry of devices, the types of the providers' configurations, the life of
  messages, the gateway's requests. Exclusive claims: one answer per call, one resolution per
  ringing call, one call in the browser at a time. Delivery and liveness: a broadcast reaches
  exactly the open sockets of the devices it names, a silent socket is gone after two ping
  rounds, a call whose media stops is failed, a message being sent can always be settled, an
  unproven gateway is closed. Security: what a webhook, a gateway or an HTTP request can do without
  its proof, the lockout, secrets in replies. Functional behaviour on every branch: set-up,
  answer, end and sweeps of calls, history types, notification lifecycle, the clean-up,
  synchronisation and choice of numbers, pairing and its reset, editing a provider. Refinement: the
  routes of calls against the step relation of the orchestrator, the reaper's sweep against its
  one-line description, the detector against the falling edge of its signals, the choice of
  colours against its four priorities. Lemmas under headings named Interleavings, and those
  near their services, show where an interleaving or a boundary value escapes an intention of
  the source (a hang-up during set-up, a refused answer, a repeated webhook, an expired lockout).

  \<^bold>\<open>Bounds and fuel.\<close> No definition runs on fuel; recursion is structural, except the decoding of
  path parameters, which shortens its text, and the continuations of a pairing and of the browser,
  which carry a weight that each segment lowers. The bounds are the source's: 1000 tickets of 30
  seconds, 5 phones, 1000 history entries, watchdogs of 90 seconds and 4 hours, a 30-second ring,
  pings every 30 seconds, 5 seconds without media, 5 seconds for a WebRTC offer, fourteen days of
  pending notifications, 3 retries of a message, for gateways 30 seconds to prove a key, one attempt
  a second, a day for a pairing secret and 30 or 60 seconds for a request.

  \<^bold>\<open>What is not modelled.\<close> The start of the server and its wiring apart from the provider factory
  and the listeners; the client and the event socket of the media bridge, the publisher of wake
  signals and the provisioning of the Android package, which are transport; of the browser the
  components' markup, its transport and its storage; the framework's
  rate limits and its routing; the Android and Go programs and the migrations. Log lines are left
  out throughout.
\<close>

section \<open>Devices in calls\<close>

text \<open>C23: A device that takes part in a call tracked by the orchestrator, in any reachable state
  of it, is never deactivated by the reaper's sweep, however long it has not been seen and
  whether or not it is connected: it is still registered afterwards, under the same name and
  with the same registration.\<close>
theorem device_in_call_survives_sweep:
  assumes "reach orch_init orch_step S" and "jm_get (or_active_calls (sy_state S)) c = Some call"
    and "ac_answered_by_device call = Some device"
    and "devices_ok t" and "get_device device t = Some info"
    and "sweep list_active_devices (\<lambda>i. update_last_seen i seen) deactivate_dormant connected_devices
      (get_active_device_ids (sy_state S)) st now t = (reaped, t')"
  shows "device \<notin> set reaped
    \<and> (get_device device t' = Some info \<or> connected_devices device \<and> get_device device t' = Some (info\<lparr> di_last_seen_at := seen \<rparr>))"
proof -
  have m: "maps_ok (sy_state S)" by (rule reach_maps_ok [OF assms(1)])
  have "jm_ok (or_active_calls (sy_state S))" using m by (simp add: maps_ok_def)
  then have "(c, call) \<in> set (or_active_calls (sy_state S))" using assms(2) jm_get_mem by fast
  moreover have "\<not> ac_ended call" using maps_ok_call [OF m assms(2)] by (simp add: call_ok_def)
  ultimately have i: "device \<in> set (get_active_device_ids (sy_state S))"
    using assms(3) by (force simp: get_active_device_ids_def List.map_filter_def)
  have id: "di_device_id info = device" by (rule rr.lookup_id [OF assms(4,5)])
  note c = rr.sweep_correct [OF assms(4,6)]
  have "device \<notin> set reaped"
    unfolding c(1) using i by (auto simp: reapable_def)
  moreover have "get_device device t' = Some info \<or> connected_devices device \<and> get_device device t' = Some (info\<lparr> di_last_seen_at := seen \<rparr>)"
    using c(2) [of device] assms(5) i id by (auto simp: after_sweep_def reapable_def split: if_splits)
  ultimately show ?thesis ..
qed

theorem device_in_call_survives_sweep_witness:
  "''d1'' \<notin> set (fst (sweep list_active_devices (\<lambda>i. update_last_seen i 0) deactivate_dormant (\<lambda>_. False)
      (get_active_device_ids (sy_state answering_system)) 90000 1000000 [example_device ''d1'' WEB_BROWSER_DEVICE_NAME ''kd'' 0]))"
proof -
  let ?t = "[example_device ''d1'' WEB_BROWSER_DEVICE_NAME ''kd'' 0]"
  obtain reaped t' where w: "sweep list_active_devices (\<lambda>i. update_last_seen i 0) deactivate_dormant (\<lambda>_. False)
      (get_active_device_ids (sy_state answering_system)) 90000 1000000 ?t = (reaped, t')" by fastforce
  have s: "jm_get (or_active_calls (sy_state answering_system)) ''c1'' = Some sample_answered"
    "ac_answered_by_device sample_answered = Some ''d1''"
    by (simp_all add: sample_defs jmap_eval)
  have d: "devices_ok ?t" "get_device ''d1'' ?t = Some (device_info_of (example_device ''d1'' WEB_BROWSER_DEVICE_NAME ''kd'' 0))"
    by (simp_all add: devices_ok_def get_device_def sql_first_def)
  show ?thesis using device_in_call_survives_sweep [OF answering_reachable s d w] unfolding w by simp
qed

end
